(* ===== verification/Mintarr_Prelude.thy ===== *)
theory Mintarr_Prelude
  imports Main "HOL-Library.Sublist"
begin

text \<open>
  Shared vocabulary of the development: the fragment of the Python standard library that the
  modelled code calls on strings and lists, the theorem collections of the component theories,
  and the generic lemmas they share.

  A Python \<open>str\<close> is modelled as a \<^typ>\<open>string\<close> whose characters are the code points
  \<open>0 .. 255\<close>. On these code points \<open>py_lower\<close>, \<open>py_isspace\<close>, \<open>py_strip\<close> and
  \<open>py_in\<close> compute what \<open>str.lower\<close>, \<open>str.isspace\<close>, \<open>str.strip\<close> and the
  \<open>in\<close> operator compute.
\<close>

named_theorems queue_simps \<open>equations of the job-queue operations\<close>
named_theorems table_simps \<open>equations of the SQL-table operations\<close>
named_theorems policy_simps \<open>equations of the verification policy\<close>

section \<open>Python strings\<close>

definition py_lower_char :: "char \<Rightarrow> char" where
  "py_lower_char c =
     (let n = (of_char c :: nat) in
      if 65 \<le> n \<and> n \<le> 90 \<or> 192 \<le> n \<and> n \<le> 222 \<and> n \<noteq> 215 then char_of (n + 32) else c)"

definition py_lower :: "string \<Rightarrow> string" where
  "py_lower s = map py_lower_char s"

fun py_in :: "'a list \<Rightarrow> 'a list \<Rightarrow> bool" where
  "py_in needle [] = (needle = [])"
| "py_in needle (c # cs) = (prefix needle (c # cs) \<or> py_in needle cs)"

definition py_isspace_char :: "char \<Rightarrow> bool" where
  "py_isspace_char c =
     (let n = (of_char c :: nat) in
      9 \<le> n \<and> n \<le> 13 \<or> 28 \<le> n \<and> n \<le> 32 \<or> n = 133 \<or> n = 160)"

definition py_lstrip :: "string \<Rightarrow> string" where
  "py_lstrip s = dropWhile py_isspace_char s"

definition py_rstrip :: "string \<Rightarrow> string" where
  "py_rstrip s = rev (dropWhile py_isspace_char (rev s))"

definition py_strip :: "string \<Rightarrow> string" where
  "py_strip s = py_rstrip (py_lstrip s)"

text \<open>\<open>x or default\<close> where \<open>x\<close> is an optional string: \<open>None\<close> and the empty string are falsy.\<close>

definition str_or :: "string option \<Rightarrow> string \<Rightarrow> string" where
  "str_or x d = (case x of None \<Rightarrow> d | Some s \<Rightarrow> if s = [] then d else s)"

definition truthy_str :: "string option \<Rightarrow> bool" where
  "truthy_str x = (case x of None \<Rightarrow> False | Some s \<Rightarrow> s \<noteq> [])"

text \<open>\<open>x or default\<close> where \<open>x\<close> is an optional integer: \<open>None\<close> and \<open>0\<close> are falsy.\<close>

definition int_or :: "int option \<Rightarrow> int \<Rightarrow> int" where
  "int_or x d = (case x of None \<Rightarrow> d | Some n \<Rightarrow> if n = 0 then d else n)"

lemma length_py_lower [simp]: "length (py_lower s) = length s"
  by (simp add: py_lower_def)

lemma py_in_iff_sublist: "py_in xs ys \<longleftrightarrow> sublist xs ys"
  by (induction ys) (auto simp: sublist_Cons_right)

lemma py_in_append_cong: "py_in xs ys \<Longrightarrow> py_in xs (us @ ys @ vs)"
  by (metis py_in_iff_sublist sublist_appendI sublist_order.order_trans)

lemma of_lower_char:
  "(of_char (py_lower_char c) :: nat) =
     (if 65 \<le> (of_char c :: nat) \<and> (of_char c :: nat) \<le> 90 \<or> 192 \<le> (of_char c :: nat) \<and> (of_char c :: nat) \<le> 222 \<and>
        (of_char c :: nat) \<noteq> 215 then of_char c + 32 else of_char c)"
  by (auto simp: py_lower_char_def Let_def)

lemma py_lower_char_eq: "py_lower_char c = d \<longleftrightarrow> (of_char (py_lower_char c) :: nat) = of_char d"
  by simp

text \<open>\<open>str(n)\<close> for integers, and \<open>sep.join(parts)\<close>.\<close>

definition digit_char :: "nat \<Rightarrow> char" where
  "digit_char d = char_of (48 + d)"

fun py_str_nat :: "nat \<Rightarrow> string" where
  "py_str_nat n = (if n < 10 then [digit_char n] else py_str_nat (n div 10) @ [digit_char (n mod 10)])"

declare py_str_nat.simps [simp del]

definition py_str_int :: "int \<Rightarrow> string" where
  "py_str_int n = (if n < 0 then CHR ''-'' # py_str_nat (nat (- n)) else py_str_nat (nat n))"

fun py_join :: "string \<Rightarrow> string list \<Rightarrow> string" where
  "py_join sep [] = []"
| "py_join sep [x] = x"
| "py_join sep (x # y # xs) = x @ sep @ py_join sep (y # xs)"

text \<open>Reading a decimal numeral back: the left inverse that makes \<open>str\<close> injective.\<close>

definition digit_val :: "char \<Rightarrow> nat" where
  "digit_val c = of_char c - 48"

definition dec_val :: "string \<Rightarrow> nat" where
  "dec_val s = foldl (\<lambda>n c. 10 * n + digit_val c) 0 s"

lemma digit_val_digit_char [simp]: "d < 10 \<Longrightarrow> digit_val (digit_char d) = d"
  by (simp add: digit_val_def digit_char_def)

lemma dec_val_py_str_nat [simp]: "dec_val (py_str_nat n) = n"
proof (induction n rule: py_str_nat.induct)
  case (1 n)
  then show ?case
    by (cases "n < 10") (simp_all add: py_str_nat.simps[of n] dec_val_def)
qed

lemma py_str_nat_inject [simp]: "py_str_nat m = py_str_nat n \<longleftrightarrow> m = n"
  by (metis dec_val_py_str_nat)

lemma py_str_nat_digits: "c \<in> set (py_str_nat n) \<Longrightarrow> \<exists>d<10. c = digit_char d"
proof (induction n rule: py_str_nat.induct)
  case (1 n)
  show ?case
  proof (cases "n < 10")
    case True
    with "1.prems" show ?thesis by (auto simp: py_str_nat.simps[of n])
  next
    case False
    with "1.prems" consider "c \<in> set (py_str_nat (n div 10))" | "c = digit_char (n mod 10)"
      by (auto simp: py_str_nat.simps[of n])
    then show ?thesis
    proof cases
      case 1
      with "1.IH"[OF False] show ?thesis by blast
    next
      case 2
      then show ?thesis by (auto intro: exI[of _ "n mod 10"])
    qed
  qed
qed

lemma py_str_nat_nonempty [simp]: "py_str_nat n \<noteq> []"
  by (subst py_str_nat.simps) simp

text \<open>\<open>str.upper\<close>. On the code points with a single-character upper-case form in the same range it is
  exact; the three without one (sharp s, micro sign, y with diaeresis) are left alone.\<close>

definition py_upper_char :: "char \<Rightarrow> char" where
  "py_upper_char c =
     (let n = (of_char c :: nat) in
      if 97 \<le> n \<and> n \<le> 122 \<or> 224 \<le> n \<and> n \<le> 254 \<and> n \<noteq> 247 then char_of (n - 32) else c)"

definition py_upper :: "string \<Rightarrow> string" where
  "py_upper s = map py_upper_char s"

text \<open>\<open>s.lstrip(c)\<close> and \<open>s.rstrip(c)\<close> for one character, and \<open>s.split(c)\<close>.\<close>

definition lstrip_char :: "char \<Rightarrow> string \<Rightarrow> string" where
  "lstrip_char c s = dropWhile (\<lambda>x. x = c) s"

definition rstrip_char :: "char \<Rightarrow> string \<Rightarrow> string" where
  "rstrip_char c s = rev (dropWhile (\<lambda>x. x = c) (rev s))"

fun split_char :: "char \<Rightarrow> string \<Rightarrow> string list" where
  "split_char c [] = [[]]"
| "split_char c (x # xs) =
     (if x = c then [] # split_char c xs
      else (case split_char c xs of [] \<Rightarrow> [[x]] | w # ws \<Rightarrow> (x # w) # ws))"

text \<open>\<open>int(s)\<close>: surrounding white space, an optional sign, and decimal digits with single
  underscores between them; \<open>None\<close> is \<open>ValueError\<close>.\<close>

definition is_digit :: "char \<Rightarrow> bool" where
  "is_digit c = (let n = (of_char c :: nat) in 48 \<le> n \<and> n \<le> 57)"

text \<open>\<open>str.isdigit\<close>, which also holds of the superscript digits, on which \<open>int\<close> raises.\<close>

definition py_isdigit :: "char \<Rightarrow> bool" where
  "py_isdigit c = (is_digit c \<or> (of_char c :: nat) \<in> {178, 179, 185})"

fun digits_ok :: "string \<Rightarrow> bool" where
  "digits_ok [] = False"
| "digits_ok [c] = is_digit c"
| "digits_ok (c # d # cs) =
     (is_digit c \<and> (if d = CHR ''_'' then digits_ok cs else digits_ok (d # cs)))"

definition py_int_digits :: "string \<Rightarrow> int option" where
  "py_int_digits s =
     (if digits_ok s then Some (int (dec_val (filter (\<lambda>c. c \<noteq> CHR ''_'') s))) else None)"

definition py_int :: "string \<Rightarrow> int option" where
  "py_int s =
     (case py_strip s of
        [] \<Rightarrow> None
      | c # cs \<Rightarrow>
          if c = CHR ''-'' then map_option uminus (py_int_digits cs)
          else if c = CHR ''+'' then py_int_digits cs
          else py_int_digits (c # cs))"

section \<open>Lists\<close>

text \<open>The first element that minimises a key: what \<open>min(xs, key=f)\<close> and
  \<open>ORDER BY f LIMIT 1\<close> over a scan in list order return.\<close>

fun first_min :: "('a \<Rightarrow> 'k::linorder) \<Rightarrow> 'a list \<Rightarrow> 'a option" where
  "first_min f [] = None"
| "first_min f (x # xs) =
     (case first_min f xs of None \<Rightarrow> Some x | Some y \<Rightarrow> if f x \<le> f y then Some x else Some y)"

lemma first_min_None [simp]: "first_min f xs = None \<longleftrightarrow> xs = []"
  by (cases xs) (auto split: option.splits)

lemma first_min_in_set: "first_min f xs = Some x \<Longrightarrow> x \<in> set xs"
  by (induction xs arbitrary: x) (auto split: option.splits if_splits)

lemma first_min_least: "first_min f xs = Some x \<Longrightarrow> y \<in> set xs \<Longrightarrow> f x \<le> f y"
proof (induction xs arbitrary: x y)
  case Nil
  then show ?case by simp
next
  case (Cons z zs)
  show ?case
  proof (cases "first_min f zs")
    case None
    with Cons.prems show ?thesis by auto
  next
    case (Some m)
    with Cons.prems Cons.IH[OF Some] show ?thesis
      by (auto split: if_splits intro: order_trans)
  qed
qed

lemma first_min_Some_if: "xs \<noteq> [] \<Longrightarrow> \<exists>x. first_min f xs = Some x"
  by (cases "first_min f xs") auto

section \<open>Splitting and joining\<close>

lemma split_char_nonempty [simp]: "split_char c s \<noteq> []"
  by (induction s) (auto split: list.split)

lemma split_char_parts: "w \<in> set (split_char c s) \<Longrightarrow> c \<notin> set w"
  by (induction s arbitrary: w) (auto split: list.splits if_splits)

lemma split_char_plain: "c \<notin> set w \<Longrightarrow> split_char c w = [w]"
  by (induction w) auto

lemma split_char_append: "c \<notin> set w \<Longrightarrow> split_char c (w @ c # s) = w # split_char c s"
  by (induction w) auto

lemma split_join: "ws \<noteq> [] \<Longrightarrow> \<forall>w\<in>set ws. c \<notin> set w \<Longrightarrow> split_char c (py_join [c] ws) = ws"
  by (induction "[c]" ws rule: py_join.induct) (auto simp: split_char_plain split_char_append)

end
