(* ===== verification/Py_Float.thy ===== *)
theory Py_Float
  imports Mintarr_Prelude "HOL-Library.Log_Nat"
begin

text \<open>
  Python's \<open>float\<close> as the policy code uses it: IEEE 754 binary64 with round-to-nearest,
  ties-to-even, represented by the rational number it denotes. The exponent range is not bounded
  (no overflow, no subnormals): the modelled code only multiplies bit rates, track counts and
  percentages by constants between \<open>0.4\<close> and \<open>100\<close>.

  \<open>fl\<close> rounds a rational to the nearest binary64 value; \<open>fl_mult\<close> and \<open>fl_add\<close> are
  the rounded operations. The lemmas bound the rounding error and show that products with small
  integers compare exactly as the rational product does.
\<close>

definition round_half_even :: "rat \<Rightarrow> int" where
  "round_half_even x =
     (let f = \<lfloor>x\<rfloor>; d = x - of_int f in
      if d < 1/2 then f else if 1/2 < d then f + 1 else if even f then f else f + 1)"

definition bit_length :: "int \<Rightarrow> int" where
  "bit_length n = bitlen \<bar>n\<bar>"

definition binary_exponent :: "rat \<Rightarrow> int" where
  "binary_exponent x =
     (let (p, q) = quotient_of x; k = bit_length p - bit_length q in
      if 2 powi k \<le> \<bar>x\<bar> then k else k - 1)"

definition ulp :: "rat \<Rightarrow> rat" where
  "ulp x = 2 powi (binary_exponent x - 52)"

definition fl :: "rat \<Rightarrow> rat" where
  "fl x = (if x = 0 then 0 else of_int (round_half_even (x / ulp x)) * ulp x)"

definition fl_mult :: "rat \<Rightarrow> rat \<Rightarrow> rat" where
  "fl_mult x y = fl (x * y)"

definition fl_add :: "rat \<Rightarrow> rat \<Rightarrow> rat" where
  "fl_add x y = fl (x + y)"

definition fl_div :: "rat \<Rightarrow> rat \<Rightarrow> rat" where
  "fl_div x y = fl (x / y)"

section \<open>Rounding to an integer\<close>

lemma round_half_even_of_int [simp]: "round_half_even (of_int n) = n"
  by (simp add: round_half_even_def)

lemma round_half_even_error: "\<bar>of_int (round_half_even x) - x\<bar> \<le> 1/2"
proof -
  have "of_int \<lfloor>x\<rfloor> \<le> x" and "x < of_int \<lfloor>x\<rfloor> + 1" by linarith+
  then show ?thesis by (auto simp: round_half_even_def Let_def abs_le_iff)
qed

lemma round_half_even_near:
  assumes "\<bar>x - of_int n\<bar> < 1/2"
  shows "round_half_even x = n"
proof -
  have "\<bar>of_int (round_half_even x) - (of_int n :: rat)\<bar> < 1"
    using round_half_even_error[of x] assms by linarith
  then have "\<bar>round_half_even x - n\<bar> < 1"
    by (metis of_int_abs of_int_diff of_int_less_1_iff)
  then show ?thesis by linarith
qed

section \<open>The binary exponent\<close>

lemma bit_length_bounds:
  assumes "n \<noteq> 0"
  shows "(2::rat) powi (bit_length n - 1) \<le> of_int \<bar>n\<bar>" and "of_int \<bar>n\<bar> < (2::rat) powi bit_length n"
proof -
  let ?b = "bitlen \<bar>n\<bar>"
  have pos: "0 < \<bar>n\<bar>" using assms by simp
  then have b: "1 \<le> ?b" by (simp add: bitlen_eq_zero_iff bitlen_nonneg order_less_le int_one_le_iff_zero_less)
  have lo: "2 ^ nat (?b - 1) \<le> \<bar>n\<bar>" and hi: "\<bar>n\<bar> < 2 ^ nat ?b"
    using bitlen_bounds[OF pos] by auto
  have "(of_int (2 ^ nat (?b - 1)) :: rat) \<le> of_int \<bar>n\<bar>" using lo by (simp only: of_int_le_iff)
  with b show "(2::rat) powi (bit_length n - 1) \<le> of_int \<bar>n\<bar>"
    by (simp add: bit_length_def power_int_def)
  have "(of_int \<bar>n\<bar> :: rat) < of_int (2 ^ nat ?b)" using hi by (simp only: of_int_less_iff)
  with b show "of_int \<bar>n\<bar> < (2::rat) powi bit_length n"
    by (simp add: bit_length_def power_int_def)
qed

lemma binary_exponent_bounds:
  assumes "x \<noteq> 0"
  shows "2 powi binary_exponent x \<le> \<bar>x\<bar>" and "\<bar>x\<bar> < 2 powi (binary_exponent x + 1)"
proof -
  obtain p q where pq: "quotient_of x = (p, q)" by (cases "quotient_of x") auto
  have q: "0 < q" by (rule quotient_of_denom_pos[OF pq])
  have x: "x = of_int p / of_int q" by (rule quotient_of_div[OF pq])
  with assms have p: "p \<noteq> 0" by auto
  let ?k = "bit_length p - bit_length q"
  have absx: "\<bar>x\<bar> = of_int \<bar>p\<bar> / of_int q" using q by (simp add: x)
  have up: "\<bar>x\<bar> < 2 powi bit_length p / 2 powi (bit_length q - 1)"
    unfolding absx using bit_length_bounds[OF p] bit_length_bounds[of q] q
    by (intro frac_less) auto
  have low: "2 powi (bit_length p - 1) / 2 powi bit_length q < \<bar>x\<bar>"
    unfolding absx using bit_length_bounds[OF p] bit_length_bounds[of q] q
    by (intro frac_less2) auto
  have up': "\<bar>x\<bar> < 2 powi (?k + 1)"
    using up by (simp add: power_int_diff power_int_add field_simps)
  have low': "2 powi (?k - 1) < \<bar>x\<bar>"
    using low by (simp add: power_int_diff power_int_add field_simps)
  show "2 powi binary_exponent x \<le> \<bar>x\<bar>" and "\<bar>x\<bar> < 2 powi (binary_exponent x + 1)"
    using up' low' by (auto simp: binary_exponent_def pq Let_def)
qed

lemma ulp_pos [simp]: "0 < ulp x"
  by (simp add: ulp_def)

lemma ulp_neq_0 [simp]: "ulp x \<noteq> 0"
  by (simp add: ulp_def)

lemma abs_ulp [simp]: "\<bar>ulp x\<bar> = ulp x"
  by (simp add: abs_of_pos)

lemma binary_exponent_unique:
  assumes "2 powi e \<le> \<bar>x\<bar>" and "\<bar>x\<bar> < 2 powi (e + 1)"
  shows "binary_exponent x = e"
proof -
  have nz: "x \<noteq> 0" 
  proof
    assume "x = 0"
    with assms(1) have "(2::rat) powi e \<le> 0" by simp
    moreover have "(0::rat) < 2 powi e" by simp
    ultimately show False by linarith
  qed
  note b = binary_exponent_bounds[OF nz]
  have "(2::rat) powi e < 2 powi (binary_exponent x + 1)" using assms(1) b(2) by simp
  then have "e < binary_exponent x + 1"
    by (meson linorder_not_le one_le_numeral power_int_increasing)
  moreover have "(2::rat) powi binary_exponent x < 2 powi (e + 1)" using assms(2) b(1) by simp
  then have "binary_exponent x < e + 1"
    by (meson linorder_not_le one_le_numeral power_int_increasing)
  ultimately show ?thesis by simp
qed

lemma ulp_le:
  assumes "x \<noteq> 0"
  shows "ulp x \<le> \<bar>x\<bar> / 2 ^ 52" and "\<bar>x\<bar> < 2 ^ 53 * ulp x"
  using binary_exponent_bounds[OF assms]
  by (auto simp: ulp_def power_int_diff power_int_add field_simps)

section \<open>Error bounds and exactness\<close>

lemma fl_error_ulp: "x \<noteq> 0 \<Longrightarrow> \<bar>fl x - x\<bar> \<le> ulp x / 2"
proof -
  assume nz: "x \<noteq> 0"
  have "fl x - x = (of_int (round_half_even (x / ulp x)) - x / ulp x) * ulp x"
    using nz ulp_pos[of x] by (simp add: fl_def left_diff_distrib)
  then have "\<bar>fl x - x\<bar> = \<bar>of_int (round_half_even (x / ulp x)) - x / ulp x\<bar> * ulp x"
    using ulp_pos[of x] by (simp add: abs_mult)
  also have "\<dots> \<le> 1/2 * ulp x"
    by (intro mult_right_mono round_half_even_error) (simp add: less_imp_le)
  finally show ?thesis by simp
qed

lemma fl_error: "\<bar>fl x - x\<bar> \<le> \<bar>x\<bar> / 2 ^ 53"
proof (cases "x = 0")
  case True
  then show ?thesis by (simp add: fl_def)
next
  case False
  then show ?thesis using fl_error_ulp[of x] ulp_le(1)[of x] by simp
qed

text \<open>A value within half a unit in the last place of a representable one rounds to it.\<close>

lemma fl_near:
  assumes "x \<noteq> 0" and "y = of_int m * ulp x" and "\<bar>x - y\<bar> < ulp x / 2"
  shows "fl x = y"
proof -
  have "\<bar>x / ulp x - of_int m\<bar> = \<bar>x - y\<bar> / ulp x"
    using assms(2) ulp_pos[of x]
    by (metis abs_divide abs_of_pos diff_divide_distrib less_irrefl nonzero_mult_div_cancel_right)
  also have "\<dots> < 1/2" using assms(3) ulp_pos[of x] by (simp add: divide_simps mult.commute)
  finally have "round_half_even (x / ulp x) = m" by (rule round_half_even_near)
  with assms show ?thesis by (simp add: fl_def)
qed

text \<open>An integer below \<open>2 ^ 53\<close> is a multiple of the unit in the last place of any value of its size.\<close>

lemma int_multiple_of_ulp:
  assumes "x \<noteq> 0" and "\<bar>x\<bar> < 2 ^ 53"
  shows "\<exists>m. of_int n = of_int m * ulp x"
proof -
  have "2 powi binary_exponent x < (2::rat) powi 53"
    using binary_exponent_bounds(1)[OF assms(1)] assms(2) by (simp add: order_le_less_trans)
  then have "binary_exponent x < 53"
    by (meson linorder_not_le one_le_numeral power_int_increasing)
  then have j: "binary_exponent x - 52 = - int (nat (52 - binary_exponent x))" by simp
  define j where "j = nat (52 - binary_exponent x)"
  have "of_int n = of_int (n * 2 ^ j) * ulp x"
    by (simp add: ulp_def j flip: j_def, simp add: power_int_minus)
  then show ?thesis by blast
qed

lemma fl_of_int: "\<bar>n\<bar> < 2 ^ 53 \<Longrightarrow> fl (of_int n) = of_int n"
proof (cases "n = 0")
  case True
  then show ?thesis by (simp add: fl_def)
next
  case False
  assume "\<bar>n\<bar> < 2 ^ 53"
  then have "\<bar>(of_int n :: rat)\<bar> < 2 ^ 53"
    by (metis of_int_abs of_int_less_iff of_int_numeral of_int_power)
  then obtain m where "of_int n = of_int m * ulp (of_int n)"
    using int_multiple_of_ulp[of "of_int n" n] False by auto
  with False show ?thesis by (intro fl_near) auto
qed

section \<open>The upgrade factor 1.2\<close>

lemma fl_six_fifths: "fl (6/5) = 5404319552844595 / 2 ^ 52"
proof (rule fl_near)
  have "binary_exponent (6/5) = 0" by (rule binary_exponent_unique) auto
  then have u: "ulp (6/5) = 1 / 2 ^ 52" by (simp add: ulp_def power_int_minus)
  show "5404319552844595 / 2 ^ 52 = of_int 5404319552844595 * ulp (6/5)"
    by (simp add: u)
  show "\<bar>6/5 - 5404319552844595 / 2 ^ 52\<bar> < ulp (6/5) / 2" by (simp add: u)
qed simp

text \<open>
  \<open>n * 1.2\<close> in binary64 is off by less than a fifth from the rational product, and hits it
  exactly where it is an integer. So \<open>new > n * 1.2\<close> decides \<open>5 * new > 6 * n\<close>.
\<close>

lemma six_fifths_bound:
  fixes x n f :: rat
  assumes "x = 6/5 * n - n / (5 * 2 ^ 52)" and "0 \<le> n" and "n < 2 ^ 50"
    and "\<bar>f - x\<bar> \<le> x / 2 ^ 53"
  shows "\<bar>f - 6/5 * n\<bar> < 1/5"
  using assms by (simp add: abs_if split: if_splits)

lemma fl_six_fifths_mult_error:
  assumes "0 \<le> n" and "n < 2 ^ 50"
  shows "\<bar>fl (of_int n * fl (6/5)) - 6/5 * of_int n\<bar> < 1/5"
proof -
  let ?n = "of_int n :: rat"
  let ?x = "?n * fl (6/5)"
  have n: "0 \<le> ?n" "?n < 2 ^ 50"
    using assms by (simp, metis of_int_less_iff of_int_numeral of_int_power)
  have x: "?x = 6/5 * ?n - ?n / (5 * 2 ^ 52)" by (simp add: fl_six_fifths)
  have "0 \<le> ?x" unfolding x using n by simp
  with fl_error[of ?x] have "\<bar>fl ?x - ?x\<bar> \<le> ?x / 2 ^ 53" by simp
  with x n show ?thesis by (intro six_fifths_bound)
qed

lemma fl_six_fifths_mult_exact:
  assumes "0 < m" and "m < 2 ^ 50" and "6 * n = 5 * m"
  shows "fl (of_int n * fl (6/5)) = of_int m"
proof -
  let ?m = "of_int m :: rat"
  let ?x = "of_int n * fl (6/5) :: rat"
  have m: "0 < ?m" "?m < 2 ^ 50"
    using assms by (simp, metis of_int_less_iff of_int_numeral of_int_power)
  have "6 * (of_int n :: rat) = 5 * ?m"
    using assms(3) by (metis of_int_mult of_int_numeral)
  then have n: "of_int n = 5/6 * ?m" by simp
  have x: "?x = ?m - ?m / (6 * 2 ^ 52)" by (simp add: fl_six_fifths n)
  have pos: "?x \<noteq> 0" "\<bar>?x\<bar> < 2 ^ 53" using m by (auto simp: x)
  obtain k where k: "?m = of_int k * ulp ?x" using int_multiple_of_ulp[OF pos, of m] by blast
  show ?thesis
  proof (rule fl_near[OF pos(1) k])
    have "\<bar>?x - ?m\<bar> = ?m / (6 * 2 ^ 52)" using m by (simp add: x)
    also have "\<dots> < ulp ?x / 2"
      using ulp_le(2)[OF pos(1)] m by (simp add: x abs_less_iff)
    finally show "\<bar>?x - ?m\<bar> < ulp ?x / 2" .
  qed
qed

lemma fl_upgrade_compare:
  assumes "0 \<le> n" and "n < 2 ^ 49"
  shows "fl_mult (of_int n) (fl (6/5)) < of_int m \<longleftrightarrow> 6 * n < 5 * m"
proof -
  let ?f = "fl (of_int n * fl (6/5))"
  have e: "\<bar>?f - 6/5 * of_int n\<bar> < 1/5"
    using assms by (intro fl_six_fifths_mult_error) auto
  have frac: "(of_int m :: rat) - 6/5 * of_int n = of_int (5 * m - 6 * n) / 5" by simp
  consider (lt) "6 * n < 5 * m" | (gt) "5 * m < 6 * n" | (eq) "6 * n = 5 * m" by linarith
  then show ?thesis
  proof cases
    case lt
    then have "1 / 5 \<le> (of_int (5 * m - 6 * n) :: rat) / 5"
      by (metis divide_right_mono int_one_le_iff_zero_less of_int_1_le_iff diff_gt_0_iff_gt zero_le_numeral)
    with e frac have "?f < of_int m" unfolding abs_less_iff by linarith
    with lt show ?thesis by (simp add: fl_mult_def)
  next
    case gt
    then have "(of_int (5 * m - 6 * n) :: rat) \<le> -1"
      by (metis diff_less_0_iff_less of_int_le_iff of_int_minus of_int_1 zle_diff1_eq diff_0)
    with e frac have "of_int m < ?f" unfolding abs_less_iff by linarith
    with gt show ?thesis by (simp add: fl_mult_def)
  next
    case eq
    show ?thesis
    proof (cases "m = 0")
      case True
      with eq show ?thesis by (simp add: fl_mult_def fl_def)
    next
      case False
      with eq assms have "0 < m" "m < 2 ^ 50" by auto
      with eq show ?thesis by (simp add: fl_mult_def fl_six_fifths_mult_exact)
    qed
  qed
qed

section \<open>The edition factor 1.5\<close>

lemma half_int_multiple_of_ulp:
  assumes "x \<noteq> 0" and "\<bar>x\<bar> < 2 ^ 52"
  shows "\<exists>m. of_int n / 2 = of_int m * ulp x"
proof -
  have "2 powi binary_exponent x < (2::rat) powi 52"
    using binary_exponent_bounds(1)[OF assms(1)] assms(2) by (simp add: order_le_less_trans)
  then have "binary_exponent x < 52"
    by (meson linorder_not_le one_le_numeral power_int_increasing)
  define j where "j = nat (51 - binary_exponent x)"
  have "binary_exponent x - 52 = - int (Suc j)"
    using \<open>binary_exponent x < 52\<close> by (simp add: j_def)
  then have "ulp x = inverse (2 ^ Suc j)"
    by (simp only: ulp_def power_int_minus power_int_of_nat)
  then have "of_int n / 2 = of_int (n * 2 ^ j) * ulp x" by (simp add: field_simps)
  then show ?thesis by blast
qed

lemma fl_half_int:
  assumes "\<bar>n\<bar> < 2 ^ 53"
  shows "fl (of_int n / 2) = of_int n / 2"
proof (cases "n = 0")
  case True
  then show ?thesis by (simp add: fl_def)
next
  case False
  have "\<bar>(of_int n :: rat)\<bar> < 2 ^ 53"
    using assms by (metis of_int_abs of_int_less_iff of_int_numeral of_int_power)
  then have b: "\<bar>of_int n / 2 :: rat\<bar> < 2 ^ 52" by simp
  obtain m where "of_int n / 2 = of_int m * ulp (of_int n / 2)"
    using half_int_multiple_of_ulp[OF _ b, of n] False by auto
  with False show ?thesis by (intro fl_near) auto
qed

lemma fl_three_halves: "fl (3/2) = 3/2"
  using fl_half_int[of 3] by simp

lemma fl_three_halves_mult:
  assumes "0 \<le> n" and "n < 2 ^ 51"
  shows "fl_mult (of_int n) (fl (3/2)) = of_int (3 * n) / 2"
proof -
  have "fl (of_int (3 * n) / 2) = of_int (3 * n) / 2"
    using assms by (intro fl_half_int) auto
  then show ?thesis by (simp add: fl_mult_def fl_three_halves mult.commute)
qed

end
