(* ===== verification/Py_Json.thy ===== *)
theory Py_Json
  imports Py_Float "HOL-Library.AList"
begin

text \<open>
  Python values of the kinds that \<open>json.loads\<close> and \<open>json.dumps\<close> handle, and dictionaries
  with string keys in insertion order. The records the program passes around (verification
  sidecars, decision-log lines, job projections) are such dictionaries.
\<close>

datatype json =
    JNull
  | JBool bool
  | JInt int
  | JFloat rat
  | JStr string
  | JList "json list"
  | JObj "(string \<times> json) list"

type_synonym dict = "(string \<times> json) list"

text \<open>\<open>bool(v)\<close>.\<close>

fun truthy :: "json \<Rightarrow> bool" where
  "truthy JNull = False"
| "truthy (JBool b) = b"
| "truthy (JInt n) = (n \<noteq> 0)"
| "truthy (JFloat r) = (r \<noteq> 0)"
| "truthy (JStr s) = (s \<noteq> [])"
| "truthy (JList xs) = (xs \<noteq> [])"
| "truthy (JObj d) = (d \<noteq> [])"

text \<open>\<open>d.get(k)\<close>, \<open>d.get(k, default)\<close>, \<open>d[k] = v\<close> and \<open>d.setdefault(k, v)\<close>.\<close>

definition dget :: "string \<Rightarrow> dict \<Rightarrow> json" where
  "dget k d = (case map_of d k of None \<Rightarrow> JNull | Some v \<Rightarrow> v)"

definition dget_default :: "string \<Rightarrow> json \<Rightarrow> dict \<Rightarrow> json" where
  "dget_default k v d = (case map_of d k of None \<Rightarrow> v | Some w \<Rightarrow> w)"

definition dset :: "string \<Rightarrow> json \<Rightarrow> dict \<Rightarrow> dict" where
  "dset k v d = AList.update k v d"

definition dsetdefault :: "string \<Rightarrow> json \<Rightarrow> dict \<Rightarrow> dict" where
  "dsetdefault k v d = (if map_of d k = None then AList.update k v d else d)"

text \<open>\<open>d.pop(k, None)\<close> and \<open>d.update(e)\<close>.\<close>

definition dpop :: "string \<Rightarrow> dict \<Rightarrow> dict" where
  "dpop k d = AList.delete k d"

definition dupdate :: "dict \<Rightarrow> dict \<Rightarrow> dict" where
  "dupdate e d = fold (\<lambda>(k, v). dset k v) e d"

text \<open>\<open>v or w\<close>.\<close>

definition py_or :: "json \<Rightarrow> json \<Rightarrow> json" where
  "py_or v w = (if truthy v then v else w)"

text \<open>\<open>v or {}\<close> where \<open>v\<close> is a dictionary or missing, read as a dictionary.\<close>

fun as_dict :: "json \<Rightarrow> dict" where
  "as_dict (JObj d) = d"
| "as_dict _ = []"

fun as_list :: "json \<Rightarrow> json list" where
  "as_list (JList xs) = xs"
| "as_list _ = []"

lemma dget_dset [simp]: "dget k (dset k' v d) = (if k = k' then v else dget k d)"
  by (simp add: dget_def dset_def update_conv')

lemma dget_default_dset [simp]:
  "dget_default k w (dset k' v d) = (if k = k' then v else dget_default k w d)"
  by (simp add: dget_default_def dset_def update_conv')

lemma dget_dpop [simp]: "dget k (dpop k' d) = (if k = k' then JNull else dget k d)"
  by (simp add: dget_def dpop_def delete_conv')

lemma dupdate_simps [simp]: "dupdate [] d = d" "dupdate ((k, v) # e) d = dupdate e (dset k v d)"
  by (simp_all add: dupdate_def)

lemma dget_dsetdefault:
  "dget k (dsetdefault k' v d) = (if k = k' \<and> map_of d k = None then v else dget k d)"
  by (auto simp: dget_def dsetdefault_def update_conv')

lemma dget_Cons [simp]: "dget k ((k', v) # d) = (if k = k' then v else dget k d)"
  by (simp add: dget_def)

lemma dget_Nil [simp]: "dget k [] = JNull"
  by (simp add: dget_def)

lemma dget_default_Cons [simp]:
  "dget_default k w ((k', v) # d) = (if k = k' then v else dget_default k w d)"
  by (simp add: dget_default_def)

lemma dget_default_Nil [simp]: "dget_default k w [] = w"
  by (simp add: dget_default_def)

end
