(* ===== verification/Verification.thy ===== *)
theory Verification
  imports Py_Json
begin

text \<open>
  The pure verification policy of \<open>app/verification.py\<close>: the score components and overrides,
  the audio decision, its combination with the release-identity axis, and the track-count guards
  that run before a Lidarr ManualImport. The verdict of the spectral analyser and the override
  markers stay strings, as in the source; the closed \<open>Literal\<close> types become datatypes.

  Bit rates and track counts are Python integers. The two comparisons with a float factor
  (\<open>existing_kbps * 1.2\<close> and \<open>expected_tracks * 1.5\<close>) are computed in binary64, as
  Python does; the lemmas relate them to integer comparisons.
\<close>

section \<open>Data\<close>

datatype verification_decision = ACCEPT | ACCEPT_PROVISIONAL | REVIEW_REQUIRED | BLOCK

datatype import_outcome = MANUAL_IMPORTED | RESCUED | FAILED | SKIPPED | PENDING

datatype identity_decision =
  SAME_RELEASE | SAME_FAMILY | AMBIGUOUS_EDITION | INSUFFICIENT_EVIDENCE | WRONG_ALBUM

text \<open>The literal a decision, an outcome or an identity decision is spelled with.\<close>

fun decision_str :: "verification_decision \<Rightarrow> string" where
  "decision_str ACCEPT = ''ACCEPT''"
| "decision_str ACCEPT_PROVISIONAL = ''ACCEPT_PROVISIONAL''"
| "decision_str REVIEW_REQUIRED = ''REVIEW_REQUIRED''"
| "decision_str BLOCK = ''BLOCK''"

fun outcome_str :: "import_outcome \<Rightarrow> string" where
  "outcome_str MANUAL_IMPORTED = ''MANUAL_IMPORTED''"
| "outcome_str RESCUED = ''RESCUED''"
| "outcome_str FAILED = ''FAILED''"
| "outcome_str SKIPPED = ''SKIPPED''"
| "outcome_str PENDING = ''PENDING''"

fun identity_str :: "identity_decision \<Rightarrow> string" where
  "identity_str SAME_RELEASE = ''SAME_RELEASE''"
| "identity_str SAME_FAMILY = ''SAME_FAMILY''"
| "identity_str AMBIGUOUS_EDITION = ''AMBIGUOUS_EDITION''"
| "identity_str INSUFFICIENT_EVIDENCE = ''INSUFFICIENT_EVIDENCE''"
| "identity_str WRONG_ALBUM = ''WRONG_ALBUM''"

record verification_result =
  vr_jid :: string
  vr_score :: int
  vr_verification_decision :: verification_decision
  vr_import_outcome :: import_outcome
  vr_components :: "(string \<times> int) list"
  vr_overrides :: "string list"
  vr_verdict :: string
  vr_new_kbps :: int
  vr_existing_kbps :: int
  vr_existing_label :: string
  vr_album_ids :: "int list"
  vr_title :: string
  vr_sensors :: "dict list"
  vr_files :: "dict list"
  vr_identity_decision :: identity_decision
  vr_identity_confidence :: rat
  vr_identity_reasons :: "string list"
  vr_identity_best_release_id :: json
  vr_identity_current_release_id :: json
  vr_timestamp :: rat
  vr_timestamp_iso :: string

text \<open>Severity order: each decision is stricter than the ones before it.\<close>

fun severity :: "verification_decision \<Rightarrow> nat" where
  "severity ACCEPT = 0"
| "severity ACCEPT_PROVISIONAL = 1"
| "severity REVIEW_REQUIRED = 2"
| "severity BLOCK = 3"

lemma severity_inject [simp]: "severity a = severity b \<longleftrightarrow> a = b"
  by (cases a; cases b) simp_all

instantiation verification_decision :: linorder
begin

definition less_eq_verification_decision :: "verification_decision \<Rightarrow> verification_decision \<Rightarrow> bool" where
  "less_eq_verification_decision a b \<longleftrightarrow> severity a \<le> severity b"

definition less_verification_decision :: "verification_decision \<Rightarrow> verification_decision \<Rightarrow> bool" where
  "less_verification_decision a b \<longleftrightarrow> severity a < severity b"

instance
  by standard (auto simp: less_eq_verification_decision_def less_verification_decision_def)

end

lemmas decision_order_defs [policy_simps] =
  less_eq_verification_decision_def less_verification_decision_def

definition auto_import :: "verification_decision \<Rightarrow> bool" where
  "auto_import d \<longleftrightarrow> d = ACCEPT \<or> d = ACCEPT_PROVISIONAL"

lemma auto_import_iff [policy_simps]: "auto_import d \<longleftrightarrow> d \<le> ACCEPT_PROVISIONAL"
  by (cases d) (simp_all add: auto_import_def decision_order_defs)

section \<open>The audio and identity axes\<close>

definition combine_audio_identity_decision ::
    "verification_decision \<Rightarrow> identity_decision \<Rightarrow> verification_decision" where
  "combine_audio_identity_decision audio_decision identity_decision =
     (if audio_decision = BLOCK then BLOCK
      else if identity_decision = WRONG_ALBUM then BLOCK
      else if audio_decision = REVIEW_REQUIRED then REVIEW_REQUIRED
      else if identity_decision \<in> {AMBIGUOUS_EDITION, INSUFFICIENT_EVIDENCE} then REVIEW_REQUIRED
      else audio_decision)"

section \<open>Track-count guards\<close>

definition EDITION_TRACK_COUNT_ABS_MARGIN :: int where
  "EDITION_TRACK_COUNT_ABS_MARGIN = 4"

definition EDITION_TRACK_COUNT_RATIO :: rat where
  "EDITION_TRACK_COUNT_RATIO = 3/2"

definition edition_track_count_mismatch :: "identity_decision \<Rightarrow> int \<Rightarrow> int \<Rightarrow> bool" where
  "edition_track_count_mismatch identity_decision candidate_tracks expected_tracks =
     (if identity_decision \<notin> {SAME_FAMILY, AMBIGUOUS_EDITION} then False
      else if expected_tracks \<le> 0 \<or> candidate_tracks \<le> 0 then False
      else candidate_tracks \<ge> expected_tracks + EDITION_TRACK_COUNT_ABS_MARGIN
           \<or> of_int candidate_tracks \<ge> fl_mult (of_int expected_tracks) (fl EDITION_TRACK_COUNT_RATIO))"

definition track_count_undercount_mismatch :: "identity_decision \<Rightarrow> int \<Rightarrow> int \<Rightarrow> int \<Rightarrow> bool" where
  "track_count_undercount_mismatch identity_decision candidate_tracks expected_tracks existing_tracks =
     (if identity_decision \<notin> {SAME_RELEASE, SAME_FAMILY, AMBIGUOUS_EDITION} then False
      else if expected_tracks \<le> 0 \<or> candidate_tracks \<le> 0 then False
      else if existing_tracks < expected_tracks then False
      else candidate_tracks < expected_tracks)"

definition apply_track_count_guard ::
    "verification_decision \<Rightarrow> identity_decision \<Rightarrow> int \<Rightarrow> int \<Rightarrow> int \<Rightarrow>
     verification_decision \<times> string option" where
  "apply_track_count_guard decision identity_decision candidate_tracks expected_tracks existing_tracks =
     (if decision \<notin> {ACCEPT, ACCEPT_PROVISIONAL} then (decision, None)
      else if edition_track_count_mismatch identity_decision candidate_tracks expected_tracks
        then (REVIEW_REQUIRED, Some ''edition_tracklist_mismatch'')
      else if track_count_undercount_mismatch identity_decision candidate_tracks expected_tracks existing_tracks
        then (REVIEW_REQUIRED, Some ''track_count_undercount'')
      else (decision, None))"

definition apply_edition_guard ::
    "verification_decision \<Rightarrow> identity_decision \<Rightarrow> int \<Rightarrow> int \<Rightarrow> verification_decision \<times> bool" where
  "apply_edition_guard decision identity_decision candidate_tracks expected_tracks =
     (let (guarded_decision, marker) =
        apply_track_count_guard decision identity_decision candidate_tracks expected_tracks 0
      in (guarded_decision, marker = Some ''edition_tracklist_mismatch''))"

section \<open>Score and overrides\<close>

definition detective_scores :: "(string \<times> int) list" where
  "detective_scores =
     [(''AUTHENTIC'', 35), (''WARNING'', 18), (''SUSPICIOUS'', 5), (''FAKE_CERTAIN'', 0), (''FAKE'', 0)]"

definition compute_components :: "bool \<Rightarrow> bool \<Rightarrow> string \<Rightarrow> bool \<Rightarrow> (string \<times> int) list" where
  "compute_components ffprobe_ok flac_t_ok detective_verdict complete_album =
     [(''ffprobe'', if ffprobe_ok then 25 else 0),
      (''flac_t'', if flac_t_ok then 25 else 0),
      (''detective'', case map_of detective_scores detective_verdict of None \<Rightarrow> 0 | Some n \<Rightarrow> n),
      (''complete'', if complete_album then 15 else 0)]"

definition apply_overrides ::
    "(string \<times> int) list \<Rightarrow> bool \<Rightarrow> bool \<Rightarrow> bool \<Rightarrow> bool \<Rightarrow> string \<Rightarrow> int \<times> string list" where
  "apply_overrides components codec_mismatch flac_t_failed validator_error fake_hi_res detective_verdict =
     (if codec_mismatch then (0, [''codec_mismatch''])
      else if flac_t_failed then (0, [''flac_t_fail''])
      else if validator_error then (0, [''validator_error''])
      else let s = sum_list (map snd components);
               (s', o1) = (if detective_verdict = ''SUSPICIOUS'' \<and> s > 60
                           then (60, [''suspicious_cap_60'']) else (s, []));
               o2 = (if fake_hi_res then o1 @ [''fake_hi_res''] else o1)
           in (s', o2))"

section \<open>The audio decision\<close>

definition is_complete_upgrade :: "int \<Rightarrow> int \<Rightarrow> int \<Rightarrow> bool" where
  "is_complete_upgrade existing_track_count new_track_count expected_track_count \<longleftrightarrow>
     expected_track_count > 0 \<and> existing_track_count < expected_track_count
     \<and> new_track_count \<ge> expected_track_count"

definition is_kbps_upgrade :: "int \<Rightarrow> int \<Rightarrow> bool" where
  "is_kbps_upgrade existing_kbps new_kbps \<longleftrightarrow>
     existing_kbps = 0 \<or> of_int new_kbps > fl_mult (of_int existing_kbps) (fl (6/5))"

definition decide ::
    "int \<Rightarrow> int \<Rightarrow> int \<Rightarrow> string \<Rightarrow> string list \<Rightarrow> int \<Rightarrow> int \<Rightarrow> int \<Rightarrow> verification_decision" where
  "decide score existing_kbps new_kbps detective_verdict overrides
          existing_track_count new_track_count expected_track_count =
     (let complete = is_complete_upgrade existing_track_count new_track_count expected_track_count in
      if ''codec_mismatch'' \<in> set overrides then BLOCK
      else if ''flac_t_fail'' \<in> set overrides then BLOCK
      else if ''validator_error'' \<in> set overrides then BLOCK
      else if ''fake_hi_res'' \<in> set overrides then REVIEW_REQUIRED
      else if detective_verdict \<in> {''FAKE_CERTAIN'', ''FAKE''} then
        (if existing_kbps > 0 \<and> \<not> complete then BLOCK else REVIEW_REQUIRED)
      else if existing_kbps \<ge> 1400 \<and> detective_verdict = ''SUSPICIOUS'' then
        (if complete then ACCEPT_PROVISIONAL else BLOCK)
      else if detective_verdict = ''SUSPICIOUS'' then
        (if is_kbps_upgrade existing_kbps new_kbps \<or> complete then ACCEPT_PROVISIONAL else BLOCK)
      else if score < 20 then
        (if complete then ACCEPT_PROVISIONAL else BLOCK)
      else if score \<ge> 70 then ACCEPT
      else ACCEPT_PROVISIONAL)"

section \<open>The decision-log record\<close>

definition legacy_decision_label :: "verification_result \<Rightarrow> string" where
  "legacy_decision_label r =
     (if vr_import_outcome r = RESCUED then ''RESCUED_BY_RESCAN''
      else case vr_verification_decision r of
        ACCEPT \<Rightarrow> (if vr_verdict r = ''AUTHENTIC'' then ''IMPORTED_AUTHENTIC'' else ''IMPORTED_WITH_WARNING'')
      | ACCEPT_PROVISIONAL \<Rightarrow> ''IMPORTED_DESPITE_FAKE''
      | BLOCK \<Rightarrow> ''BLOCKED''
      | REVIEW_REQUIRED \<Rightarrow> ''REVIEW_REQUIRED'')"

definition legacy_reason :: "verification_result \<Rightarrow> string" where
  "legacy_reason r =
     (let ov = set (vr_overrides r); d = vr_verification_decision r; i = vr_identity_decision r in
      if ''codec_mismatch'' \<in> ov then ''codec mismatch''
      else if ''flac_t_fail'' \<in> ov then ''flac -t failed''
      else if ''no_audio_files'' \<in> ov then ''no audio files downloaded''
      else if ''no_flac_files'' \<in> ov then ''no flac files found''
      else if ''validator_error'' \<in> ov then ''validator unavailable''
      else if ''edition_tracklist_mismatch'' \<in> ov then ''edition/tracklist mismatch''
      else if ''track_count_undercount'' \<in> ov then ''candidate has fewer tracks than tracked release''
      else if d = BLOCK \<and> i = WRONG_ALBUM then ''wrong album identity''
      else if d = REVIEW_REQUIRED \<and> i = AMBIGUOUS_EDITION then ''ambiguous release identity''
      else if d = REVIEW_REQUIRED \<and> i = INSUFFICIENT_EVIDENCE then ''insufficient release identity evidence''
      else if vr_existing_kbps r = 0 then ''nothing pre-existing''
      else if of_int (vr_new_kbps r) > fl_mult (of_int (vr_existing_kbps r)) (fl (6/5))
        then ''upgrade from '' @ vr_existing_label r
      else ''score='' @ py_str_int (vr_score r))"

definition to_decisions_log :: "verification_result \<Rightarrow> dict" where
  "to_decisions_log r =
     [(''ts'', JFloat (vr_timestamp r)),
      (''ts_iso'', JStr (vr_timestamp_iso r)),
      (''jid'', JStr (vr_jid r)),
      (''decision'', JStr (legacy_decision_label r)),
      (''verdict'', JStr (vr_verdict r)),
      (''new_kbps'', JInt (vr_new_kbps r)),
      (''existing_quality'', JStr (vr_existing_label r)),
      (''existing_kbps'', JInt (vr_existing_kbps r)),
      (''album_ids'', JList (map JInt (vr_album_ids r))),
      (''title'', JStr (vr_title r)),
      (''reason'', JStr (legacy_reason r)),
      (''v2_verification_decision'', JStr (decision_str (vr_verification_decision r))),
      (''v2_import_outcome'', JStr (outcome_str (vr_import_outcome r))),
      (''v2_score'', JInt (vr_score r)),
      (''v2_components'', JObj (map (\<lambda>(k, n). (k, JInt n)) (vr_components r))),
      (''v2_overrides'', JList (map JStr (vr_overrides r))),
      (''release_identity_decision'', JStr (identity_str (vr_identity_decision r))),
      (''release_identity_confidence'', JFloat (vr_identity_confidence r)),
      (''release_identity_reasons'', JList (map JStr (vr_identity_reasons r))),
      (''release_identity_best_release_id'', vr_identity_best_release_id r),
      (''release_identity_current_release_id'', vr_identity_current_release_id r),
      (''sensors'', JList (map JObj (vr_sensors r))),
      (''files'', JList (map JObj (vr_files r)))]"

section \<open>Lemmas on the decision\<close>

definition hard_gate_overrides :: "string set" where
  "hard_gate_overrides = {''codec_mismatch'', ''flac_t_fail'', ''validator_error''}"

lemma decide_hard_gate:
  "set overrides \<inter> hard_gate_overrides \<noteq> {} \<Longrightarrow>
   decide score ek nk v overrides et nt xt = BLOCK"
  by (auto simp: decide_def hard_gate_overrides_def Let_def)

lemma decide_review_iff:
  "decide score ek nk v overrides et nt xt = REVIEW_REQUIRED \<longleftrightarrow>
     set overrides \<inter> hard_gate_overrides = {} \<and>
     (''fake_hi_res'' \<in> set overrides \<or>
      v \<in> {''FAKE_CERTAIN'', ''FAKE''} \<and> (ek \<le> 0 \<or> is_complete_upgrade et nt xt))"
  by (auto simp: decide_def hard_gate_overrides_def Let_def)

lemma decide_accept_iff:
  "decide score ek nk v overrides et nt xt = ACCEPT \<longleftrightarrow>
     set overrides \<inter> (hard_gate_overrides \<union> {''fake_hi_res''}) = {} \<and>
     v \<notin> {''FAKE_CERTAIN'', ''FAKE'', ''SUSPICIOUS''} \<and> 70 \<le> score"
  by (auto simp: decide_def hard_gate_overrides_def Let_def)

lemma decide_provisional_iff:
  "decide score ek nk v overrides et nt xt = ACCEPT_PROVISIONAL \<longleftrightarrow>
     set overrides \<inter> (hard_gate_overrides \<union> {''fake_hi_res''}) = {} \<and>
     v \<notin> {''FAKE_CERTAIN'', ''FAKE''} \<and>
     (if v = ''SUSPICIOUS''
      then is_complete_upgrade et nt xt \<or> ek < 1400 \<and> is_kbps_upgrade ek nk
      else score < 70 \<and> (20 \<le> score \<or> is_complete_upgrade et nt xt))"
  by (auto simp: decide_def hard_gate_overrides_def Let_def)

lemma decide_auto_importD:
  assumes "auto_import (decide score ek nk v ov et nt xt)"
  shows "set ov \<inter> hard_gate_overrides = {}" and "''fake_hi_res'' \<notin> set ov"
    and "v \<notin> {''FAKE_CERTAIN'', ''FAKE''}"
    and "v = ''SUSPICIOUS'' \<Longrightarrow> is_complete_upgrade et nt xt \<or> ek < 1400 \<and> is_kbps_upgrade ek nk"
proof -
  note d = assms[unfolded auto_import_def decide_def Let_def]
  show "set ov \<inter> hard_gate_overrides = {}" and "''fake_hi_res'' \<notin> set ov"
    and "v \<notin> {''FAKE_CERTAIN'', ''FAKE''}"
    using d by (simp_all add: hard_gate_overrides_def split: if_split_asm)
  show "is_complete_upgrade et nt xt \<or> ek < 1400 \<and> is_kbps_upgrade ek nk" if "v = ''SUSPICIOUS''"
    using d unfolding that by (simp add: disj_commute split: if_split_asm)
qed

lemma components_sum_bounds:
  "0 \<le> sum_list (map snd (compute_components f t v c)) \<and>
   sum_list (map snd (compute_components f t v c)) \<le> 100"
  by (auto simp: compute_components_def detective_scores_def)

lemma apply_overrides_score:
  "\<not> cm \<Longrightarrow> \<not> ft \<Longrightarrow> \<not> ve \<Longrightarrow>
   fst (apply_overrides comps cm ft ve fh v) =
     (if v = ''SUSPICIOUS'' then min 60 (sum_list (map snd comps)) else sum_list (map snd comps))"
  by (simp add: apply_overrides_def Let_def min_def)

lemma overrides_gate_iff:
  "set (snd (apply_overrides comps cm ft ve fh v)) \<inter> hard_gate_overrides \<noteq> {} \<longleftrightarrow> cm \<or> ft \<or> ve"
  by (auto simp: apply_overrides_def hard_gate_overrides_def Let_def)

lemma overrides_fake_iff:
  "''fake_hi_res'' \<in> set (snd (apply_overrides comps cm ft ve fh v)) \<longleftrightarrow> \<not> (cm \<or> ft \<or> ve) \<and> fh"
  by (auto simp: apply_overrides_def Let_def)

text \<open>What the identity axis alone demands.\<close>

fun identity_floor :: "identity_decision \<Rightarrow> verification_decision" where
  "identity_floor WRONG_ALBUM = BLOCK"
| "identity_floor AMBIGUOUS_EDITION = REVIEW_REQUIRED"
| "identity_floor INSUFFICIENT_EVIDENCE = REVIEW_REQUIRED"
| "identity_floor _ = ACCEPT"

lemma combine_eq_max: "combine_audio_identity_decision a i = max a (identity_floor i)"
  by (cases a; cases i) (simp_all add: combine_audio_identity_decision_def max_def decision_order_defs)

lemma combine_BLOCK [policy_simps]:
  "combine_audio_identity_decision a i = BLOCK \<longleftrightarrow> a = BLOCK \<or> i = WRONG_ALBUM"
  by (cases a; cases i) (simp_all add: combine_audio_identity_decision_def)

lemma combine_auto_import [policy_simps]:
  "auto_import (combine_audio_identity_decision a i) \<longleftrightarrow> auto_import a \<and> i \<in> {SAME_RELEASE, SAME_FAMILY}"
  by (cases a; cases i) (simp_all add: combine_audio_identity_decision_def auto_import_def)

lemma edition_mismatch_exact:
  assumes "expected < 2 ^ 51"
  shows "edition_track_count_mismatch i cand expected \<longleftrightarrow>
    i \<in> {SAME_FAMILY, AMBIGUOUS_EDITION} \<and> 0 < expected \<and> 0 < cand
    \<and> (expected + 4 \<le> cand \<or> 3 * expected \<le> 2 * cand)"
proof (cases "0 < expected")
  case True
  have "fl_mult (of_int expected) (fl (3/2)) = of_int (3 * expected) / 2"
    using True assms by (intro fl_three_halves_mult) auto
  moreover have "(of_int (3 * expected) / 2 \<le> (of_int cand :: rat)) \<longleftrightarrow> 3 * expected \<le> 2 * cand"
  proof -
    have "(of_int (3 * expected) / 2 \<le> (of_int cand :: rat)) \<longleftrightarrow> (of_int (3 * expected) :: rat) \<le> of_int (2 * cand)"
      by (simp add: mult.commute)
    also have "\<dots> \<longleftrightarrow> 3 * expected \<le> 2 * cand" by (rule of_int_le_iff)
    finally show ?thesis .
  qed
  ultimately show ?thesis
    by (auto simp: edition_track_count_mismatch_def EDITION_TRACK_COUNT_RATIO_def EDITION_TRACK_COUNT_ABS_MARGIN_def)
next
  case False
  then show ?thesis by (auto simp: edition_track_count_mismatch_def)
qed

lemma guard_BLOCK [policy_simps]:
  "fst (apply_track_count_guard d i cand ex et) = BLOCK \<longleftrightarrow> d = BLOCK"
  by (cases d) (simp_all add: apply_track_count_guard_def)

lemma guard_auto_import [policy_simps]:
  "auto_import (fst (apply_track_count_guard d i cand ex et)) \<longleftrightarrow>
   auto_import d \<and> \<not> edition_track_count_mismatch i cand ex \<and> \<not> track_count_undercount_mismatch i cand ex et"
  by (cases d) (simp_all add: apply_track_count_guard_def auto_import_def)

section \<open>Properties\<close>

text \<open>(C9) The audio policy as a whole, from the raw gate results to the decision: a candidate is
  blocked exactly when a hard gate failed (codec, \<open>flac -t\<close>, validator), or, with no
  fake-hi-res signal, when a certain fake would replace something it does not complete, when a
  suspicious candidate is neither a completion nor a bit-rate upgrade over a lossy release, or
  when the score is below 20 and it completes nothing.
\<close>

theorem audio_block_iff:
  "(let (score, ov) = apply_overrides (compute_components f t v c) cm ft ve fh v
          in decide score ek nk v ov et nt xt = BLOCK \<longleftrightarrow>
             cm \<or> ft \<or> ve \<or>
             \<not> fh \<and> \<not> is_complete_upgrade et nt xt \<and>
             (if v \<in> {''FAKE_CERTAIN'', ''FAKE''} then 0 < ek
              else if v = ''SUSPICIOUS'' then 1400 \<le> ek \<or> \<not> is_kbps_upgrade ek nk
              else score < 20))"
proof (cases "cm \<or> ft \<or> ve")
  case True
  then show ?thesis
    by (auto simp: apply_overrides_def decide_def)
next
  case False
  obtain score ov where so: "apply_overrides (compute_components f t v c) cm ft ve fh v = (score, ov)"
    by fastforce
  have gate: "set ov \<inter> hard_gate_overrides = {}" and fake: "''fake_hi_res'' \<in> set ov \<longleftrightarrow> fh"
    using overrides_gate_iff[of "compute_components f t v c" cm ft ve fh v]
      overrides_fake_iff[of "compute_components f t v c" cm ft ve fh v] False so by auto
  then have "''codec_mismatch'' \<notin> set ov" "''flac_t_fail'' \<notin> set ov" "''validator_error'' \<notin> set ov"
    by (auto simp: hard_gate_overrides_def)
  with False fake so show ?thesis
    by (auto simp: decide_def Let_def)
qed

theorem audio_block_iff_witness:
  "case apply_overrides (compute_components True True ''FAKE'' True) False False False False ''FAKE'' of
     (score, ov) \<Rightarrow> decide score 900 1000 ''FAKE'' ov 10 10 10 = BLOCK"
  using audio_block_iff[of True True "''FAKE''" True False False False False 900 1000 10 10 10]
  by (simp add: is_complete_upgrade_def split: prod.splits)

text \<open>What an automatic import has passed on the audio axis: no hard gate failed, no
  fake-hi-res signal, the verdict is not a fake, a suspicious candidate completes the album or
  upgrades the bit rate of a release below 1400 kbps, and the score is at most 100.
\<close>

theorem audio_accept_sound:
  assumes "apply_overrides (compute_components f t v c) cm ft ve fh v = (score, ov)"
    and "auto_import (decide score ek nk v ov et nt xt)"
  shows "\<not> cm \<and> \<not> ft \<and> \<not> ve \<and> \<not> fh \<and> v \<notin> {''FAKE_CERTAIN'', ''FAKE''}
    \<and> (v = ''SUSPICIOUS'' \<longrightarrow> is_complete_upgrade et nt xt \<or> ek < 1400 \<and> is_kbps_upgrade ek nk)
    \<and> 0 \<le> score \<and> score \<le> (if v = ''SUSPICIOUS'' then 60 else 100)"
proof -
  let ?comps = "compute_components f t v c"
  note gates = decide_auto_importD(1,2)[OF assms(2)] and verdict = decide_auto_importD(3)[OF assms(2)]
    and susp = decide_auto_importD(4)[OF assms(2)]
  have "\<not> (cm \<or> ft \<or> ve)"
    using gates(1) overrides_gate_iff[of ?comps cm ft ve fh v] unfolding assms(1) by simp
  moreover from this have "\<not> fh"
    using gates(2) overrides_fake_iff[of ?comps cm ft ve fh v] unfolding assms(1) by simp
  ultimately have raw: "\<not> cm \<and> \<not> ft \<and> \<not> ve \<and> \<not> fh" by blast
  then have "score = (if v = ''SUSPICIOUS'' then min 60 (sum_list (map snd (compute_components f t v c)))
                      else sum_list (map snd (compute_components f t v c)))"
    using apply_overrides_score[of cm ft ve "compute_components f t v c" fh v] assms(1) by simp
  with components_sum_bounds[of f t v c]
  have "0 \<le> score \<and> score \<le> (if v = ''SUSPICIOUS'' then 60 else 100)"
    by (simp split: if_splits)
  with raw verdict susp show ?thesis by blast
qed

theorem audio_accept_sound_witness:
  "auto_import (decide 60 320 1000 ''SUSPICIOUS'' [''suspicious_cap_60''] 10 10 10)
   \<and> is_kbps_upgrade 320 1000"
proof -
  have a: "apply_overrides (compute_components True True ''SUSPICIOUS'' True) False False False False ''SUSPICIOUS''
      = (60, [''suspicious_cap_60''])"
    by (simp add: apply_overrides_def compute_components_def detective_scores_def)
  have u: "is_kbps_upgrade 320 1000"
    using fl_upgrade_compare[of 320 1000] by (simp add: is_kbps_upgrade_def)
  have d: "auto_import (decide 60 320 1000 ''SUSPICIOUS'' [''suspicious_cap_60''] 10 10 10)"
    using u by (simp add: auto_import_def decide_def)
  show ?thesis using audio_accept_sound[OF a d] d by (simp add: is_complete_upgrade_def)
qed

text \<open>
  A better score never makes the decision stricter, whatever the rest of the context.
\<close>

theorem decide_antimono_score:
  assumes "score \<le> score'"
  shows "decide score' ek nk v ov et nt xt \<le> decide score ek nk v ov et nt xt"
  using assms by (auto simp: decide_def Let_def decision_order_defs)

theorem decide_antimono_score_witness:
  "decide 90 0 1411 ''AUTHENTIC'' [] 0 0 0 = ACCEPT \<and> decide 10 0 1411 ''AUTHENTIC'' [] 0 0 0 = BLOCK
   \<and> decide 90 0 1411 ''AUTHENTIC'' [] 0 0 0 \<le> decide 10 0 1411 ''AUTHENTIC'' [] 0 0 0"
  using decide_antimono_score[of 10 90 0 1411 "''AUTHENTIC''" "[]" 0 0 0]
  by (simp add: decide_def is_complete_upgrade_def)

text \<open>(C39) 
  The precedence chain over the two axes computes the stricter of the two: the maximum, in
  severity order, of the audio decision and what the identity decision alone demands.
\<close>

theorem combine_is_stricter_axis:
  "combine_audio_identity_decision a i = max a (identity_floor i)"
  by (rule combine_eq_max)

text \<open>The bit-rate upgrade test \<open>new_kbps > existing_kbps * 1.2\<close>, evaluated in binary64
  with the rounded constant 1.2, decides the exact rational comparison for every existing rate
  below \<open>2 ^ 49\<close> kbps: rounding never turns a 20 percent upgrade into a non-upgrade or back.
\<close>

theorem kbps_upgrade_exact:
  assumes "0 \<le> existing_kbps" and "existing_kbps < 2 ^ 49"
  shows "is_kbps_upgrade existing_kbps new_kbps \<longleftrightarrow>
    existing_kbps = 0 \<or> 6 * existing_kbps < 5 * new_kbps"
  using fl_upgrade_compare[OF assms, of new_kbps] by (auto simp: is_kbps_upgrade_def)

theorem kbps_upgrade_exact_witness: "\<not> is_kbps_upgrade 1000 1200 \<and> is_kbps_upgrade 1000 1201"
  using kbps_upgrade_exact[of 1000 1200] kbps_upgrade_exact[of 1000 1201] by simp

text \<open>The track-count guard: it leaves a blocked or held decision alone, never blocks, and
  sends an automatic import to review exactly when the tracklist of a same-family candidate is at
  least 4 tracks or 1.5 times larger than expected, or a candidate is shorter than a complete
  tracked release. The marker says which, the two cases exclude each other, and the binary64
  product with 1.5 is exact for fewer than \<open>2 ^ 51\<close> expected tracks.
\<close>

theorem track_count_guard_spec:
  assumes "expected < 2 ^ 51"
    and "over = (i \<in> {SAME_FAMILY, AMBIGUOUS_EDITION} \<and> 0 < expected \<and> 0 < cand
                 \<and> (expected + 4 \<le> cand \<or> 3 * expected \<le> 2 * cand))"
    and "short = (i \<in> {SAME_RELEASE, SAME_FAMILY, AMBIGUOUS_EDITION} \<and> 0 < cand
                  \<and> cand < expected \<and> expected \<le> existing)"
  shows "\<not> (over \<and> short) \<and>
    apply_track_count_guard d i cand expected existing =
      (if auto_import d \<and> over then (REVIEW_REQUIRED, Some ''edition_tracklist_mismatch'')
       else if auto_import d \<and> short then (REVIEW_REQUIRED, Some ''track_count_undercount'')
       else (d, None))"
proof -
  have "edition_track_count_mismatch i cand expected = over"
    using edition_mismatch_exact[OF assms(1), of i cand] assms(2) by simp
  moreover have "track_count_undercount_mismatch i cand expected existing = short"
    unfolding assms(3) track_count_undercount_mismatch_def by auto
  ultimately show ?thesis
    using assms(2,3) by (auto simp: apply_track_count_guard_def auto_import_def)
qed

theorem track_count_guard_spec_witness:
  "apply_track_count_guard ACCEPT SAME_FAMILY 60 10 10 = (REVIEW_REQUIRED, Some ''edition_tracklist_mismatch'')
   \<and> apply_track_count_guard ACCEPT SAME_RELEASE 8 10 10 = (REVIEW_REQUIRED, Some ''track_count_undercount'')"
  using track_count_guard_spec[of 10 True SAME_FAMILY 60 False 10 ACCEPT]
    track_count_guard_spec[of 10 False SAME_RELEASE 8 True 10 ACCEPT]
  by (simp add: auto_import_def)

end
