(* ===== verification/Sql_Table.thy ===== *)
theory Sql_Table
  imports Mintarr_Prelude
begin

text \<open>
  SQLite tables as lists of rows in rowid order, with the statements the program issues on them:
  \<open>SELECT ... WHERE\<close> is a filter, \<open>UPDATE ... WHERE\<close> maps the selected rows,
  \<open>DELETE ... WHERE\<close> drops them, \<open>INSERT ... ON CONFLICT(key) DO UPDATE\<close> is
  \<open>upsert\<close>, and \<open>ORDER BY ... LIMIT 1\<close> is \<^const>\<open>first_min\<close>. Where a query
  leaves the order of equal rows open, the list order is taken.

  The locale \<open>upsert_table\<close> states what a client of a keyed table relies on (the row it reads
  back after an upsert, that other rows are untouched, that keys stay unique). Each table of
  \<open>state_db.py\<close> interprets it with its own key and its own conflict clause.
\<close>

definition tupdate :: "('r \<Rightarrow> bool) \<Rightarrow> ('r \<Rightarrow> 'r) \<Rightarrow> 'r list \<Rightarrow> 'r list" where
  "tupdate P f rows = map (\<lambda>r. if P r then f r else r) rows"

definition tdelete :: "('r \<Rightarrow> bool) \<Rightarrow> 'r list \<Rightarrow> 'r list" where
  "tdelete P rows = filter (\<lambda>r. \<not> P r) rows"

definition rowcount :: "('r \<Rightarrow> bool) \<Rightarrow> 'r list \<Rightarrow> int" where
  "rowcount P rows = int (length (filter P rows))"

definition tfind :: "('r \<Rightarrow> 'k) \<Rightarrow> 'k \<Rightarrow> 'r list \<Rightarrow> 'r option" where
  "tfind key k rows = List.find (\<lambda>r. key r = k) rows"

definition upsert :: "('r \<Rightarrow> 'k) \<Rightarrow> ('r \<Rightarrow> 'r \<Rightarrow> 'r) \<Rightarrow> 'r \<Rightarrow> 'r list \<Rightarrow> 'r list" where
  "upsert key merge row rows =
     (if \<exists>r\<in>set rows. key r = key row
      then tupdate (\<lambda>r. key r = key row) (\<lambda>r. merge r row) rows
      else rows @ [row])"

text \<open>\<open>LIMIT ? OFFSET ?\<close>: a negative limit is no limit and a negative offset is zero.\<close>

definition sql_limit :: "int \<Rightarrow> int \<Rightarrow> 'r list \<Rightarrow> 'r list" where
  "sql_limit lmt offset rows =
     (let rest = drop (nat offset) rows in if lmt < 0 then rest else take (nat lmt) rest)"

text \<open>\<open>column IN (?, ...)\<close> that is only added to the query when the list is not empty.\<close>

definition opt_in :: "'a list \<Rightarrow> 'a \<Rightarrow> bool" where
  "opt_in xs x = (xs = [] \<or> x \<in> set xs)"

definition opt_not_in :: "'a list \<Rightarrow> 'a \<Rightarrow> bool" where
  "opt_not_in xs x = (xs = [] \<or> x \<notin> set xs)"

section \<open>Lemmas on updates and lookups\<close>

lemma set_tupdate: "set (tupdate P f rows) = (\<lambda>r. if P r then f r else r) ` set rows"
  by (simp add: tupdate_def)

lemma tupdate_none: "\<forall>r\<in>set rows. \<not> P r \<Longrightarrow> tupdate P f rows = rows"
  by (simp add: tupdate_def map_idI)

lemma tupdate_Nil [simp]: "tupdate P f [] = []"
  by (simp add: tupdate_def)

lemma length_tupdate [simp]: "length (tupdate P f rows) = length rows"
  by (simp add: tupdate_def)

lemma map_tupdate_same:
  "(\<And>r. P r \<Longrightarrow> g (f r) = g r) \<Longrightarrow> map g (tupdate P f rows) = map g rows"
  by (simp add: tupdate_def)

lemma tfind_Nil [simp]: "tfind key k [] = None"
  by (simp add: tfind_def)

lemma tfind_Cons: "tfind key k (r # rows) = (if key r = k then Some r else tfind key k rows)"
  by (simp add: tfind_def)

lemma tfind_append:
  "tfind key k (xs @ ys) = (case tfind key k xs of None \<Rightarrow> tfind key k ys | Some r \<Rightarrow> Some r)"
  by (induction xs) (simp_all add: tfind_Cons)

lemma tfind_None_iff: "tfind key k rows = None \<longleftrightarrow> k \<notin> key ` set rows"
  by (auto simp: tfind_def find_None_iff)

lemma tfind_SomeD: "tfind key k rows = Some r \<Longrightarrow> r \<in> set rows \<and> key r = k"
  by (induction rows) (auto simp: tfind_Cons split: if_splits)

lemma tfind_ex: "r \<in> set rows \<Longrightarrow> key r = k \<Longrightarrow> \<exists>r'. tfind key k rows = Some r'"
  by (cases "tfind key k rows") (auto simp: tfind_None_iff)

lemma tfind_distinct:
  "distinct (map key rows) \<Longrightarrow> r \<in> set rows \<Longrightarrow> tfind key (key r) rows = Some r"
  by (induction rows) (auto simp: tfind_Cons)

lemma tfind_distinct_iff:
  "distinct (map key rows) \<Longrightarrow> tfind key k rows = Some r \<longleftrightarrow> r \<in> set rows \<and> key r = k"
  by (auto dest: tfind_SomeD tfind_distinct)

lemma tfind_map:
  "(\<And>r. key (f r) = key r) \<Longrightarrow> tfind key k (map f rows) = map_option f (tfind key k rows)"
  by (induction rows) (simp_all add: tfind_Cons)

lemma tfind_tupdate:
  assumes "\<And>r. P r \<Longrightarrow> key (f r) = key r"
  shows "tfind key k (tupdate P f rows) =
    map_option (\<lambda>r. if P r then f r else r) (tfind key k rows)"
  unfolding tupdate_def by (rule tfind_map) (simp add: assms)

lemma find_filtered_key:
  assumes "distinct (map key rows)"
  shows "List.find (\<lambda>r. key r = k \<and> Q r) rows =
    (case tfind key k rows of None \<Rightarrow> None | Some r \<Rightarrow> if Q r then Some r else None)"
  using assms
proof (induction rows)
  case (Cons r rows)
  show ?case
  proof (cases "key r = k")
    case True
    with Cons.prems have "List.find (\<lambda>r. key r = k \<and> Q r) rows = None"
      by (simp add: find_None_iff) (metis imageI)
    with True show ?thesis by (simp add: tfind_Cons)
  qed (use Cons in \<open>simp add: tfind_Cons\<close>)
qed simp

lemma rowcount_pos: "0 < rowcount P rows \<longleftrightarrow> (\<exists>r\<in>set rows. P r)"
  by (auto simp: rowcount_def filter_empty_conv)

lemma rowcount_nonneg [simp]: "0 \<le> rowcount P rows"
  by (simp add: rowcount_def)

text \<open>A loop that updates the rows of a snapshot one by one, each by its key, equals one update of
  the selected rows: keys are unique and no update changes a key.\<close>

lemma fold_update_by_key_aux:
  assumes key: "\<And>r j. key (g r j) = key j" and "distinct (map key sel)"
  shows "fold (\<lambda>r. tupdate (\<lambda>j. key j = key r) (g r)) sel rows =
    map (\<lambda>j. case tfind key (key j) sel of None \<Rightarrow> j | Some r \<Rightarrow> g r j) rows"
  using assms(2)
proof (induction sel arbitrary: rows)
  case Nil
  then show ?case by simp
next
  case (Cons r sel)
  then have none: "tfind key (key r) sel = None" by (simp add: tfind_None_iff)
  from Cons show ?case
    using none by (auto simp: tupdate_def tfind_Cons key)
qed

lemma fold_update_by_key:
  assumes key: "\<And>r j. key (g r j) = key j" and dist: "distinct (map key rows)"
  shows "fold (\<lambda>r. tupdate (\<lambda>j. key j = key r) (g r)) (filter P rows) rows =
    map (\<lambda>j. if P j then g j j else j) rows"
proof -
  have d: "distinct (map key (filter P rows))" using dist by (rule distinct_map_filter)
  have "(case tfind key (key j) (filter P rows) of None \<Rightarrow> j | Some r \<Rightarrow> g r j) =
      (if P j then g j j else j)" if "j \<in> set rows" for j
  proof (cases "P j")
    case True
    with that d have "tfind key (key j) (filter P rows) = Some j"
      by (intro tfind_distinct) auto
    with True show ?thesis by simp
  next
    case False
    have "tfind key (key j) (filter P rows) = None"
      using False that dist by (auto simp: distinct_map tfind_None_iff dest: inj_onD)
    with False show ?thesis by simp
  qed
  then show ?thesis
    using fold_update_by_key_aux[OF key d] by simp
qed

section \<open>The upsert contract\<close>

locale upsert_table =
  fixes key :: "'r \<Rightarrow> 'k" and merge :: "'r \<Rightarrow> 'r \<Rightarrow> 'r"
  assumes merge_key: "key old = key new \<Longrightarrow> key (merge old new) = key old"
begin

lemma find_upsert:
  "tfind key k (upsert key merge row rows) =
    (if k = key row
     then Some (case tfind key k rows of None \<Rightarrow> row | Some old \<Rightarrow> merge old row)
     else tfind key k rows)"
proof (cases "\<exists>r\<in>set rows. key r = key row")
  case True
  then have up: "upsert key merge row rows = tupdate (\<lambda>r. key r = key row) (\<lambda>r. merge r row) rows"
    by (simp add: upsert_def)
  have "tfind key k (upsert key merge row rows) =
      map_option (\<lambda>r. if key r = key row then merge r row else r) (tfind key k rows)"
    unfolding up by (rule tfind_tupdate) (simp add: merge_key)
  moreover from True have "tfind key (key row) rows \<noteq> None"
    by (metis tfind_None_iff imageI)
  ultimately show ?thesis
    by (cases "tfind key k rows") (auto dest: tfind_SomeD)
next
  case False
  then have "tfind key (key row) rows = None" by (auto simp: tfind_None_iff)
  with False show ?thesis
    by (auto simp: upsert_def tfind_append tfind_Cons split: option.splits)
qed

lemma keys_upsert:
  "map key (upsert key merge row rows) =
    (if key row \<in> key ` set rows then map key rows else map key rows @ [key row])"
proof (cases "\<exists>r\<in>set rows. key r = key row")
  case True
  then have "key row \<in> key ` set rows" by (metis imageI)
  with True show ?thesis
    by (simp add: upsert_def) (rule map_tupdate_same, simp add: merge_key)
next
  case False
  then have "key row \<notin> key ` set rows" by auto
  with False show ?thesis by (simp add: upsert_def)
qed

lemma distinct_upsert:
  "distinct (map key rows) \<Longrightarrow> distinct (map key (upsert key merge row rows))"
  by (auto simp: keys_upsert)

lemma all_upsert:
  assumes "\<forall>r\<in>set rows. Q r" "Q row" "\<And>old. Q old \<Longrightarrow> key old = key row \<Longrightarrow> Q (merge old row)"
  shows "\<forall>r\<in>set (upsert key merge row rows). Q r"
  using assms by (auto simp: upsert_def set_tupdate split: if_splits)

lemma rows_upsertE:
  assumes "r \<in> set (upsert key merge row rows)"
  shows "r = row \<or> r \<in> set rows \<or> (\<exists>old\<in>set rows. key old = key row \<and> r = merge old row)"
  using assms by (auto simp: upsert_def set_tupdate split: if_splits)

end

end
