(* ===== verification/State_Machine.thy ===== *)
theory State_Machine
  imports Main
begin

text \<open>
  Labelled transition systems. \<open>run step s es s'\<close> holds when the events \<open>es\<close> lead from
  \<open>s\<close> to \<open>s'\<close>. The locales collect what the step relations of the components promise (an
  invariant, a set that is never left, a meter that counts events) and what follows for every run.
\<close>

inductive run :: "('s \<Rightarrow> 'e \<Rightarrow> 's \<Rightarrow> bool) \<Rightarrow> 's \<Rightarrow> 'e list \<Rightarrow> 's \<Rightarrow> bool"
  for step :: "'s \<Rightarrow> 'e \<Rightarrow> 's \<Rightarrow> bool" where
  run_refl: "run step s [] s"
| run_step: "run step s es s' \<Longrightarrow> step s' e s'' \<Longrightarrow> run step s (es @ [e]) s''"

inductive_cases run_NilE: "run step s [] s'"

lemma run_trans: "run step s es s' \<Longrightarrow> run step s' fs s'' \<Longrightarrow> run step s (es @ fs) s''"
  by (rotate_tac 1, induction rule: run.induct)
    (auto intro: run.intros simp: append_assoc[symmetric] simp del: append_assoc)

lemma run_single: "step s e s' \<Longrightarrow> run step s [e] s'"
  using run_step[OF run_refl, of step s e s'] by simp

locale preserved =
  fixes step :: "'s \<Rightarrow> 'e \<Rightarrow> 's \<Rightarrow> bool" and inv :: "'s \<Rightarrow> bool"
  assumes step_inv: "step s e s' \<Longrightarrow> inv s \<Longrightarrow> inv s'"
begin

lemma run_inv: "run step s es s' \<Longrightarrow> inv s \<Longrightarrow> inv s'"
  by (induction rule: run.induct) (auto intro: step_inv)

end

text \<open>A reflexive and transitive relation that every step respects holds between the ends of a run.\<close>

locale evolving = preserved +
  fixes rel :: "'s \<Rightarrow> 's \<Rightarrow> bool"
  assumes rel_refl: "rel s s"
    and rel_trans: "rel s s' \<Longrightarrow> rel s' s'' \<Longrightarrow> rel s s''"
    and step_rel: "step s e s' \<Longrightarrow> inv s \<Longrightarrow> rel s s'"
begin

lemma run_rel: "run step s es s' \<Longrightarrow> inv s \<Longrightarrow> rel s s'"
  by (induction rule: run.induct) (auto intro: rel_refl rel_trans step_rel run_inv)

end

text \<open>A meter that each event raises by the event's cost.\<close>

locale metered = preserved +
  fixes meter :: "'s \<Rightarrow> nat" and cost :: "'e \<Rightarrow> nat"
  assumes step_meter: "step s e s' \<Longrightarrow> inv s \<Longrightarrow> meter s' = meter s + cost e"
begin

lemma run_meter: "run step s es s' \<Longrightarrow> inv s \<Longrightarrow> meter s' = meter s + sum_list (map cost es)"
proof (induction rule: run.induct)
  case (run_refl s)
  then show ?case by simp
next
  case (run_step s es s' e s'')
  then show ?case using run_inv step_meter by simp
qed

end

end
