(* ===== verification/Job_Queue.thy ===== *)
theory Job_Queue
  imports Sql_Table State_Machine Py_Json "HOL-Library.Product_Lexorder"
begin

text \<open>
  The worker queue of \<open>app/state_db.py\<close>: the \<open>jobs\<close> table and the operations that the
  request handlers and the worker threads call on it. Every operation runs under the module's
  lock, so that it is one atomic step on the table.

  \<open>jobs_ready\<close> is the result of \<open>_ensure_initialized\<close>: when it is false every
  operation returns its fallback value and writes nothing, which is also what the operations do when
  the database raises. \<open>now\<close> is the value of \<open>time.time()\<close>; sums of times are rounded
  to binary64.
\<close>

section \<open>The jobs table\<close>

datatype job_state = Queued | Running | Cancelling | Completed | Failed | Cancelled

fun job_state_str :: "job_state \<Rightarrow> string" where
  "job_state_str Queued = ''queued''"
| "job_state_str Running = ''running''"
| "job_state_str Cancelling = ''cancelling''"
| "job_state_str Completed = ''completed''"
| "job_state_str Failed = ''failed''"
| "job_state_str Cancelled = ''cancelled''"

definition ACTIVE_JOB_STATES :: "job_state list" where
  "ACTIVE_JOB_STATES = [Queued, Running, Cancelling]"

definition TERMINAL_JOB_STATES :: "job_state list" where
  "TERMINAL_JOB_STATES = [Completed, Failed, Cancelled]"

definition DEFAULT_LEASE_SEC :: rat where
  "DEFAULT_LEASE_SEC = 300"

record job =
  job_id :: int
  job_jid :: string
  job_type :: string
  job_st :: job_state
  job_result_state :: "string option"
  job_priority :: int
  job_created_at :: rat
  job_started_at :: "rat option"
  job_finished_at :: "rat option"
  job_next_attempt_at :: "rat option"
  job_heartbeat_at :: "rat option"
  job_lease_expires_at :: "rat option"
  job_attempts :: int
  job_max_attempts :: int
  job_dedupe_key :: "string option"
  job_source_type :: "string option"
  job_source_id :: "string option"
  job_payload :: dict
  job_progress :: "dict option"
  job_result :: "dict option"
  job_error_text :: "string option"
  job_worker_id :: "string option"
  job_cancel_requested :: bool

record jobs_db =
  jobs_ready :: bool
  jobs_rows :: "job list"
  jobs_next_id :: int

definition empty_jobs_db :: jobs_db where
  "empty_jobs_db = \<lparr>jobs_ready = True, jobs_rows = [], jobs_next_id = 1\<rparr>"

abbreviation active :: "job \<Rightarrow> bool" where
  "active j \<equiv> job_st j \<in> set ACTIVE_JOB_STATES"

abbreviation terminal :: "job \<Rightarrow> bool" where
  "terminal j \<equiv> job_st j \<in> set TERMINAL_JOB_STATES"

section \<open>Operations\<close>

text \<open>\<open>SELECT ... WHERE dedupe_key = ? AND state IN (active) ORDER BY id DESC LIMIT 1\<close>.\<close>

definition active_by_dedupe :: "string \<Rightarrow> job list \<Rightarrow> job option" where
  "active_by_dedupe key rows =
     first_min (\<lambda>j. - job_id j) (filter (\<lambda>j. job_dedupe_key j = Some key \<and> active j) rows)"

definition new_job :: "int \<Rightarrow> rat \<Rightarrow> string \<Rightarrow> string \<Rightarrow> dict \<Rightarrow> string option \<Rightarrow> string option \<Rightarrow>
    string option \<Rightarrow> int \<Rightarrow> int \<Rightarrow> job" where
  "new_job i now jid ty payload dedupe_key source_type source_id priority max_attempts =
     \<lparr>job_id = i, job_jid = jid, job_type = ty, job_st = Queued, job_result_state = None,
      job_priority = priority, job_created_at = now, job_started_at = None,
      job_finished_at = None, job_next_attempt_at = None, job_heartbeat_at = None,
      job_lease_expires_at = None, job_attempts = 0, job_max_attempts = max_attempts,
      job_dedupe_key = dedupe_key, job_source_type = source_type, job_source_id = source_id,
      job_payload = payload, job_progress = None, job_result = None, job_error_text = None,
      job_worker_id = None, job_cancel_requested = False\<rparr>"

definition enqueue_job :: "rat \<Rightarrow> string \<Rightarrow> string \<Rightarrow> dict \<Rightarrow> string option \<Rightarrow> string option \<Rightarrow>
    string option \<Rightarrow> int \<Rightarrow> int \<Rightarrow> jobs_db \<Rightarrow> int option \<times> jobs_db" where
  "enqueue_job now jid ty payload dedupe_key source_type source_id priority max_attempts db =
     (if \<not> jobs_ready db \<or> jid = [] \<or> ty = [] then (None, db)
      else
        case (if truthy_str dedupe_key then active_by_dedupe (the dedupe_key) (jobs_rows db) else None) of
          Some j \<Rightarrow> (Some (job_id j), db)
        | None \<Rightarrow>
            let i = jobs_next_id db in
            (Some i,
             db\<lparr>jobs_rows := jobs_rows db @
                   [new_job i now jid ty payload dedupe_key source_type source_id priority max_attempts],
                jobs_next_id := i + 1\<rparr>))"

definition eligible :: "rat \<Rightarrow> string list \<Rightarrow> string list \<Rightarrow> job \<Rightarrow> bool" where
  "eligible now include_types exclude_types j \<longleftrightarrow>
     job_st j = Queued \<and>
     (case job_next_attempt_at j of None \<Rightarrow> True | Some t \<Rightarrow> t \<le> now) \<and>
     opt_in include_types (job_type j) \<and> opt_not_in exclude_types (job_type j)"

definition claim :: "rat \<Rightarrow> rat \<Rightarrow> string \<Rightarrow> job \<Rightarrow> job" where
  "claim now lease_sec worker_id j =
     j\<lparr>job_st := Running, job_started_at := Some now, job_heartbeat_at := Some now,
       job_lease_expires_at := Some (fl_add now lease_sec), job_worker_id := Some worker_id,
       job_attempts := job_attempts j + 1\<rparr>"

definition dequeue_next_job :: "rat \<Rightarrow> string \<Rightarrow> rat \<Rightarrow> string list \<Rightarrow> string list \<Rightarrow> jobs_db \<Rightarrow>
    job option \<times> jobs_db" where
  "dequeue_next_job now worker_id lease_sec include_types exclude_types db =
     (if \<not> jobs_ready db then (None, db)
      else
        case first_min (\<lambda>j. (job_priority j, job_created_at j))
               (filter (eligible now include_types exclude_types) (jobs_rows db)) of
          None \<Rightarrow> (None, db)
        | Some row \<Rightarrow>
            let P = (\<lambda>j. job_id j = job_id row \<and> job_st j = Queued) in
            if rowcount P (jobs_rows db) = 0 then (None, db)
            else
              let rows = tupdate P (claim now lease_sec worker_id) (jobs_rows db) in
              (tfind job_id (job_id row) rows, db\<lparr>jobs_rows := rows\<rparr>))"

definition update_jobs :: "(job \<Rightarrow> bool) \<Rightarrow> (job \<Rightarrow> job) \<Rightarrow> jobs_db \<Rightarrow> jobs_db" where
  "update_jobs P f db =
     (if jobs_ready db then db\<lparr>jobs_rows := tupdate P f (jobs_rows db)\<rparr> else db)"

definition heartbeat_job :: "rat \<Rightarrow> int \<Rightarrow> rat \<Rightarrow> jobs_db \<Rightarrow> jobs_db" where
  "heartbeat_job now i lease_sec =
     update_jobs (\<lambda>j. job_id j = i \<and> job_st j = Running)
       (\<lambda>j. j\<lparr>job_heartbeat_at := Some now, job_lease_expires_at := Some (fl_add now lease_sec)\<rparr>)"

definition update_job_progress :: "rat \<Rightarrow> int \<Rightarrow> dict \<Rightarrow> jobs_db \<Rightarrow> jobs_db" where
  "update_job_progress now i progress =
     update_jobs (\<lambda>j. job_id j = i)
       (\<lambda>j. j\<lparr>job_progress := Some (dsetdefault ''updated_at'' (JFloat now) progress)\<rparr>)"

definition mark_job_completed :: "rat \<Rightarrow> int \<Rightarrow> string option \<Rightarrow> dict \<Rightarrow> jobs_db \<Rightarrow> jobs_db" where
  "mark_job_completed now i result_state result =
     update_jobs (\<lambda>j. job_id j = i)
       (\<lambda>j. j\<lparr>job_st := Completed, job_finished_at := Some now, job_result_state := result_state,
             job_result := Some result, job_error_text := None\<rparr>)"

definition mark_job_failed :: "rat \<Rightarrow> int \<Rightarrow> string \<Rightarrow> string option \<Rightarrow> jobs_db \<Rightarrow> jobs_db" where
  "mark_job_failed now i error_text result_state =
     update_jobs (\<lambda>j. job_id j = i)
       (\<lambda>j. j\<lparr>job_st := Failed, job_finished_at := Some now, job_result_state := result_state,
             job_error_text := Some (take 1000 error_text)\<rparr>)"

definition retry_progress :: "rat \<Rightarrow> rat \<Rightarrow> dict" where
  "retry_progress now delay_sec =
     [(''stage'', JStr ''retry_wait''), (''percent'', JInt 0),
      (''message'', JStr (''Transient failure; retrying in '' @ py_str_int \<lfloor>max 0 delay_sec\<rfloor> @ ''s'')),
      (''updated_at'', JFloat now), (''retry_at'', JFloat (fl_add now (max 0 delay_sec)))]"

definition retriable :: "int \<Rightarrow> job \<Rightarrow> bool" where
  "retriable i j \<longleftrightarrow> job_id j = i \<and> job_st j \<in> {Running, Cancelling} \<and>
     job_attempts j < job_max_attempts j \<and> \<not> job_cancel_requested j"

definition requeue_for_retry :: "rat \<Rightarrow> string \<Rightarrow> rat \<Rightarrow> string option \<Rightarrow> job \<Rightarrow> job" where
  "requeue_for_retry now error_text delay_sec result_state j =
     j\<lparr>job_st := Queued, job_result_state := result_state, job_finished_at := None,
       job_started_at := None, job_heartbeat_at := None, job_lease_expires_at := None,
       job_worker_id := None, job_next_attempt_at := Some (fl_add now (max 0 delay_sec)),
       job_progress := Some (retry_progress now delay_sec),
       job_error_text := Some (take 1000 error_text), job_cancel_requested := False\<rparr>"

definition schedule_job_retry :: "rat \<Rightarrow> int \<Rightarrow> string \<Rightarrow> rat \<Rightarrow> string option \<Rightarrow> jobs_db \<Rightarrow> bool \<times> jobs_db" where
  "schedule_job_retry now i error_text delay_sec result_state db =
     (jobs_ready db \<and> 0 < rowcount (retriable i) (jobs_rows db),
      update_jobs (retriable i) (requeue_for_retry now error_text delay_sec result_state) db)"

definition mark_job_cancelled :: "rat \<Rightarrow> int \<Rightarrow> jobs_db \<Rightarrow> jobs_db" where
  "mark_job_cancelled now i =
     update_jobs (\<lambda>j. job_id j = i)
       (\<lambda>j. j\<lparr>job_st := Cancelled, job_finished_at := Some now,
             job_result_state := Some ''cancelled''\<rparr>)"

definition request_job_cancel :: "int \<Rightarrow> jobs_db \<Rightarrow> bool \<times> jobs_db" where
  "request_job_cancel i db =
     (let P = (\<lambda>j. job_id j = i \<and> job_st j \<in> {Queued, Running, Cancelling}) in
      (jobs_ready db \<and> 0 < rowcount P (jobs_rows db),
       update_jobs P
         (\<lambda>j. j\<lparr>job_cancel_requested := True,
               job_st := (if job_st j = Running then Cancelling else job_st j)\<rparr>) db))"

definition is_job_cancel_requested :: "int \<Rightarrow> jobs_db \<Rightarrow> bool" where
  "is_job_cancel_requested i db =
     (jobs_ready db \<and>
      (case tfind job_id i (jobs_rows db) of None \<Rightarrow> False | Some j \<Rightarrow> job_cancel_requested j))"

definition get_job :: "int \<Rightarrow> jobs_db \<Rightarrow> job option" where
  "get_job i db = (if jobs_ready db then tfind job_id i (jobs_rows db) else None)"

definition list_jobs :: "string list \<Rightarrow> string list \<Rightarrow> string \<Rightarrow> int \<Rightarrow> int \<Rightarrow> jobs_db \<Rightarrow> int \<times> job list" where
  "list_jobs states types jid lmt offset db =
     (if \<not> jobs_ready db then (0, [])
      else
        let sel = filter (\<lambda>j. opt_in states (job_state_str (job_st j)) \<and> opt_in types (job_type j) \<and>
                    (jid = [] \<or> job_jid j = jid)) (jobs_rows db) in
        (int (length sel), sql_limit lmt offset (sort_key (\<lambda>j. - job_created_at j) sel)))"

definition stale :: "rat \<Rightarrow> rat option \<Rightarrow> bool \<Rightarrow> job \<Rightarrow> bool" where
  "stale now max_age_sec force j \<longleftrightarrow>
     job_st j = Running \<and>
     (force \<or>
      (case job_lease_expires_at j of
         Some t \<Rightarrow> t < now
       | None \<Rightarrow>
           (case job_started_at j of
              None \<Rightarrow> False
            | Some t \<Rightarrow>
                t < fl_add now (- (case max_age_sec of None \<Rightarrow> 3600 | Some a \<Rightarrow> if a = 0 then 3600 else a)))))"

definition recover_row :: "rat \<Rightarrow> job \<Rightarrow> job \<Rightarrow> job" where
  "recover_row now row j =
     (if job_attempts row \<ge> int_or (Some (job_max_attempts row)) 3
      then j\<lparr>job_st := Failed, job_finished_at := Some now, job_result_state := Some ''stale'',
             job_error_text := Some ''lease expired, attempts exhausted''\<rparr>
      else j\<lparr>job_st := Queued, job_started_at := None, job_heartbeat_at := None,
             job_lease_expires_at := None, job_worker_id := None,
             job_next_attempt_at := Some (fl_add now 5),
             job_error_text := Some ''recovered from stale lease''\<rparr>)"

definition recover_stale_running_jobs :: "rat \<Rightarrow> rat option \<Rightarrow> bool \<Rightarrow> jobs_db \<Rightarrow> int \<times> jobs_db" where
  "recover_stale_running_jobs now max_age_sec force db =
     (if \<not> jobs_ready db then (0, db)
      else
        let sel = filter (stale now max_age_sec force) (jobs_rows db) in
        (int (length sel),
         db\<lparr>jobs_rows :=
              fold (\<lambda>row. tupdate (\<lambda>j. job_id j = job_id row) (recover_row now row)) sel (jobs_rows db)\<rparr>))"

definition count_active_jobs :: "string list \<Rightarrow> string list \<Rightarrow> jobs_db \<Rightarrow> int" where
  "count_active_jobs include_types exclude_types db =
     (if jobs_ready db
      then rowcount (\<lambda>j. active j \<and> opt_in include_types (job_type j) \<and>
                         opt_not_in exclude_types (job_type j)) (jobs_rows db)
      else 0)"

definition find_active_job_by_dedupe :: "string \<Rightarrow> jobs_db \<Rightarrow> job option" where
  "find_active_job_by_dedupe key db =
     (if \<not> jobs_ready db \<or> key = [] then None else active_by_dedupe key (jobs_rows db))"

definition get_active_job_by_jid :: "string \<Rightarrow> jobs_db \<Rightarrow> job option" where
  "get_active_job_by_jid jid db =
     (if \<not> jobs_ready db \<or> jid = [] then None
      else first_min (\<lambda>j. - job_id j) (filter (\<lambda>j. job_jid j = jid \<and> active j) (jobs_rows db)))"

text \<open>\<open>SELECT state, COUNT(*) ... GROUP BY state\<close>: the groups in the order of the state names.\<close>

definition count_jobs_by_state :: "jobs_db \<Rightarrow> (string \<times> int) list" where
  "count_jobs_by_state db =
     (if jobs_ready db
      then map (\<lambda>s. (job_state_str s, rowcount (\<lambda>j. job_st j = s) (jobs_rows db)))
             (filter (\<lambda>s. \<exists>j\<in>set (jobs_rows db). job_st j = s)
               [Cancelled, Cancelling, Completed, Failed, Queued, Running])
      else [])"


section \<open>The queue invariant\<close>

definition job_ok :: "job \<Rightarrow> bool" where
  "job_ok j \<longleftrightarrow>
     0 \<le> job_attempts j \<and> 1 \<le> job_max_attempts j \<and> job_attempts j \<le> job_max_attempts j \<and>
     (job_finished_at j \<noteq> None \<longleftrightarrow> terminal j) \<and>
     (job_st j = Queued \<longrightarrow>
        job_attempts j < job_max_attempts j \<and> job_lease_expires_at j = None \<and>
        job_worker_id j = None \<and> job_started_at j = None) \<and>
     (job_st j \<in> {Running, Cancelling} \<longrightarrow>
        1 \<le> job_attempts j \<and> job_lease_expires_at j \<noteq> None \<and> job_worker_id j \<noteq> None \<and>
        job_started_at j \<noteq> None) \<and>
     (job_st j = Cancelling \<longrightarrow> job_cancel_requested j)"

definition one_active_per_key :: "job list \<Rightarrow> bool" where
  "one_active_per_key rows \<longleftrightarrow>
     (\<forall>j\<in>set rows. \<forall>k\<in>set rows.
        active j \<and> active k \<and> truthy_str (job_dedupe_key j) \<and> job_dedupe_key j = job_dedupe_key k
        \<longrightarrow> job_id j = job_id k)"

text \<open>The invariant, with at most one active job for each key of a kind \<open>K\<close>; \<open>jobs_inv\<close> has it for all keys.\<close>

definition one_active_of :: "(string \<Rightarrow> bool) \<Rightarrow> job list \<Rightarrow> bool" where
  "one_active_of K rows \<longleftrightarrow>
     (\<forall>j\<in>set rows. \<forall>k\<in>set rows.
        active j \<and> active k \<and> truthy_str (job_dedupe_key j) \<and> K (the (job_dedupe_key j)) \<and>
        job_dedupe_key j = job_dedupe_key k \<longrightarrow> job_id j = job_id k)"

definition keys_inv :: "(string \<Rightarrow> bool) \<Rightarrow> jobs_db \<Rightarrow> bool" where
  "keys_inv K db \<longleftrightarrow>
     (\<forall>j\<in>set (jobs_rows db). job_ok j \<and> job_id j < jobs_next_id db) \<and>
     distinct (map job_id (jobs_rows db)) \<and> one_active_of K (jobs_rows db)"

abbreviation jobs_inv :: "jobs_db \<Rightarrow> bool" where
  "jobs_inv \<equiv> keys_inv (\<lambda>_. True)"

lemma jobs_inv_def:
  "jobs_inv db \<longleftrightarrow>
     (\<forall>j\<in>set (jobs_rows db). job_ok j \<and> job_id j < jobs_next_id db) \<and>
     distinct (map job_id (jobs_rows db)) \<and> one_active_per_key (jobs_rows db)"
  by (simp add: keys_inv_def one_active_of_def one_active_per_key_def)

text \<open>How one row may change over time: its identity and its payload stay, attempts only grow, a
  requested cancellation is never withdrawn, a terminal row stays terminal, and a row that is
  being cancelled can only become terminal.\<close>

definition row_evolves :: "job \<Rightarrow> job \<Rightarrow> bool" where
  "row_evolves j j' \<longleftrightarrow>
     job_id j' = job_id j \<and> job_jid j' = job_jid j \<and> job_type j' = job_type j \<and>
     job_dedupe_key j' = job_dedupe_key j \<and> job_payload j' = job_payload j \<and>
     job_priority j' = job_priority j \<and> job_created_at j' = job_created_at j \<and>
     job_max_attempts j' = job_max_attempts j \<and> job_attempts j \<le> job_attempts j' \<and>
     (job_cancel_requested j \<longrightarrow> job_cancel_requested j') \<and>
     (terminal j \<longrightarrow> terminal j') \<and>
     (job_st j = Cancelling \<longrightarrow> job_st j' = Cancelling \<or> terminal j')"

definition db_evolves :: "jobs_db \<Rightarrow> jobs_db \<Rightarrow> bool" where
  "db_evolves db db' \<longleftrightarrow>
     (\<forall>i j. tfind job_id i (jobs_rows db) = Some j \<longrightarrow>
        (\<exists>j'. tfind job_id i (jobs_rows db') = Some j' \<and> row_evolves j j'))"

lemmas job_state_sets = ACTIVE_JOB_STATES_def TERMINAL_JOB_STATES_def

lemma active_iff_not_terminal: "active j \<longleftrightarrow> \<not> terminal j"
  by (cases "job_st j") (simp_all add: job_state_sets)

lemma row_evolves_refl [simp]: "row_evolves j j"
  by (simp add: row_evolves_def)

lemma row_evolves_trans: "row_evolves j k \<Longrightarrow> row_evolves k l \<Longrightarrow> row_evolves j l"
  unfolding row_evolves_def by auto

lemma row_evolves_id: "row_evolves j j' \<Longrightarrow> job_id j' = job_id j"
  by (simp add: row_evolves_def)

lemma db_evolves_refl: "db_evolves db db"
  by (simp add: db_evolves_def)

lemma db_evolves_trans: "db_evolves a b \<Longrightarrow> db_evolves b c \<Longrightarrow> db_evolves a c"
  unfolding db_evolves_def by (meson row_evolves_trans)

text \<open>An update that keeps every row well-formed and lets it only evolve keeps the invariant.\<close>

definition keeps :: "(job \<Rightarrow> bool) \<Rightarrow> (job \<Rightarrow> job) \<Rightarrow> bool" where
  "keeps P f \<longleftrightarrow> (\<forall>j. P j \<longrightarrow> job_ok j \<longrightarrow> job_ok (f j) \<and> row_evolves j (f j))"

lemma keepsI:
  "(\<And>j. P j \<Longrightarrow> job_ok j \<Longrightarrow> job_ok (f j)) \<Longrightarrow> (\<And>j. P j \<Longrightarrow> job_ok j \<Longrightarrow> row_evolves j (f j)) \<Longrightarrow> keeps P f"
  by (simp add: keeps_def)

lemma one_active_map:
  assumes "one_active_of K rows" and "\<And>j. j \<in> set rows \<Longrightarrow> row_evolves j (f j)"
  shows "one_active_of K (map f rows)"
  using assms unfolding one_active_of_def row_evolves_def active_iff_not_terminal
  by (auto; metis)

lemma jobs_inv_update_rows:
  assumes inv: "keys_inv K db" and k: "keeps P f"
  shows "keys_inv K (db\<lparr>jobs_rows := tupdate P f (jobs_rows db)\<rparr>)"
proof -
  let ?g = "\<lambda>j. if P j then f j else j"
  have ev: "row_evolves j (?g j)" if "j \<in> set (jobs_rows db)" for j
    using that inv k by (auto simp: keys_inv_def keeps_def)
  then have ids: "map job_id (map ?g (jobs_rows db)) = map job_id (jobs_rows db)"
    using row_evolves_id[OF ev] by simp
  have "one_active_of K (map ?g (jobs_rows db))"
    by (rule one_active_map) (use inv ev in \<open>auto simp: keys_inv_def\<close>)
  moreover have "distinct (map job_id (map ?g (jobs_rows db)))"
    unfolding ids using inv by (simp add: keys_inv_def)
  moreover have "\<forall>j\<in>set (map ?g (jobs_rows db)). job_ok j \<and> job_id j < jobs_next_id db"
    using inv k row_evolves_id[OF ev] by (fastforce simp: keys_inv_def keeps_def)
  ultimately show ?thesis
    by (simp add: keys_inv_def tupdate_def)
qed

lemma db_evolves_update_rows:
  assumes inv: "keys_inv K db" and k: "keeps P f"
  shows "db_evolves db (db\<lparr>jobs_rows := tupdate P f (jobs_rows db)\<rparr>)"
  unfolding db_evolves_def
proof (intro allI impI)
  fix i j assume j: "tfind job_id i (jobs_rows db) = Some j"
  let ?g = "\<lambda>j. if P j then f j else j"
  have d: "distinct (map job_id (map ?g (jobs_rows db)))"
    using jobs_inv_update_rows[OF inv k] by (simp add: keys_inv_def tupdate_def)
  have jr: "j \<in> set (jobs_rows db)" "job_id j = i" using tfind_SomeD[OF j] by auto
  then have ev: "row_evolves j (?g j)" using inv k by (auto simp: keys_inv_def keeps_def)
  have "tfind job_id (job_id (?g j)) (map ?g (jobs_rows db)) = Some (?g j)"
    by (rule tfind_distinct[OF d]) (use jr in simp)
  then show "\<exists>j'. tfind job_id i (jobs_rows (db\<lparr>jobs_rows := tupdate P f (jobs_rows db)\<rparr>)) = Some j' \<and>
      row_evolves j j'"
    using ev jr row_evolves_id[OF ev] by (auto simp: tupdate_def)
qed

lemma update_jobs_inv: "keys_inv K db \<Longrightarrow> keeps P f \<Longrightarrow> keys_inv K (update_jobs P f db)"
  by (simp add: update_jobs_def jobs_inv_update_rows)

lemma update_jobs_evolves: "keys_inv K db \<Longrightarrow> keeps P f \<Longrightarrow> db_evolves db (update_jobs P f db)"
  by (simp add: update_jobs_def db_evolves_update_rows db_evolves_refl)

section \<open>Every update of the module keeps the rows\<close>

lemma keeps_heartbeat:
  "keeps (\<lambda>j. job_id j = i \<and> job_st j = Running)
     (\<lambda>j. j\<lparr>job_heartbeat_at := Some a, job_lease_expires_at := Some b\<rparr>)"
  by (simp add: keeps_def job_ok_def row_evolves_def)

lemma keeps_progress: "keeps P (\<lambda>j. j\<lparr>job_progress := x\<rparr>)"
  by (simp add: keeps_def job_ok_def row_evolves_def)

lemma keeps_finish:
  assumes "s \<in> set TERMINAL_JOB_STATES"
    and "\<And>j. job_st (f j) = s" "\<And>j. job_finished_at (f j) \<noteq> None"
    and "\<And>j. job_attempts (f j) = job_attempts j" "\<And>j. job_max_attempts (f j) = job_max_attempts j"
    and "\<And>j. row_evolves j (j\<lparr>job_st := s\<rparr>) \<Longrightarrow> row_evolves j (f j)"
  shows "keeps P f"
proof (rule keepsI)
  fix j assume "job_ok j"
  then show "job_ok (f j)"
    using assms(1) by (auto simp: job_ok_def assms(2-5) TERMINAL_JOB_STATES_def)
next
  fix j
  show "row_evolves j (f j)"
    by (rule assms(6)) (use assms(1) in \<open>simp add: row_evolves_def\<close>)
qed

lemma keeps_completed:
  "keeps P (\<lambda>j. j\<lparr>job_st := Completed, job_finished_at := Some t, job_result_state := r,
     job_result := x, job_error_text := e\<rparr>)"
  by (rule keeps_finish[of Completed]) (simp_all add: row_evolves_def TERMINAL_JOB_STATES_def)

lemma keeps_failed:
  "keeps P (\<lambda>j. j\<lparr>job_st := Failed, job_finished_at := Some t, job_result_state := r,
     job_error_text := e\<rparr>)"
  by (rule keeps_finish[of Failed]) (simp_all add: row_evolves_def TERMINAL_JOB_STATES_def)

lemma keeps_cancelled:
  "keeps P (\<lambda>j. j\<lparr>job_st := Cancelled, job_finished_at := Some t, job_result_state := r\<rparr>)"
  by (rule keeps_finish[of Cancelled]) (simp_all add: row_evolves_def TERMINAL_JOB_STATES_def)

lemma keeps_retry: "keeps (retriable i) (requeue_for_retry now e d r)"
  by (auto simp: keeps_def job_ok_def row_evolves_def retriable_def requeue_for_retry_def
      TERMINAL_JOB_STATES_def)

lemma keeps_request_cancel:
  "keeps (\<lambda>j. job_id j = i \<and> job_st j \<in> {Queued, Running, Cancelling})
     (\<lambda>j. j\<lparr>job_cancel_requested := True,
           job_st := (if job_st j = Running then Cancelling else job_st j)\<rparr>)"
  by (auto simp: keeps_def job_ok_def row_evolves_def TERMINAL_JOB_STATES_def)

lemma keeps_claim: "keeps (\<lambda>j. job_id j = i \<and> job_st j = Queued) (claim now lease w)"
  by (auto simp: keeps_def job_ok_def row_evolves_def claim_def TERMINAL_JOB_STATES_def)

lemma keeps_recover: "keeps (stale now a force) (\<lambda>j. recover_row now j j)"
  by (auto simp: keeps_def job_ok_def row_evolves_def recover_row_def stale_def int_or_def
      TERMINAL_JOB_STATES_def)

text \<open>The recovery loop is one update of the stale rows.\<close>

lemma recover_row_id [simp]: "job_id (recover_row now r j) = job_id j"
  by (simp add: recover_row_def)

lemma recover_as_update:
  assumes "distinct (map job_id (jobs_rows db))"
  shows "snd (recover_stale_running_jobs now a force db) =
    update_jobs (stale now a force) (\<lambda>j. recover_row now j j) db"
  using fold_update_by_key[where key = job_id and g = "recover_row now", OF _ assms]
  by (simp add: recover_stale_running_jobs_def update_jobs_def tupdate_def Let_def)

section \<open>Steps of the queue\<close>

text \<open>Each operation of the module is a step; a claim is labelled with the claimed job. A caller
  may name any job id at any time (the \<open>mark_*\<close> updates carry no state guard), so that the
  relation covers every interleaving of request handlers and worker threads. The only requirement is
  that a job is enqueued with a positive \<open>max_attempts\<close>, as all callers do.\<close>

datatype job_event = JEnqueue | JClaim int | JIdle | JUpdate int | JRecover

inductive job_step :: "jobs_db \<Rightarrow> job_event \<Rightarrow> jobs_db \<Rightarrow> bool" where
  enqueue: "1 \<le> max_attempts \<Longrightarrow>
    enqueue_job now jid ty payload dedupe src sid prio max_attempts db = (r, db') \<Longrightarrow>
    job_step db JEnqueue db'"
| claim: "dequeue_next_job now w lease incl excl db = (Some j, db') \<Longrightarrow> job_step db (JClaim (job_id j)) db'"
| idle: "dequeue_next_job now w lease incl excl db = (None, db') \<Longrightarrow> job_step db JIdle db'"
| heartbeat: "job_step db (JUpdate i) (heartbeat_job now i lease db)"
| progress: "job_step db (JUpdate i) (update_job_progress now i p db)"
| completed: "job_step db (JUpdate i) (mark_job_completed now i rs res db)"
| failed: "job_step db (JUpdate i) (mark_job_failed now i e rs db)"
| retry: "job_step db (JUpdate i) (snd (schedule_job_retry now i e d rs db))"
| cancelled: "job_step db (JUpdate i) (mark_job_cancelled now i db)"
| request_cancel: "job_step db (JUpdate i) (snd (request_job_cancel i db))"
| recover: "job_step db JRecover (snd (recover_stale_running_jobs now a force db))"

inductive_cases job_stepE: "job_step db e db'"

lemma active_by_dedupe_None:
  "active_by_dedupe key rows = None \<longleftrightarrow> (\<forall>j\<in>set rows. \<not> (job_dedupe_key j = Some key \<and> active j))"
  by (auto simp: active_by_dedupe_def filter_empty_conv)

lemma active_by_dedupe_SomeD:
  "active_by_dedupe key rows = Some j \<Longrightarrow> j \<in> set rows \<and> job_dedupe_key j = Some key \<and> active j"
  unfolding active_by_dedupe_def by (drule first_min_in_set) auto

text \<open>Enqueueing either returns the active job that has the key, or appends one fresh queued row.\<close>

lemma enqueue_job_cases:
  assumes "enqueue_job now jid ty payload dk src sid prio max_a db = (r, db')"
  obtains (refused) "\<not> jobs_ready db \<or> jid = [] \<or> ty = []" "r = None" "db' = db"
  | (existing) key j where "dk = Some key" "key \<noteq> []" "active_by_dedupe key (jobs_rows db) = Some j"
      "r = Some (job_id j)" "db' = db"
  | (fresh) "r = Some (jobs_next_id db)"
      "\<forall>key. dk = Some key \<and> key \<noteq> [] \<longrightarrow> active_by_dedupe key (jobs_rows db) = None"
      "db' = db\<lparr>jobs_rows := jobs_rows db @
           [new_job (jobs_next_id db) now jid ty payload dk src sid prio max_a],
         jobs_next_id := jobs_next_id db + 1\<rparr>"
proof (cases "\<not> jobs_ready db \<or> jid = [] \<or> ty = []")
  case True
  show thesis by (rule refused[OF True]) (use assms True in \<open>auto simp: enqueue_job_def\<close>)
next
  case ok: False
  let ?hit = "if truthy_str dk then active_by_dedupe (the dk) (jobs_rows db) else None"
  show thesis
  proof (cases ?hit)
    case (Some j)
    with assms ok have "r = Some (job_id j)" "db' = db" by (simp_all add: enqueue_job_def)
    with Some existing show thesis
      by (simp add: truthy_str_def split: if_splits option.splits)
  next
    case None
    have "\<forall>key. dk = Some key \<and> key \<noteq> [] \<longrightarrow> active_by_dedupe key (jobs_rows db) = None"
      using None by (auto simp: truthy_str_def)
    with assms ok None fresh show thesis by (simp add: enqueue_job_def Let_def)
  qed
qed

lemma new_job_ok: "1 \<le> max_a \<Longrightarrow> job_ok (new_job i now jid ty payload dk src sid prio max_a)"
  by (simp add: job_ok_def new_job_def TERMINAL_JOB_STATES_def)

lemma new_job_sel [simp]:
  "job_id (new_job i now jid ty payload dk src sid prio max_a) = i"
  "job_dedupe_key (new_job i now jid ty payload dk src sid prio max_a) = dk"
  "job_attempts (new_job i now jid ty payload dk src sid prio max_a) = 0"
  by (simp_all add: new_job_def)

lemma one_active_append:
  assumes "one_active_of K rows"
    and "\<And>j. truthy_str (job_dedupe_key n) \<Longrightarrow> K (the (job_dedupe_key n)) \<Longrightarrow> j \<in> set rows \<Longrightarrow> \<not> (active j \<and> job_dedupe_key j = job_dedupe_key n)"
  shows "one_active_of K (rows @ [n])"
  unfolding one_active_of_def
proof (intro ballI impI)
  fix j k assume mem: "j \<in> set (rows @ [n])" "k \<in> set (rows @ [n])"
    and h: "active j \<and> active k \<and> truthy_str (job_dedupe_key j) \<and> K (the (job_dedupe_key j)) \<and>
      job_dedupe_key j = job_dedupe_key k"
  from mem consider "j \<in> set rows" "k \<in> set rows" | "j = n" "k = n"
    | "j \<in> set rows" "k = n" | "j = n" "k \<in> set rows" by auto
  then show "job_id j = job_id k"
  proof cases
    case 1
    with assms(1) h show ?thesis by (auto simp: one_active_of_def)
  next
    case 2
    then show ?thesis by simp
  next
    case 3
    with assms(2)[of j] h show ?thesis by metis
  next
    case 4
    with assms(2)[of k] h show ?thesis by metis
  qed
qed

lemma enqueue_job_inv:
  assumes inv: "keys_inv K db" and m: "1 \<le> max_a"
    and e: "enqueue_job now jid ty payload dk src sid prio max_a db = (r, db')"
  shows "keys_inv K db'"
  using e
proof (cases rule: enqueue_job_cases)
  case fresh
  let ?n = "new_job (jobs_next_id db) now jid ty payload dk src sid prio max_a"
  have no: "\<not> (active j \<and> job_dedupe_key j = job_dedupe_key ?n)"
    if "truthy_str (job_dedupe_key ?n)" "j \<in> set (jobs_rows db)" for j
    using fresh(2) that by (auto simp: truthy_str_def active_by_dedupe_None split: option.splits)
  have "one_active_of K (jobs_rows db @ [?n])"
  proof -
    have "one_active_of K (jobs_rows db)" using inv by (simp add: keys_inv_def)
    then show ?thesis using no by (rule one_active_append)
  qed
  moreover have "distinct (map job_id (jobs_rows db @ [?n]))"
    using inv by (auto simp: keys_inv_def)
  ultimately show ?thesis
    using inv m by (auto simp: fresh(3) keys_inv_def new_job_ok)
qed (use inv in auto)

lemma enqueue_job_evolves:
  assumes e: "enqueue_job now jid ty payload dk src sid prio max_a db = (r, db')"
  shows "db_evolves db db'"
  using e
proof (cases rule: enqueue_job_cases)
  case fresh
  show ?thesis by (simp add: fresh(3) db_evolves_def tfind_append)
qed (simp_all add: db_evolves_refl)

text \<open>A successful claim takes the first eligible row by priority and age.\<close>

lemma dequeue_next_job_SomeD:
  assumes inv: "keys_inv K db" and e: "dequeue_next_job now w lease incl excl db = (Some j', db')"
  shows "\<exists>j. j \<in> set (jobs_rows db) \<and> eligible now incl excl j \<and> j' = claim now lease w j \<and>
    (\<forall>k\<in>set (jobs_rows db). eligible now incl excl k \<longrightarrow>
       (job_priority j, job_created_at j) \<le> (job_priority k, job_created_at k)) \<and>
    jobs_ready db \<and>
    db' = update_jobs (\<lambda>k. job_id k = job_id j \<and> job_st k = Queued) (claim now lease w) db"
proof -
  let ?sel = "filter (eligible now incl excl) (jobs_rows db)"
  from e obtain j where j: "first_min (\<lambda>j. (job_priority j, job_created_at j)) ?sel = Some j"
    and rdy: "jobs_ready db"
    by (auto simp: dequeue_next_job_def split: if_splits option.splits)
  let ?P = "\<lambda>k. job_id k = job_id j \<and> job_st k = Queued"
  from first_min_in_set[OF j] have mem: "j \<in> set (jobs_rows db)" "eligible now incl excl j" by auto
  then have d: "tfind job_id (job_id j) (jobs_rows db) = Some j"
    using inv by (auto simp: keys_inv_def tfind_distinct)
  have q: "job_st j = Queued" using mem by (simp add: eligible_def)
  from e j rdy have db': "db' = db\<lparr>jobs_rows := tupdate ?P (claim now lease w) (jobs_rows db)\<rparr>"
    and j': "tfind job_id (job_id j) (tupdate ?P (claim now lease w) (jobs_rows db)) = Some j'"
    by (auto simp: dequeue_next_job_def Let_def split: if_splits)
  have "tfind job_id (job_id j) (tupdate ?P (claim now lease w) (jobs_rows db)) =
      map_option (\<lambda>k. if ?P k then claim now lease w k else k) (tfind job_id (job_id j) (jobs_rows db))"
    by (rule tfind_tupdate) (simp add: claim_def)
  with d q j' have "j' = claim now lease w j" by simp
  moreover have "(job_priority j, job_created_at j) \<le> (job_priority k, job_created_at k)"
    if "k \<in> set (jobs_rows db)" "eligible now incl excl k" for k
    using first_min_least[OF j] that by simp
  ultimately show ?thesis
    using mem rdy db' by (auto simp: update_jobs_def)
qed

lemma dequeue_next_job_NoneD:
  assumes inv: "keys_inv K db" and e: "dequeue_next_job now w lease incl excl db = (None, db')"
  shows "db' = db \<and> (jobs_ready db \<longrightarrow> (\<forall>j\<in>set (jobs_rows db). \<not> eligible now incl excl j))"
proof (cases "jobs_ready db")
  case False
  with e show ?thesis by (simp add: dequeue_next_job_def)
next
  case True
  let ?sel = "filter (eligible now incl excl) (jobs_rows db)"
  have "first_min (\<lambda>j. (job_priority j, job_created_at j)) ?sel = None"
  proof (rule ccontr)
    assume "first_min (\<lambda>j. (job_priority j, job_created_at j)) ?sel \<noteq> None"
    then obtain j where j: "first_min (\<lambda>j. (job_priority j, job_created_at j)) ?sel = Some j"
      unfolding not_None_eq by blast
    from first_min_in_set[OF j] have mem: "j \<in> set (jobs_rows db)" "job_st j = Queued"
      by (auto simp: eligible_def)
    let ?P = "\<lambda>k. job_id k = job_id j \<and> job_st k = Queued"
    have n0: "rowcount ?P (jobs_rows db) \<noteq> 0"
      using mem rowcount_pos[of ?P "jobs_rows db"] by auto
    have "tfind job_id (job_id j) (tupdate ?P (claim now lease w) (jobs_rows db)) =
      map_option (\<lambda>k. if ?P k then claim now lease w k else k) (tfind job_id (job_id j) (jobs_rows db))"
      by (rule tfind_tupdate) (simp add: claim_def)
    with inv mem have "tfind job_id (job_id j) (tupdate ?P (claim now lease w) (jobs_rows db)) \<noteq> None"
      by (simp add: keys_inv_def tfind_distinct)
    with e True j n0 show False by (simp add: dequeue_next_job_def Let_def)
  qed
  with e True show ?thesis by (simp add: dequeue_next_job_def filter_empty_conv)
qed

lemma dequeue_next_job_step:
  assumes inv: "keys_inv K db" and e: "dequeue_next_job now w lease incl excl db = (Some j', db')"
  shows "keys_inv K db'" "db_evolves db db'"
  using dequeue_next_job_SomeD[OF assms] update_jobs_inv[OF inv keeps_claim]
    update_jobs_evolves[OF inv keeps_claim] by auto

lemmas job_op_defs = heartbeat_job_def update_job_progress_def mark_job_completed_def
  mark_job_failed_def schedule_job_retry_def mark_job_cancelled_def request_job_cancel_def Let_def

lemmas job_op_keeps = keeps_heartbeat keeps_progress keeps_completed keeps_failed keeps_retry
  keeps_cancelled keeps_request_cancel[simplified] keeps_recover

lemma jobs_inv_distinct: "keys_inv K db \<Longrightarrow> distinct (map job_id (jobs_rows db))"
  by (simp add: keys_inv_def)

lemma job_step_inv: "job_step db e db' \<Longrightarrow> keys_inv K db \<Longrightarrow> keys_inv K db'"
proof (induction rule: job_step.induct)
  case (recover db now a force)
  then show ?case
    by (simp add: recover_as_update jobs_inv_distinct update_jobs_inv keeps_recover)
qed (auto simp: job_op_defs intro: enqueue_job_inv dequeue_next_job_step
      update_jobs_inv job_op_keeps dest: dequeue_next_job_NoneD)

lemma job_step_evolves: "job_step db e db' \<Longrightarrow> keys_inv K db \<Longrightarrow> db_evolves db db'"
proof (induction rule: job_step.induct)
  case (recover db now a force)
  then show ?case
    by (simp add: recover_as_update jobs_inv_distinct update_jobs_evolves keeps_recover)
next
  case (idle now w lease incl excl db db')
  then show ?case using dequeue_next_job_NoneD db_evolves_refl by blast
qed (auto simp: job_op_defs intro: enqueue_job_evolves dequeue_next_job_step
      update_jobs_evolves job_op_keeps)

interpretation jq: evolving job_step "keys_inv K" db_evolves for K
  by unfold_locales
    (auto intro: job_step_inv job_step_evolves db_evolves_refl db_evolves_trans)

text \<open>There is one more statement that inserts into the table: \<open>enqueue_library_scan\<close> adds a library-scan job
  after a look at the table of scan runs, without a look at the dedupe keys of the jobs. A step of the
  whole program on the table is an operation of the queue or such an insertion, which is possible at any
  time here.\<close>

definition LIBRARY_SCAN_JOB_TYPE :: string where
  "LIBRARY_SCAN_JOB_TYPE = ''library_scan''"

definition LIBRARY_SCAN_DEDUPE_KEY :: string where
  "LIBRARY_SCAN_DEDUPE_KEY = ''library_scan''"

definition LIBRARY_SCAN_PRIORITY :: int where
  "LIBRARY_SCAN_PRIORITY = 50"

definition LIBRARY_SCAN_MAX_ATTEMPTS :: int where
  "LIBRARY_SCAN_MAX_ATTEMPTS = 1"

definition insert_job :: "rat \<Rightarrow> string \<Rightarrow> string \<Rightarrow> dict \<Rightarrow> string option \<Rightarrow> string option \<Rightarrow> string option \<Rightarrow>
    int \<Rightarrow> int \<Rightarrow> jobs_db \<Rightarrow> jobs_db" where
  "insert_job now jid ty payload dk src sid prio max_a db =
     db\<lparr>jobs_rows := jobs_rows db @ [new_job (jobs_next_id db) now jid ty payload dk src sid prio max_a],
        jobs_next_id := jobs_next_id db + 1\<rparr>"

definition insert_scan_job :: "rat \<Rightarrow> string \<Rightarrow> dict \<Rightarrow> string \<Rightarrow> jobs_db \<Rightarrow> jobs_db" where
  "insert_scan_job now jid payload mode =
     insert_job now jid LIBRARY_SCAN_JOB_TYPE payload (Some LIBRARY_SCAN_DEDUPE_KEY) (Some ''library'') (Some mode)
       LIBRARY_SCAN_PRIORITY LIBRARY_SCAN_MAX_ATTEMPTS"

datatype table_event = Queue_Op job_event | Scan_Insert

inductive table_step :: "jobs_db \<Rightarrow> table_event \<Rightarrow> jobs_db \<Rightarrow> bool" where
  queue_op: "job_step db e db' \<Longrightarrow> table_step db (Queue_Op e) db'"
| scan_insert: "jobs_ready db \<Longrightarrow> table_step db Scan_Insert (insert_scan_job now jid payload mode db)"

lemma run_table: "run job_step db es db' \<Longrightarrow> run table_step db (map Queue_Op es) db'"
proof (induction rule: run.induct)
  case (run_step s es s' e s'')
  from run_trans[OF run_step(3) run_single[of table_step, OF table_step.queue_op[OF run_step(2)]]] show ?case by simp
qed (simp add: run_refl)

text \<open>The keys of everything but library scans.\<close>

definition checked_key :: "string \<Rightarrow> bool" where
  "checked_key k \<longleftrightarrow> k \<noteq> LIBRARY_SCAN_DEDUPE_KEY"

lemma scan_insert_inv:
  assumes inv: "keys_inv K db" and K: "\<not> K LIBRARY_SCAN_DEDUPE_KEY"
  shows "keys_inv K (insert_scan_job now jid payload mode db)"
proof -
  let ?n = "new_job (jobs_next_id db) now jid LIBRARY_SCAN_JOB_TYPE payload (Some LIBRARY_SCAN_DEDUPE_KEY) (Some ''library'')
     (Some mode) LIBRARY_SCAN_PRIORITY LIBRARY_SCAN_MAX_ATTEMPTS"
  have "one_active_of K (jobs_rows db)" using inv by (simp add: keys_inv_def)
  then have "one_active_of K (jobs_rows db @ [?n])" by (rule one_active_append) (simp add: K)
  moreover have "distinct (map job_id (jobs_rows db @ [?n]))" using inv by (auto simp: keys_inv_def)
  moreover have "job_ok ?n" by (rule new_job_ok) (simp add: LIBRARY_SCAN_MAX_ATTEMPTS_def)
  ultimately show ?thesis using inv by (auto simp: keys_inv_def insert_scan_job_def insert_job_def)
qed

lemma scan_insert_evolves: "db_evolves db (insert_scan_job now jid payload mode db)"
  by (simp add: insert_scan_job_def insert_job_def db_evolves_def tfind_append)

lemma table_step_inv: "table_step db e db' \<Longrightarrow> keys_inv checked_key db \<Longrightarrow> keys_inv checked_key db'"
  by (induction rule: table_step.induct) (auto intro: job_step_inv scan_insert_inv simp: checked_key_def)

lemma table_step_evolves: "table_step db e db' \<Longrightarrow> keys_inv checked_key db \<Longrightarrow> db_evolves db db'"
  by (induction rule: table_step.induct) (auto intro: job_step_evolves scan_insert_evolves)

interpretation tq: evolving table_step "keys_inv checked_key" db_evolves
  by unfold_locales (auto intro: table_step_inv table_step_evolves db_evolves_refl db_evolves_trans)

text \<open>The number of claims of a job, read off the table.\<close>

definition attempts_of :: "int \<Rightarrow> jobs_db \<Rightarrow> nat" where
  "attempts_of i db = (case tfind job_id i (jobs_rows db) of None \<Rightarrow> 0 | Some j \<Rightarrow> nat (job_attempts j))"

definition is_claim :: "int \<Rightarrow> job_event \<Rightarrow> nat" where
  "is_claim i e = (if e = JClaim i then 1 else 0)"

lemma attempts_of_update:
  assumes "\<And>j. job_id (f j) = job_id j" "\<And>j. job_attempts (f j) = job_attempts j"
  shows "attempts_of i (update_jobs P f db) = attempts_of i db"
proof -
  have "tfind job_id i (tupdate P f (jobs_rows db)) =
      map_option (\<lambda>j. if P j then f j else j) (tfind job_id i (jobs_rows db))"
    by (rule tfind_tupdate) (rule assms)
  then show ?thesis
    using assms(2) by (simp add: attempts_of_def update_jobs_def split: option.splits)
qed

lemma attempts_of_claim:
  assumes inv: "keys_inv K db" and e: "dequeue_next_job now w lease incl excl db = (Some j', db')"
  shows "attempts_of i db' = attempts_of i db + is_claim i (JClaim (job_id j'))"
proof -
  from dequeue_next_job_SomeD[OF assms] obtain j where
    j: "j \<in> set (jobs_rows db)" "eligible now incl excl j" "j' = claim now lease w j" "jobs_ready db"
    and db': "db' = update_jobs (\<lambda>k. job_id k = job_id j \<and> job_st k = Queued) (claim now lease w) db"
    by blast
  have q: "job_st j = Queued" using j(2) by (simp add: eligible_def)
  have pos: "0 \<le> job_attempts j" using inv j(1) by (simp add: keys_inv_def job_ok_def)
  have f: "tfind job_id i (jobs_rows db') =
      map_option (\<lambda>k. if job_id k = job_id j \<and> job_st k = Queued then claim now lease w k else k)
        (tfind job_id i (jobs_rows db))"
    unfolding db' update_jobs_def using j(4)
    by simp (rule tfind_tupdate, simp add: claim_def)
  show ?thesis
  proof (cases "i = job_id j")
    case True
    then have "tfind job_id i (jobs_rows db) = Some j"
      using j(1) inv by (simp add: tfind_distinct jobs_inv_distinct)
    with True f q pos show ?thesis
      by (simp add: attempts_of_def is_claim_def j(3) claim_def nat_add_distrib)
  next
    case False
    with f show ?thesis
      by (auto simp: attempts_of_def is_claim_def j(3) claim_def split: option.splits
          dest: tfind_SomeD)
  qed
qed

lemma attempts_of_enqueue:
  assumes "enqueue_job now jid ty payload dk src sid prio max_a db = (r, db')"
  shows "attempts_of i db' = attempts_of i db"
  using assms
proof (cases rule: enqueue_job_cases)
  case fresh
  then show ?thesis
    by (simp add: attempts_of_def tfind_append tfind_Cons split: option.splits)
qed simp_all

lemma attempts_of_step:
  "job_step db e db' \<Longrightarrow> keys_inv K db \<Longrightarrow> attempts_of i db' = attempts_of i db + is_claim i e"
proof (induction rule: job_step.induct)
  case (recover db now a force)
  then show ?case
    by (simp add: recover_as_update jobs_inv_distinct)
      (subst attempts_of_update, simp_all add: recover_row_def is_claim_def)
next
  case (idle now w lease incl excl db db')
  with dequeue_next_job_NoneD[of K db now w lease incl excl db'] show ?case
    by (simp add: is_claim_def)
next
  case (enqueue max_attempts now jid ty payload dedupe src sid prio db r db')
  then show ?case by (simp add: is_claim_def attempts_of_enqueue)
next
  case (claim now w lease incl excl db j db')
  then show ?case by (rule attempts_of_claim[rotated])
qed (simp_all add: job_op_defs is_claim_def attempts_of_update requeue_for_retry_def)

interpretation jm: metered job_step "keys_inv K" "attempts_of i" "is_claim i" for K i
  by unfold_locales (rule attempts_of_step)

fun is_table_claim :: "int \<Rightarrow> table_event \<Rightarrow> nat" where
  "is_table_claim i (Queue_Op e) = is_claim i e"
| "is_table_claim i Scan_Insert = 0"

lemma attempts_of_scan_insert: "attempts_of i (insert_scan_job now jid payload mode db) = attempts_of i db"
  by (simp add: attempts_of_def insert_scan_job_def insert_job_def tfind_append tfind_Cons split: option.splits)

lemma attempts_of_table_step:
  "table_step db e db' \<Longrightarrow> keys_inv K db \<Longrightarrow> attempts_of i db' = attempts_of i db + is_table_claim i e"
  by (induction rule: table_step.induct) (simp_all add: attempts_of_step attempts_of_scan_insert)

interpretation tm: metered table_step "keys_inv checked_key" "attempts_of i" "is_table_claim i" for i
  by unfold_locales (rule attempts_of_table_step)

lemma empty_jobs_db_inv: "keys_inv K empty_jobs_db"
  by (simp add: empty_jobs_db_def keys_inv_def one_active_of_def)

section \<open>Properties of the queue\<close>

text \<open>(C5) Queue invariant. Whatever sequence of steps the program takes on an empty table (operations of the queue
  by request handlers and workers, and the insertion of library-scan jobs, which no key check guards),
  every row stays well-formed (attempts within bounds, lease and worker set exactly while the job is held,
  a finish time exactly when it is terminal), row ids stay unique, and any dedupe key other than that of
  library scans is carried by at most one active job.\<close>

theorem queue_reachable_inv:
  assumes "run table_step empty_jobs_db es db"
  shows "(\<forall>j\<in>set (jobs_rows db). job_ok j) \<and> distinct (map job_id (jobs_rows db)) \<and>
    (\<forall>j\<in>set (jobs_rows db). \<forall>k\<in>set (jobs_rows db). active j \<and> active k \<and> job_dedupe_key j = job_dedupe_key k \<and>
       job_dedupe_key j \<notin> {None, Some [], Some LIBRARY_SCAN_DEDUPE_KEY} \<longrightarrow> j = k)"
proof -
  have inv: "keys_inv checked_key db" by (rule tq.run_inv[OF assms empty_jobs_db_inv])
  have "j = k" if "j \<in> set (jobs_rows db)" "k \<in> set (jobs_rows db)" "job_id j = job_id k" for j k
    using tfind_distinct[OF jobs_inv_distinct[OF inv]] that by (metis option.inject)
  moreover have "job_id j = job_id k" if "j \<in> set (jobs_rows db)" "k \<in> set (jobs_rows db)" "active j" "active k"
    "job_dedupe_key j = job_dedupe_key k" "job_dedupe_key j \<notin> {None, Some [], Some LIBRARY_SCAN_DEDUPE_KEY}" for j k
  proof -
    from that(6) have "truthy_str (job_dedupe_key j)" "checked_key (the (job_dedupe_key j))"
      by (auto simp: checked_key_def truthy_str_def)
    with that(1-5) inv show ?thesis unfolding keys_inv_def one_active_of_def by blast
  qed
  ultimately show ?thesis using inv unfolding keys_inv_def by blast
qed

definition demo_queue :: jobs_db where
  "demo_queue = snd (enqueue_job 100 ''j1'' ''tidal_grab'' [] (Some ''tidal:1'') None None 5 3 empty_jobs_db)"

definition demo_claimed :: jobs_db where
  "demo_claimed = snd (dequeue_next_job 101 ''w'' 300 [] [''library_scan''] demo_queue)"

lemma demo_queue_rows:
  "demo_queue = \<lparr>jobs_ready = True,
     jobs_rows = [new_job 1 100 ''j1'' ''tidal_grab'' [] (Some ''tidal:1'') None None 5 3], jobs_next_id = 2\<rparr>"
  by (simp add: demo_queue_def enqueue_job_def empty_jobs_db_def truthy_str_def active_by_dedupe_def Let_def)

lemma demo_dequeue:
  "dequeue_next_job 101 ''w'' 300 [] [''library_scan''] demo_queue =
     (Some (claim 101 300 ''w'' (new_job 1 100 ''j1'' ''tidal_grab'' [] (Some ''tidal:1'') None None 5 3)),
      \<lparr>jobs_ready = True,
       jobs_rows = [claim 101 300 ''w'' (new_job 1 100 ''j1'' ''tidal_grab'' [] (Some ''tidal:1'') None None 5 3)],
       jobs_next_id = 2\<rparr>)"
  by (simp add: demo_queue_rows dequeue_next_job_def eligible_def opt_in_def opt_not_in_def new_job_def
      rowcount_def tupdate_def tfind_def claim_def Let_def)

lemma demo_run: "run job_step empty_jobs_db [JEnqueue, JClaim 1] demo_claimed"
proof -
  have a: "job_step empty_jobs_db JEnqueue demo_queue"
    by (rule job_step.enqueue[of 3 100 "''j1''" "''tidal_grab''" "[]" "Some ''tidal:1''" None None 5])
      (simp_all add: demo_queue_def prod_eq_iff)
  have b: "job_step demo_queue (JClaim 1) demo_claimed"
    using job_step.claim[OF demo_dequeue] by (simp add: demo_claimed_def demo_dequeue claim_def)
  show ?thesis
    using run_trans[OF run_single[of job_step, OF a] run_single[of job_step, OF b]] by simp
qed

definition demo_two_scans :: jobs_db where
  "demo_two_scans = insert_scan_job 103 ''library-scan-2'' [] ''cheap'' (insert_scan_job 102 ''library-scan-1'' [] ''cheap'' demo_claimed)"

lemma demo_table_run: "run table_step empty_jobs_db [Queue_Op JEnqueue, Queue_Op (JClaim 1), Scan_Insert, Scan_Insert] demo_two_scans"
proof -
  let ?db = "insert_scan_job 102 ''library-scan-1'' [] ''cheap'' demo_claimed"
  have r: "jobs_ready demo_claimed" "jobs_ready ?db" by (simp_all add: demo_claimed_def demo_dequeue insert_scan_job_def insert_job_def)
  note run_single[of table_step, OF table_step.scan_insert[OF r(1), of 102 "''library-scan-1''" "[]" "''cheap''"]]
  moreover note run_single[of table_step, OF table_step.scan_insert[OF r(2), of 103 "''library-scan-2''" "[]" "''cheap''"]]
  ultimately show ?thesis
    using run_trans[OF run_table[OF demo_run] run_trans] by (fastforce simp: demo_two_scans_def)
qed

theorem queue_reachable_inv_witness:
  "length (jobs_rows demo_two_scans) = 3 \<and> length (filter active (jobs_rows demo_two_scans)) = 3 \<and>
   list_all job_ok (jobs_rows demo_two_scans) \<and> distinct (map job_id (jobs_rows demo_two_scans))"
proof -
  have "length (jobs_rows demo_two_scans) = 3" "length (filter active (jobs_rows demo_two_scans)) = 3"
    by (simp_all add: demo_two_scans_def demo_claimed_def demo_dequeue insert_scan_job_def insert_job_def new_job_def claim_def
        ACTIVE_JOB_STATES_def)
  with queue_reachable_inv[OF demo_table_run] show ?thesis by (simp add: list_all_iff)
qed

text \<open>Jobs are never lost or reopened. Along any sequence of operations a row keeps its id,
  its identity and its dedupe key; a completed, failed or cancelled job stays so; a requested
  cancellation is never withdrawn; and a job that is being cancelled is never put back into the
  queue or handed to a worker again.\<close>

theorem job_lifecycle:
  assumes "run job_step db es db'" "jobs_inv db" "tfind job_id i (jobs_rows db) = Some j"
  shows "\<exists>j'. tfind job_id i (jobs_rows db') = Some j' \<and>
    job_jid j' = job_jid j \<and> job_type j' = job_type j \<and> job_dedupe_key j' = job_dedupe_key j \<and>
    job_payload j' = job_payload j \<and>
    (terminal j \<longrightarrow> terminal j') \<and>
    (job_cancel_requested j \<longrightarrow> job_cancel_requested j') \<and>
    (job_st j = Cancelling \<longrightarrow> job_st j' = Cancelling \<or> terminal j')"
  using jq.run_rel[OF assms(1,2)] assms(3) unfolding db_evolves_def row_evolves_def by blast

lemma demo_claimed_rows:
  "demo_claimed = \<lparr>jobs_ready = True,
     jobs_rows = [claim 101 300 ''w'' (new_job 1 100 ''j1'' ''tidal_grab'' [] (Some ''tidal:1'') None None 5 3)],
     jobs_next_id = 2\<rparr>"
  by (simp add: demo_claimed_def demo_dequeue)

definition demo_done :: jobs_db where
  "demo_done = mark_job_completed 200 1 (Some ''imported'') [] demo_claimed"

theorem job_lifecycle_witness:
  "\<exists>j'. tfind job_id 1 (jobs_rows (mark_job_cancelled 300 1 demo_done)) = Some j' \<and> terminal j'"
proof -
  have inv: "jobs_inv demo_done"
    unfolding demo_done_def mark_job_completed_def
    by (intro update_jobs_inv keeps_completed jq.run_inv[OF demo_run empty_jobs_db_inv])
  obtain j where j: "tfind job_id 1 (jobs_rows demo_done) = Some j" "terminal j"
    by (simp add: demo_done_def demo_claimed_rows mark_job_completed_def update_jobs_def tupdate_def
        tfind_def claim_def TERMINAL_JOB_STATES_def)
  have "run job_step demo_done [JUpdate 1] (mark_job_cancelled 300 1 demo_done)"
    by (rule run_single) (rule job_step.cancelled)
  from job_lifecycle[OF this inv j(1)] j(2) show ?thesis by blast
qed

text \<open>(C6) Bounded attempts. In every run from the empty queue, the number of times a job has been
  handed to a worker is the \<open>attempts\<close> column of its row, and it never exceeds the job's
  \<open>max_attempts\<close>: neither retries nor stale-lease recovery can loop forever.\<close>

theorem claims_bounded:
  assumes "run table_step empty_jobs_db es db" "tfind job_id i (jobs_rows db) = Some j"
  shows "int (sum_list (map (is_table_claim i) es)) = job_attempts j \<and> job_attempts j \<le> job_max_attempts j"
proof -
  have inv: "keys_inv checked_key db" by (rule tq.run_inv[OF assms(1) empty_jobs_db_inv])
  have "attempts_of i db = attempts_of i empty_jobs_db + sum_list (map (is_table_claim i) es)"
    by (rule tm.run_meter[OF assms(1) empty_jobs_db_inv])
  moreover have "job_ok j" using tfind_SomeD[OF assms(2)] inv by (auto simp: keys_inv_def)
  ultimately show ?thesis
    using assms(2) by (auto simp: attempts_of_def empty_jobs_db_def job_ok_def)
qed

theorem claims_bounded_witness:
  "int (sum_list (map (is_table_claim 1) [Queue_Op JEnqueue, Queue_Op (JClaim 1), Scan_Insert, Scan_Insert])) = (1::int)"
proof -
  have "tfind job_id 1 (jobs_rows demo_two_scans) =
      Some (claim 101 300 ''w'' (new_job 1 100 ''j1'' ''tidal_grab'' [] (Some ''tidal:1'') None None 5 3))"
    by (simp add: demo_two_scans_def demo_claimed_def demo_dequeue insert_scan_job_def insert_job_def tfind_def claim_def)
  from claims_bounded[OF demo_table_run this] show ?thesis by (simp add: claim_def new_job_def)
qed

text \<open>Dispatch order. On a reachable queue, dequeueing returns a job exactly when some job is
  eligible; the job it returns is queued, due, of an admitted type, and no eligible job has a
  smaller priority number, nor an earlier creation time at the same priority. That row becomes
  running with a lease and the worker's name and one more attempt; every other row is unchanged.\<close>

theorem dequeue_spec:
  assumes inv: "jobs_inv db" and ready: "jobs_ready db"
  shows "case dequeue_next_job now w lease incl excl db of
      (None, db') \<Rightarrow> db' = db \<and> (\<forall>j\<in>set (jobs_rows db). \<not> eligible now incl excl j)
    | (Some j', db') \<Rightarrow>
        (\<exists>j\<in>set (jobs_rows db). eligible now incl excl j \<and> j' = claim now lease w j \<and>
           (\<forall>k\<in>set (jobs_rows db). eligible now incl excl k \<longrightarrow>
              job_priority j < job_priority k \<or>
              job_priority j = job_priority k \<and> job_created_at j \<le> job_created_at k) \<and>
           (\<forall>i. tfind job_id i (jobs_rows db') =
              (if i = job_id j then Some j' else tfind job_id i (jobs_rows db))))"
proof (cases "dequeue_next_job now w lease incl excl db")
  case (Pair r db')
  show ?thesis
  proof (cases r)
    case None
    with Pair dequeue_next_job_NoneD[OF inv, of now w lease incl excl db'] ready show ?thesis by simp
  next
    case (Some j')
    with Pair have e: "dequeue_next_job now w lease incl excl db = (Some j', db')" by simp
    from dequeue_next_job_SomeD[OF inv e] obtain j where
      j: "j \<in> set (jobs_rows db)" "eligible now incl excl j" "j' = claim now lease w j"
      and least: "\<forall>k\<in>set (jobs_rows db). eligible now incl excl k \<longrightarrow>
         (job_priority j, job_created_at j) \<le> (job_priority k, job_created_at k)"
      and db': "db' = update_jobs (\<lambda>k. job_id k = job_id j \<and> job_st k = Queued) (claim now lease w) db"
      by blast
    have q: "job_st j = Queued" using j(2) by (simp add: eligible_def)
    have f: "tfind job_id i (jobs_rows db') =
      map_option (\<lambda>k. if job_id k = job_id j \<and> job_st k = Queued then claim now lease w k else k)
        (tfind job_id i (jobs_rows db))" for i
      unfolding db' update_jobs_def using ready
      by simp (rule tfind_tupdate, simp add: claim_def)
    have d: "tfind job_id (job_id j) (jobs_rows db) = Some j"
      using j(1) inv by (simp add: tfind_distinct jobs_inv_distinct)
    have "tfind job_id i (jobs_rows db') =
        (if i = job_id j then Some j' else tfind job_id i (jobs_rows db))" for i
      using f[of i] d q j(3) by (cases "tfind job_id i (jobs_rows db)") (auto dest: tfind_SomeD)
    moreover from least have "\<forall>k\<in>set (jobs_rows db). eligible now incl excl k \<longrightarrow>
        job_priority j < job_priority k \<or>
        job_priority j = job_priority k \<and> job_created_at j \<le> job_created_at k"
      by (fastforce simp: less_eq_prod_def)
    ultimately show ?thesis
      unfolding e using j by (auto intro!: bexI[of _ j])
  qed
qed

theorem dequeue_spec_witness:
  "fst (dequeue_next_job 101 ''w'' 300 [] [''library_scan''] demo_queue) \<noteq> None"
proof -
  have "jobs_inv demo_queue" "jobs_ready demo_queue"
    by (simp_all add: demo_queue_rows jobs_inv_def new_job_ok one_active_per_key_def)
  from dequeue_spec[OF this, where now = 101 and w = "''w''" and lease = 300 and incl = "[]"
      and excl = "[''library_scan'']"]
  show ?thesis
    by (auto simp: demo_queue_rows eligible_def opt_in_def opt_not_in_def new_job_def
        split: prod.splits option.splits)
qed

text \<open>Deduplication. With a non-empty dedupe key, enqueueing returns the id of the active job
  that has the key and writes nothing if there is one; otherwise it adds exactly one row, queued,
  unclaimed and with the given payload, which is found under the returned id, and leaves the others
  alone.\<close>

theorem enqueue_dedupe:
  assumes inv: "jobs_inv db" and ok: "jobs_ready db" "jid \<noteq> []" "ty \<noteq> []" "key \<noteq> []"
    and e: "enqueue_job now jid ty payload (Some key) src sid prio max_a db = (r, db')"
  shows "(\<exists>j\<in>set (jobs_rows db). job_dedupe_key j = Some key \<and> active j \<and> r = Some (job_id j) \<and> db' = db) \<or>
    (\<forall>j\<in>set (jobs_rows db). job_dedupe_key j = Some key \<longrightarrow> terminal j) \<and>
    (\<exists>i. r = Some i \<and> tfind job_id i (jobs_rows db) = None \<and>
      (\<forall>k. tfind job_id k (jobs_rows db') =
        (if k = i then Some (new_job i now jid ty payload (Some key) src sid prio max_a)
         else tfind job_id k (jobs_rows db))))"
  using e
proof (cases rule: enqueue_job_cases)
  case (existing key' j)
  then show ?thesis by (auto dest!: active_by_dedupe_SomeD)
next
  case fresh
  let ?i = "jobs_next_id db"
  from fresh(2) ok have t: "\<forall>j\<in>set (jobs_rows db). job_dedupe_key j = Some key \<longrightarrow> terminal j"
    by (auto simp: active_by_dedupe_None active_iff_not_terminal)
  have n: "tfind job_id ?i (jobs_rows db) = None"
    using inv by (auto simp: jobs_inv_def tfind_None_iff)
  then have "\<forall>k. tfind job_id k (jobs_rows db') =
        (if k = ?i then Some (new_job ?i now jid ty payload (Some key) src sid prio max_a)
         else tfind job_id k (jobs_rows db))"
    by (auto simp: fresh(3) tfind_append tfind_Cons split: option.splits)
  with t n fresh(1) show ?thesis by blast
qed (use ok in auto)

theorem enqueue_dedupe_witness:
  "fst (enqueue_job 102 ''j2'' ''tidal_grab'' [] (Some ''tidal:1'') None None 5 3 demo_claimed) = Some 1"
proof -
  let ?e = "enqueue_job 102 ''j2'' ''tidal_grab'' [] (Some ''tidal:1'') None None 5 3 demo_claimed"
  have "jobs_inv demo_claimed" by (rule jq.run_inv[OF demo_run empty_jobs_db_inv])
  from enqueue_dedupe[OF this, where jid = "''j2''" and ty = "''tidal_grab''" and key = "''tidal:1''"
      and now = 102 and payload = "[]" and src = None and sid = None and prio = 5 and max_a = 3
      and r = "fst ?e" and db' = "snd ?e"]
  show ?thesis by (auto simp: demo_claimed_rows claim_def new_job_def TERMINAL_JOB_STATES_def)
qed

text \<open>Retry. Scheduling a retry succeeds exactly for a held job with attempts left and no
  cancellation requested; then the row is queued again, without lease and worker, and not eligible
  before its retry time. Otherwise the table is unchanged.\<close>

theorem schedule_retry_spec:
  assumes inv: "jobs_inv db" and ready: "jobs_ready db" and j: "tfind job_id i (jobs_rows db) = Some j"
    and e: "schedule_job_retry now i err delay rs db = (ok, db')"
  shows "(ok \<longleftrightarrow> job_st j = Running \<and> job_attempts j < job_max_attempts j \<and> \<not> job_cancel_requested j) \<and>
    (\<not> ok \<longrightarrow> db' = db) \<and>
    (ok \<longrightarrow> (\<exists>j'. tfind job_id i (jobs_rows db') = Some j' \<and> job_st j' = Queued \<and>
        job_attempts j' = job_attempts j \<and> job_lease_expires_at j' = None \<and> job_worker_id j' = None \<and>
        (\<forall>t incl excl. eligible t incl excl j' \<longrightarrow> fl_add now (max 0 delay) \<le> t)))"
proof -
  have jm: "j \<in> set (jobs_rows db)" "job_id j = i" using tfind_SomeD[OF j] by auto
  have only: "k = j" if "k \<in> set (jobs_rows db)" "job_id k = i" for k
    using tfind_distinct[OF jobs_inv_distinct[OF inv] that(1)] that(2) j by simp
  have nc: "\<not> job_cancel_requested j \<Longrightarrow> job_st j \<noteq> Cancelling"
    using inv jm by (auto simp: jobs_inv_def job_ok_def)
  have ok: "ok \<longleftrightarrow> retriable i j"
  proof -
    have "ok \<longleftrightarrow> (\<exists>k\<in>set (jobs_rows db). retriable i k)"
      using e ready by (simp add: schedule_job_retry_def rowcount_pos eq_commute[of ok])
    moreover have "retriable i k \<Longrightarrow> job_id k = i" for k by (simp add: retriable_def)
    ultimately show ?thesis using only jm(1) by blast
  qed
  have db': "db' = db\<lparr>jobs_rows := tupdate (retriable i) (requeue_for_retry now err delay rs) (jobs_rows db)\<rparr>"
    using e ready by (auto simp: schedule_job_retry_def update_jobs_def)
  have f: "tfind job_id i (jobs_rows db') =
      map_option (\<lambda>k. if retriable i k then requeue_for_retry now err delay rs k else k) (Some j)"
    unfolding db' j[symmetric] by simp (rule tfind_tupdate, simp add: requeue_for_retry_def)
  have "db' = db" if "\<not> ok"
    using that ok only unfolding db' by (subst tupdate_none) (auto simp: retriable_def)
  moreover have "ok \<longleftrightarrow> job_st j = Running \<and> job_attempts j < job_max_attempts j \<and> \<not> job_cancel_requested j"
    using ok nc jm by (auto simp: retriable_def)
  ultimately show ?thesis
    using f ok by (auto simp: requeue_for_retry_def eligible_def)
qed

theorem schedule_retry_spec_witness:
  "fst (schedule_job_retry 150 1 ''timeout'' 60 None demo_claimed)"
proof -
  let ?j = "claim 101 300 ''w'' (new_job 1 100 ''j1'' ''tidal_grab'' [] (Some ''tidal:1'') None None 5 3)"
  have "jobs_inv demo_claimed" by (rule jq.run_inv[OF demo_run empty_jobs_db_inv])
  moreover have "jobs_ready demo_claimed" "tfind job_id 1 (jobs_rows demo_claimed) = Some ?j"
    by (simp_all add: demo_claimed_rows tfind_def claim_def)
  ultimately show ?thesis
    using schedule_retry_spec[of demo_claimed 1 ?j 150 "''timeout''" 60 None]
    by (cases "schedule_job_retry 150 1 ''timeout'' 60 None demo_claimed")
      (simp add: claim_def new_job_def)
qed

text \<open>Boot recovery. After \<open>recover_stale_running_jobs(force=True)\<close> no row is running: each
  one that was is queued again if it has attempts left and failed otherwise, every other row is as it
  was, and the count returned is the number of rows that were running.\<close>

theorem boot_recovery_spec:
  assumes inv: "jobs_inv db" and ready: "jobs_ready db"
    and e: "recover_stale_running_jobs now a True db = (n, db')"
  shows "n = rowcount (\<lambda>j. job_st j = Running) (jobs_rows db) \<and>
    rowcount (\<lambda>j. job_st j = Running) (jobs_rows db') = 0 \<and>
    (\<forall>i j. tfind job_id i (jobs_rows db) = Some j \<longrightarrow>
       (\<exists>j'. tfind job_id i (jobs_rows db') = Some j' \<and>
          (if job_st j = Running
           then job_st j' = (if job_attempts j < job_max_attempts j then Queued else Failed)
           else j' = j)))"
proof -
  have st: "stale now a True = (\<lambda>j. job_st j = Running)" by (auto simp: stale_def fun_eq_iff)
  have db': "jobs_rows db' = tupdate (\<lambda>j. job_st j = Running) (\<lambda>j. recover_row now j j) (jobs_rows db)"
    using recover_as_update[OF jobs_inv_distinct[OF inv], of now a True] e ready st
    by (simp add: update_jobs_def)
  have nr: "job_st (recover_row now r j) \<noteq> Running" for r j by (simp add: recover_row_def)
  have f: "tfind job_id i (jobs_rows db') =
      map_option (\<lambda>j. if job_st j = Running then recover_row now j j else j) (tfind job_id i (jobs_rows db))" for i
    unfolding db' by (rule tfind_tupdate) simp
  have n: "n = rowcount (\<lambda>j. job_st j = Running) (jobs_rows db)"
    using e ready by (auto simp: recover_stale_running_jobs_def st rowcount_def Let_def)
  have none: "\<not> 0 < rowcount (\<lambda>j. job_st j = Running) (jobs_rows db')"
    unfolding rowcount_pos db' set_tupdate by (auto simp: nr)
  have max1: "j \<in> set (jobs_rows db) \<Longrightarrow> job_max_attempts j \<noteq> 0" for j
    using inv by (auto simp: jobs_inv_def job_ok_def)
  have "\<exists>j'. tfind job_id i (jobs_rows db') = Some j' \<and>
          (if job_st j = Running
           then job_st j' = (if job_attempts j < job_max_attempts j then Queued else Failed)
           else j' = j)" if "tfind job_id i (jobs_rows db) = Some j" for i j
    using f[of i] that max1[of j] tfind_SomeD[OF that]
    by (simp add: recover_row_def int_or_def)
  with n none show ?thesis
    using rowcount_nonneg[of "\<lambda>j. job_st j = Running" "jobs_rows db'"] by (simp add: order_antisym)
qed

theorem boot_recovery_spec_witness:
  "fst (recover_stale_running_jobs 500 None True demo_claimed) = 1"
proof -
  have "jobs_inv demo_claimed" by (rule jq.run_inv[OF demo_run empty_jobs_db_inv])
  moreover have "jobs_ready demo_claimed" by (simp add: demo_claimed_rows)
  ultimately show ?thesis
    using boot_recovery_spec[of demo_claimed 500 None]
    by (cases "recover_stale_running_jobs 500 None True demo_claimed")
      (simp add: rowcount_def demo_claimed_rows claim_def)
qed

section \<open>Jobs left in the cancelling state\<close>

text \<open>A row in state \<open>cancelling\<close> is only ever written by operations that name its id. Of those
  only the worker that claimed the job ends it, so that once that worker is gone nothing does: both
  kinds of recovery skip the row, and its dedupe key stays taken.\<close>

lemma tfind_update_jobs_other:
  assumes j: "tfind job_id i (jobs_rows db) = Some j" and "\<not> P j" "\<And>k. job_id (f k) = job_id k"
  shows "tfind job_id i (jobs_rows (update_jobs P f db)) = Some j"
proof -
  have "tfind job_id i (tupdate P f (jobs_rows db)) =
      map_option (\<lambda>k. if P k then f k else k) (tfind job_id i (jobs_rows db))"
    by (rule tfind_tupdate) (rule assms(3))
  with assms(1,2) show ?thesis by (simp add: update_jobs_def)
qed

lemma cancelling_step:
  "job_step db e db' \<Longrightarrow> jobs_inv db \<Longrightarrow> tfind job_id i (jobs_rows db) = Some j \<Longrightarrow>
   job_st j = Cancelling \<Longrightarrow> e \<noteq> JUpdate i \<Longrightarrow> tfind job_id i (jobs_rows db') = Some j"
proof (induction rule: job_step.induct)
  case (enqueue max_attempts now jid ty payload dedupe src sid prio db r db')
  from enqueue(2) show ?case
    by (cases rule: enqueue_job_cases) (use enqueue(4) in \<open>simp_all add: tfind_append\<close>)
next
  case (claim now w lease incl excl db j' db')
  from dequeue_next_job_SomeD[OF claim(2,1)] obtain k :: job where
    "db' = update_jobs (\<lambda>l. job_id l = job_id k \<and> job_st l = Queued) (claim now lease w) db" by blast
  with claim show ?case by (auto intro!: tfind_update_jobs_other simp: claim_def)
next
  case (idle now w lease incl excl db db')
  then show ?case using dequeue_next_job_NoneD by blast
next
  case (recover db now a force)
  then show ?case
    by (simp add: recover_as_update jobs_inv_distinct)
      (rule tfind_update_jobs_other, simp_all add: stale_def)
qed (auto simp: job_op_defs retriable_def requeue_for_retry_def
    intro!: tfind_update_jobs_other dest: tfind_SomeD)

lemma cancelling_run:
  assumes "run job_step db es db'"
  shows "jobs_inv db \<Longrightarrow> tfind job_id i (jobs_rows db) = Some j \<Longrightarrow> job_st j = Cancelling \<Longrightarrow>
    JUpdate i \<notin> set es \<Longrightarrow> tfind job_id i (jobs_rows db') = Some j"
  using assms
proof (induction rule: run.induct)
  case (run_refl s)
  then show ?case by simp
next
  case (run_step s es s' e s'')
  then have "tfind job_id i (jobs_rows s') = Some j" by simp
  then show ?case
    using cancelling_step[OF run_step(2) jq.run_inv[OF run_step(1)]] run_step.prems by auto
qed

text \<open>(C40) A cancelling job whose worker died is stuck. If no operation names the job any more, then
  whatever else happens (recovery at boot or by lease, claims, other jobs finishing) its row is still
  cancelling, it still counts as active, and enqueueing under its dedupe key returns the dead
  job's id instead of creating a job.\<close>

theorem cancelling_orphan_stuck:
  assumes "run job_step db es db'" "jobs_inv db" "jobs_ready db'"
    and "tfind job_id i (jobs_rows db) = Some j" "job_st j = Cancelling"
    and "job_dedupe_key j = Some key" "key \<noteq> []" "jid \<noteq> []" "ty \<noteq> []" "JUpdate i \<notin> set es"
  shows "tfind job_id i (jobs_rows db') = Some j \<and>
    enqueue_job now jid ty payload (Some key) src sid prio max_a db' = (Some i, db')"
proof -
  have inv: "jobs_inv db'" using jq.run_inv assms(1,2) by blast
  have j: "tfind job_id i (jobs_rows db') = Some j"
    using cancelling_run[OF assms(1,2,4,5,10)] .
  then have jm: "j \<in> set (jobs_rows db')" "job_id j = i" "active j"
    using tfind_SomeD[OF j] assms(5) by (auto simp: ACTIVE_JOB_STATES_def)
  obtain r d where e: "enqueue_job now jid ty payload (Some key) src sid prio max_a db' = (r, d)"
    by (cases "enqueue_job now jid ty payload (Some key) src sid prio max_a db'")
  then have "r = Some i \<and> d = db'"
  proof (cases rule: enqueue_job_cases)
    case (existing key' k)
    from active_by_dedupe_SomeD[OF existing(3)] existing(1)
    have k: "k \<in> set (jobs_rows db')" "job_dedupe_key k = job_dedupe_key j" "active k"
      using assms(6) by simp_all
    have "one_active_per_key (jobs_rows db')" using inv by (simp add: jobs_inv_def)
    moreover have "truthy_str (job_dedupe_key k)" using k(2) assms(6,7) by (simp add: truthy_str_def)
    ultimately have "job_id k = job_id j" using k jm(1,3) unfolding one_active_per_key_def by blast
    with existing(4,5) jm(2) show ?thesis by simp
  next
    case fresh
    with assms(6,7) jm show ?thesis by (auto simp: active_by_dedupe_None)
  qed (use assms in auto)
  with e j show ?thesis by simp
qed

definition demo_cancelling :: jobs_db where
  "demo_cancelling = snd (request_job_cancel 1 demo_claimed)"

theorem cancelling_orphan_stuck_witness:
  "fst (enqueue_job 9000 ''j9'' ''tidal_grab'' [] (Some ''tidal:1'') None None 5 3
     (snd (recover_stale_running_jobs 8000 None True demo_cancelling))) = Some 1"
proof -
  let ?db = "snd (recover_stale_running_jobs 8000 None True demo_cancelling)"
  let ?c = "claim 101 300 ''w'' (new_job 1 100 ''j1'' ''tidal_grab'' [] (Some ''tidal:1'') None None 5 3)"
  let ?j = "?c\<lparr>job_cancel_requested := True, job_st := Cancelling\<rparr>"
  have r: "run job_step demo_cancelling [JRecover] ?db"
    by (rule run_single) (rule job_step.recover)
  have "job_step demo_claimed (JUpdate 1) demo_cancelling"
    unfolding demo_cancelling_def by (rule job_step.request_cancel)
  then have inv: "jobs_inv demo_cancelling"
    using job_step_inv jq.run_inv[OF demo_run empty_jobs_db_inv] by blast
  have rows: "demo_cancelling = \<lparr>jobs_ready = True, jobs_rows = [?j], jobs_next_id = 2\<rparr>"
    by (simp add: demo_cancelling_def demo_claimed_rows request_job_cancel_def update_jobs_def
        tupdate_def claim_def new_job_def Let_def)
  have rdy: "jobs_ready ?db" by (simp add: rows recover_stale_running_jobs_def Let_def)
  have f: "tfind job_id 1 (jobs_rows demo_cancelling) = Some ?j"
    by (simp add: rows tfind_def claim_def)
  have "enqueue_job 9000 ''j9'' ''tidal_grab'' [] (Some ''tidal:1'') None None 5 3 ?db = (Some 1, ?db)"
    using cancelling_orphan_stuck[OF r inv rdy f, where key = "''tidal:1''"]
    by (simp add: claim_def new_job_def)
  then show ?thesis by simp
qed

end
