(* ===== verification/Worker.thy ===== *)
theory Worker
  imports Job_Queue
begin

text \<open>
  The background worker of \<open>app/worker.py\<close>: the retry policy and the life of one claimed job,
  from the executor lookup to the row's final update.

  An executor is a parameter: a function of the claimed job and the queue at its start, giving its
  outcome and the queue at its end. The second component includes what heartbeats, progress reports
  and request handlers did to the queue while the executor ran; what is assumed of it is that these
  were operations of the queue. \<open>clk n\<close> is the value of the \<open>n\<close>-th call of
  \<open>time.time()\<close> in an iteration.
\<close>

section \<open>Retry policy\<close>

definition RETRY_BACKOFF_SEC :: "(string \<times> int list) list" where
  "RETRY_BACKOFF_SEC =
     [(''tidal_grab'', [60, 300, 900]), (''sab_usenet_grab'', [60, 300, 900]),
      (''qbittorrent_torrent_grab'', [60, 300, 900]), (''promote_import'', [60, 300, 900]),
      (''retry_import'', [60, 300, 900])]"

definition TRANSIENT_ERROR_MARKERS :: "string list" where
  "TRANSIENT_ERROR_MARKERS =
     [''timeout'', ''timed out'', ''temporarily unavailable'', ''temporary failure'',
      ''connection reset'', ''connection aborted'', ''connection refused'', ''remote disconnected'',
      ''service unavailable'', ''bad gateway'', ''gateway timeout'', ''http 500'', ''http 502'',
      ''http 503'', ''http 504'']"

definition PERMANENT_ERROR_MARKERS :: "string list" where
  "PERMANENT_ERROR_MARKERS =
     [''missing album_id'', ''no executor'', ''verification is not retryable'',
      ''promote is not allowed'', ''retry failed with http 400'', ''retry failed with http 401'',
      ''retry failed with http 403'', ''retry failed with http 404'', ''retry failed with http 409'',
      ''promote failed with http 400'', ''promote failed with http 401'',
      ''promote failed with http 403'', ''promote failed with http 404'',
      ''promote failed with http 409'', ''no importable files after verification'',
      ''manualimport and rescue failed'', ''manualimport returned no candidates'',
      ''codec mismatch'', ''flac -t failed'', ''v2 policy block'']"

definition retry_delay_sec :: "job \<Rightarrow> int" where
  "retry_delay_sec j =
     (let delays = (case map_of RETRY_BACKOFF_SEC (job_type j) of None \<Rightarrow> [] | Some ds \<Rightarrow> ds) in
      if delays = [] then 0
      else delays ! nat (max 0 (min (job_attempts j - 1) (int (length delays) - 1))))"

definition is_transient_failure :: "job \<Rightarrow> string \<Rightarrow> bool" where
  "is_transient_failure j exc =
     (if map_of RETRY_BACKOFF_SEC (job_type j) = None then False
      else if job_attempts j \<ge> int_or (Some (job_max_attempts j)) 1 then False
      else
        let text = py_lower exc in
        if \<exists>m\<in>set PERMANENT_ERROR_MARKERS. py_in m text then False
        else \<exists>m\<in>set TRANSIENT_ERROR_MARKERS. py_in m text)"

section \<open>Executing a job\<close>

datatype exec_outcome = Returned "string option" dict | RaisedCancelled string | Raised string

type_synonym executor = "job \<Rightarrow> jobs_db \<Rightarrow> exec_outcome \<times> jobs_db"

definition on_exception :: "rat \<Rightarrow> job \<Rightarrow> string \<Rightarrow> jobs_db \<Rightarrow> jobs_db" where
  "on_exception now j exc db =
     (let i = job_id j in
      if \<not> is_job_cancel_requested i db \<and> is_transient_failure j exc then
        (case schedule_job_retry now i exc (of_int (retry_delay_sec j)) (Some ''retry_scheduled'') db of
           (True, db') \<Rightarrow> db'
         | (False, db') \<Rightarrow> mark_job_failed now i exc (Some ''failed'') db')
      else mark_job_failed now i exc (Some ''failed'') db)"

definition execute_job :: "rat \<Rightarrow> rat \<Rightarrow> (string \<rightharpoonup> executor) \<Rightarrow> job \<Rightarrow> jobs_db \<Rightarrow> jobs_db" where
  "execute_job t0 t1 executors j db =
     (let i = job_id j in
      case executors (job_type j) of
        None \<Rightarrow> mark_job_failed t0 i (''no executor for type='' @ job_type j) (Some ''config_error'') db
      | Some ex \<Rightarrow>
          if is_job_cancel_requested i db then mark_job_cancelled t0 i db
          else
            (case ex j (heartbeat_job t0 i DEFAULT_LEASE_SEC db) of
               (Returned result_state result, db') \<Rightarrow> mark_job_completed t1 i result_state result db'
             | (RaisedCancelled _, db') \<Rightarrow> mark_job_cancelled t1 i db'
             | (Raised exc, db') \<Rightarrow> on_exception t1 j exc db'))"

definition RECOVERY_INTERVAL_SEC :: rat where
  "RECOVERY_INTERVAL_SEC = 30"

text \<open>One pass of the poll loop: recovery when it is due, then at most one job. The result is the time
  of the last recovery, the job that was run and the queue.\<close>

definition worker_iteration :: "(nat \<Rightarrow> rat) \<Rightarrow> string \<Rightarrow> (string \<rightharpoonup> executor) \<Rightarrow> rat \<Rightarrow> jobs_db \<Rightarrow>
    rat \<times> job option \<times> jobs_db" where
  "worker_iteration clk worker_id executors last_recovery db =
     (let now = clk 0;
          due = fl_add now (- last_recovery) \<ge> RECOVERY_INTERVAL_SEC;
          db1 = (if due then snd (recover_stale_running_jobs (clk 1) None False db) else db);
          last_rec = (if due then now else last_recovery) in
      case dequeue_next_job (clk 2) worker_id DEFAULT_LEASE_SEC [] [LIBRARY_SCAN_JOB_TYPE] db1 of
        (None, db2) \<Rightarrow> (last_rec, None, db2)
      | (Some j, db2) \<Rightarrow> (last_rec, Some j, execute_job (clk 3) (clk 4) executors j db2))"

record worker_state =
  worker_alive :: bool
  worker_ident :: string

definition start_worker :: "rat \<Rightarrow> string \<Rightarrow> worker_state \<times> jobs_db \<Rightarrow> worker_state \<times> jobs_db" where
  "start_worker now fresh_id s =
     (case s of (w, db) \<Rightarrow>
        if worker_alive w then (w, db)
        else (\<lparr>worker_alive = True, worker_ident = fresh_id\<rparr>,
              snd (recover_stale_running_jobs now None True db)))"

section \<open>Properties\<close>

lemma backoff_lookup:
  "map_of RETRY_BACKOFF_SEC ty = (if ty \<in> fst ` set RETRY_BACKOFF_SEC then Some [60, 300, 900] else None)"
  by (simp add: RETRY_BACKOFF_SEC_def)

text \<open>Backoff. A transient failure is only ever declared for a retryable job type with attempts
  left, whose error text carries a transient and no permanent marker; the delay before attempt
  \<open>n + 1\<close> is then 60, 300 or 900 seconds, for the first, the second and every later attempt.\<close>

theorem transient_retry_policy:
  assumes "is_transient_failure j exc" "1 \<le> job_attempts j"
  shows "job_type j \<in> fst ` set RETRY_BACKOFF_SEC \<and>
    job_attempts j < max 1 (job_max_attempts j) \<and>
    (\<exists>m\<in>set TRANSIENT_ERROR_MARKERS. sublist m (py_lower exc)) \<and>
    (\<forall>m\<in>set PERMANENT_ERROR_MARKERS. \<not> sublist m (py_lower exc)) \<and>
    retry_delay_sec j = (if job_attempts j = 1 then 60 else if job_attempts j = 2 then 300 else 900)"
proof -
  from assms(1) have ty: "job_type j \<in> fst ` set RETRY_BACKOFF_SEC"
    and lt: "job_attempts j < int_or (Some (job_max_attempts j)) 1"
    and m: "(\<exists>m\<in>set TRANSIENT_ERROR_MARKERS. py_in m (py_lower exc)) \<and>
      \<not> (\<exists>m\<in>set PERMANENT_ERROR_MARKERS. py_in m (py_lower exc))"
    by (simp_all add: is_transient_failure_def backoff_lookup Let_def split: if_split_asm)
  have "retry_delay_sec j = [60, 300, 900] ! nat (max 0 (min (job_attempts j - 1) 2))"
    by (simp add: retry_delay_sec_def backoff_lookup ty)
  also have "\<dots> = (if job_attempts j = 1 then 60 else if job_attempts j = 2 then 300 else 900)"
    using assms(2) by (cases "job_attempts j = 1"; cases "job_attempts j = 2") (simp_all add: min_def)
  finally show ?thesis
    using ty lt m by (simp add: py_in_iff_sublist int_or_def split: if_split_asm)
qed

theorem transient_retry_policy_witness:
  "retry_delay_sec (claim 101 300 ''w'' (new_job 1 100 ''j'' ''tidal_grab'' [] None None None 5 3)) = 60"
proof -
  let ?j = "claim 101 300 ''w'' (new_job 1 100 ''j'' ''tidal_grab'' [] None None None 5 3)"
  have "is_transient_failure ?j ''HTTP 503''"
  proof -
    have "py_lower ''HTTP 503'' = ''http 503''" by code_simp
    then show ?thesis
      by (simp add: is_transient_failure_def RETRY_BACKOFF_SEC_def PERMANENT_ERROR_MARKERS_def
          TRANSIENT_ERROR_MARKERS_def claim_def new_job_def int_or_def)
  qed
  moreover have "job_attempts ?j = 1" by (simp add: claim_def)
  ultimately show ?thesis
    using transient_retry_policy[of ?j "''HTTP 503''"] by simp
qed

text \<open>What the worker relies on of an executor: while it runs, only operations of the queue touch
  the jobs table.\<close>

definition queue_executor :: "executor \<Rightarrow> bool" where
  "queue_executor ex \<longleftrightarrow> (\<forall>j db. \<exists>es. run job_step db es (snd (ex j db)))"

lemma update_jobs_ready [simp]: "jobs_ready (update_jobs P f db) = jobs_ready db"
  by (simp add: update_jobs_def)

lemma job_step_ready: "job_step db e db' \<Longrightarrow> jobs_ready db' = jobs_ready db"
proof (induction rule: job_step.induct)
  case (enqueue max_attempts now jid ty payload dedupe src sid prio db r db')
  from enqueue(2) show ?case by (cases rule: enqueue_job_cases) simp_all
qed (auto simp: job_op_defs dequeue_next_job_def recover_stale_running_jobs_def
    split: if_splits option.splits)

lemma run_ready: "run job_step db es db' \<Longrightarrow> jobs_ready db' = jobs_ready db"
  by (induction rule: run.induct) (simp_all add: job_step_ready)

text \<open>The three ways a job ends find the row whatever its state.\<close>

lemma tfind_update_jobs:
  assumes "jobs_ready db" "\<And>k. job_id (f k) = job_id k"
  shows "tfind job_id i (jobs_rows (update_jobs P f db)) =
    map_option (\<lambda>k. if P k then f k else k) (tfind job_id i (jobs_rows db))"
  using assms(1) by (simp add: update_jobs_def) (rule tfind_tupdate, rule assms(2))

lemma mark_terminal:
  assumes "jobs_ready db" "tfind job_id i (jobs_rows db) = Some j"
  shows "\<exists>k. tfind job_id i (jobs_rows (mark_job_completed t i rs res db)) = Some k \<and> job_st k = Completed"
    and "\<exists>k. tfind job_id i (jobs_rows (mark_job_failed t i e rs db)) = Some k \<and> job_st k = Failed"
    and "\<exists>k. tfind job_id i (jobs_rows (mark_job_cancelled t i db)) = Some k \<and> job_st k = Cancelled"
  using assms tfind_SomeD[OF assms(2)]
  by (simp_all add: mark_job_completed_def mark_job_failed_def mark_job_cancelled_def tfind_update_jobs)

definition settled :: "int \<Rightarrow> jobs_db \<Rightarrow> bool" where
  "settled i db \<longleftrightarrow> (\<exists>j. tfind job_id i (jobs_rows db) = Some j \<and>
     (terminal j \<or> job_st j = Queued \<and> job_attempts j < job_max_attempts j \<and> \<not> job_cancel_requested j))"

lemma settled_mark:
  assumes "jobs_ready db" "tfind job_id i (jobs_rows db) = Some j"
  shows "settled i (mark_job_completed t i rs res db)" "settled i (mark_job_failed t i e rs db)"
    "settled i (mark_job_cancelled t i db)"
  using mark_terminal[OF assms] unfolding settled_def by (metis TERMINAL_JOB_STATES_def list.set_intros)+

lemma settled_on_exception:
  assumes inv: "keys_inv K db" and r: "jobs_ready db"
    and k: "tfind job_id (job_id j) (jobs_rows db) = Some k"
  shows "settled (job_id j) (on_exception t j exc db)"
proof -
  let ?i = "job_id j"
  let ?e = "schedule_job_retry t ?i exc (of_int (retry_delay_sec j)) (Some ''retry_scheduled'') db"
  obtain ok db' where e: "?e = (ok, db')" by (cases ?e)
  have f: "tfind job_id ?i (jobs_rows db') = map_option (\<lambda>k. if retriable ?i k
      then requeue_for_retry t exc (of_int (retry_delay_sec j)) (Some ''retry_scheduled'') k else k) (Some k)"
    using e r k by (auto simp: schedule_job_retry_def tfind_update_jobs requeue_for_retry_def)
  have r': "jobs_ready db'" using e r by (auto simp: schedule_job_retry_def)
  have "settled ?i (case ?e of (True, db') \<Rightarrow> db'
      | (False, db') \<Rightarrow> mark_job_failed t ?i exc (Some ''failed'') db')"
  proof (cases "retriable ?i k")
    case True
    with f have "settled ?i db'"
      by (simp add: settled_def requeue_for_retry_def retriable_def)
    moreover have ok
      using True e r tfind_SomeD[OF k]
      by (auto simp: schedule_job_retry_def rowcount_pos)
    ultimately show ?thesis by (simp add: e)
  next
    case False
    with f have "tfind job_id ?i (jobs_rows db') = Some k" by simp
    then have m: "settled ?i (mark_job_failed t ?i exc (Some ''failed'') db')"
      by (rule settled_mark(2)[OF r'])
    have "\<not> retriable ?i l" if "l \<in> set (jobs_rows db)" for l
      using that False k tfind_distinct[OF jobs_inv_distinct[OF inv] that]
      by (auto simp: retriable_def)
    then have "\<not> ok"
      using e by (auto simp: schedule_job_retry_def rowcount_pos)
    with m e show ?thesis by simp
  qed
  then show ?thesis
    using settled_mark(2)[OF r k] by (simp add: on_exception_def Let_def)
qed

lemma executed_db:
  assumes inv: "keys_inv K db" and r: "jobs_ready db" and k: "tfind job_id i (jobs_rows db) = Some k"
    and q: "queue_executor ex"
  shows "\<exists>l. keys_inv K (snd (ex j (heartbeat_job t i lease db))) \<and>
    jobs_ready (snd (ex j (heartbeat_job t i lease db))) \<and>
    tfind job_id i (jobs_rows (snd (ex j (heartbeat_job t i lease db)))) = Some l \<and> row_evolves k l"
proof -
  let ?db1 = "heartbeat_job t i lease db"
  have h: "run job_step db [JUpdate i] ?db1" by (rule run_single) (rule job_step.heartbeat)
  from q obtain es where es: "run job_step ?db1 es (snd (ex j ?db1))"
    unfolding queue_executor_def by blast
  have all: "run job_step db ([JUpdate i] @ es) (snd (ex j ?db1))" by (rule run_trans[OF h es])
  show ?thesis
    using jq.run_inv[OF all inv] run_ready[OF all] jq.run_rel[OF all inv] k r
    unfolding db_evolves_def by blast
qed

lemma execute_job_settled:
  assumes "keys_inv K db" "jobs_ready db" "tfind job_id (job_id j) (jobs_rows db) = Some k"
    and "\<And>ex. executors (job_type j) = Some ex \<Longrightarrow> queue_executor ex"
  shows "settled (job_id j) (execute_job t0 t1 executors j db)"
proof (cases "executors (job_type j)")
  case None
  then show ?thesis using settled_mark(2)[OF assms(2,3)] by (simp add: execute_job_def)
next
  case (Some ex)
  let ?i = "job_id j"
  let ?db1 = "heartbeat_job t0 ?i DEFAULT_LEASE_SEC db"
  obtain out db2 where o: "ex j ?db1 = (out, db2)" by (cases "ex j ?db1")
  from executed_db[OF assms(1-3) assms(4)[OF Some], of j t0 DEFAULT_LEASE_SEC] o
  obtain l where l: "keys_inv K db2" "jobs_ready db2" "tfind job_id ?i (jobs_rows db2) = Some l" by auto
  show ?thesis
  proof (cases "is_job_cancel_requested ?i db")
    case True
    then show ?thesis using settled_mark(3)[OF assms(2,3)] Some by (simp add: execute_job_def)
  next
    case False
    then show ?thesis
      using Some o settled_mark[OF l(2,3)] settled_on_exception[OF l]
      by (cases out) (simp_all add: execute_job_def)
  qed
qed

text \<open>(C7) A claimed job is always settled. Whatever its executor does (return, raise a cancellation,
  raise any error, or be missing), once the worker is done with the job its row is completed, failed
  or cancelled, or it is queued for another attempt with attempts left and no cancellation pending.
  It is never left running.\<close>

theorem execute_job_settles:
  assumes "keys_inv K db" "jobs_ready db" "tfind job_id (job_id j) (jobs_rows db) = Some k"
    and "\<And>ex. executors (job_type j) = Some ex \<Longrightarrow> queue_executor ex"
  shows "\<exists>j'. tfind job_id (job_id j) (jobs_rows (execute_job t0 t1 executors j db)) = Some j' \<and>
    (terminal j' \<or> job_st j' = Queued \<and> job_attempts j' < job_max_attempts j' \<and> \<not> job_cancel_requested j')"
  using execute_job_settled[OF assms] unfolding settled_def .

lemma queue_executor_returns: "queue_executor (\<lambda>j db. (Returned rs res, db))"
  unfolding queue_executor_def using run_refl[of job_step] by fastforce

theorem execute_job_settles_witness:
  "\<exists>j'. tfind job_id 1 (jobs_rows (execute_job 110 120
       [''tidal_grab'' \<mapsto> (\<lambda>j db. (Returned (Some ''imported'') [], db))]
       (hd (jobs_rows demo_claimed)) demo_claimed)) = Some j' \<and>
     (terminal j' \<or> job_st j' = Queued \<and> job_attempts j' < job_max_attempts j' \<and> \<not> job_cancel_requested j')"
proof -
  let ?j = "hd (jobs_rows demo_claimed)"
  have inv: "jobs_inv demo_claimed" by (rule jq.run_inv[OF demo_run empty_jobs_db_inv])
  have i: "job_id ?j = 1" by (simp add: demo_claimed_rows claim_def)
  have f: "jobs_ready demo_claimed" "tfind job_id (job_id ?j) (jobs_rows demo_claimed) = Some ?j"
    by (simp_all add: demo_claimed_rows tfind_def)
  have q: "queue_executor ex"
    if "[''tidal_grab'' \<mapsto> (\<lambda>j db. (Returned (Some ''imported'') [], db))] (job_type ?j) = Some ex" for ex
    using that queue_executor_returns by (auto split: if_split_asm)
  show ?thesis
    unfolding i[symmetric] by (rule execute_job_settles[OF inv f q])
qed

text \<open>Cancellation is honoured. If cancellation was requested before the worker starts the job, the
  executor is not run and the job ends cancelled; if it is requested while the executor runs and
  the executor then fails, the job is not retried but ends failed.\<close>

theorem cancel_honoured:
  assumes inv: "jobs_inv db" and r: "jobs_ready db" and k: "tfind job_id (job_id j) (jobs_rows db) = Some k"
    and ex: "executors (job_type j) = Some ex" "queue_executor ex"
  shows "(job_cancel_requested k \<longrightarrow> execute_job t0 t1 executors j db = mark_job_cancelled t0 (job_id j) db) \<and>
    (\<forall>exc db2. \<not> job_cancel_requested k \<and> ex j (heartbeat_job t0 (job_id j) DEFAULT_LEASE_SEC db) = (Raised exc, db2) \<and>
        is_job_cancel_requested (job_id j) db2 \<longrightarrow>
      (\<exists>j'. tfind job_id (job_id j) (jobs_rows (execute_job t0 t1 executors j db)) = Some j' \<and> job_st j' = Failed))"
proof -
  have c: "is_job_cancel_requested (job_id j) db = job_cancel_requested k"
    using r k by (simp add: is_job_cancel_requested_def)
  have "\<exists>j'. tfind job_id (job_id j) (jobs_rows (execute_job t0 t1 executors j db)) = Some j' \<and> job_st j' = Failed"
    if nc: "\<not> job_cancel_requested k" and o: "ex j (heartbeat_job t0 (job_id j) DEFAULT_LEASE_SEC db) = (Raised exc, db2)"
      and c2: "is_job_cancel_requested (job_id j) db2" for exc db2
  proof -
    from executed_db[OF inv r k ex(2), of j t0 DEFAULT_LEASE_SEC] o obtain l where
      l: "jobs_ready db2" "tfind job_id (job_id j) (jobs_rows db2) = Some l" by auto
    show ?thesis
      using mark_terminal(2)[OF l] nc o c c2 ex(1)
      by (simp add: execute_job_def on_exception_def Let_def)
  qed
  with c ex(1) show ?thesis by (simp add: execute_job_def Let_def)
qed

theorem cancel_honoured_witness:
  "execute_job 110 120 [''tidal_grab'' \<mapsto> (\<lambda>j db. (Returned (Some ''imported'') [], db))]
     (hd (jobs_rows demo_cancelling)) demo_cancelling = mark_job_cancelled 110 1 demo_cancelling"
proof -
  let ?j = "hd (jobs_rows demo_cancelling)"
  have "job_step demo_claimed (JUpdate 1) demo_cancelling"
    unfolding demo_cancelling_def by (rule job_step.request_cancel)
  then have inv: "jobs_inv demo_cancelling"
    using job_step_inv jq.run_inv[OF demo_run empty_jobs_db_inv] by blast
  have j: "job_id ?j = 1" "job_cancel_requested ?j" "job_type ?j = ''tidal_grab''"
    "jobs_ready demo_cancelling" "tfind job_id (job_id ?j) (jobs_rows demo_cancelling) = Some ?j"
    by (simp_all add: demo_cancelling_def demo_claimed_rows request_job_cancel_def update_jobs_def
        tupdate_def claim_def new_job_def tfind_def Let_def)
  show ?thesis
    using cancel_honoured[OF inv j(4,5),
        of "[''tidal_grab'' \<mapsto> (\<lambda>j db. (Returned (Some ''imported'') [], db))]" _ 110 120]
      queue_executor_returns j(1-3) by simp
qed

text \<open>Everything the worker does to the table is a sequence of queue operations.\<close>

lemma on_exception_run: "\<exists>es. run job_step db es (on_exception t j exc db)"
proof -
  let ?i = "job_id j"
  let ?e = "schedule_job_retry t ?i exc (of_int (retry_delay_sec j)) (Some ''retry_scheduled'') db"
  have f: "run job_step d [JUpdate ?i] (mark_job_failed t ?i exc (Some ''failed'') d)" for d
    by (rule run_single) (rule job_step.failed)
  have s: "run job_step db [JUpdate ?i] (snd ?e)" by (rule run_single) (rule job_step.retry)
  show ?thesis
  proof (cases "\<not> is_job_cancel_requested ?i db \<and> is_transient_failure j exc")
    case True
    obtain ok d where e: "?e = (ok, d)" by (cases ?e)
    show ?thesis
    proof (cases ok)
      case True': True
      with True e s show ?thesis by (auto simp: on_exception_def Let_def)
    next
      case False
      with True e run_trans[OF s f] show ?thesis by (auto simp: on_exception_def Let_def)
    qed
  next
    case False
    then show ?thesis using f[of db] unfolding on_exception_def Let_def by auto
  qed
qed

lemma execute_job_run:
  assumes "\<And>ex. executors (job_type j) = Some ex \<Longrightarrow> queue_executor ex"
  shows "\<exists>es. run job_step db es (execute_job t0 t1 executors j db)"
proof -
  let ?i = "job_id j"
  let ?db1 = "heartbeat_job t0 ?i DEFAULT_LEASE_SEC db"
  have m: "\<exists>es. run job_step d es (mark_job_failed t ?i e rs d)"
    "\<exists>es. run job_step d es (mark_job_cancelled t ?i d)"
    "\<exists>es. run job_step d es (mark_job_completed t ?i rs res d)" for d t e rs res
    by (rule exI, rule run_single, (rule job_step.failed job_step.cancelled job_step.completed))+
  have h: "run job_step db [JUpdate ?i] ?db1" by (rule run_single) (rule job_step.heartbeat)
  show ?thesis
  proof (cases "executors (job_type j)")
    case None
    then show ?thesis unfolding execute_job_def Let_def using m(1) by (simp only: option.case)
  next
    case (Some ex)
    obtain out db2 where o: "ex j ?db1 = (out, db2)" by (cases "ex j ?db1")
    with assms[OF Some] obtain es where es: "run job_step ?db1 es db2"
      unfolding queue_executor_def by (metis snd_conv)
    have "\<exists>fs. run job_step db2 fs (case out of Returned rs res \<Rightarrow> mark_job_completed t1 ?i rs res db2
        | RaisedCancelled c \<Rightarrow> mark_job_cancelled t1 ?i db2 | Raised exc \<Rightarrow> on_exception t1 j exc db2)"
      using m on_exception_run by (cases out) auto
    then show ?thesis
      using m(2)[of db t0] run_trans[OF run_trans[OF h es]] Some o
      by (cases out) (auto simp: execute_job_def Let_def simp del: append_Cons append_Nil; blast)+
  qed
qed

text \<open>One pass of the worker loop. It keeps the queue invariant, never takes a library-scan job
  (those belong to the scan worker), and leaves the job it took settled.\<close>

theorem worker_iteration_sound:
  assumes inv: "jobs_inv db" and r: "jobs_ready db"
    and q: "\<And>ty ex. executors ty = Some ex \<Longrightarrow> queue_executor ex"
    and e: "worker_iteration clk w executors prev db = (prev', taken, db')"
  shows "jobs_inv db' \<and>
    (case taken of None \<Rightarrow> True
     | Some j \<Rightarrow> job_type j \<noteq> LIBRARY_SCAN_JOB_TYPE \<and> job_st j = Running \<and> settled (job_id j) db')"
proof -
  define db1 where "db1 = (if fl_add (clk 0) (- prev) \<ge> RECOVERY_INTERVAL_SEC
    then snd (recover_stale_running_jobs (clk 1) None False db) else db)"
  have "job_step db JRecover (snd (recover_stale_running_jobs (clk 1) None False db))"
    by (rule job_step.recover)
  then have db1: "jobs_inv db1" "jobs_ready db1"
    using inv r job_step_inv job_step_ready unfolding db1_def by (auto split: if_splits)
  obtain t db2 where d: "dequeue_next_job (clk 2) w DEFAULT_LEASE_SEC [] [LIBRARY_SCAN_JOB_TYPE] db1 = (t, db2)"
    by (cases "dequeue_next_job (clk 2) w DEFAULT_LEASE_SEC [] [LIBRARY_SCAN_JOB_TYPE] db1")
  show ?thesis
  proof (cases t)
    case None
    with e d have "taken = None" "db' = db2" by (auto simp: worker_iteration_def Let_def db1_def)
    with dequeue_next_job_NoneD[OF db1(1) d[unfolded None]] db1(1) show ?thesis by simp
  next
    case (Some j)
    with e d have res: "taken = Some j" "db' = execute_job (clk 3) (clk 4) executors j db2"
      by (auto simp: worker_iteration_def Let_def db1_def)
    from dequeue_next_job_SomeD[OF db1(1) d[unfolded Some]] obtain k where
      k: "k \<in> set (jobs_rows db1)" "eligible (clk 2) [] [LIBRARY_SCAN_JOB_TYPE] k"
        "j = claim (clk 2) DEFAULT_LEASE_SEC w k" by blast
    have st: "job_step db1 (JClaim (job_id j)) db2" using d Some job_step.claim by blast
    have db2: "jobs_inv db2" "jobs_ready db2" using st db1 job_step_inv job_step_ready by auto
    have "tfind job_id (job_id k) (jobs_rows db1) = Some k"
      using k(1) db1(1) by (simp add: tfind_distinct jobs_inv_distinct)
    with job_step_evolves[OF st db1(1)] obtain l where
      l: "tfind job_id (job_id j) (jobs_rows db2) = Some l"
      by (auto simp: db_evolves_def k(3) claim_def)
    obtain es where "run job_step db2 es db'"
      using execute_job_run[of executors j db2] q unfolding res(2) by blast
    then have "jobs_inv db'" using jq.run_inv db2(1) by blast
    moreover have "settled (job_id j) db'"
      unfolding res(2) by (rule execute_job_settled[OF db2 l]) (rule q)
    ultimately show ?thesis
      using res(1) k(2,3) by (simp add: eligible_def opt_not_in_def claim_def)
  qed
qed

theorem worker_iteration_sound_witness:
  "case worker_iteration (\<lambda>n. 101) ''w''
      [''tidal_grab'' \<mapsto> (\<lambda>j db. (Returned (Some ''imported'') [], db))] 100 demo_queue of
     (last', taken, db') \<Rightarrow> jobs_inv db'"
proof -
  have inv: "jobs_inv demo_queue" "jobs_ready demo_queue"
    by (simp_all add: demo_queue_rows jobs_inv_def new_job_ok one_active_per_key_def)
  let ?ex = "[''tidal_grab'' \<mapsto> (\<lambda>j db. (Returned (Some ''imported'') [], db))]"
  have q: "\<And>ty ex. ?ex ty = Some ex \<Longrightarrow> queue_executor ex"
    using queue_executor_returns by (auto split: if_split_asm)
  show ?thesis
  proof (cases "worker_iteration (\<lambda>n. 101) ''w'' ?ex 100 demo_queue")
    case (fields prev taken db')
    from worker_iteration_sound[OF inv q fields] fields show ?thesis by simp
  qed
qed

end
