(* ===== verification/Album_Holds.thy ===== *)
theory Album_Holds
  imports Sql_Table Py_Json
begin

text \<open>
  Album-level holds of \<open>app/state_db.py\<close>: after an operator cancels a download, searches for
  the same album are suppressed until the hold expires or is cleared. The table keeps one row per
  album; expired and cleared rows stay for history.

  \<open>hold_view\<close> is the abstract state: which albums are held, and until when. The refinement lemma
  shows that each operation implements the obvious operation on that map, and that the expiry
  sweep is invisible to every later query.
\<close>

definition DEFAULT_ALBUM_HOLD_TTL_SEC :: rat where
  "DEFAULT_ALBUM_HOLD_TTL_SEC = 3600"

record album_hold =
  hold_album_id :: int
  hold_reason :: string
  hold_created_at :: rat
  hold_updated_at :: rat
  hold_expires_at :: rat
  hold_source_jid :: "string option"
  hold_source_type :: "string option"
  hold_source_id :: "string option"
  hold_actor :: "string option"
  hold_cleared_at :: "rat option"
  hold_cleared_by :: "string option"
  hold_details :: dict

record holds_db =
  holds_ready :: bool
  holds_rows :: "album_hold list"

section \<open>Operations\<close>

text \<open>The conflict clause of the insert: everything is taken from the new row except the creation
  time.\<close>

definition merge_hold :: "album_hold \<Rightarrow> album_hold \<Rightarrow> album_hold" where
  "merge_hold old new =
     old\<lparr>hold_reason := hold_reason new, hold_updated_at := hold_updated_at new,
         hold_expires_at := hold_expires_at new, hold_source_jid := hold_source_jid new,
         hold_source_type := hold_source_type new, hold_source_id := hold_source_id new,
         hold_actor := hold_actor new, hold_cleared_at := None, hold_cleared_by := None,
         hold_details := hold_details new\<rparr>"

definition hold_expiry :: "rat \<Rightarrow> rat option \<Rightarrow> rat option \<Rightarrow> rat" where
  "hold_expiry now expires_at ttl_seconds =
     (case expires_at of
        Some e \<Rightarrow> e
      | None \<Rightarrow> fl_add now (max (case ttl_seconds of None \<Rightarrow> DEFAULT_ALBUM_HOLD_TTL_SEC | Some t \<Rightarrow> t) 0))"

definition create_album_hold :: "rat \<Rightarrow> int \<Rightarrow> string \<Rightarrow> rat option \<Rightarrow> rat option \<Rightarrow> string option \<Rightarrow>
    string option \<Rightarrow> string option \<Rightarrow> string option \<Rightarrow> dict \<Rightarrow> holds_db \<Rightarrow> album_hold option \<times> holds_db" where
  "create_album_hold now album_id reason expires_at ttl_seconds source_jid source_type source_id actor
       details db =
     (if \<not> holds_ready db then (None, db)
      else if album_id \<le> 0 then (None, db)
      else if py_strip reason = [] then (None, db)
      else
        let row = \<lparr>hold_album_id = album_id, hold_reason = py_strip reason, hold_created_at = now,
                   hold_updated_at = now, hold_expires_at = hold_expiry now expires_at ttl_seconds,
                   hold_source_jid = source_jid, hold_source_type = source_type,
                   hold_source_id = source_id, hold_actor = actor, hold_cleared_at = None,
                   hold_cleared_by = None, hold_details = details\<rparr>;
            rows = upsert hold_album_id merge_hold row (holds_rows db) in
        (tfind hold_album_id album_id rows, db\<lparr>holds_rows := rows\<rparr>))"

definition hold_live :: "rat \<Rightarrow> album_hold \<Rightarrow> bool" where
  "hold_live now h \<longleftrightarrow> hold_cleared_at h = None \<and> now < hold_expires_at h"

definition get_album_hold :: "rat \<Rightarrow> int \<Rightarrow> bool \<Rightarrow> holds_db \<Rightarrow> album_hold option" where
  "get_album_hold now album_id include_inactive db =
     (if \<not> holds_ready db then None
      else if include_inactive then tfind hold_album_id album_id (holds_rows db)
      else List.find (\<lambda>h. hold_album_id h = album_id \<and> hold_live now h) (holds_rows db))"

definition is_album_held :: "rat \<Rightarrow> int \<Rightarrow> holds_db \<Rightarrow> bool" where
  "is_album_held now album_id db = (get_album_hold now album_id False db \<noteq> None)"

definition list_album_holds :: "rat \<Rightarrow> bool \<Rightarrow> int \<Rightarrow> int \<Rightarrow> holds_db \<Rightarrow> int \<times> album_hold list" where
  "list_album_holds now active_only lmt offset db =
     (if \<not> holds_ready db then (0, [])
      else
        let sel = (if active_only then filter (hold_live now) (holds_rows db) else holds_rows db) in
        (int (length sel), sql_limit lmt offset (sort_key (\<lambda>h. - hold_updated_at h) sel)))"

definition clear_album_hold :: "rat \<Rightarrow> int \<Rightarrow> string option \<Rightarrow> holds_db \<Rightarrow> bool \<times> holds_db" where
  "clear_album_hold now album_id actor db =
     (if \<not> holds_ready db then (False, db)
      else
        let P = (\<lambda>h. hold_album_id h = album_id \<and> hold_cleared_at h = None) in
        (rowcount P (holds_rows db) > 0,
         db\<lparr>holds_rows := tupdate P
               (\<lambda>h. h\<lparr>hold_cleared_at := Some now, hold_cleared_by := actor, hold_updated_at := now\<rparr>)
               (holds_rows db)\<rparr>))"

definition expire_album_holds :: "rat \<Rightarrow> holds_db \<Rightarrow> int \<times> holds_db" where
  "expire_album_holds now db =
     (if \<not> holds_ready db then (0, db)
      else
        let P = (\<lambda>h. hold_cleared_at h = None \<and> hold_expires_at h \<le> now) in
        (rowcount P (holds_rows db),
         db\<lparr>holds_rows := tupdate P
               (\<lambda>h. h\<lparr>hold_cleared_at := Some now, hold_cleared_by := Some ''auto_expire'',
                     hold_updated_at := now\<rparr>) (holds_rows db)\<rparr>))"

section \<open>The table contract\<close>

interpretation hold_table: upsert_table hold_album_id merge_hold
  by unfold_locales (simp add: merge_hold_def)

definition holds_inv :: "holds_db \<Rightarrow> bool" where
  "holds_inv db \<longleftrightarrow> distinct (map hold_album_id (holds_rows db)) \<and> (\<forall>h\<in>set (holds_rows db). 0 < hold_album_id h)"

text \<open>The abstract state: the albums with a hold that has not been cleared, and its expiry.\<close>

definition hold_view :: "holds_db \<Rightarrow> int \<rightharpoonup> rat" where
  "hold_view db a =
     (case tfind hold_album_id a (holds_rows db) of
        None \<Rightarrow> None
      | Some h \<Rightarrow> if hold_cleared_at h = None then Some (hold_expires_at h) else None)"

lemma is_album_held_view:
  assumes "holds_inv db" "holds_ready db"
  shows "is_album_held now a db \<longleftrightarrow> (\<exists>e. hold_view db a = Some e \<and> now < e)"
  using assms
  by (auto simp: is_album_held_def get_album_hold_def hold_view_def hold_live_def holds_inv_def
      find_filtered_key split: option.splits if_splits)

lemma create_album_hold_ok:
  assumes "holds_ready db" "0 < a" "py_strip reason \<noteq> []"
  shows "create_album_hold now a reason ex ttl sj st si actor details db =
    (let row = \<lparr>hold_album_id = a, hold_reason = py_strip reason, hold_created_at = now,
                hold_updated_at = now, hold_expires_at = hold_expiry now ex ttl,
                hold_source_jid = sj, hold_source_type = st, hold_source_id = si,
                hold_actor = actor, hold_cleared_at = None, hold_cleared_by = None,
                hold_details = details\<rparr>;
         rows = upsert hold_album_id merge_hold row (holds_rows db)
     in (tfind hold_album_id a rows, db\<lparr>holds_rows := rows\<rparr>))"
  using assms by (simp add: create_album_hold_def Let_def)

lemma holds_inv_create:
  assumes "holds_inv db"
  shows "holds_inv (snd (create_album_hold now a reason ex ttl sj st si actor details db))"
proof (cases "\<not> holds_ready db \<or> a \<le> 0 \<or> py_strip reason = []")
  case True
  with assms show ?thesis by (auto simp: create_album_hold_def)
next
  case False
  with assms show ?thesis
    by (auto simp: create_album_hold_ok holds_inv_def Let_def hold_table.distinct_upsert merge_hold_def
        dest: hold_table.rows_upsertE)
qed

lemma holds_inv_update:
  "holds_inv db \<Longrightarrow> (\<And>h. hold_album_id (f h) = hold_album_id h) \<Longrightarrow>
   holds_inv (db\<lparr>holds_rows := tupdate P f (holds_rows db)\<rparr>)"
  by (auto simp: holds_inv_def set_tupdate map_tupdate_same)

lemma holds_inv_clear: "holds_inv db \<Longrightarrow> holds_inv (snd (clear_album_hold now a actor db))"
  by (simp add: clear_album_hold_def Let_def holds_inv_update)

lemma holds_inv_expire: "holds_inv db \<Longrightarrow> holds_inv (snd (expire_album_holds now db))"
  by (simp add: expire_album_holds_def Let_def holds_inv_update)

lemma hold_view_create:
  assumes "holds_ready db" "0 < a" "py_strip reason \<noteq> []"
  shows "hold_view (snd (create_album_hold now a reason ex ttl sj st si actor details db)) =
    (hold_view db)(a \<mapsto> hold_expiry now ex ttl)"
  by (auto simp: create_album_hold_ok[OF assms] hold_view_def hold_table.find_upsert merge_hold_def
      Let_def fun_eq_iff split: option.splits)

lemma hold_view_clear:
  assumes "holds_ready db"
  shows "hold_view (snd (clear_album_hold now a actor db)) = (hold_view db)(a := None)"
proof
  fix b
  let ?f = "\<lambda>h. h\<lparr>hold_cleared_at := Some now, hold_cleared_by := actor, hold_updated_at := now\<rparr>"
  let ?P = "\<lambda>h. hold_album_id h = a \<and> hold_cleared_at h = None"
  have "tfind hold_album_id b (tupdate ?P ?f (holds_rows db)) =
      map_option (\<lambda>h. if ?P h then ?f h else h) (tfind hold_album_id b (holds_rows db))"
    by (rule tfind_tupdate) simp
  then show "hold_view (snd (clear_album_hold now a actor db)) b = ((hold_view db)(a := None)) b"
    using assms by (auto simp: hold_view_def clear_album_hold_def Let_def split: option.splits
        dest: tfind_SomeD)
qed

lemma hold_view_expire:
  assumes "holds_ready db"
  shows "hold_view (snd (expire_album_holds now db)) b =
    (case hold_view db b of None \<Rightarrow> None | Some e \<Rightarrow> if e \<le> now then None else Some e)"
proof -
  let ?f = "\<lambda>h. h\<lparr>hold_cleared_at := Some now, hold_cleared_by := Some ''auto_expire'', hold_updated_at := now\<rparr>"
  let ?P = "\<lambda>h. hold_cleared_at h = None \<and> hold_expires_at h \<le> now"
  have "tfind hold_album_id b (tupdate ?P ?f (holds_rows db)) =
      map_option (\<lambda>h. if ?P h then ?f h else h) (tfind hold_album_id b (holds_rows db))"
    by (rule tfind_tupdate) simp
  then show ?thesis
    using assms by (auto simp: hold_view_def expire_album_holds_def Let_def split: option.splits)
qed

section \<open>Properties\<close>

text \<open>(C12) Holds refine a map from albums to expiry times. An album counts as held at a time exactly when
  the map has a later expiry for it; creating a hold sets the album's entry, clearing removes it, and
  both leave all other albums alone; and the expiry sweep changes no answer at its own time or later.\<close>

theorem album_holds_refine:
  assumes inv: "holds_inv db" and ready: "holds_ready db"
  shows "(\<forall>t a. is_album_held t a db \<longleftrightarrow> (\<exists>e. hold_view db a = Some e \<and> t < e)) \<and>
    (\<forall>a reason ex ttl. 0 < a \<and> py_strip reason \<noteq> [] \<longrightarrow>
       hold_view (snd (create_album_hold now a reason ex ttl sj st si actor details db)) =
         (hold_view db)(a \<mapsto> hold_expiry now ex ttl)) \<and>
    (\<forall>a. hold_view (snd (clear_album_hold now a actor db)) = (hold_view db)(a := None)) \<and>
    (\<forall>t a. now \<le> t \<longrightarrow> is_album_held t a (snd (expire_album_holds now db)) = is_album_held t a db)"
proof -
  have r: "holds_ready (snd (expire_album_holds now db))"
    using ready by (simp add: expire_album_holds_def Let_def)
  have "is_album_held t a (snd (expire_album_holds now db)) = is_album_held t a db" if "now \<le> t" for t a
    using that is_album_held_view[OF inv ready] is_album_held_view[OF holds_inv_expire[OF inv] r]
    by (auto simp: hold_view_expire[OF ready] split: option.splits)
  then show ?thesis
    using is_album_held_view[OF inv ready] hold_view_create[OF ready] hold_view_clear[OF ready] by simp
qed

definition demo_holds :: holds_db where
  "demo_holds = \<lparr>holds_ready = True, holds_rows = []\<rparr>"

theorem album_holds_refine_witness:
  "hold_view (snd (create_album_hold 1000 7 '' cancelled '' (Some 2000) None None None None None [] demo_holds)) 7
     = Some 2000"
proof -
  have "py_strip '' cancelled '' = ''cancelled''" by code_simp
  moreover have "holds_inv demo_holds" "holds_ready demo_holds"
    by (simp_all add: demo_holds_def holds_inv_def)
  ultimately show ?thesis
    using album_holds_refine[of demo_holds 1000 None None None None "[]"]
    by (simp add: hold_expiry_def)
qed

text \<open>Holding again. Creating a hold for an album that already has a row keeps the row's creation
  time, replaces its reason and expiry and makes it live again even if it had been cleared, and
  returns the stored row.\<close>

theorem create_hold_replaces:
  assumes "holds_ready db" "0 < a" "py_strip reason \<noteq> []"
    and "create_album_hold now a reason ex ttl sj st si actor details db = (r, db')"
  shows "\<exists>h. r = Some h \<and> tfind hold_album_id a (holds_rows db') = Some h \<and>
    hold_reason h = py_strip reason \<and> hold_expires_at h = hold_expiry now ex ttl \<and>
    hold_cleared_at h = None \<and> hold_updated_at h = now \<and>
    hold_created_at h = (case tfind hold_album_id a (holds_rows db) of None \<Rightarrow> now | Some old \<Rightarrow> hold_created_at old)"
  using assms(4) unfolding create_album_hold_ok[OF assms(1-3)] Let_def
  by (auto simp: hold_table.find_upsert merge_hold_def split: option.splits)

theorem create_hold_replaces_witness:
  "\<exists>h. fst (create_album_hold 1000 7 ''x'' None (Some 60) None None None None [] demo_holds) = Some h \<and>
     hold_created_at h = 1000"
proof -
  have "py_strip ''x'' \<noteq> []" by code_simp
  from create_hold_replaces[OF _ _ this, of demo_holds 7 1000 None "Some 60" None None None None "[]"]
  show ?thesis
    by (cases "create_album_hold 1000 7 ''x'' None (Some 60) None None None None [] demo_holds")
      (auto simp: demo_holds_def)
qed

end
