(* ===== verification/Backend_Jobs.thy ===== *)
theory Backend_Jobs
  imports Sql_Table Py_Json
begin

text \<open>
  The table of Mintarr-managed download-backend jobs (\<open>app/state_db.py\<close>): one row per Mintarr
  job id, with the job id of the backend (a SABnzbd or qBittorrent identity) and a lifecycle state.
  States are the strings of the source, so that the validation branches are part of the model.
\<close>

definition BACKEND_JOB_STATES :: "string list" where
  "BACKEND_JOB_STATES = [''queued'', ''downloading'', ''completed'', ''importing'', ''review'',
     ''imported'', ''failed'', ''cancelled'']"

definition BACKEND_JOB_TERMINAL_STATES :: "string list" where
  "BACKEND_JOB_TERMINAL_STATES = [''imported'', ''failed'', ''cancelled'']"

definition BACKEND_JOB_ACTIVE_STATES :: "string list" where
  "BACKEND_JOB_ACTIVE_STATES = filter (\<lambda>s. s \<notin> set BACKEND_JOB_TERMINAL_STATES) BACKEND_JOB_STATES"

definition next_lifecycle_state :: "string \<Rightarrow> string \<Rightarrow> string" where
  "next_lifecycle_state current backend_state =
     (if current \<in> set BACKEND_JOB_TERMINAL_STATES \<or> current \<in> {''importing'', ''review''} then current
      else if backend_state = ''failed'' then ''failed''
      else if backend_state = ''completed'' then ''completed''
      else if backend_state = ''downloading'' then ''downloading''
      else if backend_state = ''queued'' then ''queued''
      else current)"

record backend_job =
  bj_jid :: string
  bj_source_type :: string
  bj_backend_job_id :: "string option"
  bj_category :: string
  bj_state :: string
  bj_target_album_id :: "int option"
  bj_release_title :: "string option"
  bj_backend_path :: "string option"
  bj_error_text :: "string option"
  bj_created_at :: rat
  bj_updated_at :: rat
  bj_finished_at :: "rat option"
  bj_details :: dict

record backend_db =
  bdb_ready :: bool
  bdb_rows :: "backend_job list"

definition bj_terminal :: "backend_job \<Rightarrow> bool" where
  "bj_terminal r \<longleftrightarrow> bj_state r \<in> set BACKEND_JOB_TERMINAL_STATES"

section \<open>Operations\<close>

text \<open>The conflict clause with its guard: a terminal row is left as it is.\<close>

definition merge_backend_job :: "backend_job \<Rightarrow> backend_job \<Rightarrow> backend_job" where
  "merge_backend_job old new =
     (if bj_terminal old then old
      else old\<lparr>bj_source_type := bj_source_type new, bj_backend_job_id := bj_backend_job_id new,
               bj_category := bj_category new, bj_state := bj_state new,
               bj_target_album_id := bj_target_album_id new,
               bj_release_title := bj_release_title new, bj_updated_at := bj_updated_at new,
               bj_details := bj_details new\<rparr>)"

definition create_backend_job :: "rat \<Rightarrow> string \<Rightarrow> string \<Rightarrow> string \<Rightarrow> string option \<Rightarrow> string \<Rightarrow>
    int option \<Rightarrow> string option \<Rightarrow> dict \<Rightarrow> backend_db \<Rightarrow> backend_job option \<times> backend_db" where
  "create_backend_job now jid source_type category backend_job_id state target_album_id release_title
       details db =
     (if \<not> bdb_ready db then (None, db)
      else if py_strip jid = [] \<or> py_strip category = [] \<or> py_strip source_type = [] then (None, db)
      else if state \<notin> set BACKEND_JOB_STATES then (None, db)
      else
        let row = \<lparr>bj_jid = py_strip jid, bj_source_type = py_strip source_type,
                   bj_backend_job_id = backend_job_id, bj_category = py_strip category,
                   bj_state = state, bj_target_album_id = target_album_id,
                   bj_release_title = release_title, bj_backend_path = None, bj_error_text = None,
                   bj_created_at = now, bj_updated_at = now, bj_finished_at = None,
                   bj_details = details\<rparr>;
            rows = upsert bj_jid merge_backend_job row (bdb_rows db) in
        (tfind bj_jid (py_strip jid) rows, db\<lparr>bdb_rows := rows\<rparr>))"

definition get_backend_job :: "string \<Rightarrow> backend_db \<Rightarrow> backend_job option" where
  "get_backend_job jid db = (if bdb_ready db then tfind bj_jid jid (bdb_rows db) else None)"

definition get_backend_job_by_backend_id :: "string \<Rightarrow> string \<Rightarrow> backend_db \<Rightarrow> backend_job option" where
  "get_backend_job_by_backend_id backend_job_id source_type db =
     (let ident = py_strip backend_job_id; source = py_strip source_type in
      if \<not> bdb_ready db \<or> ident = [] \<or> source = [] then None
      else List.find (\<lambda>r. bj_backend_job_id r = Some ident \<and> bj_source_type r = source) (bdb_rows db))"

record backend_patch =
  bp_state :: "string option"
  bp_backend_job_id :: "string option"
  bp_backend_path :: "string option"
  bp_target_album_id :: "int option"
  bp_release_title :: "string option"
  bp_error_text :: "string option"
  bp_finished :: bool

definition no_patch :: backend_patch where
  "no_patch = \<lparr>bp_state = None, bp_backend_job_id = None, bp_backend_path = None,
     bp_target_album_id = None, bp_release_title = None, bp_error_text = None, bp_finished = False\<rparr>"

definition opt_set :: "'a option \<Rightarrow> ('a \<Rightarrow> 'r \<Rightarrow> 'r) \<Rightarrow> 'r \<Rightarrow> 'r" where
  "opt_set x f r = (case x of None \<Rightarrow> r | Some v \<Rightarrow> f v r)"

definition patch_backend_job :: "rat \<Rightarrow> backend_patch \<Rightarrow> backend_job \<Rightarrow> backend_job" where
  "patch_backend_job now p r =
     (let r1 = r\<lparr>bj_updated_at := now\<rparr>;
          r2 = opt_set (bp_state p) (\<lambda>v r. r\<lparr>bj_state := v\<rparr>) r1;
          r3 = opt_set (bp_backend_job_id p) (\<lambda>v r. r\<lparr>bj_backend_job_id := Some v\<rparr>) r2;
          r4 = opt_set (bp_backend_path p) (\<lambda>v r. r\<lparr>bj_backend_path := Some v\<rparr>) r3;
          r5 = opt_set (bp_target_album_id p) (\<lambda>v r. r\<lparr>bj_target_album_id := Some v\<rparr>) r4;
          r6 = opt_set (bp_release_title p) (\<lambda>v r. r\<lparr>bj_release_title := Some v\<rparr>) r5;
          r7 = opt_set (bp_error_text p) (\<lambda>v r. r\<lparr>bj_error_text := Some v\<rparr>) r6 in
      if bp_finished p then r7\<lparr>bj_finished_at := Some now\<rparr> else r7)"

definition update_backend_job :: "rat \<Rightarrow> string \<Rightarrow> backend_patch \<Rightarrow> backend_db \<Rightarrow>
    backend_job option \<times> backend_db" where
  "update_backend_job now jid p db =
     (if \<not> bdb_ready db then (None, db)
      else if (case bp_state p of None \<Rightarrow> False | Some s \<Rightarrow> s \<notin> set BACKEND_JOB_STATES) then (None, db)
      else
        let P = (\<lambda>r. bj_jid r = jid);
            rows = tupdate P (patch_backend_job now p) (bdb_rows db) in
        if rowcount P (bdb_rows db) = 0 then (None, db\<lparr>bdb_rows := rows\<rparr>)
        else (tfind bj_jid jid rows, db\<lparr>bdb_rows := rows\<rparr>))"

definition list_backend_jobs :: "bool \<Rightarrow> int \<Rightarrow> int \<Rightarrow> backend_db \<Rightarrow> int \<times> backend_job list" where
  "list_backend_jobs active_only lmt offset db =
     (if \<not> bdb_ready db then (0, [])
      else
        let sel = (if active_only then filter (\<lambda>r. bj_state r \<in> set BACKEND_JOB_ACTIVE_STATES) (bdb_rows db)
                   else bdb_rows db) in
        (int (length sel), sql_limit lmt offset (sort_key (\<lambda>r. - bj_updated_at r) sel)))"

definition list_active_backend_jobs :: "backend_db \<Rightarrow> backend_job list" where
  "list_active_backend_jobs db = snd (list_backend_jobs True 10000 0 db)"

section \<open>The table contract\<close>

interpretation backend_table: upsert_table bj_jid merge_backend_job
  by unfold_locales (simp add: merge_backend_job_def)

definition backend_inv :: "backend_db \<Rightarrow> bool" where
  "backend_inv db \<longleftrightarrow> distinct (map bj_jid (bdb_rows db)) \<and>
     (\<forall>r\<in>set (bdb_rows db). bj_state r \<in> set BACKEND_JOB_STATES \<and> bj_jid r \<noteq> [])"

lemma opt_set_simps [simp]: "opt_set None f r = r" "opt_set (Some v) f r = f v r"
  by (simp_all add: opt_set_def)

lemma patch_backend_job_sel [simp]:
  "bj_jid (patch_backend_job now p r) = bj_jid r"
  "bj_state (patch_backend_job now p r) = (case bp_state p of None \<Rightarrow> bj_state r | Some s \<Rightarrow> s)"
  "bj_source_type (patch_backend_job now p r) = bj_source_type r"
  "bj_category (patch_backend_job now p r) = bj_category r"
  by (simp_all add: patch_backend_job_def opt_set_def Let_def split: option.splits)

lemma terminal_states_valid: "s \<in> set BACKEND_JOB_TERMINAL_STATES \<Longrightarrow> s \<in> set BACKEND_JOB_STATES"
  by (auto simp: BACKEND_JOB_TERMINAL_STATES_def BACKEND_JOB_STATES_def)

lemma active_state_iff:
  "s \<in> set BACKEND_JOB_ACTIVE_STATES \<longleftrightarrow>
   s \<in> set BACKEND_JOB_STATES \<and> s \<notin> set BACKEND_JOB_TERMINAL_STATES"
  by (simp add: BACKEND_JOB_ACTIVE_STATES_def)

lemma backend_inv_create:
  assumes "backend_inv db"
  shows "backend_inv (snd (create_backend_job now jid st cat bid s tgt title details db))"
proof (cases "\<not> bdb_ready db \<or> py_strip jid = [] \<or> py_strip cat = [] \<or> py_strip st = [] \<or>
    s \<notin> set BACKEND_JOB_STATES")
  case True
  with assms show ?thesis by (auto simp: create_backend_job_def)
next
  case False
  define row where "row = \<lparr>bj_jid = py_strip jid, bj_source_type = py_strip st,
    bj_backend_job_id = bid, bj_category = py_strip cat, bj_state = s, bj_target_album_id = tgt,
    bj_release_title = title, bj_backend_path = None, bj_error_text = None, bj_created_at = now,
    bj_updated_at = now, bj_finished_at = None, bj_details = details\<rparr>"
  have db': "snd (create_backend_job now jid st cat bid s tgt title details db) =
      db\<lparr>bdb_rows := upsert bj_jid merge_backend_job row (bdb_rows db)\<rparr>"
    using False by (simp add: create_backend_job_def row_def Let_def)
  have row: "bj_state row \<in> set BACKEND_JOB_STATES \<and> bj_jid row \<noteq> []"
    using False by (simp add: row_def)
  have "\<forall>r\<in>set (upsert bj_jid merge_backend_job row (bdb_rows db)).
      bj_state r \<in> set BACKEND_JOB_STATES \<and> bj_jid r \<noteq> []"
    by (rule backend_table.all_upsert) (use assms row in \<open>auto simp: backend_inv_def merge_backend_job_def\<close>)
  with assms show ?thesis
    unfolding db' by (simp add: backend_inv_def backend_table.distinct_upsert)
qed

lemma backend_inv_update:
  assumes inv: "backend_inv db"
  shows "backend_inv (snd (update_backend_job now jid p db))"
proof (cases "\<not> bdb_ready db \<or> (case bp_state p of None \<Rightarrow> False | Some s \<Rightarrow> s \<notin> set BACKEND_JOB_STATES)")
  case True
  with inv show ?thesis by (auto simp: update_backend_job_def)
next
  case False
  then have ok: "bdb_ready db" "bp_state p = Some s \<Longrightarrow> s \<in> set BACKEND_JOB_STATES" for s by auto
  have m: "map bj_jid (tupdate (\<lambda>r. bj_jid r = jid) (patch_backend_job now p) (bdb_rows db)) =
      map bj_jid (bdb_rows db)"
    by (rule map_tupdate_same) simp
  have "backend_inv (db\<lparr>bdb_rows := tupdate (\<lambda>r. bj_jid r = jid) (patch_backend_job now p) (bdb_rows db)\<rparr>)"
    using inv ok(2) unfolding backend_inv_def
    by (auto simp: m set_tupdate split: option.splits)
  with False show ?thesis by (simp add: update_backend_job_def Let_def)
qed

lemma find_update_backend_job:
  assumes "bdb_ready db" "\<And>s. bp_state p = Some s \<Longrightarrow> s \<in> set BACKEND_JOB_STATES"
  shows "tfind bj_jid k (bdb_rows (snd (update_backend_job now jid p db))) =
    (if k = jid then map_option (patch_backend_job now p) (tfind bj_jid k (bdb_rows db))
     else tfind bj_jid k (bdb_rows db))"
proof -
  have "tfind bj_jid k (tupdate (\<lambda>r. bj_jid r = jid) (patch_backend_job now p) (bdb_rows db)) =
      map_option (\<lambda>r. if bj_jid r = jid then patch_backend_job now p r else r) (tfind bj_jid k (bdb_rows db))"
    by (rule tfind_tupdate) simp
  moreover have "snd (update_backend_job now jid p db) =
      db\<lparr>bdb_rows := tupdate (\<lambda>r. bj_jid r = jid) (patch_backend_job now p) (bdb_rows db)\<rparr>"
    using assms by (auto simp: update_backend_job_def Let_def split: option.splits)
  ultimately show ?thesis
    by (cases "tfind bj_jid k (bdb_rows db)") (auto dest: tfind_SomeD)
qed

section \<open>Properties\<close>

text \<open>Reconciling a lifecycle state. A terminal state, and the states the worker or the operator owns
  (\<open>importing\<close>, \<open>review\<close>), are fixed points; otherwise the backend's report decides, an
  unknown report changes nothing, and the result is always one of the declared states.\<close>

theorem next_lifecycle_state_spec:
  assumes "current \<in> set BACKEND_JOB_STATES"
  shows "next_lifecycle_state current b \<in> set BACKEND_JOB_STATES \<and>
    (current \<in> set BACKEND_JOB_TERMINAL_STATES \<longrightarrow> next_lifecycle_state current b = current) \<and>
    (next_lifecycle_state current b \<noteq> current \<longrightarrow>
       current \<in> {''queued'', ''downloading'', ''completed''} \<and> next_lifecycle_state current b = b \<and>
       b \<in> {''queued'', ''downloading'', ''completed'', ''failed''})"
  using assms by (simp add: next_lifecycle_state_def BACKEND_JOB_STATES_def BACKEND_JOB_TERMINAL_STATES_def) auto

theorem next_lifecycle_state_spec_witness:
  "next_lifecycle_state ''cancelled'' ''completed'' = ''cancelled''"
  using next_lifecycle_state_spec[of "''cancelled''" "''completed''"]
  by (simp add: BACKEND_JOB_STATES_def BACKEND_JOB_TERMINAL_STATES_def)

text \<open>Creating a backend job. With well-formed arguments, the row found under the job id afterwards is
  the returned one: the old row unchanged if that was terminal, else a row with the given source,
  backend id, category and state that keeps an earlier creation time; no other row changes.\<close>

theorem create_backend_job_spec:
  assumes "bdb_ready db" "py_strip jid \<noteq> []" "py_strip cat \<noteq> []" "py_strip st \<noteq> []"
    "s \<in> set BACKEND_JOB_STATES"
    and "create_backend_job now jid st cat bid s tgt title details db = (r, db')"
  shows "\<exists>row. r = Some row \<and>
    (\<forall>k. tfind bj_jid k (bdb_rows db') =
       (if k = py_strip jid then Some row else tfind bj_jid k (bdb_rows db))) \<and>
    (case tfind bj_jid (py_strip jid) (bdb_rows db) of
       None \<Rightarrow> bj_state row = s \<and> bj_backend_job_id row = bid \<and> bj_created_at row = now
     | Some old \<Rightarrow>
         if bj_terminal old then row = old
         else bj_state row = s \<and> bj_backend_job_id row = bid \<and> bj_source_type row = py_strip st \<and>
              bj_category row = py_strip cat \<and> bj_created_at row = bj_created_at old)"
  using assms(6) unfolding create_backend_job_def Let_def
  by (auto simp: assms(1-5) backend_table.find_upsert merge_backend_job_def split: option.splits)

definition demo_backend :: backend_db where
  "demo_backend = \<lparr>bdb_ready = True, bdb_rows = []\<rparr>"

theorem create_backend_job_spec_witness:
  "\<exists>row. fst (create_backend_job 5 ''j1'' ''sab'' ''music'' (Some ''nzo'') ''downloading'' None None [] demo_backend)
     = Some row \<and> bj_state row = ''downloading''"
proof -
  have s: "py_strip ''j1'' = ''j1''" "py_strip ''music'' = ''music''" "py_strip ''sab'' = ''sab''"
    by code_simp+
  obtain r db' where e: "create_backend_job 5 ''j1'' ''sab'' ''music'' (Some ''nzo'') ''downloading'' None
      None [] demo_backend = (r, db')"
    by (meson surj_pair)
  have "\<exists>row. r = Some row \<and> bj_state row = ''downloading''"
    using create_backend_job_spec[OF _ _ _ _ _ e]
    by (auto simp: s demo_backend_def BACKEND_JOB_STATES_def)
  with e show ?thesis by simp
qed

end
