(* ===== verification/Library_Scan.thy ===== *)
theory Library_Scan
  imports Worker
begin

text \<open>
  Durable state of the background library scan (\<open>app/state_db.py\<close>, library-scan section): the
  table of scan runs, the per-item ledger, and the backing job in the worker queue. A scan run is
  active while its state is queued, running or cancelling, and an active run keeps a new one from
  being created.
\<close>

definition ACTIVE_LIBRARY_SCAN_STATES :: "string list" where
  "ACTIVE_LIBRARY_SCAN_STATES = [''queued'', ''running'', ''cancelling'']"

definition TERMINAL_LIBRARY_SCAN_STATES :: "string list" where
  "TERMINAL_LIBRARY_SCAN_STATES = [''completed'', ''failed'', ''cancelled'']"

record scan_run =
  run_id :: int
  run_mode :: string
  run_state :: string
  run_created_at :: rat
  run_updated_at :: rat
  run_started_at :: "rat option"
  run_finished_at :: "rat option"
  run_worker_job_id :: "int option"
  run_requested_by :: "string option"
  run_total_items :: int
  run_processed_items :: int
  run_measured_items :: int
  run_fresh_items :: int
  run_unmeasured_items :: int
  run_error_items :: int
  run_cancel_requested :: bool
  run_last_error :: "string option"

record scan_item =
  item_run_id :: int
  item_trackfile_id :: int
  item_album_id :: "int option"
  item_state :: string
  item_attempts :: "int option"
  item_updated_at :: rat
  item_last_error :: "string option"

text \<open>The part of the database that scans touch. The jobs table carries the readiness of the
  database.\<close>

record scan_db =
  sdb_jobs :: jobs_db
  sdb_runs :: "scan_run list"
  sdb_next_run :: int
  sdb_items :: "scan_item list"

abbreviation run_active :: "scan_run \<Rightarrow> bool" where
  "run_active r \<equiv> run_state r \<in> set ACTIVE_LIBRARY_SCAN_STATES"

section \<open>Runs\<close>

definition get_active_library_scan_run :: "scan_db \<Rightarrow> scan_run option" where
  "get_active_library_scan_run db =
     (if jobs_ready (sdb_jobs db) then first_min (\<lambda>r. - run_id r) (filter run_active (sdb_runs db)) else None)"

definition new_run :: "int \<Rightarrow> rat \<Rightarrow> string \<Rightarrow> string option \<Rightarrow> scan_run" where
  "new_run i now mode requested_by =
     \<lparr>run_id = i, run_mode = mode, run_state = ''queued'', run_created_at = now, run_updated_at = now,
      run_started_at = None, run_finished_at = None, run_worker_job_id = None,
      run_requested_by = requested_by, run_total_items = 0, run_processed_items = 0,
      run_measured_items = 0, run_fresh_items = 0, run_unmeasured_items = 0, run_error_items = 0,
      run_cancel_requested = False, run_last_error = None\<rparr>"

definition scan_mode :: "string option \<Rightarrow> string" where
  "scan_mode mode = (let m = py_strip (str_or mode ''cheap'') in if m = [] then ''cheap'' else m)"

definition enqueue_library_scan :: "rat \<Rightarrow> string option \<Rightarrow> string option \<Rightarrow> scan_db \<Rightarrow>
    scan_run option \<times> scan_db" where
  "enqueue_library_scan now mode_arg requested_by db =
     (let mode = scan_mode mode_arg in
      if \<not> jobs_ready (sdb_jobs db) then (None, db)
      else
        case first_min (\<lambda>r. - run_id r) (filter run_active (sdb_runs db)) of
          Some existing \<Rightarrow> (Some existing, db)
        | None \<Rightarrow>
            let i = sdb_next_run db;
                job = jobs_next_id (sdb_jobs db);
                jobs = insert_scan_job now (''library-scan-'' @ py_str_int i) [(''run_id'', JInt i), (''mode'', JStr mode)] mode
                         (sdb_jobs db);
                runs = tupdate (\<lambda>r. run_id r = i)
                         (\<lambda>r. r\<lparr>run_worker_job_id := Some job, run_updated_at := now\<rparr>)
                         (sdb_runs db @ [new_run i now mode requested_by]) in
            (tfind run_id i runs, db\<lparr>sdb_jobs := jobs, sdb_runs := runs, sdb_next_run := i + 1\<rparr>))"

definition get_library_scan_run :: "int \<Rightarrow> scan_db \<Rightarrow> scan_run option" where
  "get_library_scan_run i db = (if jobs_ready (sdb_jobs db) then tfind run_id i (sdb_runs db) else None)"

definition run_orphaned :: "jobs_db \<Rightarrow> scan_run \<Rightarrow> bool" where
  "run_orphaned jobs r =
     (case run_worker_job_id r of
        None \<Rightarrow> True
      | Some j \<Rightarrow>
          (case tfind job_id j (jobs_rows jobs) of
             None \<Rightarrow> True
           | Some job \<Rightarrow> terminal job))"

definition coalesce :: "'a option \<Rightarrow> 'a option \<Rightarrow> 'a option" where
  "coalesce x y = (case x of None \<Rightarrow> y | Some v \<Rightarrow> Some v)"

definition fail_orphan :: "rat \<Rightarrow> scan_run \<Rightarrow> scan_run" where
  "fail_orphan now r =
     r\<lparr>run_state := ''failed'', run_finished_at := coalesce (run_finished_at r) (Some now),
       run_updated_at := now,
       run_last_error := coalesce (run_last_error r) (Some ''worker restarted; backing job no longer running'')\<rparr>"

definition reconcile_orphaned_library_scan_runs :: "rat \<Rightarrow> scan_db \<Rightarrow> int \<times> scan_db" where
  "reconcile_orphaned_library_scan_runs now db =
     (if \<not> jobs_ready (sdb_jobs db) then (0, db)
      else
        let rows = filter run_active (sdb_runs db);
            orphaned = filter (run_orphaned (sdb_jobs db)) rows in
        (int (length orphaned),
         db\<lparr>sdb_runs :=
              fold (\<lambda>row. tupdate (\<lambda>r. run_id r = run_id row) (fail_orphan now)) orphaned (sdb_runs db)\<rparr>))"

definition list_library_scan_runs :: "string list \<Rightarrow> int \<Rightarrow> int \<Rightarrow> scan_db \<Rightarrow> int \<times> scan_run list" where
  "list_library_scan_runs states lmt offset db =
     (if \<not> jobs_ready (sdb_jobs db) then (0, [])
      else
        let sel = filter (\<lambda>r. opt_in states (run_state r)) (sdb_runs db) in
        (int (length sel), sql_limit lmt offset (sort_key (\<lambda>r. - run_created_at r) sel)))"

text \<open>The counter columns a caller may set; other keys are ignored.\<close>

definition set_total :: "string \<times> int \<Rightarrow> scan_run \<Rightarrow> scan_run" where
  "set_total kv r =
     (case kv of (k, v) \<Rightarrow>
        if k = ''total_items'' then r\<lparr>run_total_items := v\<rparr>
        else if k = ''processed_items'' then r\<lparr>run_processed_items := v\<rparr>
        else if k = ''measured_items'' then r\<lparr>run_measured_items := v\<rparr>
        else if k = ''fresh_items'' then r\<lparr>run_fresh_items := v\<rparr>
        else if k = ''unmeasured_items'' then r\<lparr>run_unmeasured_items := v\<rparr>
        else if k = ''error_items'' then r\<lparr>run_error_items := v\<rparr>
        else r)"

definition set_run_state :: "rat \<Rightarrow> string \<Rightarrow> string option \<Rightarrow> (string \<times> int) list \<Rightarrow> scan_run \<Rightarrow> scan_run" where
  "set_run_state now state last_error totals r =
     fold set_total totals
       (r\<lparr>run_state := state, run_updated_at := now,
          run_last_error := coalesce last_error (run_last_error r),
          run_started_at := (if state = ''running'' then coalesce (run_started_at r) (Some now) else run_started_at r),
          run_finished_at := (if state \<in> set TERMINAL_LIBRARY_SCAN_STATES
                              then coalesce (run_finished_at r) (Some now) else run_finished_at r)\<rparr>)"

definition update_library_scan_run_state :: "rat \<Rightarrow> int \<Rightarrow> string \<Rightarrow> string option \<Rightarrow> (string \<times> int) list \<Rightarrow>
    scan_db \<Rightarrow> scan_db" where
  "update_library_scan_run_state now i state last_error totals db =
     (if jobs_ready (sdb_jobs db)
      then db\<lparr>sdb_runs := tupdate (\<lambda>r. run_id r = i) (set_run_state now state last_error totals) (sdb_runs db)\<rparr>
      else db)"

definition request_library_scan_cancel :: "rat \<Rightarrow> int \<Rightarrow> scan_db \<Rightarrow> bool \<times> scan_db" where
  "request_library_scan_cancel now i db =
     (if \<not> jobs_ready (sdb_jobs db) then (False, db)
      else
        case tfind run_id i (sdb_runs db) of
          None \<Rightarrow> (False, db)
        | Some row \<Rightarrow>
            if run_state row \<notin> set ACTIVE_LIBRARY_SCAN_STATES then (False, db)
            else
              let runs = tupdate (\<lambda>r. run_id r = i)
                    (\<lambda>r. r\<lparr>run_cancel_requested := True,
                          run_state := (if run_state r = ''running'' then ''cancelling'' else run_state r),
                          run_updated_at := now\<rparr>) (sdb_runs db);
                  jobs = (case run_worker_job_id row of
                            None \<Rightarrow> sdb_jobs db
                          | Some j \<Rightarrow> snd (request_job_cancel j (sdb_jobs db))) in
              (True, db\<lparr>sdb_runs := runs, sdb_jobs := jobs\<rparr>))"

text \<open>What these operations do to the jobs table are steps of it.\<close>

lemma scan_ops_table_steps:
  "sdb_jobs (snd (enqueue_library_scan now m req db)) = sdb_jobs db \<or>
   table_step (sdb_jobs db) Scan_Insert (sdb_jobs (snd (enqueue_library_scan now m req db)))"
  "sdb_jobs (snd (request_library_scan_cancel now i db)) = sdb_jobs db \<or>
   (\<exists>j. table_step (sdb_jobs db) (Queue_Op (JUpdate j)) (sdb_jobs (snd (request_library_scan_cancel now i db))))"
  "sdb_jobs (snd (reconcile_orphaned_library_scan_runs now db)) = sdb_jobs db"
  "sdb_jobs (update_library_scan_run_state now i s e t db) = sdb_jobs db"
proof -
  show "sdb_jobs (snd (enqueue_library_scan now m req db)) = sdb_jobs db \<or>
   table_step (sdb_jobs db) Scan_Insert (sdb_jobs (snd (enqueue_library_scan now m req db)))"
    by (auto simp: enqueue_library_scan_def Let_def intro: table_step.scan_insert split: option.splits)
  show "sdb_jobs (snd (request_library_scan_cancel now i db)) = sdb_jobs db \<or>
   (\<exists>j. table_step (sdb_jobs db) (Queue_Op (JUpdate j)) (sdb_jobs (snd (request_library_scan_cancel now i db))))"
    by (auto simp: request_library_scan_cancel_def Let_def intro: table_step.queue_op job_step.request_cancel split: option.splits)
qed (simp_all add: reconcile_orphaned_library_scan_runs_def update_library_scan_run_state_def Let_def)

section \<open>The item ledger\<close>

definition item_key :: "scan_item \<Rightarrow> int \<times> int" where
  "item_key it = (item_run_id it, item_trackfile_id it)"

definition merge_item :: "scan_item \<Rightarrow> scan_item \<Rightarrow> scan_item" where
  "merge_item old new =
     old\<lparr>item_album_id := item_album_id new, item_state := item_state new,
         item_attempts := coalesce (item_attempts new) (item_attempts old),
         item_updated_at := item_updated_at new, item_last_error := item_last_error new\<rparr>"

definition upsert_library_scan_item :: "rat \<Rightarrow> int \<Rightarrow> int \<Rightarrow> int option \<Rightarrow> string \<Rightarrow> int option \<Rightarrow>
    string option \<Rightarrow> scan_db \<Rightarrow> scan_db" where
  "upsert_library_scan_item now i tf album state attempts last_error db =
     (if jobs_ready (sdb_jobs db)
      then db\<lparr>sdb_items := upsert item_key merge_item
               \<lparr>item_run_id = i, item_trackfile_id = tf, item_album_id = album, item_state = state,
                item_attempts = attempts, item_updated_at = now, item_last_error = last_error\<rparr>
               (sdb_items db)\<rparr>
      else db)"

definition get_library_scan_item :: "int \<Rightarrow> int \<Rightarrow> scan_db \<Rightarrow> scan_item option" where
  "get_library_scan_item i tf db =
     (if jobs_ready (sdb_jobs db) then tfind item_key (i, tf) (sdb_items db) else None)"

definition list_library_scan_items :: "int \<Rightarrow> string list \<Rightarrow> int \<Rightarrow> int \<Rightarrow> scan_db \<Rightarrow> int \<times> scan_item list" where
  "list_library_scan_items i states lmt offset db =
     (if \<not> jobs_ready (sdb_jobs db) then (0, [])
      else
        let sel = filter (\<lambda>it. item_run_id it = i \<and> opt_in states (item_state it)) (sdb_items db) in
        (int (length sel), sql_limit lmt offset (sort_key item_trackfile_id sel)))"

interpretation item_table: upsert_table item_key merge_item
  by unfold_locales (simp add: item_key_def merge_item_def)

section \<open>Invariant\<close>

definition scan_inv :: "scan_db \<Rightarrow> bool" where
  "scan_inv db \<longleftrightarrow>
     distinct (map run_id (sdb_runs db)) \<and> (\<forall>r\<in>set (sdb_runs db). run_id r < sdb_next_run db) \<and>
     (\<forall>r\<in>set (sdb_runs db). \<forall>q\<in>set (sdb_runs db). run_active r \<and> run_active q \<longrightarrow> run_id r = run_id q) \<and>
     (\<forall>j\<in>set (jobs_rows (sdb_jobs db)). job_id j < jobs_next_id (sdb_jobs db))"

lemma scan_inv_same: "scan_inv db \<Longrightarrow> r \<in> set (sdb_runs db) \<Longrightarrow> q \<in> set (sdb_runs db) \<Longrightarrow> run_id r = run_id q \<Longrightarrow> r = q"
  unfolding scan_inv_def by (auto simp: distinct_map dest: inj_onD)

lemma scan_inv_jobs:
  assumes "scan_inv db" "sdb_runs db' = sdb_runs db" "sdb_next_run db' = sdb_next_run db"
    "\<forall>j\<in>set (jobs_rows (sdb_jobs db')). job_id j < jobs_next_id (sdb_jobs db')"
  shows "scan_inv db'"
  using assms unfolding scan_inv_def by metis

lemma scan_inv_append:
  assumes inv: "scan_inv db" and none: "\<forall>r\<in>set (sdb_runs db). \<not> run_active r"
    and runs: "sdb_runs db' = sdb_runs db @ [q]" "run_id q = sdb_next_run db"
      "sdb_next_run db' = sdb_next_run db + 1"
    and jobs: "\<forall>j\<in>set (jobs_rows (sdb_jobs db')). job_id j < jobs_next_id (sdb_jobs db')"
  shows "scan_inv db'"
proof -
  have lt: "\<forall>r\<in>set (sdb_runs db). run_id r < sdb_next_run db" using inv by (simp add: scan_inv_def)
  moreover have "distinct (map run_id (sdb_runs db))" using inv by (simp add: scan_inv_def)
  ultimately have "distinct (map run_id (sdb_runs db'))"
    using runs(2) unfolding runs(1) by auto
  moreover have "\<forall>r\<in>set (sdb_runs db'). run_id r < sdb_next_run db'"
    using lt runs(2) unfolding runs(1,3) by auto
  moreover have "r = q" if "r \<in> set (sdb_runs db')" "run_active r" for r
    using that none unfolding runs(1) by auto
  ultimately show ?thesis using jobs unfolding scan_inv_def by metis
qed

lemma active_run_unique:
  assumes "scan_inv db" "r \<in> set (sdb_runs db)" "run_active r"
  shows "first_min (\<lambda>r. - run_id r) (filter run_active (sdb_runs db)) = Some r"
proof -
  from assms obtain q where q: "first_min (\<lambda>r. - run_id r) (filter run_active (sdb_runs db)) = Some q"
    using first_min_Some_if[of "filter run_active (sdb_runs db)" "\<lambda>r. - run_id r"]
    by (auto simp: filter_empty_conv)
  from first_min_in_set[OF q] have "q \<in> set (sdb_runs db)" "run_active q" by auto
  with assms have "run_id q = run_id r" unfolding scan_inv_def by blast
  with scan_inv_same[OF assms(1)] \<open>q \<in> set (sdb_runs db)\<close> assms(2) have "q = r" by blast
  with q show ?thesis by simp
qed

definition linked_run :: "int \<Rightarrow> rat \<Rightarrow> string \<Rightarrow> string option \<Rightarrow> int \<Rightarrow> scan_run" where
  "linked_run i now mode requested_by job =
     (new_run i now mode requested_by)\<lparr>run_worker_job_id := Some job, run_updated_at := now\<rparr>"

lemma enqueue_scan_fresh:
  assumes inv: "scan_inv db" and ready: "jobs_ready (sdb_jobs db)"
    and none: "\<forall>r\<in>set (sdb_runs db). \<not> run_active r"
  shows "enqueue_library_scan now m req db =
    (let i = sdb_next_run db; job = jobs_next_id (sdb_jobs db); run = linked_run i now (scan_mode m) req job in
     (Some run, db\<lparr>sdb_jobs := insert_scan_job now (''library-scan-'' @ py_str_int i)
         [(''run_id'', JInt i), (''mode'', JStr (scan_mode m))] (scan_mode m) (sdb_jobs db),
       sdb_runs := sdb_runs db @ [run], sdb_next_run := i + 1\<rparr>))"
proof -
  let ?i = "sdb_next_run db"
  let ?f = "\<lambda>r. r\<lparr>run_worker_job_id := Some (jobs_next_id (sdb_jobs db)), run_updated_at := now\<rparr>"
  have f: "filter run_active (sdb_runs db) = []" using none by (simp add: filter_empty_conv)
  have lt: "\<forall>r\<in>set (sdb_runs db). run_id r \<noteq> ?i" using inv by (auto simp: scan_inv_def)
  have u: "tupdate (\<lambda>r. run_id r = ?i) ?f (sdb_runs db @ [new_run ?i now (scan_mode m) req]) =
      sdb_runs db @ [linked_run ?i now (scan_mode m) req (jobs_next_id (sdb_jobs db))]"
    using tupdate_none[OF lt, of ?f] by (simp add: tupdate_def linked_run_def new_run_def)
  have t: "tfind run_id ?i (sdb_runs db) = None" using lt by (auto simp: tfind_None_iff)
  show ?thesis
    by (simp add: enqueue_library_scan_def ready f u t tfind_append tfind_Cons Let_def)
      (simp add: linked_run_def new_run_def)
qed

section \<open>Properties\<close>

text \<open>One scan at a time. Asking for a library scan returns the active run and writes nothing when there
  is one; otherwise it creates one run, which is then the active run, together with a queued
  library-scan job whose payload names the run and whose id the run records. The invariant that at
  most one run is active is kept.\<close>

theorem enqueue_library_scan_spec:
  assumes inv: "scan_inv db" and ready: "jobs_ready (sdb_jobs db)"
    and e: "enqueue_library_scan now m req db = (r, db')"
  shows "scan_inv db' \<and>
    (\<exists>run. r = Some run \<and> run_active run \<and> get_active_library_scan_run db' = Some run \<and>
      (if \<exists>q\<in>set (sdb_runs db). run_active q then db' = db
       else \<exists>i job. run_worker_job_id run = Some i \<and> tfind job_id i (jobs_rows (sdb_jobs db)) = None \<and>
              tfind job_id i (jobs_rows (sdb_jobs db')) = Some job \<and>
              job_st job = Queued \<and> job_type job = LIBRARY_SCAN_JOB_TYPE \<and>
              dget ''run_id'' (job_payload job) = JInt (run_id run)))"
proof (cases "\<exists>q\<in>set (sdb_runs db). run_active q")
  case True
  then obtain q where q: "q \<in> set (sdb_runs db)" "run_active q" by blast
  note u = active_run_unique[OF inv q]
  have "r = Some q" "db' = db" using e u ready by (simp_all add: enqueue_library_scan_def Let_def)
  with inv q u ready True show ?thesis by (simp add: get_active_library_scan_run_def)
next
  case False
  let ?i = "sdb_next_run db" and ?j = "jobs_next_id (sdb_jobs db)"
  let ?run = "linked_run ?i now (scan_mode m) req ?j"
  from False have none: "\<forall>r\<in>set (sdb_runs db). \<not> run_active r" by blast
  note ee = enqueue_scan_fresh[OF inv ready none, of now m req, unfolded e Let_def]
  then have r: "r = Some ?run" by simp
  from ee have runs: "sdb_runs db' = sdb_runs db @ [?run]" "sdb_next_run db' = ?i + 1"
    and jobs: "jobs_ready (sdb_jobs db') = jobs_ready (sdb_jobs db)"
      "jobs_rows (sdb_jobs db') = jobs_rows (sdb_jobs db) @ [new_job ?j now (''library-scan-'' @ py_str_int ?i)
         LIBRARY_SCAN_JOB_TYPE [(''run_id'', JInt ?i), (''mode'', JStr (scan_mode m))]
         (Some LIBRARY_SCAN_DEDUPE_KEY) (Some ''library'') (Some (scan_mode m)) LIBRARY_SCAN_PRIORITY
         LIBRARY_SCAN_MAX_ATTEMPTS]" "jobs_next_id (sdb_jobs db') = ?j + 1"
    by (simp_all add: insert_scan_job_def insert_job_def)
  have run: "run_id ?run = ?i" "run_active ?run" "run_worker_job_id ?run = Some ?j"
    by (simp_all add: linked_run_def new_run_def ACTIVE_LIBRARY_SCAN_STATES_def)
  have jlt: "\<forall>j\<in>set (jobs_rows (sdb_jobs db)). job_id j < ?j" using inv by (simp add: scan_inv_def)
  then have "\<forall>j\<in>set (jobs_rows (sdb_jobs db')). job_id j < jobs_next_id (sdb_jobs db')"
    unfolding jobs by auto
  then have inv': "scan_inv db'"
    by (rule scan_inv_append[OF inv none runs(1) run(1) runs(2)])
  have fresh: "tfind job_id ?j (jobs_rows (sdb_jobs db)) = None"
    using jlt by (auto simp: tfind_None_iff)
  have act: "get_active_library_scan_run db' = Some ?run"
    using active_run_unique[OF inv', of ?run] run ready by (simp add: runs jobs get_active_library_scan_run_def)
  show ?thesis
    using inv' r run act False fresh
    by (auto simp: jobs tfind_append tfind_Cons new_job_def)
qed

definition demo_scan :: scan_db where
  "demo_scan = \<lparr>sdb_jobs = empty_jobs_db, sdb_runs = [], sdb_next_run = 1, sdb_items = []\<rparr>"

theorem enqueue_library_scan_spec_witness:
  "scan_inv (snd (enqueue_library_scan 10 None None demo_scan))"
proof -
  have "scan_inv demo_scan" "jobs_ready (sdb_jobs demo_scan)"
    by (simp_all add: demo_scan_def scan_inv_def empty_jobs_db_def)
  from enqueue_library_scan_spec[OF this, where r = "fst (enqueue_library_scan 10 None None demo_scan)"
      and db' = "snd (enqueue_library_scan 10 None None demo_scan)"]
  show ?thesis by simp
qed

text \<open>The reconciliation loop is one update of the orphaned runs.\<close>

lemma reconcile_as_update:
  assumes "scan_inv db" "jobs_ready (sdb_jobs db)"
  shows "sdb_runs (snd (reconcile_orphaned_library_scan_runs now db)) =
    map (\<lambda>r. if run_active r \<and> run_orphaned (sdb_jobs db) r then fail_orphan now r else r) (sdb_runs db)"
proof -
  have d: "distinct (map run_id (sdb_runs db))" using assms(1) by (simp add: scan_inv_def)
  have "fold (\<lambda>row. tupdate (\<lambda>r. run_id r = run_id row) (fail_orphan now))
      (filter (\<lambda>r. run_active r \<and> run_orphaned (sdb_jobs db) r) (sdb_runs db)) (sdb_runs db) =
    map (\<lambda>r. if run_active r \<and> run_orphaned (sdb_jobs db) r then fail_orphan now r else r) (sdb_runs db)"
    by (rule fold_update_by_key[where key = run_id and g = "\<lambda>_. fail_orphan now", OF _ d])
      (simp add: fail_orphan_def)
  with assms(2) show ?thesis
    by (simp add: reconcile_orphaned_library_scan_runs_def Let_def conj_commute)
qed

text \<open>Orphan reconciliation. Afterwards every run that is still active has a backing job that is not
  terminal; exactly the active runs without one were changed, to failed and with a finish time; and
  the count returned is their number.\<close>

theorem reconcile_orphans_spec:
  assumes inv: "scan_inv db" and ready: "jobs_ready (sdb_jobs db)"
    and e: "reconcile_orphaned_library_scan_runs now db = (n, db')"
  shows "sdb_jobs db' = sdb_jobs db \<and>
    (\<forall>r\<in>set (sdb_runs db'). run_active r \<longrightarrow>
       (\<exists>i job. run_worker_job_id r = Some i \<and> tfind job_id i (jobs_rows (sdb_jobs db')) = Some job \<and> active job)) \<and>
    (\<forall>i r. tfind run_id i (sdb_runs db) = Some r \<longrightarrow>
       (\<exists>r'. tfind run_id i (sdb_runs db') = Some r' \<and>
         (if run_active r \<and> run_orphaned (sdb_jobs db) r
          then run_state r' = ''failed'' \<and> run_finished_at r' \<noteq> None else r' = r))) \<and>
    n = rowcount (\<lambda>r. run_active r \<and> run_orphaned (sdb_jobs db) r) (sdb_runs db)"
proof -
  let ?g = "\<lambda>r. if run_active r \<and> run_orphaned (sdb_jobs db) r then fail_orphan now r else r"
  have jobs: "sdb_jobs db' = sdb_jobs db"
    using e ready by (auto simp: reconcile_orphaned_library_scan_runs_def Let_def)
  have runs: "sdb_runs db' = map ?g (sdb_runs db)"
    using reconcile_as_update[OF inv ready, of now] e by simp
  have nf: "\<not> run_active (fail_orphan now r)" for r
    by (simp add: fail_orphan_def ACTIVE_LIBRARY_SCAN_STATES_def)
  have act: "run_active (?g r) \<Longrightarrow> run_active r \<and> \<not> run_orphaned (sdb_jobs db) r \<and> ?g r = r" for r
    using nf by (auto split: if_splits)
  have owned: "\<exists>i job. run_worker_job_id r = Some i \<and> tfind job_id i (jobs_rows (sdb_jobs db)) = Some job \<and> active job"
    if "\<not> run_orphaned (sdb_jobs db) r" for r
    using that by (auto simp: run_orphaned_def active_iff_not_terminal split: option.splits)
  have f: "tfind run_id i (sdb_runs db') = map_option ?g (tfind run_id i (sdb_runs db))" for i
    unfolding runs by (rule tfind_map) (simp add: fail_orphan_def)
  have n: "n = rowcount (\<lambda>r. run_active r \<and> run_orphaned (sdb_jobs db) r) (sdb_runs db)"
    using e ready by (auto simp: reconcile_orphaned_library_scan_runs_def rowcount_def Let_def conj_commute)
  have c: "\<forall>r\<in>set (sdb_runs db'). run_active r \<longrightarrow>
       (\<exists>i job. run_worker_job_id r = Some i \<and> tfind job_id i (jobs_rows (sdb_jobs db')) = Some job \<and> active job)"
  proof (intro ballI impI)
    fix q assume "q \<in> set (sdb_runs db')" and a: "run_active q"
    then obtain r where r: "q = ?g r" unfolding runs set_map by blast
    with act[of r] a have "q = r" "\<not> run_orphaned (sdb_jobs db) r" by metis+
    with owned show "\<exists>i job. run_worker_job_id q = Some i \<and>
        tfind job_id i (jobs_rows (sdb_jobs db')) = Some job \<and> active job"
      unfolding jobs by blast
  qed
  have "\<exists>r'. tfind run_id i (sdb_runs db') = Some r' \<and>
         (if run_active r \<and> run_orphaned (sdb_jobs db) r
          then run_state r' = ''failed'' \<and> run_finished_at r' \<noteq> None else r' = r)"
    if "tfind run_id i (sdb_runs db) = Some r" for i r
    using f[of i] that by (simp add: fail_orphan_def coalesce_def split: option.splits)
  with jobs c n show ?thesis by blast
qed

theorem reconcile_orphans_spec_witness:
  "fst (reconcile_orphaned_library_scan_runs 99 (demo_scan\<lparr>sdb_runs := [new_run 0 1 ''cheap'' None]\<rparr>)) = 1"
proof -
  let ?db = "demo_scan\<lparr>sdb_runs := [new_run 0 1 ''cheap'' None]\<rparr>"
  have i: "scan_inv ?db" "jobs_ready (sdb_jobs ?db)"
    by (simp_all add: demo_scan_def scan_inv_def empty_jobs_db_def new_run_def)
  from reconcile_orphans_spec[OF i, where n = "fst (reconcile_orphaned_library_scan_runs 99 ?db)"
      and db' = "snd (reconcile_orphaned_library_scan_runs 99 ?db)"]
  show ?thesis
    by (simp add: rowcount_def new_run_def run_orphaned_def ACTIVE_LIBRARY_SCAN_STATES_def)
qed

text \<open>A cancelled scan whose worker died blocks scanning. If the backing job of the active run is in
  state cancelling, then after boot recovery of the queue and orphan reconciliation the run is still
  active and unchanged, and asking for a new scan returns it.\<close>

theorem scan_cancelling_blocks:
  assumes inv: "scan_inv db" and jinv: "jobs_inv (sdb_jobs db)" and ready: "jobs_ready (sdb_jobs db)"
    and r: "r \<in> set (sdb_runs db)" "run_active r" "run_worker_job_id r = Some i"
    and j: "tfind job_id i (jobs_rows (sdb_jobs db)) = Some j" "job_st j = Cancelling"
    and db1: "db1 = db\<lparr>sdb_jobs := snd (recover_stale_running_jobs t1 None True (sdb_jobs db))\<rparr>"
    and db2: "db2 = snd (reconcile_orphaned_library_scan_runs t2 db1)"
  shows "r \<in> set (sdb_runs db2) \<and> enqueue_library_scan t3 m req db2 = (Some r, db2)"
proof -
  have st: "job_step (sdb_jobs db) JRecover (sdb_jobs db1)" unfolding db1 by (simp add: job_step.recover)
  have j1: "tfind job_id i (jobs_rows (sdb_jobs db1)) = Some j"
    by (rule cancelling_step[OF st jinv j]) simp
  have ready1: "jobs_ready (sdb_jobs db1)" using job_step_ready[OF st] ready by simp
  have inv1: "scan_inv db1"
    by (rule scan_inv_jobs[OF inv]) (use job_step_inv[OF st jinv] in \<open>auto simp: db1 jobs_inv_def\<close>)
  have no: "\<not> run_orphaned (sdb_jobs db1) r"
    using r(3) j1 j(2) by (simp add: run_orphaned_def TERMINAL_JOB_STATES_def)
  have runs2: "sdb_runs db2 = map (\<lambda>r. if run_active r \<and> run_orphaned (sdb_jobs db1) r then fail_orphan t2 r else r)
      (sdb_runs db1)"
    unfolding db2 by (rule reconcile_as_update[OF inv1 ready1])
  have same: "sdb_runs db2 = sdb_runs db1"
    unfolding runs2
  proof (rule map_idI)
    fix q assume q: "q \<in> set (sdb_runs db1)"
    show "(if run_active q \<and> run_orphaned (sdb_jobs db1) q then fail_orphan t2 q else q) = q"
    proof (cases "run_active q")
      case True
      from q have q0: "q \<in> set (sdb_runs db)" by (simp add: db1)
      with inv True r have "run_id q = run_id r" unfolding scan_inv_def by blast
      with scan_inv_same[OF inv q0 r(1)] no show ?thesis by simp
    qed simp
  qed
  have rdy2: "jobs_ready (sdb_jobs db2)"
    using ready1 by (simp add: db2 reconcile_orphaned_library_scan_runs_def Let_def)
  have r2: "r \<in> set (sdb_runs db2)" using r(1) unfolding same db1 by simp
  have "first_min (\<lambda>r. - run_id r) (filter run_active (sdb_runs db2)) = Some r"
    using active_run_unique[OF inv1, of r] r(2) r2 unfolding same by simp
  with rdy2 r2 show ?thesis by (simp add: enqueue_library_scan_def Let_def)
qed

theorem scan_cancelling_blocks_witness:
  "\<exists>r. fst (enqueue_library_scan 300 None None
     (snd (reconcile_orphaned_library_scan_runs 200
       (\<lparr>sdb_jobs = snd (recover_stale_running_jobs 100 None True demo_cancelling),
         sdb_runs = [linked_run 1 1 ''cheap'' None 1], sdb_next_run = 2, sdb_items = []\<rparr>)))) = Some r"
proof -
  let ?r = "linked_run 1 1 ''cheap'' None 1"
  let ?db = "\<lparr>sdb_jobs = demo_cancelling, sdb_runs = [?r], sdb_next_run = 2, sdb_items = []\<rparr>"
  have "job_step demo_claimed (JUpdate 1) demo_cancelling"
    unfolding demo_cancelling_def by (rule job_step.request_cancel)
  then have jinv: "jobs_inv demo_cancelling"
    using job_step_inv jq.run_inv[OF demo_run empty_jobs_db_inv] by blast
  then have inv: "scan_inv ?db"
    by (simp add: scan_inv_def jobs_inv_def linked_run_def new_run_def)
  have r: "run_active ?r" "run_worker_job_id ?r = Some 1"
    by (simp_all add: linked_run_def new_run_def ACTIVE_LIBRARY_SCAN_STATES_def)
  obtain j where j: "tfind job_id 1 (jobs_rows demo_cancelling) = Some j" "job_st j = Cancelling"
    and rdy: "jobs_ready demo_cancelling"
    by (simp add: demo_cancelling_def demo_claimed_rows request_job_cancel_def update_jobs_def
        tupdate_def claim_def new_job_def tfind_def Let_def)
  show ?thesis
    using scan_cancelling_blocks[of ?db ?r 1 j _ 100 _ 200 300 None None] inv jinv rdy r j by simp
qed

end
