(* ===== verification/Evidence_Table.thy ===== *)
theory Evidence_Table
  imports Sql_Table Py_Json "HOL-Library.List_Lexorder" "HOL-Library.Char_ord" "HOL-Library.Option_ord"
    "HOL-Library.Product_Lexorder"
begin

text \<open>
  The \<open>library_evidence\<close> table of \<open>app/state_db.py\<close>: what was measured of each existing
  library file. One row carries three tiers of evidence, each written by its own partial upsert:
  metadata (ffprobe), integrity (\<open>flac -t\<close>) and spectral (FLAC Detective). The locale
  \<open>tier_upsert\<close> states that a write of one tier leaves a view of the others alone; every partial
  upsert interprets it.
\<close>

record lib_row =
  le_trackfile_id :: int
  le_album_id :: "int option"
  le_path :: "string option"
  le_size :: "int option"
  le_mtime :: "rat option"
  le_status :: "string option"
  le_reason :: "string option"
  le_codec :: "string option"
  le_sample_rate :: "int option"
  le_bit_depth :: "int option"
  le_bitrate_kbps :: "int option"
  le_channels :: "int option"
  le_lossless :: "bool option"
  le_integrity_ok :: "bool option"
  le_checksum_ok :: "bool option"
  le_integrity_issue :: "string option"
  le_sensor_version :: "string option"
  le_integrity_sensor_version :: "string option"
  le_evidence :: "dict option"
  le_measured_at :: "rat option"
  le_authentic :: "bool option"
  le_spectral_status :: "string option"
  le_spectral_reason :: "string option"
  le_spectral_verdict :: "string option"
  le_spectral_sensor_version :: "string option"
  le_spectral_evidence :: "dict option"
  le_spectral_measured_at :: "rat option"

definition empty_row :: lib_row where
  "empty_row = \<lparr>le_trackfile_id = 0, le_album_id = None, le_path = None, le_size = None, le_mtime = None,
     le_status = None, le_reason = None, le_codec = None, le_sample_rate = None, le_bit_depth = None,
     le_bitrate_kbps = None, le_channels = None, le_lossless = None, le_integrity_ok = None,
     le_checksum_ok = None, le_integrity_issue = None, le_sensor_version = None,
     le_integrity_sensor_version = None, le_evidence = None, le_measured_at = None,
     le_authentic = None, le_spectral_status = None, le_spectral_reason = None,
     le_spectral_verdict = None, le_spectral_sensor_version = None, le_spectral_evidence = None,
     le_spectral_measured_at = None\<rparr>"

record evidence_db =
  edb_ready :: bool
  edb_rows :: "lib_row list"

text \<open>\<open>row.get("measured_at") or time.time()\<close>.\<close>

definition time_or :: "rat option \<Rightarrow> rat \<Rightarrow> rat" where
  "time_or x now = (case x of None \<Rightarrow> now | Some t \<Rightarrow> if t = 0 then now else t)"

definition dict_or_empty :: "dict option \<Rightarrow> dict" where
  "dict_or_empty x = (case x of None \<Rightarrow> [] | Some d \<Rightarrow> d)"

section \<open>The four writes\<close>

text \<open>Each write takes the caller's dictionary (an absent key is \<open>None\<close>, and the trackfile id is
  given separately), builds the inserted row with the columns of its statement, and merges it into an
  existing row by its conflict clause.\<close>

definition metadata_columns :: "lib_row \<Rightarrow> lib_row \<Rightarrow> lib_row" where
  "metadata_columns src r =
     r\<lparr>le_album_id := le_album_id src, le_path := le_path src, le_size := le_size src,
       le_mtime := le_mtime src, le_status := le_status src, le_reason := le_reason src,
       le_codec := le_codec src, le_sample_rate := le_sample_rate src,
       le_bit_depth := le_bit_depth src, le_bitrate_kbps := le_bitrate_kbps src,
       le_channels := le_channels src, le_lossless := le_lossless src,
       le_sensor_version := le_sensor_version src, le_evidence := le_evidence src,
       le_measured_at := le_measured_at src\<rparr>"

definition integrity_columns :: "lib_row \<Rightarrow> lib_row \<Rightarrow> lib_row" where
  "integrity_columns src r =
     r\<lparr>le_integrity_ok := le_integrity_ok src, le_checksum_ok := le_checksum_ok src,
       le_integrity_issue := le_integrity_issue src,
       le_integrity_sensor_version := le_integrity_sensor_version src\<rparr>"

definition spectral_columns :: "lib_row \<Rightarrow> lib_row \<Rightarrow> lib_row" where
  "spectral_columns src r =
     r\<lparr>le_authentic := le_authentic src, le_spectral_status := le_spectral_status src,
       le_spectral_reason := le_spectral_reason src, le_spectral_verdict := le_spectral_verdict src,
       le_spectral_sensor_version := le_spectral_sensor_version src,
       le_spectral_evidence := le_spectral_evidence src,
       le_spectral_measured_at := le_spectral_measured_at src\<rparr>"

definition merge_full :: "lib_row \<Rightarrow> lib_row \<Rightarrow> lib_row" where
  "merge_full old new = integrity_columns new (metadata_columns new old)"

definition merge_metadata :: "lib_row \<Rightarrow> lib_row \<Rightarrow> lib_row" where
  "merge_metadata old new = metadata_columns new old"

definition merge_integrity :: "lib_row \<Rightarrow> lib_row \<Rightarrow> lib_row" where
  "merge_integrity old new = (integrity_columns new old)\<lparr>le_album_id := le_album_id new\<rparr>"

definition merge_spectral :: "lib_row \<Rightarrow> lib_row \<Rightarrow> lib_row" where
  "merge_spectral old new = spectral_columns new old"

definition write_row :: "(lib_row \<Rightarrow> lib_row \<Rightarrow> lib_row) \<Rightarrow> int option \<Rightarrow> (int \<Rightarrow> lib_row) \<Rightarrow> evidence_db \<Rightarrow> evidence_db" where
  "write_row merge tf mk db =
     (case tf of
        None \<Rightarrow> db
      | Some i \<Rightarrow>
          if edb_ready db then db\<lparr>edb_rows := upsert le_trackfile_id merge (mk i) (edb_rows db)\<rparr> else db)"

definition metadata_payload :: "rat \<Rightarrow> lib_row \<Rightarrow> lib_row" where
  "metadata_payload now row =
     row\<lparr>le_evidence := Some (dict_or_empty (le_evidence row)),
         le_measured_at := Some (time_or (le_measured_at row) now)\<rparr>"

definition upsert_library_evidence :: "rat \<Rightarrow> int option \<Rightarrow> lib_row \<Rightarrow> evidence_db \<Rightarrow> evidence_db" where
  "upsert_library_evidence now tf row =
     write_row merge_full tf
       (\<lambda>i. integrity_columns row (metadata_columns (metadata_payload now row) (empty_row\<lparr>le_trackfile_id := i\<rparr>)))"

definition upsert_library_metadata :: "rat \<Rightarrow> int option \<Rightarrow> lib_row \<Rightarrow> evidence_db \<Rightarrow> evidence_db" where
  "upsert_library_metadata now tf row =
     write_row merge_metadata tf
       (\<lambda>i. metadata_columns (metadata_payload now row) (empty_row\<lparr>le_trackfile_id := i\<rparr>))"

definition update_library_integrity :: "int option \<Rightarrow> lib_row \<Rightarrow> evidence_db \<Rightarrow> evidence_db" where
  "update_library_integrity tf row =
     write_row merge_integrity tf
       (\<lambda>i. integrity_columns row (empty_row\<lparr>le_trackfile_id := i, le_album_id := le_album_id row\<rparr>))"

definition update_library_spectral :: "rat \<Rightarrow> int option \<Rightarrow> lib_row \<Rightarrow> evidence_db \<Rightarrow> evidence_db" where
  "update_library_spectral now tf row =
     write_row merge_spectral tf
       (\<lambda>i. spectral_columns
          (row\<lparr>le_spectral_evidence := Some (dict_or_empty (le_spectral_evidence row)),
               le_spectral_measured_at := Some (time_or (le_spectral_measured_at row) now)\<rparr>)
          (empty_row\<lparr>le_trackfile_id := i, le_album_id := le_album_id row\<rparr>))"

section \<open>Reads\<close>

definition get_library_evidence :: "int \<Rightarrow> evidence_db \<Rightarrow> lib_row option" where
  "get_library_evidence i db = (if edb_ready db then tfind le_trackfile_id i (edb_rows db) else None)"

text \<open>\<open>ORDER BY path\<close>: a null path comes first, other paths in byte order.\<close>

definition get_album_library_evidence :: "int \<Rightarrow> evidence_db \<Rightarrow> lib_row list" where
  "get_album_library_evidence album db =
     (if edb_ready db then sort_key le_path (filter (\<lambda>r. le_album_id r = Some album) (edb_rows db)) else [])"

definition evidence_order :: "lib_row \<Rightarrow> bool \<times> int \<times> string option \<times> int" where
  "evidence_order r =
     (le_album_id r = None, (case le_album_id r of None \<Rightarrow> 0 | Some a \<Rightarrow> a), le_path r, le_trackfile_id r)"

definition list_library_evidence :: "int \<Rightarrow> int \<Rightarrow> evidence_db \<Rightarrow> int \<times> lib_row list" where
  "list_library_evidence lmt offset db =
     (if \<not> edb_ready db then (0, [])
      else (int (length (edb_rows db)),
            sql_limit (max 1 (min lmt 10000)) (max 0 offset) (sort_key evidence_order (edb_rows db))))"

definition list_all_library_evidence :: "evidence_db \<Rightarrow> int \<times> lib_row list" where
  "list_all_library_evidence db =
     (if \<not> edb_ready db then (0, [])
      else (int (length (edb_rows db)), sort_key evidence_order (edb_rows db)))"

definition int_col :: "int option \<Rightarrow> int \<Rightarrow> int" where
  "int_col x d = (case x of None \<Rightarrow> d | Some n \<Rightarrow> n)"

definition bool_col :: "bool option \<Rightarrow> int \<Rightarrow> int" where
  "bool_col x d = (case x of None \<Rightarrow> d | Some b \<Rightarrow> of_bool b)"

definition len_col :: "string option \<Rightarrow> int" where
  "len_col x = (case x of None \<Rightarrow> 0 | Some s \<Rightarrow> int (length s))"

text \<open>\<open>CAST(x AS INTEGER)\<close> truncates toward zero.\<close>

definition cast_int :: "rat \<Rightarrow> int" where
  "cast_int x = (if x < 0 then - \<lfloor>- x\<rfloor> else \<lfloor>x\<rfloor>)"

definition row_fingerprint :: "lib_row \<Rightarrow> int" where
  "row_fingerprint r =
     le_trackfile_id r + int_col (le_album_id r) 0 + int_col (le_size r) 0 +
     cast_int (case le_mtime r of None \<Rightarrow> 0 | Some t \<Rightarrow> t) + int_col (le_sample_rate r) 0 +
     int_col (le_bit_depth r) 0 + int_col (le_bitrate_kbps r) 0 + int_col (le_channels r) 0 +
     bool_col (le_lossless r) (- 7) + bool_col (le_integrity_ok r) (- 11) +
     bool_col (le_checksum_ok r) (- 13) + bool_col (le_authentic r) (- 17) +
     len_col (le_status r) + len_col (le_reason r) + len_col (le_codec r) +
     len_col (le_integrity_issue r) + len_col (le_sensor_version r) +
     len_col (le_integrity_sensor_version r) + len_col (le_spectral_status r) +
     len_col (le_spectral_sensor_version r)"

text \<open>\<open>COALESCE(MAX(column), 0)\<close>: null values are skipped.\<close>

definition max_col :: "(lib_row \<Rightarrow> rat option) \<Rightarrow> lib_row list \<Rightarrow> rat" where
  "max_col f rows =
     (case List.map_filter f rows of [] \<Rightarrow> 0 | t # ts \<Rightarrow> fold max ts t)"

definition library_evidence_revision :: "evidence_db \<Rightarrow> int \<times> rat \<times> rat \<times> int" where
  "library_evidence_revision db =
     (if \<not> edb_ready db then (0, 0, 0, 0)
      else (int (length (edb_rows db)), max_col le_measured_at (edb_rows db),
            max_col le_spectral_measured_at (edb_rows db), sum_list (map row_fingerprint (edb_rows db))))"

section \<open>Tier independence\<close>

locale tier_upsert = upsert_table +
  fixes view :: "'a \<Rightarrow> 'v"
  assumes merge_view: "view (merge old new) = view old"
begin

text \<open>A write of this tier leaves the view of every existing row as it was.\<close>

lemma find_upsert_view:
  "tfind key k rows = Some r \<Longrightarrow> \<exists>r'. tfind key k (upsert key merge row rows) = Some r' \<and> view r' = view r"
  by (auto simp: find_upsert merge_view)

end

definition metadata_view where
  "metadata_view r = (le_path r, le_size r, le_mtime r, le_status r, le_reason r, le_codec r, le_sample_rate r,
     le_bit_depth r, le_bitrate_kbps r, le_channels r, le_lossless r, le_sensor_version r, le_measured_at r)"

definition integrity_view where
  "integrity_view r = (le_integrity_ok r, le_checksum_ok r, le_integrity_issue r, le_integrity_sensor_version r)"

definition spectral_view where
  "spectral_view r = (le_authentic r, le_spectral_status r, le_spectral_reason r, le_spectral_verdict r,
     le_spectral_sensor_version r, le_spectral_evidence r, le_spectral_measured_at r)"

lemmas evidence_columns = metadata_columns_def integrity_columns_def spectral_columns_def

lemmas evidence_views = metadata_view_def integrity_view_def spectral_view_def

lemmas evidence_merges = merge_full_def merge_metadata_def merge_integrity_def merge_spectral_def

interpretation full_tier: tier_upsert le_trackfile_id merge_full spectral_view
  by unfold_locales (simp_all add: evidence_merges evidence_columns evidence_views)

interpretation metadata_tier: tier_upsert le_trackfile_id merge_metadata "\<lambda>r. (integrity_view r, spectral_view r)"
  by unfold_locales (simp_all add: evidence_merges evidence_columns evidence_views)

interpretation integrity_tier: tier_upsert le_trackfile_id merge_integrity "\<lambda>r. (metadata_view r, spectral_view r)"
  by unfold_locales (simp_all add: evidence_merges evidence_columns evidence_views)

interpretation spectral_tier: tier_upsert le_trackfile_id merge_spectral
    "\<lambda>r. (metadata_view r, integrity_view r, le_album_id r)"
  by unfold_locales (simp_all add: evidence_merges evidence_columns evidence_views)

section \<open>Properties\<close>

text \<open>The tiers are independent. On an existing row a metadata write leaves the integrity and the
  spectral columns unchanged, an integrity write leaves the metadata and the spectral columns
  unchanged, and a spectral write leaves the metadata and the integrity columns unchanged.\<close>

theorem tiers_independent:
  assumes "edb_ready db" "tfind le_trackfile_id k (edb_rows db) = Some r"
  shows "(\<exists>r'. tfind le_trackfile_id k (edb_rows (upsert_library_metadata now tf row db)) = Some r' \<and>
      integrity_view r' = integrity_view r \<and> spectral_view r' = spectral_view r) \<and>
    (\<exists>r'. tfind le_trackfile_id k (edb_rows (update_library_integrity tf row db)) = Some r' \<and>
      metadata_view r' = metadata_view r \<and> spectral_view r' = spectral_view r) \<and>
    (\<exists>r'. tfind le_trackfile_id k (edb_rows (update_library_spectral now tf row db)) = Some r' \<and>
      metadata_view r' = metadata_view r \<and> integrity_view r' = integrity_view r)"
proof -
  have "\<exists>r'. tfind le_trackfile_id k (upsert le_trackfile_id merge_spectral new (edb_rows db)) = Some r' \<and>
      metadata_view r' = metadata_view r \<and> integrity_view r' = integrity_view r" for new
    using spectral_tier.find_upsert_view[OF assms(2), of new] by auto
  then show ?thesis
    using assms metadata_tier.find_upsert_view[OF assms(2)] integrity_tier.find_upsert_view[OF assms(2)]
    by (cases tf) (simp_all add: upsert_library_metadata_def update_library_integrity_def
        update_library_spectral_def write_row_def)
qed

definition demo_evidence :: evidence_db where
  "demo_evidence = \<lparr>edb_ready = True,
     edb_rows = [empty_row\<lparr>le_trackfile_id := 7, le_integrity_ok := Some False\<rparr>]\<rparr>"

theorem tiers_independent_witness:
  "\<exists>r'. tfind le_trackfile_id 7 (edb_rows (upsert_library_metadata 5 (Some 7) empty_row demo_evidence)) = Some r' \<and>
     le_integrity_ok r' = Some False"
proof -
  have "edb_ready demo_evidence"
    "tfind le_trackfile_id 7 (edb_rows demo_evidence) =
       Some (empty_row\<lparr>le_trackfile_id := 7, le_integrity_ok := Some False\<rparr>)"
    by (simp_all add: demo_evidence_def tfind_def)
  from tiers_independent[OF this, of 5 "Some 7" empty_row] show ?thesis
    by (auto simp: integrity_view_def)
qed

text \<open>Written evidence is read back. After a full, metadata, integrity or spectral write for a
  trackfile its row has the written columns of that tier, and the rows of all other trackfiles are as
  before.\<close>

theorem evidence_roundtrip:
  assumes "edb_ready db"
  shows "(\<exists>r. get_library_evidence i (upsert_library_metadata now (Some i) row db) = Some r \<and>
      metadata_view r = metadata_view (metadata_payload now row)) \<and>
    (\<exists>r. get_library_evidence i (update_library_integrity (Some i) row db) = Some r \<and>
      integrity_view r = integrity_view row) \<and>
    (\<exists>r. get_library_evidence i (upsert_library_evidence now (Some i) row db) = Some r \<and>
      metadata_view r = metadata_view (metadata_payload now row) \<and> integrity_view r = integrity_view row) \<and>
    (\<exists>r. get_library_evidence i (update_library_spectral now (Some i) row db) = Some r \<and>
      le_authentic r = le_authentic row \<and> le_spectral_status r = le_spectral_status row \<and>
      le_spectral_sensor_version r = le_spectral_sensor_version row) \<and>
    (\<forall>k. k \<noteq> i \<longrightarrow>
      get_library_evidence k (upsert_library_metadata now (Some i) row db) = get_library_evidence k db \<and>
      get_library_evidence k (update_library_integrity (Some i) row db) = get_library_evidence k db \<and>
      get_library_evidence k (upsert_library_evidence now (Some i) row db) = get_library_evidence k db \<and>
      get_library_evidence k (update_library_spectral now (Some i) row db) = get_library_evidence k db)"
  using assms
  by (simp add: get_library_evidence_def upsert_library_metadata_def update_library_integrity_def
      upsert_library_evidence_def update_library_spectral_def write_row_def
      metadata_tier.find_upsert integrity_tier.find_upsert full_tier.find_upsert spectral_tier.find_upsert
      evidence_merges evidence_columns evidence_views metadata_payload_def split: option.split)

theorem evidence_roundtrip_witness:
  "\<exists>r. get_library_evidence 7 (update_library_integrity (Some 7) (empty_row\<lparr>le_integrity_ok := Some True\<rparr>) demo_evidence) =
     Some r \<and> le_integrity_ok r = Some True"
  using evidence_roundtrip[of demo_evidence 7 5 "empty_row\<lparr>le_integrity_ok := Some True\<rparr>"]
  by (auto simp: demo_evidence_def integrity_view_def)

text \<open>The cache revision is not injective. Two integrity writes that turn a row marked corrupt into one
  marked intact and another the other way round change the stored evidence and leave the revision key
  of the dashboard cache as it was.\<close>

theorem revision_misses_integrity_change:
  "\<exists>db row1 row2. edb_ready db \<and>
     (let db' = update_library_integrity (Some 2) row2 (update_library_integrity (Some 1) row1 db) in
      map le_integrity_ok (edb_rows db) = [Some False, Some True] \<and>
      map le_integrity_ok (edb_rows db') = [Some True, Some False] \<and>
      library_evidence_revision db' = library_evidence_revision db)"
proof (intro exI conjI)
  let ?r = "\<lambda>i ok. empty_row\<lparr>le_trackfile_id := i, le_album_id := Some 1, le_integrity_ok := Some ok\<rparr>"
  let ?db = "\<lparr>edb_ready = True, edb_rows = [?r 1 False, ?r 2 True]\<rparr>"
  show "edb_ready ?db" by simp
  show "let db' = update_library_integrity (Some 2) (?r 2 False) (update_library_integrity (Some 1) (?r 1 True) ?db) in
      map le_integrity_ok (edb_rows ?db) = [Some False, Some True] \<and>
      map le_integrity_ok (edb_rows db') = [Some True, Some False] \<and>
      library_evidence_revision db' = library_evidence_revision ?db"
    by (simp add: update_library_integrity_def write_row_def upsert_def tupdate_def merge_integrity_def
        evidence_columns library_evidence_revision_def row_fingerprint_def max_col_def empty_row_def
        map_filter_def bool_col_def Let_def)
qed

end
