(* ===== verification/Library_Evidence.thy ===== *)
theory Library_Evidence
  imports Evidence_Table
begin

text \<open>
  Read-only measurement of library files (\<open>app/library_evidence.py\<close>): mapping a Lidarr path into
  the mounted library and checking that it stays inside, the three measurement tiers, the
  classification of \<open>flac -t\<close> results, and the freshness tests that decide whether stored evidence may
  still be used.

  The file system (\<open>Path.resolve\<close>, \<open>is_symlink\<close>, \<open>is_file\<close>, \<open>stat\<close>), ffprobe, flac
  and the FLAC Detective service are parameters. \<open>lroot\<close> is the configured library root, empty when
  the library is not mounted.
\<close>

section \<open>Pure paths\<close>

text \<open>A \<open>PurePosixPath\<close>: its root (empty, one slash, or two) and its components, without empty ones
  and single dots.\<close>

type_synonym pypath = "string \<times> string list"

definition path_parts :: "string \<Rightarrow> string list" where
  "path_parts s = filter (\<lambda>p. p \<noteq> [] \<and> p \<noteq> ''.'') (split_char (CHR ''/'') s)"

definition path_root :: "string \<Rightarrow> string" where
  "path_root s =
     (if prefix ''//'' s \<and> \<not> prefix ''///'' s then ''//'' else if prefix ''/'' s then ''/'' else [])"

definition path_of :: "string \<Rightarrow> pypath" where
  "path_of s = (path_root s, path_parts s)"

definition path_str :: "pypath \<Rightarrow> string" where
  "path_str p =
     (case p of (r, ps) \<Rightarrow> if ps = [] \<and> r = [] then ''.'' else r @ py_join ''/'' ps)"

text \<open>\<open>p / rel\<close> for a relative \<open>rel\<close>.\<close>

definition path_join :: "pypath \<Rightarrow> string \<Rightarrow> pypath" where
  "path_join p rel = (fst p, snd p @ path_parts rel)"

definition is_relative_to :: "pypath \<Rightarrow> pypath \<Rightarrow> bool" where
  "is_relative_to p q \<longleftrightarrow> fst p = fst q \<and> prefix (snd q) (snd p)"

text \<open>\<open>os.path.normpath\<close>.\<close>

fun norm_comps :: "bool \<Rightarrow> string list \<Rightarrow> string list \<Rightarrow> string list" where
  "norm_comps rooted acc [] = rev acc"
| "norm_comps rooted acc (c # cs) =
     (if c = [] \<or> c = ''.'' then norm_comps rooted acc cs
      else if c \<noteq> ''..'' \<or> \<not> rooted \<and> acc = [] \<or> acc \<noteq> [] \<and> hd acc = ''..'' then norm_comps rooted (c # acc) cs
      else if acc \<noteq> [] then norm_comps rooted (tl acc) cs
      else norm_comps rooted acc cs)"

definition normpath :: "string \<Rightarrow> string" where
  "normpath s =
     (if s = [] then ''.''
      else
        let r = path_root s;
            t = r @ py_join ''/'' (norm_comps (r \<noteq> []) [] (split_char (CHR ''/'') s)) in
        if t = [] then ''.'' else t)"

section \<open>The library mount\<close>

record filesystem =
  fs_resolve :: "pypath \<Rightarrow> pypath option"
  fs_is_symlink :: "pypath \<Rightarrow> bool"
  fs_is_file :: "pypath \<Rightarrow> bool"
  fs_stat :: "pypath \<Rightarrow> (int \<times> rat) option"

definition resolve_library_path :: "filesystem \<Rightarrow> string \<Rightarrow> string \<Rightarrow> string \<Rightarrow> string + pypath" where
  "resolve_library_path fs lidarr_path library_root lidarr_root =
     (if lidarr_path = [] then Inl ''empty path''
      else
        let pre = rstrip_char (CHR ''/'') lidarr_root in
        if pre = [] then Inl ''lidarr root not configured''
        else if \<not> (lidarr_path = pre \<or> prefix (pre @ ''/'') lidarr_path)
        then Inl ''path outside configured lidarr root''
        else
          let rel = lstrip_char (CHR ''/'') (drop (length pre) lidarr_path) in
          if rel = [] then Inl ''empty relative path''
          else
            let lroot = path_of library_root; mapped = path_join lroot rel in
            case (fs_resolve fs mapped, fs_resolve fs lroot) of
              (Some resolved, Some root_resolved) \<Rightarrow>
                if \<not> is_relative_to resolved root_resolved then Inl ''path escapes library root''
                else if fs_is_symlink fs mapped then Inl ''symlinked file rejected''
                else if \<not> fs_is_file fs mapped then Inl ''file not found in mount''
                else Inr mapped
            | _ \<Rightarrow> Inl ''path resolve failed'')"

definition stat_for_freshness :: "filesystem \<Rightarrow> string \<Rightarrow> string \<Rightarrow> string \<Rightarrow>
    (string \<times> int \<times> rat) option" where
  "stat_for_freshness fs lidarr_path lroot lidarr_root =
     (if lroot = [] then None
      else
        case resolve_library_path fs lidarr_path lroot lidarr_root of
          Inl _ \<Rightarrow> None
        | Inr mapped \<Rightarrow>
            (case fs_stat fs mapped of None \<Rightarrow> None | Some (sz, mtime) \<Rightarrow> Some (path_str mapped, sz, mtime)))"

section \<open>Freshness of stored evidence\<close>

definition METADATA_SENSOR_VERSION :: string where
  "METADATA_SENSOR_VERSION = ''mintarr-library-metadata 2026-06-09''"

definition INTEGRITY_SENSOR_VERSION :: string where
  "INTEGRITY_SENSOR_VERSION = ''mintarr-library-integrity 2026-06-09''"

definition SPECTRAL_SENSOR_VERSION :: string where
  "SPECTRAL_SENSOR_VERSION = ''mintarr-library-spectral 2026-06-08''"

text \<open>The test the three freshness functions share: the stored path lies in the mount, is a regular
  file and no symbolic link, and has the stored size and modification time.\<close>

definition row_matches_disk :: "filesystem \<Rightarrow> string \<Rightarrow> lib_row \<Rightarrow> bool" where
  "row_matches_disk fs lroot row =
     (case le_path row of
        None \<Rightarrow> False
      | Some path \<Rightarrow>
          if path = [] then False
          else
            let candidate = path_of path in
            case (fs_resolve fs candidate, fs_resolve fs (path_of lroot)) of
              (Some c, Some r) \<Rightarrow>
                if \<not> is_relative_to c r then False
                else if fs_is_symlink fs candidate \<or> \<not> fs_is_file fs candidate then False
                else
                  (case fs_stat fs candidate of
                     None \<Rightarrow> False
                   | Some (sz, mtime) \<Rightarrow> le_size row = Some sz \<and> le_mtime row = Some mtime)
            | _ \<Rightarrow> False)"

definition is_measured_row_fresh :: "filesystem \<Rightarrow> string \<Rightarrow> lib_row \<Rightarrow> bool" where
  "is_measured_row_fresh fs lroot row =
     (if lroot = [] \<or> le_status row \<noteq> Some ''measured'' then False
      else if le_sensor_version row \<noteq> Some METADATA_SENSOR_VERSION then False
      else row_matches_disk fs lroot row)"

definition is_integrity_row_fresh :: "filesystem \<Rightarrow> string \<Rightarrow> lib_row \<Rightarrow> bool" where
  "is_integrity_row_fresh fs lroot row =
     (if lroot = [] \<or> le_integrity_sensor_version row \<noteq> Some INTEGRITY_SENSOR_VERSION then False
      else row_matches_disk fs lroot row)"

definition is_spectral_row_fresh :: "filesystem \<Rightarrow> string \<Rightarrow> lib_row \<Rightarrow> bool" where
  "is_spectral_row_fresh fs lroot row =
     (if lroot = [] \<or> le_spectral_status row \<noteq> Some ''measured'' then False
      else if le_spectral_sensor_version row \<noteq> Some SPECTRAL_SENSOR_VERSION then False
      else row_matches_disk fs lroot row)"

section \<open>Measurement\<close>

definition LOSSLESS_CODECS :: "string list" where
  "LOSSLESS_CODECS = [''flac'', ''alac'']"

definition FAKE_VERDICTS :: "string list" where
  "FAKE_VERDICTS = [''FAKE'', ''FAKE_CERTAIN'', ''SUSPICIOUS'']"

record track_measurement =
  tm_status :: string
  tm_reason :: "string option"
  tm_codec :: "string option"
  tm_sample_rate :: "int option"
  tm_bit_depth :: "int option"
  tm_bitrate_kbps :: "int option"
  tm_channels :: "int option"
  tm_lossless :: "bool option"
  tm_integrity_ok :: "bool option"
  tm_checksum_ok :: "bool option"
  tm_integrity_issue :: "string option"

record probe =
  pr_codec :: "string option"
  pr_sample_rate :: "int option"
  pr_bit_depth :: "int option"
  pr_bitrate_kbps :: "int option"
  pr_channels :: "int option"
  pr_integrity_ok :: "bool option"
  pr_checksum_ok :: "bool option"
  pr_integrity_issue :: "string option"

definition unmeasured :: "string \<Rightarrow> track_measurement" where
  "unmeasured reason =
     \<lparr>tm_status = ''unmeasured'', tm_reason = Some reason, tm_codec = None, tm_sample_rate = None,
      tm_bit_depth = None, tm_bitrate_kbps = None, tm_channels = None, tm_lossless = None,
      tm_integrity_ok = None, tm_checksum_ok = None, tm_integrity_issue = None\<rparr>"

text \<open>A prober returns \<open>None\<close> when it raises.\<close>

definition measure_trackfile :: "filesystem \<Rightarrow> string \<Rightarrow> string \<Rightarrow> (pypath \<Rightarrow> probe option) \<Rightarrow> string \<Rightarrow> track_measurement" where
  "measure_trackfile fs lroot lidarr_root prober lidarr_path =
     (if lroot = [] then unmeasured ''library not mounted''
      else
        case resolve_library_path fs lidarr_path lroot lidarr_root of
          Inl reason \<Rightarrow> unmeasured reason
        | Inr mapped \<Rightarrow>
            (case prober mapped of
               None \<Rightarrow> unmeasured ''probe failed''
             | Some p \<Rightarrow>
                 let codec = py_lower (str_or (pr_codec p) []) in
                 if codec = [] then unmeasured ''no audio stream''
                 else
                   \<lparr>tm_status = ''measured'', tm_reason = None, tm_codec = Some codec,
                    tm_sample_rate = pr_sample_rate p, tm_bit_depth = pr_bit_depth p,
                    tm_bitrate_kbps = pr_bitrate_kbps p, tm_channels = pr_channels p,
                    tm_lossless = Some (codec \<in> set LOSSLESS_CODECS),
                    tm_integrity_ok = pr_integrity_ok p, tm_checksum_ok = pr_checksum_ok p,
                    tm_integrity_issue = pr_integrity_issue p\<rparr>))"

record integrity_measurement =
  im_status :: string
  im_reason :: "string option"
  im_integrity_ok :: "bool option"
  im_checksum_ok :: "bool option"
  im_integrity_issue :: "string option"

definition integrity_unmeasured :: "string \<Rightarrow> integrity_measurement" where
  "integrity_unmeasured reason =
     \<lparr>im_status = ''unmeasured'', im_reason = Some reason, im_integrity_ok = None,
      im_checksum_ok = None, im_integrity_issue = None\<rparr>"

definition measure_trackfile_integrity :: "filesystem \<Rightarrow> string \<Rightarrow> string \<Rightarrow> (pypath \<Rightarrow> probe option) \<Rightarrow> string \<Rightarrow>
    integrity_measurement" where
  "measure_trackfile_integrity fs lroot lidarr_root prober lidarr_path =
     (if lroot = [] then integrity_unmeasured ''library not mounted''
      else
        case resolve_library_path fs lidarr_path lroot lidarr_root of
          Inl reason \<Rightarrow> integrity_unmeasured reason
        | Inr mapped \<Rightarrow>
            (case prober mapped of
               None \<Rightarrow> integrity_unmeasured ''integrity probe failed''
             | Some p \<Rightarrow>
                 \<lparr>im_status = ''measured'', im_reason = None, im_integrity_ok = pr_integrity_ok p,
                  im_checksum_ok = pr_checksum_ok p, im_integrity_issue = pr_integrity_issue p\<rparr>))"

record spectral_measurement =
  sm_status :: string
  sm_reason :: "string option"
  sm_authentic :: "bool option"
  sm_verdict :: "string option"

definition spectral_unmeasured :: "string \<Rightarrow> spectral_measurement" where
  "spectral_unmeasured reason =
     \<lparr>sm_status = ''unmeasured'', sm_reason = Some reason, sm_authentic = None, sm_verdict = None\<rparr>"

fun entry_path_is :: "string \<Rightarrow> json \<Rightarrow> bool" where
  "entry_path_is target (JObj item) =
     (case dget ''path'' item of JStr p \<Rightarrow> normpath p = target | _ \<Rightarrow> False)"
| "entry_path_is target _ = False"

definition match_detective_file :: "json \<Rightarrow> pypath \<Rightarrow> dict option" where
  "match_detective_file result mapped =
     (case result of
        JObj d \<Rightarrow>
          (case dget ''files'' d of
             JList files \<Rightarrow>
               map_option as_dict (List.find (entry_path_is (normpath (path_str mapped))) files)
           | _ \<Rightarrow> None)
      | _ \<Rightarrow> None)"

text \<open>The outer \<open>None\<close> is the attribute error of \<open>upper\<close> on a verdict that is neither falsy nor a
  string. \<open>client\<close> returns \<open>None\<close> when it raises.\<close>

definition measure_trackfile_spectral :: "filesystem \<Rightarrow> bool \<Rightarrow> string \<Rightarrow> string \<Rightarrow> (pypath \<Rightarrow> json option) \<Rightarrow> string \<Rightarrow>
    spectral_measurement option" where
  "measure_trackfile_spectral fs enabled lroot lidarr_root client lidarr_path =
     (if \<not> enabled then Some (spectral_unmeasured ''spectral disabled'')
      else if lroot = [] then Some (spectral_unmeasured ''library not mounted'')
      else
        case resolve_library_path fs lidarr_path lroot lidarr_root of
          Inl reason \<Rightarrow> Some (spectral_unmeasured reason)
        | Inr mapped \<Rightarrow>
            (case client mapped of
               None \<Rightarrow> Some (spectral_unmeasured ''detective unreachable'')
             | Some result \<Rightarrow>
                 (case match_detective_file result mapped of
                    None \<Rightarrow> Some (spectral_unmeasured ''no detective result for file'')
                  | Some entry \<Rightarrow>
                      (case py_or (py_or (dget ''verdict'' entry) (dget ''overall_verdict'' (as_dict result))) (JStr []) of
                         JStr v \<Rightarrow>
                           let verdict = py_upper v;
                               fake = truthy (dget ''is_fake_high_res'' entry) \<or> verdict \<in> set FAKE_VERDICTS in
                           Some \<lparr>sm_status = ''measured'', sm_reason = None, sm_authentic = Some (\<not> fake),
                                 sm_verdict = (if verdict = [] then None else Some verdict)\<rparr>
                       | _ \<Rightarrow> None))))"

section \<open>Probe results\<close>

definition has_decode_error :: "string \<Rightarrow> bool" where
  "has_decode_error lowered =
     (\<exists>m\<in>set [''decoder'', ''lost sync'', ''frame crc'', ''crc mismatch'', ''unparseable'',
        ''error reading'', ''premature eof'', ''while decoding'', ''got error code'']. py_in m lowered)"

definition has_nonstandard_flac_tag_issue :: "string \<Rightarrow> bool" where
  "has_nonstandard_flac_tag_issue lowered =
     (if \<not> (py_in ''id3v1 tag'' lowered \<or> py_in ''id3v2 tag'' lowered \<or> py_in ''id3 tag'' lowered) then False
      else \<exists>m\<in>set [''lost_sync'', ''lost sync'', ''invalid sync'', ''end_of_stream'', ''error during decoding''].
             py_in m lowered)"

definition classify_flac_test :: "int \<Rightarrow> string \<Rightarrow> bool option \<times> bool option \<times> string option" where
  "classify_flac_test returncode stderr =
     (let lowered = py_lower stderr in
      if returncode = 0 then
        (if py_in ''unset'' lowered \<or> py_in ''cannot check md5'' lowered \<or> py_in ''skipping md5'' lowered
         then (Some True, None, None) else (Some True, Some True, None))
      else if py_in ''md5 signature mismatch'' lowered \<and> \<not> has_decode_error lowered
      then (Some True, Some False, Some ''checksum_mismatch'')
      else if has_nonstandard_flac_tag_issue lowered then (None, None, Some ''nonstandard_flac_tags'')
      else (Some False, None, Some ''decode_corrupt''))"

definition int_field :: "string option \<Rightarrow> int option" where
  "int_field value =
     (case value of None \<Rightarrow> None | Some s \<Rightarrow> if s = [] \<or> s = ''N/A'' then None else py_int s)"

definition bitrate_kbps :: "string option \<Rightarrow> int option" where
  "bitrate_kbps value =
     (case int_field value of
        None \<Rightarrow> None
      | Some b \<Rightarrow> if b \<le> 0 then None else Some (max 1 (round_half_even (fl_div (of_int b) 1000))))"

text \<open>The three probers, over the results of ffprobe (\<open>None\<close> when it raises, else the fields of its
  output) and of \<open>flac -t\<close> (\<open>None\<close> when it raises, else the exit code and standard error).\<close>

type_synonym ffprobe = "pypath \<Rightarrow> (string \<rightharpoonup> string) option"

type_synonym flac_test = "pypath \<Rightarrow> (int \<times> string) option"

definition run_ffprobe_fields :: "ffprobe \<Rightarrow> pypath \<Rightarrow> probe option" where
  "run_ffprobe_fields ff path =
     (case ff path of
        None \<Rightarrow> None
      | Some fs \<Rightarrow>
          Some \<lparr>pr_codec = Some (case fs ''codec_name'' of None \<Rightarrow> [] | Some c \<Rightarrow> c),
                pr_sample_rate = int_field (fs ''sample_rate''),
                pr_bit_depth = int_field (fs ''bits_per_raw_sample''),
                pr_bitrate_kbps = bitrate_kbps (fs ''bit_rate''),
                pr_channels = int_field (fs ''channels''),
                pr_integrity_ok = None, pr_checksum_ok = None, pr_integrity_issue = None\<rparr>)"

definition metadata_prober :: "ffprobe \<Rightarrow> pypath \<Rightarrow> probe option" where
  "metadata_prober ff path = run_ffprobe_fields ff path"

definition with_flac_test :: "flac_test \<Rightarrow> pypath \<Rightarrow> probe \<Rightarrow> probe option" where
  "with_flac_test ft path p =
     (case ft path of
        None \<Rightarrow> None
      | Some (code, err) \<Rightarrow>
          (case classify_flac_test code err of (iok, cok, issue) \<Rightarrow>
             Some (p\<lparr>pr_integrity_ok := iok, pr_checksum_ok := cok, pr_integrity_issue := issue\<rparr>)))"

definition integrity_prober :: "ffprobe \<Rightarrow> flac_test \<Rightarrow> pypath \<Rightarrow> probe option" where
  "integrity_prober ff ft path =
     (case run_ffprobe_fields ff path of
        None \<Rightarrow> None
      | Some p \<Rightarrow>
          if py_lower (str_or (pr_codec p) []) \<noteq> ''flac'' then Some p else with_flac_test ft path p)"

definition default_prober :: "ffprobe \<Rightarrow> flac_test \<Rightarrow> pypath \<Rightarrow> probe option" where
  "default_prober ff ft path =
     (case run_ffprobe_fields ff path of
        None \<Rightarrow> None
      | Some p \<Rightarrow> if str_or (pr_codec p) [] = ''flac'' then with_flac_test ft path p else Some p)"

section \<open>Paths survive printing\<close>

text \<open>The paths the program builds: a root of zero to two slashes and proper components.\<close>

definition wf_path :: "pypath \<Rightarrow> bool" where
  "wf_path p \<longleftrightarrow> fst p \<in> {[], ''/'', ''//''} \<and> (\<forall>w\<in>set (snd p). w \<noteq> [] \<and> w \<noteq> ''.'' \<and> CHR ''/'' \<notin> set w)"

lemma wf_path_of: "wf_path (path_of s)"
  by (auto simp: wf_path_def path_of_def path_root_def path_parts_def dest: split_char_parts)

lemma wf_path_join: "wf_path p \<Longrightarrow> wf_path (path_join p rel)"
  by (auto simp: wf_path_def path_join_def path_parts_def dest: split_char_parts)

lemma path_parts_slash: "path_parts (CHR ''/'' # s) = path_parts s"
  by (simp add: path_parts_def)

lemma path_parts_join:
  assumes "\<forall>w\<in>set ps. w \<noteq> [] \<and> w \<noteq> ''.'' \<and> CHR ''/'' \<notin> set w"
  shows "path_parts (py_join ''/'' ps) = ps"
proof (cases "ps = []")
  case False
  then have "split_char (CHR ''/'') (py_join ''/'' ps) = ps" using assms by (intro split_join) auto
  then show ?thesis using assms by (simp add: path_parts_def filter_id_conv)
qed (simp add: path_parts_def)

lemma hd_join_not_slash:
  assumes "\<forall>w\<in>set ps. w \<noteq> [] \<and> CHR ''/'' \<notin> set w"
  shows "\<not> prefix ''/'' (py_join ''/'' ps)"
proof (cases ps)
  case (Cons w ws)
  then obtain x xs where "w = x # xs" "x \<noteq> CHR ''/''" using assms by (cases w) auto
  then show ?thesis using Cons by (cases ws) auto
qed simp

lemma path_roundtrip:
  assumes "wf_path p"
  shows "path_of (path_str p) = p"
proof -
  obtain r ps where p: "p = (r, ps)" by (cases p)
  have ps: "\<forall>w\<in>set ps. w \<noteq> [] \<and> w \<noteq> ''.'' \<and> CHR ''/'' \<notin> set w" and r: "r \<in> {[], ''/'', ''//''}"
    using assms p by (auto simp: wf_path_def)
  let ?j = "py_join ''/'' ps"
  have j: "\<not> prefix ''/'' ?j" using ps by (intro hd_join_not_slash) auto
  then have "path_root (r @ ?j) = r" using r by (cases ?j) (auto simp: path_root_def)
  moreover have "path_parts (r @ ?j) = ps" using r path_parts_join[OF ps] by (auto simp: path_parts_slash)
  moreover have "path_of ''.'' = ([], [])" by code_simp
  ultimately show ?thesis by (auto simp: p path_str_def path_of_def)
qed

lemma path_str_nonempty:
  assumes "wf_path p"
  shows "path_str p \<noteq> []"
proof -
  obtain r ps where p: "p = (r, ps)" by (cases p)
  have "py_join ''/'' ps \<noteq> []" if "ps \<noteq> []"
    using that assms by (cases ps rule: remdups_adj.cases) (auto simp: wf_path_def p)
  then show ?thesis by (auto simp: p path_str_def)
qed

section \<open>Properties\<close>

lemma resolve_library_path_InrD:
  assumes "resolve_library_path fs lp lroot lidarr = Inr p"
  shows "\<exists>c r. fs_resolve fs p = Some c \<and> fs_resolve fs (path_of lroot) = Some r \<and> is_relative_to c r \<and>
    \<not> fs_is_symlink fs p \<and> fs_is_file fs p"
  using assms unfolding resolve_library_path_def Let_def
  by (simp split: if_split_asm option.split_asm) auto

lemma resolve_library_path_rel:
  assumes "resolve_library_path fs lp lroot lidarr = Inr p"
  shows "\<exists>pre rel. pre = rstrip_char (CHR ''/'') lidarr \<and> pre \<noteq> [] \<and> prefix pre lp \<and>
    rel = lstrip_char (CHR ''/'') (drop (length pre) lp) \<and> p = path_join (path_of lroot) rel"
  using assms unfolding resolve_library_path_def Let_def
  by (auto split: if_split_asm option.split_asm simp: append_prefixD)

text \<open>The file that a Lidarr path stands for: the configured Lidarr root replaced by the mount, inside the mount once
  symbolic links are resolved, itself no symbolic link, and a regular file.\<close>

definition contained_file :: "filesystem \<Rightarrow> string \<Rightarrow> string \<Rightarrow> string \<Rightarrow> pypath \<Rightarrow> bool" where
  "contained_file fs lroot lidarr lp p \<longleftrightarrow>
     lroot \<noteq> [] \<and>
     (\<exists>pre. pre = rstrip_char (CHR ''/'') lidarr \<and> pre \<noteq> [] \<and> prefix (pre @ ''/'') lp \<and>
        p = path_join (path_of lroot) (lstrip_char (CHR ''/'') (drop (length pre) lp))) \<and>
     (\<exists>c r. fs_resolve fs p = Some c \<and> fs_resolve fs (path_of lroot) = Some r \<and> is_relative_to c r) \<and>
     \<not> fs_is_symlink fs p \<and> fs_is_file fs p"

lemma resolved_contained:
  assumes "resolve_library_path fs lp lroot lidarr = Inr p" and "lroot \<noteq> []"
  shows "contained_file fs lroot lidarr lp p"
proof -
  from resolve_library_path_rel[OF assms(1)] obtain pre where
    pre: "pre = rstrip_char (CHR ''/'') lidarr" "pre \<noteq> []" "p = path_join (path_of lroot) (lstrip_char (CHR ''/'') (drop (length pre) lp))"
    by blast
  have "lp \<noteq> pre" using assms(1) pre(1) by (auto simp: resolve_library_path_def lstrip_char_def Let_def split: if_splits)
  then have "prefix (pre @ ''/'') lp" using assms(1) pre(1) by (auto simp: resolve_library_path_def Let_def split: if_splits)
  with pre resolve_library_path_InrD[OF assms(1)] assms(2) show ?thesis unfolding contained_file_def by blast
qed

lemma measured_probe:
  assumes "tm_status (measure_trackfile fs lroot lidarr prober lp) = ''measured''"
  shows "\<exists>p q. contained_file fs lroot lidarr lp p \<and> prober p = Some q \<and>
    measure_trackfile fs lroot lidarr prober lp =
      \<lparr>tm_status = ''measured'', tm_reason = None, tm_codec = Some (py_lower (str_or (pr_codec q) [])),
       tm_sample_rate = pr_sample_rate q, tm_bit_depth = pr_bit_depth q, tm_bitrate_kbps = pr_bitrate_kbps q,
       tm_channels = pr_channels q, tm_lossless = Some (py_lower (str_or (pr_codec q) []) \<in> {''flac'', ''alac''}),
       tm_integrity_ok = pr_integrity_ok q, tm_checksum_ok = pr_checksum_ok q, tm_integrity_issue = pr_integrity_issue q\<rparr>"
  using assms resolved_contained[of fs lp lroot lidarr]
  by (auto simp: measure_trackfile_def unmeasured_def Let_def LOSSLESS_CODECS_def split: if_splits sum.splits option.splits)

lemma measured_integrity_probe:
  assumes "im_status (measure_trackfile_integrity fs lroot lidarr prober lp) = ''measured''"
  shows "\<exists>p q. contained_file fs lroot lidarr lp p \<and> prober p = Some q \<and>
    measure_trackfile_integrity fs lroot lidarr prober lp =
      \<lparr>im_status = ''measured'', im_reason = None, im_integrity_ok = pr_integrity_ok q, im_checksum_ok = pr_checksum_ok q,
       im_integrity_issue = pr_integrity_issue q\<rparr>"
  using assms resolved_contained[of fs lp lroot lidarr]
  by (auto simp: measure_trackfile_integrity_def integrity_unmeasured_def split: if_splits sum.splits option.splits)

lemma measured_spectral_probe:
  assumes "measure_trackfile_spectral fs enabled lroot lidarr client lp = Some m" and "sm_status m = ''measured''"
  shows "\<exists>p res entry. contained_file fs lroot lidarr lp p \<and> client p = Some res \<and> match_detective_file res p = Some entry \<and>
    sm_authentic m = Some (\<not> (truthy (dget ''is_fake_high_res'' entry) \<or>
      (\<exists>v. sm_verdict m = Some v \<and> v \<in> {''FAKE'', ''FAKE_CERTAIN'', ''SUSPICIOUS''})))"
  using assms resolved_contained[of fs lp lroot lidarr]
  by (auto simp: measure_trackfile_spectral_def spectral_unmeasured_def FAKE_VERDICTS_def Let_def
      split: if_splits sum.splits option.splits json.splits; intro exI conjI; (assumption | simp))

lemma measure_only_contained:
  assumes "\<forall>p. contained_file fs lroot lidarr lp p \<longrightarrow> prober p = prober' p \<and> client p = client' p"
  shows "measure_trackfile fs lroot lidarr prober lp = measure_trackfile fs lroot lidarr prober' lp"
    "measure_trackfile_integrity fs lroot lidarr prober lp = measure_trackfile_integrity fs lroot lidarr prober' lp"
    "measure_trackfile_spectral fs enabled lroot lidarr client lp = measure_trackfile_spectral fs enabled lroot lidarr client' lp"
  using assms resolved_contained[of fs lp lroot lidarr]
  by (auto simp: measure_trackfile_def measure_trackfile_integrity_def measure_trackfile_spectral_def split: sum.split)


definition demo_fs :: filesystem where
  "demo_fs = \<lparr>fs_resolve = Some, fs_is_symlink = (\<lambda>_. False), fs_is_file = (\<lambda>_. True),
     fs_stat = (\<lambda>_. Some (10, 20))\<rparr>"

lemma demo_resolve:
  "resolve_library_path demo_fs ''/m/a'' ''/lib'' ''/m/'' = Inr (''/'', [''lib'', ''a''])"
  by code_simp

definition demo_probe :: probe where
  "demo_probe = \<lparr>pr_codec = Some ''flac'', pr_sample_rate = Some 44100, pr_bit_depth = Some 16, pr_bitrate_kbps = Some 900,
     pr_channels = Some 2, pr_integrity_ok = Some True, pr_checksum_ok = None, pr_integrity_issue = None\<rparr>"

text \<open>A prober that only knows the mapped file.\<close>

definition demo_prober :: "pypath \<Rightarrow> probe option" where
  "demo_prober p = (if p = (''/'', [''lib'', ''a'']) then Some demo_probe else None)"


text \<open>What \<open>flac -t\<close> results mean. Decode integrity is reported as good exactly when the test
  passed or its only complaint was an MD5 mismatch, and as bad exactly when it failed for a reason
  that is neither that nor an ID3 tag in the stream; a checksum is reported as verified only by
  a passing test that did check one, and as wrong only together with good decode integrity.\<close>

theorem classify_flac_test_spec:
  fixes code :: int and err :: string
  defines "low \<equiv> py_lower err"
  defines "res \<equiv> classify_flac_test code err"
  shows "(fst res = Some True \<longleftrightarrow>
      code = 0 \<or> sublist ''md5 signature mismatch'' low \<and> \<not> has_decode_error low) \<and>
    (fst res = Some False \<longleftrightarrow>
      code \<noteq> 0 \<and> \<not> (sublist ''md5 signature mismatch'' low \<and> \<not> has_decode_error low) \<and>
      \<not> has_nonstandard_flac_tag_issue low) \<and>
    (fst (snd res) = Some True \<longrightarrow> code = 0 \<and> \<not> sublist ''unset'' low) \<and>
    (fst (snd res) = Some False \<longrightarrow> code \<noteq> 0 \<and> fst res = Some True \<and> snd (snd res) = Some ''checksum_mismatch'') \<and>
    (snd (snd res) = None \<longleftrightarrow> code = 0)"
  unfolding res_def low_def classify_flac_test_def Let_def py_in_iff_sublist by simp

theorem classify_flac_test_spec_witness:
  "fst (classify_flac_test 1 ''01.flac: ERROR, MD5 signature mismatch'') = Some True"
proof -
  have "classify_flac_test 1 ''01.flac: ERROR, MD5 signature mismatch'' =
      (Some True, Some False, Some ''checksum_mismatch'')"
    by code_simp
  with classify_flac_test_spec[of 1 "''01.flac: ERROR, MD5 signature mismatch''"] show ?thesis by simp
qed

lemma row_matches_disk_iff:
  "row_matches_disk fs lroot row \<longleftrightarrow>
    (\<exists>path c r sz mtime. le_path row = Some path \<and> path \<noteq> [] \<and> fs_resolve fs (path_of path) = Some c \<and>
      fs_resolve fs (path_of lroot) = Some r \<and> is_relative_to c r \<and> \<not> fs_is_symlink fs (path_of path) \<and>
      fs_is_file fs (path_of path) \<and> fs_stat fs (path_of path) = Some (sz, mtime) \<and>
      le_size row = Some sz \<and> le_mtime row = Some mtime)"
proof (cases "le_path row")
  case (Some path)
  then show ?thesis
    by (cases "fs_resolve fs (path_of path)"; cases "fs_resolve fs (path_of lroot)";
        cases "fs_stat fs (path_of path)") (auto simp: row_matches_disk_def Let_def)
qed (simp add: row_matches_disk_def)

lemma stat_for_freshness_matches:
  assumes "stat_for_freshness fs lp lroot lidarr = Some (p, sz, mt)"
    and "le_path row = Some p" "le_size row = Some sz" "le_mtime row = Some mt"
  shows "lroot \<noteq> [] \<and> p \<noteq> [] \<and> row_matches_disk fs lroot row"
proof -
  obtain mapped where m: "lroot \<noteq> []" "resolve_library_path fs lp lroot lidarr = Inr mapped"
    "fs_stat fs mapped = Some (sz, mt)" "p = path_str mapped"
    using assms(1) by (auto simp: stat_for_freshness_def split: if_splits sum.splits option.splits)
  obtain rel where "mapped = path_join (path_of lroot) rel" using resolve_library_path_rel[OF m(2)] by blast
  then have wf: "wf_path mapped" by (simp add: wf_path_join wf_path_of)
  then have "path_of p = mapped" "p \<noteq> []" using m(4) path_roundtrip path_str_nonempty by auto
  then show ?thesis
    using assms(2-4) m(1,3) resolve_library_path_InrD[OF m(2)] by (auto simp: row_matches_disk_iff)
qed

text \<open>Freshness is grounded in the disk. Evidence of any tier is called fresh only if its sensor version is
  current and the stored path is, now, a regular file inside the mount with the stored size and
  modification time; if the file's size or time differ, no tier is fresh.\<close>

theorem freshness_sound:
  assumes "is_measured_row_fresh fs lroot row \<or> is_integrity_row_fresh fs lroot row \<or> is_spectral_row_fresh fs lroot row"
  shows "\<exists>path sz mtime c r. le_path row = Some path \<and> path \<noteq> [] \<and> lroot \<noteq> [] \<and>
    fs_stat fs (path_of path) = Some (sz, mtime) \<and> le_size row = Some sz \<and> le_mtime row = Some mtime \<and>
    fs_resolve fs (path_of path) = Some c \<and> fs_resolve fs (path_of lroot) = Some r \<and> is_relative_to c r \<and>
    fs_is_file fs (path_of path) \<and> \<not> fs_is_symlink fs (path_of path)"
proof -
  have m: "row_matches_disk fs lroot row" and l: "lroot \<noteq> []"
    using assms by (auto simp: is_measured_row_fresh_def is_integrity_row_fresh_def
        is_spectral_row_fresh_def split: if_splits)
  from m[unfolded row_matches_disk_iff] l show ?thesis by blast
qed

definition demo_row :: lib_row where
  "demo_row = empty_row\<lparr>le_trackfile_id := 7, le_path := Some ''/lib/a'', le_size := Some 10, le_mtime := Some 20,
     le_integrity_ok := Some False, le_integrity_sensor_version := Some INTEGRITY_SENSOR_VERSION\<rparr>"

lemma demo_row_fresh: "is_integrity_row_fresh demo_fs ''/lib'' demo_row"
  by code_simp

theorem freshness_sound_witness: "fs_stat demo_fs (path_of ''/lib/a'') = Some (10, 20)"
proof -
  have "le_path demo_row = Some ''/lib/a''" "le_size demo_row = Some 10" "le_mtime demo_row = Some 20"
    by (simp_all add: demo_row_def)
  with freshness_sound[of demo_fs "''/lib''" demo_row] demo_row_fresh show ?thesis by auto
qed

text \<open>A metadata rescan makes old integrity and spectral verdicts look fresh. Take any stored row whose
  integrity verdict (or spectral verdict) has the current sensor version. If its file changes on disk
  and a metadata scan then stores the file's new path, size and time, the row's old
  verdict, measured on the old contents, is reported as fresh.\<close>

theorem metadata_rescan_revives_verdicts:
  assumes "edb_ready db" "tfind le_trackfile_id k (edb_rows db) = Some old" "lroot \<noteq> []"
    and "row_matches_disk fs lroot new"
    and "tfind le_trackfile_id k (edb_rows (upsert_library_metadata now (Some k) new db)) = Some r"
  shows "(le_integrity_sensor_version old = Some INTEGRITY_SENSOR_VERSION \<longrightarrow>
      is_integrity_row_fresh fs lroot r \<and> le_integrity_ok r = le_integrity_ok old \<and>
      le_checksum_ok r = le_checksum_ok old) \<and>
    (le_spectral_sensor_version old = Some SPECTRAL_SENSOR_VERSION \<and> le_spectral_status old = Some ''measured'' \<longrightarrow>
      is_spectral_row_fresh fs lroot r \<and> le_authentic r = le_authentic old)"
proof -
  have r: "r = metadata_columns (metadata_columns (metadata_payload now new) (empty_row\<lparr>le_trackfile_id := k\<rparr>)) old"
    using assms(1,2,5)
    by (simp add: upsert_library_metadata_def write_row_def metadata_tier.find_upsert merge_metadata_def
        metadata_columns_def)
  have eq: "le_path r = le_path new" "le_size r = le_size new" "le_mtime r = le_mtime new"
    "le_integrity_ok r = le_integrity_ok old" "le_checksum_ok r = le_checksum_ok old"
    "le_integrity_sensor_version r = le_integrity_sensor_version old" "le_authentic r = le_authentic old"
    "le_spectral_sensor_version r = le_spectral_sensor_version old" "le_spectral_status r = le_spectral_status old"
    by (simp_all add: r metadata_columns_def metadata_payload_def)
  have "row_matches_disk fs lroot r"
    using assms(4) by (simp add: row_matches_disk_iff eq)
  with assms(3) show ?thesis
    by (simp add: is_integrity_row_fresh_def is_spectral_row_fresh_def eq)
qed

text \<open>At the witness the file was measured at 10 bytes and found corrupt, then replaced by one of 11
  bytes: the verdict is stale until the metadata scan, and fresh after it.\<close>

definition demo_fs2 :: filesystem where
  "demo_fs2 = demo_fs\<lparr>fs_stat := (\<lambda>_. Some (11, 30))\<rparr>"

definition demo_new :: lib_row where
  "demo_new = empty_row\<lparr>le_path := Some ''/lib/a'', le_size := Some 11, le_mtime := Some 30\<rparr>"

theorem metadata_rescan_revives_verdicts_witness:
  "\<not> is_integrity_row_fresh demo_fs2 ''/lib'' demo_row \<and>
   (\<exists>r. tfind le_trackfile_id 7 (edb_rows (upsert_library_metadata 40 (Some 7) demo_new
        \<lparr>edb_ready = True, edb_rows = [demo_row]\<rparr>)) = Some r \<and>
     is_integrity_row_fresh demo_fs2 ''/lib'' r \<and> le_integrity_ok r = Some False)"
proof -
  let ?db = "\<lparr>edb_ready = True, edb_rows = [demo_row]\<rparr>"
  have a: "\<not> is_integrity_row_fresh demo_fs2 ''/lib'' demo_row" by code_simp
  have m: "row_matches_disk demo_fs2 ''/lib'' demo_new" by code_simp
  have d: "le_integrity_sensor_version demo_row = Some INTEGRITY_SENSOR_VERSION" "le_integrity_ok demo_row = Some False"
    by (simp_all add: demo_row_def)
  have f: "edb_ready ?db" "tfind le_trackfile_id 7 (edb_rows ?db) = Some demo_row"
    by (simp_all add: tfind_def demo_row_def)
  obtain r where r: "tfind le_trackfile_id 7 (edb_rows (upsert_library_metadata 40 (Some 7) demo_new ?db)) = Some r"
    using metadata_tier.find_upsert[of 7] by (simp add: upsert_library_metadata_def write_row_def metadata_columns_def)
  from metadata_rescan_revives_verdicts[OF f _ m r] d a r show ?thesis by simp
qed

end
