(* ===== verification/Library_Comparison.thy ===== *)
theory Library_Comparison
  imports Library_Evidence
begin

text \<open>
  The quality vector of a release (\<open>app/library_comparison.py\<close>): the tier of a track, the roll-up
  of measured rows to an album, and the precedence comparison of a candidate with the existing
  release.

  Rows are dictionaries, as the callers pass them: a column read from SQLite holds the integer 0 or 1
  where a caller in memory has a Boolean. The difference matters, because \<open>album_quality\<close> tests
  \<open>integrity_ok\<close> with \<open>is False\<close>, which the integer 0 is not.
\<close>

text \<open>\<open>v == 0\<close>, and an integer argument that may be missing.\<close>

definition py_eq_zero :: "json \<Rightarrow> bool" where
  "py_eq_zero v \<longleftrightarrow> v = JInt 0 \<or> v = JBool False \<or> v = JFloat 0"

fun as_int :: "json \<Rightarrow> int option" where
  "as_int (JInt n) = Some n"
| "as_int (JBool b) = Some (of_bool b)"
| "as_int _ = None"

definition tier_rank :: "bool option \<Rightarrow> int option \<Rightarrow> int option \<Rightarrow> int" where
  "tier_rank lossless bit_depth sample_rate =
     (if lossless \<noteq> Some True then 0
      else
        let depth = int_or bit_depth 16; rate = int_or sample_rate 44100 in
        if depth \<ge> 24 \<and> rate > 48000 then 3
        else if depth \<ge> 24 then 2
        else 1)"

record album_quality_rec =
  aq_measured_count :: int
  aq_track_count :: int
  aq_all_valid :: bool
  aq_any_invalid :: bool
  aq_min_tier :: int
  aq_all_lossless :: bool
  aq_any_fake :: bool
  aq_authenticity_known :: bool
  aq_integrity_known :: bool
  aq_any_md5_mismatch :: bool
  aq_any_nonstandard_flac_tags :: bool

definition row_tier :: "dict \<Rightarrow> int" where
  "row_tier r = tier_rank (Some (truthy (dget ''lossless'' r))) (as_int (dget ''bit_depth'' r))
     (as_int (dget ''sample_rate'' r))"

fun min_list1 :: "int list \<Rightarrow> int" where
  "min_list1 [] = 0"
| "min_list1 [x] = x"
| "min_list1 (x # y # zs) = min x (min_list1 (y # zs))"

definition album_quality :: "dict list \<Rightarrow> album_quality_rec option" where
  "album_quality rows =
     (if rows = [] then None
      else
        let measured = filter (\<lambda>r. dget ''status'' r = JStr ''measured'') rows in
        if measured = [] then None
        else
          let spectral = filter (\<lambda>r. dget ''spectral_status'' r = JStr ''measured'') measured in
          Some \<lparr>aq_measured_count = int (length measured), aq_track_count = int (length rows),
                aq_all_valid = (\<forall>r\<in>set measured. dget ''integrity_ok'' r \<noteq> JBool False),
                aq_any_invalid = (\<exists>r\<in>set measured. dget ''integrity_ok'' r = JBool False),
                aq_min_tier = min_list1 (map row_tier measured),
                aq_all_lossless = (\<forall>r\<in>set measured. truthy (dget ''lossless'' r)),
                aq_any_fake = (\<exists>r\<in>set spectral. py_eq_zero (dget ''authentic'' r)),
                aq_authenticity_known = (length spectral = length measured \<and> length spectral > 0),
                aq_integrity_known = (\<forall>r\<in>set measured. truthy (dget ''integrity_known'' r)),
                aq_any_md5_mismatch = (\<exists>r\<in>set measured. py_eq_zero (dget ''checksum_ok'' r)),
                aq_any_nonstandard_flac_tags =
                  (\<exists>r\<in>set measured. dget ''integrity_issue'' r = JStr ''nonstandard_flac_tags'')\<rparr>)"

record candidate_quality_rec =
  cq_valid :: bool
  cq_authentic :: bool
  cq_tier :: int
  cq_complete :: bool
  cq_tier_known :: bool

datatype comparison = UPGRADE | EQUIVALENT | DOWNGRADE | REVIEW

definition compare :: "candidate_quality_rec \<Rightarrow> album_quality_rec option \<Rightarrow> bool \<Rightarrow> bool \<Rightarrow> bool \<Rightarrow> comparison" where
  "compare candidate existing_opt existing_incomplete consider_authenticity consider_integrity =
     (case existing_opt of
        None \<Rightarrow> REVIEW
      | Some existing \<Rightarrow>
          if \<not> cq_valid candidate then DOWNGRADE
          else if \<not> cq_authentic candidate then REVIEW
          else if aq_any_invalid existing then UPGRADE
          else if consider_authenticity \<and> aq_any_fake existing then UPGRADE
          else if \<not> cq_tier_known candidate then REVIEW
          else if cq_tier candidate > aq_min_tier existing then UPGRADE
          else if cq_tier candidate = aq_min_tier existing \<and> cq_complete candidate \<and> existing_incomplete
          then UPGRADE
          else if consider_integrity \<and> \<not> aq_integrity_known existing then REVIEW
          else if consider_authenticity \<and> \<not> aq_authenticity_known existing then REVIEW
          else if cq_tier candidate < aq_min_tier existing then DOWNGRADE
          else EQUIVALENT)"

section \<open>Properties\<close>

lemma min_list1_Min: "xs \<noteq> [] \<Longrightarrow> min_list1 xs = Min (set xs)"
  by (induction xs rule: min_list1.induct) (simp_all add: min_def)

lemma tier_rank_range: "0 \<le> tier_rank l d s \<and> tier_rank l d s \<le> 3"
  by (simp add: tier_rank_def Let_def)

text \<open>(C14) The verdict table, complete: each verdict is given under exactly these circumstances. A candidate is an
  upgrade when it is valid and authentic and the existing release has a decode defect, or a measured fake (where
  authenticity counts), or a lower tier than a known candidate tier, or the same tier while the candidate
  completes an incomplete release. Where it is no upgrade, it is a downgrade when it is invalid, or when its known
  tier is lower and every axis that counts is verified, and equivalent when its known tier is the same and every
  axis that counts is verified. It is left to review when it is not authentic, when its tier is not known or an
  axis that counts is not verified, and when nothing is known of the existing release.\<close>

theorem compare_spec:
  fixes c :: candidate_quality_rec and e :: album_quality_rec and auth inc integ :: bool
  defines "trusted \<equiv> cq_valid c \<and> cq_authentic c"
    and "defective \<equiv> aq_any_invalid e \<or> auth \<and> aq_any_fake e"
    and "completes \<equiv> cq_tier c = aq_min_tier e \<and> cq_complete c \<and> inc"
    and "verified \<equiv> (integ \<longrightarrow> aq_integrity_known e) \<and> (auth \<longrightarrow> aq_authenticity_known e)"
  shows "(compare c (Some e) inc auth integ = UPGRADE \<longleftrightarrow>
      trusted \<and> (defective \<or> cq_tier_known c \<and> (aq_min_tier e < cq_tier c \<or> completes))) \<and>
   (compare c (Some e) inc auth integ = DOWNGRADE \<longleftrightarrow>
      \<not> cq_valid c \<or> trusted \<and> \<not> defective \<and> cq_tier_known c \<and> cq_tier c < aq_min_tier e \<and> verified) \<and>
   (compare c (Some e) inc auth integ = EQUIVALENT \<longleftrightarrow>
      trusted \<and> \<not> defective \<and> cq_tier_known c \<and> cq_tier c = aq_min_tier e \<and> \<not> completes \<and> verified) \<and>
   (compare c (Some e) inc auth integ = REVIEW \<longleftrightarrow>
      cq_valid c \<and> (\<not> cq_authentic c \<or>
        \<not> defective \<and> (\<not> cq_tier_known c \<or> cq_tier c \<le> aq_min_tier e \<and> \<not> completes \<and> \<not> verified))) \<and>
   compare c None inc auth integ = REVIEW"
  unfolding assms by (auto simp: compare_def)

definition demo_candidate :: candidate_quality_rec where
  "demo_candidate = \<lparr>cq_valid = True, cq_authentic = True, cq_tier = 2, cq_complete = True, cq_tier_known = True\<rparr>"

definition flac_row :: "json \<Rightarrow> dict" where
  "flac_row ok = [(''status'', JStr ''measured''), (''lossless'', JInt 1), (''bit_depth'', JInt 24),
     (''sample_rate'', JInt 44100), (''integrity_ok'', ok), (''integrity_known'', JBool True)]"

theorem compare_spec_witness:
  "compare demo_candidate (album_quality [flac_row (JBool False)]) False False False = UPGRADE \<and>
   compare demo_candidate (album_quality [flac_row (JBool True)]) False False True = EQUIVALENT"
proof -
  obtain e where e: "album_quality [flac_row (JBool False)] = Some e" "aq_any_invalid e"
    by (simp add: album_quality_def flac_row_def)
  obtain e' where e': "album_quality [flac_row (JBool True)] = Some e'" "\<not> aq_any_invalid e'" "aq_min_tier e' = 2" "aq_integrity_known e'"
    by (simp add: album_quality_def flac_row_def row_tier_def tier_rank_def int_or_def)
  have "compare demo_candidate (Some e) False False False = UPGRADE"
    using compare_spec[of demo_candidate e False False False] e(2) by (simp add: demo_candidate_def)
  moreover have "compare demo_candidate (Some e') False False True = EQUIVALENT"
    using compare_spec[of demo_candidate e' False False True] e'(2-) by (simp add: demo_candidate_def)
  ultimately show ?thesis by (simp add: e(1) e'(1))
qed

lemma album_quality_measured:
  "album_quality rows = None \<longleftrightarrow> (\<forall>r\<in>set rows. dget ''status'' r \<noteq> JStr ''measured'')"
  by (auto simp: album_quality_def Let_def filter_empty_conv)

lemma album_quality_SomeD:
  assumes "album_quality rows = Some q"
  defines "measured \<equiv> filter (\<lambda>r. dget ''status'' r = JStr ''measured'') rows"
  shows "measured \<noteq> []" "aq_min_tier q = Min (row_tier ` set measured)"
    "aq_authenticity_known q \<longleftrightarrow> (\<forall>r\<in>set measured. dget ''spectral_status'' r = JStr ''measured'')"
    "aq_integrity_known q \<longleftrightarrow> (\<forall>r\<in>set measured. truthy (dget ''integrity_known'' r))"
    "aq_any_invalid q \<longleftrightarrow> (\<exists>r\<in>set measured. dget ''integrity_ok'' r = JBool False)"
proof -
  have ne: "measured \<noteq> []" using assms by (auto simp: album_quality_def Let_def split: if_splits)
  have q: "q = \<lparr>aq_measured_count = int (length measured), aq_track_count = int (length rows),
                aq_all_valid = (\<forall>r\<in>set measured. dget ''integrity_ok'' r \<noteq> JBool False),
                aq_any_invalid = (\<exists>r\<in>set measured. dget ''integrity_ok'' r = JBool False),
                aq_min_tier = min_list1 (map row_tier measured),
                aq_all_lossless = (\<forall>r\<in>set measured. truthy (dget ''lossless'' r)),
                aq_any_fake = (\<exists>r\<in>set (filter (\<lambda>r. dget ''spectral_status'' r = JStr ''measured'') measured).
                   py_eq_zero (dget ''authentic'' r)),
                aq_authenticity_known = (length (filter (\<lambda>r. dget ''spectral_status'' r = JStr ''measured'') measured) =
                   length measured \<and> length (filter (\<lambda>r. dget ''spectral_status'' r = JStr ''measured'') measured) > 0),
                aq_integrity_known = (\<forall>r\<in>set measured. truthy (dget ''integrity_known'' r)),
                aq_any_md5_mismatch = (\<exists>r\<in>set measured. py_eq_zero (dget ''checksum_ok'' r)),
                aq_any_nonstandard_flac_tags =
                  (\<exists>r\<in>set measured. dget ''integrity_issue'' r = JStr ''nonstandard_flac_tags'')\<rparr>"
    using assms(1) ne unfolding album_quality_def measured_def Let_def by (simp split: if_split_asm)
  show "measured \<noteq> []" by (rule ne)
  show "aq_min_tier q = Min (row_tier ` set measured)" using ne by (simp add: q min_list1_Min)
  have l: "length (filter P xs) = length xs \<longleftrightarrow> (\<forall>x\<in>set xs. P x)" for P and xs :: "dict list"
    by (metis filter_True length_filter_less less_irrefl)
  show "aq_authenticity_known q \<longleftrightarrow> (\<forall>r\<in>set measured. dget ''spectral_status'' r = JStr ''measured'')"
    using ne by (auto simp: q l)
  show "aq_integrity_known q \<longleftrightarrow> (\<forall>r\<in>set measured. truthy (dget ''integrity_known'' r))"
    by (simp add: q)
  show "aq_any_invalid q \<longleftrightarrow> (\<exists>r\<in>set measured. dget ''integrity_ok'' r = JBool False)"
    by (simp add: q)
qed

text \<open>The album roll-up. It exists exactly when some row is measured; its tier is that of the weakest
  measured track, authenticity counts as known only if every measured track has a spectral verdict,
  and integrity only if every measured track is marked verified; and one more measured track can
  only lower the tier and withdraw those guarantees.\<close>

theorem album_rollup_weakest:
  assumes q: "album_quality rows = Some q" and q': "album_quality (rows @ [r]) = Some q'"
  shows "(\<forall>t\<in>set rows. dget ''status'' t = JStr ''measured'' \<longrightarrow> aq_min_tier q \<le> row_tier t) \<and>
    (\<exists>t\<in>set rows. dget ''status'' t = JStr ''measured'' \<and> aq_min_tier q = row_tier t) \<and>
    aq_min_tier q' \<le> aq_min_tier q \<and>
    (aq_authenticity_known q' \<longrightarrow> aq_authenticity_known q) \<and>
    (aq_integrity_known q' \<longrightarrow> aq_integrity_known q) \<and>
    (aq_any_invalid q \<longrightarrow> aq_any_invalid q')"
proof -
  let ?m = "\<lambda>rs. filter (\<lambda>r. dget ''status'' r = JStr ''measured'') rs"
  note a = album_quality_SomeD[OF q] and b = album_quality_SomeD[OF q']
  have sub: "set (?m rows) \<subseteq> set (?m (rows @ [r]))" by auto
  have "Min (row_tier ` set (?m (rows @ [r]))) \<le> Min (row_tier ` set (?m rows))"
    using a(1) by (intro Min_antimono image_mono sub) (auto simp: filter_empty_conv)
  then have "aq_min_tier q' \<le> aq_min_tier q" unfolding a(2) b(2) .
  moreover have "\<forall>t\<in>set rows. dget ''status'' t = JStr ''measured'' \<longrightarrow> aq_min_tier q \<le> row_tier t"
    unfolding a(2) by auto
  moreover have "aq_min_tier q \<in> row_tier ` set (?m rows)"
    unfolding a(2) using a(1) by (intro Min_in) (auto simp: filter_empty_conv)
  ultimately show ?thesis
    using sub unfolding a(3-5) b(3-5) by auto
qed

theorem album_rollup_weakest_witness:
  "\<exists>q q'. album_quality [flac_row (JInt 1)] = Some q \<and>
     album_quality ([flac_row (JInt 1)] @ [[(''status'', JStr ''measured'')]]) = Some q' \<and>
     aq_min_tier q' \<le> aq_min_tier q"
proof -
  obtain q where q: "album_quality [flac_row (JInt 1)] = Some q"
    by (simp add: album_quality_def flac_row_def)
  obtain q' where q': "album_quality ([flac_row (JInt 1)] @ [[(''status'', JStr ''measured'')]]) = Some q'"
    by (simp add: album_quality_def flac_row_def)
  from album_rollup_weakest[OF q q'] q q' show ?thesis by blast
qed

end
