(* ===== verification/Decision_Pipeline.thy ===== *)
theory Decision_Pipeline
  imports Verification Library_Comparison
begin

text \<open>
  The decision pipeline of \<open>app/server.py\<close>: from the collected import context to the verification
  result. The audio decision is adjusted by CD-rip evidence and by the measured existing library (both
  opt-in), combined with the release identity and passed through the track-count guard.

  The locale \<open>guarded_adjustment\<close> states what the pipeline relies on of each adjustment: it neither
  lifts a block nor makes one. Parameters stand for what is collected elsewhere: the audio file
  count, the identity result, the sensor and file evidence and the environment switches.
\<close>

section \<open>CD-rip scoring\<close>

record cd_rip_ev =
  ev_status :: string
  ev_log_filename :: "string option"
  ev_accurate :: bool

definition apply_cd_rip_scoring :: "verification_decision \<Rightarrow> cd_rip_ev \<Rightarrow> verification_decision" where
  "apply_cd_rip_scoring audio_decision ev =
     (if audio_decision = REVIEW_REQUIRED \<and> ev_status ev = ''pass'' \<and> ev_accurate ev
      then ACCEPT_PROVISIONAL
      else if audio_decision \<in> {ACCEPT, ACCEPT_PROVISIONAL} \<and> ev_status ev = ''warn'' \<and> ev_log_filename ev \<noteq> None
      then REVIEW_REQUIRED
      else audio_decision)"

section \<open>The measured existing library\<close>

definition candidate_quality :: "dict list \<Rightarrow> string \<Rightarrow> string list \<Rightarrow> int \<Rightarrow> int \<Rightarrow> candidate_quality_rec" where
  "candidate_quality files normalized_verdict overrides new_track_count expected_track_count =
     (let valid = \<not> (\<exists>g\<in>set [''codec_mismatch'', ''flac_t_fail'', ''validator_error'', ''no_audio_files''].
                       g \<in> set overrides);
          tiers = map (\<lambda>f. tier_rank (Some valid) (as_int (dget ''bit_depth'' f)) (as_int (dget ''sample_rate'' f))) files in
      \<lparr>cq_valid = valid,
       cq_authentic = (normalized_verdict = ''AUTHENTIC'' \<and> ''fake_hi_res'' \<notin> set overrides),
       cq_tier = (if tiers = [] then 0 else min_list1 tiers),
       cq_complete = (expected_track_count > 0 \<and> new_track_count \<ge> expected_track_count),
       cq_tier_known = (files \<noteq> [] \<and>
          (\<forall>f\<in>set files. dget ''bit_depth'' f \<noteq> JNull \<and> dget ''sample_rate'' f \<noteq> JNull))\<rparr>)"

definition map_measured_verdict :: "verification_decision \<Rightarrow> comparison \<Rightarrow> verification_decision" where
  "map_measured_verdict audio_decision verdict =
     (if audio_decision = BLOCK then BLOCK
      else if verdict \<in> {DOWNGRADE, REVIEW} \<and> audio_decision \<in> {ACCEPT, ACCEPT_PROVISIONAL}
      then REVIEW_REQUIRED
      else if verdict = UPGRADE \<and> audio_decision = REVIEW_REQUIRED then ACCEPT_PROVISIONAL
      else audio_decision)"

text \<open>\<open>dict(row)\<close> of a row of the evidence table: Boolean columns are the integers SQLite stores.
  The columns are those the decision code reads.\<close>

definition jopt :: "('a \<Rightarrow> json) \<Rightarrow> 'a option \<Rightarrow> json" where
  "jopt f x = (case x of None \<Rightarrow> JNull | Some v \<Rightarrow> f v)"

definition jbit :: "bool option \<Rightarrow> json" where
  "jbit x = jopt (\<lambda>b. JInt (of_bool b)) x"

definition row_dict :: "lib_row \<Rightarrow> dict" where
  "row_dict r =
     [(''trackfile_id'', JInt (le_trackfile_id r)), (''album_id'', jopt JInt (le_album_id r)),
      (''path'', jopt JStr (le_path r)), (''size'', jopt JInt (le_size r)), (''mtime'', jopt JFloat (le_mtime r)),
      (''status'', jopt JStr (le_status r)), (''reason'', jopt JStr (le_reason r)),
      (''codec'', jopt JStr (le_codec r)), (''sample_rate'', jopt JInt (le_sample_rate r)),
      (''bit_depth'', jopt JInt (le_bit_depth r)), (''bitrate_kbps'', jopt JInt (le_bitrate_kbps r)),
      (''channels'', jopt JInt (le_channels r)), (''lossless'', jbit (le_lossless r)),
      (''integrity_ok'', jbit (le_integrity_ok r)), (''checksum_ok'', jbit (le_checksum_ok r)),
      (''integrity_issue'', jopt JStr (le_integrity_issue r)),
      (''sensor_version'', jopt JStr (le_sensor_version r)),
      (''integrity_sensor_version'', jopt JStr (le_integrity_sensor_version r)),
      (''authentic'', jbit (le_authentic r)), (''spectral_status'', jopt JStr (le_spectral_status r)),
      (''spectral_reason'', jopt JStr (le_spectral_reason r)),
      (''spectral_verdict'', jopt JStr (le_spectral_verdict r)),
      (''spectral_sensor_version'', jopt JStr (le_spectral_sensor_version r))]"

definition decision_evidence_view :: "filesystem \<Rightarrow> string \<Rightarrow> lib_row \<Rightarrow> dict" where
  "decision_evidence_view fs lroot row =
     (let v1 = (if \<not> is_spectral_row_fresh fs lroot row
                then dset ''authentic'' JNull (dset ''spectral_status'' JNull (row_dict row)) else row_dict row);
          integrity_fresh = is_integrity_row_fresh fs lroot row;
          v2 = dset ''integrity_known''
                 (JBool (integrity_fresh \<and> dget ''integrity_issue'' v1 \<noteq> JStr ''nonstandard_flac_tags'')) v1 in
      if \<not> integrity_fresh
      then dset ''integrity_issue'' JNull (dset ''checksum_ok'' JNull (dset ''integrity_ok'' JNull v2))
      else v2)"

definition measured_existing_rows :: "filesystem \<Rightarrow> string \<Rightarrow> evidence_db \<Rightarrow> int list \<Rightarrow> dict list" where
  "measured_existing_rows fs lroot edb album_ids =
     (let rows = concat (map (\<lambda>a. get_album_library_evidence a edb) album_ids);
          fresh = filter (is_measured_row_fresh fs lroot) rows in
      map (decision_evidence_view fs lroot) fresh)"

record library_ctx =
  lc_fs :: filesystem
  lc_root :: string
  lc_evidence :: evidence_db
  lc_spectral_enabled :: bool
  lc_require_integrity :: bool

definition apply_measured_existing :: "library_ctx \<Rightarrow> verification_decision \<Rightarrow> int list \<Rightarrow> dict list \<Rightarrow> string \<Rightarrow>
    string list \<Rightarrow> int \<Rightarrow> int \<Rightarrow> int \<Rightarrow> verification_decision" where
  "apply_measured_existing lc audio_decision album_ids files normalized_verdict overrides
       new_track_count existing_track_count expected_track_count =
     (if lc_root lc = [] then audio_decision
      else
        case album_quality (measured_existing_rows (lc_fs lc) (lc_root lc) (lc_evidence lc) album_ids) of
          None \<Rightarrow> audio_decision
        | Some existing \<Rightarrow>
            let candidate = candidate_quality files normalized_verdict overrides new_track_count expected_track_count;
                existing_incomplete = (expected_track_count > 0 \<and> existing_track_count < expected_track_count);
                verdict = compare candidate (Some existing) existing_incomplete (lc_spectral_enabled lc)
                            (lc_require_integrity lc) in
            map_measured_verdict audio_decision verdict)"

section \<open>The pipeline\<close>

definition has_fake_hi_res_signal :: "json \<Rightarrow> bool" where
  "has_fake_hi_res_signal detective_result =
     (truthy detective_result \<and>
      (\<exists>f\<in>set (as_list (dget_default ''files'' (JList []) (as_dict detective_result))).
         truthy (dget ''is_fake_high_res'' (as_dict f))))"

definition manualimport_album_complete :: "int \<Rightarrow> dict list \<Rightarrow> bool" where
  "manualimport_album_complete audio_count items =
     (if audio_count = 0 then False
      else int (length (filter (\<lambda>it. \<not> truthy (dget ''rejections'' it) \<and> truthy (dget ''artist'' it) \<and>
             truthy (dget ''album'' it) \<and> truthy (dget ''tracks'' it)) items)) \<ge> audio_count)"

record identity_result =
  ir_decision :: identity_decision
  ir_confidence :: rat
  ir_reasons :: "string list"
  ir_best_release_id :: json
  ir_current_release_id :: json

record pipeline_ctx =
  pc_audio_count :: int
  pc_has_flac :: bool
  pc_codec_gate_skipped :: int
  pc_items :: "dict list"
  pc_identity :: identity_result
  pc_sensors :: "dict list"
  pc_files :: "dict list"
  pc_cd_rip :: "cd_rip_ev option"
  pc_cd_rip_scoring_enabled :: bool
  pc_measured_existing_enabled :: bool
  pc_library :: library_ctx

definition validator_error_of :: "pipeline_ctx \<Rightarrow> string \<Rightarrow> string option \<Rightarrow> bool" where
  "validator_error_of pc verdict detective_error \<longleftrightarrow>
     pc_audio_count pc \<noteq> 0 \<and> (truthy_str detective_error \<or> verdict \<in> {''UNKNOWN'', ''ERROR''})"

definition codec_mismatch_of :: "pipeline_ctx \<Rightarrow> bool" where
  "codec_mismatch_of pc \<longleftrightarrow> (pc_audio_count pc > 0 \<and> \<not> pc_has_flac pc) \<or> pc_codec_gate_skipped pc > 0"

definition scored :: "pipeline_ctx \<Rightarrow> string \<Rightarrow> string option \<Rightarrow> json \<Rightarrow> int \<times> string list" where
  "scored pc verdict detective_error detective_result =
     (let ve = validator_error_of pc verdict detective_error;
          components = compute_components (pc_audio_count pc > 0) (\<not> ve \<and> pc_has_flac pc) verdict
                         (manualimport_album_complete (pc_audio_count pc) (pc_items pc));
          (score, overrides) = apply_overrides components (codec_mismatch_of pc) False ve
                                 (has_fake_hi_res_signal detective_result) verdict in
      if pc_audio_count pc = 0 \<and> ''no_audio_files'' \<notin> set overrides
      then (0, overrides @ [''no_audio_files'']) else (score, overrides))"

definition adjusted_audio_decision :: "pipeline_ctx \<Rightarrow> string \<Rightarrow> string list \<Rightarrow> int list \<Rightarrow> int \<Rightarrow> int \<Rightarrow> int \<Rightarrow>
    verification_decision \<Rightarrow> verification_decision" where
  "adjusted_audio_decision pc verdict overrides album_ids new_track_count existing_track_count expected_track_count d0 =
     (let d1 = (case pc_cd_rip pc of
                  None \<Rightarrow> d0
                | Some ev \<Rightarrow> if pc_cd_rip_scoring_enabled pc then apply_cd_rip_scoring d0 ev else d0) in
      if pc_measured_existing_enabled pc
      then apply_measured_existing (pc_library pc) d1 album_ids (pc_files pc) verdict overrides
             new_track_count existing_track_count expected_track_count
      else d1)"

definition compute_verification :: "pipeline_ctx \<Rightarrow> string \<Rightarrow> string option \<Rightarrow> string option \<Rightarrow> json \<Rightarrow> int \<Rightarrow> string \<Rightarrow>
    int \<Rightarrow> int list \<Rightarrow> string \<Rightarrow> int \<Rightarrow> int \<Rightarrow> int \<Rightarrow> verification_result" where
  "compute_verification pc jid verdict_opt detective_error detective_result existing_kbps existing_label
       new_effective_kbps album_ids title existing_track_count new_track_count expected_track_count =
     (let verdict = str_or verdict_opt ''UNKNOWN'';
          ve = validator_error_of pc verdict detective_error;
          components = compute_components (pc_audio_count pc > 0) (\<not> ve \<and> pc_has_flac pc) verdict
                         (manualimport_album_complete (pc_audio_count pc) (pc_items pc));
          (score, overrides) = scored pc verdict detective_error detective_result;
          audio0 = decide score existing_kbps new_effective_kbps verdict overrides existing_track_count
                     new_track_count expected_track_count;
          audio = adjusted_audio_decision pc verdict overrides album_ids new_track_count existing_track_count
                    expected_track_count audio0;
          identity = pc_identity pc;
          combined = combine_audio_identity_decision audio (ir_decision identity);
          (decision, marker) = apply_track_count_guard combined (ir_decision identity) new_track_count
                                 expected_track_count existing_track_count;
          overrides' = (case marker of
                          None \<Rightarrow> overrides
                        | Some m \<Rightarrow> if m \<in> set overrides then overrides else overrides @ [m]) in
      \<lparr>vr_jid = jid, vr_score = score, vr_verification_decision = decision, vr_import_outcome = PENDING,
       vr_components = components, vr_overrides = overrides', vr_verdict = verdict,
       vr_new_kbps = (if ve \<or> pc_audio_count pc = 0 \<or> codec_mismatch_of pc then 0 else new_effective_kbps),
       vr_existing_kbps = existing_kbps, vr_existing_label = existing_label, vr_album_ids = album_ids,
       vr_title = title, vr_sensors = pc_sensors pc, vr_files = pc_files pc,
       vr_identity_decision = ir_decision identity, vr_identity_confidence = ir_confidence identity,
       vr_identity_reasons = ir_reasons identity, vr_identity_best_release_id = ir_best_release_id identity,
       vr_identity_current_release_id = ir_current_release_id identity, vr_timestamp = 0,
       vr_timestamp_iso = []\<rparr>)"

section \<open>Sidecar lifecycle\<close>

definition decide_blocklist_policy :: "string \<Rightarrow> string list \<Rightarrow> string" where
  "decide_blocklist_policy verdict overrides =
     (if ''fake_hi_res'' \<in> set overrides then ''hold_for_review''
      else if verdict = ''FAKE_CERTAIN'' then ''blocklist_now''
      else ''blocklist_now'')"

definition sidecar_lifecycle :: "rat \<Rightarrow> verification_result \<Rightarrow> dict" where
  "sidecar_lifecycle now r =
     (let state = (if vr_verification_decision r = REVIEW_REQUIRED then ''pending_review'' else ''created'');
          policy = (if state = ''pending_review'' then decide_blocklist_policy (vr_verdict r) (vr_overrides r)
                    else ''skipped'') in
      [(''state'', JStr state), (''created_at'', JFloat now), (''promoted_at'', JNull),
       (''discarded_at'', JNull), (''expired_at'', JNull), (''actor'', JNull),
       (''blocklist_policy'', JStr policy),
       (''blocklist_status'', JStr (if policy = ''blocklist_now'' then ''pending'' else ''skipped''))])"

definition is_promotable :: "dict \<Rightarrow> bool" where
  "is_promotable record =
     (let decision = dget ''v2_verification_decision'' record;
          outcome = dget ''v2_import_outcome'' record;
          lifecycle = as_dict (dget ''lifecycle'' record);
          overrides = as_list (dget ''v2_overrides'' record) in
      decision = JStr ''REVIEW_REQUIRED'' \<and> dget ''state'' lifecycle = JStr ''pending_review'' \<or>
      decision = JStr ''ACCEPT_PROVISIONAL'' \<and> outcome \<in> {JStr ''FAILED'', JStr ''PENDING''} \<and>
        JStr ''manual_promote'' \<in> set overrides)"

definition is_retryable_verified_import :: "dict \<Rightarrow> bool" where
  "is_retryable_verified_import record =
     (let decision = dget ''v2_verification_decision'' record;
          outcome = dget ''v2_import_outcome'' record;
          lifecycle = as_dict (dget ''lifecycle'' record) in
      decision \<in> {JStr ''ACCEPT'', JStr ''ACCEPT_PROVISIONAL''} \<and> outcome \<in> {JStr ''FAILED'', JStr ''PENDING''} \<and>
      dget ''state'' lifecycle \<notin> {JStr ''discarded'', JStr ''expired''})"

definition derive_status :: "dict \<Rightarrow> string" where
  "derive_status rec =
     (let state = py_or (dget ''verification_state'' rec)
                    (dget_default ''state'' (JStr []) (as_dict (dget ''lifecycle'' rec)));
          decision = dget_default ''v2_verification_decision'' (JStr []) rec;
          outcome = dget_default ''v2_import_outcome'' (JStr []) rec in
      if state = JStr ''discarded'' then ''discarded''
      else if state = JStr ''expired'' then ''expired''
      else if decision = JStr ''REVIEW_REQUIRED'' \<and> state = JStr ''pending_review'' then ''needs_review''
      else if decision = JStr ''BLOCK'' \<and> outcome \<in> {JStr ''MANUAL_IMPORTED'', JStr ''RESCUED''} then ''policy_violation''
      else if outcome = JStr ''FAILED'' then ''failed''
      else if state = JStr ''promoted'' then ''promoted''
      else if outcome = JStr ''PENDING'' then ''pending''
      else if outcome \<in> {JStr ''MANUAL_IMPORTED'', JStr ''RESCUED''} then ''imported''
      else if decision = JStr ''BLOCK'' then ''blocked''
      else ''unknown'')"

section \<open>Adjustments neither lift nor make a block\<close>

locale guarded_adjustment =
  fixes adj :: "verification_decision \<Rightarrow> verification_decision"
  assumes keeps_block: "adj BLOCK = BLOCK" and no_new_block: "adj d = BLOCK \<Longrightarrow> d = BLOCK"
begin

lemma adj_BLOCK_iff: "adj d = BLOCK \<longleftrightarrow> d = BLOCK"
  using keeps_block no_new_block by blast

end

interpretation cd_rip_adjustment: guarded_adjustment "\<lambda>d. apply_cd_rip_scoring d ev" for ev
  by unfold_locales (auto simp: apply_cd_rip_scoring_def split: if_splits)

interpretation measured_adjustment: guarded_adjustment "\<lambda>d. map_measured_verdict d v" for v
  by unfold_locales (auto simp: map_measured_verdict_def split: if_splits)

interpretation existing_adjustment: guarded_adjustment
    "\<lambda>d. apply_measured_existing lc d ids files verdict ov nt et xt" for lc ids files verdict ov nt et xt
  by unfold_locales
    (auto simp: apply_measured_existing_def Let_def measured_adjustment.adj_BLOCK_iff split: if_splits option.splits)

interpretation audio_adjustment: guarded_adjustment
    "adjusted_audio_decision pc verdict ov ids nt et xt" for pc verdict ov ids nt et xt
  by unfold_locales
    (auto simp: adjusted_audio_decision_def Let_def existing_adjustment.adj_BLOCK_iff
       cd_rip_adjustment.adj_BLOCK_iff split: if_splits option.splits)

interpretation guard_adjustment: guarded_adjustment "\<lambda>d. fst (apply_track_count_guard d i nt xt et)" for i nt xt et
  by unfold_locales (auto simp: apply_track_count_guard_def split: if_splits)

text \<open>The decision of the whole pipeline, written as the chain of its stages.\<close>

lemma compute_verification_decision:
  "vr_verification_decision (compute_verification pc jid v de dr ek lbl nk ids title et nt xt) =
    (let verdict = str_or v ''UNKNOWN''; (score, ov) = scored pc verdict de dr in
     fst (apply_track_count_guard
       (combine_audio_identity_decision
         (adjusted_audio_decision pc verdict ov ids nt et xt (decide score ek nk verdict ov et nt xt))
         (ir_decision (pc_identity pc)))
       (ir_decision (pc_identity pc)) nt xt et))"
  by (simp add: compute_verification_def Let_def case_prod_unfold)

text \<open>(C1) What blocks an import. With all adjustments in place, the pipeline blocks exactly when the audio
  policy blocks or the release is the wrong album: no evidence adjustment can lift a block and none can
  create one.\<close>

theorem pipeline_block_iff:
  "vr_verification_decision (compute_verification pc jid v de dr ek lbl nk ids title et nt xt) = BLOCK \<longleftrightarrow>
    (case scored pc (str_or v ''UNKNOWN'') de dr of
       (score, ov) \<Rightarrow> decide score ek nk (str_or v ''UNKNOWN'') ov et nt xt = BLOCK) \<or>
    ir_decision (pc_identity pc) = WRONG_ALBUM"
proof -
  obtain score ov where s: "scored pc (str_or v ''UNKNOWN'') de dr = (score, ov)" by fastforce
  have "vr_verification_decision (compute_verification pc jid v de dr ek lbl nk ids title et nt xt) =
      fst (apply_track_count_guard
       (combine_audio_identity_decision
         (adjusted_audio_decision pc (str_or v ''UNKNOWN'') ov ids nt et xt
            (decide score ek nk (str_or v ''UNKNOWN'') ov et nt xt))
         (ir_decision (pc_identity pc)))
       (ir_decision (pc_identity pc)) nt xt et)"
    by (simp add: compute_verification_decision s Let_def)
  then show ?thesis
    by (simp add: guard_adjustment.adj_BLOCK_iff combine_BLOCK audio_adjustment.adj_BLOCK_iff s)
qed

lemma scored_gates:
  assumes "scored pc verdict de dr = (score, ov)"
  shows "(codec_mismatch_of pc \<longrightarrow> ''codec_mismatch'' \<in> set ov) \<and>
    (\<not> codec_mismatch_of pc \<and> validator_error_of pc verdict de \<longrightarrow> ''validator_error'' \<in> set ov) \<and>
    (''fake_hi_res'' \<in> set ov \<longleftrightarrow> \<not> codec_mismatch_of pc \<and> \<not> validator_error_of pc verdict de \<and> has_fake_hi_res_signal dr) \<and>
    (pc_audio_count pc = 0 \<longrightarrow> ''no_audio_files'' \<in> set ov \<and> score = 0)"
  using assms unfolding scored_def apply_overrides_def Let_def
  by (auto split: if_splits prod.splits)

lemma decide_gates:
  "decide s ek nk v ov et nt xt \<noteq> BLOCK \<Longrightarrow> ''codec_mismatch'' \<notin> set ov \<and> ''validator_error'' \<notin> set ov"
  by (auto simp: decide_def Let_def split: if_split_asm)

lemma decide_fake_hi_res:
  "''fake_hi_res'' \<in> set ov \<Longrightarrow> decide s ek nk v ov et nt xt \<in> {REVIEW_REQUIRED, BLOCK}"
  by (simp add: decide_def Let_def)

text \<open>A candidate with a fake-hi-res signal is never an upgrade, so that the measured comparison cannot
  rescue it.\<close>

lemma measured_keeps_fake_review:
  assumes "''fake_hi_res'' \<in> set ov"
  shows "apply_measured_existing lc REVIEW_REQUIRED ids files verdict ov nt et xt = REVIEW_REQUIRED"
proof -
  have na: "\<not> cq_authentic (candidate_quality files verdict ov nt xt)"
    using assms by (simp add: candidate_quality_def Let_def)
  then have "compare (candidate_quality files verdict ov nt xt) (Some e) inc a i \<noteq> UPGRADE" for e inc a i
    by (simp add: compare_def)
  then show ?thesis
    by (simp add: apply_measured_existing_def Let_def map_measured_verdict_def split: option.split)
qed

text \<open>(C2) What an automatic import has passed. If the pipeline accepts a candidate without review, then its
  codec gate passed for every file, the validator ran without error whenever there was audio, the
  release identity is the same release or family, no track-count guard tripped, and a fake-hi-res
  signal can only have been overruled by enabled CD-rip scoring on an AccurateRip-verified rip.\<close>

theorem pipeline_accept_sound:
  assumes "auto_import (vr_verification_decision (compute_verification pc jid v de dr ek lbl nk ids title et nt xt))"
  shows "\<not> codec_mismatch_of pc \<and> \<not> validator_error_of pc (str_or v ''UNKNOWN'') de \<and>
    ir_decision (pc_identity pc) \<in> {SAME_RELEASE, SAME_FAMILY} \<and>
    \<not> edition_track_count_mismatch (ir_decision (pc_identity pc)) nt xt \<and>
    \<not> track_count_undercount_mismatch (ir_decision (pc_identity pc)) nt xt et \<and>
    (has_fake_hi_res_signal dr \<longrightarrow>
       (\<exists>ev. pc_cd_rip pc = Some ev \<and> pc_cd_rip_scoring_enabled pc \<and> ev_status ev = ''pass'' \<and> ev_accurate ev))"
proof -
  let ?v = "str_or v ''UNKNOWN''" and ?i = "ir_decision (pc_identity pc)"
  obtain score ov where s: "scored pc ?v de dr = (score, ov)" by fastforce
  let ?raw = "decide score ek nk ?v ov et nt xt"
  let ?a = "adjusted_audio_decision pc ?v ov ids nt et xt ?raw"
  let ?c = "combine_audio_identity_decision ?a ?i"
  have fin: "auto_import (fst (apply_track_count_guard ?c ?i nt xt et))"
    using assms by (simp add: compute_verification_decision s Let_def)
  then have c: "auto_import ?c" and g: "\<not> edition_track_count_mismatch ?i nt xt"
    "\<not> track_count_undercount_mismatch ?i nt xt et"
    by (auto simp: apply_track_count_guard_def auto_import_def split: if_splits)
  from c have a: "auto_import ?a" and i: "?i \<in> {SAME_RELEASE, SAME_FAMILY}"
    by (cases ?i; auto simp: combine_audio_identity_decision_def auto_import_def split: if_splits)+
  have nb: "?raw \<noteq> BLOCK"
  proof
    assume "?raw = BLOCK"
    then have "?a = BLOCK" by (simp add: audio_adjustment.adj_BLOCK_iff)
    with a show False by (simp add: auto_import_def)
  qed
  from decide_gates[OF nb] scored_gates[OF s]
  have gates: "\<not> codec_mismatch_of pc" "\<not> validator_error_of pc ?v de" by blast+
  have "\<exists>ev. pc_cd_rip pc = Some ev \<and> pc_cd_rip_scoring_enabled pc \<and> ev_status ev = ''pass'' \<and> ev_accurate ev"
    if f: "has_fake_hi_res_signal dr"
  proof (rule ccontr)
    assume no: "\<nexists>ev. pc_cd_rip pc = Some ev \<and> pc_cd_rip_scoring_enabled pc \<and> ev_status ev = ''pass'' \<and> ev_accurate ev"
    have ov: "''fake_hi_res'' \<in> set ov" using scored_gates[OF s] gates f by blast
    with decide_fake_hi_res[OF ov] nb have rev: "?raw = REVIEW_REQUIRED" by blast
    have "?a = REVIEW_REQUIRED"
      using no unfolding rev
      by (auto simp: adjusted_audio_decision_def Let_def apply_cd_rip_scoring_def
          measured_keeps_fake_review[OF ov] split: option.splits)
    with a show False by (simp add: auto_import_def)
  qed
  with gates i g show ?thesis by blast
qed

definition demo_library :: library_ctx where
  "demo_library = \<lparr>lc_fs = demo_fs, lc_root = ''/lib'', lc_evidence = \<lparr>edb_ready = True, edb_rows = []\<rparr>,
     lc_spectral_enabled = False, lc_require_integrity = False\<rparr>"

definition demo_ctx :: pipeline_ctx where
  "demo_ctx = \<lparr>pc_audio_count = 2, pc_has_flac = True, pc_codec_gate_skipped = 0, pc_items = [],
     pc_identity = \<lparr>ir_decision = SAME_RELEASE, ir_confidence = 90, ir_reasons = [],
       ir_best_release_id = JNull, ir_current_release_id = JNull\<rparr>,
     pc_sensors = [], pc_files = [], pc_cd_rip = Some \<lparr>ev_status = ''pass'', ev_log_filename = Some ''rip.log'',
       ev_accurate = True\<rparr>, pc_cd_rip_scoring_enabled = True, pc_measured_existing_enabled = False,
     pc_library = demo_library\<rparr>"

definition demo_fake :: json where
  "demo_fake = JObj [(''files'', JList [JObj [(''is_fake_high_res'', JBool True)]])]"

text \<open>At the witness a release with a fake-hi-res signal is imported without review, on the strength of an
  AccurateRip-verified log.\<close>

theorem pipeline_accept_sound_witness:
  "auto_import (vr_verification_decision
     (compute_verification demo_ctx ''j'' (Some ''AUTHENTIC'') None demo_fake 320 ''MP3-320'' 1000 [] ''t'' 0 0 0)) \<and>
   has_fake_hi_res_signal demo_fake \<and> ir_decision (pc_identity demo_ctx) \<in> {SAME_RELEASE, SAME_FAMILY}"
proof -
  have a: "auto_import (vr_verification_decision
     (compute_verification demo_ctx ''j'' (Some ''AUTHENTIC'') None demo_fake 320 ''MP3-320'' 1000 [] ''t'' 0 0 0))"
    by (simp add: compute_verification_decision scored_def demo_ctx_def demo_fake_def validator_error_of_def
        codec_mismatch_of_def has_fake_hi_res_signal_def apply_overrides_def adjusted_audio_decision_def
        apply_cd_rip_scoring_def decide_def combine_audio_identity_decision_def apply_track_count_guard_def
        edition_track_count_mismatch_def track_count_undercount_mismatch_def auto_import_def str_or_def
        truthy_str_def Let_def)
  moreover have "has_fake_hi_res_signal demo_fake" by (simp add: has_fake_hi_res_signal_def demo_fake_def)
  ultimately show ?thesis using pipeline_accept_sound[OF a] by simp
qed

lemma view_integrity_ok: "dget ''integrity_ok'' (decision_evidence_view fs lroot r) \<noteq> JBool False"
  by (simp add: decision_evidence_view_def row_dict_def jbit_def jopt_def Let_def split: option.split)

text \<open>Stored corruption never reaches the decision. Whatever the evidence table says, the roll-up that the
  measured-existing adjustment is based on reports no invalid track: the column is read back as the
  integer 0, which is not the object \<open>False\<close> the roll-up looks for. In particular, a candidate of the
  same tier that completes nothing is never an upgrade over an existing release all of whose tracks
  failed to decode.\<close>

theorem stored_corruption_ignored:
  assumes "album_quality (measured_existing_rows fs lroot edb ids) = Some q"
  shows "\<not> aq_any_invalid q \<and> aq_all_valid q \<and>
    (\<forall>c inc integ. cq_tier c = aq_min_tier q \<and> \<not> cq_complete c \<longrightarrow> compare c (Some q) inc False integ \<noteq> UPGRADE)"
proof -
  let ?m = "filter (\<lambda>r. dget ''status'' r = JStr ''measured'') (measured_existing_rows fs lroot edb ids)"
  have v: "\<forall>r\<in>set ?m. dget ''integrity_ok'' r \<noteq> JBool False"
    using view_integrity_ok by (auto simp: measured_existing_rows_def Let_def)
  have inv: "\<not> aq_any_invalid q" using album_quality_SomeD(5)[OF assms] v by blast
  moreover have "aq_all_valid q"
    using assms v by (auto simp: album_quality_def Let_def split: if_splits)
  ultimately show ?thesis by (auto simp: compare_def)
qed

text \<open>At the witness the only track of the album is stored as failing to decode, with fresh evidence.\<close>

definition demo_corrupt :: lib_row where
  "demo_corrupt = demo_row\<lparr>le_album_id := Some 5, le_status := Some ''measured'', le_lossless := Some True,
     le_sensor_version := Some METADATA_SENSOR_VERSION\<rparr>"

lemma demo_corrupt_rows:
  "measured_existing_rows demo_fs ''/lib'' \<lparr>edb_ready = True, edb_rows = [demo_corrupt]\<rparr> [5] =
     [decision_evidence_view demo_fs ''/lib'' demo_corrupt]"
proof -
  have "is_measured_row_fresh demo_fs ''/lib'' demo_corrupt" by code_simp
  moreover have "get_album_library_evidence 5 \<lparr>edb_ready = True, edb_rows = [demo_corrupt]\<rparr> = [demo_corrupt]"
    by (simp add: get_album_library_evidence_def demo_corrupt_def)
  ultimately show ?thesis by (simp add: measured_existing_rows_def)
qed

theorem stored_corruption_ignored_witness:
  "le_integrity_ok demo_corrupt = Some False \<and> is_integrity_row_fresh demo_fs ''/lib'' demo_corrupt \<and>
   (\<exists>q. album_quality (measured_existing_rows demo_fs ''/lib'' \<lparr>edb_ready = True, edb_rows = [demo_corrupt]\<rparr> [5])
      = Some q \<and> \<not> aq_any_invalid q)"
proof -
  have "dget ''status'' (decision_evidence_view demo_fs ''/lib'' demo_corrupt) = JStr ''measured''"
    by (simp add: decision_evidence_view_def row_dict_def jopt_def demo_corrupt_def Let_def)
  then obtain q where q: "album_quality (measured_existing_rows demo_fs ''/lib''
      \<lparr>edb_ready = True, edb_rows = [demo_corrupt]\<rparr> [5]) = Some q"
    using album_quality_measured[of "[decision_evidence_view demo_fs ''/lib'' demo_corrupt]"]
    by (auto simp: demo_corrupt_rows)
  have "is_integrity_row_fresh demo_fs ''/lib'' demo_corrupt" by code_simp
  moreover have "le_integrity_ok demo_corrupt = Some False" by (simp add: demo_corrupt_def demo_row_def)
  ultimately show ?thesis using stored_corruption_ignored[OF q] q by blast
qed

end
