(* ===== verification/Records.thy ===== *)
theory Records
  imports Sql_Table Py_Json "HOL-Library.List_Lexorder"
begin

text \<open>
  The state index of \<open>app/state_db.py\<close> for verification records: the \<open>records\<close> table, mirrored from
  the verification sidecars, the per-record sensor runs and file evidence, the action log and the
  connector configuration.

  A column that copies a sidecar value holds that value (\<open>json\<close>); JSON text columns hold the value
  that is dumped into them. Job ids are strings, and the time stamps of a sidecar are numbers. The
  connection is in autocommit mode, so a failing \<open>executemany\<close> keeps the rows inserted before the
  failure; \<open>insert_rows\<close> says so.
\<close>

record rec_row =
  rc_jid :: string
  rc_title :: json
  rc_album_ids :: json
  rc_created_at :: rat
  rc_updated_at :: rat
  rc_verification_decision :: json
  rc_import_outcome :: json
  rc_derived_status :: json
  rc_score :: json
  rc_verdict :: json
  rc_lifecycle_state :: json
  rc_actor :: json
  rc_discarded_at :: json
  rc_promoted_at :: json
  rc_expired_at :: json
  rc_source_type :: json

record sensor_row =
  sr_jid :: string
  sr_sensor_name :: json
  sr_sensor_class :: json
  sr_status :: json
  sr_severity :: json
  sr_confidence :: json
  sr_duration_ms :: json
  sr_evidence :: json

record file_row =
  fr_jid :: string
  fr_filename :: json
  fr_sample_rate :: json
  fr_bit_depth :: json
  fr_cutoff_hz :: json
  fr_nyquist_hz :: json
  fr_detective_verdict :: json
  fr_is_fake_high_res :: "int option"
  fr_estimated_mp3_bitrate :: json
  fr_evidence :: json

record action_row =
  ac_id :: int
  ac_jid :: string
  ac_action :: string
  ac_actor :: string
  ac_created_at :: rat
  ac_result :: string
  ac_details :: dict

record connector_row =
  cc_connector_id :: string
  cc_enabled :: int
  cc_mode :: string
  cc_updated_at :: rat
  cc_actor :: string

record records_db =
  rdb_ready :: bool
  rdb_records :: "rec_row list"
  rdb_sensors :: "sensor_row list"
  rdb_files :: "file_row list"
  rdb_actions :: "action_row list"
  rdb_next_action :: int
  rdb_connectors :: "connector_row list"

definition empty_records_db :: records_db where
  "empty_records_db = \<lparr>rdb_ready = True, rdb_records = [], rdb_sensors = [], rdb_files = [], rdb_actions = [],
     rdb_next_action = 1, rdb_connectors = []\<rparr>"

section \<open>Records\<close>

text \<open>\<open>COALESCE(x, y)\<close>.\<close>

definition coalesce_json :: "json \<Rightarrow> json \<Rightarrow> json" where
  "coalesce_json x y = (if x = JNull then y else x)"

definition merge_record :: "rec_row \<Rightarrow> rec_row \<Rightarrow> rec_row" where
  "merge_record old new =
     old\<lparr>rc_title := rc_title new, rc_album_ids := rc_album_ids new, rc_updated_at := rc_updated_at new,
         rc_verification_decision := rc_verification_decision new, rc_import_outcome := rc_import_outcome new,
         rc_derived_status := rc_derived_status new, rc_score := rc_score new, rc_verdict := rc_verdict new,
         rc_lifecycle_state := rc_lifecycle_state new, rc_actor := rc_actor new,
         rc_discarded_at := coalesce_json (rc_discarded_at new) (rc_discarded_at old),
         rc_promoted_at := coalesce_json (rc_promoted_at new) (rc_promoted_at old),
         rc_expired_at := coalesce_json (rc_expired_at new) (rc_expired_at old),
         rc_source_type := coalesce_json (rc_source_type new) (rc_source_type old)\<rparr>"

text \<open>\<open>float(v)\<close> of a number; \<open>None\<close> where it raises.\<close>

fun py_float :: "json \<Rightarrow> rat option" where
  "py_float (JFloat r) = Some r"
| "py_float (JInt n) = Some (fl (of_int n))"
| "py_float (JBool b) = Some (of_bool b)"
| "py_float _ = None"

definition record_row :: "rat \<Rightarrow> string \<Rightarrow> dict \<Rightarrow> json \<Rightarrow> rat \<Rightarrow> rec_row" where
  "record_row now jid sidecar derived_status created_at =
     (let lifecycle = as_dict (dget ''lifecycle'' sidecar) in
      \<lparr>rc_jid = jid, rc_title = dget_default ''title'' (JStr []) sidecar,
       rc_album_ids = py_or (dget ''album_ids'' sidecar) (JList []),
       rc_created_at = created_at, rc_updated_at = now,
       rc_verification_decision = dget ''v2_verification_decision'' sidecar,
       rc_import_outcome = dget ''v2_import_outcome'' sidecar, rc_derived_status = derived_status,
       rc_score = dget ''v2_score'' sidecar, rc_verdict = dget ''verdict'' sidecar,
       rc_lifecycle_state = dget ''state'' lifecycle, rc_actor = dget ''actor'' lifecycle,
       rc_discarded_at = dget ''discarded_at'' lifecycle, rc_promoted_at = dget ''promoted_at'' lifecycle,
       rc_expired_at = dget ''expired_at'' lifecycle,
       rc_source_type = py_or (dget ''source_type'' sidecar) (JStr ''tidal'')\<rparr>)"

definition sidecar_jid :: "dict \<Rightarrow> string option" where
  "sidecar_jid sidecar = (case dget ''jid'' sidecar of JStr s \<Rightarrow> if s = [] then None else Some s | _ \<Rightarrow> None)"

definition upsert_record :: "rat \<Rightarrow> dict \<Rightarrow> json \<Rightarrow> records_db \<Rightarrow> records_db" where
  "upsert_record now sidecar derived_status db =
     (if \<not> rdb_ready db then db
      else
        case sidecar_jid sidecar of
          None \<Rightarrow> db
        | Some jid \<Rightarrow>
            let lifecycle = as_dict (dget ''lifecycle'' sidecar) in
            (case py_float (py_or (dget ''created_at'' lifecycle) (py_or (dget ''ts'' sidecar) (JFloat now))) of
               None \<Rightarrow> db
             | Some created_at \<Rightarrow>
                 db\<lparr>rdb_records := upsert rc_jid merge_record (record_row now jid sidecar derived_status created_at)
                                     (rdb_records db)\<rparr>))"

definition get_record :: "string \<Rightarrow> records_db \<Rightarrow> rec_row option" where
  "get_record jid db = (if rdb_ready db then tfind rc_jid jid (rdb_records db) else None)"

definition set_outcome :: "rat \<Rightarrow> string \<Rightarrow> json \<Rightarrow> rec_row \<Rightarrow> rec_row" where
  "set_outcome now outcome_text derived_status r =
     r\<lparr>rc_import_outcome := JStr outcome_text, rc_derived_status := derived_status, rc_updated_at := now\<rparr>"

definition update_record_import_outcome :: "rat \<Rightarrow> string \<Rightarrow> string \<Rightarrow> json \<Rightarrow> records_db \<Rightarrow> rec_row option \<times> records_db" where
  "update_record_import_outcome now jid import_outcome derived_status db =
     (if \<not> rdb_ready db then (None, db)
      else if py_strip jid = [] \<or> py_strip import_outcome = [] then (None, db)
      else
        let P = (\<lambda>r. rc_jid r = py_strip jid);
            rows = tupdate P (set_outcome now (py_strip import_outcome) derived_status) (rdb_records db) in
        if rowcount P (rdb_records db) = 0 then (None, db\<lparr>rdb_records := rows\<rparr>)
        else (tfind rc_jid (py_strip jid) rows, db\<lparr>rdb_records := rows\<rparr>))"

definition score_key :: "json \<Rightarrow> rat" where
  "score_key v = (case v of JInt n \<Rightarrow> of_int n | JFloat r \<Rightarrow> r | _ \<Rightarrow> 0)"

definition order_records :: "string \<Rightarrow> rec_row list \<Rightarrow> rec_row list" where
  "order_records order rows =
     (if order = ''ts_asc'' then sort_key rc_created_at rows
      else if order = ''score_desc''
      then sort_key (\<lambda>r. - score_key (rc_score r)) (filter (\<lambda>r. rc_score r \<noteq> JNull) rows) @
           filter (\<lambda>r. rc_score r = JNull) rows
      else sort_key (\<lambda>r. - rc_created_at r) rows)"

definition list_records :: "string list \<Rightarrow> string list \<Rightarrow> string list \<Rightarrow> string list \<Rightarrow> int \<Rightarrow> int \<Rightarrow> string \<Rightarrow>
    records_db \<Rightarrow> int \<times> rec_row list" where
  "list_records decision outcome state status lmt offset order db =
     (if \<not> rdb_ready db then (0, [])
      else
        let sel = filter (\<lambda>r. opt_in (map JStr decision) (rc_verification_decision r) \<and>
                              opt_in (map JStr outcome) (rc_import_outcome r) \<and>
                              opt_in (map JStr state) (rc_lifecycle_state r) \<and>
                              opt_in (map JStr status) (rc_derived_status r)) (rdb_records db) in
        (int (length sel), sql_limit lmt offset (order_records order sel)))"

definition count_by_status :: "records_db \<Rightarrow> (json \<times> int) list" where
  "count_by_status db =
     (if \<not> rdb_ready db then []
      else map (\<lambda>s. (s, rowcount (\<lambda>r. rc_derived_status r = s) (rdb_records db)))
             (remdups (filter (\<lambda>s. s \<noteq> JNull) (map rc_derived_status (rdb_records db)))))"

section \<open>Sensor runs and file evidence\<close>

text \<open>\<open>executemany(INSERT ...)\<close> under autocommit: the first row that violates the primary key ends
  the statement, and what was inserted before it stays. A NULL in a key column never clashes.\<close>

fun insert_rows :: "('r \<Rightarrow> 'r \<Rightarrow> bool) \<Rightarrow> 'r list \<Rightarrow> 'r list \<Rightarrow> 'r list" where
  "insert_rows clash [] t = t"
| "insert_rows clash (r # rs) t =
     (if \<exists>x\<in>set t. clash x r then t else insert_rows clash rs (t @ [r]))"

definition sensor_clash :: "sensor_row \<Rightarrow> sensor_row \<Rightarrow> bool" where
  "sensor_clash x y \<longleftrightarrow> sr_jid x = sr_jid y \<and> sr_sensor_name x = sr_sensor_name y \<and> sr_sensor_name x \<noteq> JNull"

definition file_clash :: "file_row \<Rightarrow> file_row \<Rightarrow> bool" where
  "file_clash x y \<longleftrightarrow> fr_jid x = fr_jid y \<and> fr_filename x = fr_filename y \<and> fr_filename x \<noteq> JNull"

text \<open>The entries of a sidecar list that are dictionaries.\<close>

definition dicts_of :: "json list \<Rightarrow> dict list" where
  "dicts_of xs = concat (map (\<lambda>x. case x of JObj d \<Rightarrow> [d] | _ \<Rightarrow> []) xs)"

definition new_sensor_row :: "string \<Rightarrow> dict \<Rightarrow> sensor_row" where
  "new_sensor_row jid s =
     \<lparr>sr_jid = jid, sr_sensor_name = dget_default ''name'' (JStr []) s, sr_sensor_class = dget ''class'' s,
      sr_status = dget ''status'' s, sr_severity = dget ''severity'' s, sr_confidence = dget ''confidence'' s,
      sr_duration_ms = dget ''duration_ms'' s, sr_evidence = py_or (dget ''evidence'' s) (JObj [])\<rparr>"

definition upsert_sensor_runs :: "string \<Rightarrow> json list \<Rightarrow> records_db \<Rightarrow> records_db" where
  "upsert_sensor_runs jid sensors db =
     (if \<not> rdb_ready db \<or> jid = [] \<or> sensors = [] then db
      else
        let rows = map (new_sensor_row jid) (dicts_of sensors) in
        if rows = [] then db
        else db\<lparr>rdb_sensors := insert_rows sensor_clash rows (tdelete (\<lambda>r. sr_jid r = jid) (rdb_sensors db))\<rparr>)"

definition new_file_row :: "string \<Rightarrow> dict \<Rightarrow> file_row" where
  "new_file_row jid f =
     \<lparr>fr_jid = jid, fr_filename = py_or (dget ''filename'' f) (py_or (dget ''filepath'' f) (JStr [])),
      fr_sample_rate = dget ''sample_rate'' f, fr_bit_depth = dget ''bit_depth'' f,
      fr_cutoff_hz = py_or (dget ''cutoff_hz'' f) (dget ''cutoff_freq'' f), fr_nyquist_hz = dget ''nyquist_hz'' f,
      fr_detective_verdict = py_or (dget ''detective_verdict'' f) (dget ''verdict'' f),
      fr_is_fake_high_res = (if dget ''is_fake_high_res'' f = JNull then None
                             else Some (of_bool (truthy (dget ''is_fake_high_res'' f)))),
      fr_estimated_mp3_bitrate = dget ''estimated_mp3_bitrate'' f, fr_evidence = JObj f\<rparr>"

definition upsert_file_evidence :: "string \<Rightarrow> json list \<Rightarrow> records_db \<Rightarrow> records_db" where
  "upsert_file_evidence jid files db =
     (if \<not> rdb_ready db \<or> jid = [] \<or> files = [] then db
      else
        let rows = map (new_file_row jid) (dicts_of files) in
        if rows = [] then db
        else db\<lparr>rdb_files := insert_rows file_clash rows (tdelete (\<lambda>r. fr_jid r = jid) (rdb_files db))\<rparr>)"

definition upsert_from_sidecar :: "rat \<Rightarrow> dict \<Rightarrow> json \<Rightarrow> records_db \<Rightarrow> records_db" where
  "upsert_from_sidecar now sidecar derived_status db =
     (case sidecar_jid sidecar of
        None \<Rightarrow> db
      | Some jid \<Rightarrow>
          upsert_file_evidence jid (as_list (dget ''files'' sidecar))
            (upsert_sensor_runs jid (as_list (dget ''sensors'' sidecar))
              (upsert_record now sidecar derived_status db)))"

section \<open>Action log and connector configuration\<close>

definition log_action :: "rat \<Rightarrow> string \<Rightarrow> string \<Rightarrow> string \<Rightarrow> string \<Rightarrow> dict \<Rightarrow> records_db \<Rightarrow> records_db" where
  "log_action now jid action actor result details db =
     (if \<not> rdb_ready db \<or> jid = [] \<or> action = [] then db
      else db\<lparr>rdb_actions := rdb_actions db @
                [\<lparr>ac_id = rdb_next_action db, ac_jid = jid, ac_action = action, ac_actor = actor,
                  ac_created_at = now, ac_result = result, ac_details = details\<rparr>],
              rdb_next_action := rdb_next_action db + 1\<rparr>)"

definition list_actions :: "string option \<Rightarrow> int \<Rightarrow> records_db \<Rightarrow> action_row list" where
  "list_actions jid lmt db =
     (if \<not> rdb_ready db then []
      else
        let sel = (if truthy_str jid then filter (\<lambda>a. ac_jid a = the jid) (rdb_actions db) else rdb_actions db) in
        sql_limit lmt 0 (sort_key (\<lambda>a. - ac_created_at a) sel))"

text \<open>What the readers return: the row with \<open>enabled\<close> as a Boolean.\<close>

record connector_view =
  cv_connector_id :: string
  cv_enabled :: bool
  cv_mode :: string
  cv_updated_at :: rat
  cv_actor :: string

definition connector_config_row :: "connector_row \<Rightarrow> connector_view" where
  "connector_config_row r =
     \<lparr>cv_connector_id = cc_connector_id r, cv_enabled = (cc_enabled r \<noteq> 0), cv_mode = cc_mode r,
      cv_updated_at = cc_updated_at r, cv_actor = cc_actor r\<rparr>"

definition merge_connector :: "connector_row \<Rightarrow> connector_row \<Rightarrow> connector_row" where
  "merge_connector old new =
     old\<lparr>cc_enabled := cc_enabled new, cc_mode := cc_mode new, cc_updated_at := cc_updated_at new,
         cc_actor := cc_actor new\<rparr>"

definition get_connector_config :: "string \<Rightarrow> records_db \<Rightarrow> connector_view option" where
  "get_connector_config connector_id db =
     (if \<not> rdb_ready db \<or> connector_id = [] then None
      else map_option connector_config_row (tfind cc_connector_id connector_id (rdb_connectors db)))"

definition list_connector_config :: "records_db \<Rightarrow> (string \<times> connector_view) list" where
  "list_connector_config db =
     (if \<not> rdb_ready db then []
      else map (\<lambda>r. (cc_connector_id r, connector_config_row r))
             (sort_key (\<lambda>r. map (of_char :: char \<Rightarrow> nat) (cc_connector_id r)) (rdb_connectors db)))"

definition set_connector_config :: "rat \<Rightarrow> string \<Rightarrow> bool \<Rightarrow> string \<Rightarrow> string \<Rightarrow> records_db \<Rightarrow>
    connector_view option \<times> records_db" where
  "set_connector_config now connector_id enabled mode actor db =
     (if \<not> rdb_ready db \<or> connector_id = [] then (None, db)
      else
        (Some \<lparr>cv_connector_id = connector_id, cv_enabled = enabled, cv_mode = mode, cv_updated_at = now,
               cv_actor = actor\<rparr>,
         db\<lparr>rdb_connectors := upsert cc_connector_id merge_connector
              \<lparr>cc_connector_id = connector_id, cc_enabled = of_bool enabled, cc_mode = mode,
               cc_updated_at = now, cc_actor = actor\<rparr> (rdb_connectors db)\<rparr>))"

section \<open>Contracts of the tables\<close>

interpretation record_table: upsert_table rc_jid merge_record
  by unfold_locales (simp add: merge_record_def)

interpretation connector_table: upsert_table cc_connector_id merge_connector
  by unfold_locales (simp add: merge_connector_def)

text \<open>Rows owned by a job id that are replaced together. What is inserted is the longest prefix of the
  new rows without a clash, and rows of other owners play no part.\<close>

locale owned_rows =
  fixes owner :: "'r \<Rightarrow> string" and clash :: "'r \<Rightarrow> 'r \<Rightarrow> bool"
  assumes clash_owner: "clash x y \<Longrightarrow> owner x = owner y"
begin

lemma insert_rows_prefix:
  "\<exists>n\<le>length rows. insert_rows clash rows t = t @ take n rows \<and>
     (\<forall>i<n. \<forall>x\<in>set t \<union> set (take i rows). \<not> clash x (rows ! i)) \<and>
     (n < length rows \<longrightarrow> (\<exists>x\<in>set t \<union> set (take n rows). clash x (rows ! n)))"
proof (induction rows arbitrary: t)
  case Nil
  show ?case by simp
next
  case (Cons r rows)
  show ?case
  proof (cases "\<exists>x\<in>set t. clash x r")
    case True
    then show ?thesis by (intro exI[of _ 0]) auto
  next
    case False
    obtain n where n: "n \<le> length rows" "insert_rows clash rows (t @ [r]) = (t @ [r]) @ take n rows"
      "\<forall>i<n. \<forall>x\<in>set (t @ [r]) \<union> set (take i rows). \<not> clash x (rows ! i)"
      "n < length rows \<longrightarrow> (\<exists>x\<in>set (t @ [r]) \<union> set (take n rows). clash x (rows ! n))"
      using Cons.IH[of "t @ [r]"] by blast
    have "\<forall>i<Suc n. \<forall>x\<in>set t \<union> set (take i (r # rows)). \<not> clash x ((r # rows) ! i)"
      using False n(3) by (auto simp: less_Suc_eq_0_disj)
    with False n(1,2,4) show ?thesis by (intro exI[of _ "Suc n"]) auto
  qed
qed

lemma replace_rows_prefix:
  assumes "\<forall>r\<in>set rows. owner r = j"
  shows "\<exists>n\<le>length rows.
    insert_rows clash rows (tdelete (\<lambda>r. owner r = j) t) = tdelete (\<lambda>r. owner r = j) t @ take n rows \<and>
    (\<forall>i<n. \<forall>x\<in>set (take i rows). \<not> clash x (rows ! i)) \<and>
    (n < length rows \<longrightarrow> (\<exists>x\<in>set (take n rows). clash x (rows ! n)))"
proof -
  have other: "\<not> clash x (rows ! i)" if "x \<in> set (tdelete (\<lambda>r. owner r = j) t)" "i < length rows" for x i
    using that assms clash_owner[of x "rows ! i"] by (auto simp: tdelete_def)
  obtain n where n: "n \<le> length rows"
    "insert_rows clash rows (tdelete (\<lambda>r. owner r = j) t) = tdelete (\<lambda>r. owner r = j) t @ take n rows"
    "\<forall>i<n. \<forall>x\<in>set (tdelete (\<lambda>r. owner r = j) t) \<union> set (take i rows). \<not> clash x (rows ! i)"
    "n < length rows \<longrightarrow> (\<exists>x\<in>set (tdelete (\<lambda>r. owner r = j) t) \<union> set (take n rows). clash x (rows ! n))"
    using insert_rows_prefix[of rows "tdelete (\<lambda>r. owner r = j) t"] by blast
  with other show ?thesis by blast
qed

lemma replace_rows_all:
  assumes own: "\<forall>r\<in>set rows. owner r = j" and free: "sorted_wrt (\<lambda>x y. \<not> clash x y) rows"
  shows "insert_rows clash rows (tdelete (\<lambda>r. owner r = j) t) = tdelete (\<lambda>r. owner r = j) t @ rows"
proof -
  obtain n where n: "n \<le> length rows"
    "insert_rows clash rows (tdelete (\<lambda>r. owner r = j) t) = tdelete (\<lambda>r. owner r = j) t @ take n rows"
    "n < length rows \<longrightarrow> (\<exists>x\<in>set (take n rows). clash x (rows ! n))"
    using replace_rows_prefix[OF own, of t] by blast
  have "\<not> n < length rows"
  proof
    assume l: "n < length rows"
    then obtain i where "i < n" "clash (rows ! i) (rows ! n)"
      using n(3) by (auto simp: in_set_conv_nth)
    with l free show False by (auto simp: sorted_wrt_iff_nth_less)
  qed
  with n(1,2) show ?thesis by simp
qed

lemma replace_rows_stops:
  assumes own: "\<forall>r\<in>set (xs @ y # zs). owner r = j" and dup: "x \<in> set xs" "clash x y"
  shows "\<exists>n\<le>length xs. insert_rows clash (xs @ y # zs) (tdelete (\<lambda>r. owner r = j) t) =
    tdelete (\<lambda>r. owner r = j) t @ take n xs"
proof -
  let ?rows = "xs @ y # zs"
  obtain n where n: "n \<le> length ?rows"
    "insert_rows clash ?rows (tdelete (\<lambda>r. owner r = j) t) = tdelete (\<lambda>r. owner r = j) t @ take n ?rows"
    "\<forall>i<n. \<forall>x\<in>set (take i ?rows). \<not> clash x (?rows ! i)"
    using replace_rows_prefix[OF own, of t] by blast
  have "n \<le> length xs"
  proof (rule ccontr)
    assume "\<not> n \<le> length xs"
    then have "length xs < n" by simp
    from n(3)[rule_format, OF this, of x] dup show False by simp
  qed
  with n(2) show ?thesis by (intro exI[of _ n]) simp
qed

end

interpretation sensor_rows: owned_rows sr_jid sensor_clash
  by unfold_locales (simp add: sensor_clash_def)

interpretation file_rows: owned_rows fr_jid file_clash
  by unfold_locales (simp add: file_clash_def)

lemma new_row_owner [simp]:
  "sr_jid (new_sensor_row jid s) = jid" "fr_jid (new_file_row jid f) = jid"
  by (simp_all add: new_sensor_row_def new_file_row_def)

lemma clash_free_rows:
  "distinct (map sr_sensor_name ss) \<Longrightarrow> sorted_wrt (\<lambda>x y. \<not> sensor_clash x y) ss"
  "distinct (map fr_filename fs) \<Longrightarrow> sorted_wrt (\<lambda>x y. \<not> file_clash x y) fs"
  by (auto simp: sensor_clash_def file_clash_def sorted_wrt_iff_nth_less distinct_conv_nth)

lemma child_upserts_keep:
  "rdb_ready (upsert_sensor_runs j ss db) = rdb_ready db"
  "rdb_records (upsert_sensor_runs j ss db) = rdb_records db"
  "rdb_files (upsert_sensor_runs j ss db) = rdb_files db"
  "rdb_ready (upsert_file_evidence j fs db) = rdb_ready db"
  "rdb_records (upsert_file_evidence j fs db) = rdb_records db"
  "rdb_sensors (upsert_file_evidence j fs db) = rdb_sensors db"
  by (simp_all add: upsert_sensor_runs_def upsert_file_evidence_def Let_def)

lemma upsert_record_keeps:
  "rdb_ready (upsert_record now sc ds db) = rdb_ready db"
  "rdb_sensors (upsert_record now sc ds db) = rdb_sensors db"
  "rdb_files (upsert_record now sc ds db) = rdb_files db"
  by (simp_all add: upsert_record_def Let_def split: option.split)

lemmas mirror_keeps = child_upserts_keep upsert_record_keeps

section \<open>Properties\<close>

definition sidecar_created_at :: "rat \<Rightarrow> dict \<Rightarrow> rat option" where
  "sidecar_created_at now sc =
     py_float (py_or (dget ''created_at'' (as_dict (dget ''lifecycle'' sc))) (py_or (dget ''ts'' sc) (JFloat now)))"

lemma upsert_record_ready:
  assumes "rdb_ready db" "sidecar_jid sc = Some jid" "sidecar_created_at now sc = Some c"
  shows "rdb_records (upsert_record now sc ds db) =
    upsert rc_jid merge_record (record_row now jid sc ds c) (rdb_records db)"
  using assms by (simp add: upsert_record_def sidecar_created_at_def Let_def)

lemma record_row_sel [simp]:
  "rc_jid (record_row now jid sc ds c) = jid" "rc_created_at (record_row now jid sc ds c) = c"
  "rc_updated_at (record_row now jid sc ds c) = now"
  "rc_verification_decision (record_row now jid sc ds c) = dget ''v2_verification_decision'' sc"
  "rc_import_outcome (record_row now jid sc ds c) = dget ''v2_import_outcome'' sc"
  "rc_derived_status (record_row now jid sc ds c) = ds"
  by (simp_all add: record_row_def Let_def)

text \<open>(C13) Mirroring a sidecar into the state index. The record read back has the decision, the outcome and
  the derived status of the sidecar and the first creation time ever stored; a discard, promotion or
  expiry time once recorded is never erased; and no other record changes.\<close>

theorem record_roundtrip:
  assumes "rdb_ready db" "sidecar_jid sc = Some jid" "sidecar_created_at now sc = Some c"
  shows "\<exists>row. get_record jid (upsert_from_sidecar now sc ds db) = Some row \<and>
      rc_verification_decision row = dget ''v2_verification_decision'' sc \<and>
      rc_import_outcome row = dget ''v2_import_outcome'' sc \<and> rc_derived_status row = ds \<and>
      rc_created_at row = (case get_record jid db of None \<Rightarrow> c | Some old \<Rightarrow> rc_created_at old) \<and>
      (\<forall>old. get_record jid db = Some old \<longrightarrow>
         (rc_discarded_at old \<noteq> JNull \<longrightarrow> rc_discarded_at row \<noteq> JNull) \<and>
         (rc_promoted_at old \<noteq> JNull \<longrightarrow> rc_promoted_at row \<noteq> JNull) \<and>
         (rc_expired_at old \<noteq> JNull \<longrightarrow> rc_expired_at row \<noteq> JNull)) \<and>
      (\<forall>k. k \<noteq> jid \<longrightarrow> get_record k (upsert_from_sidecar now sc ds db) = get_record k db)"
proof -
  have "get_record k (upsert_from_sidecar now sc ds db) =
      (if k = jid then Some (case get_record k db of None \<Rightarrow> record_row now jid sc ds c
         | Some old \<Rightarrow> merge_record old (record_row now jid sc ds c))
       else get_record k db)" for k
    using assms(1,2) unfolding get_record_def upsert_from_sidecar_def
    by (simp add: mirror_keeps upsert_record_ready[OF assms] record_table.find_upsert)
  then show ?thesis
    by (auto simp: merge_record_def coalesce_json_def split: option.split)
qed

text \<open>The sensor runs and file evidence of a record. When sensor names and file names do not repeat,
  the rows of the job become exactly those of the sidecar, and an empty list leaves the old rows in
  place; rows of other jobs are kept in every case.\<close>

theorem sidecar_children_replaced:
  assumes "rdb_ready db" "jid \<noteq> []"
    and "distinct (map (\<lambda>s. dget_default ''name'' (JStr []) s) (dicts_of sensors))"
    and "distinct (map (\<lambda>f. py_or (dget ''filename'' f) (py_or (dget ''filepath'' f) (JStr []))) (dicts_of files))"
  shows "rdb_sensors (upsert_sensor_runs jid sensors db) =
      (if dicts_of sensors = [] then rdb_sensors db
       else filter (\<lambda>r. sr_jid r \<noteq> jid) (rdb_sensors db) @ map (new_sensor_row jid) (dicts_of sensors)) \<and>
    rdb_files (upsert_file_evidence jid files db) =
      (if dicts_of files = [] then rdb_files db
       else filter (\<lambda>r. fr_jid r \<noteq> jid) (rdb_files db) @ map (new_file_row jid) (dicts_of files))"
proof -
  have e: "dicts_of [] = []" by (simp add: dicts_of_def)
  have s: "sorted_wrt (\<lambda>x y. \<not> sensor_clash x y) (map (new_sensor_row jid) (dicts_of sensors))"
    using assms(3) by (intro clash_free_rows) (simp add: comp_def new_sensor_row_def)
  have f: "sorted_wrt (\<lambda>x y. \<not> file_clash x y) (map (new_file_row jid) (dicts_of files))"
    using assms(4) by (intro clash_free_rows) (simp add: comp_def new_file_row_def)
  show ?thesis
    using assms(1,2) e sensor_rows.replace_rows_all[OF _ s, of jid "rdb_sensors db"]
      file_rows.replace_rows_all[OF _ f, of jid "rdb_files db"]
    by (auto simp: upsert_sensor_runs_def upsert_file_evidence_def Let_def tdelete_def)
qed

text \<open>A repeated file name truncates the file evidence. File names are stored without their directory,
  so the two discs of an album may both have a \<open>01.flac\<close>. From the first repetition on, no file of
  the new list is stored, and the old rows are gone.\<close>

theorem duplicate_filename_truncates:
  assumes "rdb_ready db" "jid \<noteq> []" "dicts_of files = xs @ y # zs"
    and "x \<in> set xs" "dget ''filename'' x = JStr n" "dget ''filename'' y = JStr n" "n \<noteq> []"
  shows "\<exists>m\<le>length xs. rdb_files (upsert_file_evidence jid files db) =
    filter (\<lambda>r. fr_jid r \<noteq> jid) (rdb_files db) @ map (new_file_row jid) (take m xs)"
proof -
  let ?row = "new_file_row jid"
  have c: "file_clash (?row x) (?row y)"
    using assms(5-7) by (simp add: file_clash_def new_file_row_def py_or_def)
  have own: "\<forall>r\<in>set (map ?row xs @ ?row y # map ?row zs). fr_jid r = jid" by auto
  obtain m where "m \<le> length xs"
    "insert_rows file_clash (map ?row xs @ ?row y # map ?row zs) (tdelete (\<lambda>r. fr_jid r = jid) (rdb_files db)) =
      tdelete (\<lambda>r. fr_jid r = jid) (rdb_files db) @ map ?row (take m xs)"
    using file_rows.replace_rows_stops[OF own _ c, of "rdb_files db"] assms(4) by (auto simp: take_map)
  moreover have "files \<noteq> []" using assms(3) by (auto simp: dicts_of_def)
  ultimately show ?thesis
    using assms(1-3) by (auto simp: upsert_file_evidence_def Let_def tdelete_def)
qed

definition demo_sidecar :: dict where
  "demo_sidecar = [(''jid'', JStr ''j1''), (''ts'', JFloat 7), (''v2_import_outcome'', JStr ''PENDING''),
     (''v2_verification_decision'', JStr ''ACCEPT'')]"

theorem record_roundtrip_witness:
  "\<exists>row. get_record ''j1'' (upsert_from_sidecar 9 demo_sidecar (JStr ''pending'') empty_records_db) = Some row \<and>
     rc_import_outcome row = JStr ''PENDING'' \<and> rc_created_at row = 7"
proof -
  have h: "rdb_ready empty_records_db" "sidecar_jid demo_sidecar = Some ''j1''"
    "sidecar_created_at 9 demo_sidecar = Some 7" "get_record ''j1'' empty_records_db = None"
    "dget ''v2_import_outcome'' demo_sidecar = JStr ''PENDING''"
    by (simp_all add: empty_records_db_def demo_sidecar_def sidecar_jid_def sidecar_created_at_def py_or_def
        get_record_def)
  show ?thesis using record_roundtrip[OF h(1-3), of "JStr ''pending''"] by (auto simp: h)
qed

definition demo_discs :: "json list" where
  "demo_discs = [JObj [(''filename'', JStr ''01.flac''), (''disc'', JInt 1)],
                 JObj [(''filename'', JStr ''01.flac''), (''disc'', JInt 2)],
                 JObj [(''filename'', JStr ''02.flac''), (''disc'', JInt 2)]]"

theorem sidecar_children_replaced_witness:
  "length (rdb_files (upsert_file_evidence ''j1'' (tl demo_discs) empty_records_db)) = 2"
  using sidecar_children_replaced[of empty_records_db "''j1''" "[]" "tl demo_discs"]
  by (simp add: empty_records_db_def demo_discs_def dicts_of_def py_or_def)

theorem duplicate_filename_truncates_witness:
  "length (rdb_files (upsert_file_evidence ''j1'' demo_discs empty_records_db)) \<le> 1"
proof -
  have d: "dicts_of demo_discs = [[(''filename'', JStr ''01.flac''), (''disc'', JInt 1)]] @
      [(''filename'', JStr ''01.flac''), (''disc'', JInt 2)] #
      [[(''filename'', JStr ''02.flac''), (''disc'', JInt 2)]]"
    by (simp add: demo_discs_def dicts_of_def)
  have r: "rdb_ready empty_records_db" "rdb_files empty_records_db = []" by (simp_all add: empty_records_db_def)
  have "\<exists>m\<le>1. rdb_files (upsert_file_evidence ''j1'' demo_discs empty_records_db) =
      map (new_file_row ''j1'') (take m [[(''filename'', JStr ''01.flac''), (''disc'', JInt 1)]])"
    using duplicate_filename_truncates[OF r(1) _ d list.set_intros(1), of "''j1''" "''01.flac''"] by (simp add: r)
  then show ?thesis by auto
qed

end
