(* ===== verification/Lidarr_Records.thy ===== *)
theory Lidarr_Records
  imports Py_Json
begin

text \<open>
  Reading identifiers out of the JSON records of Lidarr (\<open>_int_or_none\<close> and
  \<open>_lidarr_album_id_from_record\<close> of \<open>app/server.py\<close>).
\<close>

text \<open>\<open>int(x)\<close> of a float.\<close>

definition py_trunc :: "rat \<Rightarrow> int" where
  "py_trunc x = (if x < 0 then - \<lfloor>- x\<rfloor> else \<lfloor>x\<rfloor>)"

definition joptstr :: "string option \<Rightarrow> json" where
  "joptstr x = (case x of None \<Rightarrow> JNull | Some s \<Rightarrow> JStr s)"

definition int_or_none :: "json \<Rightarrow> int option" where
  "int_or_none v =
     (let parsed = (case v of
                      JInt n \<Rightarrow> Some n
                    | JBool b \<Rightarrow> Some (of_bool b)
                    | JFloat r \<Rightarrow> Some (py_trunc r)
                    | JStr s \<Rightarrow> if s = [] then None else py_int s
                    | _ \<Rightarrow> None) in
      case parsed of None \<Rightarrow> None | Some n \<Rightarrow> if n > 0 then Some n else None)"

definition lidarr_album_id_from_record :: "dict \<Rightarrow> int option" where
  "lidarr_album_id_from_record r =
     (let v = (if dget ''albumId'' r = JNull then dget ''id'' (as_dict (dget ''album'' r)) else dget ''albumId'' r) in
      case v of
        JInt n \<Rightarrow> Some n
      | JBool b \<Rightarrow> Some (of_bool b)
      | JFloat x \<Rightarrow> Some (py_trunc x)
      | JStr s \<Rightarrow> if s = [] then None else py_int s
      | _ \<Rightarrow> None)"

end
