(* ===== verification/Backend_Lane.thy ===== *)
theory Backend_Lane
  imports Worker Album_Holds Backend_Jobs Records Decision_Pipeline Lidarr_Records
begin

text \<open>
  The Mintarr-managed download-backend lane of \<open>app/server.py\<close>: polling the backend and reconciling
  the durable row with it, projecting the row to the queue that Lidarr sees, handing a completed
  download to the worker queue, mirroring the outcome back, and honouring a cancel from Lidarr.

  The state has the four tables involved, the verification sidecars on disk (by path; \<open>None\<close> for a file
  that does not parse), the in-memory queue projection \<open>_jobs\<close> and the cancel requests sent to
  backends. The backend clients, Lidarr and the configured directories are parameters (\<open>lane_env\<close>).
  HTTP handlers run one at a time (one gunicorn worker without threads), so each handler is one step;
  within it \<open>time.time()\<close> is taken to be one value \<open>now\<close>.
\<close>

record backend_status =
  st_state :: string
  st_progress :: rat
  st_completed_path :: "string option"
  st_display_name :: "string option"

text \<open>A status poll returns \<open>None\<close> when it raises.\<close>

record backend_client =
  bc_status :: "string \<Rightarrow> backend_status option"
  bc_download_root :: string

record lane_env =
  env_client :: "string \<Rightarrow> backend_client option"
  env_infer_album :: "string \<Rightarrow> int option"
  env_queue_record :: "string \<Rightarrow> dict option"
  env_cwd :: string
  env_output_base :: string
  env_archive_dirs :: "string list"

record lane =
  ln_backend :: backend_db
  ln_jobs :: jobs_db
  ln_holds :: holds_db
  ln_records :: records_db
  ln_sidecars :: "(string \<times> dict option) list"
  ln_proj :: "(string \<times> dict) list"
  ln_cancels :: "(string \<times> string) list"

definition proj_of :: "string \<Rightarrow> lane \<Rightarrow> dict option" where
  "proj_of jid lan = map_of (ln_proj lan) jid"

definition set_proj :: "string \<Rightarrow> dict \<Rightarrow> lane \<Rightarrow> lane" where
  "set_proj jid d lan = lan\<lparr>ln_proj := AList.update jid d (ln_proj lan)\<rparr>"

definition str_of :: "json \<Rightarrow> string option" where
  "str_of v = (case v of JStr s \<Rightarrow> if s = [] then None else Some s | _ \<Rightarrow> None)"

section \<open>Projection\<close>

definition backend_state_to_jobs_status :: "string \<Rightarrow> string" where
  "backend_state_to_jobs_status lifecycle =
     (if lifecycle = ''failed'' then ''failed''
      else if lifecycle \<in> {''completed'', ''importing'', ''review''} then ''processing''
      else ''downloading'')"

definition generic_backend_release_title :: "string option \<Rightarrow> string option \<Rightarrow> bool" where
  "generic_backend_release_title title backend_id =
     (if \<not> truthy_str title then True
      else truthy_str backend_id \<and> the title = ''backend release '' @ the backend_id)"

definition review_closed_statuses :: "string list" where
  "review_closed_statuses =
     [''blocked'', ''discarded'', ''expired'', ''failed'', ''imported'', ''policy_violation'', ''promoted'']"

definition backend_review_row_visible :: "backend_job \<Rightarrow> lane \<Rightarrow> bool" where
  "backend_review_row_visible row lan =
     (case get_record (bj_jid row) (ln_records lan) of
        None \<Rightarrow> True
      | Some rec \<Rightarrow> rc_derived_status rec \<notin> JStr ` set review_closed_statuses)"

definition new_projection :: "rat \<Rightarrow> string \<Rightarrow> backend_job \<Rightarrow> dict" where
  "new_projection now jid job =
     [(''id'', JStr jid), (''category'', JStr (bj_category job)), (''title'', JStr (str_or (bj_release_title job) jid)),
      (''size'', JInt 0), (''source_type'', JStr (bj_source_type job)), (''source_id'', joptstr (bj_backend_job_id job)),
      (''created_at'', JFloat (if bj_created_at job = 0 then now else bj_created_at job))]"

definition restore_backend_review_projection :: "lane_env \<Rightarrow> rat \<Rightarrow> string \<Rightarrow> backend_job \<Rightarrow> string \<Rightarrow> string \<Rightarrow>
    lane \<Rightarrow> lane" where
  "restore_backend_review_projection env now jid job source_type backend_id lan =
     (let display =
            (case env_client env source_type of
               None \<Rightarrow> []
             | Some client \<Rightarrow>
                 if generic_backend_release_title (bj_release_title job) (Some backend_id)
                 then (case bc_status client backend_id of
                         None \<Rightarrow> [] | Some st \<Rightarrow> py_strip (str_or (st_display_name st) []))
                 else []);
          (job', lan1) =
            (if display \<noteq> [] \<and> Some display \<noteq> bj_release_title job
             then (case update_backend_job now jid (no_patch\<lparr>bp_release_title := Some display\<rparr>) (ln_backend lan) of
                     (None, db) \<Rightarrow> (job, lan\<lparr>ln_backend := db\<rparr>)
                   | (Some j, db) \<Rightarrow> (j, lan\<lparr>ln_backend := db\<rparr>))
             else (job, lan));
          base = (case proj_of jid lan1 of
                    Some p \<Rightarrow> p
                  | None \<Rightarrow>
                      [(''id'', JStr jid), (''category'', JStr (bj_category job')), (''size'', JInt 0),
                       (''source_type'', JStr source_type), (''source_id'', JStr backend_id),
                       (''created_at'', JFloat (if bj_created_at job' = 0 then now else bj_created_at job'))]) in
      set_proj jid
        (dset ''percent'' (JInt 100) (dset ''lidarr_hold'' (JBool True)
          (dset ''status'' (JStr ''review_required'')
            (dset ''title'' (JStr (str_or (bj_release_title job') jid)) base)))) lan1)"

definition capture_backend_target_album_id :: "lane_env \<Rightarrow> rat \<Rightarrow> string \<Rightarrow> backend_job \<Rightarrow> lane \<Rightarrow> backend_job \<times> lane" where
  "capture_backend_target_album_id env now jid job lan =
     (if bj_target_album_id job \<noteq> None then (job, lan)
      else
        case env_infer_album env jid of
          None \<Rightarrow> (job, lan)
        | Some album_id \<Rightarrow>
            (case update_backend_job now jid (no_patch\<lparr>bp_target_album_id := Some album_id\<rparr>) (ln_backend lan) of
               (None, db) \<Rightarrow> (job, lan\<lparr>ln_backend := db\<rparr>)
             | (Some updated, db) \<Rightarrow>
                 let lan1 = lan\<lparr>ln_backend := db\<rparr> in
                 (updated,
                  case proj_of jid lan1 of
                    None \<Rightarrow> lan1
                  | Some p \<Rightarrow> set_proj jid (dset ''target_album_id'' (JInt album_id) p) lan1)))"

section \<open>Handing a completed download to the worker\<close>

text \<open>\<open>os.path.relpath\<close>.\<close>

definition abs_comps :: "string \<Rightarrow> string \<Rightarrow> string list" where
  "abs_comps cwd p =
     norm_comps True [] (split_char (CHR ''/'') (if prefix ''/'' p then p else cwd @ ''/'' @ p))"

fun common_len :: "string list \<Rightarrow> string list \<Rightarrow> nat" where
  "common_len (x # xs) (y # ys) = (if x = y then Suc (common_len xs ys) else 0)"
| "common_len _ _ = 0"

definition relpath :: "string \<Rightarrow> string \<Rightarrow> string \<Rightarrow> string" where
  "relpath cwd p start =
     (let ps = abs_comps cwd p; ss = abs_comps cwd start; i = common_len ss ps;
          rel = replicate (length ss - i) ''..'' @ drop i ps in
      if rel = [] then ''.'' else py_join ''/'' rel)"

definition ingest_payload :: "string \<Rightarrow> string \<Rightarrow> backend_job \<Rightarrow> dict" where
  "ingest_payload jid rel job =
     [(''source_id'', JStr rel), (''title'', JStr (str_or (bj_release_title job) jid)),
      (''category'', JStr (bj_category job))] @
     (case bj_target_album_id job of None \<Rightarrow> [] | Some a \<Rightarrow> [(''target_album_id'', JInt a)])"

definition ingest_key :: "string \<Rightarrow> string" where
  "ingest_key jid = ''backend:'' @ jid"

definition start_backend_ingest :: "lane_env \<Rightarrow> rat \<Rightarrow> string \<Rightarrow> backend_job \<Rightarrow> string \<Rightarrow> backend_client \<Rightarrow> lane \<Rightarrow> lane" where
  "start_backend_ingest env now jid job completed_path client lan =
     (if bc_download_root client = [] then lan
      else
        let rel = relpath (env_cwd env) completed_path (bc_download_root client) in
        if rel = [] \<or> prefix ''..'' rel \<or> prefix ''/'' rel then lan
        else
          case update_backend_job now jid (no_patch\<lparr>bp_state := Some ''importing''\<rparr>) (ln_backend lan) of
            (None, db) \<Rightarrow> lan\<lparr>ln_backend := db\<rparr>
          | (Some _, db) \<Rightarrow>
              let (enq, jobs) = enqueue_job now jid ''backend_completed_grab'' (ingest_payload jid rel job)
                    (Some (ingest_key jid)) (Some ''backend_completed'') (Some rel) 5 3 (ln_jobs lan) in
              (case enq of
                 Some i \<Rightarrow>
                   if i = 0
                   then lan\<lparr>ln_backend := snd (update_backend_job now jid (no_patch\<lparr>bp_state := Some ''completed''\<rparr>) db),
                           ln_jobs := jobs\<rparr>
                   else lan\<lparr>ln_backend := db, ln_jobs := jobs\<rparr>
               | None \<Rightarrow>
                   lan\<lparr>ln_backend := snd (update_backend_job now jid (no_patch\<lparr>bp_state := Some ''completed''\<rparr>) db),
                      ln_jobs := jobs\<rparr>))"

section \<open>Reconciliation\<close>

definition reconcile_with_status :: "lane_env \<Rightarrow> rat \<Rightarrow> string \<Rightarrow> backend_job \<Rightarrow> backend_status \<Rightarrow> backend_client \<Rightarrow>
    lane \<Rightarrow> lane" where
  "reconcile_with_status env now jid job st client lan =
     (let current = bj_state job;
          new_state = next_lifecycle_state current (st_state st);
          state_changed = (new_state \<noteq> current);
          path_new = (truthy_str (st_completed_path st) \<and> st_completed_path st \<noteq> bj_backend_path job);
          display = py_strip (str_or (st_display_name st) []);
          title_new = (display \<noteq> [] \<and> generic_backend_release_title (bj_release_title job) (bj_backend_job_id job) \<and>
                       Some display \<noteq> bj_release_title job);
          persisted =
            (if state_changed \<or> path_new \<or> title_new
             then (case update_backend_job now jid
                          (no_patch\<lparr>bp_state := (if state_changed then Some new_state else None),
                                    bp_backend_path := (if path_new then st_completed_path st else None),
                                    bp_release_title := (if title_new then Some display else None),
                                    bp_finished := (new_state \<in> set BACKEND_JOB_TERMINAL_STATES)\<rparr>) (ln_backend lan) of
                     (None, db) \<Rightarrow> (None, lan\<lparr>ln_backend := db\<rparr>)
                   | (Some j, db) \<Rightarrow> (Some j, lan\<lparr>ln_backend := db\<rparr>))
             else (Some job, lan)) in
      case persisted of
        (None, lan1) \<Rightarrow> lan1
      | (Some job', lan1) \<Rightarrow>
          let base = (case proj_of jid lan1 of Some p \<Rightarrow> p | None \<Rightarrow> new_projection now jid job');
              proj = dset ''percent'' (JInt (max 0 (min 100 (py_trunc (st_progress st)))))
                       (dset ''status'' (JStr (backend_state_to_jobs_status new_state))
                         (dset ''title'' (JStr (str_or (bj_release_title job') jid)) base));
              lan2 = set_proj jid proj lan1 in
          if new_state = ''completed'' \<and> truthy_str (st_completed_path st)
          then start_backend_ingest env now jid job' (the (st_completed_path st)) client lan2
          else lan2)"

definition reconcile_backend_job :: "lane_env \<Rightarrow> rat \<Rightarrow> backend_job \<Rightarrow> lane \<Rightarrow> lane" where
  "reconcile_backend_job env now job lan =
     (let jid = bj_jid job in
      if jid = [] \<or> \<not> truthy_str (bj_backend_job_id job) then lan
      else
        let backend_id = the (bj_backend_job_id job) in
        if bj_state job = ''importing'' then lan
        else if bj_state job = ''review'' then
          (if backend_review_row_visible job lan
           then restore_backend_review_projection env now jid job (bj_source_type job) backend_id lan else lan)
        else
          case env_client env (bj_source_type job) of
            None \<Rightarrow> lan
          | Some client \<Rightarrow>
              (case capture_backend_target_album_id env now jid job lan of
                 (job1, lan1) \<Rightarrow>
                   (case bc_status client backend_id of
                      None \<Rightarrow> lan1
                    | Some st \<Rightarrow> reconcile_with_status env now jid job1 st client lan1)))"

definition reconcile_backend_jobs :: "lane_env \<Rightarrow> rat \<Rightarrow> lane \<Rightarrow> lane" where
  "reconcile_backend_jobs env now lan =
     fold (reconcile_backend_job env now) (list_active_backend_jobs (ln_backend lan)) lan"

section \<open>The outcome of an ingest\<close>

definition backend_ingest_outcome :: "string \<Rightarrow> lane \<Rightarrow> string" where
  "backend_ingest_outcome jid lan =
     (if jid = [] then ''imported''
      else
        let proj = (case proj_of jid lan of None \<Rightarrow> [] | Some p \<Rightarrow> p) in
        if truthy (dget ''lidarr_hold'' proj) \<or> dget ''status'' proj = JStr ''review_required'' then ''review''
        else if dget ''status'' proj = JStr ''failed'' then ''failed''
        else ''imported'')"

section \<open>Queue projection of import outcomes\<close>

definition proj_default :: "string \<Rightarrow> lane \<Rightarrow> dict" where
  "proj_default jid lan = (case proj_of jid lan of Some p \<Rightarrow> p | None \<Rightarrow> [(''id'', JStr jid)])"

definition mark_import_failed :: "rat \<Rightarrow> string \<Rightarrow> string \<Rightarrow> lane \<Rightarrow> lane" where
  "mark_import_failed now jid reason lan =
     set_proj jid (dpop ''lidarr_hold'' (dupdate
       [(''status'', JStr ''failed''), (''error'', JStr reason), (''completed_at'', JFloat now),
        (''percent'', JInt 100), (''hidden_from_lidarr'', JBool True)] (proj_default jid lan))) lan"

definition mark_import_completed :: "rat \<Rightarrow> string \<Rightarrow> string option \<Rightarrow> lane \<Rightarrow> lane" where
  "mark_import_completed now jid output_dir lan =
     set_proj jid (dpop ''lidarr_hold'' (dupdate
       ([(''status'', JStr ''completed''), (''completed_at'', JFloat now), (''percent'', JInt 100),
         (''hidden_from_lidarr'', JBool True)] @
        (case output_dir of None \<Rightarrow> [] | Some d \<Rightarrow> [(''output_dir'', JStr d)])) (proj_default jid lan))) lan"

definition mark_review_required :: "lane_env \<Rightarrow> rat \<Rightarrow> string \<Rightarrow> string \<Rightarrow> lane \<Rightarrow> lane" where
  "mark_review_required env now jid reason lan =
     set_proj jid (dpop ''hidden_from_lidarr'' (dupdate
       [(''status'', JStr ''review_required''), (''lidarr_hold'', JBool True), (''warning'', JStr reason),
        (''review_required_at'', JFloat now), (''completed_at'', JFloat now),
        (''output_dir'', JStr (env_output_base env @ ''/'' @ jid)), (''percent'', JInt 100)]
       (proj_default jid lan))) lan"

section \<open>Sidecars and the record audit\<close>

definition sidecar_candidates :: "lane_env \<Rightarrow> string \<Rightarrow> lane \<Rightarrow> string list" where
  "sidecar_candidates env jid lan =
     (case proj_of jid lan of
        None \<Rightarrow> []
      | Some p \<Rightarrow> (case str_of (dget ''output_dir'' p) of None \<Rightarrow> [] | Some d \<Rightarrow> [d @ ''/verification.json''])) @
     [env_output_base env @ ''/'' @ jid @ ''/verification.json''] @
     map (\<lambda>d. d @ ''/'' @ jid @ ''.json'') (env_archive_dirs env)"

definition find_verification_sidecar :: "lane_env \<Rightarrow> string \<Rightarrow> lane \<Rightarrow> string option" where
  "find_verification_sidecar env jid lan =
     List.find (\<lambda>p. map_of (ln_sidecars lan) p \<noteq> None) (sidecar_candidates env jid lan)"

definition read_verification_sidecar :: "lane_env \<Rightarrow> string \<Rightarrow> lane \<Rightarrow> (string \<times> dict) option" where
  "read_verification_sidecar env jid lan =
     (case find_verification_sidecar env jid lan of
        None \<Rightarrow> None
      | Some p \<Rightarrow> (case map_of (ln_sidecars lan) p of Some (Some d) \<Rightarrow> Some (p, d) | _ \<Rightarrow> None))"

definition write_sidecar :: "string \<Rightarrow> dict \<Rightarrow> lane \<Rightarrow> lane" where
  "write_sidecar p d lan = lan\<lparr>ln_sidecars := AList.update p (Some d) (ln_sidecars lan)\<rparr>"

definition finalize_imported_backend_record :: "lane_env \<Rightarrow> rat \<Rightarrow> string \<Rightarrow> lane \<Rightarrow> bool \<times> lane" where
  "finalize_imported_backend_record env now jid lan =
     (if jid = [] then (False, lan)
      else
        let closed =
              (case read_verification_sidecar env jid lan of
                 Some (p, record) \<Rightarrow>
                   if dget ''v2_import_outcome'' record \<notin> {JStr ''PENDING'', JStr ''MANUAL_IMPORTED''}
                   then (False, lan)
                   else
                     let record' = dset ''v2_import_outcome'' (JStr ''MANUAL_IMPORTED'') record;
                         lan1 = write_sidecar p record' lan in
                     (True, lan1\<lparr>ln_records := upsert_from_sidecar now record' (JStr (derive_status record'))
                                    (ln_records lan1)\<rparr>)
               | None \<Rightarrow>
                   (case update_record_import_outcome now jid ''MANUAL_IMPORTED'' (JStr ''imported'') (ln_records lan) of
                      (None, db) \<Rightarrow> (False, lan\<lparr>ln_records := db\<rparr>)
                    | (Some _, db) \<Rightarrow> (True, lan\<lparr>ln_records := db\<rparr>))) in
        case closed of
          (False, lan1) \<Rightarrow> (False, lan1)
        | (True, lan1) \<Rightarrow>
            let output_dir = (case proj_of jid lan1 of None \<Rightarrow> None | Some p \<Rightarrow> str_of (dget ''output_dir'' p)) in
            (True, mark_import_completed now jid
                     (Some (case output_dir of Some d \<Rightarrow> d | None \<Rightarrow> env_output_base env @ ''/'' @ jid)) lan1))"

definition list_imported_backend_jobs_with_pending_records :: "int \<Rightarrow> backend_db \<Rightarrow> records_db \<Rightarrow> backend_job list" where
  "list_imported_backend_jobs_with_pending_records lmt bdb rdb =
     (if \<not> bdb_ready bdb then []
      else sql_limit lmt 0 (sort_key (\<lambda>r. - bj_updated_at r)
             (filter (\<lambda>b. bj_state b = ''imported'' \<and>
                (\<exists>r\<in>set (rdb_records rdb). rc_jid r = bj_jid b \<and> rc_import_outcome r = JStr ''PENDING'')) (bdb_rows bdb))))"

definition reconcile_imported_backend_record_audits :: "lane_env \<Rightarrow> rat \<Rightarrow> lane \<Rightarrow> lane" where
  "reconcile_imported_backend_record_audits env now lan =
     fold (\<lambda>row l. snd (finalize_imported_backend_record env now (bj_jid row) l))
       (list_imported_backend_jobs_with_pending_records 1000 (ln_backend lan) (ln_records lan)) lan"

text \<open>The row is read and then updated whatever it says by then: \<open>others\<close> is what the requests and the other threads do in
  between.\<close>

definition mirror_backend_ingest_outcome :: "lane_env \<Rightarrow> rat \<Rightarrow> (lane \<Rightarrow> lane) \<Rightarrow> string \<Rightarrow> string \<Rightarrow> lane \<Rightarrow> lane" where
  "mirror_backend_ingest_outcome env now others jid state lan =
     (if jid = [] then lan
      else
        case get_backend_job jid (ln_backend lan) of
          None \<Rightarrow> lan
        | Some job \<Rightarrow>
            if bj_state job \<noteq> ''importing'' then lan
            else
              let lan1 = others lan in
              (case update_backend_job now jid
                      (no_patch\<lparr>bp_state := Some state, bp_finished := (state \<in> set BACKEND_JOB_TERMINAL_STATES)\<rparr>)
                      (ln_backend lan1) of
                 (None, db) \<Rightarrow> lan1\<lparr>ln_backend := db\<rparr>
               | (Some _, db) \<Rightarrow>
                   if state = ''imported''
                   then snd (finalize_imported_backend_record env now jid (lan1\<lparr>ln_backend := db\<rparr>))
                   else lan1\<lparr>ln_backend := db\<rparr>))"

text \<open>The executor of the worker for this lane; \<open>grab\<close> is the source pipeline, which may raise.\<close>

definition execute_backend_completed_grab_job :: "lane_env \<Rightarrow> rat \<Rightarrow> (lane \<Rightarrow> lane) \<Rightarrow> (string \<Rightarrow> lane \<Rightarrow> ('e + 'r) \<times> lane) \<Rightarrow> string \<Rightarrow>
    lane \<Rightarrow> ('e + 'r) \<times> lane" where
  "execute_backend_completed_grab_job env now others grab jid lan =
     (case grab jid lan of
        (Inl e, lan1) \<Rightarrow> (Inl e, mirror_backend_ingest_outcome env now others jid ''failed'' lan1)
      | (Inr x, lan1) \<Rightarrow> (Inr x, mirror_backend_ingest_outcome env now others jid (backend_ingest_outcome jid lan1) lan1))"

section \<open>Cancellation\<close>

text \<open>The details stored with a hold. Lidarr's texts are strings or missing.\<close>

definition album_hold_details_from_lidarr_record :: "dict option \<Rightarrow> dict" where
  "album_hold_details_from_lidarr_record rec =
     (case rec of
        None \<Rightarrow> []
      | Some r \<Rightarrow>
          let album = as_dict (dget ''album'' r); artist = as_dict (dget ''artist'' r);
              album_artist = as_dict (dget ''artist'' album);
              artist_name = py_or (dget ''artistName'' album_artist) (py_or (dget ''name'' album_artist)
                              (py_or (dget ''artistName'' artist) (dget ''name'' artist)));
              d1 = (if truthy (dget ''title'' album) then [(''album_title'', dget ''title'' album)] else []);
              d2 = (if truthy artist_name then d1 @ [(''artist'', artist_name)] else d1);
              d3 = (if truthy (dget ''title'' r) then d2 @ [(''download_title'', dget ''title'' r)] else d2) in
          if dget ''id'' r \<notin> {JNull, JStr []} then d3 @ [(''lidarr_queue_id'', dget ''id'' r)] else d3)"

text \<open>The handler is called with a worker job or with a backend row; \<open>cancel_source\<close> is what it reads
  of either.\<close>

record cancel_source =
  cs_payload :: dict
  cs_target_album_id :: json
  cs_source_type :: "string option"
  cs_source_id :: "string option"
  cs_release_title :: "string option"

definition source_of_job :: "job \<Rightarrow> cancel_source" where
  "source_of_job j = \<lparr>cs_payload = job_payload j, cs_target_album_id = JNull, cs_source_type = job_source_type j,
     cs_source_id = job_source_id j, cs_release_title = None\<rparr>"

definition source_of_backend :: "backend_job \<Rightarrow> cancel_source" where
  "source_of_backend r = \<lparr>cs_payload = [],
     cs_target_album_id = (case bj_target_album_id r of None \<Rightarrow> JNull | Some a \<Rightarrow> JInt a),
     cs_source_type = Some (bj_source_type r), cs_source_id = None, cs_release_title = bj_release_title r\<rparr>"

definition first_some :: "'a option \<Rightarrow> 'a option \<Rightarrow> 'a option" where
  "first_some x y = (case x of None \<Rightarrow> y | Some v \<Rightarrow> Some v)"

definition create_album_hold_for_cancel :: "lane_env \<Rightarrow> rat \<Rightarrow> string \<Rightarrow> cancel_source \<Rightarrow> lane \<Rightarrow> lane" where
  "create_album_hold_for_cancel env now value src lan =
     (let projected = (case proj_of value lan of None \<Rightarrow> [] | Some p \<Rightarrow> p);
          known = first_some (int_or_none (dget ''target_album_id'' (cs_payload src)))
                    (first_some (int_or_none (cs_target_album_id src)) (int_or_none (dget ''target_album_id'' projected)));
          queue_record = (if known = None then env_queue_record env value else None);
          album_id = (if known = None then (case queue_record of None \<Rightarrow> None | Some r \<Rightarrow> lidarr_album_id_from_record r)
                      else known) in
      case album_id of
        None \<Rightarrow> lan
      | Some a \<Rightarrow>
          let source_type = (if truthy_str (cs_source_type src) then cs_source_type src
                             else str_of (dget ''source_type'' projected));
              source_id = (if truthy_str (cs_source_id src) then cs_source_id src
                           else str_of (dget ''source_id'' projected));
              d1 = dsetdefault ''download_id'' (JStr value) (album_hold_details_from_lidarr_record queue_record);
              d2 = (if truthy_str (cs_release_title src)
                    then dsetdefault ''download_title'' (joptstr (cs_release_title src)) d1 else d1) in
          lan\<lparr>ln_holds := snd (create_album_hold now a ''operator_cancelled_active_grab'' None None (Some value)
                source_type source_id (Some ''lidarr_delete'') d2 (ln_holds lan))\<rparr>)"

definition cancel_backend_job_if_any :: "lane_env \<Rightarrow> rat \<Rightarrow> string \<Rightarrow> lane \<Rightarrow> bool option \<times> lane" where
  "cancel_backend_job_if_any env now jid lan =
     (case get_backend_job jid (ln_backend lan) of
        None \<Rightarrow> (None, lan)
      | Some job \<Rightarrow>
          if bj_state job \<in> set BACKEND_JOB_TERMINAL_STATES then (Some True, lan)
          else
            (case update_backend_job now jid (no_patch\<lparr>bp_state := Some ''cancelled'', bp_finished := True\<rparr>)
                    (ln_backend lan) of
               (None, db) \<Rightarrow> (Some False, lan\<lparr>ln_backend := db\<rparr>)
             | (Some _, db) \<Rightarrow>
                 let lan1 = lan\<lparr>ln_backend := db\<rparr>;
                     lan2 = (if env_client env (bj_source_type job) \<noteq> None \<and> truthy_str (bj_backend_job_id job)
                             then lan1\<lparr>ln_cancels := ln_cancels lan1 @ [(bj_source_type job, the (bj_backend_job_id job))]\<rparr>
                             else lan1) in
                 (Some True, create_album_hold_for_cancel env now jid (source_of_backend job) lan2)))"

definition mark_backend_job_discarded :: "rat \<Rightarrow> string \<Rightarrow> lane \<Rightarrow> lane" where
  "mark_backend_job_discarded now jid lan =
     (case get_backend_job jid (ln_backend lan) of
        None \<Rightarrow> lan
      | Some job \<Rightarrow>
          if bj_state job \<in> set BACKEND_JOB_TERMINAL_STATES then lan
          else lan\<lparr>ln_backend := snd (update_backend_job now jid
                   (no_patch\<lparr>bp_state := Some ''cancelled'', bp_finished := True\<rparr>) (ln_backend lan))\<rparr>)"

definition hide_from_lidarr :: "string \<Rightarrow> lane \<Rightarrow> lane" where
  "hide_from_lidarr jid lan =
     (case proj_of jid lan of
        None \<Rightarrow> lan
      | Some p \<Rightarrow> set_proj jid (dset ''hidden_from_lidarr'' (JBool True) p) lan)"

text \<open>The worker half of the handler.\<close>

definition cancel_worker_job :: "lane_env \<Rightarrow> rat \<Rightarrow> string \<Rightarrow> lane \<Rightarrow> lane" where
  "cancel_worker_job env now value lan =
     (case get_active_job_by_jid value (ln_jobs lan) of
        None \<Rightarrow> lan
      | Some j \<Rightarrow>
          (case request_job_cancel (job_id j) (ln_jobs lan) of
             (True, jobs) \<Rightarrow> create_album_hold_for_cancel env now value (source_of_job j) (lan\<lparr>ln_jobs := jobs\<rparr>)
           | (False, jobs) \<Rightarrow> lan\<lparr>ln_jobs := jobs\<rparr>))"

definition cancel_and_hide_job :: "lane_env \<Rightarrow> rat \<Rightarrow> string \<Rightarrow> lane \<Rightarrow> lane" where
  "cancel_and_hide_job env now value lan =
     (if value = [] then lan
      else
        let lan1 = cancel_worker_job env now value lan;
            (r, lan2) = cancel_backend_job_if_any env now value lan1 in
        if r = Some False then lan2 else hide_from_lidarr value lan2)"

definition visible_in_sab_queue :: "string \<Rightarrow> dict \<Rightarrow> lane \<Rightarrow> bool" where
  "visible_in_sab_queue jid job lan =
     (if truthy (dget ''hidden_from_lidarr'' job) then False
      else
        case get_backend_job jid (ln_backend lan) of
          Some b \<Rightarrow>
            if bj_state b \<in> set BACKEND_JOB_TERMINAL_STATES then False
            else dget ''status'' job \<in> {JStr ''queued'', JStr ''downloading'', JStr ''processing''} \<or>
                 truthy (dget ''lidarr_hold'' job)
        | None \<Rightarrow> dget ''status'' job \<in> {JStr ''queued'', JStr ''downloading'', JStr ''processing''} \<or>
                 truthy (dget ''lidarr_hold'' job))"

section \<open>What one handler may touch\<close>

abbreviation row_of :: "string \<Rightarrow> lane \<Rightarrow> backend_job option" where
  "row_of jid lan \<equiv> tfind bj_jid jid (bdb_rows (ln_backend lan))"

definition has_ingest_job :: "string \<Rightarrow> lane \<Rightarrow> bool" where
  "has_ingest_job jid lan \<longleftrightarrow>
     (\<exists>j\<in>set (jobs_rows (ln_jobs lan)). active j \<and> job_dedupe_key j = Some (ingest_key jid))"

text \<open>A handler for \<open>jid\<close> leaves the rows and projections of other jobs alone and removes no worker job.\<close>

definition lane_frame :: "string \<Rightarrow> lane \<Rightarrow> lane \<Rightarrow> bool" where
  "lane_frame jid lan lan' \<longleftrightarrow>
     bdb_ready (ln_backend lan') = bdb_ready (ln_backend lan) \<and>
     (\<forall>k. k \<noteq> jid \<longrightarrow> row_of k lan' = row_of k lan \<and> proj_of k lan' = proj_of k lan) \<and>
     set (jobs_rows (ln_jobs lan)) \<subseteq> set (jobs_rows (ln_jobs lan'))"

lemma lane_frame_refl [simp]: "lane_frame jid lan lan"
  by (simp add: lane_frame_def)

lemma lane_frame_trans: "lane_frame jid a b \<Longrightarrow> lane_frame jid b c \<Longrightarrow> lane_frame jid a c"
  by (auto simp: lane_frame_def)

lemma proj_of_set_proj [simp]: "proj_of k (set_proj jid d lan) = (if k = jid then Some d else proj_of k lan)"
  by (simp add: proj_of_def set_proj_def update_conv')

lemma proj_of_update [simp]:
  "proj_of k (lan\<lparr>ln_backend := b\<rparr>) = proj_of k lan" "proj_of k (lan\<lparr>ln_jobs := j\<rparr>) = proj_of k lan"
  "proj_of k (lan\<lparr>ln_records := r\<rparr>) = proj_of k lan" "proj_of k (lan\<lparr>ln_holds := h\<rparr>) = proj_of k lan"
  "proj_of k (lan\<lparr>ln_sidecars := f\<rparr>) = proj_of k lan" "proj_of k (lan\<lparr>ln_cancels := c\<rparr>) = proj_of k lan"
  by (simp_all add: proj_of_def)

lemma set_proj_keeps [simp]:
  "ln_backend (set_proj jid d lan) = ln_backend lan" "ln_jobs (set_proj jid d lan) = ln_jobs lan"
  "ln_holds (set_proj jid d lan) = ln_holds lan" "ln_records (set_proj jid d lan) = ln_records lan"
  "ln_cancels (set_proj jid d lan) = ln_cancels lan"
  by (simp_all add: set_proj_def)

lemma lane_frame_proj [simp]: "lane_frame jid lan (set_proj jid d lan)"
  by (simp add: lane_frame_def)

lemma update_backend_ready [simp]: "bdb_ready (snd (update_backend_job now jid p db)) = bdb_ready db"
  by (simp add: update_backend_job_def Let_def)

lemma update_backend_other:
  "k \<noteq> jid \<Longrightarrow> tfind bj_jid k (bdb_rows (snd (update_backend_job now jid p db))) = tfind bj_jid k (bdb_rows db)"
proof (cases "bdb_ready db \<and> (\<forall>s. bp_state p = Some s \<longrightarrow> s \<in> set BACKEND_JOB_STATES)")
  case True
  then show "k \<noteq> jid \<Longrightarrow> ?thesis" by (subst find_update_backend_job) auto
next
  case False
  then show ?thesis by (auto simp: update_backend_job_def split: option.splits)
qed

lemma update_backend_frame: "lane_frame jid lan (lan\<lparr>ln_backend := snd (update_backend_job now jid p (ln_backend lan))\<rparr>)"
  by (simp add: lane_frame_def update_backend_other)

lemma update_backend_hit:
  assumes "bdb_ready db" "\<And>s. bp_state p = Some s \<Longrightarrow> s \<in> set BACKEND_JOB_STATES" "tfind bj_jid jid (bdb_rows db) = Some r"
  obtains db' where "update_backend_job now jid p db = (Some (patch_backend_job now p r), db')"
    "tfind bj_jid jid (bdb_rows db') = Some (patch_backend_job now p r)" "db' = snd (update_backend_job now jid p db)"
proof -
  let ?P = "\<lambda>r. bj_jid r = jid" and ?db = "snd (update_backend_job now jid p db)"
  have f: "tfind bj_jid jid (bdb_rows ?db) = Some (patch_backend_job now p r)"
    using assms by (subst find_update_backend_job) auto
  have "r \<in> set (bdb_rows db)" "bj_jid r = jid" using assms(3) by (auto dest: tfind_SomeD)
  then have "0 < rowcount ?P (bdb_rows db)" by (auto simp: rowcount_pos)
  then have "update_backend_job now jid p db = (tfind bj_jid jid (bdb_rows ?db), ?db)"
    using assms(1,2) by (auto simp: update_backend_job_def Let_def split: option.splits)
  with f that[of ?db] show thesis by simp
qed

lemma ingest_states_valid [simp]:
  "''importing'' \<in> set BACKEND_JOB_STATES" "''completed'' \<in> set BACKEND_JOB_STATES"
  "''cancelled'' \<in> set BACKEND_JOB_STATES" "''failed'' \<in> set BACKEND_JOB_STATES"
  "''imported'' \<in> set BACKEND_JOB_STATES" "''review'' \<in> set BACKEND_JOB_STATES"
  "''queued'' \<in> set BACKEND_JOB_STATES" "''downloading'' \<in> set BACKEND_JOB_STATES"
  by (simp_all add: BACKEND_JOB_STATES_def)

lemma no_patch_sel [simp]:
  "bp_state no_patch = None" "bp_backend_job_id no_patch = None" "bp_finished no_patch = False"
  by (simp_all add: no_patch_def)

lemma patch_finished: "bp_finished p \<Longrightarrow> bj_finished_at (patch_backend_job now p r) = Some now"
  by (simp add: patch_backend_job_def Let_def)

lemma enqueue_ingest:
  assumes "enqueue_job now jid ty pl (Some (ingest_key k)) src sid prio m db = (Some i, db')"
  shows "set (jobs_rows db) \<subseteq> set (jobs_rows db') \<and>
    (\<exists>j\<in>set (jobs_rows db'). active j \<and> job_dedupe_key j = Some (ingest_key k))"
  using assms
proof (cases rule: enqueue_job_cases)
  case (existing key j)
  then show ?thesis by (auto dest: active_by_dedupe_SomeD)
next
  case fresh
  then show ?thesis by (auto simp: new_job_def ACTIVE_JOB_STATES_def)
qed simp

lemma enqueue_grows:
  "enqueue_job now jid ty pl dk src sid prio m db = (r, db') \<Longrightarrow> set (jobs_rows db) \<subseteq> set (jobs_rows db')"
  by (erule enqueue_job_cases) auto

section \<open>Reconciliation is durable first\<close>

lemma start_backend_ingest_sound:
  assumes "bdb_ready (ln_backend lan)" "row_of jid lan = Some r" "bj_state r = ''completed''"
    and eq: "lan' = start_backend_ingest env now jid job path client lan"
  shows "lane_frame jid lan lan' \<and> proj_of jid lan' = proj_of jid lan \<and>
    (\<exists>r'. row_of jid lan' = Some r' \<and>
       (bj_state r' = ''completed'' \<or> bj_state r' = ''importing'' \<and> has_ingest_job jid lan'))"
proof -
  let ?rel = "relpath (env_cwd env) path (bc_download_root client)"
  let ?importing = "no_patch\<lparr>bp_state := Some ''importing''\<rparr>" and ?undo = "no_patch\<lparr>bp_state := Some ''completed''\<rparr>"
  show ?thesis
  proof (cases "bc_download_root client = [] \<or> ?rel = [] \<or> prefix ''..'' ?rel \<or> prefix ''/'' ?rel")
    case True
    then have "lan' = lan" unfolding eq start_backend_ingest_def by (auto simp: Let_def)
    with assms(2,3) show ?thesis by simp
  next
    case go: False
    obtain db where u: "update_backend_job now jid ?importing (ln_backend lan) = (Some (patch_backend_job now ?importing r), db)"
      "tfind bj_jid jid (bdb_rows db) = Some (patch_backend_job now ?importing r)"
      "db = snd (update_backend_job now jid ?importing (ln_backend lan))"
      by (rule update_backend_hit[OF assms(1) _ assms(2), of ?importing]) auto
    obtain enq jobs where e: "enqueue_job now jid ''backend_completed_grab'' (ingest_payload jid ?rel job)
        (Some (ingest_key jid)) (Some ''backend_completed'') (Some ?rel) 5 3 (ln_jobs lan) = (enq, jobs)"
      by (meson surj_pair)
    have grows: "set (jobs_rows (ln_jobs lan)) \<subseteq> set (jobs_rows jobs)" using enqueue_grows[OF e] .
    have ready: "bdb_ready db" using assms(1) u(3) by simp
    obtain db2 where v: "update_backend_job now jid ?undo db = (Some (patch_backend_job now ?undo (patch_backend_job now ?importing r)), db2)"
      "tfind bj_jid jid (bdb_rows db2) = Some (patch_backend_job now ?undo (patch_backend_job now ?importing r))"
      "db2 = snd (update_backend_job now jid ?undo db)"
      by (rule update_backend_hit[OF ready _ u(2), of ?undo]) auto
    have lan': "lan' = (if enq \<noteq> None \<and> enq \<noteq> Some 0 then lan\<lparr>ln_backend := db, ln_jobs := jobs\<rparr>
        else lan\<lparr>ln_backend := db2, ln_jobs := jobs\<rparr>)"
      unfolding eq start_backend_ingest_def Let_def using go by (simp add: u(1) e v(1) split: option.split)
    have frame: "lane_frame jid lan lan'"
      unfolding lan' lane_frame_def using grows by (auto simp: u(3) v(3) update_backend_other)
    have job: "has_ingest_job jid lan'" if "enq \<noteq> None" "enq \<noteq> Some 0"
    proof -
      from that obtain i where "enq = Some i" by auto
      with e have "enqueue_job now jid ''backend_completed_grab'' (ingest_payload jid ?rel job)
        (Some (ingest_key jid)) (Some ''backend_completed'') (Some ?rel) 5 3 (ln_jobs lan) = (Some i, jobs)" by simp
      from enqueue_ingest[OF this] that show ?thesis unfolding lan' by (simp add: has_ingest_job_def)
    qed
    show ?thesis
      using frame job u(2) v(2) unfolding lan' by auto
  qed
qed

definition shown_status :: "string \<Rightarrow> string" where
  "shown_status state = (if state = ''review'' then ''review_required'' else backend_state_to_jobs_status state)"

definition proj_status :: "string \<Rightarrow> lane \<Rightarrow> json option" where
  "proj_status jid lan = map_option (dget ''status'') (proj_of jid lan)"

text \<open>What a pass promises for one job: the row is still there, states owned by others are kept, an import
  is only recorded with a worker job behind it, and the projection is as before or shows the durable
  state.\<close>

definition owned_state :: "string \<Rightarrow> bool" where
  "owned_state s \<longleftrightarrow> s \<in> set BACKEND_JOB_TERMINAL_STATES \<or> s = ''importing'' \<or> s = ''review''"

definition reconciled :: "string \<Rightarrow> backend_job \<Rightarrow> lane \<Rightarrow> lane \<Rightarrow> bool" where
  "reconciled jid row lan lan' \<longleftrightarrow>
     (\<exists>row'. row_of jid lan' = Some row' \<and>
        (owned_state (bj_state row) \<longrightarrow> bj_state row' = bj_state row) \<and>
        (bj_state row' = ''importing'' \<longrightarrow> bj_state row = ''importing'' \<or> has_ingest_job jid lan') \<and>
        (proj_status jid lan' = proj_status jid lan \<or>
         proj_status jid lan' = Some (JStr (shown_status (bj_state row')))))"

lemma reconciled_refl: "row_of jid lan = Some row \<Longrightarrow> reconciled jid row lan lan"
  by (simp add: reconciled_def)

lemma capture_target_sound:
  assumes "bdb_ready (ln_backend lan)" "row_of jid lan = Some job"
    and "capture_backend_target_album_id env now jid job lan = (job1, lan1)"
  shows "lane_frame jid lan lan1 \<and> row_of jid lan1 = Some job1 \<and> bj_state job1 = bj_state job \<and>
    proj_status jid lan1 = proj_status jid lan \<and> ln_jobs lan1 = ln_jobs lan"
proof (cases "bj_target_album_id job \<noteq> None \<or> env_infer_album env jid = None")
  case True
  then have "job1 = job" "lan1 = lan" using assms(3) by (auto simp: capture_backend_target_album_id_def split: if_splits option.splits)
  with assms(2) show ?thesis by simp
next
  case False
  then obtain a where a: "env_infer_album env jid = Some a" "bj_target_album_id job = None" by auto
  let ?p = "no_patch\<lparr>bp_target_album_id := Some a\<rparr>"
  obtain db where u: "update_backend_job now jid ?p (ln_backend lan) = (Some (patch_backend_job now ?p job), db)"
    "tfind bj_jid jid (bdb_rows db) = Some (patch_backend_job now ?p job)"
    "db = snd (update_backend_job now jid ?p (ln_backend lan))"
    by (rule update_backend_hit[OF assms(1) _ assms(2), of ?p]) auto
  have f: "lane_frame jid lan (lan\<lparr>ln_backend := db\<rparr>)" unfolding u(3) by (rule update_backend_frame)
  show ?thesis
    using assms(3) a f u(2) lane_frame_trans[OF f lane_frame_proj]
    by (auto simp: capture_backend_target_album_id_def u(1) Let_def proj_status_def split: option.splits)
qed

lemma next_lifecycle_keeps:
  "next_lifecycle_state s b \<in> set BACKEND_JOB_STATES \<or> next_lifecycle_state s b = s"
  "owned_state s \<Longrightarrow> next_lifecycle_state s b = s"
  "next_lifecycle_state s b = ''importing'' \<Longrightarrow> s = ''importing''"
  "next_lifecycle_state s b = ''review'' \<Longrightarrow> s = ''review''"
  by (simp_all add: next_lifecycle_state_def owned_state_def split: if_splits)

text \<open>The persisted part of a status report: after it the row has the new state.\<close>

lemma persist_status:
  assumes ready: "bdb_ready (ln_backend lan)" and row: "row_of jid lan = Some job"
    and valid: "bj_state job \<in> set BACKEND_JOB_STATES"
    and p: "bp_state p = (if s \<noteq> bj_state job then Some s else None)" and s: "s \<in> set BACKEND_JOB_STATES \<or> s = bj_state job"
  obtains job' db where "update_backend_job now jid p (ln_backend lan) = (Some job', db)"
    "bj_state job' = s" "tfind bj_jid jid (bdb_rows db) = Some job'" "lane_frame jid lan (lan\<lparr>ln_backend := db\<rparr>)"
    "bdb_ready db"
proof -
  have v: "t \<in> set BACKEND_JOB_STATES" if "bp_state p = Some t" for t
    using that p s valid by (auto split: if_splits)
  obtain db where u: "update_backend_job now jid p (ln_backend lan) = (Some (patch_backend_job now p job), db)"
    "tfind bj_jid jid (bdb_rows db) = Some (patch_backend_job now p job)"
    "db = snd (update_backend_job now jid p (ln_backend lan))"
    using update_backend_hit[OF ready v row] by metis
  have "bj_state (patch_backend_job now p job) = s" using p by (simp split: option.split)
  moreover have "lane_frame jid lan (lan\<lparr>ln_backend := db\<rparr>)" unfolding u(3) by (rule update_backend_frame)
  moreover have "bdb_ready db" using u(3) ready by simp
  ultimately show thesis using that u(1,2) by blast
qed

lemma shown_status_next:
  "next_lifecycle_state s b = t \<Longrightarrow> s \<noteq> ''review'' \<Longrightarrow> shown_status t = backend_state_to_jobs_status t"
  by (auto simp: shown_status_def dest: next_lifecycle_keeps(4))

text \<open>The last part of a pass, once the row has the new state.\<close>

lemma project_and_ingest:
  fixes lan1 :: lane
  assumes ready: "bdb_ready (ln_backend lan1)" and row: "row_of jid lan1 = Some job'" and new: "bj_state job' = new_state"
    and old: "new_state = ''importing'' \<Longrightarrow> bj_state job = ''importing''"
      "owned_state (bj_state job) \<Longrightarrow> new_state = bj_state job"
    and shown: "dget ''status'' proj = JStr (shown_status new_state)"
    and lan': "lan' = (if new_state = ''completed'' \<and> go then start_backend_ingest env now jid job' path client (set_proj jid proj lan1)
                       else set_proj jid proj lan1)"
  shows "lane_frame jid lan1 lan' \<and> reconciled jid job lan1 lan'"
proof (cases "new_state = ''completed'' \<and> go")
  case False
  with lan' have l: "lan' = set_proj jid proj lan1" by auto
  have "proj_status jid lan' = Some (JStr (shown_status (bj_state job')))"
    using l shown new by (simp add: proj_status_def)
  moreover have "row_of jid lan' = Some job'" "lane_frame jid lan1 lan'" using l row by simp_all
  ultimately show ?thesis unfolding reconciled_def using new old by blast
next
  case True
  with lan' have l: "lan' = start_backend_ingest env now jid job' path client (set_proj jid proj lan1)" by simp
  have st: "bdb_ready (ln_backend (set_proj jid proj lan1))" "row_of jid (set_proj jid proj lan1) = Some job'"
    "bj_state job' = ''completed''"
    using ready row new True by simp_all
  obtain r' where r': "lane_frame jid (set_proj jid proj lan1) lan'" "proj_of jid lan' = Some proj" "row_of jid lan' = Some r'"
    "bj_state r' = ''completed'' \<or> bj_state r' = ''importing'' \<and> has_ingest_job jid lan'"
    using start_backend_ingest_sound[OF st l] by auto
  have "\<not> owned_state ''completed''" by (simp add: owned_state_def BACKEND_JOB_TERMINAL_STATES_def)
  then have nc: "\<not> owned_state (bj_state job)" using old(2) True by metis
  have "shown_status ''importing'' = shown_status ''completed''"
    by (simp add: shown_status_def backend_state_to_jobs_status_def)
  then have "shown_status (bj_state r') = shown_status new_state" using r'(4) True by metis
  then have "proj_status jid lan' = Some (JStr (shown_status (bj_state r')))"
    using r'(2) shown by (simp add: proj_status_def)
  moreover have "bj_state r' = ''importing'' \<Longrightarrow> has_ingest_job jid lan'" using r'(4) by auto
  ultimately have "reconciled jid job lan1 lan'"
    using r'(3) nc unfolding reconciled_def by blast
  moreover have "lane_frame jid lan1 lan'" using lane_frame_trans[OF lane_frame_proj r'(1)] .
  ultimately show ?thesis by simp
qed

lemma reconcile_with_status_sound:
  assumes ready: "bdb_ready (ln_backend lan)" and row: "row_of jid lan = Some job"
    and valid: "bj_state job \<in> set BACKEND_JOB_STATES" and nr: "bj_state job \<noteq> ''review''"
  shows "lane_frame jid lan (reconcile_with_status env now jid job st client lan) \<and>
    reconciled jid job lan (reconcile_with_status env now jid job st client lan)"
proof -
  define new_state where "new_state = next_lifecycle_state (bj_state job) (st_state st)"
  define path_new where "path_new = (truthy_str (st_completed_path st) \<and> st_completed_path st \<noteq> bj_backend_path job)"
  define display where "display = py_strip (str_or (st_display_name st) [])"
  define title_new where "title_new = (display \<noteq> [] \<and>
    generic_backend_release_title (bj_release_title job) (bj_backend_job_id job) \<and> Some display \<noteq> bj_release_title job)"
  define p where "p = no_patch\<lparr>bp_state := (if new_state \<noteq> bj_state job then Some new_state else None),
    bp_backend_path := (if path_new then st_completed_path st else None),
    bp_release_title := (if title_new then Some display else None),
    bp_finished := (new_state \<in> set BACKEND_JOB_TERMINAL_STATES)\<rparr>"
  have shown: "shown_status new_state = backend_state_to_jobs_status new_state"
    using shown_status_next[OF new_state_def[symmetric] nr] .
  obtain job' lan1 where stored: "(if new_state \<noteq> bj_state job \<or> path_new \<or> title_new
      then (case update_backend_job now jid p (ln_backend lan) of
              (None, db) \<Rightarrow> (None, lan\<lparr>ln_backend := db\<rparr>)
            | (Some j, db) \<Rightarrow> (Some j, lan\<lparr>ln_backend := db\<rparr>))
      else (Some job, lan)) = (Some job', lan1)"
    and l1: "bdb_ready (ln_backend lan1)" "row_of jid lan1 = Some job'" "bj_state job' = new_state"
      "lane_frame jid lan lan1" "proj_of jid lan1 = proj_of jid lan"
  proof (cases "new_state \<noteq> bj_state job \<or> path_new \<or> title_new")
    case True
    have "bp_state p = (if new_state \<noteq> bj_state job then Some new_state else None)" by (simp add: p_def)
    moreover have "new_state \<in> set BACKEND_JOB_STATES \<or> new_state = bj_state job"
      unfolding new_state_def by (rule next_lifecycle_keeps(1))
    ultimately obtain job' db where "update_backend_job now jid p (ln_backend lan) = (Some job', db)"
      "bj_state job' = new_state" "tfind bj_jid jid (bdb_rows db) = Some job'" "lane_frame jid lan (lan\<lparr>ln_backend := db\<rparr>)"
      "bdb_ready db"
      using persist_status[OF ready row valid] by metis
    with True that[of job' "lan\<lparr>ln_backend := db\<rparr>"] show thesis by simp
  next
    case False
    with that[of job lan] ready row show thesis by simp
  qed
  define proj where "proj = dset ''percent'' (JInt (max 0 (min 100 (py_trunc (st_progress st)))))
    (dset ''status'' (JStr (backend_state_to_jobs_status new_state)) (dset ''title'' (JStr (str_or (bj_release_title job') jid))
      (case proj_of jid lan1 of Some p \<Rightarrow> p | None \<Rightarrow> new_projection now jid job')))"
  have "reconcile_with_status env now jid job st client lan =
      (if new_state = ''completed'' \<and> truthy_str (st_completed_path st)
       then start_backend_ingest env now jid job' (the (st_completed_path st)) client (set_proj jid proj lan1)
       else set_proj jid proj lan1)"
    using stored
    unfolding reconcile_with_status_def Let_def new_state_def[symmetric] path_new_def[symmetric]
      display_def[symmetric] title_new_def[symmetric] p_def[symmetric]
    by (simp add: proj_def)
  moreover have "dget ''status'' proj = JStr (shown_status new_state)" by (simp add: proj_def shown)
  moreover have "new_state = ''importing'' \<Longrightarrow> bj_state job = ''importing''"
    "owned_state (bj_state job) \<Longrightarrow> new_state = bj_state job"
    unfolding new_state_def by (rule next_lifecycle_keeps(3), assumption) (rule next_lifecycle_keeps(2), assumption)
  ultimately have "lane_frame jid lan1 (reconcile_with_status env now jid job st client lan) \<and>
      reconciled jid job lan1 (reconcile_with_status env now jid job st client lan)"
    using project_and_ingest[OF l1(1-3)] by blast
  with l1(4,5) lane_frame_trans show ?thesis
    by (auto simp: reconciled_def proj_status_def)
qed

lemma restore_review_sound:
  assumes ready: "bdb_ready (ln_backend lan)" and row: "row_of jid lan = Some job" and st: "bj_state job = ''review''"
  shows "lane_frame jid lan (restore_backend_review_projection env now jid job src bid lan) \<and>
    reconciled jid job lan (restore_backend_review_projection env now jid job src bid lan)"
proof -
  define display where "display =
    (case env_client env src of
       None \<Rightarrow> []
     | Some client \<Rightarrow>
         if generic_backend_release_title (bj_release_title job) (Some bid)
         then (case bc_status client bid of None \<Rightarrow> [] | Some st \<Rightarrow> py_strip (str_or (st_display_name st) []))
         else [])"
  let ?p = "no_patch\<lparr>bp_release_title := Some display\<rparr>"
  obtain job' lan1 where stored: "(if display \<noteq> [] \<and> Some display \<noteq> bj_release_title job
      then (case update_backend_job now jid ?p (ln_backend lan) of
              (None, db) \<Rightarrow> (job, lan\<lparr>ln_backend := db\<rparr>)
            | (Some j, db) \<Rightarrow> (j, lan\<lparr>ln_backend := db\<rparr>))
      else (job, lan)) = (job', lan1)"
    and l1: "row_of jid lan1 = Some job'" "bj_state job' = ''review''" "lane_frame jid lan lan1"
  proof (cases "display \<noteq> [] \<and> Some display \<noteq> bj_release_title job")
    case True
    obtain db where u: "update_backend_job now jid ?p (ln_backend lan) = (Some (patch_backend_job now ?p job), db)"
      "tfind bj_jid jid (bdb_rows db) = Some (patch_backend_job now ?p job)"
      "db = snd (update_backend_job now jid ?p (ln_backend lan))"
      by (rule update_backend_hit[OF ready _ row, of ?p]) auto
    have "lane_frame jid lan (lan\<lparr>ln_backend := db\<rparr>)" unfolding u(3) by (rule update_backend_frame)
    with True u(1,2) st that[of "patch_backend_job now ?p job" "lan\<lparr>ln_backend := db\<rparr>"] show thesis by simp
  next
    case False
    with that[of job lan] row st show thesis by auto
  qed
  obtain proj where r: "restore_backend_review_projection env now jid job src bid lan = set_proj jid proj lan1"
    "dget ''status'' proj = JStr ''review_required''"
    using stored unfolding restore_backend_review_projection_def Let_def display_def[symmetric] by simp
  have "shown_status ''review'' = ''review_required''" by (simp add: shown_status_def)
  then have "reconciled jid job lan (set_proj jid proj lan1)"
    using l1 st r(2) by (auto simp: reconciled_def proj_status_def)
  with r(1) l1(3) lane_frame_trans lane_frame_proj show ?thesis by metis
qed

lemma reconcile_backend_job_sound:
  assumes ready: "bdb_ready (ln_backend lan)" and row: "row_of (bj_jid job) lan = Some job"
    and valid: "bj_state job \<in> set BACKEND_JOB_STATES"
  shows "lane_frame (bj_jid job) lan (reconcile_backend_job env now job lan) \<and>
    reconciled (bj_jid job) job lan (reconcile_backend_job env now job lan)"
proof -
  have same: ?thesis if "reconcile_backend_job env now job lan = lan"
    using that reconciled_refl[OF row] by simp
  consider (skip) "reconcile_backend_job env now job lan = lan"
    | (review) "bj_state job = ''review''" "reconcile_backend_job env now job lan =
        restore_backend_review_projection env now (bj_jid job) job (bj_source_type job) (the (bj_backend_job_id job)) lan"
    | (poll) client job1 lan1 where "bj_state job \<noteq> ''review''"
        "capture_backend_target_album_id env now (bj_jid job) job lan = (job1, lan1)"
        "reconcile_backend_job env now job lan =
          (case bc_status client (the (bj_backend_job_id job)) of
             None \<Rightarrow> lan1 | Some st \<Rightarrow> reconcile_with_status env now (bj_jid job) job1 st client lan1)"
  proof (cases "bj_jid job = [] \<or> \<not> truthy_str (bj_backend_job_id job) \<or> bj_state job = ''importing''")
    case True
    with skip show thesis by (auto simp: reconcile_backend_job_def Let_def)
  next
    case ok: False
    show thesis
    proof (cases "bj_state job = ''review''")
      case True
      show thesis
        by (cases "backend_review_row_visible job lan")
          (use ok True skip review in \<open>auto simp: reconcile_backend_job_def Let_def\<close>)
    next
      case False
      obtain job1 lan1 where c: "capture_backend_target_album_id env now (bj_jid job) job lan = (job1, lan1)"
        by (meson surj_pair)
      show thesis
      proof (cases "env_client env (bj_source_type job)")
        case None
        with ok False skip show thesis by (simp add: reconcile_backend_job_def Let_def)
      next
        case (Some client)
        show thesis by (rule poll[OF False c, of client]) (use ok False c Some in \<open>simp add: reconcile_backend_job_def Let_def\<close>)
      qed
    qed
  qed
  then show ?thesis
  proof cases
    case skip
    then show ?thesis by (rule same)
  next
    case review
    then show ?thesis using restore_review_sound[OF ready row review(1)] by simp
  next
    case poll
    have c: "lane_frame (bj_jid job) lan lan1" "row_of (bj_jid job) lan1 = Some job1" "bj_state job1 = bj_state job"
      "proj_status (bj_jid job) lan1 = proj_status (bj_jid job) lan"
      using capture_target_sound[OF ready row poll(2)] by auto
    have ready1: "bdb_ready (ln_backend lan1)" using c(1) ready by (simp add: lane_frame_def)
    have w: "lane_frame (bj_jid job) lan1 (reconcile_with_status env now (bj_jid job) job1 st client lan1) \<and>
        reconciled (bj_jid job) job1 lan1 (reconcile_with_status env now (bj_jid job) job1 st client lan1)" for st
      using reconcile_with_status_sound[OF ready1 c(2)] c(3) valid poll(1) by simp
    have "reconciled (bj_jid job) job lan lan1" using c(2-4) by (auto simp: reconciled_def)
    then show ?thesis
      using poll(3) c w lane_frame_trans
      by (auto simp: reconciled_def split: option.split)
  qed
qed

lemma reconciled_mono:
  assumes "reconciled jid row b c" "proj_status jid a = proj_status jid b"
    and "row_of jid d = row_of jid c" "proj_of jid d = proj_of jid c"
    and "set (jobs_rows (ln_jobs c)) \<subseteq> set (jobs_rows (ln_jobs d))"
  shows "reconciled jid row a d"
proof -
  have "has_ingest_job jid c \<Longrightarrow> has_ingest_job jid d" using assms(5) by (auto simp: has_ingest_job_def)
  moreover have "proj_status jid d = proj_status jid c" using assms(4) by (simp add: proj_status_def)
  ultimately show ?thesis using assms(1-3) unfolding reconciled_def by metis
qed

lemma reconcile_fold:
  assumes "bdb_ready (ln_backend lan)" "distinct (map bj_jid js)"
    and "\<And>j. j \<in> set js \<Longrightarrow> row_of (bj_jid j) lan = Some j \<and> bj_state j \<in> set BACKEND_JOB_STATES"
  shows "(\<forall>j\<in>set js. reconciled (bj_jid j) j lan (fold (reconcile_backend_job env now) js lan)) \<and>
    (\<forall>k. k \<notin> bj_jid ` set js \<longrightarrow> row_of k (fold (reconcile_backend_job env now) js lan) = row_of k lan \<and>
       proj_of k (fold (reconcile_backend_job env now) js lan) = proj_of k lan) \<and>
    set (jobs_rows (ln_jobs lan)) \<subseteq> set (jobs_rows (ln_jobs (fold (reconcile_backend_job env now) js lan)))"
  using assms
proof (induction js arbitrary: lan)
  case Nil
  show ?case by simp
next
  case (Cons j js)
  define lan1 where "lan1 = reconcile_backend_job env now j lan"
  define lan2 where "lan2 = fold (reconcile_backend_job env now) js lan1"
  have s: "lane_frame (bj_jid j) lan lan1" "reconciled (bj_jid j) j lan lan1"
    using reconcile_backend_job_sound[of lan j] Cons.prems(1,3) by (auto simp: lan1_def)
  have fr: "row_of k lan1 = row_of k lan \<and> proj_of k lan1 = proj_of k lan" if "k \<noteq> bj_jid j" for k
    using s(1) that by (auto simp: lane_frame_def)
  have ne: "bj_jid k \<noteq> bj_jid j" if "k \<in> set js" for k
    using Cons.prems(2) that by (auto simp: image_iff)
  have pre: "row_of (bj_jid k) lan1 = Some k \<and> bj_state k \<in> set BACKEND_JOB_STATES" if "k \<in> set js" for k
    using Cons.prems(3)[of k] that fr[OF ne[OF that]] by simp
  have "bdb_ready (ln_backend lan1)" using s(1) Cons.prems(1) by (simp add: lane_frame_def)
  then have rec: "\<forall>k\<in>set js. reconciled (bj_jid k) k lan1 lan2"
    and out: "\<forall>k. k \<notin> bj_jid ` set js \<longrightarrow> row_of k lan2 = row_of k lan1 \<and> proj_of k lan2 = proj_of k lan1"
    and jobs: "set (jobs_rows (ln_jobs lan1)) \<subseteq> set (jobs_rows (ln_jobs lan2))"
    using Cons.IH[of lan1, OF _ _ pre] Cons.prems(2) by (auto simp: lan2_def)
  have "reconciled (bj_jid j) j lan lan2"
    using reconciled_mono[OF s(2) refl] out jobs Cons.prems(2) by simp
  moreover have "reconciled (bj_jid k) k lan lan2" if "k \<in> set js" for k
  proof -
    have "proj_status (bj_jid k) lan = proj_status (bj_jid k) lan1" using fr[OF ne[OF that]] by (simp add: proj_status_def)
    with rec that show ?thesis using reconciled_mono[of "bj_jid k" k lan1 lan2 lan lan2] by simp
  qed
  moreover have "set (jobs_rows (ln_jobs lan)) \<subseteq> set (jobs_rows (ln_jobs lan2))"
    using s(1) jobs by (auto simp: lane_frame_def)
  ultimately show ?case
    using out fr by (simp add: lan1_def[symmetric] lan2_def[symmetric])
qed

lemma list_active_rows:
  assumes "backend_inv db"
  shows "set (list_active_backend_jobs db) \<subseteq> set (bdb_rows db)" "distinct (map bj_jid (list_active_backend_jobs db))"
proof -
  let ?f = "\<lambda>r. bj_state r \<in> set BACKEND_JOB_ACTIVE_STATES"
  have l: "list_active_backend_jobs db = (if bdb_ready db
      then take 10000 (sort_key (\<lambda>r. - bj_updated_at r) (filter ?f (bdb_rows db))) else [])"
    by (simp add: list_active_backend_jobs_def list_backend_jobs_def sql_limit_def Let_def)
  show "set (list_active_backend_jobs db) \<subseteq> set (bdb_rows db)"
    unfolding l using set_take_subset by (fastforce split: if_splits)
  have "distinct (map bj_jid (filter ?f (bdb_rows db)))"
    using assms by (simp add: backend_inv_def distinct_map_filter)
  then have "distinct (map bj_jid (sort_key (\<lambda>r. - bj_updated_at r) (filter ?f (bdb_rows db))))"
    by (simp add: distinct_map)
  then show "distinct (map bj_jid (list_active_backend_jobs db))"
    unfolding l by (simp add: take_map[symmetric])
qed

section \<open>Properties\<close>

text \<open>(C8) Reconciliation with the backends is durable first. After a pass every backend job still has its
  row; a terminal state, a running import and a pending review are kept; a row only enters
  \<open>importing\<close> when an active worker job for it is queued; and what Lidarr is shown of the job is
  either what it was shown before or the projection of the stored state (so a finished download is
  shown as being processed, never as importable).\<close>

theorem reconcile_durable_first:
  assumes "backend_inv (ln_backend lan)" "bdb_ready (ln_backend lan)" "row_of jid lan = Some row"
  shows "\<exists>row'. row_of jid (reconcile_backend_jobs env now lan) = Some row' \<and>
    (owned_state (bj_state row) \<longrightarrow> bj_state row' = bj_state row) \<and>
    (bj_state row' = ''importing'' \<longrightarrow>
       bj_state row = ''importing'' \<or> has_ingest_job jid (reconcile_backend_jobs env now lan)) \<and>
    (proj_status jid (reconcile_backend_jobs env now lan) = proj_status jid lan \<or>
     proj_status jid (reconcile_backend_jobs env now lan) = Some (JStr (shown_status (bj_state row'))))"
proof -
  let ?js = "list_active_backend_jobs (ln_backend lan)"
  have pre: "row_of (bj_jid j) lan = Some j \<and> bj_state j \<in> set BACKEND_JOB_STATES" if "j \<in> set ?js" for j
    using that list_active_rows(1)[OF assms(1)] assms(1)
    by (auto simp: backend_inv_def intro: tfind_distinct)
  note f = reconcile_fold[OF assms(2) list_active_rows(2)[OF assms(1)] pre, of env now,
    folded reconcile_backend_jobs_def]
  have "reconciled jid row lan (reconcile_backend_jobs env now lan)"
  proof (cases "jid \<in> bj_jid ` set ?js")
    case True
    then obtain j where j: "j \<in> set ?js" "jid = bj_jid j" by blast
    with pre assms(3) have "j = row" by auto
    with j f show ?thesis by auto
  next
    case False
    with f assms(3) show ?thesis by (auto simp: reconciled_def proj_status_def)
  qed
  then show ?thesis by (simp add: reconciled_def)
qed

definition demo_client :: backend_client where
  "demo_client = \<lparr>bc_status = (\<lambda>_. Some \<lparr>st_state = ''completed'', st_progress = 100,
     st_completed_path = Some ''/dl/album'', st_display_name = None\<rparr>), bc_download_root = ''/dl''\<rparr>"

definition demo_env :: lane_env where
  "demo_env = \<lparr>env_client = (\<lambda>s. if s = ''sab'' then Some demo_client else None), env_infer_album = (\<lambda>_. None),
     env_queue_record = (\<lambda>_. None), env_cwd = ''/app'', env_output_base = ''/out'', env_archive_dirs = []\<rparr>"

definition demo_backend_row :: backend_job where
  "demo_backend_row = \<lparr>bj_jid = ''j1'', bj_source_type = ''sab'', bj_backend_job_id = Some ''nzo'', bj_category = ''music'',
     bj_state = ''downloading'', bj_target_album_id = Some 7, bj_release_title = Some ''Album'', bj_backend_path = None,
     bj_error_text = None, bj_created_at = 1, bj_updated_at = 1, bj_finished_at = None, bj_details = []\<rparr>"

definition demo_lane :: lane where
  "demo_lane = \<lparr>ln_backend = \<lparr>bdb_ready = True, bdb_rows = [demo_backend_row]\<rparr>, ln_jobs = empty_jobs_db,
     ln_holds = demo_holds, ln_records = empty_records_db, ln_sidecars = [], ln_proj = [], ln_cancels = []\<rparr>"

lemma demo_lane_facts:
  "backend_inv (ln_backend demo_lane)" "bdb_ready (ln_backend demo_lane)" "row_of ''j1'' demo_lane = Some demo_backend_row"
  "bj_state demo_backend_row = ''downloading''" "bj_target_album_id demo_backend_row = Some 7"
  "jobs_inv (ln_jobs demo_lane)" "holds_inv (ln_holds demo_lane)" "holds_ready (ln_holds demo_lane)"
  by (simp_all add: demo_lane_def demo_backend_row_def backend_inv_def tfind_Cons empty_jobs_db_inv holds_inv_def demo_holds_def)

theorem reconcile_durable_first_witness:
  "\<exists>row'. row_of ''j1'' (reconcile_backend_jobs demo_env 5 demo_lane) = Some row' \<and>
     (proj_status ''j1'' (reconcile_backend_jobs demo_env 5 demo_lane) = None \<or>
      proj_status ''j1'' (reconcile_backend_jobs demo_env 5 demo_lane) = Some (JStr (shown_status (bj_state row'))))"
proof -
  have "proj_status ''j1'' demo_lane = None" by (simp add: demo_lane_def proj_status_def proj_of_def)
  then show ?thesis using reconcile_durable_first[OF demo_lane_facts(1-3), of demo_env 5] by auto
qed

section \<open>Cancellation\<close>

lemma hold_for_cancel_keeps [simp]:
  "ln_backend (create_album_hold_for_cancel env now v src lan) = ln_backend lan"
  "ln_jobs (create_album_hold_for_cancel env now v src lan) = ln_jobs lan"
  "proj_of k (create_album_hold_for_cancel env now v src lan) = proj_of k lan"
  by (simp_all add: create_album_hold_for_cancel_def Let_def split: option.split)

lemma create_album_hold_ready [simp]:
  "holds_ready (snd (create_album_hold now a reason ex ttl sj st si actor details db)) = holds_ready db"
  by (simp add: create_album_hold_def Let_def)

lemma hold_for_cancel_inv:
  "holds_inv (ln_holds lan) \<Longrightarrow> holds_inv (ln_holds (create_album_hold_for_cancel env now v src lan))"
  "holds_ready (ln_holds (create_album_hold_for_cancel env now v src lan)) = holds_ready (ln_holds lan)"
  by (simp_all add: create_album_hold_for_cancel_def Let_def holds_inv_create split: option.split)

lemma hold_for_cancel_holds:
  assumes "holds_inv (ln_holds lan)" "holds_ready (ln_holds lan)" "bj_target_album_id r = Some a" "0 < a"
    and "t < fl_add now DEFAULT_ALBUM_HOLD_TTL_SEC"
  shows "is_album_held t a (ln_holds (create_album_hold_for_cancel env now v (source_of_backend r) lan))"
proof -
  let ?lan' = "create_album_hold_for_cancel env now v (source_of_backend r) lan"
  have reason: "py_strip ''operator_cancelled_active_grab'' \<noteq> []" by code_simp
  have "first_some (int_or_none (dget ''target_album_id'' (cs_payload (source_of_backend r))))
      (first_some (int_or_none (cs_target_album_id (source_of_backend r))) x) = Some a" for x
    using assms(3,4) by (simp add: source_of_backend_def first_some_def int_or_none_def)
  then obtain st si d where "ln_holds ?lan' = snd (create_album_hold now a ''operator_cancelled_active_grab'' None None (Some v)
      st si (Some ''lidarr_delete'') d (ln_holds lan))"
    unfolding create_album_hold_for_cancel_def Let_def by simp
  then have "hold_view (ln_holds ?lan') a = Some (hold_expiry now None None)"
    by (simp add: hold_view_create[OF assms(2,4) reason])
  moreover have "hold_expiry now None None = fl_add now DEFAULT_ALBUM_HOLD_TTL_SEC"
    by (simp add: hold_expiry_def DEFAULT_ALBUM_HOLD_TTL_SEC_def)
  ultimately show ?thesis
    using assms(5) is_album_held_view[OF hold_for_cancel_inv(1)[OF assms(1)], of env now v "source_of_backend r"]
    by (simp add: hold_for_cancel_inv(2) assms(2))
qed

lemma request_cancel_recorded:
  assumes inv: "keys_inv K db" and act: "get_active_job_by_jid v db = Some j"
  shows "request_job_cancel (job_id j) db = (True, snd (request_job_cancel (job_id j) db))"
    "is_job_cancel_requested (job_id j) (snd (request_job_cancel (job_id j) db))"
proof -
  have ready: "jobs_ready db" and j: "j \<in> set (jobs_rows db)" "active j"
    using act by (auto simp: get_active_job_by_jid_def split: if_splits dest!: first_min_in_set)
  have f: "tfind job_id (job_id j) (jobs_rows db) = Some j"
    using jobs_inv_distinct[OF inv] j(1) by (intro tfind_distinct) auto
  let ?P = "\<lambda>k. job_id k = job_id j \<and> job_st k \<in> {Queued, Running, Cancelling}"
  have P: "?P j" using j(2) by (auto simp: ACTIVE_JOB_STATES_def)
  with j(1) have "0 < rowcount ?P (jobs_rows db)" by (auto simp: rowcount_pos)
  then show "request_job_cancel (job_id j) db = (True, snd (request_job_cancel (job_id j) db))"
    using ready by (simp add: request_job_cancel_def Let_def)
  let ?f = "\<lambda>k. k\<lparr>job_cancel_requested := True, job_st := (if job_st k = Running then Cancelling else job_st k)\<rparr>"
  have "tfind job_id (job_id j) (tupdate ?P ?f (jobs_rows db)) =
      map_option (\<lambda>k. if ?P k then ?f k else k) (tfind job_id (job_id j) (jobs_rows db))"
    by (rule tfind_tupdate) simp
  with P f ready show "is_job_cancel_requested (job_id j) (snd (request_job_cancel (job_id j) db))"
    by (simp add: request_job_cancel_def is_job_cancel_requested_def update_jobs_def Let_def)
qed

lemma cancel_worker_job_keeps:
  "ln_backend (cancel_worker_job env now v lan) = ln_backend lan"
  "proj_of k (cancel_worker_job env now v lan) = proj_of k lan"
  "holds_inv (ln_holds lan) \<Longrightarrow> holds_inv (ln_holds (cancel_worker_job env now v lan))"
  "holds_ready (ln_holds (cancel_worker_job env now v lan)) = holds_ready (ln_holds lan)"
  by (simp_all add: cancel_worker_job_def hold_for_cancel_inv split: option.split prod.split bool.split)

lemma cancel_worker_job_requests:
  assumes "keys_inv K (ln_jobs lan)" "get_active_job_by_jid v (ln_jobs lan) = Some j"
  shows "is_job_cancel_requested (job_id j) (ln_jobs (cancel_worker_job env now v lan))"
proof -
  have "cancel_worker_job env now v lan = create_album_hold_for_cancel env now v (source_of_job j)
      (lan\<lparr>ln_jobs := snd (request_job_cancel (job_id j) (ln_jobs lan))\<rparr>)"
    by (cases "request_job_cancel (job_id j) (ln_jobs lan)")
      (use request_cancel_recorded(1)[OF assms] assms(2) in \<open>simp add: cancel_worker_job_def\<close>)
  then show ?thesis using request_cancel_recorded(2)[OF assms] by simp
qed

lemma hide_from_lidarr_keeps [simp]:
  "ln_backend (hide_from_lidarr v lan) = ln_backend lan" "ln_jobs (hide_from_lidarr v lan) = ln_jobs lan"
  "ln_holds (hide_from_lidarr v lan) = ln_holds lan"
  by (simp_all add: hide_from_lidarr_def split: option.split)

text \<open>A terminal row is not listed as active, so a pass leaves it and its projection alone.\<close>

lemma reconcile_skips_terminal:
  assumes inv: "backend_inv (ln_backend lan)" and ready: "bdb_ready (ln_backend lan)"
    and row: "row_of jid lan = Some row" "bj_terminal row"
  shows "row_of jid (reconcile_backend_jobs env now lan) = Some row \<and>
    proj_of jid (reconcile_backend_jobs env now lan) = proj_of jid lan"
proof -
  let ?js = "list_active_backend_jobs (ln_backend lan)"
  have pre: "row_of (bj_jid j) lan = Some j \<and> bj_state j \<in> set BACKEND_JOB_STATES" if "j \<in> set ?js" for j
    using that list_active_rows(1)[OF inv] inv by (auto simp: backend_inv_def intro: tfind_distinct)
  have "\<not> bj_terminal j" if "j \<in> set ?js" for j
    using that ready unfolding list_active_backend_jobs_def list_backend_jobs_def sql_limit_def Let_def
    by (auto simp: bj_terminal_def active_state_iff dest!: in_set_takeD)
  with pre row have "jid \<notin> bj_jid ` set ?js" by fastforce
  with reconcile_fold[OF ready list_active_rows(2)[OF inv] pre, of env now] row(1) show ?thesis
    unfolding reconcile_backend_jobs_def by simp
qed



section \<open>Mirroring the outcome of an ingest\<close>

lemma mark_import_completed_keeps [simp]:
  "ln_backend (mark_import_completed now jid d lan) = ln_backend lan"
  "ln_records (mark_import_completed now jid d lan) = ln_records lan"
  by (simp_all add: mark_import_completed_def)

lemma finalize_keeps_backend [simp]:
  "ln_backend (snd (finalize_imported_backend_record env now jid lan)) = ln_backend lan"
  by (auto simp: finalize_imported_backend_record_def write_sidecar_def Let_def split: option.split prod.split bool.split)

lemma mirror_importing:
  assumes "jid \<noteq> []" "bdb_ready (ln_backend lan)" "row_of jid lan = Some row" "bj_state row = ''importing''"
    and "bdb_ready (ln_backend (others lan))" "row_of jid (others lan) = Some row1" and "s \<in> set BACKEND_JOB_STATES"
  shows "\<exists>row'. row_of jid (mirror_backend_ingest_outcome env now others jid s lan) = Some row' \<and> bj_state row' = s \<and>
    (s \<in> set BACKEND_JOB_TERMINAL_STATES \<longrightarrow> bj_finished_at row' = Some now)"
proof -
  let ?p = "no_patch\<lparr>bp_state := Some s, bp_finished := (s \<in> set BACKEND_JOB_TERMINAL_STATES)\<rparr>"
  obtain db where u: "update_backend_job now jid ?p (ln_backend (others lan)) = (Some (patch_backend_job now ?p row1), db)"
    "tfind bj_jid jid (bdb_rows db) = Some (patch_backend_job now ?p row1)"
    by (rule update_backend_hit[OF assms(5) _ assms(6), of ?p]) (use assms(7) in auto)
  have g: "get_backend_job jid (ln_backend lan) = Some row" using assms(2,3) by (simp add: get_backend_job_def)
  have "ln_backend (mirror_backend_ingest_outcome env now others jid s lan) = db"
    using assms(1,4) g u(1) by (simp add: mirror_backend_ingest_outcome_def Let_def)
  with u(2) show ?thesis by (auto intro: patch_finished)
qed

lemma mirror_elsewhere:
  assumes "bdb_ready (ln_backend lan)" "row_of jid lan = Some row" "bj_state row \<noteq> ''importing''"
  shows "mirror_backend_ingest_outcome env now others jid s lan = lan"
  using assms by (simp add: mirror_backend_ingest_outcome_def get_backend_job_def)

lemma outcome_states:
  "backend_ingest_outcome jid lan \<in> set BACKEND_JOB_STATES" "backend_ingest_outcome jid lan \<noteq> ''importing''"
  by (simp_all add: backend_ingest_outcome_def Let_def)

text \<open>(C22) An ingest never stays in \<open>importing\<close>. Whatever the pipeline does to the import queue, as long as it
  leaves the job's row importing, the row ends in \<open>failed\<close> when the pipeline raises and otherwise in
  the outcome of the queue projection: \<open>review\<close> for a held item, \<open>failed\<close> for a failed one, else
  \<open>imported\<close>; terminal outcomes get their end time. Whatever the other threads make of the row between the
  look at it and its update, a cancellation by the operator included, is overwritten.\<close>

theorem ingest_outcome_mirrored:
  assumes "jid \<noteq> []" "grab jid lan = (res, lan1)" "bdb_ready (ln_backend lan1)"
    and "row_of jid lan1 = Some row" "bj_state row = ''importing''"
    and "bdb_ready (ln_backend (others lan1))" "row_of jid (others lan1) = Some row1"
    and "execute_backend_completed_grab_job env now others grab jid lan = (res', lan2)"
  shows "res' = res \<and> (\<exists>row'. row_of jid lan2 = Some row' \<and> bj_state row' \<noteq> ''importing'' \<and>
    bj_state row' = (case res of Inl e \<Rightarrow> ''failed'' | Inr x \<Rightarrow> backend_ingest_outcome jid lan1) \<and>
    (bj_terminal row' \<longrightarrow> bj_finished_at row' = Some now))"
proof -
  define s where "s = (case res of Inl e \<Rightarrow> ''failed'' | Inr x \<Rightarrow> backend_ingest_outcome jid lan1)"
  have s: "s \<in> set BACKEND_JOB_STATES" "s \<noteq> ''importing''"
    using outcome_states[of jid lan1] by (auto simp: s_def split: sum.split)
  have "res' = res" "lan2 = mirror_backend_ingest_outcome env now others jid s lan1"
    using assms(2,8) by (auto simp: execute_backend_completed_grab_job_def s_def split: sum.splits)
  with mirror_importing[where others = others, OF assms(1,3-7) s(1), of env now] s show ?thesis
    unfolding s_def[symmetric] bj_terminal_def by auto
qed

definition demo_ingest :: "string \<Rightarrow> lane \<Rightarrow> (string + unit) \<times> lane" where
  "demo_ingest jid lan = (Inr (), lan)"

definition demo_importing :: lane where
  "demo_importing = demo_lane\<lparr>ln_backend := \<lparr>bdb_ready = True, bdb_rows = [demo_backend_row\<lparr>bj_state := ''importing''\<rparr>]\<rparr>\<rparr>"

lemma demo_importing_facts:
  "bdb_ready (ln_backend demo_importing)"
  "row_of ''j1'' demo_importing = Some (demo_backend_row\<lparr>bj_state := ''importing''\<rparr>)"
  "backend_ingest_outcome ''j1'' demo_importing = ''imported''"
  by (simp_all add: demo_importing_def demo_lane_def demo_backend_row_def tfind_Cons backend_ingest_outcome_def proj_of_def)

text \<open>An ingest that the operator cancels in between; the row ends as imported all the same.\<close>

theorem ingest_outcome_mirrored_witness:
  "\<exists>row'. row_of ''j1'' (snd (execute_backend_completed_grab_job demo_env 9
       (\<lambda>lan. lan\<lparr>ln_backend := \<lparr>bdb_ready = True, bdb_rows = [demo_backend_row\<lparr>bj_state := ''cancelled''\<rparr>]\<rparr>\<rparr>)
       demo_ingest ''j1'' demo_importing)) = Some row' \<and>
     bj_state row' = ''imported'' \<and> bj_finished_at row' = Some 9"
proof -
  let ?others = "\<lambda>lan. lan\<lparr>ln_backend := \<lparr>bdb_ready = True, bdb_rows = [demo_backend_row\<lparr>bj_state := ''cancelled''\<rparr>]\<rparr>\<rparr>"
  obtain res' lan2 where e: "execute_backend_completed_grab_job demo_env 9 ?others demo_ingest ''j1'' demo_importing = (res', lan2)"
    by (meson surj_pair)
  have g: "demo_ingest ''j1'' demo_importing = (Inr (), demo_importing)" by (simp add: demo_ingest_def)
  have o: "bdb_ready (ln_backend (?others demo_importing))"
    "row_of ''j1'' (?others demo_importing) = Some (demo_backend_row\<lparr>bj_state := ''cancelled''\<rparr>)"
    by (simp_all add: tfind_Cons demo_backend_row_def)
  from ingest_outcome_mirrored[OF _ g demo_importing_facts(1,2) _ o e] e show ?thesis
    by (auto simp: demo_importing_facts bj_terminal_def BACKEND_JOB_TERMINAL_STATES_def)
qed

text \<open>A retried ingest cannot repair the row. When the first attempt raises, the row is closed as
  \<open>failed\<close> although the worker may retry the job; a second attempt that imports the album leaves the
  row \<open>failed\<close>, and meanwhile the item is not in the queue shown to Lidarr.\<close>

theorem retried_ingest_stays_failed:
  assumes "jid \<noteq> []" "bdb_ready (ln_backend lan)" "row_of jid lan = Some row" "bj_state row = ''importing''"
    and first: "grab_fails jid lan = (Inl e, lan)"
      "lan1 = snd (execute_backend_completed_grab_job env now (\<lambda>lan. lan) grab_fails jid lan)"
    and second: "grab_imports jid lan1 = (Inr x, lan2)" "ln_backend lan2 = ln_backend lan1"
  shows "\<exists>row'. row_of jid (snd (execute_backend_completed_grab_job env now2 others grab_imports jid lan1)) = Some row' \<and>
    bj_state row' = ''failed'' \<and> (\<forall>p. \<not> visible_in_sab_queue jid p lan1)"
proof -
  have l1: "lan1 = mirror_backend_ingest_outcome env now (\<lambda>lan. lan) jid ''failed'' lan"
    using first by (simp add: execute_backend_completed_grab_job_def)
  obtain row' where r: "row_of jid lan1 = Some row'" "bj_state row' = ''failed''"
    using mirror_importing[OF assms(1-4), of "\<lambda>lan. lan" row "''failed''" env now] assms(2,3) l1 by auto
  have ready: "bdb_ready (ln_backend lan1)"
    using assms(2) by (cases "get_backend_job jid (ln_backend lan)")
      (auto simp: l1 mirror_backend_ingest_outcome_def update_backend_job_def Let_def split: option.split)
  have "snd (execute_backend_completed_grab_job env now2 others grab_imports jid lan1) = lan2"
    using second ready r by (simp add: execute_backend_completed_grab_job_def mirror_elsewhere)
  moreover have "\<not> visible_in_sab_queue jid p lan1" for p
    using r ready by (simp add: visible_in_sab_queue_def get_backend_job_def BACKEND_JOB_TERMINAL_STATES_def)
  ultimately show ?thesis using r second(2) by auto
qed

definition demo_raises :: "string \<Rightarrow> lane \<Rightarrow> (string + unit) \<times> lane" where
  "demo_raises jid lan = (Inl ''timeout'', lan)"

theorem retried_ingest_stays_failed_witness:
  "\<exists>row'. row_of ''j1'' (snd (execute_backend_completed_grab_job demo_env 9 (\<lambda>lan. lan) demo_ingest ''j1''
     (snd (execute_backend_completed_grab_job demo_env 5 (\<lambda>lan. lan) demo_raises ''j1'' demo_importing)))) = Some row' \<and>
     bj_state row' = ''failed''"
proof -
  let ?lan1 = "snd (execute_backend_completed_grab_job demo_env 5 (\<lambda>lan. lan) demo_raises ''j1'' demo_importing)"
  have g: "demo_raises ''j1'' demo_importing = (Inl ''timeout'', demo_importing)" "demo_ingest ''j1'' ?lan1 = (Inr (), ?lan1)"
    by (simp_all add: demo_raises_def demo_ingest_def)
  from retried_ingest_stays_failed[where grab_fails = demo_raises and grab_imports = demo_ingest,
    OF _ demo_importing_facts(1,2) _ g(1) refl g(2) refl, of 9 "\<lambda>lan. lan"] show ?thesis by auto
qed

end
