(* ===== verification/Scan_Worker.thy ===== *)
theory Scan_Worker
  imports Library_Scan Library_Evidence
begin

text \<open>
  The background library scan (\<open>app/library_scan_worker.py\<close>): measuring one trackfile per tier, the
  bounded-parallel loop of the cheap, metadata and integrity tiers, the sequential loop of the
  spectral tier, and the execution of a scan job.

  Lidarr's inventory is a list of trackfiles, with integer ids. The parallel loop is a step relation
  (\<open>scan_step\<close>): the pool threads, the coordinator and the other users of the job queue interleave, and
  the measurement of one item, which only touches that item's rows, is one step. The sequential loop is
  a function of what it observes at its polling points (cancellation, and for how many polls import
  work kept it waiting).
\<close>

record trackfile =
  tf_id :: "int option"
  tf_path :: "string option"
  tf_albumId :: "int option"
  tf_album_id :: "int option"

definition tf_album :: "trackfile \<Rightarrow> int option" where
  "tf_album tf = (case tf_albumId tf of None \<Rightarrow> tf_album_id tf | Some a \<Rightarrow> if a = 0 then tf_album_id tf else Some a)"

record scan_env =
  se_fs :: filesystem
  se_root :: string
  se_lidarr_root :: string
  se_ffprobe :: ffprobe
  se_flac :: flac_test
  se_detective :: "pypath \<Rightarrow> json option"
  se_spectral_enabled :: bool
  se_background_spectral :: bool
  se_exc_text :: string

record scan_state =
  sw_db :: scan_db
  sw_evidence :: evidence_db

definition put_item :: "rat \<Rightarrow> int \<Rightarrow> int \<Rightarrow> int option \<Rightarrow> string \<Rightarrow> scan_state \<Rightarrow> scan_state" where
  "put_item now i tf album state st = st\<lparr>sw_db := upsert_library_scan_item now i tf album state None None (sw_db st)\<rparr>"

section \<open>Measuring one trackfile\<close>

text \<open>The freshness test of the two ffprobe tiers: the stored row is measured, and path, size and
  modification time are those of the file now.\<close>

definition prior_matches :: "lib_row option \<Rightarrow> (string \<times> int \<times> rat) option \<Rightarrow> bool" where
  "prior_matches prior found =
     (case (prior, found) of
        (Some r, Some (p, sz, mt)) \<Rightarrow>
          le_status r = Some ''measured'' \<and> le_path r = Some p \<and> le_size r = Some sz \<and> le_mtime r = Some mt \<and>
          le_sensor_version r = Some METADATA_SENSOR_VERSION
      | _ \<Rightarrow> False)"

definition metadata_row :: "int option \<Rightarrow> string \<Rightarrow> (string \<times> int \<times> rat) option \<Rightarrow> track_measurement \<Rightarrow> lib_row" where
  "metadata_row album path found m =
     empty_row\<lparr>le_album_id := album,
       le_path := Some (case found of Some (p, _, _) \<Rightarrow> if p = [] then path else p | None \<Rightarrow> path),
       le_size := map_option (\<lambda>(_, sz, _). sz) found, le_mtime := map_option (\<lambda>(_, _, mt). mt) found,
       le_status := Some (tm_status m), le_reason := tm_reason m, le_codec := tm_codec m,
       le_sample_rate := tm_sample_rate m, le_bit_depth := tm_bit_depth m, le_bitrate_kbps := tm_bitrate_kbps m,
       le_channels := tm_channels m, le_lossless := tm_lossless m,
       le_sensor_version := Some METADATA_SENSOR_VERSION\<rparr>"

definition measure_trackfile_item :: "scan_env \<Rightarrow> rat \<Rightarrow> int \<Rightarrow> trackfile \<Rightarrow> scan_state \<Rightarrow> string \<times> scan_state" where
  "measure_trackfile_item env now rid tf st =
     (case (tf_id tf, tf_path tf) of
        (Some i, Some path) \<Rightarrow>
          if path = [] then (''unmeasured'', st)
          else
            let found = stat_for_freshness (se_fs env) path (se_root env) (se_lidarr_root env);
                prior = get_library_evidence i (sw_evidence st) in
            if prior_matches prior found \<and>
               (\<exists>r. prior = Some r \<and> le_integrity_sensor_version r = Some INTEGRITY_SENSOR_VERSION)
            then (''fresh'', put_item now rid i (tf_album tf) ''fresh'' st)
            else
              let m = measure_trackfile (se_fs env) (se_root env) (se_lidarr_root env)
                        (default_prober (se_ffprobe env) (se_flac env)) path;
                  row = (metadata_row (tf_album tf) path found m)\<lparr>le_integrity_ok := tm_integrity_ok m,
                          le_checksum_ok := tm_checksum_ok m, le_integrity_issue := tm_integrity_issue m,
                          le_integrity_sensor_version := Some INTEGRITY_SENSOR_VERSION\<rparr>;
                  st1 = st\<lparr>sw_evidence := upsert_library_evidence now (Some i) row (sw_evidence st)\<rparr>;
                  state = (if tm_status m = ''measured'' then ''measured'' else ''unmeasured'') in
              (state, put_item now rid i (tf_album tf) state st1)
      | _ \<Rightarrow> (''unmeasured'', st))"

definition measure_metadata_item :: "scan_env \<Rightarrow> rat \<Rightarrow> int \<Rightarrow> trackfile \<Rightarrow> scan_state \<Rightarrow> string \<times> scan_state" where
  "measure_metadata_item env now rid tf st =
     (case (tf_id tf, tf_path tf) of
        (Some i, Some path) \<Rightarrow>
          if path = [] then (''unmeasured'', st)
          else
            let found = stat_for_freshness (se_fs env) path (se_root env) (se_lidarr_root env);
                prior = get_library_evidence i (sw_evidence st) in
            if prior_matches prior found
            then (''fresh'', put_item now rid i (tf_album tf) ''fresh'' st)
            else
              let m = measure_trackfile (se_fs env) (se_root env) (se_lidarr_root env)
                        (metadata_prober (se_ffprobe env)) path;
                  st1 = st\<lparr>sw_evidence := upsert_library_metadata now (Some i)
                                (metadata_row (tf_album tf) path found m) (sw_evidence st)\<rparr>;
                  state = (if tm_status m = ''measured'' then ''measured'' else ''unmeasured'') in
              (state, put_item now rid i (tf_album tf) state st1)
      | _ \<Rightarrow> (''unmeasured'', st))"

definition measure_integrity_item :: "scan_env \<Rightarrow> rat \<Rightarrow> int \<Rightarrow> trackfile \<Rightarrow> scan_state \<Rightarrow> string \<times> scan_state" where
  "measure_integrity_item env now rid tf st =
     (case (tf_id tf, tf_path tf) of
        (Some i, Some path) \<Rightarrow>
          if path = [] then (''unmeasured'', st)
          else
            (case get_library_evidence i (sw_evidence st) of
               None \<Rightarrow> (''unmeasured'', put_item now rid i (tf_album tf) ''integrity_skipped'' st)
             | Some prior \<Rightarrow>
                 if \<not> is_measured_row_fresh (se_fs env) (se_root env) prior
                 then (''unmeasured'', put_item now rid i (tf_album tf) ''integrity_skipped'' st)
                 else if is_integrity_row_fresh (se_fs env) (se_root env) prior
                 then (''fresh'', put_item now rid i (tf_album tf) ''integrity_fresh'' st)
                 else
                   let m = measure_trackfile_integrity (se_fs env) (se_root env) (se_lidarr_root env)
                             (integrity_prober (se_ffprobe env) (se_flac env)) path in
                   if im_status m \<noteq> ''measured''
                   then (''unmeasured'', put_item now rid i (tf_album tf) ''integrity_unmeasured'' st)
                   else
                     let row = empty_row\<lparr>le_album_id := tf_album tf, le_integrity_ok := im_integrity_ok m,
                                 le_checksum_ok := im_checksum_ok m, le_integrity_issue := im_integrity_issue m,
                                 le_integrity_sensor_version := Some INTEGRITY_SENSOR_VERSION\<rparr> in
                     (''measured'', put_item now rid i (tf_album tf) ''integrity_measured''
                        (st\<lparr>sw_evidence := update_library_integrity (Some i) row (sw_evidence st)\<rparr>)))
      | _ \<Rightarrow> (''unmeasured'', st))"

definition SPECTRAL_TERMINAL_ITEM_STATES :: "string list" where
  "SPECTRAL_TERMINAL_ITEM_STATES = [''spectral_fresh'', ''spectral_measured'', ''spectral_unmeasured'', ''spectral_skipped'']"

definition spectral_item_done :: "int \<Rightarrow> int \<Rightarrow> scan_state \<Rightarrow> bool" where
  "spectral_item_done rid i st =
     (case get_library_scan_item rid i (sw_db st) of
        None \<Rightarrow> False | Some it \<Rightarrow> item_state it \<in> set SPECTRAL_TERMINAL_ITEM_STATES)"

text \<open>\<open>None\<close> when the measurement raises; \<open>se_exc_text\<close> is the text of that exception.\<close>

definition measure_spectral_item :: "scan_env \<Rightarrow> rat \<Rightarrow> int \<Rightarrow> trackfile \<Rightarrow> scan_state \<Rightarrow> string option \<times> scan_state" where
  "measure_spectral_item env now rid tf st =
     (case (tf_id tf, tf_path tf) of
        (Some i, Some path) \<Rightarrow>
          if path = [] then (Some ''unmeasured'', st)
          else if spectral_item_done rid i st then (Some ''fresh'', st)
          else
            (case get_library_evidence i (sw_evidence st) of
               None \<Rightarrow> (Some ''unmeasured'', put_item now rid i (tf_album tf) ''spectral_skipped'' st)
             | Some prior \<Rightarrow>
                 if \<not> is_measured_row_fresh (se_fs env) (se_root env) prior
                 then (Some ''unmeasured'', put_item now rid i (tf_album tf) ''spectral_skipped'' st)
                 else if is_spectral_row_fresh (se_fs env) (se_root env) prior
                 then (Some ''fresh'', put_item now rid i (tf_album tf) ''spectral_fresh'' st)
                 else
                   (case measure_trackfile_spectral (se_fs env) (se_spectral_enabled env) (se_root env)
                           (se_lidarr_root env) (se_detective env) path of
                      None \<Rightarrow> (None, st)
                    | Some m \<Rightarrow>
                        let row = empty_row\<lparr>le_album_id := tf_album tf, le_authentic := sm_authentic m,
                                    le_spectral_status := Some (sm_status m), le_spectral_reason := sm_reason m,
                                    le_spectral_verdict := sm_verdict m,
                                    le_spectral_sensor_version := Some SPECTRAL_SENSOR_VERSION\<rparr>;
                            ok = (sm_status m = ''measured'') in
                        (Some (if ok then ''measured'' else ''unmeasured''),
                         put_item now rid i (tf_album tf) (if ok then ''spectral_measured'' else ''spectral_unmeasured'')
                           (st\<lparr>sw_evidence := update_library_spectral now (Some i) row (sw_evidence st)\<rparr>))))
      | _ \<Rightarrow> (Some ''unmeasured'', st))"

section \<open>Counters and progress\<close>

record counters =
  ct_total :: int
  ct_processed :: int
  ct_measured :: int
  ct_fresh :: int
  ct_unmeasured :: int
  ct_error :: int

definition zero_counters :: counters where
  "zero_counters = \<lparr>ct_total = 0, ct_processed = 0, ct_measured = 0, ct_fresh = 0, ct_unmeasured = 0, ct_error = 0\<rparr>"

definition totals_of :: "counters \<Rightarrow> (string \<times> int) list" where
  "totals_of c = [(''total_items'', ct_total c), (''processed_items'', ct_processed c), (''measured_items'', ct_measured c),
     (''fresh_items'', ct_fresh c), (''unmeasured_items'', ct_unmeasured c), (''error_items'', ct_error c)]"

definition count_scan_outcome :: "string \<Rightarrow> counters \<Rightarrow> counters" where
  "count_scan_outcome outcome c =
     (if outcome = ''fresh'' then c\<lparr>ct_fresh := ct_fresh c + 1\<rparr>
      else if outcome = ''measured'' then c\<lparr>ct_measured := ct_measured c + 1\<rparr>
      else c\<lparr>ct_unmeasured := ct_unmeasured c + 1\<rparr>)"

definition scan_percent :: "counters \<Rightarrow> int \<Rightarrow> int" where
  "scan_percent c total_items = \<lfloor>fl_mult (fl_div (of_int (ct_processed c)) (of_int (max 1 total_items))) 100\<rfloor>"

definition with_jobs :: "(jobs_db \<Rightarrow> jobs_db) \<Rightarrow> scan_state \<Rightarrow> scan_state" where
  "with_jobs f st = st\<lparr>sw_db := (sw_db st)\<lparr>sdb_jobs := f (sdb_jobs (sw_db st))\<rparr>\<rparr>"

definition set_scan_run :: "rat \<Rightarrow> int \<Rightarrow> string \<Rightarrow> string option \<Rightarrow> (string \<times> int) list \<Rightarrow> scan_state \<Rightarrow> scan_state" where
  "set_scan_run now rid state err totals st =
     st\<lparr>sw_db := update_library_scan_run_state now rid state err totals (sw_db st)\<rparr>"

definition update_scan_progress :: "rat \<Rightarrow> int \<Rightarrow> int \<Rightarrow> string \<Rightarrow> counters \<Rightarrow> int \<Rightarrow> scan_state \<Rightarrow> scan_state" where
  "update_scan_progress now jid rid mode c total_items st =
     with_jobs (heartbeat_job now jid DEFAULT_LEASE_SEC)
       (set_scan_run now rid ''running'' None (totals_of c)
         (with_jobs (update_job_progress now jid
            [(''stage'', JStr ''library_scan''), (''percent'', JInt (scan_percent c total_items)),
             (''message'', JStr (''Scanned '' @ py_str_int (ct_processed c) @ ''/'' @ py_str_int total_items @ '' library trackfiles'')),
             (''mode'', JStr mode)]) st))"

section \<open>Yielding and cancellation\<close>

definition is_import_work_active :: "scan_state \<Rightarrow> bool" where
  "is_import_work_active st \<longleftrightarrow> count_active_jobs [] [LIBRARY_SCAN_JOB_TYPE] (sdb_jobs (sw_db st)) > 0"

definition cancel_seen :: "bool \<Rightarrow> int \<Rightarrow> scan_state \<Rightarrow> bool" where
  "cancel_seen shutdown jid st \<longleftrightarrow> shutdown \<or> is_job_cancel_requested jid (sdb_jobs (sw_db st))"

definition note_cancelling :: "rat \<Rightarrow> int \<Rightarrow> scan_state \<Rightarrow> scan_state" where
  "note_cancelling now rid st = set_scan_run now rid ''cancelling'' None [] st"

definition pause_poll :: "rat \<Rightarrow> int \<Rightarrow> scan_state \<Rightarrow> scan_state" where
  "pause_poll now jid st =
     with_jobs (update_job_progress now jid
        [(''stage'', JStr ''paused''), (''percent'', JInt 0), (''message'', JStr ''Waiting for import queue to clear'')])
       (with_jobs (heartbeat_job now jid DEFAULT_LEASE_SEC) st)"

text \<open>A wait that ends: the number of polls and whether it ended because cancellation was seen.\<close>

definition wait_for_import_quiet :: "rat \<Rightarrow> int \<Rightarrow> int \<Rightarrow> nat \<times> bool \<Rightarrow> scan_state \<Rightarrow> bool \<times> scan_state" where
  "wait_for_import_quiet now jid rid obs st =
     (let st1 = (pause_poll now jid ^^ fst obs) st in
      if snd obs then (True, note_cancelling now rid st1) else (False, st1))"

section \<open>The sequential loop of the spectral tier\<close>

record poll_obs =
  po_cancel :: bool
  po_wait1 :: "nat \<times> bool"
  po_wait2 :: "nat \<times> bool"

definition SPECTRAL_LEASE_SEC :: rat where
  "SPECTRAL_LEASE_SEC = 15 * 60 + 120"

definition put_error :: "rat \<Rightarrow> int \<Rightarrow> int \<Rightarrow> int option \<Rightarrow> string \<Rightarrow> scan_state \<Rightarrow> scan_state" where
  "put_error now rid i album msg st =
     st\<lparr>sw_db := upsert_library_scan_item now rid i album ''error'' None (Some (take 1000 msg)) (sw_db st)\<rparr>"

text \<open>The body of the \<open>try\<close> block with its handler. A cancellation seen by the second wait is an ordinary
  exception there.\<close>

definition spectral_try :: "scan_env \<Rightarrow> rat \<Rightarrow> int \<Rightarrow> int \<Rightarrow> poll_obs \<Rightarrow> trackfile \<Rightarrow> int \<Rightarrow> counters \<Rightarrow> scan_state \<Rightarrow>
    counters \<times> scan_state" where
  "spectral_try env now jid rid ob tf i c st =
     (if spectral_item_done rid i st then (count_scan_outcome ''fresh'' c, st)
      else
        let st1 = put_item now rid i (tf_album tf) ''spectral_measuring'' st in
        case wait_for_import_quiet now jid rid (po_wait2 ob) st1 of
          (True, st2) \<Rightarrow> (c\<lparr>ct_error := ct_error c + 1\<rparr>, put_error now rid i (tf_album tf) ''library scan cancelled'' st2)
        | (False, st2) \<Rightarrow>
            (case measure_spectral_item env now rid tf (with_jobs (heartbeat_job now jid SPECTRAL_LEASE_SEC) st2) of
               (Some outcome, st3) \<Rightarrow> (count_scan_outcome outcome c, st3)
             | (None, st3) \<Rightarrow> (c\<lparr>ct_error := ct_error c + 1\<rparr>, put_error now rid i (tf_album tf) (se_exc_text env) st3)))"

definition spectral_item :: "scan_env \<Rightarrow> rat \<Rightarrow> int \<Rightarrow> int \<Rightarrow> int \<Rightarrow> poll_obs \<Rightarrow> trackfile \<Rightarrow> counters \<Rightarrow> scan_state \<Rightarrow>
    bool \<times> counters \<times> scan_state" where
  "spectral_item env now jid rid tot ob tf c st =
     (if po_cancel ob then (True, c, note_cancelling now rid st)
      else
        case wait_for_import_quiet now jid rid (po_wait1 ob) st of
          (True, st1) \<Rightarrow> (True, c, st1)
        | (False, st1) \<Rightarrow>
            (case tf_id tf of
               None \<Rightarrow> (False, c\<lparr>ct_unmeasured := ct_unmeasured c + 1, ct_processed := ct_processed c + 1\<rparr>, st1)
             | Some i \<Rightarrow>
                 (case spectral_try env now jid rid ob tf i c st1 of
                    (c1, st2) \<Rightarrow>
                      let c2 = c1\<lparr>ct_processed := ct_processed c1 + 1\<rparr> in
                      (False, c2, update_scan_progress now jid rid ''spectral_missing'' c2 tot st2))))"

fun spectral_items :: "scan_env \<Rightarrow> rat \<Rightarrow> int \<Rightarrow> int \<Rightarrow> int \<Rightarrow> (nat \<Rightarrow> poll_obs) \<Rightarrow> nat \<Rightarrow> trackfile list \<Rightarrow> counters \<Rightarrow>
    scan_state \<Rightarrow> bool \<times> counters \<times> scan_state" where
  "spectral_items env now jid rid tot obs n [] c st = (False, c, st)"
| "spectral_items env now jid rid tot obs n (tf # tfs) c st =
     (case spectral_item env now jid rid tot (obs n) tf c st of
        (True, c1, st1) \<Rightarrow> (True, c1, st1)
      | (False, c1, st1) \<Rightarrow> spectral_items env now jid rid tot obs (Suc n) tfs c1 st1)"

section \<open>The bounded-parallel loop\<close>

text \<open>Where the coordinator is: at the top of the loops; past the look for cancellation, about to look for
  import work; having seen import work; past that, about to take the next item; after a wait that
  timed out; working through the futures that the wait returned.\<close>

datatype phase = Filling | Admitting | Busy | Admitted | Beaten | Settling "nat list"

text \<open>\<open>ps_pending\<close> has the submitted trackfiles by index, each with the result of its future once it has
  one (\<open>Some None\<close> when it raised).\<close>

record pscan =
  ps_phase :: phase
  ps_next :: nat
  ps_pending :: "(nat \<times> string option option) list"
  ps_counters :: counters
  ps_cancelled :: bool
  ps_state :: scan_state

record scan_cfg =
  sc_measure :: "trackfile \<Rightarrow> scan_state \<Rightarrow> string option \<times> scan_state"
  sc_exc_text :: "trackfile \<Rightarrow> string"
  sc_jid :: int
  sc_rid :: int
  sc_mode :: string
  sc_workers :: nat
  sc_measuring :: string
  sc_items :: "trackfile list"

datatype scan_event =
  Check | Admit | Hold | Pause | Submit nat | Skip nat | Work nat | Gather "nat list" | Collect nat | Beat | Resume | Stop | Other

definition ps_start :: "scan_cfg \<Rightarrow> counters \<Rightarrow> scan_state \<Rightarrow> pscan" where
  "ps_start cfg c st =
     \<lparr>ps_phase = Filling, ps_next = 0, ps_pending = [], ps_counters = c, ps_cancelled = False, ps_state = st\<rparr>"

definition ps_finished :: "scan_cfg \<Rightarrow> pscan \<Rightarrow> bool" where
  "ps_finished cfg p \<longleftrightarrow> \<not> ps_cancelled p \<and> ps_pending p = [] \<and> ps_next p = length (sc_items cfg)"

definition at_phase :: "phase \<Rightarrow> pscan \<Rightarrow> bool" where
  "at_phase ph p \<longleftrightarrow> \<not> ps_cancelled p \<and> ps_phase p = ph"

text \<open>The condition of the inner loop, and the wait behind it.\<close>

definition can_submit :: "scan_cfg \<Rightarrow> pscan \<Rightarrow> bool" where
  "can_submit cfg p \<longleftrightarrow> length (ps_pending p) < sc_workers cfg \<and> ps_next p < length (sc_items cfg)"

definition waiting :: "scan_cfg \<Rightarrow> pscan \<Rightarrow> bool" where
  "waiting cfg p \<longleftrightarrow> at_phase Filling p \<and> \<not> can_submit cfg p \<and> ps_pending p \<noteq> []"

definition done_futures :: "pscan \<Rightarrow> nat set" where
  "done_futures p = {n. \<exists>r. (n, Some r) \<in> set (ps_pending p)}"

definition do_submit :: "scan_cfg \<Rightarrow> rat \<Rightarrow> int \<Rightarrow> pscan \<Rightarrow> pscan" where
  "do_submit cfg now i p =
     p\<lparr>ps_phase := Filling, ps_next := Suc (ps_next p), ps_pending := ps_pending p @ [(ps_next p, None)],
       ps_state := put_item now (sc_rid cfg) i (tf_album (sc_items cfg ! ps_next p)) (sc_measuring cfg) (ps_state p)\<rparr>"

definition bump :: "scan_cfg \<Rightarrow> rat \<Rightarrow> counters \<Rightarrow> pscan \<Rightarrow> pscan" where
  "bump cfg now c p =
     (let c' = c\<lparr>ct_processed := ct_processed c + 1\<rparr> in
      p\<lparr>ps_counters := c',
        ps_state := update_scan_progress now (sc_jid cfg) (sc_rid cfg) (sc_mode cfg) c' (int (length (sc_items cfg)))
                      (ps_state p)\<rparr>)"

definition do_collect :: "scan_cfg \<Rightarrow> rat \<Rightarrow> nat \<Rightarrow> string option \<Rightarrow> pscan \<Rightarrow> pscan" where
  "do_collect cfg now n result p =
     (let p1 = p\<lparr>ps_pending := AList.delete n (ps_pending p)\<rparr>; c = ps_counters p; tf = sc_items cfg ! n in
      case result of
        Some outcome \<Rightarrow> bump cfg now (count_scan_outcome outcome c) p1
      | None \<Rightarrow>
          bump cfg now (c\<lparr>ct_error := ct_error c + 1\<rparr>)
            (p1\<lparr>ps_state := put_error now (sc_rid cfg) (the (tf_id tf)) (tf_album tf) (sc_exc_text cfg tf) (ps_state p)\<rparr>))"

definition rest_of :: "nat list \<Rightarrow> phase" where
  "rest_of ns = (if ns = [] then Filling else Settling ns)"

text \<open>Every read of the job queue is a step of its own, so that pool threads and the rest of the program act between
  any two of them: looking for cancellation (\<open>Check\<close>, \<open>Pause\<close>, \<open>Resume\<close>, or \<open>Stop\<close> when it is seen), looking
  for import work (\<open>Admit\<close>, or \<open>Hold\<close> when there is some), taking an item (\<open>Submit\<close>, \<open>Skip\<close>), the end of a wait
  (\<open>Gather\<close>, or \<open>Beat\<close> when it timed out), and each future that the wait returned (\<open>Collect\<close>, in any order).\<close>

inductive scan_step :: "scan_cfg \<Rightarrow> pscan \<Rightarrow> scan_event \<Rightarrow> pscan \<Rightarrow> bool" for cfg where
  check: "at_phase Filling p \<Longrightarrow> can_submit cfg p \<Longrightarrow> \<not> cancel_seen shutdown (sc_jid cfg) (ps_state p) \<Longrightarrow>
    scan_step cfg p Check (p\<lparr>ps_phase := Admitting\<rparr>)"
| admit: "at_phase Admitting p \<Longrightarrow> \<not> is_import_work_active (ps_state p) \<Longrightarrow> scan_step cfg p Admit (p\<lparr>ps_phase := Admitted\<rparr>)"
| hold: "at_phase Admitting p \<Longrightarrow> is_import_work_active (ps_state p) \<Longrightarrow> scan_step cfg p Hold (p\<lparr>ps_phase := Busy\<rparr>)"
| pause: "at_phase Busy p \<Longrightarrow> \<not> cancel_seen shutdown (sc_jid cfg) (ps_state p) \<Longrightarrow>
    scan_step cfg p Pause (p\<lparr>ps_phase := Admitting, ps_state := pause_poll now (sc_jid cfg) (ps_state p)\<rparr>)"
| submit: "at_phase Admitted p \<Longrightarrow> tf_id (sc_items cfg ! ps_next p) = Some i \<Longrightarrow>
    scan_step cfg p (Submit (ps_next p)) (do_submit cfg now i p)"
| skip: "at_phase Admitted p \<Longrightarrow> tf_id (sc_items cfg ! ps_next p) = None \<Longrightarrow>
    scan_step cfg p (Skip (ps_next p))
      (bump cfg now ((ps_counters p)\<lparr>ct_unmeasured := ct_unmeasured (ps_counters p) + 1\<rparr>)
         (p\<lparr>ps_phase := Filling, ps_next := Suc (ps_next p)\<rparr>))"
| work: "(n, None) \<in> set (ps_pending p) \<Longrightarrow> sc_measure cfg (sc_items cfg ! n) (ps_state p) = (result, st') \<Longrightarrow>
    scan_step cfg p (Work n) (p\<lparr>ps_pending := AList.update n (Some result) (ps_pending p), ps_state := st'\<rparr>)"
| gather: "waiting cfg p \<Longrightarrow> ns \<noteq> [] \<Longrightarrow> distinct ns \<Longrightarrow> set ns = done_futures p \<Longrightarrow>
    scan_step cfg p (Gather ns) (p\<lparr>ps_phase := Settling ns\<rparr>)"
| collect: "at_phase (Settling (n # ns)) p \<Longrightarrow> (n, Some result) \<in> set (ps_pending p) \<Longrightarrow>
    scan_step cfg p (Collect n) (do_collect cfg now n result (p\<lparr>ps_phase := rest_of ns\<rparr>))"
| beat: "waiting cfg p \<Longrightarrow> done_futures p = {} \<Longrightarrow>
    scan_step cfg p Beat
      (p\<lparr>ps_phase := Beaten, ps_state := with_jobs (heartbeat_job now (sc_jid cfg) DEFAULT_LEASE_SEC) (ps_state p)\<rparr>)"
| resume: "at_phase Beaten p \<Longrightarrow> \<not> cancel_seen shutdown (sc_jid cfg) (ps_state p) \<Longrightarrow>
    scan_step cfg p Resume (p\<lparr>ps_phase := Filling\<rparr>)"
| stop: "at_phase Filling p \<and> can_submit cfg p \<or> at_phase Busy p \<or> at_phase Beaten p \<Longrightarrow>
    cancel_seen shutdown (sc_jid cfg) (ps_state p) \<Longrightarrow>
    scan_step cfg p Stop (p\<lparr>ps_cancelled := True, ps_state := note_cancelling now (sc_rid cfg) (ps_state p)\<rparr>)"
| other: "table_step (sdb_jobs (sw_db (ps_state p))) e jobs \<Longrightarrow>
    scan_step cfg p Other (p\<lparr>ps_state := with_jobs (\<lambda>_. jobs) (ps_state p)\<rparr>)"

inductive_cases scan_stepE: "scan_step cfg p e p'"

section \<open>Executing a scan job\<close>

datatype scan_end = Finished | Stopped | Raised string

text \<open>A scan ends with two writes, the run first and the job after it; \<open>others\<close> is what the rest of the program
  does to the database in between.\<close>

definition scan_epilogue :: "(scan_state \<Rightarrow> scan_state) \<Rightarrow> rat \<Rightarrow> int \<Rightarrow> int \<Rightarrow> scan_end \<Rightarrow> counters \<Rightarrow> scan_state \<Rightarrow> scan_state" where
  "scan_epilogue others now jid rid result c st =
     (case result of
        Finished \<Rightarrow>
          with_jobs (mark_job_completed now jid (Some ''library_scan_completed'')
              ((''run_id'', JInt rid) # map (\<lambda>(k, v). (k, JInt v)) (totals_of c)))
            (others (set_scan_run now rid ''completed'' None (totals_of c) st))
      | Stopped \<Rightarrow>
          with_jobs (mark_job_cancelled now jid) (others (set_scan_run now rid ''cancelled'' None (totals_of c) st))
      | Raised e \<Rightarrow>
          with_jobs (mark_job_failed now jid e (Some ''library_scan_failed''))
            (others (set_scan_run now rid ''failed'' (Some (take 1000 e)) (totals_of c) st)))"

definition SCAN_TIERS :: "string list" where
  "SCAN_TIERS = [''cheap'', ''metadata'', ''integrity'']"

definition payload_run_id :: "job \<Rightarrow> int" where
  "payload_run_id job = (case dget ''run_id'' (job_payload job) of JInt n \<Rightarrow> n | _ \<Rightarrow> 0)"

definition payload_mode :: "job \<Rightarrow> string" where
  "payload_mode job = (case dget ''mode'' (job_payload job) of JStr m \<Rightarrow> if m = [] then ''cheap'' else m | _ \<Rightarrow> ''cheap'')"

text \<open>\<open>inventory\<close> is Lidarr's trackfile list, or the text of the exception; \<open>tier\<close> runs the loop of a
  mode over the trackfiles; \<open>others\<close> is what the rest of the program does to the database while the inventory
  is fetched (0) and between the two last writes (1).\<close>

definition execute_library_scan_job :: "scan_env \<Rightarrow> rat \<Rightarrow> (nat \<Rightarrow> scan_state \<Rightarrow> scan_state) \<Rightarrow> string + trackfile list \<Rightarrow>
    (string \<Rightarrow> trackfile list \<Rightarrow> counters \<Rightarrow> scan_state \<Rightarrow> scan_end \<times> counters \<times> scan_state) \<Rightarrow> job \<Rightarrow> scan_state \<Rightarrow> scan_state" where
  "execute_library_scan_job env now others inventory tier job st =
     (let jid = job_id job; rid = payload_run_id job; mode = payload_mode job in
      if rid = 0 then with_jobs (mark_job_failed now jid ''library scan missing run_id'' (Some ''failed'')) st
      else if is_job_cancel_requested jid (sdb_jobs (sw_db st))
      then with_jobs (mark_job_cancelled now jid) (others 1 (set_scan_run now rid ''cancelled'' None [] st))
      else if mode = ''spectral_missing'' \<and> \<not> (se_spectral_enabled env \<and> se_background_spectral env)
      then scan_epilogue (others 1) now jid rid (Raised ''background spectral scan disabled'') zero_counters st
      else
        let st1 = others 0 (with_jobs (heartbeat_job now jid DEFAULT_LEASE_SEC) (set_scan_run now rid ''running'' None [] st)) in
        case inventory of
          Inl e \<Rightarrow> scan_epilogue (others 1) now jid rid (Raised e) zero_counters st1
        | Inr tfs \<Rightarrow>
            let c = zero_counters\<lparr>ct_total := int (length tfs)\<rparr>;
                st2 = set_scan_run now rid ''running'' None (totals_of c) st1 in
            if mode \<noteq> ''spectral_missing'' \<and> mode \<notin> set SCAN_TIERS
            then scan_epilogue (others 1) now jid rid (Raised (''unknown library scan mode: '' @ mode)) c st2
            else
              (case tier mode tfs c st2 of
                 (result, c', st3) \<Rightarrow> scan_epilogue (others 1) now jid rid result c' st3))"

definition run_spectral_tier :: "scan_env \<Rightarrow> rat \<Rightarrow> int \<Rightarrow> int \<Rightarrow> (nat \<Rightarrow> poll_obs) \<Rightarrow> string \<Rightarrow> trackfile list \<Rightarrow> counters \<Rightarrow>
    scan_state \<Rightarrow> scan_end \<times> counters \<times> scan_state" where
  "run_spectral_tier env now jid rid obs mode tfs c st =
     (case spectral_items env now jid rid (int (length tfs)) obs 0 tfs c st of
        (True, c', st') \<Rightarrow> (Stopped, c', st')
      | (False, c', st') \<Rightarrow> (Finished, c', st'))"

section \<open>Accounting of the parallel loop\<close>

definition balanced :: "counters \<Rightarrow> bool" where
  "balanced c \<longleftrightarrow> ct_processed c = ct_measured c + ct_fresh c + ct_unmeasured c + ct_error c"

definition outcomes_sum :: "counters \<Rightarrow> int" where
  "outcomes_sum c = ct_measured c + ct_fresh c + ct_unmeasured c + ct_error c"

lemma count_scan_outcome_sel [simp]:
  "outcomes_sum (count_scan_outcome x c) = outcomes_sum c + 1"
  "ct_processed (count_scan_outcome x c) = ct_processed c" "ct_total (count_scan_outcome x c) = ct_total c"
  by (simp_all add: count_scan_outcome_def outcomes_sum_def)

lemma outcomes_sum_update [simp]:
  "outcomes_sum (c\<lparr>ct_error := ct_error c + 1\<rparr>) = outcomes_sum c + 1"
  "outcomes_sum (c\<lparr>ct_unmeasured := ct_unmeasured c + 1\<rparr>) = outcomes_sum c + 1"
  by (simp_all add: outcomes_sum_def)

lemma bump_sel [simp]:
  "ps_phase (bump cfg now c p) = ps_phase p" "ps_next (bump cfg now c p) = ps_next p" "ps_pending (bump cfg now c p) = ps_pending p"
  "ps_cancelled (bump cfg now c p) = ps_cancelled p"
  "ct_processed (ps_counters (bump cfg now c p)) = ct_processed c + 1"
  "outcomes_sum (ps_counters (bump cfg now c p)) = outcomes_sum c"
  "ct_total (ps_counters (bump cfg now c p)) = ct_total c"
  by (simp_all add: bump_def Let_def outcomes_sum_def)

lemma do_collect_sel [simp]:
  "ps_phase (do_collect cfg now n r p) = ps_phase p" "ps_next (do_collect cfg now n r p) = ps_next p" "ps_pending (do_collect cfg now n r p) = AList.delete n (ps_pending p)"
  "ps_cancelled (do_collect cfg now n r p) = ps_cancelled p"
  "ct_processed (ps_counters (do_collect cfg now n r p)) = ct_processed (ps_counters p) + 1"
  "outcomes_sum (ps_counters (do_collect cfg now n r p)) = outcomes_sum (ps_counters p) + 1"
  "ct_total (ps_counters (do_collect cfg now n r p)) = ct_total (ps_counters p)"
  by (simp_all add: do_collect_def Let_def split: option.split)

lemma do_submit_sel [simp]:
  "ps_phase (do_submit cfg now i p) = Filling" "ps_next (do_submit cfg now i p) = Suc (ps_next p)"
  "ps_pending (do_submit cfg now i p) = ps_pending p @ [(ps_next p, None)]"
  "ps_counters (do_submit cfg now i p) = ps_counters p" "ps_cancelled (do_submit cfg now i p) = ps_cancelled p"
  by (simp_all add: do_submit_def)

lemma length_delete_present:
  "distinct (map fst xs) \<Longrightarrow> k \<in> fst ` set xs \<Longrightarrow> Suc (length (AList.delete k xs)) = length xs"
proof (induction xs)
  case (Cons x xs)
  then show ?case
  proof (cases "fst x = k")
    case True
    with Cons.prems have "k \<notin> fst ` set xs" by auto
    then have "AList.delete k xs = xs" by simp
    with True show ?thesis by (cases x) simp
  next
    case False
    with Cons show ?thesis by (cases x) auto
  qed
qed simp

definition pscan_inv :: "scan_cfg \<Rightarrow> pscan \<Rightarrow> bool" where
  "pscan_inv cfg p \<longleftrightarrow>
     ps_next p \<le> length (sc_items cfg) \<and> distinct (map fst (ps_pending p)) \<and>
     (\<forall>n\<in>fst ` set (ps_pending p). n < ps_next p \<and> tf_id (sc_items cfg ! n) \<noteq> None) \<and>
     length (ps_pending p) \<le> sc_workers cfg \<and> ct_processed (ps_counters p) = outcomes_sum (ps_counters p) \<and>
     ct_processed (ps_counters p) + int (length (ps_pending p)) = int (ps_next p) \<and>
     (case ps_phase p of
        Filling \<Rightarrow> True
      | Beaten \<Rightarrow> ps_pending p \<noteq> []
      | Settling ns \<Rightarrow> ns \<noteq> [] \<and> distinct ns \<and> set ns \<subseteq> done_futures p
      | _ \<Rightarrow> can_submit cfg p)"

text \<open>How many steps towards the end are left: at most six per item (look twice, take it, measure it, end a wait,
  collect it), one after each wait that timed out, and one for stopping.\<close>

definition steps_left :: "scan_cfg \<Rightarrow> pscan \<Rightarrow> int" where
  "steps_left cfg p =
     6 * (int (length (sc_items cfg)) - int (ps_next p)) +
     sum_list (map (\<lambda>x. if snd x = None then 3 else 2) (ps_pending p)) +
     (case ps_phase p of Filling \<Rightarrow> 0 | Admitting \<Rightarrow> - 1 | Busy \<Rightarrow> - 1 | Admitted \<Rightarrow> - 2 | Beaten \<Rightarrow> 1
      | Settling ns \<Rightarrow> - int (length ns)) +
     (if ps_cancelled p then 0 else 1)"

definition measured_once :: "scan_cfg \<Rightarrow> nat \<Rightarrow> pscan \<Rightarrow> nat" where
  "measured_once cfg n p = of_bool (n < ps_next p \<and> tf_id (sc_items cfg ! n) \<noteq> None \<and> map_of (ps_pending p) n \<noteq> Some None)"

fun is_work :: "nat \<Rightarrow> scan_event \<Rightarrow> nat" where
  "is_work n (Work m) = of_bool (m = n)"
| "is_work n _ = 0"

text \<open>Everything but waiting for other work, waiting for a measurement, and what the rest of the program does.\<close>

definition effective :: "scan_event \<Rightarrow> bool" where
  "effective e \<longleftrightarrow> e \<notin> {Hold, Pause, Beat, Other}"

fun takes_item :: "scan_event \<Rightarrow> bool" where
  "takes_item (Submit n) = True"
| "takes_item (Skip n) = True"
| "takes_item _ = False"

lemma pending_member:
  "distinct (map fst xs) \<Longrightarrow> (n, r) \<in> set xs \<Longrightarrow> n \<in> fst ` set xs \<and> map_of xs n = Some r"
  by force

lemma update_present:
  assumes "distinct (map fst xs)" "(n, v) \<in> set xs"
  shows "map fst (AList.update n w xs) = map fst xs" "fst ` set (AList.update n w xs) = fst ` set xs"
    "length (AList.update n w xs) = length xs"
proof -
  have "n \<in> set (map fst xs)" using assms(2) by force
  then show k: "map fst (AList.update n w xs) = map fst xs" by (simp add: update_keys)
  from k have "set (map fst (AList.update n w xs)) = set (map fst xs)" by simp
  then show "fst ` set (AList.update n w xs) = fst ` set xs" by simp
  from k have "length (map fst (AList.update n w xs)) = length (map fst xs)" by simp
  then show "length (AList.update n w xs) = length xs" by simp
qed

lemma done_futures_update: "n \<in> fst ` set (ps_pending p) \<Longrightarrow> distinct (map fst (ps_pending p)) \<Longrightarrow>
  done_futures p \<subseteq> done_futures (p\<lparr>ps_pending := AList.update n (Some r) (ps_pending p), ps_state := st\<rparr>)"
proof
  fix m assume d: "distinct (map fst (ps_pending p))" and "m \<in> done_futures p"
  then obtain r' where "(m, Some r') \<in> set (ps_pending p)" by (auto simp: done_futures_def)
  with d have "map_of (ps_pending p) m = Some (Some r')" by simp
  then have "map_of (AList.update n (Some r) (ps_pending p)) m \<in> {Some (Some r'), Some (Some r)}" by (simp add: update_conv')
  then show "m \<in> done_futures (p\<lparr>ps_pending := AList.update n (Some r) (ps_pending p), ps_state := st\<rparr>)"
    by (auto simp: done_futures_def dest: map_of_SomeD)
qed

lemma done_futures_delete: "m \<in> done_futures p \<Longrightarrow> m \<noteq> n \<Longrightarrow> m \<in> done_futures (p\<lparr>ps_pending := AList.delete n (ps_pending p)\<rparr>)"
  by (force simp: done_futures_def AList.delete_eq)

lemma done_futures_cong: "ps_pending p' = ps_pending p \<Longrightarrow> done_futures p' = done_futures p"
  by (simp add: done_futures_def)

lemmas phase_simps = at_phase_def waiting_def can_submit_def rest_of_def

lemma scan_step_inv: "scan_step cfg p e p' \<Longrightarrow> pscan_inv cfg p \<Longrightarrow> pscan_inv cfg p'"
proof (induction rule: scan_step.induct)
  case (submit p i now)
  then show ?case by (auto simp: pscan_inv_def phase_simps less_Suc_eq)
next
  case (skip p now)
  then show ?case by (auto simp: pscan_inv_def phase_simps less_Suc_eq)
next
  case (work n p result st')
  have d: "distinct (map fst (ps_pending p))" using work(3) by (simp add: pscan_inv_def)
  have n: "n \<in> fst ` set (ps_pending p)" using work(1) by force
  note u = update_present[OF d work(1), of "Some result"]
  have ne: "AList.update n (Some result) (ps_pending p) \<noteq> []" by (metis n u(2) empty_iff image_empty list.set(1))
  show ?case
    using work(3) u ne done_futures_update[OF n d, where r = result and st = st']
    by (cases "ps_phase p") (auto simp: pscan_inv_def can_submit_def)
next
  case (collect n ns p result now)
  let ?p = "do_collect cfg now n result (p\<lparr>ps_phase := rest_of ns\<rparr>)"
  have "n \<in> fst ` set (ps_pending p)" using collect(2) by force
  moreover have d: "distinct (map fst (ps_pending p))" using collect(3) by (simp add: pscan_inv_def)
  ultimately have l: "Suc (length (AList.delete n (ps_pending p))) = length (ps_pending p)"
    by (intro length_delete_present)
  have "\<forall>m\<in>fst ` set (AList.delete n (ps_pending p)). m < ps_next p \<and> tf_id (sc_items cfg ! m) \<noteq> None"
    using collect(3) dom_delete_subset[of n "ps_pending p"] unfolding pscan_inv_def by blast
  moreover have "set ns \<subseteq> done_futures ?p" "distinct ns"
  proof -
    have ns: "distinct (n # ns)" "set (n # ns) \<subseteq> done_futures p" using collect(1,3) by (simp_all add: at_phase_def pscan_inv_def)
    have "done_futures ?p = done_futures (p\<lparr>ps_pending := AList.delete n (ps_pending p)\<rparr>)" by (rule done_futures_cong) simp
    with ns done_futures_delete[of _ p n] show "set ns \<subseteq> done_futures ?p" "distinct ns" by auto
  qed
  ultimately show ?case using collect(3) l distinct_delete[OF d, of n]
    by (cases ns) (simp_all add: pscan_inv_def rest_of_def)
next
  case (gather p ns)
  have "done_futures (p\<lparr>ps_phase := Settling ns\<rparr>) = done_futures p" by (rule done_futures_cong) simp
  with gather show ?case by (simp add: pscan_inv_def)
next
  case (other p e jobs)
  have "done_futures (p\<lparr>ps_state := with_jobs (\<lambda>_. jobs) (ps_state p)\<rparr>) = done_futures p" by (rule done_futures_cong) simp
  with other show ?case by (cases "ps_phase p") (simp_all add: pscan_inv_def can_submit_def)
qed (auto simp: pscan_inv_def phase_simps)

lemma map_of_append_fresh:
  "n \<notin> fst ` set xs \<Longrightarrow> map_of (xs @ [(n, v)]) m = (if m = n then Some v else map_of xs m)"
  by (auto simp: map_add_def map_of_eq_None_iff[symmetric] split: option.split)

lemma scan_step_measured:
  "scan_step cfg p e p' \<Longrightarrow> pscan_inv cfg p \<Longrightarrow> measured_once cfg n p' = measured_once cfg n p + is_work n e"
proof (induction rule: scan_step.induct)
  case (submit p i now)
  have "ps_next p \<notin> fst ` set (ps_pending p)" using submit(3) by (auto simp: pscan_inv_def)
  then show ?case by (auto simp: measured_once_def map_of_append_fresh less_Suc_eq simp del: map_of_append)
next
  case (skip p now)
  then show ?case by (auto simp: measured_once_def less_Suc_eq)
next
  case (work m p result st')
  have d: "distinct (map fst (ps_pending p))" using work(3) by (simp add: pscan_inv_def)
  have m: "m \<in> fst ` set (ps_pending p)" "map_of (ps_pending p) m = Some None"
    using pending_member[OF d work(1)] by auto
  then have "m < ps_next p" "tf_id (sc_items cfg ! m) \<noteq> None" using work(3) by (auto simp: pscan_inv_def)
  with m(2) show ?case by (auto simp: measured_once_def update_conv')
next
  case (collect m ns p result now)
  have d: "distinct (map fst (ps_pending p))" using collect(3) by (simp add: pscan_inv_def)
  have "map_of (ps_pending p) m = Some (Some result)" using pending_member[OF d collect(2)] by auto
  then show ?case by (auto simp: measured_once_def delete_conv')
qed (simp_all add: measured_once_def)

lemma pending_cost_update:
  "distinct (map fst xs) \<Longrightarrow> (n, None) \<in> set xs \<Longrightarrow>
   sum_list (map (\<lambda>x. if snd x = None then 3 else 2) (AList.update n (Some r) xs)) + 1 =
   sum_list (map (\<lambda>x. if snd x = None then 3 else (2 :: int)) xs)"
proof (induction xs)
  case (Cons x xs)
  then show ?case
  proof (cases "fst x = n")
    case True
    with Cons.prems have "x = (n, None)" by (cases x) (auto simp: rev_image_eqI)
    then show ?thesis by simp
  next
    case False
    with Cons show ?thesis by (cases x) auto
  qed
qed simp

lemma pending_cost_delete:
  "distinct (map fst xs) \<Longrightarrow> (n, Some r) \<in> set xs \<Longrightarrow>
   sum_list (map (\<lambda>x. if snd x = None then 3 else 2) (AList.delete n xs)) + 2 =
   sum_list (map (\<lambda>x. if snd x = None then 3 else (2 :: int)) xs)"
proof (induction xs)
  case (Cons x xs)
  then show ?case
  proof (cases "fst x = n")
    case True
    with Cons.prems have "x = (n, Some r)" "n \<notin> fst ` set xs" by (cases x; auto simp: rev_image_eqI)+
    then show ?thesis by simp
  next
    case False
    with Cons show ?thesis by (cases x) auto
  qed
qed simp

lemma scan_step_steps_left:
  "scan_step cfg p e p' \<Longrightarrow> pscan_inv cfg p \<Longrightarrow>
   steps_left cfg p' + of_bool (effective e) \<le> steps_left cfg p + of_bool (e = Beat)"
proof (induction rule: scan_step.induct)
  case (work n p result st')
  then show ?case using pending_cost_update[of "ps_pending p" n result] by (simp add: steps_left_def pscan_inv_def)
next
  case (collect n ns p result now)
  then show ?case using pending_cost_delete[of "ps_pending p" n result]
    by (simp add: steps_left_def pscan_inv_def at_phase_def rest_of_def)
next
  case (gather p ns)
  then have "1 \<le> int (length ns)" by (cases ns) simp_all
  with gather show ?case by (simp add: steps_left_def phase_simps)
qed (auto simp: steps_left_def phase_simps effective_def)

lemma pending_cost_ge: "2 * int (length xs) \<le> sum_list (map (\<lambda>x. if snd x = None then 3 else (2 :: int)) xs)"
  by (induction xs) auto

lemma steps_left_nonneg:
  assumes "pscan_inv cfg p"
  shows "0 \<le> steps_left cfg p"
proof -
  have c: "2 * int (length (ps_pending p)) \<le> sum_list (map (\<lambda>x. if snd x = None then 3 else 2) (ps_pending p))"
    by (rule pending_cost_ge)
  have "int (length ns) \<le> int (length (ps_pending p))" if "ps_phase p = Settling ns" for ns
  proof -
    have "set ns \<subseteq> fst ` set (ps_pending p)" "distinct ns"
      using assms that by (force simp: pscan_inv_def done_futures_def)+
    then have "length ns \<le> card (fst ` set (ps_pending p))" by (metis card_mono distinct_card finite_imageI finite_set)
    also have "\<dots> \<le> length (ps_pending p)" by (metis card_length length_map list.set_map)
    finally show ?thesis by simp
  qed
  with assms c show ?thesis
    by (cases "ps_phase p") (force simp: pscan_inv_def steps_left_def can_submit_def)+
qed

interpretation scan_run_inv: preserved "scan_step cfg" "pscan_inv cfg" for cfg
  by unfold_locales (rule scan_step_inv)

interpretation scan_meter: metered "scan_step cfg" "pscan_inv cfg" "measured_once cfg n" "is_work n" for cfg n
  by unfold_locales (rule scan_step_measured)

lemma scan_run_steps_left:
  "run (scan_step cfg) p es p' \<Longrightarrow> pscan_inv cfg p \<Longrightarrow>
   steps_left cfg p' + int (length (filter effective es)) \<le> steps_left cfg p + int (length (filter (\<lambda>e. e = Beat) es))"
proof (induction rule: run.induct)
  case (run_refl s)
  then show ?case by simp
next
  case (run_step s es s' e s'')
  have "pscan_inv cfg s'" using run_step(1,4) by (rule scan_run_inv.run_inv)
  from scan_step_steps_left[OF run_step(2) this] run_step(3)[OF run_step(4)] show ?case
    by (auto simp: effective_def split: if_splits)
qed

lemma ps_start_inv: "ct_processed c = 0 \<Longrightarrow> outcomes_sum c = 0 \<Longrightarrow> pscan_inv cfg (ps_start cfg c st)"
  by (simp add: pscan_inv_def ps_start_def)

section \<open>Properties\<close>

text \<open>(C4) Accounting of a parallel scan. However the pool threads, the coordinator and the rest of the program
  interleave: never more measurements are in flight than there are workers, no trackfile is measured
  twice, the processed items are the sum of the four outcomes, and when the loop ends normally every
  trackfile has been processed and every one with an id has been measured exactly once.\<close>

theorem scan_accounting:
  assumes "run (scan_step cfg) (ps_start cfg c st) es p" "ct_processed c = 0" "outcomes_sum c = 0"
  shows "length (ps_pending p) \<le> sc_workers cfg \<and> (\<forall>n. sum_list (map (is_work n) es) \<le> 1) \<and>
    ct_processed (ps_counters p) = ct_measured (ps_counters p) + ct_fresh (ps_counters p) +
      ct_unmeasured (ps_counters p) + ct_error (ps_counters p) \<and>
    (ps_finished cfg p \<longrightarrow> ct_processed (ps_counters p) = int (length (sc_items cfg)) \<and>
       (\<forall>n<length (sc_items cfg). sum_list (map (is_work n) es) = of_bool (tf_id (sc_items cfg ! n) \<noteq> None)))"
proof -
  note start = ps_start_inv[OF assms(2,3), of cfg st]
  have inv: "pscan_inv cfg p" using scan_run_inv.run_inv[OF assms(1) start] .
  have "measured_once cfg n (ps_start cfg c st) = 0" for n by (simp add: measured_once_def ps_start_def)
  with scan_meter.run_meter[OF assms(1) start] have w: "sum_list (map (is_work n) es) = measured_once cfg n p" for n
    by simp
  have once: "measured_once cfg n p \<le> 1" for n by (simp add: measured_once_def)
  have fin: "measured_once cfg n p = of_bool (tf_id (sc_items cfg ! n) \<noteq> None)"
    if "ps_finished cfg p" "n < length (sc_items cfg)" for n
    using that by (simp add: ps_finished_def measured_once_def)
  show ?thesis
    using inv w once fin by (auto simp: pscan_inv_def outcomes_sum_def ps_finished_def)
qed

text \<open>Cancellation of the job is latched: no step of the loop or of the program withdraws it.\<close>

abbreviation jobs_of :: "pscan \<Rightarrow> jobs_db" where
  "jobs_of p \<equiv> sdb_jobs (sw_db (ps_state p))"

definition measures_only :: "scan_cfg \<Rightarrow> bool" where
  "measures_only cfg \<longleftrightarrow> (\<forall>tf st. sdb_jobs (sw_db (snd (sc_measure cfg tf st))) = sdb_jobs (sw_db st))"

lemma jobs_of_writes [simp]:
  "sdb_jobs (sw_db (put_item now rid i album s st)) = sdb_jobs (sw_db st)"
  "sdb_jobs (sw_db (put_error now rid i album e st)) = sdb_jobs (sw_db st)"
  "sdb_jobs (sw_db (set_scan_run now rid s e' kvs st)) = sdb_jobs (sw_db st)"
  "sdb_jobs (sw_db (with_jobs f st)) = f (sdb_jobs (sw_db st))"
  by (simp_all add: put_item_def put_error_def set_scan_run_def with_jobs_def upsert_library_scan_item_def
      update_library_scan_run_state_def)

lemma jobs_of_progress:
  "\<exists>es. run table_step (sdb_jobs (sw_db st)) es (sdb_jobs (sw_db (update_scan_progress now jid rid m c tot st)))"
  "\<exists>es. run table_step (sdb_jobs (sw_db st)) es (sdb_jobs (sw_db (pause_poll now jid st)))"
  "\<exists>es. run table_step (sdb_jobs (sw_db st)) es (sdb_jobs (sw_db (with_jobs (heartbeat_job now jid lease) st)))"
proof -
  have two: "\<exists>es. run table_step d es d''" if "job_step d a d'" "job_step d' b d''" for d a d' b d''
    using run_trans[OF run_single[of table_step, OF table_step.queue_op[OF that(1)]]
        run_single[of table_step, OF table_step.queue_op[OF that(2)]]] by blast
  show "\<exists>es. run table_step (sdb_jobs (sw_db st)) es (sdb_jobs (sw_db (update_scan_progress now jid rid m c tot st)))"
    by (simp add: update_scan_progress_def) (rule two[OF job_step.progress job_step.heartbeat])
  show "\<exists>es. run table_step (sdb_jobs (sw_db st)) es (sdb_jobs (sw_db (pause_poll now jid st)))"
    by (simp add: pause_poll_def) (rule two[OF job_step.heartbeat job_step.progress])
  show "\<exists>es. run table_step (sdb_jobs (sw_db st)) es (sdb_jobs (sw_db (with_jobs (heartbeat_job now jid lease) st)))"
    by simp (rule exI, rule run_single, rule table_step.queue_op, rule job_step.heartbeat)
qed

lemma progress_from:
  "sdb_jobs (sw_db s) = db \<Longrightarrow> \<exists>es. run table_step db es (sdb_jobs (sw_db (update_scan_progress now jid rid m c tot s)))"
  using jobs_of_progress(1) by blast

lemma scan_step_jobs:
  assumes "scan_step cfg p e p'" and "measures_only cfg"
  shows "\<exists>fs. run table_step (jobs_of p) fs (jobs_of p')"
  using assms
proof (induction rule: scan_step.induct)
  case (skip p now)
  then show ?case by (simp add: bump_def Let_def jobs_of_progress)
next
  case (work n p result st')
  then have "sdb_jobs (sw_db st') = jobs_of p" by (metis measures_only_def snd_conv)
  then show ?case using run_refl by fastforce
next
  case (collect n ns p result now)
  show ?case by (cases result) (simp_all add: do_collect_def bump_def Let_def progress_from)
next
  case (other p e jobs)
  then show ?case using run_single[of table_step] by fastforce
qed (auto simp: do_submit_def note_cancelling_def jobs_of_progress[simplified] intro: run_refl)

lemma cancel_latched_table:
  assumes "run table_step db fs db'" "keys_inv checked_key db" "is_job_cancel_requested i db"
  shows "is_job_cancel_requested i db'"
proof -
  have "jobs_ready d' = jobs_ready d" if "table_step d e d'" for d e d'
    using that by (cases rule: table_step.cases) (auto simp: job_step_ready insert_scan_job_def insert_job_def)
  with assms(1) have "jobs_ready db' = jobs_ready db" by (induction rule: run.induct) auto
  moreover obtain j where "tfind job_id i (jobs_rows db) = Some j" "job_cancel_requested j" "jobs_ready db"
    using assms(3) by (auto simp: is_job_cancel_requested_def split: option.splits)
  moreover from this(1) tq.run_rel[OF assms(1,2)] obtain j' where
    "tfind job_id i (jobs_rows db') = Some j'" "row_evolves j j'" by (auto simp: db_evolves_def)
  ultimately show ?thesis by (simp add: is_job_cancel_requested_def row_evolves_def)
qed

definition admits :: "pscan \<Rightarrow> nat" where
  "admits p = (if ps_phase p \<in> {Admitting, Busy, Admitted} then 1 else 0)"

lemma scan_step_admits:
  "scan_step cfg p e p' \<Longrightarrow> is_job_cancel_requested (sc_jid cfg) (jobs_of p) \<Longrightarrow> admits p' + of_bool (takes_item e) \<le> admits p"
  by (induction rule: scan_step.induct) (auto simp: admits_def at_phase_def cancel_seen_def rest_of_def waiting_def)

lemma scan_run_cancelled:
  assumes "run (scan_step cfg) p es p'" and "measures_only cfg" and "keys_inv checked_key (jobs_of p)"
    and "is_job_cancel_requested (sc_jid cfg) (jobs_of p)"
  shows "keys_inv checked_key (jobs_of p') \<and> is_job_cancel_requested (sc_jid cfg) (jobs_of p') \<and>
    admits p' + length (filter takes_item es) \<le> admits p"
  using assms(1,3,4)
proof (induction rule: run.induct)
  case (run_step s es s' e s'')
  from scan_step_jobs[OF run_step(2) assms(2)] obtain fs where f: "run table_step (jobs_of s') fs (jobs_of s'')" by blast
  from run_step have ih: "keys_inv checked_key (jobs_of s')" "is_job_cancel_requested (sc_jid cfg) (jobs_of s')"
    "admits s' + length (filter takes_item es) \<le> admits s" by auto
  from scan_step_admits[OF run_step(2) ih(2)] ih(3) have "admits s'' + length (filter takes_item (es @ [e])) \<le> admits s"
    by (auto split: if_splits)
  then show ?case using tq.run_inv[OF f ih(1)] cancel_latched_table[OF f ih(1,2)] by blast
qed simp

lemma scan_run_jobs_inv:
  assumes "run (scan_step cfg) p es p'" and "measures_only cfg" and "keys_inv checked_key (jobs_of p)"
  shows "keys_inv checked_key (jobs_of p')"
  using assms(1,3)
proof (induction rule: run.induct)
  case (run_step s es s' e s'')
  from scan_step_jobs[OF run_step(2) assms(2)] obtain fs where "run table_step (jobs_of s') fs (jobs_of s'')" by blast
  then show ?case using run_step(3)[OF run_step(4)] tq.run_inv by blast
qed simp

text \<open>The loop is held back by import work: it is about to look for some and there is some, or it has seen some and
  nothing has been cancelled.\<close>

definition held_back :: "scan_cfg \<Rightarrow> pscan \<Rightarrow> bool" where
  "held_back cfg p \<longleftrightarrow> at_phase Admitting p \<and> is_import_work_active (ps_state p) \<or>
     at_phase Busy p \<and> \<not> is_job_cancel_requested (sc_jid cfg) (jobs_of p)"

lemma effective_simps [simp]:
  "effective Check" "effective Admit" "effective (Submit n)" "effective (Skip n)" "effective (Work n)" "effective (Gather ns)"
  "effective (Collect n)" "effective Resume" "effective Stop" "\<not> effective Hold" "\<not> effective Pause" "\<not> effective Beat" "\<not> effective Other"
  by (simp_all add: effective_def)

lemma effective_step: "scan_step cfg p e p' \<Longrightarrow> effective e \<Longrightarrow> \<exists>e p'. effective e \<and> scan_step cfg p e p'"
  by blast

lemma look_or_stop:
  assumes "\<not> cancel_seen False (sc_jid cfg) (ps_state p) \<Longrightarrow> \<exists>e p'. effective e \<and> scan_step cfg p e p'"
    and "at_phase Filling p \<and> can_submit cfg p \<or> at_phase Busy p \<or> at_phase Beaten p"
  shows "\<exists>e p'. effective e \<and> scan_step cfg p e p'"
proof (cases "cancel_seen False (sc_jid cfg) (ps_state p)")
  case True
  show ?thesis by (rule effective_step[OF scan_step.stop[OF assms(2) True]]) simp
qed (rule assms(1))

lemma wait_progresses:
  assumes inv: "pscan_inv cfg p" and w: "waiting cfg p"
  shows "\<exists>e p'. effective e \<and> scan_step cfg p e p'"
proof (cases "\<exists>n. (n, None) \<in> set (ps_pending p)")
  case True
  then obtain n where n: "(n, None) \<in> set (ps_pending p)" by blast
  obtain result st' where "sc_measure cfg (sc_items cfg ! n) (ps_state p) = (result, st')" by (meson surj_pair)
  from effective_step[OF scan_step.work[OF n this]] show ?thesis by simp
next
  case False
  let ?ns = "map fst (ps_pending p)"
  have "fst ` set (ps_pending p) = done_futures p"
  proof -
    have "\<exists>r. snd x = Some r" if "x \<in> set (ps_pending p)" for x using False that by (cases x; cases "snd x") auto
    then show ?thesis by (force simp: done_futures_def)
  qed
  then have "?ns \<noteq> []" "distinct ?ns" "set ?ns = done_futures p" using inv w by (simp_all add: pscan_inv_def waiting_def)
  from effective_step[OF scan_step.gather[OF w this]] show ?thesis by simp
qed

lemma scan_progresses:
  assumes inv: "pscan_inv cfg p" and going: "\<not> ps_cancelled p" "\<not> ps_finished cfg p" and w: "0 < sc_workers cfg"
  shows "(\<exists>e p'. effective e \<and> scan_step cfg p e p') \<or> held_back cfg p"
proof (cases "ps_phase p")
  case Filling
  then have ph: "at_phase Filling p" using going by (simp add: at_phase_def)
  show ?thesis
  proof (cases "can_submit cfg p")
    case True
    show ?thesis
      by (rule disjI1, rule look_or_stop, rule effective_step[OF scan_step.check[OF ph True]]) (simp_all add: ph True)
  next
    case False
    then have "ps_pending p \<noteq> []" using inv going w by (auto simp: can_submit_def ps_finished_def pscan_inv_def)
    with ph False have "waiting cfg p" by (simp add: waiting_def)
    with wait_progresses[OF inv] show ?thesis by blast
  qed
next
  case Admitting
  then have ph: "at_phase Admitting p" using going by (simp add: at_phase_def)
  show ?thesis
  proof (cases "is_import_work_active (ps_state p)")
    case False
    from effective_step[OF scan_step.admit[OF ph False]] show ?thesis by simp
  qed (simp add: held_back_def ph)
next
  case Busy
  then have ph: "at_phase Busy p" using going by (simp add: at_phase_def)
  show ?thesis
  proof (cases "cancel_seen False (sc_jid cfg) (ps_state p)")
    case True
    from effective_step[OF scan_step.stop[OF _ True]] show ?thesis by (simp add: ph)
  qed (simp add: held_back_def ph cancel_seen_def)
next
  case Admitted
  then have ph: "at_phase Admitted p" using going by (simp add: at_phase_def)
  show ?thesis
  proof (cases "tf_id (sc_items cfg ! ps_next p)")
    case None
    from effective_step[OF scan_step.skip[OF ph None]] show ?thesis by simp
  next
    case (Some i)
    from effective_step[OF scan_step.submit[OF ph Some]] show ?thesis by simp
  qed
next
  case Beaten
  then have ph: "at_phase Beaten p" using going by (simp add: at_phase_def)
  show ?thesis
    by (rule disjI1, rule look_or_stop, rule effective_step[OF scan_step.resume[OF ph]]) (simp_all add: ph)
next
  case (Settling ns)
  then obtain n ms where ns: "ns = n # ms" using inv by (cases ns) (auto simp: pscan_inv_def)
  with Settling inv have "n \<in> done_futures p" by (simp add: pscan_inv_def)
  then obtain r where "(n, Some r) \<in> set (ps_pending p)" by (auto simp: done_futures_def)
  moreover have "at_phase (Settling (n # ms)) p" using Settling ns going by (simp add: at_phase_def)
  ultimately have "\<exists>e p'. effective e \<and> scan_step cfg p e p'"
    using effective_step[OF scan_step.collect] by simp
  then show ?thesis ..
qed

text \<open>(C23) A parallel scan ends. However the threads interleave, at most six effective steps per trackfile, one for
  stopping and one per wait that timed out are ever made. The loop is never stuck: until it has stopped or
  finished, an effective step is possible (for a cancelled scan that has nothing in flight, this is
  stopping), unless the loop is held back by import work, and a cancelled one is so for no longer than it
  takes to look. Once the cancellation of the job has been requested, at most one more trackfile is
  taken. There is at least one worker, and measuring leaves the queue of jobs alone.\<close>

theorem scan_terminates:
  assumes "run (scan_step cfg) (ps_start cfg c st) es p" "ct_processed c = 0" "outcomes_sum c = 0" "0 < sc_workers cfg"
    and "measures_only cfg" and "keys_inv checked_key (sdb_jobs (sw_db st))"
  shows "length (filter effective es) \<le> 6 * length (sc_items cfg) + 1 + length (filter (\<lambda>e. e = Beat) es) \<and>
    (ps_cancelled p \<or> ps_finished cfg p \<or> (\<exists>e p'. effective e \<and> scan_step cfg p e p') \<or>
     at_phase Admitting p \<and> is_import_work_active (ps_state p) \<or>
     at_phase Busy p \<and> \<not> is_job_cancel_requested (sc_jid cfg) (jobs_of p)) \<and>
    (is_job_cancel_requested (sc_jid cfg) (jobs_of p) \<longrightarrow>
       (\<forall>fs p'. run (scan_step cfg) p fs p' \<longrightarrow> length (filter takes_item fs) \<le> 1))"
proof -
  note start = ps_start_inv[OF assms(2,3), of cfg st]
  have inv: "pscan_inv cfg p" using scan_run_inv.run_inv[OF assms(1) start] .
  have "steps_left cfg (ps_start cfg c st) = 6 * int (length (sc_items cfg)) + 1" by (simp add: steps_left_def ps_start_def)
  with scan_run_steps_left[OF assms(1) start] steps_left_nonneg[OF inv]
  have len: "length (filter effective es) \<le> 6 * length (sc_items cfg) + 1 + length (filter (\<lambda>e. e = Beat) es)" by simp
  have "keys_inv checked_key (jobs_of p)"
    using scan_run_jobs_inv[OF assms(1,5)] assms(6) by (simp add: ps_start_def)
  then have "length (filter takes_item fs) \<le> 1"
    if "is_job_cancel_requested (sc_jid cfg) (jobs_of p)" "run (scan_step cfg) p fs p'" for fs p'
    using scan_run_cancelled[OF that(2) assms(5) _ that(1)] by (simp add: admits_def split: if_splits)
  with len scan_progresses[OF inv _ _ assms(4)] show ?thesis unfolding held_back_def by blast
qed

definition demo_scan_cfg :: scan_cfg where
  "demo_scan_cfg = \<lparr>sc_measure = (\<lambda>tf st. (Some ''measured'', st)), sc_exc_text = (\<lambda>_. []), sc_jid = 1, sc_rid = 1,
     sc_mode = ''cheap'', sc_workers = 2, sc_measuring = ''measuring'',
     sc_items = [\<lparr>tf_id = Some 5, tf_path = Some ''/m/a'', tf_albumId = None, tf_album_id = None\<rparr>]\<rparr>"

definition demo_scan_state :: scan_state where
  "demo_scan_state = \<lparr>sw_db = \<lparr>sdb_jobs = empty_jobs_db, sdb_runs = [], sdb_next_run = 1, sdb_items = []\<rparr>,
     sw_evidence = \<lparr>edb_ready = True, edb_rows = []\<rparr>\<rparr>"

definition demo_pscan :: "phase \<Rightarrow> pscan" where
  "demo_pscan ph = (ps_start demo_scan_cfg zero_counters demo_scan_state)\<lparr>ps_phase := ph\<rparr>"

definition demo_submitted :: pscan where
  "demo_submitted = do_submit demo_scan_cfg 1 5 (demo_pscan Admitted)"

definition demo_measured :: "phase \<Rightarrow> pscan" where
  "demo_measured ph = demo_submitted\<lparr>ps_phase := ph, ps_pending := [(0, Some (Some ''measured''))]\<rparr>"

lemma demo_measured_sel [simp]:
  "(demo_measured a)\<lparr>ps_phase := b\<rparr> = demo_measured b" "ps_phase (demo_measured a) = a" "\<not> ps_cancelled (demo_measured a)"
  "ps_pending (demo_measured a) = [(0, Some (Some ''measured''))]" "ps_next (demo_measured a) = 1"
  by (simp_all add: demo_measured_def demo_submitted_def demo_pscan_def ps_start_def do_submit_def)

definition demo_collected :: pscan where
  "demo_collected = do_collect demo_scan_cfg 3 0 (Some ''measured'') (demo_measured Filling)"

lemma demo_quiet: "\<not> cancel_seen False 1 demo_scan_state" "\<not> is_import_work_active demo_scan_state"
  by (simp_all add: cancel_seen_def is_import_work_active_def demo_scan_state_def is_job_cancel_requested_def
      empty_jobs_db_def count_active_jobs_def rowcount_def)

lemma demo_scan_begin:
  "run (scan_step demo_scan_cfg) (ps_start demo_scan_cfg zero_counters demo_scan_state) [Check, Admit, Submit 0, Work 0]
     (demo_measured Filling)"
proof -
  have "scan_step demo_scan_cfg (ps_start demo_scan_cfg zero_counters demo_scan_state) Check (demo_pscan Admitting)"
    using scan_step.check[of "ps_start demo_scan_cfg zero_counters demo_scan_state" demo_scan_cfg False] demo_quiet
    by (simp add: demo_pscan_def ps_start_def demo_scan_cfg_def at_phase_def can_submit_def)
  moreover have "scan_step demo_scan_cfg (demo_pscan Admitting) Admit (demo_pscan Admitted)"
    using scan_step.admit[of "demo_pscan Admitting" demo_scan_cfg] demo_quiet
    by (simp add: demo_pscan_def ps_start_def at_phase_def)
  moreover have "scan_step demo_scan_cfg (demo_pscan Admitted) (Submit 0) demo_submitted"
    using scan_step.submit[of "demo_pscan Admitted" demo_scan_cfg 5 1]
    by (simp add: demo_submitted_def demo_pscan_def ps_start_def demo_scan_cfg_def at_phase_def)
  moreover have "scan_step demo_scan_cfg demo_submitted (Work 0) (demo_measured Filling)"
    using scan_step.work[of 0 demo_submitted demo_scan_cfg "Some ''measured''" "ps_state demo_submitted"]
    by (simp add: demo_submitted_def demo_measured_def demo_pscan_def ps_start_def do_submit_def demo_scan_cfg_def)
  ultimately show ?thesis
    using run_step[OF run_step[OF run_step[OF run_step[OF run_refl]]], of "scan_step demo_scan_cfg"] by fastforce
qed

lemma demo_scan_run:
  "run (scan_step demo_scan_cfg) (ps_start demo_scan_cfg zero_counters demo_scan_state)
     [Check, Admit, Submit 0, Work 0, Gather [0], Collect 0] demo_collected"
proof -
  have "scan_step demo_scan_cfg (demo_measured Filling) (Gather [0]) (demo_measured (Settling [0]))"
    using scan_step.gather[of demo_scan_cfg "demo_measured Filling" "[0]"]
    by (simp add: demo_scan_cfg_def phase_simps done_futures_def)
  moreover have "scan_step demo_scan_cfg (demo_measured (Settling [0])) (Collect 0) demo_collected"
    using scan_step.collect[of 0 "[]" "demo_measured (Settling [0])" "Some ''measured''" demo_scan_cfg 3]
    by (simp add: at_phase_def rest_of_def demo_collected_def)
  ultimately show ?thesis
    using run_step[OF run_step[OF demo_scan_begin]] by fastforce
qed

lemma demo_counters: "ct_processed zero_counters = 0" "outcomes_sum zero_counters = 0"
  by (simp_all add: zero_counters_def outcomes_sum_def)

theorem scan_accounting_witness:
  "ct_processed (ps_counters demo_collected) = 1 \<and>
   sum_list (map (is_work 0) [Check, Admit, Submit 0, Work 0, Gather [0], Collect 0]) = 1"
proof -
  have "ps_finished demo_scan_cfg demo_collected"
    by (simp add: ps_finished_def demo_collected_def) (simp add: demo_scan_cfg_def)
  moreover have "length (sc_items demo_scan_cfg) = 1" "tf_id (sc_items demo_scan_cfg ! 0) \<noteq> None"
    by (simp_all add: demo_scan_cfg_def)
  ultimately show ?thesis using scan_accounting[OF demo_scan_run demo_counters] by auto
qed

text \<open>After the measurement of its only item the loop is waiting with an effective step to make; before it takes
  the item, a scan whose job is being cancelled can only stop.\<close>

theorem scan_terminates_witness:
  "length (filter effective [Check, Admit, Submit 0, Work 0]) = 4 \<and> 4 \<le> 6 * length (sc_items demo_scan_cfg) + 1 \<and>
   (\<exists>e p'. effective e \<and> scan_step demo_scan_cfg (demo_measured Filling) e p')"
proof -
  have h: "0 < sc_workers demo_scan_cfg" "measures_only demo_scan_cfg" "keys_inv checked_key (sdb_jobs (sw_db demo_scan_state))"
    by (simp_all add: demo_scan_cfg_def measures_only_def demo_scan_state_def empty_jobs_db_inv)
  have "\<not> ps_cancelled (demo_measured Filling)" "\<not> ps_finished demo_scan_cfg (demo_measured Filling)"
    "\<not> at_phase Admitting (demo_measured Filling)" "\<not> at_phase Busy (demo_measured Filling)"
    by (simp_all add: ps_finished_def at_phase_def)
  with scan_terminates[OF demo_scan_begin demo_counters h] show ?thesis by (simp add: demo_scan_cfg_def)
qed

section \<open>Run and job end together\<close>

abbreviation run_of :: "int \<Rightarrow> scan_state \<Rightarrow> scan_run option" where
  "run_of rid st \<equiv> tfind run_id rid (sdb_runs (sw_db st))"

abbreviation job_of :: "int \<Rightarrow> scan_state \<Rightarrow> job option" where
  "job_of jid st \<equiv> tfind job_id jid (jobs_rows (sdb_jobs (sw_db st)))"

abbreviation db_ready :: "scan_state \<Rightarrow> bool" where
  "db_ready st \<equiv> jobs_ready (sdb_jobs (sw_db st))"

text \<open>What a loop promises to the code around it: the database stays available and neither the run nor the
  job disappears.\<close>

definition scan_keeps :: "scan_state \<Rightarrow> scan_state \<Rightarrow> bool" where
  "scan_keeps st st' \<longleftrightarrow> db_ready st' = db_ready st \<and> run_id ` set (sdb_runs (sw_db st)) \<subseteq> run_id ` set (sdb_runs (sw_db st')) \<and>
     job_id ` set (jobs_rows (sdb_jobs (sw_db st))) \<subseteq> job_id ` set (jobs_rows (sdb_jobs (sw_db st')))"

lemma scan_keeps_refl [simp]: "scan_keeps st st"
  by (simp add: scan_keeps_def)

lemma scan_keeps_trans [trans]: "scan_keeps a b \<Longrightarrow> scan_keeps b c \<Longrightarrow> scan_keeps a c"
  unfolding scan_keeps_def by (metis subset_trans)

lemma scan_keeps_put [simp]:
  "scan_keeps st (put_item now rid i album s st)" "scan_keeps st (put_error now rid i album e st)"
  "scan_keeps st (st\<lparr>sw_evidence := ev\<rparr>)"
  by (simp_all add: scan_keeps_def put_item_def put_error_def upsert_library_scan_item_def)

lemma tupdate_ids: "(\<And>r. key (f r) = key r) \<Longrightarrow> key ` set (tupdate P f rows) = key ` set rows"
  by (metis map_tupdate_same list.set_map)

lemma update_jobs_ids: "(\<And>j. job_id (f j) = job_id j) \<Longrightarrow>
  job_id ` set (jobs_rows (update_jobs P f db)) = job_id ` set (jobs_rows db)"
  by (simp add: update_jobs_def tupdate_ids)

lemma scan_keeps_jobs:
  "(\<And>db. jobs_ready (f db) = jobs_ready db) \<Longrightarrow> (\<And>db. job_id ` set (jobs_rows db) \<subseteq> job_id ` set (jobs_rows (f db))) \<Longrightarrow>
   scan_keeps st (with_jobs f st)"
  by (simp add: scan_keeps_def with_jobs_def)

lemma update_jobs_ready' [simp]: "jobs_ready (update_jobs P f db) = jobs_ready db"
  by (simp add: update_jobs_def)

lemma scan_keeps_ops [simp]:
  "scan_keeps st (with_jobs (heartbeat_job now jid lease) st)" "scan_keeps st (with_jobs (update_job_progress now jid p) st)"
  by (rule scan_keeps_jobs; simp add: heartbeat_job_def update_job_progress_def update_jobs_ids)+

lemma set_total_sel [simp]:
  "run_id (set_total kv r) = run_id r" "run_state (set_total kv r) = run_state r"
  "run_finished_at (set_total kv r) = run_finished_at r"
  by (simp_all add: set_total_def split: prod.split)

lemma fold_totals_sel [simp]:
  "run_id (fold set_total kvs r) = run_id r" "run_state (fold set_total kvs r) = run_state r"
  "run_finished_at (fold set_total kvs r) = run_finished_at r"
  by (induction kvs arbitrary: r) simp_all

lemma set_run_state_sel [simp]:
  "run_id (set_run_state now s e kvs r) = run_id r" "run_state (set_run_state now s e kvs r) = s"
  "s \<in> set TERMINAL_LIBRARY_SCAN_STATES \<Longrightarrow> run_finished_at (set_run_state now s e kvs r) \<noteq> None"
  by (simp_all add: set_run_state_def coalesce_def split: option.split)

lemma scan_keeps_run [simp]: "scan_keeps st (set_scan_run now rid s e kvs st)"
  by (simp add: scan_keeps_def set_scan_run_def update_library_scan_run_state_def tupdate_ids)

lemma scan_keeps_progress [simp]:
  "scan_keeps st (update_scan_progress now jid rid mode c tot st)" "scan_keeps st (note_cancelling now rid st)"
  "scan_keeps st (pause_poll now jid st)"
  unfolding update_scan_progress_def note_cancelling_def pause_poll_def
  by (blast intro: scan_keeps_trans scan_keeps_ops scan_keeps_run)+

lemma scan_keeps_wait: "wait_for_import_quiet now jid rid obs st = (b, st') \<Longrightarrow> scan_keeps st st'"
proof -
  have p: "scan_keeps st ((pause_poll now jid ^^ n) st)" for n
    by (induction n) (auto intro: scan_keeps_trans scan_keeps_progress)
  show "wait_for_import_quiet now jid rid obs st = (b, st') \<Longrightarrow> scan_keeps st st'"
    using p scan_keeps_trans[OF p scan_keeps_progress(2)]
    by (auto simp: wait_for_import_quiet_def Let_def split: if_splits)
qed

lemma scan_keeps_spectral_item: "measure_spectral_item env now rid tf st = (o1, st') \<Longrightarrow> scan_keeps st st'"
  unfolding measure_spectral_item_def Let_def
  by (auto split: option.splits if_splits intro: scan_keeps_trans[OF scan_keeps_put(3) scan_keeps_put(1)])

lemma scan_keeps_try: "spectral_try env now jid rid ob tf i c st = (c', st') \<Longrightarrow> scan_keeps st st'"
  unfolding spectral_try_def Let_def
  by (auto split: if_splits prod.splits bool.splits option.splits
      dest!: scan_keeps_wait scan_keeps_spectral_item
      intro: scan_keeps_trans[OF scan_keeps_put(1)] scan_keeps_trans[OF _ scan_keeps_put(2)]
        scan_keeps_trans[OF _ scan_keeps_trans[OF scan_keeps_ops(1)]])

lemma scan_keeps_item: "spectral_item env now jid rid tot ob tf c st = (b, c', st') \<Longrightarrow> scan_keeps st st'"
  unfolding spectral_item_def Let_def
  by (auto split: if_splits prod.splits bool.splits option.splits
      dest!: scan_keeps_wait scan_keeps_try intro: scan_keeps_trans[OF _ scan_keeps_trans[OF _ scan_keeps_progress(1)]])

lemma scan_keeps_items: "spectral_items env now jid rid tot obs n tfs c st = (b, c', st') \<Longrightarrow> scan_keeps st st'"
proof (induction tfs arbitrary: n c st)
  case (Cons tf tfs)
  obtain b1 c1 st1 where e: "spectral_item env now jid rid tot (obs n) tf c st = (b1, c1, st1)" by (metis prod_cases3)
  from scan_keeps_item[OF e] have k: "scan_keeps st st1" .
  show ?case
    using Cons e k scan_keeps_trans[OF k] by (cases b1) auto
qed simp

lemma scan_keeps_spectral: "scan_keeps st (snd (snd (run_spectral_tier env now jid rid obs mode tfs c st)))"
  unfolding run_spectral_tier_def by (auto split: prod.split bool.split dest: scan_keeps_items)

lemma fold_update_ids: "(\<And>row j. job_id (f row j) = job_id j) \<Longrightarrow>
  job_id ` set (fold (\<lambda>row. tupdate (P row) (f row)) sel rows) = job_id ` set rows"
  by (induction sel arbitrary: rows) (simp_all add: tupdate_ids)

lemma job_step_ids: "job_step db e db' \<Longrightarrow> job_id ` set (jobs_rows db) \<subseteq> job_id ` set (jobs_rows db')"
proof (induction rule: job_step.induct)
  case (enqueue max_attempts now jid ty payload dedupe src sid prio db r db')
  from enqueue(2) show ?case by (cases rule: enqueue_job_cases) auto
next
  case (claim now w lease incl excl db j db')
  then show ?case
    by (auto simp: dequeue_next_job_def claim_def tupdate_ids Let_def split: if_splits option.splits)
next
  case (idle now w lease incl excl db db')
  then show ?case
    by (auto simp: dequeue_next_job_def claim_def tupdate_ids Let_def split: if_splits option.splits)
next
  case (recover db now a force)
  have "job_id ` set (jobs_rows (snd (recover_stale_running_jobs now a force db))) = job_id ` set (jobs_rows db)"
    by (simp add: recover_stale_running_jobs_def Let_def fold_update_ids)
  then show ?case by simp
qed (simp_all add: job_op_defs update_jobs_ids requeue_for_retry_def)

lemma table_step_ids: "table_step db e db' \<Longrightarrow> job_id ` set (jobs_rows db) \<subseteq> job_id ` set (jobs_rows db')"
  by (induction rule: table_step.induct) (auto dest: job_step_ids simp: insert_scan_job_def insert_job_def)

lemma table_step_ready: "table_step db e db' \<Longrightarrow> jobs_ready db' = jobs_ready db"
  by (induction rule: table_step.induct) (auto simp: job_step_ready insert_scan_job_def insert_job_def)

text \<open>The tiers of the parallel loop, and the loop itself.\<close>

lemma scan_keeps_measure:
  "scan_keeps st (snd (measure_trackfile_item env now rid tf st))"
  "scan_keeps st (snd (measure_metadata_item env now rid tf st))"
  "scan_keeps st (snd (measure_integrity_item env now rid tf st))"
  unfolding measure_trackfile_item_def measure_metadata_item_def measure_integrity_item_def Let_def
  by (auto split: option.splits intro: scan_keeps_trans[OF scan_keeps_put(3) scan_keeps_put(1)])

lemma scan_keeps_step:
  assumes "scan_step cfg p e p'" and "\<And>tf st. scan_keeps st (snd (sc_measure cfg tf st))"
  shows "scan_keeps (ps_state p) (ps_state p')"
  using assms
proof (induction rule: scan_step.induct)
  case (work n p result st')
  then show ?case by simp (metis snd_conv)
next
  case (collect n ns p result now)
  then show ?case
    by (cases result) (auto simp: do_collect_def bump_def Let_def intro: scan_keeps_trans[OF scan_keeps_put(2) scan_keeps_progress(1)])
next
  case (other p e jobs)
  then show ?case by (auto simp: scan_keeps_def with_jobs_def dest: table_step_ids table_step_ready)
qed (simp_all add: do_submit_def bump_def Let_def)

lemma scan_keeps_parallel:
  "run (scan_step cfg) p es p' \<Longrightarrow> (\<And>tf st. scan_keeps st (snd (sc_measure cfg tf st))) \<Longrightarrow> scan_keeps (ps_state p) (ps_state p')"
proof (induction rule: run.induct)
  case (run_step s es s' e s'')
  then show ?case using scan_keeps_trans scan_keeps_step by blast
qed simp

lemma tfind_some_iff: "(\<exists>r. tfind key k rows = Some r) \<longleftrightarrow> k \<in> key ` set rows"
  using tfind_None_iff[of key k rows] by (cases "tfind key k rows") auto

text \<open>The end of a scan sets the run and the job to matching states.\<close>

definition scan_settled :: "rat \<Rightarrow> int \<Rightarrow> int \<Rightarrow> scan_state \<Rightarrow> bool" where
  "scan_settled now jid rid st \<longleftrightarrow>
     (\<exists>r j. run_of rid st = Some r \<and> job_of jid st = Some j \<and> run_finished_at r \<noteq> None \<and> job_finished_at j = Some now \<and>
        (run_state r, job_st j) \<in> {(''completed'', Completed), (''failed'', Failed), (''cancelled'', Cancelled)})"

lemma run_of_set [simp]:
  "run_of rid (set_scan_run now rid s e kvs st) =
    (if db_ready st then map_option (set_run_state now s e kvs) (run_of rid st) else run_of rid st)"
proof -
  have "tfind run_id rid (tupdate (\<lambda>r. run_id r = rid) f rows) =
      map_option (\<lambda>r. if run_id r = rid then f r else r) (tfind run_id rid rows)"
    if "\<And>r. run_id (f r) = run_id r" for f :: "scan_run \<Rightarrow> scan_run" and rows
    by (rule tfind_tupdate) (simp add: that)
  then show ?thesis
    by (cases "run_of rid st") (auto simp: set_scan_run_def update_library_scan_run_state_def dest: tfind_SomeD)
qed

lemma with_jobs_sel [simp]:
  "run_of rid (with_jobs f st) = run_of rid st" "jobs_rows (sdb_jobs (sw_db (with_jobs f st))) = jobs_rows (f (sdb_jobs (sw_db st)))"
  "sdb_jobs (sw_db (set_scan_run now rid s e kvs st)) = sdb_jobs (sw_db st)"
  by (simp_all add: with_jobs_def set_scan_run_def update_library_scan_run_state_def)

lemma job_of_update:
  assumes "jobs_ready db" "tfind job_id jid (jobs_rows db) = Some j" "\<And>j. job_id (f j) = job_id j"
  shows "tfind job_id jid (jobs_rows (update_jobs (\<lambda>j. job_id j = jid) f db)) = Some (f j)"
proof -
  have "tfind job_id jid (tupdate (\<lambda>j. job_id j = jid) f (jobs_rows db)) =
      map_option (\<lambda>j. if job_id j = jid then f j else j) (tfind job_id jid (jobs_rows db))"
    by (rule tfind_tupdate) (simp add: assms(3))
  with assms(1,2) show ?thesis by (auto simp: update_jobs_def dest: tfind_SomeD)
qed

lemma terminal_scan_states [simp]:
  "''completed'' \<in> set TERMINAL_LIBRARY_SCAN_STATES" "''failed'' \<in> set TERMINAL_LIBRARY_SCAN_STATES"
  "''cancelled'' \<in> set TERMINAL_LIBRARY_SCAN_STATES"
  by (simp_all add: TERMINAL_LIBRARY_SCAN_STATES_def)

text \<open>What the scan relies on of the rest of the program: rows stay, and a run that has ended stays as it is.\<close>

definition ended_runs_kept :: "scan_state \<Rightarrow> scan_state \<Rightarrow> bool" where
  "ended_runs_kept st st' \<longleftrightarrow> (\<forall>i r. run_of i st = Some r \<and> \<not> run_active r \<longrightarrow> run_of i st' = Some r)"

definition bystander :: "(scan_state \<Rightarrow> scan_state) \<Rightarrow> bool" where
  "bystander f \<longleftrightarrow> (\<forall>st. scan_keeps st (f st) \<and> ended_runs_kept st (f st))"

lemma tfind_update_active:
  "(\<And>r. run_id (f r) = run_id r) \<Longrightarrow> tfind run_id i rows = Some r \<Longrightarrow> \<not> P r \<Longrightarrow> tfind run_id i (tupdate P f rows) = Some r"
  by (simp add: tfind_tupdate)

lemma bystander_cancel: "bystander (\<lambda>st. st\<lparr>sw_db := snd (request_library_scan_cancel now i (sw_db st))\<rparr>)"
proof -
  let ?f = "\<lambda>st. st\<lparr>sw_db := snd (request_library_scan_cancel now i (sw_db st))\<rparr>"
  have "scan_keeps st (?f st)" for st
    by (auto simp: scan_keeps_def request_library_scan_cancel_def request_job_cancel_def Let_def tupdate_ids update_jobs_ids
        split: option.splits)
  moreover have "run_of k (?f st) = Some r" if "run_of k st = Some r" "\<not> run_active r" for k r st
  proof (cases "tfind run_id i (sdb_runs (sw_db st))")
    case None
    with that show ?thesis by (simp add: request_library_scan_cancel_def)
  next
    case (Some q)
    have "k = i \<Longrightarrow> q = r" using Some that(1) by simp
    then show ?thesis using that Some tfind_SomeD[OF that(1)]
      by (auto simp: request_library_scan_cancel_def Let_def intro!: tfind_update_active)
  qed
  ultimately show ?thesis unfolding bystander_def ended_runs_kept_def by blast
qed

lemma bystander_jobs: "(\<And>db. \<exists>e. table_step db e (f db)) \<Longrightarrow> bystander (with_jobs f)"
proof -
  assume f: "\<And>db. \<exists>e. table_step db e (f db)"
  have "scan_keeps st (with_jobs f st)" for st
    by (rule scan_keeps_jobs) (use f table_step_ready table_step_ids in blast)+
  then show ?thesis by (simp add: bystander_def ended_runs_kept_def)
qed

lemma settled_pair:
  assumes "db_ready st" "run_of rid st = Some r" "job_of jid st = Some j" "s \<in> set TERMINAL_LIBRARY_SCAN_STATES"
    and "mark = update_jobs (\<lambda>j. job_id j = jid) f" "\<And>j. job_id (f j) = job_id j"
    and "\<And>j. job_finished_at (f j) = Some now"
      "\<And>j. (s, job_st (f j)) \<in> {(''completed'', Completed), (''failed'', Failed), (''cancelled'', Cancelled)}"
    and "bystander others"
  shows "scan_settled now jid rid (with_jobs mark (others (set_scan_run now rid s e kvs st)))"
proof -
  let ?r = "set_run_state now s e kvs r" and ?st = "set_scan_run now rid s e kvs st"
  obtain y where y: "run_finished_at ?r = Some y"
    using set_run_state_sel(3)[OF assms(4), of now e kvs r] by blast
  have r: "run_of rid ?st = Some ?r" "\<not> run_active ?r"
    using assms(1,2,4) by (auto simp: ACTIVE_LIBRARY_SCAN_STATES_def TERMINAL_LIBRARY_SCAN_STATES_def)
  have "scan_keeps ?st (others ?st)" and kept: "run_of rid (others ?st) = Some ?r"
    using assms(9) r unfolding bystander_def ended_runs_kept_def by blast+
  then have "scan_keeps st (others ?st)" using scan_keeps_trans[OF scan_keeps_run] by blast
  with assms(1,3) obtain j' where "db_ready (others ?st)" "job_of jid (others ?st) = Some j'"
    unfolding scan_keeps_def by (metis subsetD tfind_some_iff)
  from job_of_update[OF this, of f] kept y assms(5-8) show ?thesis unfolding scan_settled_def by simp
qed

lemma scan_epilogue_settles:
  assumes "db_ready st" "run_of rid st = Some r" "job_of jid st = Some j" "bystander others"
  shows "scan_settled now jid rid (scan_epilogue others now jid rid result c st)"
proof (cases result)
  case Finished
  show ?thesis unfolding Finished scan_epilogue_def scan_end.case
    by (rule settled_pair[OF assms(1-3) _ mark_job_completed_def]) (simp_all add: assms(4))
next
  case Stopped
  show ?thesis unfolding Stopped scan_epilogue_def scan_end.case
    by (rule settled_pair[OF assms(1-3) _ mark_job_cancelled_def]) (simp_all add: assms(4))
next
  case (Raised e)
  show ?thesis unfolding Raised scan_epilogue_def scan_end.case
    by (rule settled_pair[OF assms(1-3) _ mark_job_failed_def]) (simp_all add: assms(4))
qed

lemma scan_epilogue_settles_kept:
  assumes "db_ready st" "run_of rid st = Some r" "job_of jid st = Some j" "bystander others" "scan_keeps st st'"
  shows "scan_settled now jid rid (scan_epilogue others now jid rid result c st')"
proof -
  have "rid \<in> run_id ` set (sdb_runs (sw_db st))" "jid \<in> job_id ` set (jobs_rows (sdb_jobs (sw_db st)))"
    using assms(2,3) tfind_some_iff by metis+
  then obtain r' j' where "run_of rid st' = Some r'" "job_of jid st' = Some j'"
    using assms(5) tfind_some_iff unfolding scan_keeps_def by (metis subsetD)
  with assms(1,4,5) show ?thesis by (intro scan_epilogue_settles) (simp_all add: scan_keeps_def)
qed

lemma scan_run_settles:
  assumes ready: "db_ready st" and rid: "payload_run_id job \<noteq> 0"
    and rows: "run_of (payload_run_id job) st = Some r" "job_of (job_id job) st = Some j"
    and tier: "\<And>mode tfs c s. scan_keeps s (snd (snd (tier mode tfs c s)))" and others: "\<And>i. bystander (others i)"
  shows "scan_settled now (job_id job) (payload_run_id job) (execute_library_scan_job env now others inventory tier job st)"
proof -
  let ?jid = "job_id job" and ?rid = "payload_run_id job" and ?mode = "payload_mode job"
  define st1 where
    "st1 = others 0 (with_jobs (heartbeat_job now ?jid DEFAULT_LEASE_SEC) (set_scan_run now ?rid ''running'' None [] st))"
  have "scan_keeps s (others 0 s)" for s using others by (simp add: bystander_def)
  then have k1: "scan_keeps st st1"
    unfolding st1_def by (rule scan_keeps_trans[OF scan_keeps_trans[OF scan_keeps_run scan_keeps_ops(1)]])
  note settle = scan_epilogue_settles_kept[OF ready rows others[of 1]]
  have early: "scan_settled now ?jid ?rid (with_jobs (mark_job_cancelled now ?jid)
      (others 1 (set_scan_run now ?rid ''cancelled'' None [] st)))"
    by (rule settled_pair[OF ready rows _ mark_job_cancelled_def]) (simp_all add: others)
  have loop: "scan_settled now ?jid ?rid (case tier ?mode tfs c (set_scan_run now ?rid ''running'' None kvs st1) of
      (result, c', st3) \<Rightarrow> scan_epilogue (others 1) now ?jid ?rid result c' st3)" for tfs c kvs
  proof -
    obtain res c' st3 where t: "tier ?mode tfs c (set_scan_run now ?rid ''running'' None kvs st1) = (res, c', st3)"
      by (metis prod_cases3)
    from tier[of "set_scan_run now ?rid ''running'' None kvs st1" ?mode tfs c] t
    have "scan_keeps st st3" using scan_keeps_trans[OF scan_keeps_trans[OF k1 scan_keeps_run]] by simp
    with settle t show ?thesis by simp
  qed
  show ?thesis
    unfolding execute_library_scan_job_def Let_def st1_def[symmetric]
    using rid early loop settle k1 scan_keeps_trans[OF k1 scan_keeps_run] by (simp split: sum.split)
qed

text \<open>(C24) A scan job is always settled. Whether it was cancelled before it started, its mode is unknown or
  disabled, Lidarr's inventory fails, or its loop finishes, is cancelled or raises: afterwards the run
  and its job are both completed, both failed or both cancelled, with their end times set; a job that names no
  run is failed. The loop is any one that keeps the rows of run and job, as the loops of the program do. Between
  its last two writes, and while the inventory is fetched, the rest of the program may act, as long as it
  leaves rows in place and ended runs alone.\<close>

theorem scan_job_settles:
  assumes "db_ready st" and "job_of (job_id job) st = Some j"
    and "payload_run_id job = 0 \<or> run_of (payload_run_id job) st = Some r"
    and tier: "\<And>mode tfs c s. scan_keeps s (snd (snd (tier mode tfs c s)))" and others: "\<And>i. bystander (others i)"
    and st': "st' = execute_library_scan_job env now others inventory tier job st"
  shows "if payload_run_id job = 0
    then \<exists>j'. job_of (job_id job) st' = Some j' \<and> job_st j' = Failed \<and> job_result_state j' = Some ''failed'' \<and> job_finished_at j' = Some now
    else scan_settled now (job_id job) (payload_run_id job) st'"
proof (cases "payload_run_id job = 0")
  case True
  have "job_of (job_id job) st' = Some (j\<lparr>job_st := Failed, job_finished_at := Some now, job_result_state := Some ''failed'',
      job_error_text := Some (take 1000 ''library scan missing run_id'')\<rparr>)"
    unfolding st' using True job_of_update[OF assms(1,2)] by (simp add: execute_library_scan_job_def mark_job_failed_def)
  with True show ?thesis by simp
next
  case False
  with assms(3) have "run_of (payload_run_id job) st = Some r" by simp
  from scan_run_settles[OF assms(1) False this assms(2) tier others] False show ?thesis by (simp add: st')
qed

definition demo_scan_job :: job where
  "demo_scan_job = (new_job 1 1 ''library-scan-1'' LIBRARY_SCAN_JOB_TYPE [(''run_id'', JInt 1), (''mode'', JStr ''spectral_missing'')]
     None None None 50 1)\<lparr>job_st := Running\<rparr>"

definition demo_scan_start :: scan_state where
  "demo_scan_start = \<lparr>sw_db = \<lparr>sdb_jobs = \<lparr>jobs_ready = True, jobs_rows = [demo_scan_job], jobs_next_id = 2\<rparr>,
     sdb_runs = [linked_run 1 1 ''spectral_missing'' None 1], sdb_next_run = 2, sdb_items = []\<rparr>,
     sw_evidence = \<lparr>edb_ready = True, edb_rows = []\<rparr>\<rparr>"

definition demo_scan_env :: scan_env where
  "demo_scan_env = \<lparr>se_fs = demo_fs, se_root = ''/lib'', se_lidarr_root = ''/m'', se_ffprobe = (\<lambda>_. Some [''codec_name'' \<mapsto> ''flac'']),
     se_flac = (\<lambda>_. None), se_detective = (\<lambda>_. None), se_spectral_enabled = True, se_background_spectral = True, se_exc_text = []\<rparr>"

definition quiet_obs :: poll_obs where
  "quiet_obs = \<lparr>po_cancel = False, po_wait1 = (0, False), po_wait2 = (0, False)\<rparr>"

text \<open>The operator asks to cancel the run while the job is being settled.\<close>

definition late_cancel :: "nat \<Rightarrow> scan_state \<Rightarrow> scan_state" where
  "late_cancel i st = st\<lparr>sw_db := snd (request_library_scan_cancel 9 1 (sw_db st))\<rparr>"

theorem scan_job_settles_witness:
  "scan_settled 9 1 1 (execute_library_scan_job demo_scan_env 9 late_cancel (Inr (sc_items demo_scan_cfg))
     (run_spectral_tier demo_scan_env 9 1 1 (\<lambda>_. quiet_obs)) demo_scan_job demo_scan_start)"
proof -
  have f: "job_id demo_scan_job = 1" "payload_run_id demo_scan_job = 1"
    by (simp_all add: demo_scan_job_def payload_run_id_def new_job_def)
  have h: "db_ready demo_scan_start" "run_of 1 demo_scan_start = Some (linked_run 1 1 ''spectral_missing'' None 1)"
    "job_of 1 demo_scan_start = Some demo_scan_job"
    by (simp_all add: demo_scan_start_def tfind_Cons linked_run_def new_run_def f)
  have o: "bystander (late_cancel i)" for i
    using bystander_cancel[of 9 1] by (simp add: late_cancel_def[abs_def])
  show ?thesis
    using scan_job_settles[where job = demo_scan_job and st = demo_scan_start and now = 9 and env = demo_scan_env
        and tier = "run_spectral_tier demo_scan_env 9 1 1 (\<lambda>_. quiet_obs)" and inventory = "Inr (sc_items demo_scan_cfg)"
        and others = late_cancel, OF h(1) _ _ _ o refl] h f scan_keeps_spectral by simp
qed

section \<open>Two flaws\<close>

lemma upsert_item_found:
  "jobs_ready (sdb_jobs db) \<Longrightarrow> \<exists>it. get_library_scan_item rid i (upsert_library_scan_item now rid i album s a e db) = Some it \<and>
     item_state it = s \<and> item_last_error it = e"
  by (auto simp: get_library_scan_item_def upsert_library_scan_item_def item_table.find_upsert item_key_def
      merge_item_def split: option.split)

lemma pause_keeps_items: "sdb_items (sw_db ((pause_poll now jid ^^ n) st)) = sdb_items (sw_db st)"
  by (induction n) (simp_all add: pause_poll_def with_jobs_def)

text \<open>A cancellation during the last item of a spectral scan is swallowed. The wait before the request to
  the detector runs inside the item's exception handler, so a cancellation seen there is booked as an
  error of that item; after the last item the scan then reports that it finished.\<close>

theorem spectral_cancel_swallowed:
  assumes "db_ready st" "\<not> spectral_item_done rid i st" "tf_id tf = Some i"
    and obs: "\<not> po_cancel (obs n)" "\<not> snd (po_wait1 (obs n))" "snd (po_wait2 (obs n))"
  shows "\<exists>st' it. spectral_items env now jid rid tot obs n [tf] c st =
      (False, c\<lparr>ct_error := ct_error c + 1, ct_processed := ct_processed c + 1\<rparr>, st') \<and>
    get_library_scan_item rid i (sw_db st') = Some it \<and> item_state it = ''error'' \<and>
    item_last_error it = Some ''library scan cancelled''"
proof -
  let ?st1 = "(pause_poll now jid ^^ fst (po_wait1 (obs n))) st"
  have w1: "wait_for_import_quiet now jid rid (po_wait1 (obs n)) st = (False, ?st1)"
    using obs(2) by (simp add: wait_for_import_quiet_def)
  have r1: "db_ready ?st1" using scan_keeps_wait[OF w1] assms(1) by (simp add: scan_keeps_def)
  have nd: "\<not> spectral_item_done rid i ?st1"
    using assms(1,2) r1 pause_keeps_items[where now = now and jid = jid and n = "fst (po_wait1 (obs n))" and st = st]
    by (simp add: spectral_item_done_def get_library_scan_item_def)
  let ?st2 = "put_item now rid i (tf_album tf) ''spectral_measuring'' ?st1"
  obtain st3 where w2: "wait_for_import_quiet now jid rid (po_wait2 (obs n)) ?st2 = (True, st3)"
    using obs(3) by (simp add: wait_for_import_quiet_def Let_def)
  have r3: "db_ready st3"
    using scan_keeps_wait[OF w2] scan_keeps_put(1)[of ?st1] r1 by (simp add: scan_keeps_def)
  let ?c = "c\<lparr>ct_error := ct_error c + 1, ct_processed := ct_processed c + 1\<rparr>"
  let ?st4 = "put_error now rid i (tf_album tf) ''library scan cancelled'' st3"
  have "spectral_items env now jid rid tot obs n [tf] c st =
      (False, ?c, update_scan_progress now jid rid ''spectral_missing'' ?c tot ?st4)"
    using obs(1) w1 w2 nd assms(3) by (simp add: spectral_item_def spectral_try_def Let_def)
  moreover obtain it where "get_library_scan_item rid i (sw_db ?st4) = Some it" "item_state it = ''error''"
    "item_last_error it = Some ''library scan cancelled''"
    using upsert_item_found[OF r3, of rid i now "tf_album tf" "''error''" None "Some (take 1000 ''library scan cancelled'')"]
    by (auto simp: put_error_def)
  moreover have "sdb_items (sw_db (update_scan_progress now jid rid m k t s)) = sdb_items (sw_db s)" for m k t s
    by (simp add: update_scan_progress_def with_jobs_def set_scan_run_def update_library_scan_run_state_def)
  moreover have "db_ready (update_scan_progress now jid rid m k t s) = db_ready s" for m k t s
    using scan_keeps_progress(1) by (simp add: scan_keeps_def)
  moreover have "db_ready ?st4" using scan_keeps_put(2)[of st3] r3 by (simp add: scan_keeps_def)
  ultimately show ?thesis by (auto simp: get_library_scan_item_def)
qed

theorem spectral_cancel_swallowed_witness:
  "\<exists>st'. spectral_items demo_scan_env 9 1 1 1 (\<lambda>_. quiet_obs\<lparr>po_wait2 := (1, True)\<rparr>) 0 (sc_items demo_scan_cfg) zero_counters demo_scan_start =
     (False, zero_counters\<lparr>ct_error := 1, ct_processed := 1\<rparr>, st')"
proof -
  let ?tf = "hd (sc_items demo_scan_cfg)"
  have s: "sc_items demo_scan_cfg = [?tf]" "tf_id ?tf = Some 5" by (simp_all add: demo_scan_cfg_def)
  have h: "db_ready demo_scan_start" "\<not> spectral_item_done 1 5 demo_scan_start"
    by (simp_all add: demo_scan_start_def spectral_item_done_def get_library_scan_item_def)
  show ?thesis
    using spectral_cancel_swallowed[OF h s(2), of "\<lambda>_. quiet_obs\<lparr>po_wait2 := (1, True)\<rparr>" 0 demo_scan_env 9 1 1 zero_counters] s(1)
    by (auto simp: quiet_obs_def zero_counters_def)
qed

lemma prior_row_after_metadata:
  assumes "edb_ready ev" "tfind le_trackfile_id i (edb_rows ev) = Some old"
  shows "\<exists>r. get_library_evidence i (upsert_library_metadata now (Some i) new ev) = Some r \<and>
    le_path r = le_path new \<and> le_size r = le_size new \<and> le_mtime r = le_mtime new \<and> le_status r = le_status new \<and>
    le_sensor_version r = le_sensor_version new \<and> integrity_view r = integrity_view old \<and> spectral_view r = spectral_view old"
  using assms
  by (simp add: get_library_evidence_def upsert_library_metadata_def write_row_def metadata_tier.find_upsert
      merge_metadata_def metadata_columns_def metadata_payload_def integrity_view_def spectral_view_def)

text \<open>An integrity scan does not re-test a file that was replaced. Take a row whose integrity verdict has the
  current sensor version, and let the file behind it change. A metadata scan stores the new size and
  time beside the old verdict; the integrity scan that follows reports the item as fresh without running
  \<open>flac -t\<close>, and the verdict of the old contents stays.\<close>

theorem replaced_file_not_retested:
  assumes ev: "edb_ready (sw_evidence st)" "get_library_evidence i (sw_evidence st) = Some old"
    and old: "le_integrity_sensor_version old = Some INTEGRITY_SENSOR_VERSION"
    and tf: "tf_id tf = Some i" "tf_path tf = Some path" "path \<noteq> []"
    and disk: "stat_for_freshness (se_fs env) path (se_root env) (se_lidarr_root env) = Some (p, sz, mt)"
      "le_size old \<noteq> Some sz"
    and scan: "measure_metadata_item env now rid tf st = (''measured'', st1)"
  shows "fst (measure_integrity_item env now2 rid2 tf st1) = ''fresh'' \<and>
    (\<exists>r. get_library_evidence i (sw_evidence (snd (measure_integrity_item env now2 rid2 tf st1))) = Some r \<and>
       le_size r = Some sz \<and> integrity_view r = integrity_view old)"
proof -
  define m where "m = measure_trackfile (se_fs env) (se_root env) (se_lidarr_root env) (metadata_prober (se_ffprobe env)) path"
  define new where "new = metadata_row (tf_album tf) path (Some (p, sz, mt)) m"
  have "\<not> prior_matches (Some old) (Some (p, sz, mt))" using disk(2) by (simp add: prior_matches_def)
  then have st1: "sw_evidence st1 = upsert_library_metadata now (Some i) new (sw_evidence st)" "tm_status m = ''measured''"
    using scan tf ev(2) disk(1) by (auto simp: measure_metadata_item_def Let_def m_def new_def put_item_def split: if_splits)
  have row: "tfind le_trackfile_id i (edb_rows (sw_evidence st)) = Some old"
    using ev by (simp add: get_library_evidence_def)
  obtain r where r: "get_library_evidence i (sw_evidence st1) = Some r" "le_path r = le_path new" "le_size r = le_size new"
    "le_mtime r = le_mtime new" "le_status r = le_status new" "le_sensor_version r = le_sensor_version new"
    "integrity_view r = integrity_view old"
    using prior_row_after_metadata[OF ev(1) row, of now new] st1(1) by auto
  have p: "p \<noteq> []" "se_root env \<noteq> []"
    using stat_for_freshness_matches[OF disk(1), of "empty_row\<lparr>le_path := Some p, le_size := Some sz, le_mtime := Some mt\<rparr>"] by simp_all
  then have new: "le_path new = Some p" "le_size new = Some sz" "le_mtime new = Some mt" "le_status new = Some ''measured''"
    "le_sensor_version new = Some METADATA_SENSOR_VERSION"
    using st1(2) by (simp_all add: new_def metadata_row_def)
  have "row_matches_disk (se_fs env) (se_root env) r"
    using stat_for_freshness_matches[OF disk(1), of r] r new by simp
  with r new p(2) old have "is_measured_row_fresh (se_fs env) (se_root env) r" "is_integrity_row_fresh (se_fs env) (se_root env) r"
    by (simp_all add: is_measured_row_fresh_def is_integrity_row_fresh_def integrity_view_def)
  then have "measure_integrity_item env now2 rid2 tf st1 = (''fresh'', put_item now2 rid2 i (tf_album tf) ''integrity_fresh'' st1)"
    using tf r(1) by (simp add: measure_integrity_item_def)
  then show ?thesis using r new by (simp add: put_item_def)
qed

definition demo_env2 :: scan_env where
  "demo_env2 = demo_scan_env\<lparr>se_fs := demo_fs2\<rparr>"

definition demo_stale :: scan_state where
  "demo_stale = demo_scan_start\<lparr>sw_evidence := \<lparr>edb_ready = True, edb_rows = [demo_row]\<rparr>\<rparr>"

definition demo_tf :: trackfile where
  "demo_tf = \<lparr>tf_id = Some 7, tf_path = Some ''/m/a'', tf_albumId = Some 3, tf_album_id = None\<rparr>"

theorem replaced_file_not_retested_witness:
  "fst (measure_integrity_item demo_env2 9 1 demo_tf (snd (measure_metadata_item demo_env2 8 1 demo_tf demo_stale))) = ''fresh''"
proof -
  have res: "resolve_library_path demo_fs2 ''/m/a'' ''/lib'' ''/m'' = Inr (''/'', [''lib'', ''a''])" by code_simp
  have ps: "path_str (''/'', [''lib'', ''a'']) = ''/lib/a''" by (simp add: path_str_def)
  have d: "stat_for_freshness (se_fs demo_env2) ''/m/a'' (se_root demo_env2) (se_lidarr_root demo_env2) = Some (''/lib/a'', 11, 30)"
    by (simp add: demo_env2_def demo_scan_env_def stat_for_freshness_def res ps) (simp add: demo_fs2_def ps)
  have g: "edb_ready (sw_evidence demo_stale)" "get_library_evidence 7 (sw_evidence demo_stale) = Some demo_row"
    "le_integrity_sensor_version demo_row = Some INTEGRITY_SENSOR_VERSION" "le_size demo_row \<noteq> Some 11"
    by (simp_all add: demo_stale_def get_library_evidence_def tfind_Cons demo_row_def)
  have m: "tm_status (measure_trackfile (se_fs demo_env2) (se_root demo_env2) (se_lidarr_root demo_env2)
      (metadata_prober (se_ffprobe demo_env2)) ''/m/a'') = ''measured''"
  proof -
    have "py_lower ''flac'' = ''flac''" by code_simp
    then show ?thesis by (simp add: measure_trackfile_def demo_env2_def demo_scan_env_def res metadata_prober_def
          run_ffprobe_fields_def str_or_def Let_def)
  qed
  have tf: "tf_id demo_tf = Some 7" "tf_path demo_tf = Some ''/m/a''" by (simp_all add: demo_tf_def)
  have "\<not> prior_matches (Some demo_row) (Some (''/lib/a'', 11, 30))" using g(4) by (simp add: prior_matches_def)
  then have "fst (measure_metadata_item demo_env2 8 1 demo_tf demo_stale) = ''measured''"
    using m d g(2) tf by (simp add: measure_metadata_item_def Let_def)
  then obtain st1 where s: "measure_metadata_item demo_env2 8 1 demo_tf demo_stale = (''measured'', st1)"
    by (metis prod.collapse)
  show ?thesis using replaced_file_not_retested[OF g(1-3) tf _ d g(4) s, of 9 1] s by simp
qed

end
