(* ===== verification/Py_Regex.thy ===== *)
theory Py_Regex
  imports Mintarr_Prelude
begin

text \<open>
  The fragment of Python's \<open>re\<close> module that the modelled code uses: backtracking matching with
  greedy repetition, alternatives from left to right, capture groups, line and word anchors, and the
  functions \<open>match\<close>, \<open>search\<close>, \<open>findall\<close> and \<open>sub\<close> on top of it.

  \<open>rmatch r st\<close> lists every way to match \<open>r\<close> at a position, in the order in which the backtracking
  matcher tries them, so that the first element is the match Python reports. A position is the text
  already consumed (reversed), the text still to come, and the groups captured so far.
\<close>

type_synonym mstate = "string \<times> string \<times> (nat \<times> string) list"

datatype re =
    Eps
  | Cls "char \<Rightarrow> bool"
  | Cat re re
  | Alt re re
  | Rep re
  | Grp nat re
  | LineStart
  | TextStart
  | WordEdge

abbreviation rest_of :: "mstate \<Rightarrow> string" where
  "rest_of st \<equiv> fst (snd st)"

text \<open>\<open>\w\<close>: letters, digits, the numeric signs and the underscore among the code points \<open>0 .. 255\<close>.\<close>

definition is_word :: "char \<Rightarrow> bool" where
  "is_word c =
     (let n = (of_char c :: nat) in
      48 \<le> n \<and> n \<le> 57 \<or> 65 \<le> n \<and> n \<le> 90 \<or> n = 95 \<or> 97 \<le> n \<and> n \<le> 122 \<or>
      n \<in> {170, 178, 179, 181, 185, 186, 188, 189, 190} \<or> 192 \<le> n \<and> n \<noteq> 215 \<and> n \<noteq> 247)"

definition at_word_edge :: "string \<Rightarrow> string \<Rightarrow> bool" where
  "at_word_edge before after \<longleftrightarrow>
     (before \<noteq> [] \<and> is_word (hd before)) \<noteq> (after \<noteq> [] \<and> is_word (hd after))"

text \<open>Greedy repetition. An iteration that consumes nothing ends the repetition, so that the length of
  the remaining text bounds the number of iterations.\<close>

primrec rep_upto :: "(mstate \<Rightarrow> mstate list) \<Rightarrow> nat \<Rightarrow> mstate \<Rightarrow> mstate list" where
  "rep_upto f 0 st = [st]"
| "rep_upto f (Suc n) st =
     concat (map (rep_upto f n) (filter (\<lambda>st'. length (rest_of st') < length (rest_of st)) (f st))) @ [st]"

primrec rmatch :: "re \<Rightarrow> mstate \<Rightarrow> mstate list" where
  "rmatch Eps st = [st]"
| "rmatch (Cls p) st =
     (case st of (b, [], gs) \<Rightarrow> [] | (b, c # cs, gs) \<Rightarrow> if p c then [(c # b, cs, gs)] else [])"
| "rmatch (Cat r s) st = concat (map (rmatch s) (rmatch r st))"
| "rmatch (Alt r s) st = rmatch r st @ rmatch s st"
| "rmatch (Rep r) st = rep_upto (rmatch r) (length (rest_of st)) st"
| "rmatch (Grp n r) st =
     map (\<lambda>(b, a, gs). (b, a, (n, take (length (rest_of st) - length a) (rest_of st)) # gs)) (rmatch r st)"
| "rmatch LineStart st = (case st of (b, a, gs) \<Rightarrow> if b = [] \<or> hd b = CHR 0x0A then [st] else [])"
| "rmatch TextStart st = (case st of (b, a, gs) \<Rightarrow> if b = [] then [st] else [])"
| "rmatch WordEdge st = (case st of (b, a, gs) \<Rightarrow> if at_word_edge b a then [st] else [])"

section \<open>Pattern notation\<close>

definition Opt :: "re \<Rightarrow> re" where "Opt r = Alt r Eps"

definition Rep1 :: "re \<Rightarrow> re" where "Rep1 r = Cat r (Rep r)"

fun cats :: "re list \<Rightarrow> re" where
  "cats [] = Eps"
| "cats [r] = r"
| "cats (r # s # rs) = Cat r (cats (s # rs))"

definition Ch :: "char \<Rightarrow> re" where "Ch c = Cls (\<lambda>x. x = c)"

text \<open>A literal under \<open>re.IGNORECASE\<close>.\<close>

definition Lit_ci :: "string \<Rightarrow> re" where
  "Lit_ci w = cats (map (\<lambda>c. Cls (\<lambda>x. py_lower_char x = py_lower_char c)) w)"

definition Space :: re where "Space = Cls py_isspace_char"

definition NonSpace :: re where "NonSpace = Cls (\<lambda>c. \<not> py_isspace_char c)"

definition Digit :: re where "Digit = Cls is_digit"

section \<open>The functions of the module\<close>

text \<open>The first match at the start of the text (\<open>pattern.match\<close>): the matched text, the groups, and the
  position after it.\<close>

definition match_at :: "re \<Rightarrow> string \<Rightarrow> string \<Rightarrow> mstate option" where
  "match_at r before after = (case rmatch r (before, after, []) of [] \<Rightarrow> None | st # _ \<Rightarrow> Some st)"

definition re_match :: "re \<Rightarrow> string \<Rightarrow> mstate option" where
  "re_match r s = match_at r [] s"

definition grp :: "nat \<Rightarrow> mstate \<Rightarrow> string" where
  "grp n st = (case map_of (snd (snd st)) n of None \<Rightarrow> [] | Some w \<Rightarrow> w)"

text \<open>\<open>pattern.search\<close>.\<close>

fun search_from :: "re \<Rightarrow> string \<Rightarrow> string \<Rightarrow> mstate option" where
  "search_from r b [] = match_at r b []"
| "search_from r b (c # cs) =
     (case match_at r b (c # cs) of Some st \<Rightarrow> Some st | None \<Rightarrow> search_from r (c # b) cs)"

definition re_search :: "re \<Rightarrow> string \<Rightarrow> mstate option" where
  "re_search r s = search_from r [] s"

text \<open>\<open>pattern.finditer\<close> and \<open>pattern.sub\<close>, for patterns that never match the empty text: the scan goes on
  behind each match.\<close>

function matches_from :: "re \<Rightarrow> string \<Rightarrow> string \<Rightarrow> mstate list" where
  "matches_from r b [] = []"
| "matches_from r b (c # cs) =
     (case match_at r b (c # cs) of
        Some (b', a, gs) \<Rightarrow>
          if length a \<le> length cs then (b', a, gs) # matches_from r b' a
          else matches_from r (c # b) cs
      | None \<Rightarrow> matches_from r (c # b) cs)"
  by pat_completeness auto
termination by (relation "measure (\<lambda>(r, b, s). length s)") auto

definition re_finditer :: "re \<Rightarrow> string \<Rightarrow> mstate list" where
  "re_finditer r s = matches_from r [] s"

function sub_from :: "re \<Rightarrow> string \<Rightarrow> string \<Rightarrow> string \<Rightarrow> string" where
  "sub_from r new b [] = []"
| "sub_from r new b (c # cs) =
     (case match_at r b (c # cs) of
        Some (b', a, gs) \<Rightarrow>
          if length a \<le> length cs then new @ sub_from r new b' a
          else c # sub_from r new (c # b) cs
      | None \<Rightarrow> c # sub_from r new (c # b) cs)"
  by pat_completeness auto
termination by (relation "measure (\<lambda>(r, new, b, s). length s)") auto

definition re_sub :: "re \<Rightarrow> string \<Rightarrow> string \<Rightarrow> string" where
  "re_sub r new s = sub_from r new [] s"

text \<open>\<open>pattern.sub\<close> with a replacement computed from the match, as for a template with group references.\<close>

function sub_with_from :: "re \<Rightarrow> (mstate \<Rightarrow> string) \<Rightarrow> string \<Rightarrow> string \<Rightarrow> string" where
  "sub_with_from r f b [] = []"
| "sub_with_from r f b (c # cs) =
     (case match_at r b (c # cs) of
        Some (b', a, gs) \<Rightarrow>
          if length a \<le> length cs then f (b', a, gs) @ sub_with_from r f b' a
          else c # sub_with_from r f (c # b) cs
      | None \<Rightarrow> c # sub_with_from r f (c # b) cs)"
  by pat_completeness auto
termination by (relation "measure (\<lambda>(r, f, b, s). length s)") auto

definition re_sub_with :: "re \<Rightarrow> (mstate \<Rightarrow> string) \<Rightarrow> string \<Rightarrow> string" where
  "re_sub_with r f s = sub_with_from r f [] s"

section \<open>Facts about matching\<close>

lemma rep_upto_class:
  "rep_upto (rmatch (Cls p)) (length a) (b, a, gs) =
     map (\<lambda>k. (rev (take k a) @ b, drop k a, gs)) (rev [0..<Suc (length (takeWhile p a))])"
proof (induction a arbitrary: b)
  case (Cons c cs)
  show ?case
  proof (cases "p c")
    case True
    let ?n = "length (takeWhile p cs)"
    have "rev [0..<Suc (Suc ?n)] = map Suc (rev [0..<Suc ?n]) @ [0]"
      by (subst upt_conv_Cons) (simp_all add: map_Suc_upt [symmetric] rev_map del: upt_Suc)
    with True Cons show ?thesis by (simp add: comp_def del: upt_Suc)
  qed simp
qed simp

lemma rmatch_Rep_Cls:
  "rmatch (Rep (Cls p)) (b, a, gs) =
     map (\<lambda>k. (rev (take k a) @ b, drop k a, gs)) (rev [0..<Suc (length (takeWhile p a))])"
  using rep_upto_class[of p a b gs] by simp


lemma concat_map_nested: "concat (map f (concat (map g xs))) = concat (map (\<lambda>x. concat (map f (g x))) xs)"
  by (induction xs) simp_all

lemma rmatch_Cat_assoc: "rmatch (Cat (Cat r s) t) st = rmatch (Cat r (Cat s t)) st"
proof -
  have "rmatch (Cat s t) = (\<lambda>x. concat (map (rmatch t) (rmatch s x)))" by (rule ext) simp
  then show ?thesis by (simp add: concat_map_nested)
qed

lemma rmatch_Cat_Cls:
  "rmatch (Cat (Cls q) r) (b, a, gs) = (case a of [] \<Rightarrow> [] | c # cs \<Rightarrow> if q c then rmatch r (c # b, cs, gs) else [])"
  by (cases a) simp_all

text \<open>A pattern that cannot start with a character of a class. In front of it, a greedy repetition of the
  class has only one way to match: it takes every character of the class.\<close>

definition rejects :: "(char \<Rightarrow> bool) \<Rightarrow> re \<Rightarrow> bool" where
  "rejects p r \<longleftrightarrow> (\<forall>b c cs gs. p c \<longrightarrow> rmatch r (b, c # cs, gs) = [])"

lemma rejects_Cls: "(\<And>c. p c \<Longrightarrow> \<not> q c) \<Longrightarrow> rejects p (Cls q)"
  by (simp add: rejects_def)

lemma rejects_Cat: "rejects p r \<Longrightarrow> rejects p (Cat r s)"
  by (simp add: rejects_def)

lemma rejects_Grp: "rejects p r \<Longrightarrow> rejects p (Grp n r)"
  by (simp add: rejects_def)

lemma rejects_Rep1: "rejects p r \<Longrightarrow> rejects p (Rep1 r)"
  by (simp add: Rep1_def rejects_Cat)

lemmas rejects_intros = rejects_Cls rejects_Cat rejects_Grp rejects_Rep1

lemma rejects_drop:
  assumes "rejects p r" "k < length (takeWhile p a)"
  shows "rmatch r (b, drop k a, gs) = []"
proof -
  have "k < length a" using assms(2) length_takeWhile_le[of p a] by linarith
  then have "drop k a = a ! k # drop (Suc k) a" by (simp add: Cons_nth_drop_Suc)
  moreover have "p (a ! k)" using assms(2) by (metis nth_mem set_takeWhileD takeWhile_nth)
  ultimately show ?thesis using assms(1) by (simp add: rejects_def)
qed

lemma concat_longest:
  assumes "\<And>k. k < n \<Longrightarrow> f k = []"
  shows "concat (map f (rev [0..<Suc n])) = f n"
  using assms by simp

lemma rep_det:
  assumes "rejects p r"
  shows "rmatch (Cat (Rep (Cls p)) r) (b, a, gs) = rmatch r (rev (takeWhile p a) @ b, dropWhile p a, gs)"
proof -
  let ?n = "length (takeWhile p a)" and ?f = "\<lambda>k. rmatch r (rev (take k a) @ b, drop k a, gs)"
  have "rmatch (Cat (Rep (Cls p)) r) (b, a, gs) = concat (map ?f (rev [0..<Suc ?n]))"
    unfolding rmatch.simps(3) rmatch_Rep_Cls by (simp add: comp_def del: upt_Suc)
  also have "\<dots> = ?f ?n" by (rule concat_longest) (rule rejects_drop[OF assms])
  finally show ?thesis by (simp add: takeWhile_eq_take[symmetric] dropWhile_eq_drop[symmetric])
qed

lemma rep1_det:
  assumes "rejects p r"
  shows "rmatch (Cat (Rep1 (Cls p)) r) (b, a, gs) =
    (if takeWhile p a = [] then [] else rmatch r (rev (takeWhile p a) @ b, dropWhile p a, gs))"
proof -
  have "rmatch (Cat (Rep1 (Cls p)) r) (b, a, gs) = rmatch (Cat (Cls p) (Cat (Rep (Cls p)) r)) (b, a, gs)"
    unfolding Rep1_def by (rule rmatch_Cat_assoc)
  then show ?thesis unfolding rmatch_Cat_Cls by (cases a) (simp_all add: rep_det[OF assms] del: rmatch.simps)
qed

lemma rmatch_Rep1:
  "rmatch (Rep1 (Cls p)) (b, a, gs) =
     map (\<lambda>k. (rev (take k a) @ b, drop k a, gs)) (rev [1..<Suc (length (takeWhile p a))])"
proof (cases a)
  case (Cons c cs)
  show ?thesis
  proof (cases "p c")
    case True
    let ?n = "length (takeWhile p cs)"
    have "rmatch (Rep1 (Cls p)) (b, a, gs) = rmatch (Rep (Cls p)) (c # b, cs, gs)"
      using True Cons by (simp add: Rep1_def)
    also have "\<dots> = map (\<lambda>k. (rev (take k cs) @ c # b, drop k cs, gs)) (rev [0..<Suc ?n])" by (rule rmatch_Rep_Cls)
    also have "\<dots> = map (\<lambda>k. (rev (take k a) @ b, drop k a, gs)) (rev [1..<Suc (Suc ?n)])"
      unfolding One_nat_def map_Suc_upt[symmetric] rev_map[symmetric] using Cons by (simp add: comp_def del: upt_Suc)
    finally show ?thesis using True Cons by simp
  qed (simp add: Rep1_def Cons)
qed (simp add: Rep1_def)

lemma grp_rep1_det:
  assumes "rejects p r"
  shows "rmatch (Cat (Grp i (Rep1 (Cls p))) r) (b, a, gs) =
    (if takeWhile p a = [] then []
     else rmatch r (rev (takeWhile p a) @ b, dropWhile p a, (i, takeWhile p a) # gs))"
proof -
  let ?n = "length (takeWhile p a)" and ?f = "\<lambda>k. rmatch r (rev (take k a) @ b, drop k a, (i, take k a) # gs)"
  have le: "?n \<le> length a" by (rule length_takeWhile_le)
  have "rmatch (Cat (Grp i (Rep1 (Cls p))) r) (b, a, gs) = concat (map ?f (rev [1..<Suc ?n]))"
    unfolding rmatch.simps(3,6) rmatch_Rep1 using le by (auto simp: comp_def intro!: arg_cong[of _ _ concat] simp del: upt_Suc)
  moreover have "concat (map ?f (rev [1..<Suc ?n])) = ?f ?n" if "?n > 0"
  proof -
    have "[0..<Suc ?n] = 0 # [1..<Suc ?n]" by (simp add: upt_conv_Cons del: upt_Suc)
    then have "concat (map ?f (rev [0..<Suc ?n])) = concat (map ?f (rev [1..<Suc ?n])) @ ?f 0" by simp
    moreover have "?f 0 = []" using rejects_drop[OF assms that] by simp
    moreover have "concat (map ?f (rev [0..<Suc ?n])) = ?f ?n" by (rule concat_longest) (rule rejects_drop[OF assms])
    ultimately show ?thesis by simp
  qed
  ultimately show ?thesis by (auto simp: takeWhile_eq_take[symmetric] dropWhile_eq_drop[symmetric])
qed

lemma grp_rep1_last:
  "rmatch (Grp i (Rep1 (Cls p))) (b, a, gs) =
    (if takeWhile p a = [] then []
     else (rev (takeWhile p a) @ b, dropWhile p a, (i, takeWhile p a) # gs) #
       map (\<lambda>k. (rev (take k a) @ b, drop k a, (i, take k a) # gs)) (rev [1..<length (takeWhile p a)]))"
proof -
  let ?n = "length (takeWhile p a)"
  have "rmatch (Grp i (Rep1 (Cls p))) (b, a, gs) =
      map (\<lambda>k. (rev (take k a) @ b, drop k a, (i, take k a) # gs)) (rev [1..<Suc ?n])"
    unfolding rmatch.simps(6) rmatch_Rep1 using length_takeWhile_le[of p a] by (auto simp: comp_def simp del: upt_Suc)
  also have "rev [1..<Suc ?n] = (if takeWhile p a = [] then [] else ?n # rev [1..<?n])" by (cases "takeWhile p a") simp_all
  finally show ?thesis by (simp add: takeWhile_eq_take[symmetric] dropWhile_eq_drop[symmetric])
qed

lemma lit_ci_match:
  "rmatch (Lit_ci w) (b, a, gs) =
    (if py_lower (take (length w) a) = py_lower w then [(rev (take (length w) a) @ b, drop (length w) a, gs)] else [])"
proof -
  have "rmatch (cats (map (\<lambda>c. Cls (\<lambda>x. py_lower_char x = py_lower_char c)) w)) (b, a, gs) =
    (if py_lower (take (length w) a) = py_lower w then [(rev (take (length w) a) @ b, drop (length w) a, gs)] else [])"
  proof (induction w arbitrary: a b rule: induct_list012)
    case (3 x y zs)
    then show ?case by (cases a) (simp_all add: rmatch_Cat_Cls py_lower_def del: rmatch.simps(3))
  qed (simp_all add: py_lower_def split: list.split)
  then show ?thesis by (simp add: Lit_ci_def)
qed

end
