(* ===== verification/Cd_Toc.thy ===== *)
theory Cd_Toc
  imports Py_Regex "HOL-Library.Word" "HOL-Library.List_Lexorder" "HOL-Library.Char_ord"
begin

text \<open>
  Reconstructing the table of contents of a ripped CD (\<open>app/cd_toc.py\<close>) and the disc identifiers
  computed from it (\<open>app/cd_discid.py\<close>).

  A completed folder is the list of its regular files, each with its path below the folder, the text
  \<open>_read_text\<close> decodes from its first bytes (empty when it cannot be read) and the sample count \<open>mutagen\<close> reads from it (\<open>None\<close> when that fails).
\<close>

unbundle bit_operations_syntax

section \<open>Cue sheets\<close>

text \<open>\<open>str.splitlines\<close> on the code points \<open>0 .. 255\<close>; a carriage return and a line feed end one line.\<close>

definition is_line_break :: "char \<Rightarrow> bool" where
  "is_line_break c = (let n = (of_char c :: nat) in 10 \<le> n \<and> n \<le> 13 \<or> 28 \<le> n \<and> n \<le> 30 \<or> n = 133)"

fun splitlines :: "string \<Rightarrow> string list" where
  "splitlines [] = []"
| "splitlines [c] = [if is_line_break c then [] else [c]]"
| "splitlines (c # d # cs) =
     (if c = CHR 0x0D \<and> d = CHR 0x0A then [] # splitlines cs
      else if is_line_break c then [] # splitlines (d # cs)
      else (case splitlines (d # cs) of [] \<Rightarrow> [[c]] | l # ls \<Rightarrow> (c # l) # ls))"

definition CUE_FILE_RE :: re where
  "CUE_FILE_RE = cats [LineStart, Rep Space, Lit_ci ''FILE'', WordEdge]"

definition CUE_TRACK_RE :: re where
  "CUE_TRACK_RE = cats [TextStart, Rep Space, Lit_ci ''TRACK'', Rep1 Space, Rep1 Digit, Rep1 Space, Grp 1 (Rep1 NonSpace)]"

definition CUE_INDEX_RE :: re where
  "CUE_INDEX_RE = cats [TextStart, Rep Space, Lit_ci ''INDEX'', Rep1 Space, Grp 1 (Rep1 Digit), Rep1 Space,
     Grp 2 (Rep1 Digit), Ch CHR '':'', Grp 3 (Rep1 Digit), Ch CHR '':'', Grp 4 (Rep1 Digit)]"

definition msf_to_frames :: "int \<Rightarrow> int \<Rightarrow> int \<Rightarrow> int" where
  "msf_to_frames minutes seconds frames = (minutes * 60 + seconds) * 75 + frames"

datatype cue_line = CueTrack string | CueIndex int int | CueOther

text \<open>What a line is: a track with its mode, an index with its number and its position, or neither.\<close>

definition cue_line_of :: "string \<Rightarrow> cue_line" where
  "cue_line_of line =
     (case re_match CUE_TRACK_RE line of
        Some m \<Rightarrow> CueTrack (grp 1 m)
      | None \<Rightarrow>
          (case re_match CUE_INDEX_RE line of
             Some m \<Rightarrow>
               CueIndex (int (dec_val (grp 1 m)))
                 (msf_to_frames (int (dec_val (grp 2 m))) (int (dec_val (grp 3 m))) (int (dec_val (grp 4 m))))
           | None \<Rightarrow> CueOther))"

text \<open>The loop over the lines; \<open>None\<close> is a return with the empty list.\<close>

fun cue_offsets :: "bool \<Rightarrow> bool \<Rightarrow> int list \<Rightarrow> cue_line list \<Rightarrow> int list option" where
  "cue_offsets in_track have_index01 offsets [] = (if in_track \<and> \<not> have_index01 then None else Some offsets)"
| "cue_offsets in_track have_index01 offsets (CueTrack mode # ls) =
     (if in_track \<and> \<not> have_index01 then None
      else if py_upper mode \<noteq> ''AUDIO'' then None
      else cue_offsets True False offsets ls)"
| "cue_offsets in_track have_index01 offsets (CueIndex n pos # ls) =
     (if \<not> in_track then None
      else if n \<noteq> 1 then cue_offsets in_track have_index01 offsets ls
      else if have_index01 then None
      else cue_offsets in_track True (offsets @ [pos]) ls)"
| "cue_offsets in_track have_index01 offsets (CueOther # ls) = cue_offsets in_track have_index01 offsets ls"

definition parse_cue_offsets :: "string \<Rightarrow> int list" where
  "parse_cue_offsets cue_text =
     (if length (re_finditer CUE_FILE_RE cue_text) > 1 then []
      else (case cue_offsets False False [] (map cue_line_of (splitlines cue_text)) of
              None \<Rightarrow> [] | Some offsets \<Rightarrow> offsets))"

section \<open>Tables of contents\<close>

record cd_toc =
  track_offsets_frames :: "int list"
  leadout_frames :: int
  track_count :: int

definition SAMPLES_PER_FRAME :: int where
  "SAMPLES_PER_FRAME = 588"

fun running_offsets :: "int \<Rightarrow> int list \<Rightarrow> int list \<times> int" where
  "running_offsets running [] = ([], running)"
| "running_offsets running (n # ns) = (case running_offsets (running + n) ns of (os, fin) \<Rightarrow> (running # os, fin))"

definition build_toc_from_track_lengths :: "int list \<Rightarrow> cd_toc option" where
  "build_toc_from_track_lengths lengths =
     (if lengths = [] \<or> (\<exists>n\<in>set lengths. n \<le> 0) then None
      else (case running_offsets 0 lengths of
              (offsets, running) \<Rightarrow>
                Some \<lparr>track_offsets_frames = offsets, leadout_frames = running, track_count = int (length offsets)\<rparr>))"

definition samples_to_frames :: "int \<Rightarrow> int option" where
  "samples_to_frames samples =
     (if samples \<le> 0 \<or> samples mod SAMPLES_PER_FRAME \<noteq> 0 then None else Some (samples div SAMPLES_PER_FRAME))"

record rip_file =
  rf_parts :: "string list"
  rf_text :: "nat \<Rightarrow> string"
  rf_samples :: "int option"

text \<open>\<open>Path.suffix\<close> of the last component.\<close>

definition py_suffix :: "string \<Rightarrow> string" where
  "py_suffix name =
     (let ext = rev (takeWhile (\<lambda>c. c \<noteq> CHR ''.'') (rev name)) in
      if CHR ''.'' \<in> set name \<and> ext \<noteq> [] \<and> length ext + 1 < length name then CHR ''.'' # ext else [])"

definition rf_name :: "rip_file \<Rightarrow> string" where
  "rf_name f = (if rf_parts f = [] then [] else last (rf_parts f))"

definition toc_from_per_track :: "rip_file list \<Rightarrow> cd_toc option" where
  "toc_from_per_track flacs =
     (case those (map (\<lambda>f. Option.bind (rf_samples f) samples_to_frames) flacs) of
        None \<Rightarrow> None
      | Some lengths \<Rightarrow> build_toc_from_track_lengths lengths)"

fun increasing :: "int list \<Rightarrow> bool" where
  "increasing (a # b # xs) \<longleftrightarrow> a < b \<and> increasing (b # xs)"
| "increasing _ \<longleftrightarrow> True"

definition toc_from_single_image :: "rip_file \<Rightarrow> rip_file list \<Rightarrow> cd_toc option" where
  "toc_from_single_image img files =
     (case sort_key rf_parts (filter (\<lambda>f. suffix ''.cue'' (rf_name f)) files) of
        [] \<Rightarrow> None
      | cue # _ \<Rightarrow>
          (case Option.bind (rf_samples img) samples_to_frames of
             None \<Rightarrow> None
           | Some leadout \<Rightarrow>
               let offsets = parse_cue_offsets (rf_text cue (1024 * 1024)) in
               if offsets = [] \<or> hd offsets \<noteq> 0 \<or> \<not> increasing offsets then None
               else if last offsets \<ge> leadout then None
               else Some \<lparr>track_offsets_frames = offsets, leadout_frames = leadout,
                          track_count = int (length offsets)\<rparr>))"

text \<open>\<open>None\<close> for the folder when it is not a directory.\<close>

definition reconstruct_toc :: "rip_file list option \<Rightarrow> cd_toc option" where
  "reconstruct_toc folder =
     (case folder of
        None \<Rightarrow> None
      | Some files \<Rightarrow>
          (case sort_key rf_parts (filter (\<lambda>f. py_lower (py_suffix (rf_name f)) = ''.flac'') files) of
             [] \<Rightarrow> None
           | [img] \<Rightarrow> toc_from_single_image img files
           | flacs \<Rightarrow> toc_from_per_track flacs))"

section \<open>Disc identifiers\<close>

definition LEAD_IN_FRAMES :: int where
  "LEAD_IN_FRAMES = 150"

fun disc_sums :: "int \<Rightarrow> int list \<Rightarrow> int \<times> int" where
  "disc_sums position [] = (0, 0)"
| "disc_sums position (offset # os) =
     (case disc_sums (position + 1) os of
        (d1, d2) \<Rightarrow> (offset + d1, (if offset = 0 then 1 else offset) * position + d2))"

definition accuraterip_ids :: "cd_toc \<Rightarrow> int \<times> int" where
  "accuraterip_ids toc =
     (case disc_sums 1 (track_offsets_frames toc @ [leadout_frames toc]) of
        (d1, d2) \<Rightarrow> (d1 AND 0xFFFFFFFF, d2 AND 0xFFFFFFFF))"

function digit_sum :: "int \<Rightarrow> int" where
  "digit_sum v = (if v \<le> 0 then 0 else v mod 10 + digit_sum (v div 10))"
  by auto
termination by (relation "measure nat") auto

declare digit_sum.simps [simp del]

text \<open>\<open>None\<close> is the index error on a table without tracks.\<close>

definition cddb_id :: "cd_toc \<Rightarrow> int option" where
  "cddb_id toc =
     (let absolute = map (\<lambda>x. x + LEAD_IN_FRAMES) (track_offsets_frames toc);
          leadout_abs = leadout_frames toc + LEAD_IN_FRAMES;
          checksum = sum_list (map (\<lambda>x. digit_sum (x div 75)) absolute) in
      case absolute of
        [] \<Rightarrow> None
      | first # _ \<Rightarrow>
          let total_seconds = leadout_abs div 75 - first div 75 in
          Some ((push_bit 24 (checksum mod 0xFF) OR push_bit 8 total_seconds OR track_count toc) AND 0xFFFFFFFF))"

definition hex_digit :: "nat \<Rightarrow> char" where
  "hex_digit d = (if d < 10 then char_of (48 + d) else char_of (87 + d))"

function py_hex :: "nat \<Rightarrow> string" where
  "py_hex n = (if n < 16 then [hex_digit n] else py_hex (n div 16) @ [hex_digit (n mod 16)])"
  by auto
termination by (relation "measure id") auto

declare py_hex.simps [simp del]

definition zfill :: "nat \<Rightarrow> string \<Rightarrow> string" where
  "zfill w s = replicate (w - length s) (CHR ''0'') @ s"

definition accuraterip_url :: "cd_toc \<Rightarrow> string option" where
  "accuraterip_url toc =
     (case accuraterip_ids toc of
        (d1, d2) \<Rightarrow>
          map_option (\<lambda>cddb.
            ''http://www.accuraterip.com/accuraterip/'' @ py_hex (nat (d1 AND 0xF)) @ ''/'' @
            py_hex (nat (drop_bit 4 d1 AND 0xF)) @ ''/'' @ py_hex (nat (drop_bit 8 d1 AND 0xF)) @ ''/dBAR-'' @
            zfill 3 (py_str_int (track_count toc)) @ ''-'' @ zfill 8 (py_hex (nat d1)) @ ''-'' @
            zfill 8 (py_hex (nat d2)) @ ''-'' @ zfill 8 (py_hex (nat cddb)) @ ''.bin'') (cddb_id toc))"

definition ctdb_toc_string :: "cd_toc \<Rightarrow> string" where
  "ctdb_toc_string toc =
     py_join '':'' (map (\<lambda>x. py_str_int (x + LEAD_IN_FRAMES)) (track_offsets_frames toc @ [leadout_frames toc]))"

definition ctdb_lookup_url :: "cd_toc \<Rightarrow> string" where
  "ctdb_lookup_url toc =
     ''http://db.cuetools.net/lookup2.php?version=3&ctdb=1&metadata=fast&fuzzy=1&toc='' @ ctdb_toc_string toc"

definition expected_entry_toc :: "cd_toc \<Rightarrow> string" where
  "expected_entry_toc toc = py_join '':'' (map py_str_int (track_offsets_frames toc @ [leadout_frames toc]))"

section \<open>The cue parser against track blocks\<close>

text \<open>The reference: cut the lines into the part before the first track and one block per track. A sheet is
  usable when no index comes before the first track and every block is an audio track with exactly one
  index 01; its offsets are the positions of these.\<close>

fun cue_blocks :: "cue_line list \<Rightarrow> cue_line list \<times> (string \<times> cue_line list) list" where
  "cue_blocks [] = ([], [])"
| "cue_blocks (CueTrack mode # ls) = (case cue_blocks ls of (pre, bs) \<Rightarrow> ([], (mode, pre) # bs))"
| "cue_blocks (CueIndex n pos # ls) = (case cue_blocks ls of (pre, bs) \<Rightarrow> (CueIndex n pos # pre, bs))"
| "cue_blocks (CueOther # ls) = (case cue_blocks ls of (pre, bs) \<Rightarrow> (CueOther # pre, bs))"

fun index01 :: "cue_line list \<Rightarrow> int list" where
  "index01 [] = []"
| "index01 (CueIndex n pos # ls) = (if n = 1 then pos # index01 ls else index01 ls)"
| "index01 (_ # ls) = index01 ls"

definition block_ok :: "string \<times> cue_line list \<Rightarrow> bool" where
  "block_ok b \<longleftrightarrow> py_upper (fst b) = ''AUDIO'' \<and> length (index01 (snd b)) = 1"

lemma block_ok_Pair [simp]: "block_ok (mode, ls) \<longleftrightarrow> py_upper mode = ''AUDIO'' \<and> length (index01 ls) = 1"
  by (simp add: block_ok_def)

definition no_index :: "cue_line list \<Rightarrow> bool" where
  "no_index ls \<longleftrightarrow> (\<forall>n pos. CueIndex n pos \<notin> set ls)"

lemma cue_offsets_blocks:
  "cue_offsets True have_index01 offsets ls =
     (case cue_blocks ls of (pre, bs) \<Rightarrow>
        if length (index01 pre) + of_bool have_index01 = 1 \<and> list_all block_ok bs
        then Some (offsets @ index01 pre @ concat (map (index01 \<circ> snd) bs)) else None)"
proof (induction ls arbitrary: have_index01 offsets rule: cue_blocks.induct)
  case (2 mode ls)
  then show ?case by (cases "cue_blocks ls") auto
next
  case (3 n pos ls)
  then show ?case by (cases "cue_blocks ls") auto
next
  case (4 ls)
  then show ?case by (cases "cue_blocks ls") auto
qed auto

lemma cue_offsets_start:
  "cue_offsets False False [] ls =
     (case cue_blocks ls of (pre, bs) \<Rightarrow>
        if no_index pre \<and> list_all block_ok bs then Some (concat (map (index01 \<circ> snd) bs)) else None)"
proof (induction ls rule: cue_blocks.induct)
  case (2 mode ls)
  then show ?case by (cases "cue_blocks ls") (auto simp: no_index_def cue_offsets_blocks)
qed (auto simp: no_index_def split: prod.splits)

section \<open>Well-formed tables\<close>

definition wf_toc :: "cd_toc \<Rightarrow> bool" where
  "wf_toc toc \<longleftrightarrow> track_offsets_frames toc \<noteq> [] \<and> hd (track_offsets_frames toc) = 0 \<and>
     increasing (track_offsets_frames toc @ [leadout_frames toc]) \<and> track_count toc = int (length (track_offsets_frames toc))"

fun gaps :: "int list \<Rightarrow> int list" where
  "gaps (a # b # xs) = (b - a) # gaps (b # xs)"
| "gaps _ = []"

lemma increasing_append: "xs \<noteq> [] \<Longrightarrow> increasing (xs @ [y]) \<longleftrightarrow> increasing xs \<and> last xs < y"
  by (induction xs rule: increasing.induct) auto

lemma running_offsets_gaps:
  "running_offsets start ns = (os, fin) \<Longrightarrow>
     gaps (os @ [fin]) = ns \<and> length os = length ns \<and> (ns \<noteq> [] \<longrightarrow> os \<noteq> [] \<and> hd os = start) \<and> (ns = [] \<longrightarrow> fin = start)"
proof (induction ns arbitrary: start os)
  case (Cons n ns)
  obtain os' where o: "running_offsets (start + n) ns = (os', fin)" "os = start # os'"
    using Cons.prems by (auto split: prod.splits)
  from Cons.IH[OF o(1)] o show ?case by (cases os'; cases ns) auto
qed auto

lemma increasing_gaps: "(\<forall>n\<in>set (gaps xs). 0 < n) \<longleftrightarrow> increasing xs"
  by (induction xs rule: gaps.induct) auto

lemma build_toc_spec:
  assumes "build_toc_from_track_lengths ns = Some toc"
  shows "wf_toc toc" "gaps (track_offsets_frames toc @ [leadout_frames toc]) = ns"
proof -
  obtain os fin where ro: "running_offsets 0 ns = (os, fin)" by (cases "running_offsets 0 ns")
  with assms have t: "toc = \<lparr>track_offsets_frames = os, leadout_frames = fin, track_count = int (length os)\<rparr>"
    "ns \<noteq> []" "\<forall>n\<in>set ns. 0 < n" by (auto simp: build_toc_from_track_lengths_def split: if_splits)
  from running_offsets_gaps[OF ro] t show "gaps (track_offsets_frames toc @ [leadout_frames toc]) = ns" by simp
  with running_offsets_gaps[OF ro] t increasing_gaps[of "os @ [fin]"] show "wf_toc toc" by (simp add: wf_toc_def)
qed

definition flac_files :: "rip_file list \<Rightarrow> rip_file list" where
  "flac_files files = sort_key rf_parts (filter (\<lambda>f. py_lower (py_suffix (rf_name f)) = ''.flac'') files)"

lemma those_Some: "those xs = Some ys \<longleftrightarrow> xs = map Some ys"
  by (induction xs arbitrary: ys) (auto split: option.splits simp: Cons_eq_map_conv)

lemma per_track_lengths:
  assumes "toc_from_per_track flacs = Some toc"
  shows "wf_toc toc" "map (\<lambda>n. Some (n * SAMPLES_PER_FRAME)) (gaps (track_offsets_frames toc @ [leadout_frames toc])) = map rf_samples flacs"
proof -
  obtain ns where ns: "map (\<lambda>f. Option.bind (rf_samples f) samples_to_frames) flacs = map Some ns"
    "build_toc_from_track_lengths ns = Some toc"
    using assms by (auto simp: toc_from_per_track_def those_Some split: option.splits)
  show "wf_toc toc" by (rule build_toc_spec(1)[OF ns(2)])
  have "x = Some (n * SAMPLES_PER_FRAME)" if "Option.bind x samples_to_frames = Some n" for x n
    using that by (cases x) (auto simp: samples_to_frames_def SAMPLES_PER_FRAME_def split: if_splits)
  then have "map (\<lambda>n. Some (n * SAMPLES_PER_FRAME)) ns = map rf_samples flacs"
    using ns(1) by (auto simp: list_eq_iff_nth_eq)
  then show "map (\<lambda>n. Some (n * SAMPLES_PER_FRAME)) (gaps (track_offsets_frames toc @ [leadout_frames toc])) = map rf_samples flacs"
    by (simp add: build_toc_spec(2)[OF ns(2)])
qed

lemma single_image_wf:
  assumes "toc_from_single_image img files = Some toc"
  shows "wf_toc toc" "rf_samples img = Some (leadout_frames toc * SAMPLES_PER_FRAME)"
  using assms
  by (auto simp: toc_from_single_image_def wf_toc_def increasing_append Let_def samples_to_frames_def SAMPLES_PER_FRAME_def
      split: list.splits option.splits if_splits bind_splits)

section \<open>Printed cue sheets\<close>

definition two_digits :: "int \<Rightarrow> string" where
  "two_digits n = zfill 2 (py_str_nat (nat n))"

definition track_line :: "nat \<Rightarrow> string" where
  "track_line i = ''  TRACK '' @ two_digits (int i) @ '' AUDIO''"

definition index_line :: "int \<Rightarrow> string" where
  "index_line pos = ''    INDEX 01 '' @ two_digits (pos div 4500) @ '':'' @ two_digits (pos div 75 mod 60) @ '':'' @ two_digits (pos mod 75)"

fun track_lines :: "nat \<Rightarrow> int list \<Rightarrow> string list" where
  "track_lines i [] = []"
| "track_lines i (pos # ps) = track_line i # index_line pos # track_lines (Suc i) ps"

definition cue_sheet :: "int list \<Rightarrow> string" where
  "cue_sheet offsets = py_join [CHR 0x0A] (''FILE \"image.wav\" WAVE'' # track_lines 1 offsets)"

lemma space_not_digit: "py_isspace_char c \<Longrightarrow> \<not> is_digit c"
  by (auto simp: py_isspace_char_def is_digit_def Let_def)

lemma digit_not_space: "is_digit c \<Longrightarrow> \<not> py_isspace_char c"
  using space_not_digit by blast

lemma lower_space: "py_isspace_char c \<Longrightarrow> py_lower_char c = c"
  by (auto simp: py_isspace_char_def py_lower_char_def Let_def)

lemma rejects_Lit_ci:
  assumes "w = x # xs" "\<And>c. p c \<Longrightarrow> py_lower_char c \<noteq> py_lower_char x"
  shows "rejects p (Lit_ci w)"
  using assms by (auto simp: rejects_def lit_ci_match py_lower_def)

lemma is_digit_digit_char: "d < 10 \<Longrightarrow> is_digit (digit_char d)"
  by (simp add: is_digit_def digit_char_def)

lemma cue_chars [simp]:
  "py_isspace_char (CHR '' '')" "\<not> py_isspace_char (CHR ''T'')" "\<not> py_isspace_char (CHR ''I'')" "\<not> py_isspace_char (CHR ''A'')"
  "\<not> py_isspace_char (CHR ''0'')" "\<not> py_isspace_char (CHR ''U'')" "\<not> py_isspace_char (CHR ''D'')" "\<not> py_isspace_char (CHR ''O'')"
  "is_digit (CHR ''0'')" "is_digit (CHR ''1'')" "\<not> is_digit (CHR '' '')" "\<not> is_digit (CHR '':'')"
  by (simp_all add: py_isspace_char_def is_digit_def)

lemma two_digits_digits: "c \<in> set (two_digits n) \<Longrightarrow> is_digit c"
  using py_str_nat_digits[of c "nat n"] by (auto simp: two_digits_def zfill_def is_digit_digit_char)

lemma two_digits_nonempty [simp]: "two_digits n \<noteq> []"
  by (simp add: two_digits_def zfill_def)

lemma dec_val_zeros: "dec_val (replicate k (CHR ''0'') @ s) = dec_val s"
  by (induction k) (simp_all add: dec_val_def digit_val_def)

lemma dec_val_two_digits [simp]: "0 \<le> n \<Longrightarrow> int (dec_val (two_digits n)) = n"
  by (simp add: two_digits_def zfill_def dec_val_zeros)

lemma span_digits:
  assumes "\<not> is_digit c"
  shows "takeWhile is_digit (two_digits n @ c # s) = two_digits n" "dropWhile is_digit (two_digits n @ c # s) = c # s"
  using assms two_digits_digits by (auto simp: takeWhile_append2 dropWhile_append2)

lemma span_digits_end: "takeWhile is_digit (two_digits n) = two_digits n" "dropWhile is_digit (two_digits n) = []"
  using two_digits_digits by auto

lemma hd_two_digits: "takeWhile py_isspace_char (two_digits n @ s) = []" "dropWhile py_isspace_char (two_digits n @ s) = two_digits n @ s"
proof -
  obtain d ds where "two_digits n = d # ds" using two_digits_nonempty[of n] by (cases "two_digits n") auto
  moreover have "\<not> py_isspace_char d" using calculation two_digits_digits[of d n] digit_not_space by simp
  ultimately show "takeWhile py_isspace_char (two_digits n @ s) = []"
    "dropWhile py_isspace_char (two_digits n @ s) = two_digits n @ s" by simp_all
qed

lemma rmatch_Cat_TextStart: "rmatch (Cat TextStart r) ([], a, gs) = rmatch r ([], a, gs)"
  by simp

lemma rmatch_Cat_Lit_ci:
  "rmatch (Cat (Lit_ci w) r) (b, a, gs) =
    (if py_lower (take (length w) a) = py_lower w then rmatch r (rev (take (length w) a) @ b, drop (length w) a, gs) else [])"
  by (simp add: lit_ci_match)

lemma cue_rejects:
  "rejects py_isspace_char (Cat (Lit_ci ''TRACK'') r)" "rejects py_isspace_char (Cat (Lit_ci ''INDEX'') r)"
  "rejects py_isspace_char (Cat (Lit_ci ''FILE'') r)"
  "rejects py_isspace_char (Cat (Rep1 (Cls is_digit)) r)" "rejects py_isspace_char (Cat (Grp n (Rep1 (Cls is_digit))) r)"
  "rejects is_digit (Cat (Rep1 (Cls py_isspace_char)) r)" "rejects py_isspace_char (Grp n (Rep1 (Cls (\<lambda>c. \<not> py_isspace_char c))))"
  "rejects is_digit (Cat (Cls (\<lambda>x. x = CHR '':'')) r)"
proof -
  have "\<not> py_isspace_char (char_of (116::nat))" "\<not> py_isspace_char (char_of (105::nat))" "\<not> py_isspace_char (char_of (102::nat))"
    by (simp_all add: py_isspace_char_def)
  then have "rejects py_isspace_char (Lit_ci ''TRACK'')" "rejects py_isspace_char (Lit_ci ''INDEX'')" "rejects py_isspace_char (Lit_ci ''FILE'')"
    using lower_space by (auto intro!: rejects_Lit_ci simp: py_lower_char_def)
  then show "rejects py_isspace_char (Cat (Lit_ci ''TRACK'') r)" "rejects py_isspace_char (Cat (Lit_ci ''INDEX'') r)"
    "rejects py_isspace_char (Cat (Lit_ci ''FILE'') r)" by (auto intro!: rejects_intros)
qed (use space_not_digit in \<open>auto intro!: rejects_intros\<close>)

lemmas cue_match = rmatch_Cat_TextStart rep_det rep1_det grp_rep1_det grp_rep1_last rmatch_Cat_Lit_ci rmatch_Cat_Cls cue_rejects

lemma lower_words:
  "py_lower ''TRACK'' = ''track''" "py_lower ''INDEX'' = ''index''" "py_lower ''FILE'' = ''file''" "py_lower ''FILE '' = ''file ''"
  by (simp_all add: py_lower_def py_lower_char_eq of_lower_char del: of_char_eq_iff)

lemma track_line_match:
  "\<exists>b xs. rmatch CUE_TRACK_RE ([], track_line i, []) = (b, [], [(1, ''AUDIO'')]) # xs"
proof -
  show ?thesis
    unfolding CUE_TRACK_RE_def cats.simps Space_def Digit_def NonSpace_def track_line_def
    by (simp add: cue_match lower_words span_digits hd_two_digits del: rmatch.simps)
qed

lemma index_line_match:
  assumes "0 \<le> pos"
  shows "rmatch CUE_TRACK_RE ([], index_line pos, []) = []"
    "\<exists>b xs. rmatch CUE_INDEX_RE ([], index_line pos, []) =
       (b, [], [(4, two_digits (pos mod 75)), (3, two_digits (pos div 75 mod 60)), (2, two_digits (pos div 4500)), (1, ''01'')]) # xs"
proof -
  show "rmatch CUE_TRACK_RE ([], index_line pos, []) = []"
    unfolding CUE_TRACK_RE_def cats.simps Space_def Digit_def NonSpace_def index_line_def
    by (simp add: cue_match lower_words del: rmatch.simps)
  show "\<exists>b xs. rmatch CUE_INDEX_RE ([], index_line pos, []) =
       (b, [], [(4, two_digits (pos mod 75)), (3, two_digits (pos div 75 mod 60)), (2, two_digits (pos div 4500)), (1, ''01'')]) # xs"
    unfolding CUE_INDEX_RE_def cats.simps Space_def Digit_def NonSpace_def Ch_def index_line_def
    by (simp add: cue_match lower_words span_digits span_digits_end hd_two_digits del: rmatch.simps takeWhile_eq_all_conv)
qed

lemma file_line_other: "cue_line_of ''FILE \"image.wav\" WAVE'' = CueOther"
proof -
  have "\<not> py_isspace_char (CHR ''F'')" by (simp add: py_isspace_char_def)
  then have "rmatch CUE_TRACK_RE ([], ''FILE \"image.wav\" WAVE'', []) = []" "rmatch CUE_INDEX_RE ([], ''FILE \"image.wav\" WAVE'', []) = []"
    unfolding CUE_TRACK_RE_def CUE_INDEX_RE_def cats.simps Space_def Digit_def NonSpace_def Ch_def
    by (simp_all add: cue_match lower_words del: rmatch.simps)
  then show ?thesis by (simp add: cue_line_of_def re_match_def match_at_def)
qed

lemma cue_line_track: "cue_line_of (track_line i) = CueTrack ''AUDIO''"
  using track_line_match[of i] by (auto simp: cue_line_of_def re_match_def match_at_def grp_def)

lemma msf_split: "0 \<le> pos \<Longrightarrow> msf_to_frames (pos div 4500) (pos div 75 mod 60) (pos mod 75) = pos"
proof -
  have "pos div 4500 = pos div 75 div 60" using div_mult2_eq'[of pos 75 60] by (simp add: zdiv_zmult2_eq)
  then show ?thesis unfolding msf_to_frames_def by presburger
qed

lemma cue_line_index: "0 \<le> pos \<Longrightarrow> cue_line_of (index_line pos) = CueIndex 1 pos"
proof -
  assume pos: "0 \<le> pos"
  have one: "dec_val ''01'' = 1" by code_simp
  obtain b xs where "rmatch CUE_INDEX_RE ([], index_line pos, []) =
      (b, [], [(4, two_digits (pos mod 75)), (3, two_digits (pos div 75 mod 60)), (2, two_digits (pos div 4500)), (1, ''01'')]) # xs"
    using index_line_match(2)[OF pos] by blast
  then show ?thesis
    by (simp add: cue_line_of_def re_match_def match_at_def grp_def index_line_match(1)[OF pos] msf_split[OF pos] pos one
        pos_imp_zdiv_nonneg_iff)
qed

lemma upper_AUDIO [simp]: "py_upper ''AUDIO'' = ''AUDIO''"
  by code_simp

lemma splitlines_break: "\<forall>c\<in>set l. \<not> is_line_break c \<Longrightarrow> splitlines (l @ CHR 0x0A # s) = l # splitlines s"
proof (induction l)
  case Nil
  show ?case by (cases s) (simp_all add: is_line_break_def)
next
  case (Cons c cs)
  then have "c \<noteq> CHR 0x0D" by (auto simp: is_line_break_def)
  with Cons show ?case by (cases "cs @ CHR 0x0A # s") auto
qed

lemma splitlines_plain: "l \<noteq> [] \<Longrightarrow> \<forall>c\<in>set l. \<not> is_line_break c \<Longrightarrow> splitlines l = [l]"
proof (induction l rule: splitlines.induct)
  case (3 c d cs)
  then have "c \<noteq> CHR 0x0D" by (auto simp: is_line_break_def)
  with 3 show ?case by auto
qed simp_all

lemma splitlines_join:
  "\<forall>l\<in>set ls. l \<noteq> [] \<and> (\<forall>c\<in>set l. \<not> is_line_break c) \<Longrightarrow> splitlines (py_join [CHR 0x0A] ls) = ls"
  by (induction "[CHR 0x0A]" ls rule: py_join.induct) (auto simp: splitlines_plain splitlines_break)

definition plain_char :: "char \<Rightarrow> bool" where
  "plain_char c \<longleftrightarrow> \<not> is_line_break c \<and> (of_char c :: nat) \<noteq> 70 \<and> (of_char c :: nat) \<noteq> 102"

lemma plain_charD: "plain_char c \<Longrightarrow> \<not> is_line_break c" "plain_char c \<Longrightarrow> py_lower_char c \<noteq> CHR ''f''"
proof -
  have "(of_char c :: nat) = 70 \<or> (of_char c :: nat) = 102" if "py_lower_char c = CHR ''f''"
    using arg_cong[OF that, of "of_char :: char \<Rightarrow> nat"] by (auto simp: py_lower_char_def Let_def split: if_splits)
  then show "plain_char c \<Longrightarrow> py_lower_char c \<noteq> CHR ''f''" by (auto simp: plain_char_def)
qed (simp add: plain_char_def)

lemma plain_parts:
  "list_all plain_char ''  TRACK ''" "list_all plain_char '' AUDIO''" "list_all plain_char ''    INDEX 01 ''" "list_all plain_char '':''"
  by (simp_all add: plain_char_def is_line_break_def)

lemma plain_two_digits: "list_all plain_char (two_digits n)"
proof -
  have "plain_char c" if "is_digit c" for c
    using that by (auto simp: plain_char_def is_digit_def is_line_break_def Let_def)
  with two_digits_digits show ?thesis by (simp add: list_all_iff)
qed

lemma printed_plain: "list_all plain_char (track_line i)" "list_all plain_char (index_line pos)"
  by (simp_all only: track_line_def index_line_def list_all_append plain_parts plain_two_digits simp_thms)

lemma printed_nonempty: "track_line i \<noteq> []" "index_line pos \<noteq> []"
  by (simp_all add: track_line_def index_line_def)

lemma track_lines_plain: "l \<in> set (track_lines i ps) \<Longrightarrow> l \<noteq> [] \<and> list_all plain_char l"
  by (induction ps arbitrary: i) (auto simp: printed_plain printed_nonempty)

lemma no_file_match:
  assumes "\<forall>c\<in>set a. py_lower_char c \<noteq> CHR ''f''"
  shows "matches_from CUE_FILE_RE b a = []"
proof -
  have none: "match_at CUE_FILE_RE b a = None" if "\<forall>c\<in>set a. py_lower_char c \<noteq> CHR ''f''" for b a
  proof -
    let ?d = "take (Suc (Suc (Suc (Suc 0)))) (dropWhile py_isspace_char a)"
    have "set ?d \<subseteq> set a" using set_take_subset set_dropWhileD by (metis subset_iff)
    moreover have "CHR ''f'' \<in> py_lower_char ` set ?d" if "py_lower ?d = ''file''"
      using that by (metis list.set_intros(1) list.set_map py_lower_def)
    ultimately have "py_lower ?d \<noteq> ''file''" using that by force
    then have "rmatch CUE_FILE_RE (b, a, []) = []"
      unfolding CUE_FILE_RE_def cats.simps Space_def rmatch.simps(3)[of LineStart]
      by (simp add: cue_match lower_words del: rmatch.simps(3))
    then show ?thesis by (simp add: match_at_def)
  qed
  show ?thesis using assms by (induction CUE_FILE_RE b a rule: matches_from.induct) (simp_all add: none)
qed

lemma cue_lines_printed: "\<forall>p\<in>set ps. 0 \<le> p \<Longrightarrow> cue_offsets True True offs (map cue_line_of (track_lines i ps)) = Some (offs @ ps)"
  by (induction ps arbitrary: i offs) (simp_all add: cue_line_track cue_line_index)

lemma join_plain:
  "\<forall>l\<in>set ls. list_all plain_char l \<Longrightarrow> c \<in> set (py_join [CHR 0x0A] ls) \<Longrightarrow> py_lower_char c \<noteq> CHR ''f''"
proof (induction "[CHR 0x0A]" ls rule: py_join.induct)
  case (3 x y xs)
  have "py_lower_char (CHR 0x0A) \<noteq> CHR ''f''" by (simp add: py_lower_char_eq of_lower_char del: of_char_eq_iff)
  with 3 show ?case by (auto simp: list_all_iff dest: plain_charD)
qed (auto simp: list_all_iff dest: plain_charD)

lemma one_file: "length (re_finditer CUE_FILE_RE (cue_sheet ps)) \<le> 1"
proof -
  define tail where "tail = (if track_lines 1 ps = [] then [] else CHR 0x0A # py_join [CHR 0x0A] (track_lines 1 ps))"
  have sheet: "cue_sheet ps = ''FILE'' @ '' \"image.wav\" WAVE'' @ tail"
    by (cases "track_lines 1 ps") (simp_all add: cue_sheet_def tail_def)
  have lf: "py_lower_char (CHR 0x0A) \<noteq> CHR ''f''" and name: "\<forall>c\<in>set '' \"image.wav\" WAVE''. py_lower_char c \<noteq> CHR ''f''"
    by (simp_all add: py_lower_char_eq of_lower_char del: of_char_eq_iff)
  have "py_lower_char c \<noteq> CHR ''f''" if "c \<in> set tail" for c
    using that join_plain[of "track_lines 1 ps" c] track_lines_plain lf by (auto simp: tail_def split: if_splits)
  with name have rest: "matches_from CUE_FILE_RE b ('' \"image.wav\" WAVE'' @ tail) = []" for b
    by (intro no_file_match) auto
  have "at_word_edge (rev ''FILE'') ('' \"image.wav\" WAVE'' @ tail)"
    by (simp add: at_word_edge_def is_word_def)
  then have "match_at CUE_FILE_RE [] (cue_sheet ps) = Some (rev ''FILE'', '' \"image.wav\" WAVE'' @ tail, [])"
    unfolding sheet match_at_def CUE_FILE_RE_def cats.simps Space_def
    by (simp add: rmatch.simps(3)[of LineStart] cue_match lower_words is_word_def py_isspace_char_def[of "CHR ''F''"] del: rmatch.simps(3))
  then show ?thesis using rest unfolding re_finditer_def sheet by simp
qed

section \<open>Bits of the identifiers\<close>

lemma mask32: "n AND 0xFFFFFFFF = take_bit 32 (n::int)"
  by (simp add: take_bit_eq_mask mask_numeral)

text \<open>The sums of a 32-bit implementation, which wrap around at every step.\<close>

fun disc_sums32 :: "32 word \<Rightarrow> 32 word list \<Rightarrow> 32 word \<times> 32 word" where
  "disc_sums32 position [] = (0, 0)"
| "disc_sums32 position (offset # os) =
     (case disc_sums32 (position + 1) os of
        (d1, d2) \<Rightarrow> (offset + d1, (if offset = 0 then 1 else offset) * position + d2))"

lemma word_of_int_zero_iff: "0 \<le> x \<Longrightarrow> x < 2 ^ 32 \<Longrightarrow> (word_of_int x :: 32 word) = 0 \<longleftrightarrow> x = 0"
  using zdvd_imp_le[of "2 ^ 32" x] by (auto simp: word_of_int_eq_0_iff)

lemma disc_sums_wrap:
  "\<forall>x\<in>set os. 0 \<le> x \<and> x < 2 ^ 32 \<Longrightarrow>
     disc_sums32 (word_of_int position) (map word_of_int os) =
     (case disc_sums position os of (d1, d2) \<Rightarrow> (word_of_int d1, word_of_int d2))"
proof (induction os arbitrary: position)
  case (Cons x os)
  have "disc_sums32 (word_of_int position + 1) (map word_of_int os) =
     (case disc_sums (position + 1) os of (d1, d2) \<Rightarrow> (word_of_int d1, word_of_int d2))"
    using Cons.IH[of "position + 1"] Cons.prems by simp
  moreover have "(word_of_int x :: 32 word) = 0 \<longleftrightarrow> x = 0" using Cons.prems by (intro word_of_int_zero_iff) auto
  ultimately show ?case by (simp split: prod.splits)
qed simp

lemma or_as_sum: "0 \<le> c \<Longrightarrow> c < 2 ^ n \<Longrightarrow> push_bit n b OR c = b * 2 ^ n + (c::int)"
proof -
  assume "0 \<le> c" "c < 2 ^ n"
  then have "take_bit n c = c" by (simp add: take_bit_int_eq_self)
  then have "push_bit n b OR c = concat_bit n c b" by (simp add: concat_bit_def or.commute)
  then show ?thesis using \<open>take_bit n c = c\<close> by (simp add: concat_bit_eq push_bit_eq_mult)
qed

lemma increasing_bounds: "increasing xs \<Longrightarrow> x \<in> set xs \<Longrightarrow> hd xs \<le> x \<and> x \<le> last xs"
proof (induction xs arbitrary: x rule: increasing.induct)
  case (1 a b xs)
  from "1.IH"[of b] "1.IH"[of x] "1.prems" show ?case by auto
qed auto

lemma wf_toc_bounds:
  assumes "wf_toc toc" "x \<in> set (track_offsets_frames toc @ [leadout_frames toc])"
  shows "0 \<le> x \<and> x \<le> leadout_frames toc"
  using increasing_bounds[of "track_offsets_frames toc @ [leadout_frames toc]" x] assms by (auto simp: wf_toc_def)

lemma playing_time:
  assumes "wf_toc toc" "leadout_frames toc < 4915050"
  shows "0 \<le> (leadout_frames toc + 150) div 75 - 2" "(leadout_frames toc + 150) div 75 - 2 < 65536"
proof -
  have "0 \<le> leadout_frames toc" using wf_toc_bounds[OF assms(1), of "leadout_frames toc"] by simp
  with assms(2) have "150 div 75 \<le> (leadout_frames toc + 150) div 75" "(leadout_frames toc + 150) div 75 \<le> 4915199 div 75"
    by (intro zdiv_mono1; simp)+
  then show "0 \<le> (leadout_frames toc + 150) div 75 - 2" "(leadout_frames toc + 150) div 75 - 2 < 65536" by simp_all
qed

lemma cddb_fields:
  assumes "wf_toc toc" "leadout_frames toc < 4915050" "track_count toc < 256"
  shows "cddb_id toc = Some ((sum_list (map (\<lambda>x. digit_sum ((x + 150) div 75)) (track_offsets_frames toc)) mod 255) * 2 ^ 24 +
    ((leadout_frames toc + 150) div 75 - 2) * 2 ^ 8 + track_count toc)"
proof -
  let ?n = "track_count toc" and ?t = "(leadout_frames toc + 150) div 75 - 2"
  let ?k = "sum_list (map (\<lambda>x. digit_sum ((x + 150) div 75)) (track_offsets_frames toc)) mod 255"
  obtain os where os: "track_offsets_frames toc = 0 # os" using assms(1) by (cases "track_offsets_frames toc") (auto simp: wf_toc_def)
  have n: "0 \<le> ?n" using assms(1) by (simp add: wf_toc_def)
  note t = playing_time[OF assms(1,2)]
  have k: "0 \<le> ?k" "?k < 255" by simp_all
  have low: "push_bit 8 ?t OR ?n = ?t * 2 ^ 8 + ?n" using n assms(3) by (intro or_as_sum) simp_all
  moreover have "push_bit 24 ?k OR (?t * 2 ^ 8 + ?n) = ?k * 2 ^ 24 + (?t * 2 ^ 8 + ?n)"
    using n t assms(3) by (intro or_as_sum) simp_all
  moreover have "take_bit 32 (?k * 2 ^ 24 + (?t * 2 ^ 8 + ?n)) = ?k * 2 ^ 24 + (?t * 2 ^ 8 + ?n)"
    using k n t assms(3) by (intro take_bit_int_eq_self) simp_all
  ultimately have "(push_bit 24 ?k OR push_bit 8 ?t OR ?n) AND 0xFFFFFFFF = ?k * 2 ^ 24 + ?t * 2 ^ 8 + ?n"
    unfolding mask32 by (simp only: or.assoc add.assoc)
  then show ?thesis by (simp add: cddb_id_def os LEAD_IN_FRAMES_def comp_def)
qed

lemma accuraterip_ids_wrap:
  assumes "wf_toc toc" "leadout_frames toc < 2 ^ 32"
  shows "accuraterip_ids toc = map_prod uint uint (disc_sums32 1 (map word_of_int (track_offsets_frames toc @ [leadout_frames toc])))"
proof -
  have "\<forall>x\<in>set (track_offsets_frames toc @ [leadout_frames toc]). 0 \<le> x \<and> x < 2 ^ 32"
    using wf_toc_bounds[OF assms(1)] assms(2) by (meson le_less_trans)
  from disc_sums_wrap[OF this, of 1] show ?thesis
    by (simp add: accuraterip_ids_def mask32 uint_word_of_int_eq split: prod.splits)
qed

lemma sum_gaps: "xs \<noteq> [] \<Longrightarrow> sum_list (gaps xs) = last xs - hd xs"
  by (induction xs rule: gaps.induct) auto

lemma reconstruct_toc_wf: "reconstruct_toc (Some files) = Some toc \<Longrightarrow> wf_toc toc"
  by (auto simp: reconstruct_toc_def split: list.splits dest: single_image_wf(1) per_track_lengths(1))

section \<open>Properties\<close>

text \<open>The cue parser accepts exactly the usable sheets. The one-pass loop with its two flags returns the
  position of the only index 01 of each track block, in order, when the sheet names at most one file, has
  no index before the first track, and every block is an audio track with exactly one index 01; for
  every other text it returns the empty list.\<close>

theorem cue_parse_spec:
  "parse_cue_offsets text =
     (case cue_blocks (map cue_line_of (splitlines text)) of (pre, bs) \<Rightarrow>
        if length (re_finditer CUE_FILE_RE text) \<le> 1 \<and> no_index pre \<and> list_all block_ok bs
        then map (\<lambda>b. hd (index01 (snd b))) bs else [])"
proof -
  have "concat (map (index01 \<circ> snd) bs) = map (\<lambda>b. hd (index01 (snd b))) bs" if "list_all block_ok bs" for bs
    using that by (induction bs) (auto simp: block_ok_def length_Suc_conv)
  then show ?thesis
    by (auto simp: parse_cue_offsets_def cue_offsets_start split: prod.splits)
qed

text \<open>(C29) Printing and reading a cue sheet. The sheet of a single image that lists any positions as minutes,
  seconds and frames is read back as these positions.\<close>

theorem cue_roundtrip:
  assumes "\<forall>p\<in>set ps. 0 \<le> p"
  shows "parse_cue_offsets (cue_sheet ps) = ps"
proof -
  have fl: "list_all (\<lambda>c. \<not> is_line_break c) ''FILE \"image.wav\" WAVE''" by code_simp
  have lines: "l \<noteq> [] \<and> (\<forall>c\<in>set l. \<not> is_line_break c)" if "l \<in> set (track_lines 1 ps)" for l
    using track_lines_plain[OF that] plain_charD(1) by (auto simp: list_all_iff)
  have "splitlines (cue_sheet ps) = ''FILE \"image.wav\" WAVE'' # track_lines 1 ps"
    unfolding cue_sheet_def using lines fl by (intro splitlines_join) (auto simp: list_all_iff)
  moreover have "cue_offsets False False [] (map cue_line_of (track_lines 1 ps)) = Some ps"
  proof (cases ps)
    case (Cons p qs)
    then show ?thesis
      using cue_lines_printed[of qs "[p]"] assms by (simp add: cue_line_track cue_line_index)
  qed simp
  ultimately show ?thesis using one_file[of ps] by (simp add: parse_cue_offsets_def file_line_other)
qed

theorem cue_roundtrip_witness: "parse_cue_offsets (cue_sheet [0, 21482, 50326]) = [0, 21482, 50326]"
  using cue_roundtrip[of "[0, 21482, 50326]"] by simp

text \<open>(C28) A reconstructed table of contents is well formed and accounts for every sample. It has at least one
  track, starts at frame 0, its offsets increase up to the lead-out, and the lead-out is the sum of the
  sample counts of the FLAC files; with one file per track, the distances are the lengths of the files
  in the order of their paths.\<close>

theorem toc_wellformed:
  assumes "reconstruct_toc (Some files) = Some toc"
  shows "wf_toc toc \<and> (\<exists>ns. map rf_samples (flac_files files) = map Some ns \<and> sum_list ns = leadout_frames toc * SAMPLES_PER_FRAME \<and>
    (length ns \<noteq> 1 \<longrightarrow> ns = map (\<lambda>n. n * SAMPLES_PER_FRAME) (gaps (track_offsets_frames toc @ [leadout_frames toc]))))"
proof (cases "flac_files files" rule: remdups_adj.cases)
  case 1
  with assms show ?thesis by (simp add: reconstruct_toc_def flac_files_def)
next
  case (2 img)
  with assms have "toc_from_single_image img files = Some toc" by (simp add: reconstruct_toc_def flac_files_def)
  from single_image_wf[OF this] show ?thesis
    by (intro conjI exI[of _ "[leadout_frames toc * SAMPLES_PER_FRAME]"]) (simp_all add: 2)
next
  case (3 f g fs)
  with assms have t: "toc_from_per_track (flac_files files) = Some toc" by (simp add: reconstruct_toc_def flac_files_def)
  let ?g = "gaps (track_offsets_frames toc @ [leadout_frames toc])"
  note p = per_track_lengths[OF t]
  have "sum_list (map (\<lambda>n. n * SAMPLES_PER_FRAME) ?g) = sum_list ?g * SAMPLES_PER_FRAME"
    by (simp add: sum_list_mult_const)
  moreover have "sum_list ?g = leadout_frames toc" using p(1) by (simp add: sum_gaps wf_toc_def)
  ultimately show ?thesis using p by (intro conjI exI[of _ "map (\<lambda>n. n * SAMPLES_PER_FRAME) ?g"]) (simp_all add: comp_def)
qed

definition demo_rip :: "rip_file list" where
  "demo_rip = [\<lparr>rf_parts = [''02.flac''], rf_text = (\<lambda>_. []), rf_samples = Some 1176\<rparr>,
     \<lparr>rf_parts = [''01.flac''], rf_text = (\<lambda>_. []), rf_samples = Some 588\<rparr>]"

lemma demo_rip_toc: "reconstruct_toc (Some demo_rip) = Some \<lparr>track_offsets_frames = [0, 1], leadout_frames = 3, track_count = 2\<rparr>"
proof -
  have "py_lower (py_suffix ''01.flac'') = ''.flac''" "py_lower (py_suffix ''02.flac'') = ''.flac''" by code_simp+
  then show ?thesis
    by (simp add: reconstruct_toc_def demo_rip_def rf_name_def toc_from_per_track_def samples_to_frames_def SAMPLES_PER_FRAME_def
        build_toc_from_track_lengths_def less_char_def)
qed

theorem toc_wellformed_witness: "wf_toc \<lparr>track_offsets_frames = [0, 1], leadout_frames = 3, track_count = 2\<rparr>"
  using toc_wellformed[OF demo_rip_toc] by simp

text \<open>The identifiers of a disc are 32-bit values. The AccurateRip identifiers, summed in unbounded integers
  and masked at the end, are those of 32-bit sums that wrap around at every step, and the fields of the CDDB
  identifier (digit sum, playing time, number of tracks) do not overlap.\<close>

theorem disc_ids_spec:
  assumes "wf_toc toc" "leadout_frames toc < 4915050" "track_count toc < 256"
  shows "accuraterip_ids toc = map_prod uint uint (disc_sums32 1 (map word_of_int (track_offsets_frames toc @ [leadout_frames toc]))) \<and>
    (\<exists>i. cddb_id toc = Some i \<and> 0 \<le> i \<and> i < 2 ^ 32 \<and> i mod 2 ^ 8 = track_count toc \<and>
       i div 2 ^ 8 mod 2 ^ 16 = (leadout_frames toc + 150) div 75 - 2 \<and>
       i div 2 ^ 24 = sum_list (map (\<lambda>x. digit_sum ((x + 150) div 75)) (track_offsets_frames toc)) mod 255)"
proof -
  define n t k where "n = track_count toc" and "t = (leadout_frames toc + 150) div 75 - 2" and
    "k = sum_list (map (\<lambda>x. digit_sum ((x + 150) div 75)) (track_offsets_frames toc)) mod 255"
  note t = playing_time[OF assms(1,2), folded t_def]
  have n: "0 \<le> n" "n < 256" using assms(1,3) by (simp_all add: wf_toc_def n_def)
  have k: "0 \<le> k" "k < 255" by (simp_all add: k_def)
  define i where "i = (k * 65536 + t) * 256 + n"
  have "(q * 256 + n) div 256 = q" "(q * 256 + n) mod 256 = n" for q using n by simp_all
  then have "i div 256 = k * 65536 + t" "i mod 256 = n" unfolding i_def by blast+
  moreover have "(k * 65536 + t) div 65536 = k" "(k * 65536 + t) mod 65536 = t" using t by simp_all
  moreover have "i div 16777216 = i div 256 div 65536" using zdiv_zmult2_eq[of 65536 i 256] by simp
  moreover have "0 \<le> i" "i < 4294967296" using k n t by (simp_all add: i_def)
  moreover have "(2::int) ^ 32 = 4294967296" "(2::int) ^ 8 = 256" "(2::int) ^ 16 = 65536" "(2::int) ^ 24 = 16777216" by simp_all
  ultimately have "0 \<le> i" "i < 2 ^ 32" "i mod 2 ^ 8 = n" "i div 2 ^ 8 mod 2 ^ 16 = t" "i div 2 ^ 24 = k"
    by (simp_all only:)
  moreover have "i = k * 2 ^ 24 + t * 2 ^ 8 + n" by (simp add: i_def)
  then have "cddb_id toc = Some i" using cddb_fields[OF assms] by (simp only: n_def t_def k_def)
  moreover have "accuraterip_ids toc = map_prod uint uint (disc_sums32 1 (map word_of_int (track_offsets_frames toc @ [leadout_frames toc])))"
    using assms by (intro accuraterip_ids_wrap) simp_all
  ultimately show ?thesis unfolding n_def t_def k_def by blast
qed

definition OK_COMPUTER :: cd_toc where
  "OK_COMPUTER = \<lparr>track_offsets_frames = [0, 21482, 50326, 70547, 90559, 113095, 132869, 141821, 159263, 180805, 198046, 217551],
     leadout_frames = 241891, track_count = 12\<rparr>"

theorem disc_ids_spec_witness:
  "accuraterip_ids OK_COMPUTER = (0x0018B14F, 0x00E28D21) \<and> cddb_id OK_COMPUTER = Some 0xA20C990C \<and> (0xA20C990C :: int) mod 2 ^ 8 = 12"
proof -
  have "wf_toc OK_COMPUTER" "leadout_frames OK_COMPUTER < 4915050" "track_count OK_COMPUTER < 256"
    by (simp_all add: wf_toc_def OK_COMPUTER_def)
  note spec = disc_ids_spec[OF this]
  have "accuraterip_ids OK_COMPUTER = (0x0018B14F, 0x00E28D21)" "cddb_id OK_COMPUTER = Some 0xA20C990C" by code_simp+
  with spec show ?thesis by (simp add: OK_COMPUTER_def)
qed

section \<open>Entry strings\<close>

text \<open>The string CTDB has for an entry determines the table of contents.\<close>

lemma colon_free: "CHR '':'' \<notin> set (py_str_int n)"
proof -
  have "c \<noteq> CHR '':''" if "c \<in> set (py_str_nat m)" for c m
    using py_str_nat_digits[OF that] is_digit_digit_char by (metis cue_chars(12))
  then show ?thesis by (auto simp: py_str_int_def)
qed

lemma py_str_int_inject_nonneg: "0 \<le> m \<Longrightarrow> 0 \<le> n \<Longrightarrow> py_str_int m = py_str_int n \<longleftrightarrow> m = n"
  by (simp add: py_str_int_def eq_nat_nat_iff)

lemma join_ints_inject:
  assumes "py_join '':'' (map py_str_int xs) = py_join '':'' (map py_str_int ys)" "xs \<noteq> []" "ys \<noteq> []"
    "\<forall>x\<in>set xs. 0 \<le> x" "\<forall>y\<in>set ys. 0 \<le> y"
  shows "xs = ys"
proof -
  have split: "split_char (CHR '':'') (py_join '':'' (map py_str_int zs)) = map py_str_int zs" if "zs \<noteq> []" for zs
    using that colon_free by (intro split_join) auto
  have "map py_str_int xs = map py_str_int ys" using split[OF assms(2)] split[OF assms(3)] assms(1) by metis
  moreover have "inj_on py_str_int (set xs \<union> set ys)"
    using assms(4,5) by (intro inj_onI) (metis Un_iff py_str_int_inject_nonneg)
  ultimately show ?thesis by (simp add: inj_on_map_eq_map)
qed

lemma entry_toc_inject:
  assumes "wf_toc toc" "wf_toc toc'" "expected_entry_toc toc = expected_entry_toc toc'"
  shows "toc = toc'"
proof -
  have "track_offsets_frames toc @ [leadout_frames toc] = track_offsets_frames toc' @ [leadout_frames toc']"
    using assms wf_toc_bounds by (intro join_ints_inject) (auto simp: expected_entry_toc_def)
  with assms(1,2) show ?thesis by (cases toc; cases toc') (auto simp: wf_toc_def)
qed

end
