(* ===== verification/Cd_Lookup.thy ===== *)
theory Cd_Lookup
  imports Cd_Toc
begin

text \<open>
  Looking a disc up in AccurateRip and CTDB (\<open>app/cd_lookup.py\<close>): the parser of the binary AccurateRip
  body, the reading of a CTDB response, and the two cached lookups.

  \<open>fetch\<close> is the HTTP client: \<open>None\<close> for a 404, an error, a time-out or an exception. The XML parser of
  the standard library is the parameter \<open>xml\<close>, giving the elements of a document in document order with
  their tags and attributes, or \<open>None\<close> for a parse error.
\<close>

section \<open>The AccurateRip body\<close>

definition CHUNK_HEADER :: nat where
  "CHUNK_HEADER = 13"

definition PER_TRACK :: nat where
  "PER_TRACK = 9"

record ar_result =
  ar_found :: bool
  ar_pressings :: nat
  ar_max_confidence :: nat
  ar_track_count :: int
  ar_per_track :: "nat list"

definition ar_not_found :: ar_result where
  "ar_not_found = \<lparr>ar_found = False, ar_pressings = 0, ar_max_confidence = 0, ar_track_count = 0, ar_per_track = []\<rparr>"

text \<open>\<open>int.from_bytes(bs, "little")\<close>.\<close>

fun from_le :: "8 word list \<Rightarrow> nat" where
  "from_le [] = 0"
| "from_le (b # bs) = unat b + 256 * from_le bs"

definition py_slice :: "nat \<Rightarrow> nat \<Rightarrow> 'a list \<Rightarrow> 'a list" where
  "py_slice a b xs = take (b - a) (drop a xs)"

type_synonym disc_key = "int \<times> int \<times> int \<times> int"

definition chunk_key :: "8 word list \<Rightarrow> nat \<Rightarrow> disc_key" where
  "chunk_key data offset =
     (int (from_le (py_slice (offset + 1) (offset + 5) data)), int (from_le (py_slice (offset + 5) (offset + 9) data)),
      int (from_le (py_slice (offset + 9) (offset + 13) data)), int (unat (data ! offset)))"

definition raise_confidence :: "8 word list \<Rightarrow> nat \<Rightarrow> nat \<Rightarrow> (nat \<rightharpoonup> nat) \<Rightarrow> (nat \<rightharpoonup> nat)" where
  "raise_confidence data base track m =
     m(track \<mapsto> max (case m track of None \<Rightarrow> 0 | Some c \<Rightarrow> c) (unat (data ! (base + track * PER_TRACK))))"

text \<open>The loop over the chunks, from an offset, with the pressings counted and the confidences so far.\<close>

function parse_chunks :: "8 word list \<Rightarrow> disc_key \<Rightarrow> nat \<Rightarrow> nat \<Rightarrow> (nat \<rightharpoonup> nat) \<Rightarrow> nat \<times> (nat \<rightharpoonup> nat)" where
  "parse_chunks data key offset pressings m =
     (if offset + CHUNK_HEADER \<le> length data then
        let n = unat (data ! offset); chunk_len = CHUNK_HEADER + PER_TRACK * n in
        if n = 0 \<or> offset + chunk_len > length data then (pressings, m)
        else if chunk_key data offset = key
        then parse_chunks data key (offset + chunk_len) (pressings + 1)
               (fold (raise_confidence data (offset + CHUNK_HEADER)) [0..<n] m)
        else parse_chunks data key (offset + chunk_len) pressings m
      else (pressings, m))"
  by pat_completeness auto
termination
  by (relation "measure (\<lambda>(data, key, offset, pressings, m). length data - offset)") (auto simp: CHUNK_HEADER_def)

declare parse_chunks.simps [simp del]

text \<open>The outer \<open>None\<close> is a key error for a track without confidence, or the maximum of no track.\<close>

definition parse_accuraterip :: "8 word list option \<Rightarrow> disc_key \<Rightarrow> ar_result option" where
  "parse_accuraterip data key =
     (case data of
        None \<Rightarrow> Some ar_not_found
      | Some body \<Rightarrow>
          if body = [] then Some ar_not_found
          else
            (case parse_chunks body key 0 0 Map.empty of
               (pressings, m) \<Rightarrow>
                 if pressings = 0 then Some ar_not_found
                 else
                   let n = snd (snd (snd key)) in
                   (case those (map m [0..<nat n]) of
                      None \<Rightarrow> None
                    | Some per_track \<Rightarrow>
                        if per_track = [] then None
                        else Some \<lparr>ar_found = True, ar_pressings = pressings, ar_max_confidence = Max (set per_track),
                                   ar_track_count = n, ar_per_track = per_track\<rparr>)))"

section \<open>Lookups\<close>

type_synonym 'a cache = "string \<rightharpoonup> 'a"

text \<open>The result with the cache and the URLs that were fetched; \<open>None\<close> when an exception leaves the
  function.\<close>

definition lookup_accuraterip :: "(string \<Rightarrow> 8 word list option) \<Rightarrow> cd_toc \<Rightarrow> ar_result cache \<Rightarrow>
    (ar_result \<times> ar_result cache \<times> string list) option" where
  "lookup_accuraterip fetch toc cache =
     (case (accuraterip_url toc, cddb_id toc) of
        (Some url, Some cddb) \<Rightarrow>
          (case cache url of
             Some result \<Rightarrow> Some (result, cache, [])
           | None \<Rightarrow>
               let ids = accuraterip_ids toc in
               map_option (\<lambda>result. (result, cache(url \<mapsto> result), [url]))
                 (parse_accuraterip (fetch url) (fst ids, snd ids, cddb, track_count toc)))
      | _ \<Rightarrow> None)"

record ctdb_result =
  ct_found :: bool
  ct_submissions :: nat
  ct_confidence :: int

definition ctdb_not_found :: ctdb_result where
  "ctdb_not_found = \<lparr>ct_found = False, ct_submissions = 0, ct_confidence = 0\<rparr>"

type_synonym xml_element = "string \<times> (string \<times> string) list"

text \<open>The part of a tag after its last closing brace: the name without the XML name space.\<close>

definition local_name :: "string \<Rightarrow> string" where
  "local_name tag = rev (takeWhile (\<lambda>c. c \<noteq> CHR ''}'') (rev tag))"

definition entry_confidence :: "xml_element \<Rightarrow> int \<Rightarrow> int" where
  "entry_confidence e best =
     (case map_of (snd e) ''confidence'' of
        None \<Rightarrow> max best 0
      | Some s \<Rightarrow> if s = [] then max best 0 else (case py_int s of None \<Rightarrow> best | Some n \<Rightarrow> max best n))"

definition entry_matches :: "string \<Rightarrow> xml_element \<Rightarrow> bool" where
  "entry_matches expected_toc e \<longleftrightarrow> local_name (fst e) = ''entry'' \<and> map_of (snd e) ''toc'' = Some expected_toc"

definition parse_ctdb :: "(string \<Rightarrow> xml_element list option) \<Rightarrow> string option \<Rightarrow> string \<Rightarrow> ctdb_result" where
  "parse_ctdb xml data expected_toc =
     (case data of
        None \<Rightarrow> ctdb_not_found
      | Some text \<Rightarrow>
          if text = [] then ctdb_not_found
          else
            (case xml text of
               None \<Rightarrow> ctdb_not_found
             | Some elements \<Rightarrow>
                 let hits = filter (entry_matches expected_toc) elements in
                 if hits = [] then ctdb_not_found
                 else \<lparr>ct_found = True, ct_submissions = length hits, ct_confidence = fold entry_confidence hits 0\<rparr>))"

definition lookup_ctdb :: "(string \<Rightarrow> xml_element list option) \<Rightarrow> (string \<Rightarrow> string option) \<Rightarrow> cd_toc \<Rightarrow> ctdb_result cache \<Rightarrow>
    ctdb_result \<times> ctdb_result cache \<times> string list" where
  "lookup_ctdb xml fetch toc cache =
     (let url = ctdb_lookup_url toc in
      case cache url of
        Some result \<Rightarrow> (result, cache, [])
      | None \<Rightarrow>
          let result = parse_ctdb xml (fetch url) (expected_entry_toc toc) in
          (result, cache(url \<mapsto> result), [url]))"

section \<open>Printed AccurateRip bodies\<close>

text \<open>The documented format: a chunk has the number of tracks, the three identifiers in little-endian order,
  and per track a confidence and two checksums.\<close>

fun to_le :: "nat \<Rightarrow> nat \<Rightarrow> 8 word list" where
  "to_le 0 n = []"
| "to_le (Suc k) n = word_of_nat (n mod 256) # to_le k (n div 256)"

record ar_chunk =
  ch_id1 :: nat
  ch_id2 :: nat
  ch_cddb :: nat
  ch_tracks :: "(8 word \<times> 8 word list) list"

definition encode_chunk :: "ar_chunk \<Rightarrow> 8 word list" where
  "encode_chunk c = word_of_nat (length (ch_tracks c)) # to_le 4 (ch_id1 c) @ to_le 4 (ch_id2 c) @ to_le 4 (ch_cddb c) @
     concat (map (\<lambda>t. fst t # snd t) (ch_tracks c))"

definition chunk_ok :: "ar_chunk \<Rightarrow> bool" where
  "chunk_ok c \<longleftrightarrow> 0 < length (ch_tracks c) \<and> length (ch_tracks c) < 256 \<and> ch_id1 c < 2 ^ 32 \<and> ch_id2 c < 2 ^ 32 \<and>
     ch_cddb c < 2 ^ 32 \<and> list_all (\<lambda>t. length (snd t) = 8) (ch_tracks c)"

definition key_of :: "ar_chunk \<Rightarrow> disc_key" where
  "key_of c = (int (ch_id1 c), int (ch_id2 c), int (ch_cddb c), int (length (ch_tracks c)))"

definition conf_of :: "ar_chunk \<Rightarrow> nat \<Rightarrow> nat" where
  "conf_of c i = unat (fst (ch_tracks c ! i))"

text \<open>What may follow the last chunk: nothing that is a chunk.\<close>

definition no_chunk :: "8 word list \<Rightarrow> bool" where
  "no_chunk bs \<longleftrightarrow> length bs < 13 \<or> unat (hd bs) = 0 \<or> length bs < 13 + 9 * unat (hd bs)"

lemma length_to_le [simp]: "length (to_le k n) = k"
  by (induction k arbitrary: n) simp_all

lemma from_to_le: "n < 256 ^ k \<Longrightarrow> from_le (to_le k n) = n"
proof (induction k arbitrary: n)
  case (Suc k)
  then have "n div 256 < 256 ^ k" by (simp add: less_mult_imp_div_less mult.commute)
  moreover have "unat (word_of_nat (n mod 256) :: 8 word) = n mod 256" by (simp add: unat_of_nat take_bit_eq_mod)
  ultimately show ?case using Suc.IH by simp
qed simp

lemma nth_blocks:
  "list_all (\<lambda>b. length b = k) bs \<Longrightarrow> i < length bs \<Longrightarrow> j < k \<Longrightarrow> concat bs ! (i * k + j) = bs ! i ! j"
proof (induction bs arbitrary: i)
  case (Cons b bs)
  then show ?case by (cases i) (auto simp: nth_append add.assoc)
qed simp

lemma length_blocks: "list_all (\<lambda>b. length b = k) bs \<Longrightarrow> length (concat bs) = k * length bs"
  by (induction bs) simp_all

lemma length_encode: "chunk_ok c \<Longrightarrow> length (encode_chunk c) = CHUNK_HEADER + PER_TRACK * length (ch_tracks c)"
  using length_blocks[of 9 "map (\<lambda>t. fst t # snd t) (ch_tracks c)"]
  by (simp add: encode_chunk_def chunk_ok_def CHUNK_HEADER_def PER_TRACK_def list_all_iff)

lemma unat_count: "chunk_ok c \<Longrightarrow> unat (word_of_nat (length (ch_tracks c)) :: 8 word) = length (ch_tracks c)"
  by (simp add: chunk_ok_def unat_of_nat take_bit_eq_mod)

lemma chunk_fields:
  assumes "chunk_ok c" "data = pre @ encode_chunk c @ rest"
  shows "unat (data ! length pre) = length (ch_tracks c)" "chunk_key data (length pre) = key_of c"
    "i < length (ch_tracks c) \<Longrightarrow> unat (data ! (length pre + CHUNK_HEADER + i * PER_TRACK)) = conf_of c i"
proof -
  let ?t = "concat (map (\<lambda>t. fst t # snd t) (ch_tracks c))"
  have d: "data = pre @ word_of_nat (length (ch_tracks c)) # to_le 4 (ch_id1 c) @ to_le 4 (ch_id2 c) @ to_le 4 (ch_cddb c) @ ?t @ rest"
    by (simp add: assms(2) encode_chunk_def)
  show n: "unat (data ! length pre) = length (ch_tracks c)" using unat_count[OF assms(1)] by (simp add: d)
  have "from_le (to_le 4 x) = x" if "x < 2 ^ 32" for x using that by (intro from_to_le) simp
  then show "chunk_key data (length pre) = key_of c"
    using assms(1) n by (simp add: chunk_key_def key_of_def chunk_ok_def py_slice_def d[THEN arg_cong[of _ _ "drop _"]])
  assume i: "i < length (ch_tracks c)"
  then have "?t ! (i * 9 + 0) = fst (ch_tracks c ! i)"
    using assms(1) by (subst nth_blocks[where k = 9]) (simp_all add: chunk_ok_def list_all_iff)
  moreover have "i * 9 < length ?t"
    using i length_blocks[of 9 "map (\<lambda>t. fst t # snd t) (ch_tracks c)"] assms(1) by (simp add: chunk_ok_def list_all_iff)
  ultimately show "unat (data ! (length pre + CHUNK_HEADER + i * PER_TRACK)) = conf_of c i"
    by (simp add: d nth_append conf_of_def CHUNK_HEADER_def PER_TRACK_def)
qed

lemma fold_raise:
  "fold (raise_confidence data base) [0..<n] m =
     (\<lambda>t. if t < n then Some (max (case m t of None \<Rightarrow> 0 | Some c \<Rightarrow> c) (unat (data ! (base + t * PER_TRACK)))) else m t)"
proof (induction n)
  case (Suc n)
  then show ?case by (auto simp: raise_confidence_def fun_eq_iff less_Suc_eq)
qed simp

text \<open>The confidences after reading a list of matching chunks.\<close>

definition raised :: "ar_chunk \<Rightarrow> (nat \<rightharpoonup> nat) \<Rightarrow> (nat \<rightharpoonup> nat)" where
  "raised c m = (\<lambda>t. if t < length (ch_tracks c) then Some (max (case m t of None \<Rightarrow> 0 | Some x \<Rightarrow> x) (conf_of c t)) else m t)"

lemma parse_chunks_step:
  assumes "chunk_ok c" "data = pre @ encode_chunk c @ rest"
  shows "parse_chunks data key (length pre) k m =
    (if key_of c = key then parse_chunks data key (length (pre @ encode_chunk c)) (k + 1) (raised c m)
     else parse_chunks data key (length (pre @ encode_chunk c)) k m)"
proof -
  note f = chunk_fields[OF assms] and l = length_encode[OF assms(1)]
  have "fold (raise_confidence data (length pre + CHUNK_HEADER)) [0..<length (ch_tracks c)] m = raised c m"
    unfolding fold_raise raised_def using f(3) by (auto simp: fun_eq_iff)
  moreover have "length (ch_tracks c) \<noteq> 0" using assms(1) by (simp add: chunk_ok_def)
  moreover have "length data = length pre + length (encode_chunk c) + length rest" by (simp add: assms(2))
  ultimately show ?thesis using f(1,2) l by (subst parse_chunks.simps) (simp add: Let_def)
qed

lemma parse_chunks_end:
  assumes "no_chunk trail" "data = pre @ trail"
  shows "parse_chunks data key (length pre) k m = (k, m)"
proof (cases "13 \<le> length trail")
  case True
  then have "data ! length pre = hd trail" using assms(2) by (cases trail) auto
  with assms True show ?thesis
    by (subst parse_chunks.simps) (auto simp: no_chunk_def CHUNK_HEADER_def PER_TRACK_def Let_def)
next
  case False
  with assms(2) show ?thesis by (subst parse_chunks.simps) (simp add: CHUNK_HEADER_def)
qed

lemma parse_chunks_all:
  assumes "list_all chunk_ok cs" "no_chunk trail" "data = pre @ concat (map encode_chunk cs) @ trail"
  shows "parse_chunks data key (length pre) k m =
    (k + length (filter (\<lambda>c. key_of c = key) cs), fold raised (filter (\<lambda>c. key_of c = key) cs) m)"
  using assms
proof (induction cs arbitrary: pre k m)
  case Nil
  then show ?case using parse_chunks_end[of trail data pre] by simp
next
  case (Cons c cs)
  then have d: "data = pre @ encode_chunk c @ (concat (map encode_chunk cs) @ trail)" "data = (pre @ encode_chunk c) @ concat (map encode_chunk cs) @ trail"
    by simp_all
  have "chunk_ok c" "list_all chunk_ok cs" using Cons.prems by simp_all
  with parse_chunks_step[OF _ d(1)] Cons.IH[OF _ Cons.prems(2) d(2)] show ?case by simp
qed

definition best_conf :: "ar_chunk list \<Rightarrow> nat \<Rightarrow> nat" where
  "best_conf cs t = Max ((\<lambda>c. conf_of c t) ` set cs)"

lemma fold_raised:
  assumes "\<forall>c\<in>set cs. length (ch_tracks c) = n" "t < n" "cs \<noteq> []"
  shows "fold raised cs Map.empty t = Some (best_conf cs t)"
proof -
  have "fold raised cs m t = Some (Max (insert (case m t of None \<Rightarrow> 0 | Some x \<Rightarrow> x) ((\<lambda>c. conf_of c t) ` set cs)))"
    if "cs \<noteq> []" "\<forall>c\<in>set cs. length (ch_tracks c) = n" for cs m
    using that
  proof (induction cs arbitrary: m)
    case (Cons c cs)
    have r: "raised c m t = Some (max (case m t of None \<Rightarrow> 0 | Some x \<Rightarrow> x) (conf_of c t))"
      using Cons.prems assms(2) by (simp add: raised_def)
    show ?case
    proof (cases "cs = []")
      case False
      then show ?thesis using Cons.IH[OF False, of "raised c m"] Cons.prems r
        by (simp add: max.assoc max.left_commute max.commute)
    qed (simp add: r)
  qed simp
  from this[OF assms(3,1), of Map.empty] show ?thesis
    using assms(3) by (simp add: best_conf_def)
qed

section \<open>Lookups never fail\<close>

lemma raised_total: "\<forall>t<n. fold (raise_confidence data base) [0..<n] m t \<noteq> None"
  by (simp add: fold_raise)

lemma parse_chunks_total:
  "key = (id1, id2, cddb, int n) \<Longrightarrow> k = 0 \<or> (\<forall>t<n. m t \<noteq> None) \<Longrightarrow>
   parse_chunks data key offset k m = (k', m') \<Longrightarrow> k' = 0 \<or> (\<forall>t<n. m' t \<noteq> None)"
proof (induction data key offset k m rule: parse_chunks.induct)
  case (1 data key offset k m)
  let ?n = "unat (data ! offset)"
  show ?case
  proof (cases "offset + CHUNK_HEADER \<le> length data \<and> \<not> (?n = 0 \<or> offset + (CHUNK_HEADER + PER_TRACK * ?n) > length data)")
    case True
    show ?thesis
    proof (cases "chunk_key data offset = key")
      case hit: True
      then have "int ?n = int n" using "1.prems"(1) unfolding chunk_key_def prod.inject by blast
      then have n: "?n = n" by (simp only: of_nat_eq_iff)
      have step: "parse_chunks data key (offset + (CHUNK_HEADER + PER_TRACK * ?n)) (k + 1)
          (fold (raise_confidence data (offset + CHUNK_HEADER)) [0..<?n] m) = (k', m')"
        using "1.prems"(3) True hit by (subst (asm) parse_chunks.simps) (simp add: Let_def)
      from "1.IH"(1)[OF _ refl refl _ hit "1.prems"(1) _ step] True raised_total[of n data "offset + CHUNK_HEADER" m] n
      show ?thesis by simp
    next
      case miss: False
      have step: "parse_chunks data key (offset + (CHUNK_HEADER + PER_TRACK * ?n)) k m = (k', m')"
        using "1.prems"(3) True miss by (subst (asm) parse_chunks.simps) (simp add: Let_def)
      from "1.IH"(2)[OF _ refl refl _ miss "1.prems"(1,2) step] True show ?thesis by simp
    qed
  next
    case False
    then have "(k', m') = (k, m)" using "1.prems"(3) by (subst (asm) parse_chunks.simps) (auto simp: Let_def split: if_splits)
    with "1.prems"(2) show ?thesis by simp
  qed
qed

lemma parse_accuraterip_total:
  assumes "0 < n"
  shows "\<exists>r. parse_accuraterip data (id1, id2, cddb, int n) = Some r"
proof (cases data)
  case (Some body)
  obtain k m where p: "parse_chunks body (id1, id2, cddb, int n) 0 0 Map.empty = (k, m)" by (meson surj_pair)
  from parse_chunks_total[OF refl _ p] have "k = 0 \<or> (\<forall>t<n. m t \<noteq> None)" by simp
  moreover have "those (map m [0..<n]) = Some (map (the \<circ> m) [0..<n])" if "\<forall>t<n. m t \<noteq> None"
    using that by (auto simp: those_Some)
  ultimately show ?thesis using Some p assms by (auto simp: parse_accuraterip_def Let_def)
qed (simp add: parse_accuraterip_def)

lemma wf_toc_url:
  assumes "wf_toc toc"
  shows "\<exists>url cddb. accuraterip_url toc = Some url \<and> cddb_id toc = Some cddb"
proof -
  obtain os where "track_offsets_frames toc = 0 # os" using assms by (cases "track_offsets_frames toc") (auto simp: wf_toc_def)
  then show ?thesis by (simp add: accuraterip_url_def cddb_id_def Let_def split: prod.split)
qed

section \<open>CTDB entries\<close>

lemma digits_ok_digits: "w \<noteq> [] \<Longrightarrow> \<forall>c\<in>set w. is_digit c \<Longrightarrow> digits_ok w"
proof (induction w rule: digits_ok.induct)
  case (3 c d cs)
  then have "d \<noteq> CHR ''_''" by (auto simp: is_digit_def)
  with 3 show ?case by simp
qed simp_all

lemma py_int_str:
  assumes "0 \<le> n"
  shows "py_int (py_str_int n) = Some n"
proof -
  let ?w = "py_str_nat (nat n)"
  have d: "is_digit c" if "c \<in> set ?w" for c using py_str_nat_digits[OF that] is_digit_digit_char by auto
  obtain c cs where w: "?w = c # cs" using py_str_nat_nonempty by (cases ?w) auto
  have "py_lstrip ?w = ?w" using d[of c] digit_not_space by (simp add: py_lstrip_def w)
  moreover have "py_rstrip ?w = ?w"
  proof -
    have "\<not> py_isspace_char (last ?w)" using d digit_not_space w by (metis last_in_set list.distinct(1))
    then have "dropWhile py_isspace_char (rev ?w) = rev ?w" using w by (metis dropWhile_eq_self_iff hd_rev)
    then show ?thesis by (simp add: py_rstrip_def)
  qed
  ultimately have "py_strip ?w = c # cs" by (simp add: py_strip_def w)
  moreover have "c \<noteq> CHR ''-''" "c \<noteq> CHR ''+''" using d[of c] w by (auto simp: is_digit_def)
  moreover have "py_int_digits ?w = Some n"
  proof -
    have "\<not> is_digit (CHR ''_'')" by (simp add: is_digit_def)
    then have "filter (\<lambda>c. c \<noteq> CHR ''_'') ?w = ?w" using d by (auto simp: filter_id_conv dest: d)
    then show ?thesis using digits_ok_digits[of ?w] d assms by (simp add: py_int_digits_def)
  qed
  ultimately show ?thesis using assms w by (simp add: py_int_def py_str_int_def)
qed

definition ctdb_entry :: "cd_toc \<times> int \<Rightarrow> xml_element" where
  "ctdb_entry e = (''{http://db.cuetools.net/ns/mmd-1.0#}entry'',
     [(''confidence'', py_str_int (snd e)), (''toc'', expected_entry_toc (fst e))])"

lemma py_str_int_nonempty: "py_str_int n \<noteq> []"
  by (simp add: py_str_int_def)

lemma ctdb_entry_sel:
  assumes "0 \<le> snd e"
  shows "entry_matches t (ctdb_entry e) \<longleftrightarrow> expected_entry_toc (fst e) = t" "entry_confidence (ctdb_entry e) best = max best (snd e)"
  using assms by (simp_all add: entry_matches_def ctdb_entry_def local_name_def entry_confidence_def py_int_str py_str_int_nonempty)

section \<open>Cached lookups\<close>

lemma ar_lookup_final:
  assumes "wf_toc toc"
  shows "\<exists>url r cache'. accuraterip_url toc = Some url \<and>
    lookup_accuraterip fetch toc cache = Some (r, cache', if cache url = None then [url] else []) \<and>
    (\<forall>fetch'. lookup_accuraterip fetch' toc cache' = Some (r, cache', [])) \<and>
    (cache url = None \<and> fetch url = None \<longrightarrow> r = ar_not_found)"
proof -
  obtain url cddb where u: "accuraterip_url toc = Some url" "cddb_id toc = Some cddb" using wf_toc_url[OF assms] by blast
  let ?n = "length (track_offsets_frames toc)" and ?ids = "accuraterip_ids toc"
  have n: "0 < ?n" "track_count toc = int ?n" using assms by (simp_all add: wf_toc_def)
  obtain r where r: "parse_accuraterip (fetch url) (fst ?ids, snd ?ids, cddb, track_count toc) = Some r"
    using parse_accuraterip_total[OF n(1)] n(2) by metis
  have "r = ar_not_found" if "fetch url = None" using r that by (simp add: parse_accuraterip_def)
  with u r show ?thesis by (cases "cache url") (simp_all add: lookup_accuraterip_def Let_def)
qed

lemma ctdb_lookup_final:
  "\<exists>r cache'. lookup_ctdb xml get toc ccache = (r, cache', if ccache (ctdb_lookup_url toc) = None then [ctdb_lookup_url toc] else []) \<and>
    (\<forall>get'. lookup_ctdb xml get' toc cache' = (r, cache', [])) \<and>
    (ccache (ctdb_lookup_url toc) = None \<and> get (ctdb_lookup_url toc) = None \<longrightarrow> r = ctdb_not_found)"
  by (cases "ccache (ctdb_lookup_url toc)") (simp_all add: lookup_ctdb_def parse_ctdb_def Let_def)

section \<open>Properties\<close>

text \<open>Reading an AccurateRip body. For any body made of well-formed chunks, followed by anything that is not a
  chunk, the parser counts exactly the chunks of the disc that was looked up and reports for every track
  the highest confidence among them; a body without such a chunk is not a hit, whatever other discs it
  has. The parser never fails.\<close>

theorem accuraterip_body_spec:
  assumes "list_all chunk_ok cs" "no_chunk trail" "0 < n"
  shows "parse_accuraterip (Some (concat (map encode_chunk cs) @ trail)) (id1, id2, cddb, int n) =
    (let hits = filter (\<lambda>c. key_of c = (id1, id2, cddb, int n)) cs; best = map (best_conf hits) [0..<n] in
     Some (if hits = [] then ar_not_found
           else \<lparr>ar_found = True, ar_pressings = length hits, ar_max_confidence = Max (set best),
                 ar_track_count = int n, ar_per_track = best\<rparr>))"
proof -
  let ?key = "(id1, id2, cddb, int n)" and ?data = "concat (map encode_chunk cs) @ trail"
  let ?hits = "filter (\<lambda>c. key_of c = ?key) cs"
  have p: "parse_chunks ?data ?key 0 0 Map.empty = (length ?hits, fold raised ?hits Map.empty)"
    using parse_chunks_all[OF assms(1,2), of ?data "[]" ?key 0 Map.empty] by simp
  show ?thesis
  proof (cases "?hits = []")
    case True
    then show ?thesis using p by (simp add: parse_accuraterip_def Let_def)
  next
    case False
    have "\<forall>c\<in>set ?hits. length (ch_tracks c) = n" by (auto simp: key_of_def)
    then have "fold raised ?hits Map.empty t = Some (best_conf ?hits t)" if "t < n" for t using fold_raised that False by blast
    then have "map (fold raised ?hits Map.empty) [0..<n] = map Some (map (best_conf ?hits) [0..<n])"
      by simp
    then have "those (map (fold raised ?hits Map.empty) [0..<n]) = Some (map (best_conf ?hits) [0..<n])" by (simp add: those_Some)
    moreover have "?data \<noteq> []"
    proof -
      obtain c where "c \<in> set cs" using False by (auto simp: filter_empty_conv)
      moreover have "encode_chunk c \<noteq> []" for c by (simp add: encode_chunk_def)
      ultimately show ?thesis by auto
    qed
    ultimately show ?thesis using p False assms(3)
      by (simp add: parse_accuraterip_def Let_def del: append_is_Nil_conv concat_eq_Nil_conv)
  qed
qed

definition demo_chunk :: "nat \<Rightarrow> 8 word list \<Rightarrow> ar_chunk" where
  "demo_chunk i cs = \<lparr>ch_id1 = i, ch_id2 = 2, ch_cddb = 3, ch_tracks = map (\<lambda>c. (c, replicate 8 0)) cs\<rparr>"

theorem accuraterip_body_spec_witness:
  "parse_accuraterip (Some (concat (map encode_chunk [demo_chunk 1 [5, 9], demo_chunk 7 [40, 40], demo_chunk 1 [6, 4]]) @ [2, 0])) (1, 2, 3, int 2) =
    Some \<lparr>ar_found = True, ar_pressings = 2, ar_max_confidence = 9, ar_track_count = 2, ar_per_track = [6, 9]\<rparr>"
proof -
  have "list_all chunk_ok [demo_chunk 1 [5, 9], demo_chunk 7 [40, 40], demo_chunk 1 [6, 4]]" "no_chunk [2, 0]"
    by (simp_all add: chunk_ok_def demo_chunk_def no_chunk_def)
  note spec = accuraterip_body_spec[OF this, of 2 1 2 3]
  show ?thesis unfolding spec[OF zero_less_numeral]
    by (simp add: key_of_def demo_chunk_def Let_def best_conf_def conf_of_def upt_rec)
qed

text \<open>Reading a CTDB response. Whatever entries the fuzzy search returns, only those of exactly this disc are
  counted, with the highest of their confidences.\<close>

theorem ctdb_response_spec:
  assumes "wf_toc toc" "\<forall>e\<in>set es. wf_toc (fst e) \<and> 0 \<le> snd e" "text \<noteq> []" "xml text = Some (map ctdb_entry es)"
  shows "parse_ctdb xml (Some text) (expected_entry_toc toc) =
    (let hits = filter (\<lambda>e. fst e = toc) es in
     if hits = [] then ctdb_not_found
     else \<lparr>ct_found = True, ct_submissions = length hits, ct_confidence = Max (insert 0 (snd ` set hits))\<rparr>)"
proof -
  let ?hits = "filter (\<lambda>e. fst e = toc) es"
  have "entry_matches (expected_entry_toc toc) (ctdb_entry e) \<longleftrightarrow> fst e = toc" if "e \<in> set es" for e
    using that assms(1,2) by (auto simp: ctdb_entry_sel dest: entry_toc_inject)
  then have f: "filter (entry_matches (expected_entry_toc toc)) (map ctdb_entry es) = map ctdb_entry ?hits"
    by (simp add: filter_map comp_def cong: filter_cong)
  have "fold entry_confidence (map ctdb_entry hs) b = Max (insert b (snd ` set hs))" if "\<forall>e\<in>set hs. 0 \<le> snd e" for hs b
    using that
  proof (induction hs arbitrary: b)
    case (Cons h hs)
    then show ?case by (cases "hs = []") (simp_all add: ctdb_entry_sel max.assoc max.left_commute max.commute)
  qed simp
  then have "fold entry_confidence (map ctdb_entry ?hits) 0 = Max (insert 0 (snd ` set ?hits))" using assms(2) by simp
  with f assms(3,4) show ?thesis by (simp add: parse_ctdb_def Let_def)
qed

theorem ctdb_response_spec_witness:
  "parse_ctdb (\<lambda>_. Some (map ctdb_entry [(OK_COMPUTER, 7), (OK_COMPUTER\<lparr>leadout_frames := 241892\<rparr>, 200)])) (Some ''x'') (expected_entry_toc OK_COMPUTER) =
    \<lparr>ct_found = True, ct_submissions = 1, ct_confidence = 7\<rparr>"
proof -
  have "wf_toc OK_COMPUTER" "wf_toc (OK_COMPUTER\<lparr>leadout_frames := 241892\<rparr>)" by (simp_all add: wf_toc_def OK_COMPUTER_def)
  moreover have "OK_COMPUTER\<lparr>leadout_frames := 241892\<rparr> \<noteq> OK_COMPUTER" by (simp add: OK_COMPUTER_def)
  ultimately show ?thesis
    using ctdb_response_spec[of OK_COMPUTER "[(OK_COMPUTER, 7), (OK_COMPUTER\<lparr>leadout_frames := 241892\<rparr>, 200)]" "''x''"
        "\<lambda>_. Some (map ctdb_entry [(OK_COMPUTER, 7), (OK_COMPUTER\<lparr>leadout_frames := 241892\<rparr>, 200)])"] by simp
qed

text \<open>Lookups return, and their first answer is final. For a reconstructed table of contents neither lookup
  raises; each disc is requested at most once, and every later lookup repeats the first answer without a
  request. In particular a lookup made during an outage is answered with \<open>not found\<close>, and stays so when
  the service is reachable again.\<close>

theorem first_lookup_is_final:
  assumes "wf_toc toc"
  shows "(\<exists>url r cache'. accuraterip_url toc = Some url \<and>
      lookup_accuraterip fetch toc cache = Some (r, cache', if cache url = None then [url] else []) \<and>
      lookup_accuraterip fetch' toc cache' = Some (r, cache', []) \<and>
      (cache url = None \<and> fetch url = None \<longrightarrow> r = ar_not_found)) \<and>
    (\<exists>r cache'. lookup_ctdb xml get toc ccache = (r, cache', if ccache (ctdb_lookup_url toc) = None then [ctdb_lookup_url toc] else []) \<and>
      lookup_ctdb xml get' toc cache' = (r, cache', []) \<and>
      (ccache (ctdb_lookup_url toc) = None \<and> get (ctdb_lookup_url toc) = None \<longrightarrow> r = ctdb_not_found))"
  using ar_lookup_final[OF assms] ctdb_lookup_final by blast

theorem first_lookup_is_final_witness:
  "\<exists>url cache'. lookup_accuraterip (\<lambda>_. None) OK_COMPUTER Map.empty = Some (ar_not_found, cache', [url])"
proof -
  have "wf_toc OK_COMPUTER" by (simp add: wf_toc_def OK_COMPUTER_def)
  from conjunct1[OF first_lookup_is_final[OF this, where fetch = "\<lambda>_. None" and cache = Map.empty and fetch' = "\<lambda>_. None"]]
  show ?thesis by auto
qed

end
