(* ===== verification/Sensor_Registry.thy ===== *)
theory Sensor_Registry
  imports Py_Json "HOL-Library.List_Lexorder" "HOL-Library.Char_ord" "HOL-Library.Product_Lexorder"
begin

text \<open>
  The registry of the quality sensors (\<open>app/sensor_registry.py\<close>) and the standard shape of a sensor
  result (\<open>_sensor_result\<close> of \<open>app/server.py\<close>). A registry is the list of its definitions in insertion
  order, one per name.
\<close>

datatype sensor_stage = Technical_Gate | Spectral | Source_Specific | Metadata_Stage | Provenance

record sensor_def =
  sd_name :: string
  sd_class :: string
  sd_stage :: sensor_stage
  sd_enabled :: bool
  sd_required :: bool
  sd_timeout_sec :: int
  sd_fail_policy :: string
  sd_applies_to :: "string list"
  sd_schema :: string

definition ALL_LANES :: "string list" where
  "ALL_LANES = [''tidal'', ''web'', ''usenet'', ''torrent'', ''soulseek'', ''cd_rip'']"

definition DEFAULT_SENSORS :: "sensor_def list" where
  "DEFAULT_SENSORS =
     [\<lparr>sd_name = ''ffprobe'', sd_class = ''hard_gate'', sd_stage = Technical_Gate, sd_enabled = True, sd_required = True,
       sd_timeout_sec = 30, sd_fail_policy = ''block'', sd_applies_to = ALL_LANES, sd_schema = ''sensor-result-v1''\<rparr>,
      \<lparr>sd_name = ''flac_t'', sd_class = ''hard_gate'', sd_stage = Technical_Gate, sd_enabled = True, sd_required = True,
       sd_timeout_sec = 120, sd_fail_policy = ''block'', sd_applies_to = ALL_LANES, sd_schema = ''sensor-result-v1''\<rparr>,
      \<lparr>sd_name = ''flac_detective'', sd_class = ''spectral_heuristic'', sd_stage = Spectral, sd_enabled = True, sd_required = True,
       sd_timeout_sec = 900, sd_fail_policy = ''block'', sd_applies_to = [''tidal'', ''web'', ''usenet'', ''torrent'', ''soulseek''],
       sd_schema = ''sensor-result-v1''\<rparr>,
      \<lparr>sd_name = ''picard_beets_acoustid'', sd_class = ''metadata_identity'', sd_stage = Metadata_Stage, sd_enabled = False,
       sd_required = False, sd_timeout_sec = 120, sd_fail_policy = ''warn'', sd_applies_to = ALL_LANES,
       sd_schema = ''sensor-result-v1''\<rparr>,
      \<lparr>sd_name = ''release_identity'', sd_class = ''metadata_identity'', sd_stage = Metadata_Stage, sd_enabled = True,
       sd_required = False, sd_timeout_sec = 30, sd_fail_policy = ''warn'', sd_applies_to = ALL_LANES,
       sd_schema = ''release-identity-evidence-v1''\<rparr>,
      \<lparr>sd_name = ''cd_rip_evidence'', sd_class = ''source_specific_proof'', sd_stage = Source_Specific, sd_enabled = True,
       sd_required = False, sd_timeout_sec = 30, sd_fail_policy = ''skip'', sd_applies_to = [''usenet'', ''torrent'', ''soulseek'', ''cd_rip''],
       sd_schema = ''cd-rip-evidence-v1''\<rparr>,
      \<lparr>sd_name = ''ctdb'', sd_class = ''source_specific_proof'', sd_stage = Source_Specific, sd_enabled = False,
       sd_required = False, sd_timeout_sec = 30, sd_fail_policy = ''skip'', sd_applies_to = [''usenet'', ''torrent'', ''soulseek'', ''cd_rip''],
       sd_schema = ''ctdb-evidence-v1''\<rparr>]"

text \<open>The dictionary keeps the place of the first definition of a name and the value of the last.\<close>

fun put_sensor :: "sensor_def \<Rightarrow> sensor_def list \<Rightarrow> sensor_def list" where
  "put_sensor d [] = [d]"
| "put_sensor d (e # es) = (if sd_name e = sd_name d then d # es else e # put_sensor d es)"

definition make_registry :: "sensor_def list \<Rightarrow> sensor_def list" where
  "make_registry ds = fold put_sensor ds []"

text \<open>\<open>None\<close> is the key error.\<close>

definition get_sensor :: "string \<Rightarrow> sensor_def list \<Rightarrow> sensor_def option" where
  "get_sensor name reg = List.find (\<lambda>d. sd_name d = name) reg"

fun stage_order :: "sensor_stage \<Rightarrow> nat" where
  "stage_order Technical_Gate = 0"
| "stage_order Spectral = 1"
| "stage_order Source_Specific = 2"
| "stage_order Metadata_Stage = 3"
| "stage_order Provenance = 4"

definition ordered_sensors :: "string \<Rightarrow> sensor_def list \<Rightarrow> sensor_def list" where
  "ordered_sensors lane reg =
     sort_key (\<lambda>d. (stage_order (sd_stage d), sd_name d)) (filter (\<lambda>d. sd_enabled d \<and> lane \<in> set (sd_applies_to d)) reg)"

text \<open>\<open>Inl\<close> has the text of the value error.\<close>

definition validate_mode :: "string \<Rightarrow> sensor_def list \<Rightarrow> string + unit" where
  "validate_mode mode reg =
     (if mode \<noteq> ''import'' then Inr ()
      else
        let bad = map sd_name (filter (\<lambda>d. sd_required d \<and> \<not> sd_enabled d) reg) in
        if bad \<noteq> [] then Inl (''required sensors cannot be disabled in import mode: '' @ py_join '', '' (sort bad)) else Inr ())"

definition default_registry :: "sensor_def list" where
  "default_registry = make_registry DEFAULT_SENSORS"

definition SENSOR_POLICY_VERSION :: string where
  "SENSOR_POLICY_VERSION = ''pipeline-v2-spec-0.4.4''"

definition sensor_result :: "string \<Rightarrow> string \<Rightarrow> string \<Rightarrow> string \<Rightarrow> rat \<Rightarrow> string \<Rightarrow> dict \<Rightarrow> string \<Rightarrow> dict option" where
  "sensor_result name cls status severity confidence summary evidence version =
     map_option (\<lambda>d.
       [(''name'', JStr name), (''sensor_version'', JStr version), (''binary_version'', JNull),
        (''policy_version'', JStr SENSOR_POLICY_VERSION), (''evidence_schema_version'', JStr (sd_schema d)),
        (''class'', JStr cls), (''status'', JStr status), (''severity'', JStr severity), (''confidence'', JFloat confidence),
        (''duration_ms'', JNull), (''summary'', JStr summary), (''evidence'', JObj evidence)])
       (get_sensor name default_registry)"

section \<open>Facts about registries\<close>

lemma get_put_sensor:
  "get_sensor n (put_sensor d reg) = (if n = sd_name d then Some d else get_sensor n reg)"
  by (induction reg) (auto simp: get_sensor_def)

lemma put_sensor_names: "distinct (map sd_name reg) \<Longrightarrow> distinct (map sd_name (put_sensor d reg))"
proof (induction reg)
  case (Cons e es)
  have "set (map sd_name (put_sensor d es)) \<subseteq> insert (sd_name d) (set (map sd_name es))"
    by (induction es) auto
  with Cons show ?case by auto
qed simp

lemma make_registry_names: "distinct (map sd_name (make_registry ds))"
proof -
  have "distinct (map sd_name (fold put_sensor ds reg))" if "distinct (map sd_name reg)" for reg
    using that by (induction ds arbitrary: reg) (simp_all add: put_sensor_names)
  then show ?thesis by (simp add: make_registry_def)
qed

lemma make_registry_get: "get_sensor n (make_registry ds) = List.find (\<lambda>d. sd_name d = n) (rev ds)"
  unfolding make_registry_def
  by (induction ds rule: rev_induct) (auto simp: get_put_sensor, simp add: get_sensor_def)

lemma ordered_sensors_spec:
  "sorted (map (\<lambda>d. (stage_order (sd_stage d), sd_name d)) (ordered_sensors lane reg)) \<and>
   set (ordered_sensors lane reg) = {d \<in> set reg. sd_enabled d \<and> lane \<in> set (sd_applies_to d)}"
  by (auto simp: ordered_sensors_def)

lemma validate_mode_iff:
  "validate_mode mode reg = Inr () \<longleftrightarrow> (mode = ''import'' \<longrightarrow> (\<forall>d\<in>set reg. sd_required d \<longrightarrow> sd_enabled d))"
  by (auto simp: validate_mode_def Let_def filter_empty_conv)

end
