(* ===== verification/Cd_Rip.thy ===== *)
theory Cd_Rip
  imports Cd_Lookup Sensor_Registry Decision_Pipeline
begin

text \<open>
  Evidence that a completed folder is a CD rip (\<open>app/cd_rip_evidence.py\<close>), and the two advisory sensors
  built from it in \<open>app/server.py\<close>: the rip log itself and the cross-check of the disc in AccurateRip and
  CTDB. The regular expressions are those of the source, over \<open>Py_Regex\<close>.
\<close>

definition MAX_LOG_BYTES :: nat where
  "MAX_LOG_BYTES = 5 * 1024 * 1024"

definition RIPPERS :: "(string \<times> string) list" where
  "RIPPERS = [(''Exact Audio Copy'', ''eac''), (''X Lossless Decoder'', ''xld''), (''whipper'', ''whipper''),
     (''morituri'', ''whipper''), (''cyanrip'', ''cyanrip'')]"

definition COPY_OK_RE :: re where
  "COPY_OK_RE = cats [WordEdge, Lit_ci ''Copy OK'', WordEdge]"

definition XLD_TRACK_OK_RE :: re where
  "XLD_TRACK_OK_RE = cats [Lit_ci ''Track'', Rep1 Space, Rep1 Digit, Rep Space, Ch CHR '':'', Rep Space, Lit_ci ''OK'', WordEdge]"

definition AR_CONFIDENCE_RE :: re where
  "AR_CONFIDENCE_RE = cats [Lit_ci ''confidence'', Rep1 Space, Grp 1 (Rep1 Digit)]"

definition ALL_ACCURATE_RE :: re where
  "ALL_ACCURATE_RE = Lit_ci ''all tracks accurately ripped''"

definition VERSION_RE :: re where
  "VERSION_RE = Cat (Opt (Lit_ci ''V''))
     (Grp 1 (cats [Rep1 Digit, Ch CHR ''.'', Rep1 Digit, Opt (Cat (Ch CHR ''.'') (Rep1 Digit)),
       Opt (cats [Rep Space, Lit_ci ''beta'', Rep Space, Rep1 Digit])]))"

definition ERROR_MARKERS :: "string list" where
  "ERROR_MARKERS = [''copy aborted'', ''there were errors'', ''timing problem'', ''missing samples'', ''rip not accurate'',
     ''no match'', ''track not present in database'', '' : ng'', ''accurately ripped (confidence 0)'']"

record ar_log =
  al_present :: bool
  al_accurate :: bool
  al_min_confidence :: "nat option"
  al_matched :: nat
  al_total :: nat

record cd_rip_evidence =
  ce_detected :: bool
  ce_status :: string
  ce_summary :: string
  ce_ripper :: "string option"
  ce_ripper_version :: "string option"
  ce_log_filename :: "string option"
  ce_has_cue :: bool
  ce_tracks_copy_ok :: nat
  ce_accuraterip :: ar_log

definition no_ar_log :: ar_log where
  "no_ar_log = \<lparr>al_present = False, al_accurate = False, al_min_confidence = None, al_matched = 0, al_total = 0\<rparr>"

definition ripper_from_head :: "string \<Rightarrow> string option" where
  "ripper_from_head head =
     map_option snd (List.find (\<lambda>(needle, name). py_in (py_lower needle) (py_lower head)) RIPPERS)"

definition ripper_version :: "string \<Rightarrow> string option \<Rightarrow> string option" where
  "ripper_version text ripper =
     (if ripper = None then None
      else map_option (\<lambda>m. py_strip (grp 1 m)) (re_search VERSION_RE (py_join [CHR 0x0A] (take 5 (splitlines text)))))"

definition parse_ar_log :: "string \<Rightarrow> ar_log" where
  "parse_ar_log text =
     (let confidences = map (\<lambda>m. dec_val (grp 1 m)) (re_finditer AR_CONFIDENCE_RE text);
          all_accurate = (re_search ALL_ACCURATE_RE text \<noteq> None) in
      if confidences = [] \<and> \<not> all_accurate then no_ar_log
      else
        let non_zero = filter (\<lambda>c. c > 0) confidences;
            matched = length non_zero;
            has_zero_conf = (matched < length confidences) in
        \<lparr>al_present = True, al_accurate = ((all_accurate \<or> matched > 0) \<and> \<not> has_zero_conf),
         al_min_confidence = (if non_zero = [] then None else Some (Min (set non_zero))),
         al_matched = matched, al_total = length confidences\<rparr>)"

definition pass_summary :: "ar_log \<Rightarrow> nat \<Rightarrow> string" where
  "pass_summary ar copy_ok =
     (if al_accurate ar
      then (case al_min_confidence ar of
              Some c \<Rightarrow> ''AccurateRip-verified rip (min confidence '' @ py_str_nat c @ '')''
            | None \<Rightarrow> ''AccurateRip-verified rip'')
      else ''rip log present, '' @ py_str_nat copy_ok @ '' track(s) copied OK'')"

definition copy_ok_count :: "string \<Rightarrow> nat" where
  "copy_ok_count text = length (re_finditer COPY_OK_RE text) + length (re_finditer XLD_TRACK_OK_RE text)"

definition log_has_error :: "string \<Rightarrow> bool" where
  "log_has_error text = (\<exists>marker\<in>set ERROR_MARKERS. py_in marker (py_lower text))"

definition parse_log :: "string \<Rightarrow> string \<Rightarrow> bool \<Rightarrow> cd_rip_evidence" where
  "parse_log text log_filename has_cue =
     (let ripper = ripper_from_head text; copy_ok = copy_ok_count text; ar = parse_ar_log text;
          (status, summary) =
            (if log_has_error text \<or> al_present ar \<and> \<not> al_accurate ar
             then (''warn'', ''rip log present with errors or AccurateRip mismatch'')
             else if al_accurate ar \<or> copy_ok > 0 then (''pass'', pass_summary ar copy_ok)
             else (''warn'', ''rip log present but no positive copy/AccurateRip evidence'')) in
      \<lparr>ce_detected = True, ce_status = status, ce_summary = summary, ce_ripper = ripper,
       ce_ripper_version = ripper_version text ripper, ce_log_filename = Some log_filename, ce_has_cue = has_cue,
       ce_tracks_copy_ok = copy_ok, ce_accuraterip = ar\<rparr>)"

definition find_rip_log :: "rip_file list option \<Rightarrow> rip_file option" where
  "find_rip_log folder =
     (case folder of
        None \<Rightarrow> None
      | Some files \<Rightarrow>
          List.find (\<lambda>f. rf_text f 4096 \<noteq> [] \<and> ripper_from_head (rf_text f 4096) \<noteq> None)
            (sort_key rf_parts (filter (\<lambda>f. py_lower (py_suffix (rf_name f)) \<in> {''.log'', ''.txt''}) files)))"

definition has_cue_file :: "rip_file list option \<Rightarrow> bool" where
  "has_cue_file folder =
     (case folder of None \<Rightarrow> False | Some files \<Rightarrow> \<exists>f\<in>set files. py_lower (py_suffix (rf_name f)) = ''.cue'')"

definition evaluate_folder :: "rip_file list option \<Rightarrow> cd_rip_evidence" where
  "evaluate_folder folder =
     (let has_cue = has_cue_file folder;
          bare = \<lparr>ce_detected = False, ce_status = ''skipped'', ce_summary = ''no rip log or cue sheet'', ce_ripper = None,
                  ce_ripper_version = None, ce_log_filename = None, ce_has_cue = False, ce_tracks_copy_ok = 0,
                  ce_accuraterip = no_ar_log\<rparr> in
      case find_rip_log folder of
        None \<Rightarrow>
          if has_cue
          then bare\<lparr>ce_detected := True, ce_status := ''warn'', ce_summary := ''cue sheet present but no verifiable rip log'',
                    ce_has_cue := True\<rparr>
          else bare
      | Some f \<Rightarrow> parse_log (rf_text f MAX_LOG_BYTES) (rf_name f) has_cue)"

definition cd_rip_evidence_or_none :: "rip_file list option \<Rightarrow> cd_rip_evidence option" where
  "cd_rip_evidence_or_none folder = (let ev = evaluate_folder folder in if ce_detected ev then Some ev else None)"

text \<open>What the decision reads of the evidence.\<close>

definition scoring_view :: "cd_rip_evidence \<Rightarrow> cd_rip_ev" where
  "scoring_view ev = \<lparr>ev_status = ce_status ev, ev_log_filename = ce_log_filename ev, ev_accurate = al_accurate (ce_accuraterip ev)\<rparr>"

section \<open>The two sensors\<close>

definition jstr_opt :: "string option \<Rightarrow> json" where
  "jstr_opt x = (case x of None \<Rightarrow> JNull | Some s \<Rightarrow> JStr s)"

definition cd_rip_sensor_from_evidence :: "cd_rip_evidence \<Rightarrow> dict option" where
  "cd_rip_sensor_from_evidence ev =
     (let (sev, confidence) =
        (if ce_status ev = ''pass''
         then (''info'', if al_accurate (ce_accuraterip ev) then fl (9 / 10) else fl (6 / 10))
         else (''warning'', fl (3 / 10))) in
      sensor_result ''cd_rip_evidence'' ''source_specific_proof'' (ce_status ev) sev confidence (ce_summary ev)
        [(''ripper'', jstr_opt (ce_ripper ev)), (''ripper_version'', jstr_opt (ce_ripper_version ev)),
         (''log_filename'', jstr_opt (ce_log_filename ev)), (''has_cue'', JBool (ce_has_cue ev)),
         (''tracks_copy_ok'', JInt (int (ce_tracks_copy_ok ev))),
         (''accuraterip'', JObj
            [(''present'', JBool (al_present (ce_accuraterip ev))), (''accurate'', JBool (al_accurate (ce_accuraterip ev))),
             (''min_confidence'', case al_min_confidence (ce_accuraterip ev) of None \<Rightarrow> JNull | Some c \<Rightarrow> JInt (int c)),
             (''matched'', JInt (int (al_matched (ce_accuraterip ev)))), (''total'', JInt (int (al_total (ce_accuraterip ev))))])]
        ''mintarr-cd-rip-evidence 2026-06-05'')"

definition CTDB_VERSION :: string where
  "CTDB_VERSION = ''mintarr-ctdb 2026-06-07''"

definition ctdb_skipped :: "string \<Rightarrow> string \<Rightarrow> dict \<Rightarrow> dict option" where
  "ctdb_skipped sev summary evidence =
     sensor_result ''ctdb'' ''source_specific_proof'' ''skipped'' sev 0 summary evidence CTDB_VERSION"

definition py_bool :: "bool \<Rightarrow> string" where
  "py_bool b = (if b then ''True'' else ''False'')"

type_synonym lookup_caches = "ar_result cache \<times> ctdb_result cache"

text \<open>The sensor with the two process-level caches; \<open>None\<close> is no sensor. The dash of the summary is written as a
  hyphen.\<close>

definition build_ctdb_sensor :: "bool \<Rightarrow> (string \<Rightarrow> 8 word list option) \<Rightarrow> (string \<Rightarrow> xml_element list option) \<Rightarrow>
    (string \<Rightarrow> string option) \<Rightarrow> rip_file list option \<Rightarrow> cd_rip_evidence option \<Rightarrow> lookup_caches \<Rightarrow> dict option \<times> lookup_caches" where
  "build_ctdb_sensor enabled fetch xml get folder ev caches =
     (if ev = None \<or> \<not> enabled then (None, caches)
      else
        case reconstruct_toc folder of
          None \<Rightarrow>
            (ctdb_skipped ''info'' ''CD-rip TOC could not be reconstructed; skipped AccurateRip/CTDB lookup.''
               [(''reason'', JStr ''no_toc'')], caches)
        | Some toc \<Rightarrow>
            (case lookup_accuraterip fetch toc (fst caches) of
               None \<Rightarrow>
                 (ctdb_skipped ''warning'' ''AccurateRip/CTDB lookup was unavailable.'' [(''reason'', JStr ''lookup_unavailable'')], caches)
             | Some (ar, ar_cache, _) \<Rightarrow>
                 (case lookup_ctdb xml get toc (snd caches) of
                    (ct, ct_cache, _) \<Rightarrow>
                      let evidence =
                            [(''accuraterip'', JObj [(''found'', JBool (ar_found ar)), (''max_confidence'', JInt (int (ar_max_confidence ar))),
                                (''pressings'', JInt (int (ar_pressings ar)))]),
                             (''ctdb'', JObj [(''found'', JBool (ct_found ct)), (''confidence'', JInt (ct_confidence ct)),
                                (''submissions'', JInt (int (ct_submissions ct)))])] in
                      (if ar_found ar \<or> ct_found ct
                       then sensor_result ''ctdb'' ''source_specific_proof'' ''pass'' ''info''
                              (if ar_found ar \<and> ct_found ct then fl (9 / 10) else fl (7 / 10))
                              (''Disc found in AccurateRip (conf '' @ py_str_nat (ar_max_confidence ar) @ '') / CTDB (conf '' @
                               py_str_int (ct_confidence ct) @ ''): AccurateRip found='' @ py_bool (ar_found ar) @ '', CTDB found='' @
                               py_bool (ct_found ct) @ ''. Lookup only - not a checksum verification.'')
                              evidence CTDB_VERSION
                       else ctdb_skipped ''info'' ''Disc not found in AccurateRip or CTDB.'' evidence,
                       (ar_cache, ct_cache)))))"

section \<open>Facts about rip logs\<close>

definition log_confidences :: "string \<Rightarrow> nat list" where
  "log_confidences text = map (\<lambda>m. dec_val (grp 1 m)) (re_finditer AR_CONFIDENCE_RE text)"

lemma filter_short: "length (filter P xs) < length xs \<longleftrightarrow> (\<exists>x\<in>set xs. \<not> P x)"
  by (metis filter_id_conv length_filter_le length_filter_less order_le_less order_less_irrefl)

lemma ar_log_spec:
  "al_accurate (parse_ar_log text) \<longleftrightarrow>
     (\<forall>c\<in>set (log_confidences text). 0 < c) \<and> (log_confidences text \<noteq> [] \<or> re_search ALL_ACCURATE_RE text \<noteq> None)"
  "al_present (parse_ar_log text) \<longleftrightarrow> log_confidences text \<noteq> [] \<or> re_search ALL_ACCURATE_RE text \<noteq> None"
  "al_matched (parse_ar_log text) \<le> al_total (parse_ar_log text)"
proof -
  have "filter (\<lambda>c. 0 < c) cs \<noteq> []" if "cs \<noteq> []" "\<forall>c\<in>set cs. 0 < c" for cs :: "nat list"
    using that by (cases cs) simp_all
  then show "al_accurate (parse_ar_log text) \<longleftrightarrow>
     (\<forall>c\<in>set (log_confidences text). 0 < c) \<and> (log_confidences text \<noteq> [] \<or> re_search ALL_ACCURATE_RE text \<noteq> None)"
    unfolding parse_ar_log_def log_confidences_def[symmetric] Let_def
    by (auto simp: no_ar_log_def filter_short intro: gr0I)
qed (simp_all add: parse_ar_log_def log_confidences_def no_ar_log_def Let_def)

lemma find_SomeD: "List.find P xs = Some x \<Longrightarrow> x \<in> set xs \<and> P x"
  by (auto simp: find_Some_iff)

lemma find_rip_log_SomeD:
  assumes "find_rip_log folder = Some f"
  shows "\<exists>files. folder = Some files \<and> f \<in> set files \<and> py_lower (py_suffix (rf_name f)) \<in> {''.log'', ''.txt''} \<and>
    ripper_from_head (rf_text f 4096) \<noteq> None"
  using assms by (auto simp: find_rip_log_def split: option.splits dest!: find_SomeD)

section \<open>Properties\<close>

text \<open>(C27) What rescues a held candidate. When the rip evidence of a folder turns a decision into a laxer one, the
  decision was a review and becomes a provisional acceptance, and the folder has a log of a known ripper
  that has no error marker and either names a confidence, or states that all tracks were ripped
  accurately; every confidence it names is positive.\<close>

theorem cd_rip_rescue_sound:
  assumes "apply_cd_rip_scoring d (scoring_view (evaluate_folder folder)) < d"
  shows "d = REVIEW_REQUIRED \<and> apply_cd_rip_scoring d (scoring_view (evaluate_folder folder)) = ACCEPT_PROVISIONAL \<and>
    (\<exists>files f. folder = Some files \<and> f \<in> set files \<and> py_lower (py_suffix (rf_name f)) \<in> {''.log'', ''.txt''} \<and>
       ripper_from_head (rf_text f 4096) \<noteq> None \<and> \<not> log_has_error (rf_text f MAX_LOG_BYTES) \<and>
       (\<forall>c\<in>set (log_confidences (rf_text f MAX_LOG_BYTES)). 0 < c) \<and>
       (log_confidences (rf_text f MAX_LOG_BYTES) \<noteq> [] \<or> re_search ALL_ACCURATE_RE (rf_text f MAX_LOG_BYTES) \<noteq> None))"
proof -
  let ?ev = "evaluate_folder folder"
  have d: "d = REVIEW_REQUIRED" "ce_status ?ev = ''pass''" "al_accurate (ce_accuraterip ?ev)"
    and a: "apply_cd_rip_scoring d (scoring_view ?ev) = ACCEPT_PROVISIONAL"
    using assms by (auto simp: apply_cd_rip_scoring_def scoring_view_def less_verification_decision_def split: if_splits)
  obtain f where f: "find_rip_log folder = Some f"
    using d(2) by (cases "find_rip_log folder") (auto simp: evaluate_folder_def Let_def split: if_splits)
  let ?t = "rf_text f MAX_LOG_BYTES"
  have "?ev = parse_log ?t (rf_name f) (has_cue_file folder)" by (simp add: evaluate_folder_def f Let_def)
  with d(2,3) have "\<not> log_has_error ?t" "al_accurate (parse_ar_log ?t)"
    by (auto simp: parse_log_def Let_def split: if_splits)
  with d(1) a find_rip_log_SomeD[OF f] show ?thesis unfolding ar_log_spec(1) by blast
qed

definition demo_log :: string where
  "demo_log = ''whipper'' @ [CHR 0x0A] @ ''confidence 3''"

definition demo_log_file :: rip_file where
  "demo_log_file = \<lparr>rf_parts = [''r.log''], rf_text = (\<lambda>_. demo_log), rf_samples = None\<rparr>"

lemma demo_log_parsed: "ripper_from_head demo_log = Some ''whipper''" "log_confidences demo_log = [3]" "\<not> log_has_error demo_log"
  by code_simp+

theorem cd_rip_rescue_sound_witness:
  "apply_cd_rip_scoring REVIEW_REQUIRED (scoring_view (evaluate_folder (Some [demo_log_file]))) = ACCEPT_PROVISIONAL"
proof -
  have "py_lower (py_suffix ''r.log'') = ''.log''" by code_simp
  then have f: "find_rip_log (Some [demo_log_file]) = Some demo_log_file"
    by (simp add: find_rip_log_def demo_log_file_def rf_name_def demo_log_parsed) (simp add: demo_log_def)
  have t: "rf_text demo_log_file MAX_LOG_BYTES = demo_log" by (simp add: demo_log_file_def)
  have "al_accurate (parse_ar_log demo_log)" by (simp add: ar_log_spec demo_log_parsed)
  then have "ce_status (evaluate_folder (Some [demo_log_file])) = ''pass''" "al_accurate (ce_accuraterip (evaluate_folder (Some [demo_log_file])))"
    using demo_log_parsed by (simp_all add: evaluate_folder_def f parse_log_def Let_def t)
  then have "apply_cd_rip_scoring REVIEW_REQUIRED (scoring_view (evaluate_folder (Some [demo_log_file]))) < REVIEW_REQUIRED"
    by (simp add: apply_cd_rip_scoring_def scoring_view_def less_verification_decision_def)
  from cd_rip_rescue_sound[OF this] show ?thesis by blast
qed

text \<open>An outage of AccurateRip and CTDB looks like an unknown disc. When both services cannot be reached, the
  sensor of a rip whose table of contents is known reports, without a warning, that the disc was not found;
  the same result is repeated for as long as the process runs, also after the services are back. The branch
  for an unavailable lookup is never taken.\<close>

theorem ctdb_outage_looks_absent:
  assumes "reconstruct_toc folder = Some toc" "accuraterip_url toc = Some url" "fst caches url = None" "snd caches (ctdb_lookup_url toc) = None"
    and outage: "fetch url = None" "get (ctdb_lookup_url toc) = None"
    and first: "build_ctdb_sensor True fetch xml get folder (Some ev) caches = (sensor, caches')"
  shows "(\<exists>d. sensor = Some d \<and> dget ''status'' d = JStr ''skipped'' \<and> dget ''severity'' d = JStr ''info'' \<and>
      dget ''summary'' d = JStr ''Disc not found in AccurateRip or CTDB.'') \<and>
    build_ctdb_sensor True fetch' xml get' folder (Some ev) caches' = (sensor, caches')"
proof -
  obtain files where "folder = Some files" using assms(1) by (cases folder) (simp_all add: reconstruct_toc_def)
  then have wf: "wf_toc toc" using reconstruct_toc_wf assms(1) by blast
  obtain c1 where ar: "lookup_accuraterip fetch toc (fst caches) = Some (ar_not_found, c1, [url])"
    "\<forall>fetch'. lookup_accuraterip fetch' toc c1 = Some (ar_not_found, c1, [])"
    using ar_lookup_final[OF wf, of fetch "fst caches"] assms(2,3) outage(1) by auto
  obtain c2 where ct: "lookup_ctdb xml get toc (snd caches) = (ctdb_not_found, c2, [ctdb_lookup_url toc])"
    "\<forall>get'. lookup_ctdb xml get' toc c2 = (ctdb_not_found, c2, [])"
    using ctdb_lookup_final[of xml get toc "snd caches"] assms(4) outage(2) by auto
  have reg: "get_sensor ''ctdb'' default_registry \<noteq> None"
    by (simp add: default_registry_def make_registry_get DEFAULT_SENSORS_def)
  show ?thesis
    using first ar ct reg assms(1)
    by (auto simp: build_ctdb_sensor_def Let_def ar_not_found_def ctdb_not_found_def ctdb_skipped_def sensor_result_def)
qed

theorem ctdb_outage_looks_absent_witness:
  "\<exists>d caches'. build_ctdb_sensor True (\<lambda>_. None) (\<lambda>_. None) (\<lambda>_. None) (Some demo_rip) (Some (evaluate_folder None)) (Map.empty, Map.empty) =
     (Some d, caches') \<and> dget ''status'' d = JStr ''skipped''"
proof -
  let ?toc = "\<lparr>track_offsets_frames = [0, 1], leadout_frames = 3, track_count = 2\<rparr>"
  obtain url where u: "accuraterip_url ?toc = Some url" using wf_toc_url[of ?toc] by (auto simp: wf_toc_def)
  obtain sensor caches' where b: "build_ctdb_sensor True (\<lambda>_. None) (\<lambda>_. None) (\<lambda>_. None) (Some demo_rip) (Some (evaluate_folder None))
      (Map.empty, Map.empty) = (sensor, caches')" by (meson surj_pair)
  from ctdb_outage_looks_absent[OF demo_rip_toc u _ _ _ _ b] b show ?thesis by auto
qed

end
