(* ===== verification/Py_Words.thy ===== *)
theory Py_Words
  imports Py_Regex
begin

text \<open>
  Words of a text. The program normalises titles by replacing runs of unwanted characters by one space,
  collapsing white space and stripping; here such pipelines are shown to compute the words of the text,
  joined by single spaces.
\<close>

text \<open>The maximal runs of the characters of a class; \<open>str.split()\<close> for the class of non-spaces.\<close>

function runs :: "(char \<Rightarrow> bool) \<Rightarrow> string \<Rightarrow> string list" where
  "runs q [] = []"
| "runs q (c # cs) = (if q c then (c # takeWhile q cs) # runs q (dropWhile q cs) else runs q cs)"
  by pat_completeness auto
termination by (relation "measure (\<lambda>(q, s). length s)") (auto simp: length_dropWhile_le le_imp_less_Suc)

definition py_split :: "string \<Rightarrow> string list" where
  "py_split s = runs (\<lambda>c. \<not> py_isspace_char c) s"

text \<open>What substituting a space for every run of a class computes.\<close>

function squash :: "(char \<Rightarrow> bool) \<Rightarrow> string \<Rightarrow> string" where
  "squash p [] = []"
| "squash p (c # cs) = (if p c then CHR '' '' # squash p (dropWhile p cs) else c # squash p cs)"
  by pat_completeness auto
termination by (relation "measure (\<lambda>(p, s). length s)") (auto simp: length_dropWhile_le le_imp_less_Suc)

lemma match_at_run:
  "match_at (Rep1 (Cls p)) b (c # cs) = (if p c then Some (rev (takeWhile p (c # cs)) @ b, dropWhile p (c # cs), []) else None)"
proof (cases "p c")
  case True
  let ?n = "length (takeWhile p (c # cs))"
  have "rev [1..<Suc ?n] = ?n # rev [1..<?n]" using True by simp
  then show ?thesis using True
    by (simp add: match_at_def rmatch_Rep1 del: upt_Suc rmatch.simps) (simp add: takeWhile_eq_take[symmetric] dropWhile_eq_drop[symmetric])
next
  case False
  then show ?thesis by (simp add: match_at_def rmatch_Rep1 del: rmatch.simps)
qed

lemma sub_run: "re_sub (Rep1 (Cls p)) '' '' s = squash p s"
proof -
  have "sub_from (Rep1 (Cls p)) '' '' b s = squash p s" for b
  proof (induction p s arbitrary: b rule: squash.induct)
    case (2 p c cs)
    then show ?case using length_dropWhile_le[of p cs] by (simp add: match_at_run)
  qed simp
  then show ?thesis by (simp add: re_sub_def)
qed

lemma runs_word:
  assumes "w \<noteq> []" "\<forall>c\<in>set w. q c" "t = [] \<or> \<not> q (hd t)"
  shows "runs q (w @ t) = w # runs q t"
proof -
  obtain c cs where w: "w = c # cs" using assms(1) by (cases w) auto
  have "takeWhile q (cs @ t) = cs" "dropWhile q (cs @ t) = t"
    using assms w by (cases t; simp add: takeWhile_append dropWhile_append)+
  with assms(2) w show ?thesis by simp
qed

lemma runs_parts: "w \<in> set (runs q s) \<Longrightarrow> w \<noteq> [] \<and> (\<forall>c\<in>set w. q c)"
proof (induction q s rule: runs.induct)
  case (2 q c cs)
  show ?case
  proof (cases "q c")
    case True
    have "w = c # takeWhile q cs \<or> w \<in> set (runs q (dropWhile q cs))" using "2.prems" True by (simp only: runs.simps if_True list.set) blast
    then show ?thesis
    proof
      assume "w = c # takeWhile q cs"
      then show ?thesis using True set_takeWhileD[of _ q cs] by auto
    next
      assume "w \<in> set (runs q (dropWhile q cs))"
      then show ?thesis by (rule "2.IH"(1)[OF True])
    qed
  next
    case False
    with 2 show ?thesis by simp
  qed
qed simp

lemma runs_empty: "runs q s = [] \<longleftrightarrow> (\<forall>x\<in>set s. \<not> q x)"
  by (induction s) auto

lemma runs_skip: "\<not> q c \<Longrightarrow> runs q (c # cs) = runs q cs"
  by simp

lemma runs_join:
  assumes "\<not> q (CHR '' '')" "\<forall>w\<in>set ws. w \<noteq> [] \<and> (\<forall>c\<in>set w. q c)" "t = [] \<or> \<not> q (hd t)"
  shows "runs q (py_join '' '' ws @ t) = ws @ runs q t"
  using assms(2)
proof (induction "'' ''" ws rule: py_join.induct)
  case (2 x)
  then show ?case using runs_word[of x q t] assms(3) by auto
next
  case (3 x y xs)
  have "runs q (x @ CHR '' '' # py_join '' '' (y # xs) @ t) = x # runs q (CHR '' '' # py_join '' '' (y # xs) @ t)"
    using 3 assms(1) by (intro runs_word) auto
  with 3 assms(1) show ?case by auto
qed simp

text \<open>Squashing keeps the words, with single spaces between them and at most one at either end.\<close>

lemma squash_words:
  "squash p s =
     (if s \<noteq> [] \<and> p (hd s) then '' '' else []) @ py_join '' '' (runs (\<lambda>c. \<not> p c) s) @
     (if runs (\<lambda>c. \<not> p c) s \<noteq> [] \<and> p (last s) then '' '' else [])"
proof (induction s rule: length_induct)
  case (1 s)
  let ?q = "\<lambda>c. \<not> p c"
  show ?case
  proof (cases s)
    case (Cons c cs)
    show ?thesis
    proof (cases "p c")
      case True
      let ?t = "dropWhile p cs"
      have t: "length ?t < length s" "?t = [] \<or> \<not> p (hd ?t)" using Cons hd_dropWhile[of p cs] by (auto simp: length_dropWhile_le le_imp_less_Suc)
      have r: "runs ?q cs = runs ?q ?t" by (induction cs) auto
      have l: "?t \<noteq> [] \<Longrightarrow> last ?t = last s" using Cons by (metis append_is_Nil_conv dropWhile.simps(2) last_appendR last_ConsR takeWhile_dropWhile_id)
      have e: "runs ?q s = runs ?q ?t" using Cons True r by simp
      have "squash p ?t = py_join '' '' (runs ?q ?t) @ (if runs ?q ?t \<noteq> [] \<and> p (last ?t) then '' '' else [])"
        using 1 t by simp
      moreover have "?t = [] \<longleftrightarrow> runs ?q ?t = []"
        using t(2) by (metis list.set_sel(1) runs.simps(1) runs_empty)
      ultimately show ?thesis using Cons True e l by auto
    next
      case False
      obtain w t where wt: "w = takeWhile ?q s" "t = dropWhile ?q s" by simp
      have s: "s = w @ t" using wt by simp
      have w: "w \<noteq> []" "\<forall>x\<in>set w. \<not> p x"
        subgoal unfolding wt(1) using Cons False by simp
        subgoal unfolding wt(1) using set_takeWhileD[of _ ?q s] by blast
        done
      have t: "length t < length s" "t = [] \<or> p (hd t)"
        subgoal using s w(1) by simp
        subgoal using hd_dropWhile[of ?q s] wt(2) by blast
        done
      have sq: "squash p (v @ u) = v @ squash p u" if "\<forall>x\<in>set v. \<not> p x" for v u
        using that by (induction v) simp_all
      have ih: "squash p t = (if t \<noteq> [] then '' '' else []) @ py_join '' '' (runs ?q t) @
          (if runs ?q t \<noteq> [] \<and> p (last t) then '' '' else [])"
        using 1[rule_format, OF t(1)] t(2) by (cases "t = []") (simp_all only: if_True if_False simp_thms append_Nil)
      have rs: "runs ?q s = w # runs ?q t" unfolding s using runs_word[of w ?q t] w t(2) by blast
      have sh: "squash p s = w @ squash p t" unfolding s by (rule sq[OF w(2)])
      have hd: "\<not> p (hd s)" "s \<noteq> []" using Cons False by simp_all
      show ?thesis
      proof (cases "t = []")
        case True
        then have "\<not> p (last s)" using s w by simp
        then show ?thesis unfolding sh rs using True hd by simp
      next
        case nt: False
        then have l: "last s = last t" using s by simp
        show ?thesis
        proof (cases "runs ?q t")
          case Nil
          then have "\<forall>x\<in>set t. p x" using runs_empty[of ?q t] by simp
          with nt have "p (last s)" unfolding l by simp
          then show ?thesis unfolding sh rs ih using nt hd Nil by simp
        next
          case (Cons y ys)
          then show ?thesis unfolding sh rs ih l using nt hd by simp
        qed
      qed
    qed
  qed simp
qed


lemma join_ends:
  assumes "ws \<noteq> []" "\<forall>w\<in>set ws. w \<noteq> []"
  shows "py_join sep ws \<noteq> []" "hd (py_join sep ws) = hd (hd ws)" "last (py_join sep ws) = last (last ws)"
  using assms by (induction sep ws rule: py_join.induct) auto

lemma strip_core:
  assumes "w \<noteq> [] \<Longrightarrow> \<not> py_isspace_char (hd w) \<and> \<not> py_isspace_char (last w)" "\<forall>c\<in>set a. py_isspace_char c" "\<forall>c\<in>set b. py_isspace_char c"
  shows "py_strip (a @ w @ b) = w"
proof (cases "w = []")
  case True
  have "dropWhile py_isspace_char (a @ b) = []" using assms(2,3) by (auto simp: dropWhile_eq_Nil_conv)
  then have "py_lstrip (a @ b) = []" by (simp only: py_lstrip_def)
  then show ?thesis by (simp only: True py_strip_def py_rstrip_def append_Nil) simp
next
  case False
  obtain c cs where w: "w = c # cs" using False by (cases w) auto
  have "py_lstrip (a @ w @ b) = w @ b" using assms(1,2) w by (simp add: py_lstrip_def dropWhile_append)
  moreover have "py_rstrip (w @ b) = w"
  proof -
    have "dropWhile py_isspace_char (rev (w @ b)) = dropWhile py_isspace_char (rev w)" using assms(3) by (simp add: dropWhile_append)
    also have "\<dots> = rev w" using assms(1)[OF False] False by (metis dropWhile_eq_self_iff hd_rev)
    finally show ?thesis by (simp add: py_rstrip_def)
  qed
  ultimately show ?thesis by (simp add: py_strip_def)
qed

text \<open>Collapsing white space and stripping is splitting and joining.\<close>

theorem collapse_strip: "py_strip (squash py_isspace_char s) = py_join '' '' (py_split s)"
proof -
  let ?ws = "runs (\<lambda>c. \<not> py_isspace_char c) s"
  have sp: "py_isspace_char (CHR '' '')" by (simp add: py_isspace_char_def)
  have ends: "\<not> py_isspace_char (hd (py_join '' '' ?ws)) \<and> \<not> py_isspace_char (last (py_join '' '' ?ws))" if "py_join '' '' ?ws \<noteq> []"
  proof -
    have ne: "?ws \<noteq> []" using that by auto
    have parts: "\<forall>w\<in>set ?ws. w \<noteq> [] \<and> (\<forall>c\<in>set w. \<not> py_isspace_char c)" using runs_parts by blast
    then have "hd (hd ?ws) \<in> set (hd ?ws)" "last (last ?ws) \<in> set (last ?ws)" using ne by simp_all
    with parts ne join_ends[of ?ws "'' ''"] show ?thesis by (metis hd_in_set last_in_set)
  qed
  show ?thesis unfolding squash_words[of py_isspace_char s] py_split_def
    using ends sp by (intro strip_core) auto
qed

text \<open>Splitting a squashed text gives the runs of the wanted characters, as none of them is a space.\<close>

theorem split_squash:
  assumes "\<And>c. q c \<Longrightarrow> \<not> py_isspace_char c"
  shows "py_split (squash (\<lambda>c. \<not> q c) s) = runs q s"
proof -
  let ?ws = "runs q s" and ?ns = "\<lambda>c. \<not> py_isspace_char c"
  have sp: "py_isspace_char (CHR '' '')" by (simp add: py_isspace_char_def)
  have parts: "\<forall>w\<in>set ?ws. w \<noteq> [] \<and> (\<forall>c\<in>set w. ?ns c)" using runs_parts assms by blast
  have "py_split (squash (\<lambda>c. \<not> q c) s) = runs ?ns (py_join '' '' ?ws @ t)" if "t = [] \<or> t = '' ''"
    "squash (\<lambda>c. \<not> q c) s = (if s \<noteq> [] \<and> \<not> q (hd s) then '' '' else []) @ py_join '' '' ?ws @ t" for t
    using that sp by (auto simp: py_split_def)
  moreover have "runs ?ns (py_join '' '' ?ws @ t) = ?ws" if "t = [] \<or> t = '' ''" for t
    using runs_join[of ?ns ?ws t] parts sp that by auto
  ultimately show ?thesis using squash_words[of "\<lambda>c. \<not> q c" s] by simp
qed

end
