(* ===== verification/Release_Family.thy ===== *)
theory Release_Family
  imports Verification Lidarr_Records Cd_Toc Py_Words
begin

text \<open>
  Release identity: normalising track titles and scoring the observed files against the releases Lidarr
  expects (\<open>app/release_family.py\<close>), collecting the observed release from file tags
  (\<open>app/release_metadata.py\<close>), and the identity result of an import in \<open>app/server.py\<close>.

  Tags are what \<open>mutagen\<close> reads, as a dictionary of lists (\<open>None\<close> for a file whose tags cannot be read).
  Titles and identifiers in Lidarr's records are strings, integers or missing.
\<close>

section \<open>Track titles\<close>

definition AUDIO_SUFFIXES :: "string list" where
  "AUDIO_SUFFIXES = [''.flac'', ''.m4a'', ''.mp3'', ''.ogg'', ''.aac'']"

definition RELEASE_FAMILY_REJECTION_MARKERS :: "string list" where
  "RELEASE_FAMILY_REJECTION_MARKERS = [''match is not close enough'', ''missing tracks'', ''unmatched tracks'']"

definition title_sep :: re where
  "title_sep = Rep1 (Cls (\<lambda>c. py_isspace_char c \<or> c \<in> {CHR ''.'', CHR ''_'', CHR ''-''}))"

definition one_two_digits :: re where
  "one_two_digits = Cat Digit (Opt Digit)"

definition TRACK_PREFIX_RE :: re where
  "TRACK_PREFIX_RE = cats [TextStart, Rep Space, Opt (Cat (Lit_ci ''disc'') (Rep Space)), one_two_digits, title_sep,
     Opt (Cat one_two_digits title_sep)]"

definition year_space :: re where
  "year_space = cats [Digit, Digit, Digit, Digit, Rep1 Space]"

definition REMASTER_BRACKET_RE :: re where
  "REMASTER_BRACKET_RE = cats [Cls (\<lambda>c. c \<in> {CHR ''['', CHR ''(''}), Rep Space, Opt year_space,
     Alt (Cat (Lit_ci ''remaster'') (Opt (Lit_ci ''ed'')))
       (Alt (Cat (Lit_ci ''remix'') (Opt (Lit_ci ''ed''))) (Lit_ci ''anniversary remaster'')),
     Rep Space, Cls (\<lambda>c. c \<in> {CHR '']'', CHR '')''})]"

definition REMASTER_WORD_RE :: re where
  "REMASTER_WORD_RE = cats [WordEdge, Opt year_space, Lit_ci ''remaster'', Opt (Lit_ci ''ed''), WordEdge]"

definition is_plain :: "char \<Rightarrow> bool" where
  "is_plain c = (let n = (of_char c :: nat) in 97 \<le> n \<and> n \<le> 122 \<or> 48 \<le> n \<and> n \<le> 57)"

definition NON_PLAIN_RE :: re where
  "NON_PLAIN_RE = Rep1 (Cls (\<lambda>c. \<not> is_plain c))"

definition SPACES_RE :: re where
  "SPACES_RE = Rep1 Space"

text \<open>The position of the last dot (\<open>title[title.rfind("."):]\<close>), and \<open>s.rsplit(sep, 1)[-1]\<close>.\<close>

definition dot_suffix :: "string \<Rightarrow> string" where
  "dot_suffix title =
     (if CHR ''.'' \<in> set title then CHR ''.'' # rev (takeWhile (\<lambda>c. c \<noteq> CHR ''.'') (rev title)) else [])"

fun after_last :: "string \<Rightarrow> string \<Rightarrow> string" where
  "after_last sep [] = []"
| "after_last sep (c # cs) =
     (if py_in sep cs then after_last sep cs
      else if prefix sep (c # cs) then drop (length sep) (c # cs) else c # cs)"

definition normalize_track_title_for_match :: "string \<Rightarrow> string" where
  "normalize_track_title_for_match title =
     (let suf = py_lower (dot_suffix title);
          n0 = (if suf \<in> set AUDIO_SUFFIXES then take (length title - length suf) title else title);
          n1 = re_sub TRACK_PREFIX_RE [] n0;
          n2 = (if py_in '' - '' n1 then after_last '' - '' n1 else n1);
          n3 = re_sub REMASTER_BRACKET_RE [] n2;
          n4 = re_sub REMASTER_WORD_RE [] n3;
          n5 = re_sub NON_PLAIN_RE '' '' (py_lower n4) in
      py_strip (re_sub SPACES_RE '' '' n5))"

definition normalized_track_names_from_titles :: "string list \<Rightarrow> string set" where
  "normalized_track_names_from_titles titles = set (filter (\<lambda>n. n \<noteq> []) (map normalize_track_title_for_match titles))"

text \<open>\<open>str(value or "")\<close>.\<close>

definition text_of :: "json \<Rightarrow> string" where
  "text_of v = (case v of JStr s \<Rightarrow> s | JInt n \<Rightarrow> if n = 0 then [] else py_str_int n | _ \<Rightarrow> [])"

definition track_title_names :: "dict list \<Rightarrow> string set" where
  "track_title_names tracks = normalized_track_names_from_titles (map (\<lambda>t. text_of (dget ''title'' t)) tracks)"

section \<open>Scoring\<close>

record observed_release =
  ob_file_count :: int
  ob_track_titles :: "string set"
  ob_artist_mbid :: "string option"
  ob_release_group_mbid :: "string option"
  ob_release_mbid :: "string option"

record expected_release =
  ex_album_id :: "int option"
  ex_release_id :: json
  ex_track_count :: int
  ex_track_titles :: "string set"
  ex_artist_mbid :: "string option"
  ex_release_group_mbid :: "string option"
  ex_release_mbid :: "string option"
  ex_is_current :: bool

record release_identity =
  ri_decision :: identity_decision
  ri_confidence :: rat
  ri_best_release_id :: json
  ri_current_release_id :: json
  ri_score :: rat
  ri_track_count_delta :: "int option"
  ri_title_similarity :: "rat option"
  ri_reasons :: "string list"

definition title_ratio :: "string set \<Rightarrow> string set \<Rightarrow> rat" where
  "title_ratio observed expected = fl_div (of_int (int (card (observed \<inter> expected)))) (of_int (int (card observed)))"

definition score_release_match :: "int \<Rightarrow> string set \<Rightarrow> int \<Rightarrow> string set \<Rightarrow> rat" where
  "score_release_match file_count observed expected_count expected =
     (let count_score = max 0 (100 - \<bar>expected_count - file_count\<bar> * 10);
          name_score = (if observed \<noteq> {} \<and> expected \<noteq> {} then fl_mult (title_ratio observed expected) 100 else 50) in
      fl_add (fl_mult (of_int count_score) (fl (4 / 10))) (fl_mult name_score (fl (6 / 10))))"

text \<open>\<open>str(value)\<close> for the values Lidarr has in these places.\<close>

definition py_str :: "json \<Rightarrow> string" where
  "py_str v = (case v of JStr s \<Rightarrow> s | JInt n \<Rightarrow> py_str_int n | JNull \<Rightarrow> ''None'' | JBool b \<Rightarrow> if b then ''True'' else ''False'' | _ \<Rightarrow> [])"

definition rejection_reasons :: "dict \<Rightarrow> string list" where
  "rejection_reasons item =
     map (\<lambda>r. py_lower (py_str (dget_default ''reason'' (JStr []) (as_dict r)))) (as_list (dget ''rejections'' item))"

definition is_release_family_rejection :: "dict \<Rightarrow> bool" where
  "is_release_family_rejection item =
     (let reasons = rejection_reasons item in
      reasons \<noteq> [] \<and> (\<forall>r\<in>set reasons. \<exists>m\<in>set RELEASE_FAMILY_REJECTION_MARKERS. py_in m r))"

definition both_differ :: "string option \<Rightarrow> string option \<Rightarrow> bool" where
  "both_differ a b \<longleftrightarrow> truthy_str a \<and> truthy_str b \<and> a \<noteq> b"

definition wrong_album :: "observed_release \<Rightarrow> json \<Rightarrow> expected_release \<Rightarrow> string \<Rightarrow> release_identity" where
  "wrong_album ob current ex reason =
     \<lparr>ri_decision = WRONG_ALBUM, ri_confidence = 100, ri_best_release_id = ex_release_id ex, ri_current_release_id = current,
      ri_score = 0, ri_track_count_delta = None, ri_title_similarity = None, ri_reasons = [reason]\<rparr>"

text \<open>The first loop: a strong identifier that contradicts the files.\<close>

fun mbid_conflict :: "observed_release \<Rightarrow> json \<Rightarrow> expected_release list \<Rightarrow> release_identity option" where
  "mbid_conflict ob current [] = None"
| "mbid_conflict ob current (ex # exs) =
     (if both_differ (ob_artist_mbid ob) (ex_artist_mbid ex) then Some (wrong_album ob current ex ''artist MBID mismatch'')
      else if both_differ (ob_release_group_mbid ob) (ex_release_group_mbid ex)
      then Some (wrong_album ob current ex ''release-group MBID mismatch'')
      else mbid_conflict ob current exs)"

definition score_of :: "observed_release \<Rightarrow> expected_release \<Rightarrow> rat" where
  "score_of ob ex = score_release_match (ob_file_count ob) (ob_track_titles ob) (ex_track_count ex) (ex_track_titles ex)"

text \<open>The stable descending sort puts the first release with the highest score in front.\<close>

definition evaluate_release_identity :: "rat \<Rightarrow> rat \<Rightarrow> observed_release \<Rightarrow> expected_release list \<Rightarrow> json \<Rightarrow> release_identity" where
  "evaluate_release_identity same_release_threshold same_family_threshold ob expected current =
     (case mbid_conflict ob current expected of
        Some r \<Rightarrow> r
      | None \<Rightarrow>
          (case first_min (\<lambda>ex. - score_of ob ex) expected of
             Some best \<Rightarrow>
               if ob_file_count ob \<le> 0 \<and> ob_track_titles ob = {} then
                 \<lparr>ri_decision = INSUFFICIENT_EVIDENCE, ri_confidence = 0, ri_best_release_id = JNull, ri_current_release_id = current,
                  ri_score = 0, ri_track_count_delta = None, ri_title_similarity = None, ri_reasons = [''insufficient release evidence'']\<rparr>
               else
                 let score = score_of ob best;
                     (decision, reason) =
                       (if ex_release_id best = current \<and> score \<ge> same_release_threshold
                        then (SAME_RELEASE, ''matches current Lidarr release'')
                        else if score \<ge> same_family_threshold
                        then (SAME_FAMILY, ''matches another Lidarr release in the same album family'')
                        else (AMBIGUOUS_EDITION, ''no release reached same-family confidence'')) in
                 \<lparr>ri_decision = decision, ri_confidence = score, ri_best_release_id = ex_release_id best, ri_current_release_id = current,
                  ri_score = score, ri_track_count_delta = Some \<bar>ex_track_count best - ob_file_count ob\<bar>,
                  ri_title_similarity =
                    (if ob_track_titles ob \<noteq> {} \<and> ex_track_titles best \<noteq> {}
                     then Some (title_ratio (ob_track_titles ob) (ex_track_titles best)) else None),
                  ri_reasons = [reason]\<rparr>
           | None \<Rightarrow>
               \<lparr>ri_decision = INSUFFICIENT_EVIDENCE, ri_confidence = 0, ri_best_release_id = JNull, ri_current_release_id = current,
                ri_score = 0, ri_track_count_delta = None, ri_title_similarity = None, ri_reasons = [''insufficient release evidence'']\<rparr>))"

section \<open>The observed release\<close>

type_synonym tags = "(string \<times> string list) list"

record tagged_file =
  tg_parts :: "string list"
  tg_tags :: "tags option"

definition tg_name :: "tagged_file \<Rightarrow> string" where
  "tg_name f = (if tg_parts f = [] then [] else last (tg_parts f))"

definition tag_values :: "tags \<Rightarrow> string list \<Rightarrow> string set" where
  "tag_values tags keys = (\<Union>k\<in>set keys. case map_of tags (py_lower k) of None \<Rightarrow> {} | Some vs \<Rightarrow> set vs)"

definition tag_first :: "tags \<Rightarrow> string list \<Rightarrow> string option" where
  "tag_first tags keys = (if tag_values tags keys = {} then None else Some (Min (tag_values tags keys)))"

definition single_or_none :: "string set \<Rightarrow> string option" where
  "single_or_none vs = (if card vs = 1 then Some (Min vs) else None)"

definition MUSICBRAINZ_ARTIST_KEYS :: "string list" where
  "MUSICBRAINZ_ARTIST_KEYS = [''musicbrainz_artistid'', ''musicbrainz artist id'', ''musicbrainz_artist_id'']"

definition MUSICBRAINZ_RELEASE_KEYS :: "string list" where
  "MUSICBRAINZ_RELEASE_KEYS = [''musicbrainz_albumid'', ''musicbrainz album id'', ''musicbrainz_releaseid'', ''musicbrainz release id'']"

definition MUSICBRAINZ_RELEASE_GROUP_KEYS :: "string list" where
  "MUSICBRAINZ_RELEASE_GROUP_KEYS = [''musicbrainz_releasegroupid'', ''musicbrainz release group id'', ''musicbrainz_release_group_id'']"

text \<open>\<open>path.stem\<close>.\<close>

definition py_stem :: "string \<Rightarrow> string" where
  "py_stem name = take (length name - length (py_suffix name)) name"

definition raw_title :: "tagged_file \<Rightarrow> string" where
  "raw_title f =
     (let tags = (case tg_tags f of None \<Rightarrow> [] | Some t \<Rightarrow> t) in str_or (tag_first tags [''title'']) (py_stem (tg_name f)))"

definition audio_files :: "tagged_file list \<Rightarrow> tagged_file list" where
  "audio_files files = filter (\<lambda>f. py_lower (py_suffix (tg_name f)) \<in> set AUDIO_SUFFIXES) files"

definition collect_observed_release :: "tagged_file list \<Rightarrow> observed_release" where
  "collect_observed_release files =
     (let fs = audio_files files;
          tags = map (\<lambda>f. case tg_tags f of None \<Rightarrow> [] | Some t \<Rightarrow> t) fs;
          mbids = (\<lambda>keys. \<Union>t\<in>set tags. tag_values t keys) in
      \<lparr>ob_file_count = int (length fs),
       ob_track_titles = normalized_track_names_from_titles (map raw_title fs),
       ob_artist_mbid = single_or_none (mbids MUSICBRAINZ_ARTIST_KEYS),
       ob_release_group_mbid = single_or_none (mbids MUSICBRAINZ_RELEASE_GROUP_KEYS),
       ob_release_mbid = single_or_none (mbids MUSICBRAINZ_RELEASE_KEYS)\<rparr>)"

section \<open>The releases Lidarr expects\<close>

definition ARTIST_MBID_KEYS :: "string list" where
  "ARTIST_MBID_KEYS = [''foreignArtistId'', ''musicBrainzArtistId'', ''artistMbid'']"

definition RELEASE_GROUP_MBID_KEYS :: "string list" where
  "RELEASE_GROUP_MBID_KEYS = [''foreignAlbumId'', ''musicBrainzReleaseGroupId'', ''releaseGroupMbid'']"

definition RELEASE_MBID_KEYS :: "string list" where
  "RELEASE_MBID_KEYS = [''foreignReleaseId'', ''musicBrainzReleaseId'', ''releaseMbid'']"

definition missing :: "json \<Rightarrow> bool" where
  "missing v \<longleftrightarrow> v = JNull \<or> v = JStr []"

text \<open>\<open>as_dict\<close> is empty for a value that is not a dictionary, which is then skipped.\<close>

definition first_nonempty_mapping_value :: "dict list \<Rightarrow> string list \<Rightarrow> string option" where
  "first_nonempty_mapping_value mappings keys =
     map_option py_str (List.find (\<lambda>v. \<not> missing v) (concat (map (\<lambda>m. map (\<lambda>k. dget k m) keys) mappings)))"

definition album_release_id_from_manualimport_item :: "dict \<Rightarrow> json" where
  "album_release_id_from_manualimport_item item =
     (let direct = py_or (dget ''albumReleaseId'' item) (dget ''releaseId'' item);
          release_id = (if missing direct \<and> (\<exists>d. dget ''album'' item = JObj d)
                        then dget ''id'' (as_dict (dget ''currentRelease'' (as_dict (dget ''album'' item)))) else direct) in
      if missing release_id then JNull else release_id)"

definition current_release_of :: "dict \<Rightarrow> dict" where
  "current_release_of item = as_dict (dget ''currentRelease'' (as_dict (dget ''album'' item)))"

definition same_group :: "int option \<Rightarrow> json \<Rightarrow> expected_release \<Rightarrow> bool" where
  "same_group album_id release_id ex \<longleftrightarrow> ex_album_id ex = album_id \<and> ex_release_id ex = release_id"

definition new_group :: "dict \<Rightarrow> expected_release" where
  "new_group item =
     \<lparr>ex_album_id = lidarr_album_id_from_record item, ex_release_id = album_release_id_from_manualimport_item item,
      ex_track_count = 0, ex_track_titles = {},
      ex_artist_mbid = first_nonempty_mapping_value [as_dict (dget ''artist'' item), item] ARTIST_MBID_KEYS,
      ex_release_group_mbid = first_nonempty_mapping_value [as_dict (dget ''album'' item), item] RELEASE_GROUP_MBID_KEYS,
      ex_release_mbid =
        first_nonempty_mapping_value [current_release_of item, as_dict (dget ''album'' item), item] RELEASE_MBID_KEYS,
      ex_is_current = False\<rparr>"

definition item_tracks :: "dict \<Rightarrow> dict list" where
  "item_tracks item = map as_dict (as_list (dget ''tracks'' item))"

definition add_item :: "dict \<Rightarrow> expected_release \<Rightarrow> expected_release" where
  "add_item item ex =
     ex\<lparr>ex_track_count := ex_track_count ex +
          (if item_tracks item \<noteq> [] then int (length (item_tracks item)) else if truthy (dget ''path'' item) then 1 else 0),
        ex_track_titles := ex_track_titles ex \<union> track_title_names (item_tracks item)\<rparr>"

text \<open>One pass of the loop: the group of the item is created at the end when it is new, then the item is
  added to it.\<close>

definition group_item :: "dict \<Rightarrow> expected_release list \<Rightarrow> expected_release list" where
  "group_item item groups =
     (let same = same_group (lidarr_album_id_from_record item) (album_release_id_from_manualimport_item item);
          groups' = (if \<exists>ex\<in>set groups. same ex then groups else groups @ [new_group item]) in
      map (\<lambda>ex. if same ex then add_item item ex else ex) groups')"

definition current_release_id_of :: "dict list \<Rightarrow> json" where
  "current_release_id_of items =
     (case List.find (\<lambda>v. \<not> missing v) (map (\<lambda>it. dget ''id'' (current_release_of it)) items) of None \<Rightarrow> JNull | Some v \<Rightarrow> v)"

definition manualimport_expected_releases :: "dict list \<Rightarrow> expected_release list \<times> json" where
  "manualimport_expected_releases items =
     (let current = current_release_id_of items in
      (map (\<lambda>ex. ex\<lparr>ex_is_current := (ex_release_id ex = current)\<rparr>) (fold group_item items []), current))"

section \<open>The identity result of an import\<close>

definition best_current_id :: "expected_release list \<Rightarrow> json \<Rightarrow> json" where
  "best_current_id expected current =
     (case List.find ex_is_current expected of
        Some ex \<Rightarrow> ex_release_id ex
      | None \<Rightarrow> (case expected of [] \<Rightarrow> current | ex # _ \<Rightarrow> ex_release_id ex))"

definition confirmed :: "release_identity \<Rightarrow> expected_release list \<Rightarrow> json \<Rightarrow> rat \<Rightarrow> string \<Rightarrow> release_identity" where
  "confirmed result expected current floor_score reason =
     result\<lparr>ri_decision := SAME_RELEASE, ri_confidence := max (ri_confidence result) floor_score,
       ri_best_release_id := best_current_id expected current, ri_current_release_id := current,
       ri_score := max (ri_score result) floor_score, ri_reasons := reason # ri_reasons result\<rparr>"

definition has_target_track_match :: "dict list \<Rightarrow> bool" where
  "has_target_track_match items =
     (\<exists>it\<in>set items. truthy (dget ''artist'' it) \<and> truthy (dget ''album'' it) \<and> truthy (dget ''tracks'' it) \<and>
        \<not> is_release_family_rejection it)"

definition release_identity_result :: "observed_release \<Rightarrow> dict list \<Rightarrow> bool \<Rightarrow> release_identity" where
  "release_identity_result ob items manualimport_complete =
     (let (expected, current) = manualimport_expected_releases items;
          result = evaluate_release_identity 95 80 ob expected current in
      if ri_decision result = WRONG_ALBUM then result
      else if ri_decision result \<notin> {AMBIGUOUS_EDITION, INSUFFICIENT_EVIDENCE} then result
      else if manualimport_complete
      then confirmed result expected current 85 ''Lidarr ManualImport matched every observed audio file''
      else if has_target_track_match items
      then confirmed result expected current 75 ''Lidarr ManualImport resolved target album tracks''
      else result)"

section \<open>Facts about identity\<close>

definition conflicts :: "observed_release \<Rightarrow> expected_release \<Rightarrow> bool" where
  "conflicts ob ex \<longleftrightarrow> both_differ (ob_artist_mbid ob) (ex_artist_mbid ex) \<or>
     both_differ (ob_release_group_mbid ob) (ex_release_group_mbid ex)"

lemma mbid_conflict_iff:
  "mbid_conflict ob current exs = None \<longleftrightarrow> (\<forall>ex\<in>set exs. \<not> conflicts ob ex)"
  "mbid_conflict ob current exs = Some r \<Longrightarrow> ri_decision r = WRONG_ALBUM"
  by (induction exs) (auto simp: conflicts_def wrong_album_def split: if_splits)

definition has_evidence :: "observed_release \<Rightarrow> expected_release list \<Rightarrow> bool" where
  "has_evidence ob expected \<longleftrightarrow> expected \<noteq> [] \<and> (0 < ob_file_count ob \<or> ob_track_titles ob \<noteq> {})"

lemma evaluate_decision:
  assumes "\<forall>ex\<in>set expected. \<not> conflicts ob ex"
  shows "\<not> has_evidence ob expected \<Longrightarrow> ri_decision (evaluate_release_identity t u ob expected current) = INSUFFICIENT_EVIDENCE"
    "has_evidence ob expected \<Longrightarrow> first_min (\<lambda>ex. - score_of ob ex) expected = Some best \<Longrightarrow>
      ri_decision (evaluate_release_identity t u ob expected current) =
        (if ex_release_id best = current \<and> t \<le> score_of ob best then SAME_RELEASE
         else if u \<le> score_of ob best then SAME_FAMILY else AMBIGUOUS_EDITION)"
  using assms mbid_conflict_iff(1)[of ob current expected]
  by (auto simp: evaluate_release_identity_def has_evidence_def Let_def split: option.splits)

lemma evaluate_wrong_album:
  "ri_decision (evaluate_release_identity t u ob expected current) = WRONG_ALBUM \<longleftrightarrow> (\<exists>ex\<in>set expected. conflicts ob ex)"
  using mbid_conflict_iff[of ob current expected]
  by (auto simp: evaluate_release_identity_def Let_def split: option.splits if_splits)

section \<open>What a score means\<close>

lemma fl_close: "\<bar>x\<bar> \<le> 1000 \<Longrightarrow> \<bar>fl x - x\<bar> \<le> 1 / 1000000000"
  using fl_error[of x] by simp

lemma title_ratio_bounds:
  assumes "finite obs" "obs \<noteq> {}"
  shows "\<bar>title_ratio obs ex - of_nat (card (obs \<inter> ex)) / of_nat (card obs)\<bar> \<le> 1 / 1000000000"
    "(of_nat (card (obs \<inter> ex)) / of_nat (card obs) :: rat) \<le> 1" "(0 :: rat) \<le> of_nat (card (obs \<inter> ex)) / of_nat (card obs)"
proof -
  let ?r = "of_nat (card (obs \<inter> ex)) / of_nat (card obs) :: rat"
  have "card (obs \<inter> ex) \<le> card obs" "0 < card obs" using assms by (auto intro: card_mono simp: card_gt_0_iff)
  then show "?r \<le> 1" "0 \<le> ?r" by (simp_all add: divide_le_eq)
  then show "\<bar>title_ratio obs ex - ?r\<bar> \<le> 1 / 1000000000"
    using fl_close[of ?r] by (simp add: title_ratio_def fl_div_def)
qed

text \<open>The score as a linear function of the count score and the share of the titles, up to rounding.\<close>

lemma score_linear:
  fixes c r :: rat
  assumes c: "0 \<le> c" "c \<le> 100" and r: "\<bar>r\<bar> \<le> 101"
  shows "\<bar>fl_add (fl_mult c (fl (4 / 10))) (fl_mult r (fl (6 / 10))) - (c * 4 / 10 + r * 6 / 10)\<bar> \<le> 1 / 1000000"
proof -
  define p where "p = fl (4 / 10)"
  define q where "q = fl (6 / 10)"
  have p: "\<bar>p - 4 / 10\<bar> \<le> 1 / 1000000000" using fl_close[of "4 / 10"] by (simp add: p_def)
  have q: "\<bar>q - 6 / 10\<bar> \<le> 1 / 1000000000" using fl_close[of "6 / 10"] by (simp add: q_def)
  have "\<bar>c * (p - 4 / 10)\<bar> \<le> 100 * (1 / 1000000000)" using c p by (simp only: abs_mult) (intro mult_mono, auto)
  then have cp: "\<bar>c * p - c * 4 / 10\<bar> \<le> 1 / 10000000" by (simp add: algebra_simps)
  have "\<bar>r * (q - 6 / 10)\<bar> \<le> 101 * (1 / 1000000000)" using r q by (simp only: abs_mult) (intro mult_mono, auto)
  then have rq: "\<bar>r * q - r * 6 / 10\<bar> \<le> 2 / 10000000" by (simp add: algebra_simps)
  define x where "x = c * p"
  define y where "y = r * q"
  define u where "u = c * 4 / 10"
  define v where "v = r * 6 / 10"
  have uv: "0 \<le> u" "u \<le> 40" "\<bar>v\<bar> \<le> 61" using c r by (simp_all add: u_def v_def)
  have x: "\<bar>x - u\<bar> \<le> 1 / 10000000" and y: "\<bar>y - v\<bar> \<le> 2 / 10000000" using cp rq by (simp_all only: x_def y_def u_def v_def)
  have "\<bar>x\<bar> \<le> 1000" using x uv by linarith
  moreover have "\<bar>y\<bar> \<le> 1000" using y uv by linarith
  ultimately have a: "\<bar>fl x - x\<bar> \<le> 1 / 1000000000" and b: "\<bar>fl y - y\<bar> \<le> 1 / 1000000000" by (blast intro: fl_close)+
  have "\<bar>fl x + fl y\<bar> \<le> 1000" using a b x y uv by linarith
  then have "\<bar>fl (fl x + fl y) - (fl x + fl y)\<bar> \<le> 1 / 1000000000" by (rule fl_close)
  then have "\<bar>fl (fl x + fl y) - (u + v)\<bar> \<le> 1 / 1000000" using a b x y by linarith
  then show ?thesis by (simp only: fl_add_def fl_mult_def x_def y_def u_def v_def p_def q_def)
qed

text \<open>A score that reaches 80 is worth at most five missing tracks and needs two thirds of the observed titles
  to be expected; at 95 it is one track and nine tenths. Without titles on both sides no score reaches 80.\<close>

lemma score_release_match_bound:
  assumes fin: "finite obs" and s: "(80 :: rat) \<le> k" "k \<le> score_release_match n obs m ex"
  shows "obs \<noteq> {}" "ex \<noteq> {}" "k - 601 / 10 \<le> 40 - 4 * of_int \<bar>m - n\<bar>"
    "(k - 401 / 10) * of_nat (card obs) \<le> 60 * of_nat (card (obs \<inter> ex))"
proof -
  define d where "d = \<bar>m - n\<bar>"
  define c where "c = (of_int (max 0 (100 - d * 10)) :: rat)"
  define r where "r = of_nat (card (obs \<inter> ex)) / (of_nat (card obs) :: rat)"
  define t where "t = (if obs \<noteq> {} \<and> ex \<noteq> {} then fl_mult (title_ratio obs ex) 100 else 50)"
  have c: "0 \<le> c" "c \<le> 100" "0 < c \<Longrightarrow> c = 100 - of_int d * 10"
    using abs_ge_zero[of "m - n"] by (auto simp: c_def max_def d_def[symmetric] split: if_splits)
  have t: "obs \<noteq> {} \<Longrightarrow> ex \<noteq> {} \<Longrightarrow> \<bar>t - 100 * r\<bar> \<le> 1 / 1000000 \<and> 0 \<le> r \<and> r \<le> 1"
  proof -
    assume ne: "obs \<noteq> {}" "ex \<noteq> {}"
    note b = title_ratio_bounds[OF fin ne(1), of ex, folded r_def]
    have "\<bar>title_ratio obs ex * 100\<bar> \<le> 1000" using b by linarith
    note f = fl_close[OF this]
    have "t = fl (title_ratio obs ex * 100)" using ne by (simp only: t_def fl_mult_def) simp
    moreover have "\<bar>fl (title_ratio obs ex * 100) - 100 * r\<bar> \<le> 1 / 1000000" using f b by linarith
    ultimately show ?thesis using b by simp
  qed
  have score: "k \<le> fl_add (fl_mult c (fl (4 / 10))) (fl_mult t (fl (6 / 10)))"
    using s(2) by (simp only: score_release_match_def Let_def c_def t_def d_def)
  have "\<bar>t\<bar> \<le> 101"
  proof (cases "obs \<noteq> {} \<and> ex \<noteq> {}")
    case True
    then show ?thesis using t by linarith
  next
    case False
    then have "t = 50" by (simp only: t_def if_False)
    then show ?thesis by simp
  qed
  from score_linear[OF c(1,2) this] score have lin: "k - 1 / 1000000 \<le> c * 4 / 10 + t * 6 / 10" by linarith
  have ne: "obs \<noteq> {} \<and> ex \<noteq> {}"
  proof (rule ccontr)
    assume "\<not> ?thesis"
    then have "t = 50" by (simp only: t_def if_False)
    with lin c(2) s(1) show False by linarith
  qed
  then show "obs \<noteq> {}" "ex \<noteq> {}" by simp_all
  have tr: "\<bar>t - 100 * r\<bar> \<le> 1 / 1000000" "0 \<le> r" "r \<le> 1" using t ne by simp_all
  have pos: "0 < c" using lin tr s(1) by linarith
  show "k - 601 / 10 \<le> 40 - 4 * of_int \<bar>m - n\<bar>" using c(3)[OF pos] lin tr unfolding d_def[symmetric] by linarith
  have "(k - 401 / 10) \<le> 60 * r" using lin tr c(2) by linarith
  moreover have "0 < card obs" using fin ne by (simp add: card_gt_0_iff)
  ultimately show "(k - 401 / 10) * of_nat (card obs) \<le> 60 * of_nat (card (obs \<inter> ex))"
    by (simp add: r_def field_simps)
qed

definition title_evidence :: "nat \<Rightarrow> int \<Rightarrow> observed_release \<Rightarrow> expected_release \<Rightarrow> bool" where
  "title_evidence percent delta ob ex \<longleftrightarrow>
     ob_track_titles ob \<noteq> {} \<and> \<bar>ex_track_count ex - ob_file_count ob\<bar> \<le> delta \<and>
     percent * card (ob_track_titles ob) \<le> 100 * card (ob_track_titles ob \<inter> ex_track_titles ex)"

lemma score_evidence:
  assumes "finite (ob_track_titles ob)"
  shows "80 \<le> score_of ob ex \<Longrightarrow> title_evidence 66 5 ob ex" "95 \<le> score_of ob ex \<Longrightarrow> title_evidence 91 1 ob ex"
proof -
  let ?n = "card (ob_track_titles ob)" and ?m = "card (ob_track_titles ob \<inter> ex_track_titles ex)"
  note bound = score_release_match_bound[OF assms, of _ "ob_file_count ob" "ex_track_count ex" "ex_track_titles ex", folded score_of_def]
  show "title_evidence 66 5 ob ex" if "80 \<le> score_of ob ex"
  proof -
    note b = bound[OF order.refl that]
    have "(4 :: rat) * of_int \<bar>ex_track_count ex - ob_file_count ob\<bar> < of_int 24" using b(3) by simp
    then have "4 * \<bar>ex_track_count ex - ob_file_count ob\<bar> < 24" by linarith
    moreover have "(of_nat (66 * ?n) :: rat) \<le> of_nat (100 * ?m)" using b(4) by simp
    then have "66 * ?n \<le> 100 * ?m" by (simp only: of_nat_le_iff)
    ultimately show ?thesis using b(1) by (simp add: title_evidence_def)
  qed
  show "title_evidence 91 1 ob ex" if "95 \<le> score_of ob ex"
  proof -
    note b = bound[OF _ that, simplified]
    have "(4 :: rat) * of_int \<bar>ex_track_count ex - ob_file_count ob\<bar> < of_int 8" using b(3) by simp
    then have "4 * \<bar>ex_track_count ex - ob_file_count ob\<bar> < 8" by linarith
    moreover have "(of_nat (91 * ?n) :: rat) \<le> of_nat (100 * ?m)" using b(4) by simp
    then have "91 * ?n \<le> 100 * ?m" by (simp only: of_nat_le_iff)
    ultimately show ?thesis using b(1) by (simp add: title_evidence_def)
  qed
qed

lemma finite_observed [simp]: "finite (ob_track_titles (collect_observed_release files))"
  by (simp add: collect_observed_release_def Let_def normalized_track_names_from_titles_def)

lemma manual_confirms:
  "ri_decision (release_identity_result ob items confirmed_all) =
     (let (expected, current) = manualimport_expected_releases items;
          d = ri_decision (evaluate_release_identity 95 80 ob expected current) in
      if d \<in> {AMBIGUOUS_EDITION, INSUFFICIENT_EVIDENCE} \<and> (confirmed_all \<or> has_target_track_match items) then SAME_RELEASE else d)"
  by (auto simp: release_identity_result_def confirmed_def Let_def split: prod.splits)

text \<open>(C26) 
  What an identity decision means. WRONG_ALBUM is reported exactly when a candidate release contradicts a
  MusicBrainz identifier of the files; SAME_FAMILY needs a candidate with at least 66 percent of the observed
  titles and at most five tracks more or fewer; SAME_RELEASE is what Lidarr's manual import confirmed, or needs
  the current release with 91 percent of the titles and one track of difference; the two undecided answers are
  left only when the manual import confirmed nothing.
\<close>
theorem identity_result_sound:
  assumes "ob = collect_observed_release files" "manualimport_expected_releases items = (expected, current)"
    "d = ri_decision (release_identity_result ob items confirmed_all)"
  shows "(d = WRONG_ALBUM \<longleftrightarrow> (\<exists>ex\<in>set expected. conflicts ob ex)) \<and>
    (d = SAME_FAMILY \<longrightarrow> (\<exists>ex\<in>set expected. title_evidence 66 5 ob ex)) \<and>
    (d = SAME_RELEASE \<longrightarrow> confirmed_all \<or> has_target_track_match items \<or>
       (\<exists>ex\<in>set expected. ex_release_id ex = current \<and> title_evidence 91 1 ob ex)) \<and>
    (d \<in> {AMBIGUOUS_EDITION, INSUFFICIENT_EVIDENCE} \<longrightarrow> \<not> confirmed_all \<and> \<not> has_target_track_match items)"
proof (cases "\<exists>ex\<in>set expected. conflicts ob ex")
  case True
  with evaluate_wrong_album[of 95 80 ob expected current] show ?thesis
    by (simp add: assms(2,3) manual_confirms)
next
  case False
  have fin: "finite (ob_track_titles ob)" by (simp add: assms(1))
  let ?d = "ri_decision (evaluate_release_identity 95 80 ob expected current)"
  have d: "d = (if ?d \<in> {AMBIGUOUS_EDITION, INSUFFICIENT_EVIDENCE} \<and> (confirmed_all \<or> has_target_track_match items) then SAME_RELEASE else ?d)"
    by (simp add: assms(2,3) manual_confirms)
  have ev: "(?d = SAME_FAMILY \<longrightarrow> (\<exists>ex\<in>set expected. title_evidence 66 5 ob ex)) \<and>
      (?d = SAME_RELEASE \<longrightarrow> (\<exists>ex\<in>set expected. ex_release_id ex = current \<and> title_evidence 91 1 ob ex)) \<and> ?d \<noteq> WRONG_ALBUM"
  proof (cases "has_evidence ob expected")
    case True
    then obtain best where best: "first_min (\<lambda>ex. - score_of ob ex) expected = Some best"
      using first_min_Some_if by (metis has_evidence_def)
    have no: "\<forall>ex\<in>set expected. \<not> conflicts ob ex" using False by blast
    show ?thesis using evaluate_decision(2)[OF no True best, of 95 80 current] first_min_in_set[OF best] score_evidence[OF fin]
      by auto
  next
    case nev: False
    then show ?thesis using evaluate_decision(1)[of expected ob 95 80 current] False by simp
  qed
  have "\<forall>ex\<in>set expected. \<not> conflicts ob ex" using False by blast
  then show ?thesis using ev unfolding d by (auto split: if_splits)
qed

lemma identity_result_sound_witness:
  "let ob = collect_observed_release [\<lparr>tg_parts = [''a.flac''], tg_tags = Some [(''musicbrainz_artistid'', [''x''])]\<rparr>];
       items = [[(''foreignArtistId'', JStr ''y'')]] in
   ri_decision (release_identity_result ob items True) = WRONG_ALBUM"
proof -
  let ?f = "\<lparr>tg_parts = [''a.flac''], tg_tags = Some [(''musicbrainz_artistid'', [''x''])]\<rparr>"
  let ?ob = "collect_observed_release [?f]" and ?items = "[[(''foreignArtistId'', JStr ''y'')]]"
  obtain expected current where e: "manualimport_expected_releases ?items = (expected, current)" by (cases "manualimport_expected_releases ?items") auto
  have low: "py_lower ''.flac'' = ''.flac''" "py_lower ''musicbrainz_artistid'' = ''musicbrainz_artistid''"
    "py_lower ''musicbrainz artist id'' = ''musicbrainz artist id''" "py_lower ''musicbrainz_artist_id'' = ''musicbrainz_artist_id''"
    by (simp_all add: py_lower_def py_lower_char_eq of_lower_char del: of_char_eq_iff)
  have a: "ob_artist_mbid ?ob = Some ''x''"
    by (simp add: collect_observed_release_def Let_def audio_files_def tg_name_def py_suffix_def AUDIO_SUFFIXES_def
        tag_values_def MUSICBRAINZ_ARTIST_KEYS_def single_or_none_def low)
  have "conflicts ?ob (new_group (hd ?items))"
    using a by (simp add: conflicts_def both_differ_def truthy_str_def new_group_def first_nonempty_mapping_value_def
        ARTIST_MBID_KEYS_def missing_def py_str_def)
  then have "\<exists>ex\<in>set expected. conflicts ?ob ex"
    using e by (auto simp: manualimport_expected_releases_def Let_def group_item_def same_group_def new_group_def add_item_def conflicts_def)
  with identity_result_sound[OF refl e refl, of "[?f]" True] show ?thesis by (simp add: Let_def)
qed

text \<open>The title without suffix, track prefix and remaster notes.\<close>

definition title_core :: "string \<Rightarrow> string" where
  "title_core title =
     (let suf = py_lower (dot_suffix title);
          n0 = (if suf \<in> set AUDIO_SUFFIXES then take (length title - length suf) title else title);
          n1 = re_sub TRACK_PREFIX_RE [] n0;
          n2 = (if py_in '' - '' n1 then after_last '' - '' n1 else n1) in
      re_sub REMASTER_WORD_RE [] (re_sub REMASTER_BRACKET_RE [] n2))"

lemma plain_not_space: "is_plain c \<Longrightarrow> \<not> py_isspace_char c"
  by (auto simp: is_plain_def py_isspace_char_def Let_def)

text \<open>
  A normalised title consists of the runs of lower-case letters and digits of the lower-cased title
  (after the prefix and the remaster notes were taken off), joined by single spaces: it has no spaces at either
  end or in a row, and two titles that differ only in punctuation have the same normalised form.
\<close>
theorem normalized_title_shape:
  "normalize_track_title_for_match title = py_join '' '' (runs is_plain (py_lower (title_core title)))"
  using split_squash[of is_plain "py_lower (title_core title)"] plain_not_space collapse_strip
  by (simp add: normalize_track_title_for_match_def title_core_def Let_def NON_PLAIN_RE_def SPACES_RE_def Space_def sub_run)

end
