(* ===== verification/Backend_Clients.thy ===== *)
theory Backend_Clients
  imports Backend_Lane Release_Family
begin

text \<open>
  The clients of the download backends (\<open>app/download_backend.py\<close>): SABnzbd and qBittorrent, driven over
  HTTP in one dedicated category, with the checks that a category is configured and that a completed path
  lies inside the download root.

  The HTTP server is a function from the requests sent so far, the latest first, to its answer
  (\<open>None\<close> for a request that raises); the log of requests is the state of a client operation, so that the
  lemmas can speak about what was sent. Errors are values of \<open>client_error\<close>. The file system is the
  function \<open>resolve\<close> (\<open>Path.resolve\<close>); the environment is a partial function on names.
\<close>

section \<open>Errors and requests\<close>

datatype client_error =
    Value_Error string
  | Runtime_Error string
  | Request_Error
  | Attribute_Error
  | Type_Error

record http_request =
  hq_method :: string
  hq_url :: string
  hq_params :: "(string \<times> string) list"
  hq_data :: "(string \<times> string) list"
  hq_file :: "(string \<times> string) option"
  hq_cookie :: "string option"
  hq_timeout :: int

record http_response =
  hr_ok :: bool
  hr_json :: "json option"
  hr_text :: string
  hr_set_cookie :: "string option"

type_synonym http_log = "http_request list"
type_synonym http = "http_log \<Rightarrow> http_response option"
type_synonym environ = "string \<Rightarrow> string option"

text \<open>Sequencing: an error ends the operation, the state is kept.\<close>

definition and_then :: "('e + 'a) \<times> 's \<Rightarrow> ('a \<Rightarrow> 's \<Rightarrow> ('e + 'b) \<times> 's) \<Rightarrow> ('e + 'b) \<times> 's" where
  "and_then r f = (case r of (Inl e, s) \<Rightarrow> (Inl e, s) | (Inr a, s) \<Rightarrow> f a s)"

text \<open>\<open>arg or os.environ.get(name) or ""\<close>.\<close>

definition env_setting :: "string option \<Rightarrow> string \<Rightarrow> environ \<Rightarrow> string" where
  "env_setting arg name env = str_or arg (str_or (env name) [])"

definition client_timeout :: "int option \<Rightarrow> string \<Rightarrow> environ \<Rightarrow> int" where
  "client_timeout arg name env =
     (case arg of
        Some n \<Rightarrow> n
      | None \<Rightarrow> (case py_int (case env name of None \<Rightarrow> ''30'' | Some raw \<Rightarrow> raw) of None \<Rightarrow> 30 | Some n \<Rightarrow> max 1 n))"

section \<open>Values\<close>

datatype backend_state = BQueued | BDownloading | BCompleted | BFailed | BUnknown

fun backend_state_str :: "backend_state \<Rightarrow> string" where
  "backend_state_str BQueued = ''queued''"
| "backend_state_str BDownloading = ''downloading''"
| "backend_state_str BCompleted = ''completed''"
| "backend_state_str BFailed = ''failed''"
| "backend_state_str BUnknown = ''unknown''"

record submitted_job =
  sj_backend_job_id :: string
  sj_category :: string

record job_status =
  js_backend_job_id :: string
  js_state :: backend_state
  js_progress :: rat
  js_completed_path :: "string option"
  js_raw_status :: string
  js_display_name :: "string option"

text \<open>\<open>float(s)\<close> for decimal literals, with an optional exponent; infinities and not-a-number are left out.\<close>

definition digits_of :: "string \<Rightarrow> nat option" where
  "digits_of s = (if s = [] then Some 0 else if digits_ok s then Some (dec_val (filter (\<lambda>c. c \<noteq> CHR ''_'') s)) else None)"

definition before_char :: "(char \<Rightarrow> bool) \<Rightarrow> string \<Rightarrow> string \<times> string option" where
  "before_char p s =
     (takeWhile (\<lambda>c. \<not> p c) s, case dropWhile (\<lambda>c. \<not> p c) s of [] \<Rightarrow> None | c # cs \<Rightarrow> Some cs)"

definition unsigned_float :: "string \<Rightarrow> rat option" where
  "unsigned_float s =
     (let (mant, ex) = before_char (\<lambda>c. c = CHR ''e'' \<or> c = CHR ''E'') s;
          (ip, fp) = before_char (\<lambda>c. c = CHR ''.'') mant;
          frac = (case fp of None \<Rightarrow> [] | Some f \<Rightarrow> f) in
      if ip = [] \<and> frac = [] then None
      else
        case (digits_of ip, digits_of frac, case ex of None \<Rightarrow> Some 0 | Some e \<Rightarrow> if py_strip e = e then py_int e else None) of
          (Some i, Some f, Some e) \<Rightarrow>
            Some (fl ((of_nat i + of_nat f / 10 ^ length (filter (\<lambda>c. c \<noteq> CHR ''_'') frac)) * 10 powi e))
        | _ \<Rightarrow> None)"

definition py_float_str :: "string \<Rightarrow> rat option" where
  "py_float_str s =
     (case py_strip s of
        [] \<Rightarrow> None
      | c # cs \<Rightarrow>
          if c = CHR ''-'' then map_option uminus (unsigned_float cs)
          else if c = CHR ''+'' then unsigned_float cs
          else unsigned_float (c # cs))"

definition safe_float :: "json \<Rightarrow> rat" where
  "safe_float v =
     (case v of
        JInt n \<Rightarrow> fl (of_int n)
      | JFloat r \<Rightarrow> r
      | JBool b \<Rightarrow> of_bool b
      | JStr s \<Rightarrow> (case py_float_str s of None \<Rightarrow> 0 | Some r \<Rightarrow> r)
      | _ \<Rightarrow> 0)"

definition slot_display_name :: "dict \<Rightarrow> string option" where
  "slot_display_name slot =
     (let v = py_or (dget ''name'' slot) (dget ''filename'' slot); name = (if truthy v then py_strip (py_str v) else []) in
      if name = [] then None else Some name)"

definition has_token :: "string \<Rightarrow> string list \<Rightarrow> bool" where
  "has_token text tokens = (\<exists>t\<in>set tokens. py_in t (py_lower text))"

section \<open>Redaction\<close>

definition SECRET_KEYS :: "string list" where
  "SECRET_KEYS = [''apikey'', ''api_key'', ''password'', ''passwd'', ''pass'']"

definition SECRET_PARAM_RE :: re where
  "SECRET_PARAM_RE = cats [WordEdge, Grp 1 (foldr (\<lambda>k r. Alt (Lit_ci k) r) (butlast SECRET_KEYS) (Lit_ci (last SECRET_KEYS))),
     Ch CHR ''='', Grp 2 (Rep1 (Cls (\<lambda>c. c \<noteq> CHR ''&'' \<and> \<not> py_isspace_char c)))]"

definition redact :: "string \<Rightarrow> string" where
  "redact text = re_sub_with SECRET_PARAM_RE (\<lambda>m. grp 1 m @ ''=<redacted>'') text"

definition redact_params :: "dict \<Rightarrow> dict" where
  "redact_params params =
     map (\<lambda>(k, v). (k, if py_lower k \<in> set SECRET_KEYS then JStr ''<redacted>''
                       else (case v of JStr s \<Rightarrow> JStr (redact s) | _ \<Rightarrow> v))) params"

section \<open>Categories and paths\<close>

definition GENERIC_CATEGORIES :: "string list" where
  "GENERIC_CATEGORIES = [''music'', ''complete'', ''completed'', ''downloads'', ''finished'', []]"

definition ensure_category :: "string option \<Rightarrow> client_error + string" where
  "ensure_category category =
     (let cat = py_strip (str_or category []) in
      if cat = [] then Inl (Value_Error ''backend category is required (fail closed; ADR-0014)'') else Inr cat)"

definition is_generic_category :: "string option \<Rightarrow> bool" where
  "is_generic_category category = (py_lower (py_strip (str_or category [])) \<in> set GENERIC_CATEGORIES)"

definition contained_path :: "(pypath \<Rightarrow> pypath option) \<Rightarrow> string \<Rightarrow> string \<Rightarrow> pypath option" where
  "contained_path resolve root_dir candidate =
     (case (resolve (path_of root_dir), resolve (path_of candidate)) of
        (Some r, Some c) \<Rightarrow> if c = r then None else if is_relative_to c r then Some c else None
      | _ \<Rightarrow> None)"

text \<open>\<open>s.replace("\", "/")\<close>, and \<open>s.split("=>", 1)\<close> for a text that contains the arrow.\<close>

definition forward_slashes :: "string \<Rightarrow> string" where
  "forward_slashes s = map (\<lambda>c. if c = CHR 0x5C then CHR ''/'' else c) s"

fun split_arrow :: "string \<Rightarrow> (string \<times> string) option" where
  "split_arrow [] = None"
| "split_arrow (c # cs) =
     (if prefix ''=>'' (c # cs) then Some ([], tl cs)
      else map_option (\<lambda>(a, b). (c # a, b)) (split_arrow cs))"

definition path_map_entry :: "string \<Rightarrow> (string \<times> string) option" where
  "path_map_entry entry =
     (case split_arrow (py_strip entry) of
        None \<Rightarrow> None
      | Some (src, dst) \<Rightarrow>
          let s = rstrip_char (CHR ''/'') (forward_slashes (py_strip src));
              d = rstrip_char (CHR ''/'') (forward_slashes (py_strip dst)) in
          if s \<noteq> [] \<and> d \<noteq> [] then Some (s, d) else None)"

definition parse_path_map :: "string option \<Rightarrow> (string \<times> string) list" where
  "parse_path_map raw = List.map_filter path_map_entry (split_char (CHR '';'') (str_or raw []))"

fun map_by_prefix :: "string \<Rightarrow> string \<Rightarrow> (string \<times> string) list \<Rightarrow> string" where
  "map_by_prefix path nrm [] = path"
| "map_by_prefix path nrm ((src, dst) # pairs) =
     (if py_lower nrm = py_lower src then dst
      else if prefix (py_lower src @ ''/'') (py_lower nrm) then dst @ drop (length src) nrm
      else map_by_prefix path nrm pairs)"

definition apply_path_map :: "string \<Rightarrow> (string \<times> string) list \<Rightarrow> string" where
  "apply_path_map path pairs = (if path = [] \<or> pairs = [] then path else map_by_prefix path (forward_slashes path) pairs)"

section \<open>SABnzbd\<close>

record sab_args =
  sa_url :: "string option"
  sa_api_key :: "string option"
  sa_category :: "string option"
  sa_download_root :: "string option"
  sa_path_map :: "string option"
  sa_timeout :: "int option"

text \<open>The properties of a client, read from its arguments and the environment.\<close>

record sab_client =
  sc_api_url :: string
  sc_api_key :: string
  sc_category :: string
  sc_download_root :: string
  sc_path_map :: "(string \<times> string) list"
  sc_timeout :: int

definition sab_client_of :: "sab_args \<Rightarrow> environ \<Rightarrow> sab_client" where
  "sab_client_of a env =
     \<lparr>sc_api_url = rstrip_char (CHR ''/'') (env_setting (sa_url a) ''MINTARR_SAB_BACKEND_URL'' env),
      sc_api_key = env_setting (sa_api_key a) ''MINTARR_SAB_BACKEND_API_KEY'' env,
      sc_category = env_setting (sa_category a) ''MINTARR_SAB_BACKEND_CATEGORY'' env,
      sc_download_root = env_setting (sa_download_root a) ''MINTARR_SAB_BACKEND_DOWNLOAD_ROOT'' env,
      sc_path_map = parse_path_map (Some (env_setting (sa_path_map a) ''MINTARR_SAB_BACKEND_PATH_MAP'' env)),
      sc_timeout = client_timeout (sa_timeout a) ''MINTARR_SAB_BACKEND_TIMEOUT'' env\<rparr>"

definition sab_is_enabled :: "sab_client \<Rightarrow> bool" where
  "sab_is_enabled c \<longleftrightarrow> sc_api_url c \<noteq> [] \<and> sc_api_key c \<noteq> [] \<and> sc_category c \<noteq> []"

definition SAB_FAILED_TOKENS :: "string list" where
  "SAB_FAILED_TOKENS = [''failed'', ''error'']"

text \<open>The answer of a request whose body must be JSON; anything but an object counts as an empty one.\<close>

definition json_answer :: "http_response option \<Rightarrow> client_error + dict" where
  "json_answer r =
     (case r of
        None \<Rightarrow> Inl Request_Error
      | Some resp \<Rightarrow>
          if \<not> hr_ok resp then Inl Request_Error
          else (case hr_json resp of None \<Rightarrow> Inl Request_Error | Some v \<Rightarrow> Inr (as_dict v)))"

definition sab_call :: "sab_client \<Rightarrow> http \<Rightarrow> string \<Rightarrow> (string \<times> string) list \<Rightarrow> http_log \<Rightarrow> (client_error + dict) \<times> http_log" where
  "sab_call c http mode params hist =
     (let rq = \<lparr>hq_method = ''GET'', hq_url = sc_api_url c @ ''/api'',
                hq_params = [(''mode'', mode), (''output'', ''json''), (''apikey'', sc_api_key c)] @ params,
                hq_data = [], hq_file = None, hq_cookie = None, hq_timeout = sc_timeout c\<rparr>;
          hist' = rq # hist in
      (json_answer (http hist'), hist'))"

text \<open>\<open>Path(filename or "release.nzb").name or "release.nzb"\<close>.\<close>

definition py_path_name :: "string \<Rightarrow> string" where
  "py_path_name s = (if path_parts s = [] then [] else last (path_parts s))"

definition safe_filename :: "string \<Rightarrow> string" where
  "safe_filename filename =
     str_or (Some (py_path_name (str_or (Some filename) ''release.nzb''))) ''release.nzb''"

definition sab_post_file :: "sab_client \<Rightarrow> http \<Rightarrow> string \<Rightarrow> string \<Rightarrow> (string \<times> string) list \<Rightarrow> http_log \<Rightarrow>
    (client_error + dict) \<times> http_log" where
  "sab_post_file c http filename data params hist =
     (let rq = \<lparr>hq_method = ''POST'', hq_url = sc_api_url c @ ''/api'',
                hq_params = [(''mode'', ''addfile''), (''output'', ''json''), (''apikey'', sc_api_key c)] @ params,
                hq_data = [], hq_file = Some (safe_filename filename, data), hq_cookie = None, hq_timeout = sc_timeout c\<rparr>;
          hist' = rq # hist in
      (json_answer (http hist'), hist'))"

text \<open>The job of an accepted submission: \<open>payload.get("status", True)\<close> and the first of \<open>nzo_ids\<close>.\<close>

definition submission_of :: "string \<Rightarrow> string \<Rightarrow> dict \<Rightarrow> client_error + submitted_job" where
  "submission_of message cat payload =
     (if \<not> (truthy (dget_default ''status'' (JBool True) payload) \<and> truthy (dget ''nzo_ids'' payload))
      then Inl (Runtime_Error message)
      else
        case dget ''nzo_ids'' payload of
          JList (x # _) \<Rightarrow> Inr \<lparr>sj_backend_job_id = py_str x, sj_category = cat\<rparr>
        | JStr (ch # _) \<Rightarrow> Inr \<lparr>sj_backend_job_id = [ch], sj_category = cat\<rparr>
        | _ \<Rightarrow> Inl Type_Error)"

definition sab_submit :: "sab_client \<Rightarrow> http \<Rightarrow> string \<Rightarrow> http_log \<Rightarrow> (client_error + submitted_job) \<times> http_log" where
  "sab_submit c http url hist =
     (case ensure_category (Some (sc_category c)) of
        Inl e \<Rightarrow> (Inl e, hist)
      | Inr cat \<Rightarrow>
          and_then (sab_call c http ''addurl'' [(''name'', url), (''cat'', cat)] hist) (\<lambda>payload hist.
            (submission_of ''SAB backend addurl returned no nzo_id'' cat payload, hist)))"

definition sab_submit_file :: "sab_client \<Rightarrow> http \<Rightarrow> string \<Rightarrow> string \<Rightarrow> http_log \<Rightarrow>
    (client_error + submitted_job) \<times> http_log" where
  "sab_submit_file c http filename data hist =
     (case ensure_category (Some (sc_category c)) of
        Inl e \<Rightarrow> (Inl e, hist)
      | Inr cat \<Rightarrow>
          if data = [] then (Inl (Value_Error ''backend addfile requires a non-empty NZB file''), hist)
          else
            and_then (sab_post_file c http filename data [(''cat'', cat)] hist) (\<lambda>payload hist.
              (submission_of ''SAB backend addfile returned no nzo_id'' cat payload, hist)))"

definition sab_queue_status :: "string \<Rightarrow> dict \<Rightarrow> job_status" where
  "sab_queue_status jid slot =
     (let raw = py_str (dget_default ''status'' (JStr []) slot) in
      \<lparr>js_backend_job_id = jid, js_state = (if has_token raw SAB_FAILED_TOKENS then BFailed else BDownloading),
       js_progress = safe_float (dget ''percentage'' slot), js_completed_path = None, js_raw_status = raw,
       js_display_name = slot_display_name slot\<rparr>)"

definition sab_history_status :: "sab_client \<Rightarrow> (pypath \<Rightarrow> pypath option) \<Rightarrow> string \<Rightarrow> dict \<Rightarrow> job_status" where
  "sab_history_status c resolve jid slot =
     (let raw = py_str (dget_default ''status'' (JStr []) slot) in
      if has_token raw SAB_FAILED_TOKENS
      then \<lparr>js_backend_job_id = jid, js_state = BFailed, js_progress = 0, js_completed_path = None, js_raw_status = raw,
            js_display_name = slot_display_name slot\<rparr>
      else
        let completed =
              (if sc_download_root c = [] then None
               else map_option path_str (contained_path resolve (sc_download_root c)
                      (apply_path_map (py_str (dget_default ''storage'' (JStr []) slot)) (sc_path_map c)))) in
        \<lparr>js_backend_job_id = jid, js_state = BCompleted, js_progress = 100, js_completed_path = completed, js_raw_status = raw,
         js_display_name = slot_display_name slot\<rparr>)"

text \<open>The loop over the slots: reaching a slot that is no object raises, as does iterating something else.\<close>

fun find_slot :: "string \<Rightarrow> json list \<Rightarrow> client_error + dict option" where
  "find_slot jid [] = Inr None"
| "find_slot jid (JObj d # xs) = (if py_str (dget ''nzo_id'' d) = jid then Inr (Some d) else find_slot jid xs)"
| "find_slot jid (_ # xs) = Inl Attribute_Error"

definition slot_in :: "string \<Rightarrow> string \<Rightarrow> dict \<Rightarrow> client_error + dict option" where
  "slot_in part jid payload =
     (case dget_default part (JObj []) payload of
        JObj d \<Rightarrow>
          (let slots = dget ''slots'' d in
           if \<not> truthy slots then Inr None
           else (case slots of JList xs \<Rightarrow> find_slot jid xs | _ \<Rightarrow> Inl Attribute_Error))
      | _ \<Rightarrow> Inl Attribute_Error)"

definition not_found_status :: "string \<Rightarrow> job_status" where
  "not_found_status jid =
     \<lparr>js_backend_job_id = jid, js_state = BUnknown, js_progress = 0, js_completed_path = None, js_raw_status = ''not_found'',
      js_display_name = None\<rparr>"

definition sab_status :: "sab_client \<Rightarrow> http \<Rightarrow> (pypath \<Rightarrow> pypath option) \<Rightarrow> string \<Rightarrow> http_log \<Rightarrow> (client_error + job_status) \<times> http_log" where
  "sab_status c http resolve jid hist =
     and_then (sab_call c http ''queue'' [] hist) (\<lambda>queue hist1.
       case slot_in ''queue'' jid queue of
         Inl e \<Rightarrow> (Inl e, hist1)
       | Inr (Some slot) \<Rightarrow> (Inr (sab_queue_status jid slot), hist1)
       | Inr None \<Rightarrow>
           and_then (sab_call c http ''history'' [] hist1) (\<lambda>history hist2.
             case slot_in ''history'' jid history of
               Inl e \<Rightarrow> (Inl e, hist2)
             | Inr (Some slot) \<Rightarrow> (Inr (sab_history_status c resolve jid slot), hist2)
             | Inr None \<Rightarrow> (Inr (not_found_status jid), hist2)))"

text \<open>Both modes are tried; an exception in one of them is logged and counts as not accepted.\<close>

definition sab_delete :: "sab_client \<Rightarrow> http \<Rightarrow> string \<Rightarrow> string \<Rightarrow> bool \<Rightarrow> http_log \<Rightarrow> bool \<times> http_log" where
  "sab_delete c http mode jid delete_files hist =
     (case sab_call c http mode [(''name'', ''delete''), (''value'', jid), (''del_files'', if delete_files then ''1'' else ''0'')] hist of
        (Inl e, hist') \<Rightarrow> (False, hist')
      | (Inr payload, hist') \<Rightarrow> (truthy (dget_default ''status'' (JBool False) payload), hist'))"

definition sab_cancel :: "sab_client \<Rightarrow> http \<Rightarrow> string \<Rightarrow> bool \<Rightarrow> http_log \<Rightarrow> bool \<times> http_log" where
  "sab_cancel c http jid delete_files hist =
     (let (ok1, hist1) = sab_delete c http ''queue'' jid delete_files hist;
          (ok2, hist2) = sab_delete c http ''history'' jid delete_files hist1 in
      (ok1 \<or> ok2, hist2))"

section \<open>qBittorrent\<close>

text \<open>A literal of a case-sensitive pattern.\<close>

definition Lit :: "string \<Rightarrow> re" where
  "Lit w = cats (map Ch w)"

definition MAGNET_BTIH_RE :: re where
  "MAGNET_BTIH_RE = Cat (Lit_ci ''xt=urn:btih:'')
     (Grp 1 (Rep1 (Cls (\<lambda>c. is_digit c \<or> is_plain (py_lower_char c)))))"

definition SID_RE :: re where
  "SID_RE = Cat (Lit ''SID='') (Grp 1 (Rep1 (Cls (\<lambda>c. c \<noteq> CHR '';''))))"

definition QBIT_DOWNLOADING :: "string list" where
  "QBIT_DOWNLOADING = [''downloading'', ''stalleddl'', ''metadl'', ''queueddl'', ''allocating'', ''checkingdl'', ''forceddl'',
     ''pauseddl'', ''checkingresumedata'', ''moving'']"

definition QBIT_COMPLETED :: "string list" where
  "QBIT_COMPLETED = [''uploading'', ''stalledup'', ''queuedup'', ''forcedup'', ''pausedup'', ''checkingup'']"

definition QBIT_FAILED :: "string list" where
  "QBIT_FAILED = [''error'', ''missingfiles'']"

definition magnet_btih :: "string \<Rightarrow> string option" where
  "magnet_btih url =
     (if url = [] \<or> \<not> prefix ''magnet:'' (py_lower url) then None
      else map_option (\<lambda>m. py_lower (grp 1 m)) (re_search MAGNET_BTIH_RE url))"

definition map_qbit_state :: "string \<Rightarrow> backend_state" where
  "map_qbit_state raw =
     (let lowered = py_lower raw in
      if lowered \<in> set QBIT_FAILED then BFailed
      else if lowered \<in> set QBIT_COMPLETED then BCompleted
      else if lowered \<in> set QBIT_DOWNLOADING then BDownloading
      else BUnknown)"

record qbit_args =
  qa_url :: "string option"
  qa_username :: "string option"
  qa_password :: "string option"
  qa_category :: "string option"
  qa_download_root :: "string option"
  qa_cleanup_policy :: "string option"
  qa_timeout :: "int option"

record qbit_client =
  qc_api_url :: string
  qc_username :: string
  qc_password :: string
  qc_category :: string
  qc_download_root :: string
  qc_cleanup_policy :: string
  qc_timeout :: int

definition qbit_client_of :: "qbit_args \<Rightarrow> environ \<Rightarrow> qbit_client" where
  "qbit_client_of a env =
     \<lparr>qc_api_url = rstrip_char (CHR ''/'') (env_setting (qa_url a) ''MINTARR_QBIT_BACKEND_URL'' env),
      qc_username = env_setting (qa_username a) ''MINTARR_QBIT_BACKEND_USERNAME'' env,
      qc_password = env_setting (qa_password a) ''MINTARR_QBIT_BACKEND_PASSWORD'' env,
      qc_category = env_setting (qa_category a) ''MINTARR_QBIT_BACKEND_CATEGORY'' env,
      qc_download_root = env_setting (qa_download_root a) ''MINTARR_QBIT_BACKEND_DOWNLOAD_ROOT'' env,
      qc_cleanup_policy = str_or (qa_cleanup_policy a) (str_or (env ''MINTARR_QBIT_BACKEND_CLEANUP'') ''leave_seeding''),
      qc_timeout = client_timeout (qa_timeout a) ''MINTARR_QBIT_BACKEND_TIMEOUT'' env\<rparr>"

definition qbit_is_enabled :: "qbit_client \<Rightarrow> bool" where
  "qbit_is_enabled c \<longleftrightarrow> qc_api_url c \<noteq> [] \<and> qc_category c \<noteq> []"

text \<open>The state of a client: its session cookie and the requests sent.\<close>

record qbit_state =
  qs_sid :: "string option"
  qs_log :: http_log

definition has_credentials :: "qbit_client \<Rightarrow> bool" where
  "has_credentials c \<longleftrightarrow> qc_username c \<noteq> [] \<or> qc_password c \<noteq> []"

definition qbit_login :: "qbit_client \<Rightarrow> http \<Rightarrow> qbit_state \<Rightarrow> (client_error + unit) \<times> qbit_state" where
  "qbit_login c http st =
     (let rq = \<lparr>hq_method = ''POST'', hq_url = qc_api_url c @ ''/api/v2/auth/login'', hq_params = [],
                hq_data = [(''username'', qc_username c), (''password'', qc_password c)], hq_file = None,
                hq_cookie = None, hq_timeout = qc_timeout c\<rparr>;
          st1 = st\<lparr>qs_log := rq # qs_log st\<rparr> in
      case http (qs_log st1) of
        None \<Rightarrow> (Inl Request_Error, st1)
      | Some resp \<Rightarrow>
          if \<not> hr_ok resp then (Inl Request_Error, st1)
          else
            let cookie = (case hr_set_cookie resp of None \<Rightarrow> [] | Some ck \<Rightarrow> ck);
                sid = map_option (grp 1) (re_search SID_RE cookie);
                st2 = st1\<lparr>qs_sid := sid\<rparr> in
            if has_credentials c \<and> \<not> truthy_str sid
            then (Inl (Runtime_Error ''qBit login was rejected (no SID returned)''), st2)
            else (Inr (), st2))"

definition qbit_call :: "qbit_client \<Rightarrow> http \<Rightarrow> string \<Rightarrow> string \<Rightarrow> (string \<times> string) list \<Rightarrow> (string \<times> string) list \<Rightarrow>
    qbit_state \<Rightarrow> (client_error + http_response) \<times> qbit_state" where
  "qbit_call c http method path params data st =
     and_then (if qs_sid st = None \<and> has_credentials c then qbit_login c http st else (Inr (), st)) (\<lambda>_ st1.
       let rq = \<lparr>hq_method = method, hq_url = qc_api_url c @ path, hq_params = params, hq_data = data, hq_file = None,
                 hq_cookie = (if truthy_str (qs_sid st1) then Some (''SID='' @ the (qs_sid st1)) else None),
                 hq_timeout = qc_timeout c\<rparr>;
           st2 = st1\<lparr>qs_log := rq # qs_log st1\<rparr> in
       case http (qs_log st2) of
         None \<Rightarrow> (Inl Request_Error, st2)
       | Some resp \<Rightarrow> if hr_ok resp then (Inr resp, st2) else (Inl Request_Error, st2))"

definition response_json :: "http_response \<Rightarrow> client_error + json" where
  "response_json resp = (case hr_json resp of None \<Rightarrow> Inl Request_Error | Some v \<Rightarrow> Inr v)"

definition hash_of :: "json \<Rightarrow> string option" where
  "hash_of t = (case t of JObj d \<Rightarrow> if truthy (dget ''hash'' d) then Some (py_lower (py_str (dget ''hash'' d))) else None | _ \<Rightarrow> None)"

text \<open>The set of hashes, as a list without repetitions.\<close>

definition category_hashes :: "qbit_client \<Rightarrow> http \<Rightarrow> string \<Rightarrow> qbit_state \<Rightarrow> (client_error + string list) \<times> qbit_state" where
  "category_hashes c http category st =
     and_then (qbit_call c http ''GET'' ''/api/v2/torrents/info'' [(''category'', category)] [] st) (\<lambda>resp st1.
       (case response_json resp of
          Inl e \<Rightarrow> Inl e
        | Inr (JList items) \<Rightarrow> Inr (remdups (List.map_filter hash_of items))
        | Inr _ \<Rightarrow> Inr [], st1))"

definition expect_qbit_ok :: "http_response \<Rightarrow> client_error + unit" where
  "expect_qbit_ok resp =
     (let text = py_strip (hr_text resp) in
      if py_lower text \<noteq> ''ok.''
      then Inl (Runtime_Error (''qBit add rejected: '' @ str_or (Some text) ''empty response'')) else Inr ())"

definition qbit_submit :: "qbit_client \<Rightarrow> http \<Rightarrow> string \<Rightarrow> qbit_state \<Rightarrow> (client_error + submitted_job) \<times> qbit_state" where
  "qbit_submit c http url st =
     (case ensure_category (Some (qc_category c)) of
        Inl e \<Rightarrow> (Inl e, st)
      | Inr cat \<Rightarrow>
          let btih = magnet_btih url in
          and_then (if truthy_str btih then (Inr [], st) else category_hashes c http cat st) (\<lambda>before st1.
            and_then (qbit_call c http ''POST'' ''/api/v2/torrents/add'' []
                [(''urls'', url), (''category'', cat), (''paused'', ''false'')] st1) (\<lambda>resp st2.
              case expect_qbit_ok resp of
                Inl e \<Rightarrow> (Inl e, st2)
              | Inr _ \<Rightarrow>
                  if truthy_str btih then (Inr \<lparr>sj_backend_job_id = the btih, sj_category = cat\<rparr>, st2)
                  else
                    and_then (category_hashes c http cat st2) (\<lambda>after st3.
                      (case filter (\<lambda>h. h \<notin> set before) after of
                         [h] \<Rightarrow> Inr \<lparr>sj_backend_job_id = h, sj_category = cat\<rparr>
                       | _ \<Rightarrow> Inl (Runtime_Error ''qBit add: could not resolve a single new torrent hash''), st3)))))"

text \<open>The torrent of a listing with the given hash.\<close>

definition find_torrent :: "string \<Rightarrow> json \<Rightarrow> dict option" where
  "find_torrent jid v =
     (case v of
        JList items \<Rightarrow>
          map_option as_dict (List.find (\<lambda>t. (\<exists>d. t = JObj d) \<and>
            py_lower (py_str (dget_default ''hash'' (JStr []) (as_dict t))) = py_lower jid) items)
      | _ \<Rightarrow> None)"

text \<open>A path that is no string raises.\<close>

definition qbit_torrent_status :: "qbit_client \<Rightarrow> (pypath \<Rightarrow> pypath option) \<Rightarrow> string \<Rightarrow> dict \<Rightarrow> client_error + job_status" where
  "qbit_torrent_status c resolve jid t =
     (let raw = py_str (dget_default ''state'' (JStr []) t);
          status = \<lparr>js_backend_job_id = jid, js_state = map_qbit_state raw,
                    js_progress = fl_mult (safe_float (dget ''progress'' t)) 100, js_completed_path = None,
                    js_raw_status = raw, js_display_name = slot_display_name t\<rparr> in
      if map_qbit_state raw = BCompleted \<and> qc_download_root c \<noteq> [] then
        (case py_or (py_or (dget ''content_path'' t) (dget ''save_path'' t)) (JStr []) of
           JStr path \<Rightarrow>
             Inr (status\<lparr>js_completed_path := map_option path_str (contained_path resolve (qc_download_root c) path)\<rparr>)
         | _ \<Rightarrow> Inl Type_Error)
      else Inr status)"

definition qbit_status :: "qbit_client \<Rightarrow> http \<Rightarrow> (pypath \<Rightarrow> pypath option) \<Rightarrow> string \<Rightarrow> qbit_state \<Rightarrow>
    (client_error + job_status) \<times> qbit_state" where
  "qbit_status c http resolve jid st =
     and_then (qbit_call c http ''GET'' ''/api/v2/torrents/info'' [(''hashes'', py_lower jid)] [] st) (\<lambda>resp st1.
       (case response_json resp of
          Inl e \<Rightarrow> Inl e
        | Inr v \<Rightarrow>
            (case find_torrent jid v of
               None \<Rightarrow> Inr (not_found_status jid)
             | Some t \<Rightarrow> qbit_torrent_status c resolve jid t), st1))"

definition qbit_cancel :: "qbit_client \<Rightarrow> http \<Rightarrow> string \<Rightarrow> bool \<Rightarrow> qbit_state \<Rightarrow> (client_error + bool) \<times> qbit_state" where
  "qbit_cancel c http jid delete_files st =
     (let hashes = py_lower jid;
          rq = (if delete_files
                then qbit_call c http ''POST'' ''/api/v2/torrents/delete'' [] [(''hashes'', hashes), (''deleteFiles'', ''true'')] st
                else if qc_cleanup_policy c = ''remove''
                then qbit_call c http ''POST'' ''/api/v2/torrents/delete'' [] [(''hashes'', hashes), (''deleteFiles'', ''false'')] st
                else qbit_call c http ''POST'' ''/api/v2/torrents/pause'' [] [(''hashes'', hashes)] st) in
      and_then rq (\<lambda>_ st1. (Inr True, st1)))"

section \<open>What is sent\<close>

definition sent :: "'a list \<Rightarrow> 'a list \<Rightarrow> 'a list" where
  "sent old new = take (length new - length old) new"

lemma sent_simps [simp]:
  "sent h h = []" "sent h (a # h) = [a]" "sent h (a # b # h) = [a, b]" "sent h (a # b # c # h) = [a, b, c]"
  by (simp_all add: sent_def)

lemma sent_append [simp]: "sent h (lg @ h) = lg"
  by (simp add: sent_def)

lemma and_then_simps [simp]:
  "and_then (Inl e, s) f = (Inl e, s)" "and_then (Inr a, s) f = f a s"
  by (simp_all add: and_then_def)

lemma and_then_cases:
  assumes "and_then r f = (res, s')"
  obtains (error) e s where "r = (Inl e, s)" "res = Inl e" "s' = s"
    | (result) a s where "r = (Inr a, s)" "f a s = (res, s')"
  using assms by (cases r; cases "fst r") auto

definition is_submission :: "http_request \<Rightarrow> bool" where
  "is_submission rq \<longleftrightarrow> map_of (hq_params rq) ''mode'' \<in> {Some ''addurl'', Some ''addfile''} \<or>
     suffix ''/api/v2/torrents/add'' (hq_url rq)"

definition submission_category :: "http_request \<Rightarrow> string option" where
  "submission_category rq =
     (case map_of (hq_params rq) ''cat'' of Some c \<Rightarrow> Some c | None \<Rightarrow> map_of (hq_data rq) ''category'')"

definition deletes_data :: "http_request \<Rightarrow> bool" where
  "deletes_data rq \<longleftrightarrow> (''del_files'', ''1'') \<in> set (hq_params rq) \<or> (''deleteFiles'', ''true'') \<in> set (hq_data rq)"

lemma sab_call_log: "\<exists>rq. snd (sab_call c http mode params hist) = rq # hist \<and>
    hq_params rq = [(''mode'', mode), (''output'', ''json''), (''apikey'', sc_api_key c)] @ params \<and> hq_data rq = [] \<and>
    hq_url rq = sc_api_url c @ ''/api''"
  by (simp add: sab_call_def Let_def)

lemma sab_post_log: "\<exists>rq. snd (sab_post_file c http filename data params hist) = rq # hist \<and>
    hq_params rq = [(''mode'', ''addfile''), (''output'', ''json''), (''apikey'', sc_api_key c)] @ params \<and> hq_data rq = [] \<and>
    hq_url rq = sc_api_url c @ ''/api''"
  by (simp add: sab_post_file_def Let_def)

text \<open>A call of the qBittorrent client sends its request, behind a login when there is no session yet.\<close>

definition is_login :: "qbit_client \<Rightarrow> http_request \<Rightarrow> bool" where
  "is_login c q \<longleftrightarrow> hq_url q = qc_api_url c @ ''/api/v2/auth/login'' \<and> hq_params q = [] \<and>
     hq_data q = [(''username'', qc_username c), (''password'', qc_password c)]"

definition is_call :: "qbit_client \<Rightarrow> string \<Rightarrow> (string \<times> string) list \<Rightarrow> (string \<times> string) list \<Rightarrow> http_request \<Rightarrow> bool" where
  "is_call c path params data q \<longleftrightarrow> hq_url q = qc_api_url c @ path \<and> hq_params q = params \<and> hq_data q = data"

lemma qbit_login_log: "\<exists>q. qs_log (snd (qbit_login c http st)) = q # qs_log st \<and> is_login c q"
  by (simp add: qbit_login_def Let_def is_login_def split: option.split)

lemma qbit_call_log:
  assumes "qbit_call c http method path params data st = (res, st')"
  shows "\<exists>lg. qs_log st' = lg @ qs_log st \<and> lg \<noteq> [] \<and> (\<forall>q\<in>set lg. is_login c q \<or> is_call c path params data q) \<and>
    (\<forall>resp. res = Inr resp \<longrightarrow> is_call c path params data (hd lg))"
proof -
  obtain q where q: "qs_log (snd (qbit_login c http st)) = q # qs_log st" "is_login c q" using qbit_login_log by blast
  from assms show ?thesis unfolding qbit_call_def
  proof (cases rule: and_then_cases)
    case (error e s)
    with q show ?thesis by (auto split: if_splits intro!: exI[of _ "[q]"])
  next
    case (result a s)
    have "\<exists>lg. qs_log s = lg @ qs_log st \<and> (\<forall>q\<in>set lg. is_login c q)"
      using result(1) q by (auto split: if_splits intro!: exI[of _ "[q]"])
    then obtain lg where lg: "qs_log s = lg @ qs_log st" "\<forall>q\<in>set lg. is_login c q" by blast
    obtain rq where "qs_log st' = rq # qs_log s" "is_call c path params data rq"
      using result(2) by (auto simp: Let_def is_call_def split: option.splits if_splits)
    with lg show ?thesis by (intro exI[of _ "rq # lg"]) auto
  qed
qed

lemma category_hashes_log:
  assumes "category_hashes c http cat st = (res, st')"
  shows "\<exists>lg. qs_log st' = lg @ qs_log st \<and>
    (\<forall>q\<in>set lg. is_login c q \<or> is_call c ''/api/v2/torrents/info'' [(''category'', cat)] [] q)"
  using assms unfolding category_hashes_def
  by (cases rule: and_then_cases) (auto dest!: qbit_call_log)

section \<open>Containment and categories\<close>

lemma contained_path_SomeD:
  assumes "contained_path resolve root_dir cand = Some p"
  shows "\<exists>r. resolve (path_of root_dir) = Some r \<and> resolve (path_of cand) = Some p \<and> is_relative_to p r \<and> p \<noteq> r"
  using assms by (auto simp: contained_path_def split: option.splits if_splits)

lemma ensure_category_iff: "ensure_category x = Inr cat \<longleftrightarrow> cat = py_strip (str_or x []) \<and> cat \<noteq> []"
  by (auto simp: ensure_category_def Let_def)

lemma submission_of_category: "submission_of msg cat payload = Inr job \<Longrightarrow> sj_category job = cat"
  by (auto simp: submission_of_def split: if_splits json.splits list.splits)

definition path_below :: "(pypath \<Rightarrow> pypath option) \<Rightarrow> string \<Rightarrow> string \<Rightarrow> bool" where
  "path_below resolve root_dir p \<longleftrightarrow> root_dir \<noteq> [] \<and>
     (\<exists>r c cand. resolve (path_of root_dir) = Some r \<and> resolve cand = Some c \<and> p = path_str c \<and> is_relative_to c r \<and> c \<noteq> r)"

lemma contained_path_below:
  "contained_path resolve root_dir cand = Some p \<Longrightarrow> root_dir \<noteq> [] \<Longrightarrow> path_below resolve root_dir (path_str p)"
  unfolding path_below_def using contained_path_SomeD by blast

lemma sab_history_path:
  "js_completed_path (sab_history_status c resolve jid slot) = Some p \<Longrightarrow>
    js_state (sab_history_status c resolve jid slot) = BCompleted \<and> path_below resolve (sc_download_root c) p"
  by (auto simp: sab_history_status_def Let_def split: if_splits intro: contained_path_below)

lemma sab_status_path:
  assumes "sab_status c http resolve jid hist = (Inr st, hist')" "js_completed_path st = Some p"
  shows "js_state st = BCompleted \<and> path_below resolve (sc_download_root c) p"
  using assms(1) unfolding sab_status_def
proof (cases rule: and_then_cases)
  case (result queue h1)
  then show ?thesis using assms(2) sab_history_path
    by (auto simp: sab_queue_status_def not_found_status_def Let_def and_then_def
        split: sum.splits option.splits prod.splits)
qed simp

lemma qbit_status_path:
  assumes "qbit_status c http resolve jid qs = (Inr st, qs')" "js_completed_path st = Some p"
  shows "js_state st = BCompleted \<and> path_below resolve (qc_download_root c) p"
  using assms(1) unfolding qbit_status_def
proof (cases rule: and_then_cases)
  case (result resp s)
  then show ?thesis using assms(2)
    by (auto simp: qbit_torrent_status_def not_found_status_def Let_def
        split: sum.splits option.splits if_splits json.splits intro: contained_path_below)
qed simp

section \<open>The clients in the download lane\<close>

definition lane_status :: "job_status \<Rightarrow> backend_status" where
  "lane_status s =
     \<lparr>st_state = backend_state_str (js_state s), st_progress = js_progress s,
      st_completed_path = js_completed_path s, st_display_name = js_display_name s\<rparr>"

text \<open>\<open>_backend_client_for_source\<close>: only the SABnzbd lane is wired, and only when it is enabled.\<close>

definition backend_client_for_source :: "bool \<Rightarrow> sab_client \<Rightarrow> http \<Rightarrow> (pypath \<Rightarrow> pypath option) \<Rightarrow> http_log \<Rightarrow> string \<Rightarrow> backend_client option" where
  "backend_client_for_source lane_enabled c http resolve hist source_type =
     (if source_type = ''sab_usenet_backend'' \<and> lane_enabled \<and> sab_is_enabled c
      then Some \<lparr>bc_status = (\<lambda>jid. case fst (sab_status c http resolve jid hist) of
                                      Inl e \<Rightarrow> None | Inr s \<Rightarrow> Some (lane_status s)),
                 bc_download_root = sc_download_root c\<rparr>
      else None)"

section \<open>From a contained path to an import\<close>

text \<open>What \<open>Path.resolve\<close> returns: an absolute path of proper names.\<close>

definition proper_name :: "string \<Rightarrow> bool" where
  "proper_name x \<longleftrightarrow> x \<noteq> [] \<and> x \<noteq> ''.'' \<and> x \<noteq> ''..'' \<and> CHR ''/'' \<notin> set x"

definition canonical :: "pypath \<Rightarrow> bool" where
  "canonical p \<longleftrightarrow> fst p = ''/'' \<and> (\<forall>x\<in>set (snd p). proper_name x)"

lemma norm_plain: "''..'' \<notin> set cs \<Longrightarrow> acc = [] \<or> hd acc \<noteq> ''..'' \<Longrightarrow>
    norm_comps True acc cs = rev acc @ filter (\<lambda>p. p \<noteq> [] \<and> p \<noteq> ''.'') cs"
proof (induction cs arbitrary: acc)
  case (Cons c cs)
  show ?case
  proof (cases "c = [] \<or> c = ''.''")
    case True
    then show ?thesis using Cons by auto
  next
    case False
    moreover have "c \<noteq> ''..''" using Cons.prems(1) by auto
    ultimately have "norm_comps True acc (c # cs) = norm_comps True (c # acc) cs" using Cons.prems by simp
    also have "\<dots> = rev (c # acc) @ filter (\<lambda>p. p \<noteq> [] \<and> p \<noteq> ''.'') cs" using Cons by (intro Cons.IH) auto
    finally show ?thesis using False by simp
  qed
qed simp

lemma abs_comps_canonical:
  assumes "canonical (path_of s)" "prefix ''/'' s"
  shows "abs_comps cwd s = snd (path_of s)"
proof -
  have "''..'' \<notin> set (split_char (CHR ''/'') s)"
    using assms(1) by (auto simp: canonical_def path_of_def path_parts_def proper_name_def)
  with assms(2) show ?thesis by (simp add: abs_comps_def norm_plain path_of_def path_parts_def)
qed

lemma canonical_path_of:
  assumes "canonical p"
  shows "path_of (path_str p) = p" "prefix ''/'' (path_str p)"
proof -
  obtain ps where p: "p = (''/'', ps)" using assms by (cases p) (auto simp: canonical_def)
  have ok: "\<forall>x\<in>set ps. proper_name x" using assms p by (simp add: canonical_def)
  have s: "path_str p = CHR ''/'' # py_join ''/'' ps" by (simp add: p path_str_def)
  show "prefix ''/'' (path_str p)" by (simp add: s)
  have "path_parts (path_str p) = ps"
  proof (cases "ps = []")
    case False
    then have "split_char (CHR ''/'') (py_join ''/'' ps) = ps" using split_join[of ps "CHR ''/''"] ok by (simp add: proper_name_def)
    moreover have "filter (\<lambda>p. p \<noteq> [] \<and> p \<noteq> ''.'') ps = ps" using ok by (intro filter_True) (simp add: proper_name_def)
    ultimately show ?thesis by (simp add: s path_parts_def)
  qed (simp add: s path_parts_def)
  moreover have "path_root (path_str p) = ''/''"
  proof (cases ps)
    case (Cons x xs)
    then obtain c cs where "x = c # cs" "c \<noteq> CHR ''/''" using ok by (cases x) (auto simp: proper_name_def)
    then show ?thesis by (cases xs) (auto simp: s Cons path_root_def)
  qed (simp add: s path_root_def)
  ultimately show "path_of (path_str p) = p" by (simp add: path_of_def p)
qed

lemma common_len_append [simp]: "common_len xs (xs @ ys) = length xs"
  by (induction xs) auto

text \<open>Below a canonical root, the relative path consists of the remaining names.\<close>

lemma relpath_below:
  assumes "canonical (path_of root_dir)" "prefix ''/'' root_dir" "canonical (''/'', snd (path_of root_dir) @ rest)" "rest \<noteq> []"
  shows "relpath cwd (path_str (''/'', snd (path_of root_dir) @ rest)) root_dir = py_join ''/'' rest"
proof -
  let ?p = "(''/'', snd (path_of root_dir) @ rest)"
  have "abs_comps cwd (path_str ?p) = snd (path_of root_dir) @ rest"
    using abs_comps_canonical[of "path_str ?p" cwd] canonical_path_of[OF assms(3)] assms(3) by simp
  moreover have "abs_comps cwd root_dir = snd (path_of root_dir)" by (rule abs_comps_canonical[OF assms(1,2)])
  ultimately show ?thesis using assms(4) by (simp add: relpath_def Let_def)
qed

lemma join_head:
  assumes "canonical (r, pre @ rest)" "rest \<noteq> []"
  shows "py_join ''/'' rest \<noteq> []" "\<not> prefix ''/'' (py_join ''/'' rest)"
    "prefix ''..'' (py_join ''/'' rest) \<longleftrightarrow> prefix ''..'' (hd rest)"
proof -
  obtain x xs where r: "rest = x # xs" using assms(2) by (cases rest) auto
  have x: "proper_name x" using assms(1) r by (simp add: canonical_def)
  then obtain c cs where c: "x = c # cs" "c \<noteq> CHR ''/''" by (cases x) (auto simp: proper_name_def)
  show "py_join ''/'' rest \<noteq> []" "\<not> prefix ''/'' (py_join ''/'' rest)" using r c by (cases xs; simp)+
  show "prefix ''..'' (py_join ''/'' rest) \<longleftrightarrow> prefix ''..'' (hd rest)"
    using r c x by (cases xs; cases cs) (auto simp: proper_name_def)
qed

lemma start_ingest_below:
  assumes root: "canonical (path_of (bc_download_root client))" "prefix ''/'' (bc_download_root client)"
    and path: "canonical (''/'', snd (path_of (bc_download_root client)) @ rest)" "rest \<noteq> []"
      "path = path_str (''/'', snd (path_of (bc_download_root client)) @ rest)"
    and row: "bdb_ready (ln_backend lan)" "row_of jid lan = Some r"
    and queue: "jobs_ready (ln_jobs lan)" "jid \<noteq> []" "0 < jobs_next_id (ln_jobs lan)" "\<forall>j\<in>set (jobs_rows (ln_jobs lan)). 0 < job_id j"
    and lan': "lan' = start_backend_ingest env now jid job path client lan"
  shows "prefix ''..'' (hd rest) \<Longrightarrow> lan' = lan"
    "\<not> prefix ''..'' (hd rest) \<Longrightarrow>
      has_ingest_job jid lan' \<and> (\<exists>r'. row_of jid lan' = Some r' \<and> bj_state r' = ''importing'')"
proof -
  let ?rel = "py_join ''/'' rest"
  have rel: "relpath (env_cwd env) path (bc_download_root client) = ?rel"
    unfolding path(3) by (rule relpath_below[OF root path(1,2)])
  have dr: "bc_download_root client \<noteq> []" using root(2) by auto
  note head = join_head[OF path(1,2)]
  show "lan' = lan" if "prefix ''..'' (hd rest)"
    using that head(3) unfolding lan' start_backend_ingest_def by (simp add: Let_def rel)
  show "has_ingest_job jid lan' \<and> (\<exists>r'. row_of jid lan' = Some r' \<and> bj_state r' = ''importing'')" if nd: "\<not> prefix ''..'' (hd rest)"
  proof -
    let ?importing = "no_patch\<lparr>bp_state := Some ''importing''\<rparr>"
    obtain db where u: "update_backend_job now jid ?importing (ln_backend lan) = (Some (patch_backend_job now ?importing r), db)"
      "tfind bj_jid jid (bdb_rows db) = Some (patch_backend_job now ?importing r)"
      by (rule update_backend_hit[OF row(1) _ row(2), of ?importing]) auto
    obtain enq jobs where e: "enqueue_job now jid ''backend_completed_grab'' (ingest_payload jid ?rel job)
        (Some (ingest_key jid)) (Some ''backend_completed'') (Some ?rel) 5 3 (ln_jobs lan) = (enq, jobs)"
      by (meson surj_pair)
    from e have "\<exists>i. enq = Some i \<and> i \<noteq> 0"
    proof (cases rule: enqueue_job_cases)
      case (existing key j)
      then have "j \<in> set (jobs_rows (ln_jobs lan))" by (auto dest: active_by_dedupe_SomeD)
      with existing queue(4) show ?thesis by force
    qed (use queue in auto)
    then obtain i where i: "enq = Some i" "i \<noteq> 0" by blast
    have "lan' = lan\<lparr>ln_backend := db, ln_jobs := jobs\<rparr>"
      unfolding lan' start_backend_ingest_def using dr head nd by (simp add: Let_def rel u(1) e i)
    then show ?thesis using u(2) enqueue_ingest[OF e[unfolded i(1)]] by (simp add: has_ingest_job_def)
  qed
qed

section \<open>Properties\<close>

text \<open>(C30) A completed path that either client reports belongs to a completed job and lies, with symbolic links resolved,
  strictly below the configured download root; without a download root no path is reported.\<close>

theorem completed_path_contained:
  assumes "sab_status c http resolve jid hist = (Inr st, hist') \<and> root_dir = sc_download_root c \<or>
      qbit_status q http resolve jid qs = (Inr st, qs') \<and> root_dir = qc_download_root q"
    and "js_completed_path st = Some p"
  shows "js_state st = BCompleted \<and> path_below resolve root_dir p"
  using assms sab_status_path qbit_status_path by blast

text \<open>A server with one finished and one running job, used in the examples below.\<close>

definition demo_history :: dict where
  "demo_history = [(''history'', JObj [(''slots'', JList [JObj [(''nzo_id'', JStr ''n1''), (''status'', JStr ''Completed''),
     (''name'', JStr ''Album''), (''storage'', JStr ''/dl/Album'')]])])]"

definition demo_sab_server :: http where
  "demo_sab_server hist =
     (let mode = map_of (hq_params (hd hist)) ''mode'' in
      Some \<lparr>hr_ok = True,
        hr_json = Some (JObj (if mode = Some ''history'' then demo_history else [(''queue'', JObj [])])),
        hr_text = [], hr_set_cookie = None\<rparr>)"

definition demo_sab :: sab_client where
  "demo_sab = \<lparr>sc_api_url = ''http://sab'', sc_api_key = ''k'', sc_category = ''mm'', sc_download_root = ''/dl'',
     sc_path_map = [], sc_timeout = 30\<rparr>"

definition demo_resolve :: "pypath \<Rightarrow> pypath option" where
  "demo_resolve p = (if canonical p then Some p else None)"

lemma demo_sab_status:
  "\<exists>hist'. sab_status demo_sab demo_sab_server demo_resolve ''n1'' [] =
     (Inr \<lparr>js_backend_job_id = ''n1'', js_state = BCompleted, js_progress = 100, js_completed_path = Some ''/dl/Album'',
           js_raw_status = ''Completed'', js_display_name = Some ''Album''\<rparr>, hist')"
proof -
  have "\<not> has_token ''Completed'' SAB_FAILED_TOKENS" by code_simp
  moreover have "py_strip ''Album'' = ''Album''" by code_simp
  moreover have "contained_path demo_resolve ''/dl'' ''/dl/Album'' = Some (''/'', [''dl'', ''Album''])" by code_simp
  moreover have "path_str (''/'', [''dl'', ''Album'']) = ''/dl/Album''" by code_simp
  ultimately show ?thesis
    by (simp add: sab_status_def sab_call_def json_answer_def demo_sab_server_def demo_history_def slot_in_def
        sab_history_status_def demo_sab_def apply_path_map_def py_str_def slot_display_name_def py_or_def)
qed

theorem completed_path_contained_witness: "path_below demo_resolve ''/dl'' ''/dl/Album''"
proof -
  obtain hist' where d: "sab_status demo_sab demo_sab_server demo_resolve ''n1'' [] =
     (Inr \<lparr>js_backend_job_id = ''n1'', js_state = BCompleted, js_progress = 100, js_completed_path = Some ''/dl/Album'',
           js_raw_status = ''Completed'', js_display_name = Some ''Album''\<rparr>, hist')" using demo_sab_status by blast
  show ?thesis
    using completed_path_contained[OF disjI1[OF conjI[OF d refl]]] by (simp add: demo_sab_def)
qed

definition categorised :: "string \<Rightarrow> client_error + submitted_job \<Rightarrow> http_log \<Rightarrow> http_log \<Rightarrow> bool" where
  "categorised category res old new \<longleftrightarrow>
     (let cat = py_strip category in
      (\<forall>rq\<in>set (sent old new). is_submission rq \<longrightarrow> submission_category rq = Some cat) \<and>
      (cat = [] \<longrightarrow> new = old \<and> (\<exists>e. res = Inl e)) \<and>
      (\<forall>job. res = Inr job \<longrightarrow> sj_category job = cat \<and> (\<exists>rq\<in>set (sent old new). is_submission rq)))"

lemma categorised_refused [simp]: "categorised category (Inl e) old old"
  by (simp add: categorised_def Let_def)

lemma ensure_category_str: "ensure_category (Some category) = Inr cat \<longleftrightarrow> cat = py_strip category \<and> cat \<noteq> []"
  by (auto simp: ensure_category_iff str_or_def py_strip_def py_lstrip_def py_rstrip_def split: if_splits)

lemma categorised_sab:
  assumes "call = (res, rq # hist)" "is_submission rq" "submission_category rq = Some cat" "cat = py_strip category" "cat \<noteq> []"
  shows "categorised category (fst (and_then call (\<lambda>payload h. (submission_of msg cat payload, h)))) hist
    (snd (and_then call (\<lambda>payload h. (submission_of msg cat payload, h))))"
  using assms by (cases res) (auto simp: categorised_def Let_def dest: submission_of_category)

lemma sab_submit_categorised: "categorised (sc_category c) (fst (sab_submit c http url hist)) hist (snd (sab_submit c http url hist))"
proof (cases "ensure_category (Some (sc_category c))")
  case (Inr cat)
  let ?ps = "[(''name'', url), (''cat'', cat)]"
  obtain rq where rq: "snd (sab_call c http ''addurl'' ?ps hist) = rq # hist"
    "hq_params rq = [(''mode'', ''addurl''), (''output'', ''json''), (''apikey'', sc_api_key c)] @ ?ps"
    using sab_call_log by blast
  have "sab_call c http ''addurl'' ?ps hist = (fst (sab_call c http ''addurl'' ?ps hist), rq # hist)" using rq(1) by (metis prod.collapse)
  moreover have "is_submission rq" "submission_category rq = Some cat" using rq(2) by (simp_all add: is_submission_def submission_category_def)
  moreover have "cat = py_strip (sc_category c)" "cat \<noteq> []" using iffD1[OF ensure_category_str Inr] by blast+
  ultimately show ?thesis unfolding sab_submit_def Inr sum.case by (intro categorised_sab)
qed (simp add: sab_submit_def)

lemma sab_submit_file_categorised:
  "categorised (sc_category c) (fst (sab_submit_file c http filename data hist)) hist (snd (sab_submit_file c http filename data hist))"
proof (cases "ensure_category (Some (sc_category c))")
  case (Inr cat)
  let ?ps = "[(''cat'', cat)]"
  obtain rq where rq: "snd (sab_post_file c http filename data ?ps hist) = rq # hist"
    "hq_params rq = [(''mode'', ''addfile''), (''output'', ''json''), (''apikey'', sc_api_key c)] @ ?ps"
    using sab_post_log by blast
  have call: "sab_post_file c http filename data ?ps hist = (fst (sab_post_file c http filename data ?ps hist), rq # hist)"
    using rq(1) by (metis prod.collapse)
  have sub: "is_submission rq" "submission_category rq = Some cat" using rq(2) by (simp_all add: is_submission_def submission_category_def)
  have cat: "cat = py_strip (sc_category c)" "cat \<noteq> []" using iffD1[OF ensure_category_str Inr] by blast+
  show ?thesis
  proof (cases "data = []")
    case False
    then show ?thesis
      unfolding sab_submit_file_def Inr sum.case if_not_P[OF False] by (intro categorised_sab[OF call sub cat])
  qed (simp add: sab_submit_file_def Inr)
qed (simp add: sab_submit_file_def)

lemma is_login_no_submission: "is_login c q \<Longrightarrow> \<not> is_submission q \<and> \<not> deletes_data q"
proof -
  assume l: "is_login c q"
  have "\<not> suffix ''/api/v2/torrents/add'' (hq_url q)"
  proof
    assume "suffix ''/api/v2/torrents/add'' (hq_url q)"
    then have "last (hq_url q) = CHR ''d''" by (auto simp: suffix_def)
    moreover have "last (hq_url q) = CHR ''n''" using l by (simp add: is_login_def)
    ultimately show False by simp
  qed
  with l show ?thesis by (auto simp: is_submission_def is_login_def deletes_data_def)
qed

lemma is_info_no_submission: "is_call c ''/api/v2/torrents/info'' [(''category'', cat)] [] q \<Longrightarrow> \<not> is_submission q"
proof -
  assume l: "is_call c ''/api/v2/torrents/info'' [(''category'', cat)] [] q"
  have "\<not> suffix ''/api/v2/torrents/add'' (hq_url q)"
  proof
    assume "suffix ''/api/v2/torrents/add'' (hq_url q)"
    then have "last (hq_url q) = CHR ''d''" by (auto simp: suffix_def)
    moreover have "last (hq_url q) = CHR ''o''" using l by (simp add: is_call_def)
    ultimately show False by simp
  qed
  with l show ?thesis by (auto simp: is_submission_def is_call_def)
qed

lemma category_hashes_quiet:
  assumes "category_hashes c http cat st = (res, st')"
  shows "\<exists>lg. qs_log st' = lg @ qs_log st \<and> (\<forall>q\<in>set lg. \<not> is_submission q)"
  using category_hashes_log[OF assms] is_login_no_submission is_info_no_submission by metis

lemma add_is_submission:
  assumes "is_call c ''/api/v2/torrents/add'' [] [(''urls'', url), (''category'', cat), (''paused'', ''false'')] q"
  shows "is_submission q" "submission_category q = Some cat"
  using assms by (simp_all add: is_call_def is_submission_def submission_category_def suffix_def)

text \<open>What every step of a submission in category \<open>cat\<close> sends.\<close>

definition quiet_or_cat :: "string \<Rightarrow> http_request list \<Rightarrow> bool" where
  "quiet_or_cat cat lg \<longleftrightarrow> (\<forall>q\<in>set lg. is_submission q \<longrightarrow> submission_category q = Some cat)"

lemma qbit_submit_categorised:
  "categorised (qc_category c) (fst (qbit_submit c http url st)) (qs_log st) (qs_log (snd (qbit_submit c http url st)))"
proof (cases "ensure_category (Some (qc_category c))")
  case (Inr cat)
  have cat: "cat = py_strip (qc_category c)" "cat \<noteq> []" using iffD1[OF ensure_category_str Inr] by blast+
  let ?btih = "magnet_btih url" and ?data = "[(''urls'', url), (''category'', cat), (''paused'', ''false'')]"
  obtain res st' where eq: "qbit_submit c http url st = (res, st')" by (meson surj_pair)
  have "\<exists>lg. qs_log st' = lg @ qs_log st \<and> quiet_or_cat cat lg \<and>
    (\<forall>job. res = Inr job \<longrightarrow> sj_category job = cat \<and> (\<exists>q\<in>set lg. is_submission q))"
    using eq unfolding qbit_submit_def Inr sum.case Let_def
  proof (cases rule: and_then_cases)
    case (error e s)
    then show ?thesis using category_hashes_quiet[of c http cat st "Inl e" s] by (auto simp: quiet_or_cat_def split: if_splits)
  next
    case (result before st1)
    obtain lg1 where lg1: "qs_log st1 = lg1 @ qs_log st" "quiet_or_cat cat lg1"
      using result(1) category_hashes_quiet[of c http cat st "Inr before" st1] by (auto simp: quiet_or_cat_def split: if_splits)
    from result(2) show ?thesis
    proof (cases rule: and_then_cases)
      case (error e s)
      obtain lg2 where "qs_log s = lg2 @ qs_log st1" "quiet_or_cat cat lg2"
        using qbit_call_log[OF error(1)] add_is_submission is_login_no_submission unfolding quiet_or_cat_def by metis
      with lg1 error show ?thesis by (intro exI[of _ "lg2 @ lg1"]) (auto simp: quiet_or_cat_def)
    next
      case (result resp st2)
      obtain lg2 where lg2: "qs_log st2 = lg2 @ qs_log st1" "quiet_or_cat cat lg2" "\<exists>q\<in>set lg2. is_submission q"
        using qbit_call_log[OF result(1)] add_is_submission is_login_no_submission unfolding quiet_or_cat_def
        by (metis hd_in_set)
      show ?thesis
      proof (cases "expect_qbit_ok resp")
        case (Inl e)
        with result(2) lg1 lg2 show ?thesis by (intro exI[of _ "lg2 @ lg1"]) (auto simp: quiet_or_cat_def)
      next
        case (Inr u)
        show ?thesis
        proof (cases "truthy_str ?btih")
          case True
          with Inr result(2) lg1 lg2 show ?thesis by (intro exI[of _ "lg2 @ lg1"]) (auto simp: quiet_or_cat_def)
        next
          case False
          with Inr result(2) have "and_then (category_hashes c http cat st2) (\<lambda>after st3.
              (case filter (\<lambda>h. h \<notin> set before) after of
                 [h] \<Rightarrow> Inr \<lparr>sj_backend_job_id = h, sj_category = cat\<rparr>
               | _ \<Rightarrow> Inl (Runtime_Error ''qBit add: could not resolve a single new torrent hash''), st3)) = (res, st')"
            by simp
          then obtain r3 where r3: "category_hashes c http cat st2 = (r3, st')"
            "\<forall>job. res = Inr job \<longrightarrow> sj_category job = cat"
            by (cases rule: and_then_cases) (auto split: list.splits)
          obtain lg3 where "qs_log st' = lg3 @ qs_log st2" "\<forall>q\<in>set lg3. \<not> is_submission q"
            using category_hashes_quiet[OF r3(1)] by blast
          with lg1 lg2 r3(2) show ?thesis by (intro exI[of _ "lg3 @ lg2 @ lg1"]) (auto simp: quiet_or_cat_def)
        qed
      qed
    qed
  qed
  then show ?thesis using cat unfolding eq by (auto simp: categorised_def quiet_or_cat_def Let_def)
qed (simp add: qbit_submit_def)

text \<open>Submissions stay in the dedicated category. Whatever the server answers, a submission by either client sends
  downloads only with the configured category (stripped), reports a job only in that category and only after
  having sent one, and with an empty category fails without sending a request.\<close>

theorem submissions_categorised:
  "categorised (sc_category c) (fst (sab_submit c http url hist)) hist (snd (sab_submit c http url hist)) \<and>
   categorised (sc_category c) (fst (sab_submit_file c http filename data hist)) hist (snd (sab_submit_file c http filename data hist)) \<and>
   categorised (qc_category q) (fst (qbit_submit q http url st)) (qs_log st) (qs_log (snd (qbit_submit q http url st)))"
  using sab_submit_categorised sab_submit_file_categorised qbit_submit_categorised by blast

lemma sab_delete_log:
  "\<exists>rq. snd (sab_delete c http mode jid del hist) = rq # hist \<and>
     hq_params rq = [(''mode'', mode), (''output'', ''json''), (''apikey'', sc_api_key c), (''name'', ''delete''), (''value'', jid),
       (''del_files'', if del then ''1'' else ''0'')] \<and> hq_data rq = []"
  by (auto simp: sab_delete_def sab_call_def Let_def split: prod.splits sum.splits)

text \<open>Cancelling is data-safe and never silent. Unless deletion is requested, neither client sends a request that
  deletes downloaded data; SABnzbd is asked to drop the job from its queue and then from its history, whatever it
  answers, and qBittorrent is always sent something, at last (when it reports success) a request for exactly this
  torrent: a pause, or, under the policy \<open>remove\<close>, a removal that keeps the files.\<close>

theorem cancel_keeps_data:
  shows "filter deletes_data (sent hist (snd (sab_cancel c http jid False hist))) = [] \<and>
    map (\<lambda>rq. (map_of (hq_params rq) ''mode'', map_of (hq_params rq) ''name'', map_of (hq_params rq) ''value''))
        (sent hist (snd (sab_cancel c http jid False hist))) =
      [(Some ''history'', Some ''delete'', Some jid), (Some ''queue'', Some ''delete'', Some jid)] \<and>
    filter deletes_data (sent (qs_log st) (qs_log (snd (qbit_cancel q http jid False st)))) = [] \<and>
    sent (qs_log st) (qs_log (snd (qbit_cancel q http jid False st))) \<noteq> [] \<and>
    (case qbit_cancel q http jid False st of
       (Inl e, st') \<Rightarrow> True
     | (Inr b, st') \<Rightarrow>
         b \<and> map_of (hq_data (hd (qs_log st'))) ''hashes'' = Some (py_lower jid) \<and>
         hq_url (hd (qs_log st')) = qc_api_url q @
           (if qc_cleanup_policy q = ''remove'' then ''/api/v2/torrents/delete'' else ''/api/v2/torrents/pause''))"
proof -
  obtain rq1 where r1: "snd (sab_delete c http ''queue'' jid False hist) = rq1 # hist"
    "hq_params rq1 = [(''mode'', ''queue''), (''output'', ''json''), (''apikey'', sc_api_key c), (''name'', ''delete''), (''value'', jid),
       (''del_files'', ''0'')]" "hq_data rq1 = []"
    using sab_delete_log[of c http "''queue''" jid False hist] by auto
  obtain rq2 where r2: "snd (sab_delete c http ''history'' jid False (rq1 # hist)) = rq2 # rq1 # hist"
    "hq_params rq2 = [(''mode'', ''history''), (''output'', ''json''), (''apikey'', sc_api_key c), (''name'', ''delete''), (''value'', jid),
       (''del_files'', ''0'')]" "hq_data rq2 = []"
    using sab_delete_log[of c http "''history''" jid False "rq1 # hist"] by auto
  have sab: "snd (sab_cancel c http jid False hist) = rq2 # rq1 # hist"
    using r1(1) r2(1) by (auto simp: sab_cancel_def Let_def split: prod.splits)
  define pth where "pth = (if qc_cleanup_policy q = ''remove'' then ''/api/v2/torrents/delete'' else ''/api/v2/torrents/pause'')"
  define data where "data = [(''hashes'', py_lower jid)] @ (if qc_cleanup_policy q = ''remove'' then [(''deleteFiles'', ''false'')] else [])"
  obtain res st' where call: "qbit_call q http ''POST'' pth [] data st = (res, st')" by (meson surj_pair)
  have qb: "qbit_cancel q http jid False st = and_then (res, st') (\<lambda>_ st1. (Inr True, st1))"
    unfolding call[symmetric] by (simp add: qbit_cancel_def pth_def data_def)
  obtain lg where lg: "qs_log st' = lg @ qs_log st" "lg \<noteq> []" "\<forall>x\<in>set lg. is_login q x \<or> is_call q pth [] data x"
    "\<forall>resp. res = Inr resp \<longrightarrow> is_call q pth [] data (hd lg)"
    using qbit_call_log[OF call] by blast
  have st: "snd (qbit_cancel q http jid False st) = st'" unfolding qb by (cases res) simp_all
  have "\<not> deletes_data x" if "x \<in> set lg" for x
    using that lg(3) is_login_no_submission[of q x] by (auto simp: is_call_def deletes_data_def data_def split: if_splits)
  then have quiet: "filter deletes_data lg = []" by (simp add: filter_empty_conv)
  have last: "case qbit_cancel q http jid False st of
       (Inl e, st') \<Rightarrow> True
     | (Inr b, st') \<Rightarrow> b \<and> map_of (hq_data (hd (qs_log st'))) ''hashes'' = Some (py_lower jid) \<and> hq_url (hd (qs_log st')) = qc_api_url q @ pth"
    using lg(2,4) unfolding qb by (cases res) (auto simp: lg(1) is_call_def data_def)
  show ?thesis
    using last quiet lg(2) unfolding st sab pth_def[symmetric]
    by (simp add: lg(1) deletes_data_def r1(2,3) r2(2,3))
qed

text \<open>From a finished download to its import. Let the download root be an absolute path without symbolic links, and
  let a poll of the SABnzbd lane report a completed path. Then the path consists of the root and at least one more
  name; handing it over puts the row of the job in state importing and an active import job in the worker
  queue - except when the first of the names starts with two dots, as in a folder called after an album whose
  title begins with an ellipsis: then nothing happens, at this and at every later poll.\<close>

theorem finished_download_handed_over:
  assumes client: "backend_client_for_source True c http resolve hist src = Some client"
    and poll: "bc_status client backend_id = Some status" "st_completed_path status = Some path"
    and fs: "\<forall>p p'. resolve p = Some p' \<longrightarrow> canonical p'"
      "resolve (path_of (sc_download_root c)) = Some (path_of (sc_download_root c))" "prefix ''/'' (sc_download_root c)"
    and row: "bdb_ready (ln_backend lan)" "row_of jid lan = Some r"
    and queue: "jobs_ready (ln_jobs lan)" "jid \<noteq> []" "0 < jobs_next_id (ln_jobs lan)" "\<forall>j\<in>set (jobs_rows (ln_jobs lan)). 0 < job_id j"
    and lan': "lan' = start_backend_ingest env now jid job path client lan"
  shows "\<exists>rest. rest \<noteq> [] \<and> path = path_str (''/'', snd (path_of (sc_download_root c)) @ rest) \<and>
    (if prefix ''..'' (hd rest) then lan' = lan
     else has_ingest_job jid lan' \<and> (\<exists>r'. row_of jid lan' = Some r' \<and> bj_state r' = ''importing''))"
proof -
  have cl: "bc_download_root client = sc_download_root c"
    "bc_status client backend_id = (case fst (sab_status c http resolve backend_id hist) of Inl e \<Rightarrow> None | Inr s \<Rightarrow> Some (lane_status s))"
    using client by (auto simp: backend_client_for_source_def split: if_splits)
  obtain s where s: "fst (sab_status c http resolve backend_id hist) = Inr s" "js_completed_path s = Some path"
    using poll cl(2) by (auto simp: lane_status_def split: sum.splits)
  have "path_below resolve (sc_download_root c) path"
    using sab_status_path[of c http resolve backend_id hist s "snd (sab_status c http resolve backend_id hist)" path] s
    by (metis prod.collapse)
  then obtain cp cand where cp: "resolve cand = Some cp" "path = path_str cp" "is_relative_to cp (path_of (sc_download_root c))"
    "cp \<noteq> path_of (sc_download_root c)"
    using fs(2) by (auto simp: path_below_def)
  have can: "canonical cp" "canonical (path_of (sc_download_root c))" using fs(1) cp(1) fs(2) by blast+
  obtain rest where rest: "cp = (''/'', snd (path_of (sc_download_root c)) @ rest)"
    using cp(3) can by (cases cp) (auto simp: is_relative_to_def prefix_def canonical_def)
  have ne: "rest \<noteq> []" using cp(4) rest can(2) by (auto simp: canonical_def prod_eq_iff)
  note go = start_ingest_below[OF can(2)[folded cl(1)] fs(3)[folded cl(1)] can(1)[unfolded rest, folded cl(1)] ne
      cp(2)[unfolded rest, folded cl(1)] row queue lan']
  show ?thesis using ne rest cp(2) go by (intro exI[of _ rest]) simp
qed

theorem finished_download_handed_over_witness:
  "\<exists>path. \<exists>client. backend_client_for_source True demo_sab demo_sab_server demo_resolve [] ''sab_usenet_backend'' = Some client \<and>
     has_ingest_job ''j1'' (start_backend_ingest demo_env 5 ''j1'' demo_backend_row path client demo_lane)"
proof -
  obtain client where c: "backend_client_for_source True demo_sab demo_sab_server demo_resolve [] ''sab_usenet_backend'' = Some client"
    by (simp add: backend_client_for_source_def sab_is_enabled_def demo_sab_def)
  have poll: "bc_status client ''n1'' = Some \<lparr>st_state = ''completed'', st_progress = 100,
      st_completed_path = Some ''/dl/Album'', st_display_name = Some ''Album''\<rparr>"
    using c demo_sab_status by (auto simp: backend_client_for_source_def lane_status_def split: if_splits)
  have fs: "\<forall>p p'. demo_resolve p = Some p' \<longrightarrow> canonical p'" by (auto simp: demo_resolve_def split: if_splits)
  have root: "demo_resolve (path_of (sc_download_root demo_sab)) = Some (path_of (sc_download_root demo_sab))"
    "path_of (sc_download_root demo_sab) = (''/'', [''dl''])" "prefix ''/'' (sc_download_root demo_sab)"
    by code_simp+
  have q: "jobs_ready (ln_jobs demo_lane)" "0 < jobs_next_id (ln_jobs demo_lane)" "\<forall>j\<in>set (jobs_rows (ln_jobs demo_lane)). 0 < job_id j"
    by (simp_all add: demo_lane_def empty_jobs_db_def)
  let ?lan' = "start_backend_ingest demo_env 5 ''j1'' demo_backend_row ''/dl/Album'' client demo_lane"
  from finished_download_handed_over[OF c poll _ fs root(1,3) demo_lane_facts(2,3) q(1) _ q(2,3) refl,
      where path = "''/dl/Album''" and env = demo_env and now = 5 and job = demo_backend_row]
  obtain rest where r0: "rest \<noteq> []" "''/dl/Album'' = path_str (''/'', snd (path_of (sc_download_root demo_sab)) @ rest)"
    "\<not> prefix ''..'' (hd rest) \<Longrightarrow> has_ingest_job ''j1'' ?lan'"
    by (auto split: if_splits)
  have r: "''/dl/Album'' = path_str (''/'', ''dl'' # rest)" "rest \<noteq> []" using r0(1,2) by (simp_all add: root(2))
  have "rest \<noteq> [] \<Longrightarrow> \<not> prefix ''..'' (hd rest)"
  proof
    assume "rest \<noteq> []" "prefix ''..'' (hd rest)"
    then obtain w ws where "rest = (CHR ''.'' # w) # ws" by (cases rest) (auto simp: prefix_def)
    with r(1) show False by (cases ws) (simp_all add: path_str_def)
  qed
  with r0 c show ?thesis by auto
qed

end
