(* ===== verification/Source_Folders.thy ===== *)
theory Source_Folders
  imports Library_Evidence Cd_Toc
begin

text \<open>
  The source adapters that ingest a folder on disk: the local folder (\<open>app/adapters/local_folder.py\<close>), the
  completed folders of the download clients (\<open>app/adapters/completed_folder.py\<close>) and the completed-folder
  half of the Soulseek adapter (\<open>app/adapters/soulseek.py\<close>): validating a relative path, checking that a
  folder is complete and settled, and copying its files.

  A \<open>folder_fs\<close> is the file system at one moment; an operation that waits takes one for before and
  one for after. A Python exception is a \<open>folder_error\<close>; the text of a \<open>RuntimeError\<close> is kept, because the
  request handlers look into it. The effects of a copy are its events, oldest first.
\<close>

section \<open>The file system\<close>

datatype folder_error =
    Runtime_Failure string
  | Value_Failure
  | Os_Failure
  | Job_Cancelled

record folder_fs =
  ff_resolve :: "pypath \<Rightarrow> folder_error + pypath"
  ff_is_symlink :: "pypath \<Rightarrow> bool"
  ff_is_dir :: "pypath \<Rightarrow> bool"
  ff_is_file :: "pypath \<Rightarrow> bool"
  ff_iterdir :: "pypath \<Rightarrow> string list option"
  ff_rglob :: "pypath \<Rightarrow> pypath list"
  ff_readable :: "pypath \<Rightarrow> bool"
  ff_stat :: "pypath \<Rightarrow> (int \<times> int) option"

definition path_name :: "pypath \<Rightarrow> string" where
  "path_name p = (if snd p = [] then [] else last (snd p))"

text \<open>\<open>p.relative_to(q)\<close> for a path below \<open>q\<close>.\<close>

definition relative_parts :: "pypath \<Rightarrow> pypath \<Rightarrow> string list" where
  "relative_parts p q = drop (length (snd q)) (snd p)"

definition relative_str :: "pypath \<Rightarrow> pypath \<Rightarrow> string" where
  "relative_str p q = path_str ([], relative_parts p q)"

definition SUPPORTED_AUDIO_SUFFIXES :: "string list" where
  "SUPPORTED_AUDIO_SUFFIXES = [''.flac'', ''.m4a'']"

definition is_audio_name :: "string \<Rightarrow> bool" where
  "is_audio_name name = (py_lower (py_suffix name) \<in> set SUPPORTED_AUDIO_SUFFIXES)"

definition PARTIAL_SUFFIXES :: "string list" where
  "PARTIAL_SUFFIXES = [''.!qb'', ''.crdownload'', ''.download'', ''.incomplete'', ''.part'', ''.partial'', ''.qbt!'', ''.tmp'']"

definition PARTIAL_PATH_PARTS :: "string list" where
  "PARTIAL_PATH_PARTS = [''__admin__'', ''_unpack_'', ''_failed_'']"

definition SOULSEEK_PARTIAL_SUFFIXES :: "string list" where
  "SOULSEEK_PARTIAL_SUFFIXES = [''.part'', ''.partial'', ''.tmp'', ''.download'', ''.crdownload'', ''.incomplete'']"

definition has_suffix :: "string list \<Rightarrow> string \<Rightarrow> bool" where
  "has_suffix sufs s = (\<exists>x\<in>set sufs. suffix x s)"

section \<open>Settings\<close>

definition folder_env_bool :: "string option \<Rightarrow> bool" where
  "folder_env_bool v = (py_lower (py_strip (case v of None \<Rightarrow> ''false'' | Some s \<Rightarrow> s)) \<in> {''1'', ''true'', ''yes'', ''on''})"

definition folder_env_int :: "string option \<Rightarrow> int \<Rightarrow> int" where
  "folder_env_int raw d =
     (case raw of
        None \<Rightarrow> d
      | Some s \<Rightarrow> if py_strip s = [] then d else (case py_int s of None \<Rightarrow> d | Some n \<Rightarrow> max 0 n))"

text \<open>An adapter: its labels, its root and its limits; a limit of \<open>0\<close> bytes or \<open>0\<close> seconds switches the check off.\<close>

record folder_adapter =
  fa_name :: string
  fa_display_name :: string
  fa_root :: string
  fa_enabled :: bool
  fa_max_files :: int
  fa_max_bytes :: int
  fa_settle :: rat

definition completed_adapter_of :: "string \<Rightarrow> string \<Rightarrow> string \<Rightarrow> (string \<Rightarrow> string option) \<Rightarrow> folder_adapter" where
  "completed_adapter_of name display env_prefix env =
     \<lparr>fa_name = name, fa_display_name = display, fa_root = str_or (env (env_prefix @ ''_DOWNLOAD_ROOT'')) [],
      fa_enabled = folder_env_bool (env (env_prefix @ ''_ENABLED'')),
      fa_max_files = folder_env_int (env (env_prefix @ ''_MAX_FILES'')) 300,
      fa_max_bytes = folder_env_int (env (env_prefix @ ''_MAX_BYTES'')) 0,
      fa_settle = of_int (folder_env_int (env (env_prefix @ ''_SETTLE_SECONDS'')) 10)\<rparr>"

definition completed_is_enabled :: "folder_adapter \<Rightarrow> folder_fs \<Rightarrow> bool" where
  "completed_is_enabled a fs \<longleftrightarrow> fa_enabled a \<and> ff_is_dir fs (path_of (fa_root a))"

definition SAB_USENET :: "(string \<Rightarrow> string option) \<Rightarrow> folder_adapter" where
  "SAB_USENET = completed_adapter_of ''sab_usenet'' ''SABnzbd'' ''SAB_USENET''"

definition QBITTORRENT_TORRENT :: "(string \<Rightarrow> string option) \<Rightarrow> folder_adapter" where
  "QBITTORRENT_TORRENT = completed_adapter_of ''qbittorrent_torrent'' ''qBittorrent'' ''QBITTORRENT_TORRENT''"

definition BACKEND_COMPLETED :: "(string \<Rightarrow> string option) \<Rightarrow> folder_adapter" where
  "BACKEND_COMPLETED = completed_adapter_of ''backend_completed'' ''Mintarr backend'' ''MINTARR_SAB_BACKEND''"

section \<open>Validating a relative path\<close>

text \<open>The walk over the components: a forbidden component or a symbolic link on the way stops it.\<close>

fun walk_parts :: "folder_fs \<Rightarrow> (string \<Rightarrow> string option) \<Rightarrow> string \<Rightarrow> pypath \<Rightarrow> string list \<Rightarrow> string option" where
  "walk_parts fs forbidden rel cur [] = None"
| "walk_parts fs forbidden rel cur (p # ps) =
     (case forbidden p of
        Some message \<Rightarrow> Some message
      | None \<Rightarrow>
          let nxt = (fst cur, snd cur @ [p]) in
          if ff_is_symlink fs nxt then Some (''symlink blocked: '' @ path_str (path_of rel))
          else walk_parts fs forbidden rel nxt ps)"

definition local_resolve_source_dir :: "folder_adapter \<Rightarrow> folder_fs \<Rightarrow> string \<Rightarrow> folder_error + pypath" where
  "local_resolve_source_dir a fs rel =
     (if rel = [] \<or> path_root rel \<noteq> [] then Inl (Runtime_Failure ''local path must be relative'')
      else
        case ff_resolve fs (path_of (fa_root a)) of
          Inl e \<Rightarrow> Inl e
        | Inr base \<Rightarrow>
            (case walk_parts fs (\<lambda>p. None) rel base (path_parts rel) of
               Some message \<Rightarrow> Inl (Runtime_Failure message)
             | None \<Rightarrow>
                 (case ff_resolve fs (path_join base rel) of
                    Inl e \<Rightarrow> Inl e
                  | Inr src \<Rightarrow>
                      if \<not> is_relative_to src base then Inl (Runtime_Failure (''path traversal blocked: '' @ rel))
                      else if \<not> ff_is_dir fs src
                      then Inl (Runtime_Failure (''local source not a directory: '' @ path_str src))
                      else Inr src)))"

definition local_normalize_candidate_id :: "folder_adapter \<Rightarrow> folder_fs \<Rightarrow> string \<Rightarrow> folder_error + string" where
  "local_normalize_candidate_id a fs rel =
     (case local_resolve_source_dir a fs rel of
        Inl e \<Rightarrow> Inl e
      | Inr src \<Rightarrow>
          (case ff_resolve fs (path_of (fa_root a)) of
             Inl e \<Rightarrow> Inl e
           | Inr base \<Rightarrow> Inr (relative_str src base)))"

section \<open>A completed and settled folder\<close>

record folder_snapshot =
  sn_files :: "(string \<times> int \<times> int) list"
  sn_audio :: nat
  sn_bytes :: int
  sn_partial :: nat

definition empty_snapshot :: folder_snapshot where
  "empty_snapshot = \<lparr>sn_files = [], sn_audio = 0, sn_bytes = 0, sn_partial = 0\<rparr>"

text \<open>\<open>partial name parts\<close> tells whether a file, with its components below the folder, is unfinished.\<close>

fun snapshot_files :: "folder_fs \<Rightarrow> (string \<Rightarrow> string list \<Rightarrow> bool) \<Rightarrow> pypath \<Rightarrow> pypath \<Rightarrow> pypath list \<Rightarrow>
    folder_error + folder_snapshot" where
  "snapshot_files fs partial base src [] = Inr empty_snapshot"
| "snapshot_files fs partial base src (f # rest) =
     (if ff_is_symlink fs f then Inl (Runtime_Failure (''symlink blocked: '' @ relative_str f src))
      else if \<not> ff_is_file fs f then snapshot_files fs partial base src rest
      else
        case ff_resolve fs f of
          Inl e \<Rightarrow> Inl e
        | Inr resolved \<Rightarrow>
            if \<not> is_relative_to resolved base then Inl (Runtime_Failure (''path escape blocked: '' @ path_str f))
            else
              (case ff_stat fs f of
                 None \<Rightarrow> Inl Os_Failure
               | Some (sz, mtime) \<Rightarrow>
                   (case snapshot_files fs partial base src rest of
                      Inl e \<Rightarrow> Inl e
                    | Inr s \<Rightarrow>
                        Inr \<lparr>sn_files = (relative_str f src, sz, mtime) # sn_files s,
                             sn_audio = sn_audio s + of_bool (is_audio_name (path_name f)),
                             sn_bytes = sn_bytes s + sz,
                             sn_partial = sn_partial s + of_bool (partial (path_name f) (relative_parts f src))\<rparr>)))"

definition completed_partial :: "string \<Rightarrow> string list \<Rightarrow> bool" where
  "completed_partial name parts \<longleftrightarrow>
     has_suffix PARTIAL_SUFFIXES (py_lower name) \<or> (\<exists>p\<in>set parts. py_lower p \<in> set PARTIAL_PATH_PARTS)"

definition soulseek_partial :: "string \<Rightarrow> string list \<Rightarrow> bool" where
  "soulseek_partial name parts = has_suffix SOULSEEK_PARTIAL_SUFFIXES (py_lower name)"

definition take_snapshot :: "folder_adapter \<Rightarrow> folder_fs \<Rightarrow> (string \<Rightarrow> string list \<Rightarrow> bool) \<Rightarrow> pypath \<Rightarrow>
    folder_error + folder_snapshot" where
  "take_snapshot a fs partial src =
     (case ff_resolve fs (path_of (fa_root a)) of
        Inl e \<Rightarrow> Inl e
      | Inr base \<Rightarrow> snapshot_files fs partial base src (ff_rglob fs src))"

definition same_snapshot :: "folder_snapshot \<Rightarrow> folder_snapshot \<Rightarrow> bool" where
  "same_snapshot s t \<longleftrightarrow> set (sn_files s) = set (sn_files t) \<and> sn_audio s = sn_audio t \<and> sn_bytes s = sn_bytes t"

text \<open>\<open>_validate_completed_dir\<close>: \<open>later\<close> is the file system after the settling time.\<close>

definition validate_completed_dir :: "folder_adapter \<Rightarrow> (string \<Rightarrow> string list \<Rightarrow> bool) \<Rightarrow> string \<Rightarrow> folder_fs \<Rightarrow> folder_fs \<Rightarrow>
    pypath \<Rightarrow> folder_error + (nat \<times> nat \<times> int)" where
  "validate_completed_dir a partial marker now later src =
     (case take_snapshot a now partial src of
        Inl e \<Rightarrow> Inl e
      | Inr first \<Rightarrow>
          let count = length (sn_files first) in
          if sn_partial first > 0 then Inl (Runtime_Failure (fa_name a @ '' folder has '' @ marker))
          else if sn_audio first = 0 then Inl (Runtime_Failure (''no supported audio files found in '' @ path_str src))
          else if int count > fa_max_files a
          then Inl (Runtime_Failure (fa_name a @ '' folder has too many files: '' @ py_str_nat count @ '' > '' @ py_str_int (fa_max_files a)))
          else if fa_max_bytes a \<noteq> 0 \<and> sn_bytes first > fa_max_bytes a
          then Inl (Runtime_Failure (fa_name a @ '' folder exceeds max bytes: '' @ py_str_int (sn_bytes first) @ '' > '' @ py_str_int (fa_max_bytes a)))
          else if fa_settle a = 0 then Inr (count, sn_audio first, sn_bytes first)
          else
            (case take_snapshot a later partial src of
               Inl e \<Rightarrow> Inl e
             | Inr second \<Rightarrow>
                 if sn_partial second > 0 then Inl (Runtime_Failure (fa_name a @ '' folder has '' @ marker))
                 else if \<not> same_snapshot first second then Inl (Runtime_Failure (fa_name a @ '' folder not settled''))
                 else Inr (count, sn_audio first, sn_bytes first)))"

definition forbidden_part :: "folder_adapter \<Rightarrow> string \<Rightarrow> string option" where
  "forbidden_part a p =
     (if py_lower p \<in> set PARTIAL_PATH_PARTS then Some (fa_name a @ '' folder has partial markers'') else None)"

definition completed_resolve_source_dir :: "folder_adapter \<Rightarrow> folder_fs \<Rightarrow> folder_fs \<Rightarrow> string \<Rightarrow> bool \<Rightarrow> folder_error + pypath" where
  "completed_resolve_source_dir a now later rel check_completed =
     (if rel = [] \<or> path_root rel \<noteq> [] then Inl (Runtime_Failure (fa_name a @ '' path must be relative''))
      else
        case ff_resolve now (path_of (fa_root a)) of
          Inl e \<Rightarrow> Inl e
        | Inr base \<Rightarrow>
            (case walk_parts now (forbidden_part a) rel base (path_parts rel) of
               Some message \<Rightarrow> Inl (Runtime_Failure message)
             | None \<Rightarrow>
                 (case ff_resolve now (path_join base rel) of
                    Inl e \<Rightarrow> Inl e
                  | Inr src \<Rightarrow>
                      if \<not> is_relative_to src base then Inl (Runtime_Failure (''path traversal blocked: '' @ rel))
                      else if \<not> ff_is_dir now src
                      then Inl (Runtime_Failure (fa_name a @ '' source not a directory: '' @ path_str src))
                      else if check_completed
                      then (case validate_completed_dir a completed_partial ''partial markers'' now later src of
                              Inl e \<Rightarrow> Inl e
                            | Inr _ \<Rightarrow> Inr src)
                      else Inr src)))"

definition completed_normalize_candidate_id :: "folder_adapter \<Rightarrow> folder_fs \<Rightarrow> folder_fs \<Rightarrow> string \<Rightarrow> folder_error + string" where
  "completed_normalize_candidate_id a now later rel =
     (case completed_resolve_source_dir a now later rel True of
        Inl e \<Rightarrow> Inl e
      | Inr src \<Rightarrow>
          (case ff_resolve later (path_of (fa_root a)) of
             Inl e \<Rightarrow> Inl e
           | Inr base \<Rightarrow>
               if is_relative_to src base then Inr (relative_str src base) else Inl Value_Failure))"

definition soulseek_resolve_source_dir :: "folder_adapter \<Rightarrow> folder_fs \<Rightarrow> folder_fs \<Rightarrow> string \<Rightarrow> bool \<Rightarrow> folder_error + pypath" where
  "soulseek_resolve_source_dir a now later rel check_completed =
     (if rel = [] \<or> path_root rel \<noteq> [] then Inl (Runtime_Failure ''soulseek path must be relative'')
      else
        case ff_resolve now (path_of (fa_root a)) of
          Inl e \<Rightarrow> Inl e
        | Inr base \<Rightarrow>
            (case walk_parts now (\<lambda>p. None) rel base (path_parts rel) of
               Some message \<Rightarrow> Inl (Runtime_Failure message)
             | None \<Rightarrow>
                 (case ff_resolve now (path_join base rel) of
                    Inl e \<Rightarrow> Inl e
                  | Inr src \<Rightarrow>
                      if \<not> is_relative_to src base then Inl (Runtime_Failure (''path traversal blocked: '' @ rel))
                      else if \<not> ff_is_dir now src
                      then Inl (Runtime_Failure (''soulseek source not a directory: '' @ path_str src))
                      else if check_completed
                      then (case validate_completed_dir a soulseek_partial ''partial download markers'' now later src of
                              Inl e \<Rightarrow> Inl e
                            | Inr _ \<Rightarrow> Inr src)
                      else Inr src)))"

section \<open>Copying\<close>

datatype copy_event =
    Progress string int string "(string \<times> int) list"
  | Copied pypath pypath

record raw_download =
  rd_files_dir :: pypath
  rd_file_count :: nat
  rd_total_bytes :: int

text \<open>The copy loop. \<open>cancelled n\<close> is the answer of the \<open>n\<close>-th cancellation check; the accumulator has
  the files copied, the audio files among them and the bytes so far.\<close>

fun copy_files :: "folder_fs \<Rightarrow> (nat \<Rightarrow> bool) \<Rightarrow> pypath \<Rightarrow> pypath \<Rightarrow> pypath \<Rightarrow> nat \<Rightarrow> nat \<times> nat \<times> int \<Rightarrow> pypath list \<Rightarrow>
    (folder_error + (nat \<times> nat \<times> int)) \<times> copy_event list" where
  "copy_files fs cancelled base src raw n acc [] = (Inr acc, [])"
| "copy_files fs cancelled base src raw n acc (f # rest) =
     (if cancelled n then (Inl Job_Cancelled, [])
      else if ff_is_symlink fs f then (Inl (Runtime_Failure (''symlink blocked: '' @ relative_str f src)), [])
      else if \<not> ff_is_file fs f then copy_files fs cancelled base src raw (Suc n) acc rest
      else
        case ff_resolve fs f of
          Inl e \<Rightarrow> (Inl e, [])
        | Inr resolved \<Rightarrow>
            if \<not> is_relative_to resolved base
            then (Inl (Runtime_Failure (''path escape blocked: '' @ path_str f)), [])
            else if \<not> ff_readable fs f then (Inl Os_Failure, [])
            else
              let ev = Copied f (fst raw, snd raw @ relative_parts f src) in
              (case ff_stat fs f of
                 None \<Rightarrow> (Inl Os_Failure, [ev])
               | Some (sz, mtime) \<Rightarrow>
                   (case acc of (copied, audio, bytes) \<Rightarrow>
                      let acc' = (copied + 1, audio + of_bool (is_audio_name (path_name f)), bytes + sz);
                          (r, evs) = copy_files fs cancelled base src raw (Suc n) acc' rest in
                      (r, ev # evs))))"

definition copy_folder :: "folder_fs \<Rightarrow> (nat \<Rightarrow> bool) \<Rightarrow> string \<Rightarrow> string \<Rightarrow> pypath \<Rightarrow> pypath \<Rightarrow> pypath \<Rightarrow>
    (folder_error + raw_download) \<times> copy_event list" where
  "copy_folder fs cancelled starting done_message base src raw =
     (let (r, evs) = copy_files fs cancelled base src raw 0 (0, 0, 0) (ff_rglob fs src);
          started = Progress ''copying'' 10 starting [] # evs in
      case r of
        Inl e \<Rightarrow> (Inl e, started)
      | Inr (copied, audio, bytes) \<Rightarrow>
          if audio = 0 then (Inl (Runtime_Failure (''no supported audio files copied from '' @ path_str src)), started)
          else
            (Inr \<lparr>rd_files_dir = raw, rd_file_count = copied, rd_total_bytes = bytes\<rparr>,
             started @ [Progress ''copied'' 45 done_message
                          [(''file_count'', int copied), (''audio_files'', int audio), (''size_bytes'', bytes)]]))"

definition local_download_raw :: "folder_adapter \<Rightarrow> folder_fs \<Rightarrow> (nat \<Rightarrow> bool) \<Rightarrow> string \<Rightarrow> pypath \<Rightarrow>
    (folder_error + raw_download) \<times> copy_event list" where
  "local_download_raw a fs cancelled candidate_id raw =
     (case local_resolve_source_dir a fs candidate_id of
        Inl e \<Rightarrow> (Inl e, [])
      | Inr src \<Rightarrow>
          (case ff_resolve fs (path_of (fa_root a)) of
             Inl e \<Rightarrow> (Inl e, [])
           | Inr base \<Rightarrow> copy_folder fs cancelled ''Copying local files'' ''Local copy complete'' base src raw))"

definition completed_download_raw :: "folder_adapter \<Rightarrow> folder_fs \<Rightarrow> folder_fs \<Rightarrow> (nat \<Rightarrow> bool) \<Rightarrow> string \<Rightarrow> pypath \<Rightarrow>
    (folder_error + raw_download) \<times> copy_event list" where
  "completed_download_raw a now later cancelled candidate_id raw =
     (case completed_resolve_source_dir a now later candidate_id True of
        Inl e \<Rightarrow> (Inl e, [])
      | Inr src \<Rightarrow>
          (case ff_resolve later (path_of (fa_root a)) of
             Inl e \<Rightarrow> (Inl e, [])
           | Inr base \<Rightarrow> copy_folder later cancelled (''Copying '' @ fa_display_name a @ '' files'')
               (fa_display_name a @ '' copy complete'') base src raw))"

definition soulseek_copy_completed :: "folder_adapter \<Rightarrow> folder_fs \<Rightarrow> folder_fs \<Rightarrow> (nat \<Rightarrow> bool) \<Rightarrow> string \<Rightarrow> pypath \<Rightarrow>
    (folder_error + raw_download) \<times> copy_event list" where
  "soulseek_copy_completed a now later cancelled candidate_id raw =
     (case soulseek_resolve_source_dir a now later candidate_id True of
        Inl e \<Rightarrow> (Inl e, [])
      | Inr src \<Rightarrow>
          (case ff_resolve later (path_of (fa_root a)) of
             Inl e \<Rightarrow> (Inl e, [])
           | Inr base \<Rightarrow> copy_folder later cancelled ''Copying Soulseek files'' ''Soulseek copy complete'' base src raw))"

section \<open>Searching the local folder\<close>

record release_candidate =
  ca_source_type :: string
  ca_source_id :: string
  ca_title :: string
  ca_artist :: string
  ca_album :: string
  ca_year :: "int option"
  ca_quality_tag :: string
  ca_size_bytes :: int
  ca_download_url :: string
  ca_priority :: int

definition candidate_guid :: "release_candidate \<Rightarrow> string" where
  "candidate_guid c = ca_source_type c @ '':'' @ ca_source_id c"

definition child :: "pypath \<Rightarrow> string \<Rightarrow> pypath" where
  "child p name = (fst p, snd p @ [name])"

definition local_flac_files :: "folder_fs \<Rightarrow> pypath \<Rightarrow> string list \<Rightarrow> pypath list" where
  "local_flac_files fs dir names =
     filter (\<lambda>f. ff_is_file fs f \<and> \<not> ff_is_symlink fs f \<and> py_lower (py_suffix (path_name f)) = ''.flac'')
       (map (child dir) names)"

definition local_album_candidate :: "folder_fs \<Rightarrow> pypath \<Rightarrow> string \<Rightarrow> string \<Rightarrow> pypath \<Rightarrow> string \<Rightarrow>
    folder_error + release_candidate option" where
  "local_album_candidate fs base q_lower album_lower artist_dir album_name =
     (let album_dir = child artist_dir album_name; artist_name = path_name artist_dir in
      if ff_is_symlink fs album_dir \<or> \<not> ff_is_dir fs album_dir then Inr None
      else if album_lower \<noteq> [] \<and> \<not> py_in album_lower (py_lower album_name) then Inr None
      else if q_lower \<noteq> [] \<and> \<not> py_in q_lower (py_lower (artist_name @ '' '' @ album_name)) then Inr None
      else
        case ff_iterdir fs album_dir of
          None \<Rightarrow> Inr None
        | Some names \<Rightarrow>
            (let flacs = local_flac_files fs album_dir names in
             if flacs = [] then Inr None
             else if \<not> is_relative_to album_dir base then Inl Value_Failure
             else
               case those (map (ff_stat fs) flacs) of
                 None \<Rightarrow> Inl Os_Failure
               | Some stats \<Rightarrow>
                   (let rel = relative_str album_dir base in
                    Inr (Some \<lparr>ca_source_type = ''local'', ca_source_id = rel,
                               ca_title = artist_name @ '' - '' @ album_name @ '' (FLAC) [Local]'',
                               ca_artist = artist_name, ca_album = album_name, ca_year = None, ca_quality_tag = ''FLAC'',
                               ca_size_bytes = sum_list (map fst stats), ca_download_url = ''local:'' @ rel,
                               ca_priority = 30\<rparr>))))"

definition SEARCH_CAP :: nat where
  "SEARCH_CAP = 100"

text \<open>The two loops stop as soon as the cap is reached.\<close>

fun local_album_loop :: "folder_fs \<Rightarrow> pypath \<Rightarrow> string \<Rightarrow> string \<Rightarrow> pypath \<Rightarrow> release_candidate list \<Rightarrow> string list \<Rightarrow>
    folder_error + release_candidate list" where
  "local_album_loop fs base q album artist_dir acc [] = Inr acc"
| "local_album_loop fs base q album artist_dir acc (name # names) =
     (if length acc \<ge> SEARCH_CAP then Inr acc
      else
        case local_album_candidate fs base q album artist_dir name of
          Inl e \<Rightarrow> Inl e
        | Inr None \<Rightarrow> local_album_loop fs base q album artist_dir acc names
        | Inr (Some c) \<Rightarrow> local_album_loop fs base q album artist_dir (acc @ [c]) names)"

fun local_artist_loop :: "folder_fs \<Rightarrow> pypath \<Rightarrow> pypath \<Rightarrow> string \<Rightarrow> string \<Rightarrow> string \<Rightarrow> release_candidate list \<Rightarrow> string list \<Rightarrow>
    folder_error + release_candidate list" where
  "local_artist_loop fs ingest base q artist album acc [] = Inr acc"
| "local_artist_loop fs ingest base q artist album acc (name # names) =
     (if length acc \<ge> SEARCH_CAP then Inr acc
      else
        let dir = child ingest name in
        if ff_is_symlink fs dir \<or> \<not> ff_is_dir fs dir \<or> artist \<noteq> [] \<and> \<not> py_in artist (py_lower name)
        then local_artist_loop fs ingest base q artist album acc names
        else
          case ff_iterdir fs dir of
            None \<Rightarrow> local_artist_loop fs ingest base q artist album acc names
          | Some albums \<Rightarrow>
              (case local_album_loop fs base q album dir acc (sort albums) of
                 Inl e \<Rightarrow> Inl e
               | Inr acc' \<Rightarrow> local_artist_loop fs ingest base q artist album acc' names))"

definition local_search :: "folder_adapter \<Rightarrow> folder_fs \<Rightarrow> string option \<Rightarrow> string option \<Rightarrow> string option \<Rightarrow>
    folder_error + release_candidate list" where
  "local_search a fs query artist album =
     (let ingest = path_of (fa_root a);
          q = py_lower (str_or query []); ar = py_lower (str_or artist []); al = py_lower (str_or album []) in
      if \<not> ff_is_dir fs ingest then Inr []
      else if q = [] \<and> ar = [] \<and> al = [] then Inr []
      else
        case ff_resolve fs ingest of
          Inl e \<Rightarrow> Inl e
        | Inr base \<Rightarrow>
            (case ff_iterdir fs ingest of
               None \<Rightarrow> Inr []
             | Some artists \<Rightarrow> local_artist_loop fs ingest base q ar al [] (sort artists)))"

section \<open>Containment\<close>

text \<open>The path resolves to a place inside the configured root.\<close>

definition below_root :: "folder_fs \<Rightarrow> string \<Rightarrow> pypath \<Rightarrow> bool" where
  "below_root fs fsroot p \<longleftrightarrow>
     (case (ff_resolve fs (path_of fsroot), ff_resolve fs p) of
        (Inr base, Inr r) \<Rightarrow> is_relative_to r base
      | _ \<Rightarrow> False)"

lemma walk_parts_NoneD:
  assumes "walk_parts fs forbidden rel cur ps = None"
  shows "\<forall>k<length ps. forbidden (ps ! k) = None \<and> \<not> ff_is_symlink fs (fst cur, snd cur @ take (Suc k) ps)"
  using assms
proof (induction ps arbitrary: cur)
  case (Cons p ps)
  then have head: "forbidden p = None" "\<not> ff_is_symlink fs (fst cur, snd cur @ [p])"
    and rest: "walk_parts fs forbidden rel (fst cur, snd cur @ [p]) ps = None"
    by (auto split: option.splits if_splits simp: Let_def)
  from Cons.IH[OF rest] head show ?case by (auto simp: less_Suc_eq_0_disj)
qed simp

lemma walk_parts_NoneI:
  assumes "\<forall>k<length ps. forbidden (ps ! k) = None \<and> \<not> ff_is_symlink fs (fst cur, snd cur @ take (Suc k) ps)"
  shows "walk_parts fs forbidden rel cur ps = None"
  using assms
proof (induction ps arbitrary: cur)
  case (Cons p ps)
  from Cons.prems have head: "forbidden p = None" "\<not> ff_is_symlink fs (fst cur, snd cur @ [p])"
    by (auto dest: spec[of _ 0])
  from Cons.prems have "\<forall>k<length ps. forbidden (ps ! k) = None \<and>
      \<not> ff_is_symlink fs (fst (fst cur, snd cur @ [p]), snd (fst cur, snd cur @ [p]) @ take (Suc k) ps)"
    by (auto dest: spec[of _ "Suc _"])
  from Cons.IH[OF this] head show ?case by simp
qed simp

text \<open>What every adapter promises of the source folder it hands to the copy loop.\<close>

locale source_dir =
  fixes source :: "folder_fs \<Rightarrow> string \<Rightarrow> folder_error + pypath"
    and fsroot :: string
  assumes source_contained: "source fs rel = Inr src \<Longrightarrow> \<exists>base. ff_resolve fs (path_of fsroot) = Inr base \<and>
      is_relative_to src base \<and> ff_is_dir fs src \<and> ff_resolve fs (path_join base rel) = Inr src"
    and source_no_symlink: "source fs rel = Inr src \<Longrightarrow> ff_resolve fs (path_of fsroot) = Inr base \<Longrightarrow>
      k < length (path_parts rel) \<Longrightarrow> \<not> ff_is_symlink fs (fst base, snd base @ take (Suc k) (path_parts rel))"
    and source_relative: "source fs rel = Inr src \<Longrightarrow> rel \<noteq> [] \<and> path_root rel = []"
begin

lemma source_is_dir: "source fs rel = Inr src \<Longrightarrow> ff_is_dir fs src"
  using source_contained by blast

lemma source_below: "source fs rel = Inr src \<Longrightarrow> ff_resolve fs (path_of fsroot) = Inr base \<Longrightarrow> is_relative_to src base"
  using source_contained by fastforce

lemma source_target: "source fs rel = Inr src \<Longrightarrow> ff_resolve fs (path_of fsroot) = Inr base \<Longrightarrow>
    ff_resolve fs (path_join base rel) = Inr src"
  using source_contained by fastforce

end

lemma local_resolve_InrD:
  assumes "local_resolve_source_dir a fs rel = Inr src"
  obtains base where "rel \<noteq> []" "path_root rel = []" "ff_resolve fs (path_of (fa_root a)) = Inr base"
    "walk_parts fs (\<lambda>p. None) rel base (path_parts rel) = None" "ff_resolve fs (path_join base rel) = Inr src"
    "is_relative_to src base" "ff_is_dir fs src"
  using assms by (auto simp: local_resolve_source_dir_def split: if_splits sum.splits option.splits)

lemma completed_resolve_InrD:
  assumes "completed_resolve_source_dir a fs later rel chk = Inr src"
  obtains base where "rel \<noteq> []" "path_root rel = []" "ff_resolve fs (path_of (fa_root a)) = Inr base"
    "walk_parts fs (forbidden_part a) rel base (path_parts rel) = None" "ff_resolve fs (path_join base rel) = Inr src"
    "is_relative_to src base" "ff_is_dir fs src"
    "chk \<longrightarrow> (\<exists>r. validate_completed_dir a completed_partial ''partial markers'' fs later src = Inr r)"
  using assms by (auto simp: completed_resolve_source_dir_def split: if_splits sum.splits option.splits)

lemma soulseek_resolve_InrD:
  assumes "soulseek_resolve_source_dir a fs later rel chk = Inr src"
  obtains base where "rel \<noteq> []" "path_root rel = []" "ff_resolve fs (path_of (fa_root a)) = Inr base"
    "walk_parts fs (\<lambda>p. None) rel base (path_parts rel) = None" "ff_resolve fs (path_join base rel) = Inr src"
    "is_relative_to src base" "ff_is_dir fs src"
    "chk \<longrightarrow> (\<exists>r. validate_completed_dir a soulseek_partial ''partial download markers'' fs later src = Inr r)"
  using assms by (auto simp: soulseek_resolve_source_dir_def split: if_splits sum.splits option.splits)

interpretation local_dir: source_dir "local_resolve_source_dir a" "fa_root a"
  by unfold_locales (auto elim!: local_resolve_InrD dest: walk_parts_NoneD)

interpretation completed_dir: source_dir "\<lambda>fs rel. completed_resolve_source_dir a fs later rel chk" "fa_root a"
  by unfold_locales (auto elim!: completed_resolve_InrD dest: walk_parts_NoneD)

interpretation soulseek_dir: source_dir "\<lambda>fs rel. soulseek_resolve_source_dir a fs later rel chk" "fa_root a"
  by unfold_locales (auto elim!: soulseek_resolve_InrD dest: walk_parts_NoneD)

section \<open>What is copied\<close>

definition stat_size :: "folder_fs \<Rightarrow> pypath \<Rightarrow> int" where
  "stat_size fs f = (case ff_stat fs f of None \<Rightarrow> 0 | Some (sz, _) \<Rightarrow> sz)"

definition file_stamp :: "folder_fs \<Rightarrow> pypath \<Rightarrow> pypath \<Rightarrow> string \<times> int \<times> int" where
  "file_stamp fs src f = (relative_str f src, case ff_stat fs f of None \<Rightarrow> (0, 0) | Some st \<Rightarrow> st)"

definition copied_files :: "copy_event list \<Rightarrow> pypath list" where
  "copied_files evs = List.map_filter (\<lambda>e. case e of Copied f dst \<Rightarrow> Some f | Progress _ _ _ _ \<Rightarrow> None) evs"

definition regular_files :: "folder_fs \<Rightarrow> pypath \<Rightarrow> pypath list" where
  "regular_files fs src = filter (ff_is_file fs) (ff_rglob fs src)"

lemma copied_files_simps [simp]:
  "copied_files [] = []"
  "copied_files (Copied f dst # evs) = f # copied_files evs"
  "copied_files (Progress x n m e # evs) = copied_files evs"
  "copied_files (xs @ ys) = copied_files xs @ copied_files ys"
  by (simp_all add: copied_files_def List.map_filter_def)

lemma snapshot_files_InrD:
  assumes "snapshot_files fs partial base src lst = Inr s"
  shows "sn_files s = map (file_stamp fs src) (filter (ff_is_file fs) lst) \<and>
     sn_audio s = length (filter (\<lambda>f. is_audio_name (path_name f)) (filter (ff_is_file fs) lst)) \<and>
     sn_bytes s = sum_list (map (stat_size fs) (filter (ff_is_file fs) lst)) \<and>
     sn_partial s = length (filter (\<lambda>f. partial (path_name f) (relative_parts f src)) (filter (ff_is_file fs) lst))"
  using assms
proof (induction lst arbitrary: s)
  case (Cons f lst)
  then show ?case
    by (auto split: if_splits sum.splits option.splits simp: file_stamp_def stat_size_def)
qed (simp add: empty_snapshot_def)

lemma copy_files_copied:
  "Copied f dst \<in> set (snd (copy_files fs cancelled base src raw n acc lst)) \<Longrightarrow>
     f \<in> set lst \<and> \<not> ff_is_symlink fs f \<and> ff_is_file fs f \<and> dst = (fst raw, snd raw @ relative_parts f src) \<and>
     (\<exists>r. ff_resolve fs f = Inr r \<and> is_relative_to r base)"
proof (induction lst arbitrary: n acc)
  case (Cons g lst)
  obtain c au b where acc: "acc = (c, au, b)" by (cases acc)
  let ?P = "\<lambda>n acc. Copied f dst \<in> set (snd (copy_files fs cancelled base src raw n acc lst))"
  from Cons.prems consider (here) "f = g" "dst = (fst raw, snd raw @ relative_parts g src)" "\<not> ff_is_symlink fs g" "ff_is_file fs g"
      "\<exists>r. ff_resolve fs g = Inr r \<and> is_relative_to r base"
    | (later) n' acc' where "?P n' acc'"
    unfolding acc
    by (cases "ff_resolve fs g"; cases "ff_stat fs g")
      (auto split: if_splits simp: Let_def case_prod_unfold)
  then show ?case
  proof cases
    case here
    then show ?thesis by simp
  next
    case later
    from Cons.IH[OF later] show ?thesis by simp
  qed
qed simp

lemma copy_files_done:
  assumes "copy_files fs cancelled base src raw n (c, au, by) lst = (Inr (c', au', by'), evs)"
  shows "copied_files evs = filter (ff_is_file fs) lst \<and> c' = c + length (copied_files evs) \<and>
     au' = au + length (filter (\<lambda>f. is_audio_name (path_name f)) (copied_files evs)) \<and>
     by' = by + sum_list (map (stat_size fs) (copied_files evs))"
  using assms
proof (induction lst arbitrary: n c au "by" evs)
  case (Cons f lst)
  show ?case
  proof (cases "ff_is_file fs f")
    case False
    with Cons.prems Cons.IH[of "Suc n" c au "by" evs] show ?thesis by (auto split: if_splits)
  next
    case True
    with Cons.prems obtain sz mt evs' where st: "ff_stat fs f = Some (sz, mt)"
      and rec: "copy_files fs cancelled base src raw (Suc n)
          (c + 1, au + of_bool (is_audio_name (path_name f)), by + sz) lst = (Inr (c', au', by'), evs')"
      and evs: "evs = Copied f (fst raw, snd raw @ relative_parts f src) # evs'"
      by (auto split: if_splits sum.splits option.splits prod.splits simp: Let_def)
    from Cons.IH[OF rec] True st evs show ?thesis by (auto simp: stat_size_def)
  qed
qed simp

lemma copy_folder_copied:
  "Copied f dst \<in> set (snd (copy_folder fs cancelled m1 m2 base src raw)) \<Longrightarrow>
     f \<in> set (ff_rglob fs src) \<and> \<not> ff_is_symlink fs f \<and> ff_is_file fs f \<and>
     dst = (fst raw, snd raw @ relative_parts f src) \<and> (\<exists>r. ff_resolve fs f = Inr r \<and> is_relative_to r base)"
  using copy_files_copied[of f dst fs cancelled base src raw 0 "(0, 0, 0)" "ff_rglob fs src"]
  by (auto simp: copy_folder_def Let_def split: prod.splits sum.splits if_splits)

definition copy_is_safe :: "folder_fs \<Rightarrow> string \<Rightarrow> pypath \<Rightarrow> pypath \<Rightarrow> pypath \<Rightarrow> bool" where
  "copy_is_safe fs fsroot raw f dst \<longleftrightarrow>
     below_root fs fsroot f \<and> \<not> ff_is_symlink fs f \<and> ff_is_file fs f \<and> is_relative_to dst raw"

lemma copy_folder_safe:
  assumes "Copied f dst \<in> set (snd (copy_folder fs cancelled m1 m2 base src raw))"
    and "ff_resolve fs (path_of fsroot) = Inr base"
  shows "copy_is_safe fs fsroot raw f dst"
  using copy_folder_copied[OF assms(1)] assms(2)
  by (auto simp: copy_is_safe_def below_root_def is_relative_to_def split: sum.splits)

definition DEMO_FS :: folder_fs where
  "DEMO_FS = \<lparr>ff_resolve = Inr, ff_is_symlink = (\<lambda>p. False),
     ff_is_dir = (\<lambda>p. snd p \<in> {[''in''], [''in'', ''A''], [''in'', ''A'', ''B'']}),
     ff_is_file = (\<lambda>p. p = (''/'', [''in'', ''A'', ''B'', ''1.flac''])), ff_iterdir = (\<lambda>p. if snd p = [''in''] then Some [''A''] else if snd p = [''in'', ''A''] then Some [''B'']
                        else if snd p = [''in'', ''A'', ''B''] then Some [''1.flac''] else None),
     ff_rglob = (\<lambda>p. if snd p = [''in'', ''A'', ''B''] then [(''/'', [''in'', ''A'', ''B'', ''1.flac''])] else []),
     ff_readable = (\<lambda>p. True), ff_stat = (\<lambda>p. Some (7, 1))\<rparr>"

definition DEMO_ADAPTER :: folder_adapter where
  "DEMO_ADAPTER = \<lparr>fa_name = ''backend_completed'', fa_display_name = ''Mintarr backend'', fa_root = ''/in'', fa_enabled = True,
     fa_max_files = 300, fa_max_bytes = 0, fa_settle = 10\<rparr>"

text \<open>(C19) Every file that an adapter copies, also in a download that fails half-way, is a regular file whose
  resolved path lies inside the adapter's configured root, and is copied below the job's working folder.\<close>

theorem copies_contained:
  assumes "Copied f dst \<in> set (snd (local_download_raw a fs cancelled cid raw)) \<union>
      set (snd (completed_download_raw a now fs cancelled cid raw)) \<union>
      set (snd (soulseek_copy_completed a now fs cancelled cid raw))"
  shows "copy_is_safe fs (fa_root a) raw f dst"
  using assms
  by (auto simp: local_download_raw_def completed_download_raw_def soulseek_copy_completed_def
      intro: copy_folder_safe split: sum.splits)

lemmas demo_simps = DEMO_FS_def DEMO_ADAPTER_def path_of_def path_root_def path_parts_def path_join_def child_def
  is_relative_to_def path_name_def relative_parts_def relative_str_def path_str_def

lemma demo_copied: "completed_download_raw DEMO_ADAPTER DEMO_FS DEMO_FS (\<lambda>n. False) ''A/B'' (''/'', [''raw'']) =
    (Inr \<lparr>rd_files_dir = (''/'', [''raw'']), rd_file_count = 1, rd_total_bytes = 7\<rparr>,
     [Progress ''copying'' 10 ''Copying Mintarr backend files'' [], Copied (''/'', [''in'', ''A'', ''B'', ''1.flac'']) (''/'', [''raw'', ''1.flac'']),
      Progress ''copied'' 45 ''Mintarr backend copy complete'' [(''file_count'', 1), (''audio_files'', 1), (''size_bytes'', 7)]])"
  by code_simp

theorem copies_contained_witness:
  "copy_is_safe DEMO_FS ''/in'' (''/'', [''raw'']) (''/'', [''in'', ''A'', ''B'', ''1.flac'']) (''/'', [''raw'', ''1.flac''])"
  using copies_contained[of "(''/'', [''in'', ''A'', ''B'', ''1.flac''])" "(''/'', [''raw'', ''1.flac''])" DEMO_ADAPTER DEMO_FS
      "\<lambda>n. False" "''A/B''" "(''/'', [''raw''])" DEMO_FS] demo_copied
  by (simp add: DEMO_ADAPTER_def)

section \<open>Complete and settled folders\<close>

lemma validate_completed_dirD:
  assumes "validate_completed_dir a partial marker now later src = Inr (n, k, b)"
  obtains first base where "ff_resolve now (path_of (fa_root a)) = Inr base"
    "snapshot_files now partial base src (ff_rglob now src) = Inr first"
    "n = length (sn_files first)" "k = sn_audio first" "b = sn_bytes first" "sn_partial first = 0" "0 < k"
    "int n \<le> fa_max_files a" "fa_max_bytes a = 0 \<or> b \<le> fa_max_bytes a"
    "fa_settle a \<noteq> 0 \<Longrightarrow> \<exists>base' second. ff_resolve later (path_of (fa_root a)) = Inr base' \<and>
       snapshot_files later partial base' src (ff_rglob later src) = Inr second \<and> sn_partial second = 0 \<and>
       same_snapshot first second"
  using assms
  by (auto simp: validate_completed_dir_def take_snapshot_def Let_def not_less split: sum.splits if_splits)

lemma copy_folder_InrD:
  assumes "copy_folder fs cancelled m1 m2 base src raw = (Inr d, evs)"
  shows "copied_files evs = regular_files fs src \<and> rd_file_count d = length (copied_files evs) \<and>
     rd_total_bytes d = sum_list (map (stat_size fs) (copied_files evs)) \<and>
     (\<exists>f\<in>set (copied_files evs). is_audio_name (path_name f))"
proof -
  from assms obtain c au b evs' where
    run: "copy_files fs cancelled base src raw 0 (0, 0, 0) (ff_rglob fs src) = (Inr (c, au, b), evs')" and au: "au \<noteq> 0"
    and d: "d = \<lparr>rd_files_dir = raw, rd_file_count = c, rd_total_bytes = b\<rparr>" and evs: "copied_files evs = copied_files evs'"
    by (auto simp: copy_folder_def Let_def split: prod.splits sum.splits if_splits)
  from copy_files_done[OF run] have "copied_files evs' = regular_files fs src" "c = length (copied_files evs')"
    "au = length (filter (\<lambda>f. is_audio_name (path_name f)) (copied_files evs'))"
    "b = sum_list (map (stat_size fs) (copied_files evs'))"
    by (simp_all add: regular_files_def)
  with au d evs show ?thesis by (auto simp: filter_empty_conv)
qed

text \<open>A listing names each path once.\<close>

definition listing_ok :: "folder_fs \<Rightarrow> pypath \<Rightarrow> bool" where
  "listing_ok fs src \<longleftrightarrow> distinct (map (\<lambda>f. relative_str f src) (ff_rglob fs src))"

lemma file_stamps_distinct: "listing_ok fs src \<Longrightarrow> distinct (map (file_stamp fs src) (regular_files fs src))"
  unfolding listing_ok_def regular_files_def file_stamp_def distinct_map
  by (auto simp: inj_on_def)

lemma validated_copy:
  assumes val: "validate_completed_dir a partial marker now later src = Inr r"
    and copy: "copy_folder later cancelled m1 m2 base src raw = (Inr d, evs)"
    and settle: "fa_settle a \<noteq> 0" and ok: "listing_ok now src" "listing_ok later src"
  shows "int (rd_file_count d) \<le> fa_max_files a \<and> (fa_max_bytes a = 0 \<or> rd_total_bytes d \<le> fa_max_bytes a) \<and>
     (\<forall>f\<in>set (copied_files evs). \<not> partial (path_name f) (relative_parts f src)) \<and>
     set (map (file_stamp later src) (copied_files evs)) = set (map (file_stamp now src) (regular_files now src))"
proof -
  obtain n k b where r: "r = (n, k, b)" by (cases r)
  from validate_completed_dirD[OF val[unfolded r]] settle obtain base first base' second where
    first: "snapshot_files now partial base src (ff_rglob now src) = Inr first" and
    second: "snapshot_files later partial base' src (ff_rglob later src) = Inr second" and
    n: "n = length (sn_files first)" "int n \<le> fa_max_files a" and
    b: "b = sn_bytes first" "fa_max_bytes a = 0 \<or> b \<le> fa_max_bytes a" and
    fin: "sn_partial second = 0" and same: "same_snapshot first second" by metis
  note F = snapshot_files_InrD[OF first, folded regular_files_def]
  note S = snapshot_files_InrD[OF second, folded regular_files_def]
  note D = copy_folder_InrD[OF copy]
  from same F S have sets: "set (map (file_stamp later src) (regular_files later src)) =
      set (map (file_stamp now src) (regular_files now src))"
    by (simp add: same_snapshot_def)
  from arg_cong[OF sets, of card] have "length (regular_files later src) = length (regular_files now src)"
    using file_stamps_distinct[OF ok(1)] file_stamps_distinct[OF ok(2)] by (simp only: distinct_card length_map)
  with D F n have count: "int (rd_file_count d) \<le> fa_max_files a" by simp
  from same D S b have bytes: "fa_max_bytes a = 0 \<or> rd_total_bytes d \<le> fa_max_bytes a"
    by (simp add: same_snapshot_def)
  from fin S D have "\<forall>f\<in>set (copied_files evs). \<not> partial (path_name f) (relative_parts f src)"
    by (auto simp: filter_empty_conv)
  with count bytes sets D show ?thesis by simp
qed

text \<open>A completed folder that is ingested is exactly the one that the two snapshots saw: the copied files are
  those of the first snapshot with the same sizes and modification times, none of them is unfinished, at
  least one is audio, and the limits on the number of files and on the bytes hold of what was copied.\<close>

theorem completed_copy_settled:
  assumes "completed_download_raw a now later cancelled cid raw = (Inr d, evs)"
    and "fa_settle a \<noteq> 0" and "\<forall>src. listing_ok now src \<and> listing_ok later src"
  shows "int (rd_file_count d) \<le> fa_max_files a \<and> (fa_max_bytes a = 0 \<or> rd_total_bytes d \<le> fa_max_bytes a) \<and>
     rd_file_count d = length (copied_files evs) \<and>
     (\<exists>f\<in>set (copied_files evs). is_audio_name (path_name f)) \<and>
     (\<exists>src. completed_resolve_source_dir a now later cid True = Inr src \<and>
        (\<forall>f\<in>set (copied_files evs). \<not> completed_partial (path_name f) (relative_parts f src)) \<and>
        set (map (file_stamp later src) (copied_files evs)) = set (map (file_stamp now src) (regular_files now src)))"
proof -
  from assms(1) obtain src base where src: "completed_resolve_source_dir a now later cid True = Inr src"
    and copy: "copy_folder later cancelled (''Copying '' @ fa_display_name a @ '' files'')
        (fa_display_name a @ '' copy complete'') base src raw = (Inr d, evs)"
    by (auto simp: completed_download_raw_def split: sum.splits)
  from completed_resolve_InrD[OF src] obtain r where
    val: "validate_completed_dir a completed_partial ''partial markers'' now later src = Inr r" by metis
  from validated_copy[OF val copy assms(2)] assms(3) copy_folder_InrD[OF copy] src show ?thesis by metis
qed

theorem completed_copy_settled_witness:
  "\<exists>d evs. completed_download_raw DEMO_ADAPTER DEMO_FS DEMO_FS (\<lambda>n. False) ''A/B'' (''/'', [''raw'']) = (Inr d, evs) \<and>
     int (rd_file_count d) \<le> 300 \<and> rd_file_count d = length (copied_files evs)"
proof -
  have "\<forall>src. listing_ok DEMO_FS src \<and> listing_ok DEMO_FS src"
    by (simp add: listing_ok_def DEMO_FS_def)
  from completed_copy_settled[OF demo_copied _ this] demo_copied show ?thesis
    by (simp add: DEMO_ADAPTER_def)
qed

section \<open>Candidate ids are stable\<close>

text \<open>What \<open>Path.resolve\<close> is documented to give: an absolute path without symbolic links, which resolves to
  itself.\<close>

definition canonical_fs :: "folder_fs \<Rightarrow> bool" where
  "canonical_fs fs \<longleftrightarrow> (\<forall>p r. ff_resolve fs p = Inr r \<longrightarrow>
     ff_resolve fs r = Inr r \<and> wf_path r \<and> (\<forall>k. \<not> ff_is_symlink fs (fst r, take k (snd r))))"

lemma relative_str_path:
  assumes "wf_path src" and "is_relative_to src base"
  shows "relative_str src base \<noteq> []" "path_root (relative_str src base) = []"
    "path_parts (relative_str src base) = relative_parts src base" "path_join base (relative_str src base) = src"
proof -
  let ?r = "([], relative_parts src base) :: pypath"
  have wf: "wf_path ?r" using assms(1) by (auto simp: wf_path_def relative_parts_def dest: in_set_dropD)
  from path_roundtrip[OF wf] path_str_nonempty[OF wf]
  show 1: "relative_str src base \<noteq> []" "path_root (relative_str src base) = []"
    "path_parts (relative_str src base) = relative_parts src base"
    by (simp_all add: relative_str_def path_of_def)
  show "path_join base (relative_str src base) = src"
    using assms(2) by (auto simp: path_join_def 1 relative_parts_def is_relative_to_def prefix_def prod_eq_iff)
qed

lemma local_normalize_of_dir:
  assumes root: "ff_resolve fs (path_of (fa_root a)) = Inr base" and rel: "is_relative_to src base" and wf: "wf_path src"
    and res: "ff_resolve fs src = Inr src" and dir: "ff_is_dir fs src"
    and nosym: "\<forall>k > length (snd base). \<not> ff_is_symlink fs (fst src, take k (snd src))"
  shows "local_normalize_candidate_id a fs (relative_str src base) = Inr (relative_str src base)"
proof -
  note R = relative_str_path[OF wf rel]
  from rel have src: "snd src = snd base @ relative_parts src base" "fst src = fst base"
    by (auto simp: is_relative_to_def relative_parts_def prefix_def)
  have "walk_parts fs (\<lambda>p. None) (relative_str src base) base (relative_parts src base) = None"
  proof (rule walk_parts_NoneI, intro allI impI conjI refl)
    fix k assume "k < length (relative_parts src base)"
    have "take (length (snd base) + Suc k) (snd src) = snd base @ take (Suc k) (relative_parts src base)"
      by (subst src(1)) simp
    with nosym[rule_format, of "length (snd base) + Suc k"] src(2)
    show "\<not> ff_is_symlink fs (fst base, snd base @ take (Suc k) (relative_parts src base))" by simp
  qed
  with R rel res root dir have "local_resolve_source_dir a fs (relative_str src base) = Inr src"
    by (simp add: local_resolve_source_dir_def)
  with root show ?thesis by (simp add: local_normalize_candidate_id_def)
qed

text \<open>The id that the request handlers store is a fixed point: the worker, which validates it again before it
  copies, reaches the same folder.\<close>

theorem normalize_idempotent:
  assumes "local_normalize_candidate_id a fs rel = Inr r" and "canonical_fs fs"
  shows "local_normalize_candidate_id a fs r = Inr r \<and>
     local_resolve_source_dir a fs r = local_resolve_source_dir a fs rel"
proof -
  from assms(1) obtain src base where src: "local_resolve_source_dir a fs rel = Inr src"
    and root: "ff_resolve fs (path_of (fa_root a)) = Inr base" and r: "r = relative_str src base"
    by (auto simp: local_normalize_candidate_id_def split: sum.splits)
  from local_dir.source_below[OF src root] local_dir.source_target[OF src root] local_dir.source_is_dir[OF src]
  have rel: "is_relative_to src base" and dir: "ff_is_dir fs src" and "ff_resolve fs (path_join base rel) = Inr src"
    by simp_all
  with assms(2) have c: "ff_resolve fs src = Inr src" "wf_path src" "\<And>k. \<not> ff_is_symlink fs (fst src, take k (snd src))"
    unfolding canonical_fs_def by blast+
  have fixed: "local_normalize_candidate_id a fs r = Inr r"
    unfolding r by (rule local_normalize_of_dir[OF root rel c(2,1) dir]) (simp add: c(3))
  then obtain src' where src': "local_resolve_source_dir a fs r = Inr src'"
    by (auto simp: local_normalize_candidate_id_def split: sum.splits)
  from local_dir.source_target[OF src' root] c(1) relative_str_path(4)[OF c(2) rel] have "src' = src"
    by (simp add: r)
  with fixed src src' show ?thesis by simp
qed

definition DEMO_LINK_FS :: folder_fs where
  "DEMO_LINK_FS = DEMO_FS\<lparr>ff_resolve := (\<lambda>p. if take 1 (snd p) = [''ln''] then Inr (fst p, ''in'' # drop 1 (snd p)) else Inr p),
     ff_is_symlink := (\<lambda>p. snd p = [''ln'']), ff_is_dir := (\<lambda>p. snd p \<in> set [[''ln''], [''ln'', ''A''], [''ln'', ''A'', ''B''], [''in'', ''A'', ''B'']]),
     ff_is_file := (\<lambda>p. snd p = [''ln'', ''A'', ''B'', ''1.flac'']),
     ff_iterdir := (\<lambda>p. if snd p = [''ln''] then Some [''A''] else if snd p = [''ln'', ''A''] then Some [''B'']
                        else if snd p = [''ln'', ''A'', ''B''] then Some [''1.flac''] else None)\<rparr>"

definition DEMO_PLAIN_FS :: folder_fs where
  "DEMO_PLAIN_FS = DEMO_FS\<lparr>ff_resolve := (\<lambda>p. if wf_path p then Inr p else Inl Os_Failure)\<rparr>"

lemma demo_normalize: "local_normalize_candidate_id DEMO_ADAPTER DEMO_PLAIN_FS ''./A//B/'' = Inr ''A/B''"
  by code_simp

theorem normalize_idempotent_witness:
  "local_normalize_candidate_id DEMO_ADAPTER DEMO_PLAIN_FS ''A/B'' = Inr ''A/B''"
proof -
  have "canonical_fs DEMO_PLAIN_FS" by (auto simp: canonical_fs_def DEMO_PLAIN_FS_def DEMO_FS_def split: if_splits)
  from normalize_idempotent[OF demo_normalize this] show ?thesis by blast
qed

section \<open>The local search\<close>

definition found_in :: "folder_fs \<Rightarrow> pypath \<Rightarrow> pypath \<Rightarrow> string \<Rightarrow> string \<Rightarrow> string \<Rightarrow> release_candidate \<Rightarrow> bool" where
  "found_in fs ingest base q artist album c \<longleftrightarrow> (\<exists>dir name.
     dir = child ingest (path_name dir) \<and> \<not> ff_is_symlink fs dir \<and> ff_is_dir fs dir \<and>
     (artist = [] \<or> py_in artist (py_lower (path_name dir))) \<and>
     local_album_candidate fs base q album dir name = Inr (Some c))"

lemma local_album_loop_sound:
  assumes "local_album_loop fs base q album dir acc names = Inr r" and "length acc \<le> SEARCH_CAP"
  shows "length r \<le> SEARCH_CAP \<and>
     (\<forall>c\<in>set r. c \<in> set acc \<or> (\<exists>name. local_album_candidate fs base q album dir name = Inr (Some c)))"
  using assms
proof (induction names arbitrary: acc)
  case (Cons name names)
  show ?case
  proof (cases "length acc \<ge> SEARCH_CAP")
    case True
    with Cons.prems show ?thesis by simp
  next
    case False
    with Cons.prems(1) consider
        "local_album_candidate fs base q album dir name = Inr None" "local_album_loop fs base q album dir acc names = Inr r"
      | c where "local_album_candidate fs base q album dir name = Inr (Some c)"
          "local_album_loop fs base q album dir (acc @ [c]) names = Inr r"
      by (auto split: sum.splits option.splits)
    then show ?thesis
    proof cases
      case 1
      with Cons.IH[OF 1(2)] Cons.prems show ?thesis by blast
    next
      case 2
      with Cons.IH[OF 2(2)] False show ?thesis by auto
    qed
  qed
qed simp

lemma local_artist_loop_sound:
  assumes "local_artist_loop fs ingest base q artist album acc names = Inr r" and "length acc \<le> SEARCH_CAP"
    and "\<forall>c\<in>set acc. found_in fs ingest base q artist album c"
  shows "length r \<le> SEARCH_CAP \<and> (\<forall>c\<in>set r. found_in fs ingest base q artist album c)"
  using assms
proof (induction names arbitrary: acc)
  case (Cons name names)
  let ?dir = "child ingest name"
  have nm: "path_name ?dir = name" by (simp add: path_name_def child_def)
  from Cons.prems(1) consider "r = acc" | "local_artist_loop fs ingest base q artist album acc names = Inr r"
    | albums acc' where "\<not> ff_is_symlink fs ?dir" "ff_is_dir fs ?dir" "artist = [] \<or> py_in artist (py_lower name)"
        "local_album_loop fs base q album ?dir acc (sort albums) = Inr acc'"
        "local_artist_loop fs ingest base q artist album acc' names = Inr r"
  proof (cases "length acc \<ge> SEARCH_CAP \<or> ff_is_symlink fs ?dir \<or> \<not> ff_is_dir fs ?dir \<or>
      artist \<noteq> [] \<and> \<not> py_in artist (py_lower name) \<or> ff_iterdir fs ?dir = None")
    case True
    with Cons.prems(1) show ?thesis by (auto simp: Let_def intro: that(1,2) split: if_split_asm)
  next
    case False
    then obtain albums where "ff_iterdir fs ?dir = Some albums" by blast
    with False Cons.prems(1) show ?thesis
      by (cases "local_album_loop fs base q album ?dir acc (sort albums)") (auto simp: Let_def intro: that(3))
  qed
  then show ?case
  proof cases
    case 1
    with Cons.prems show ?thesis by simp
  next
    case 2
    from Cons.IH[OF 2 Cons.prems(2,3)] show ?thesis .
  next
    case 3
    from local_album_loop_sound[OF 3(4) Cons.prems(2)] have len: "length acc' \<le> SEARCH_CAP"
      and cs: "\<forall>c\<in>set acc'. c \<in> set acc \<or> (\<exists>n. local_album_candidate fs base q album ?dir n = Inr (Some c))" by auto
    have "\<forall>c\<in>set acc'. found_in fs ingest base q artist album c"
    proof
      fix c assume "c \<in> set acc'"
      with cs consider "c \<in> set acc" | n where "local_album_candidate fs base q album ?dir n = Inr (Some c)" by blast
      then show "found_in fs ingest base q artist album c"
      proof cases
        case 1
        with Cons.prems(3) show ?thesis by blast
      next
        case 2
        with 3(1-3) nm show ?thesis unfolding found_in_def by (intro exI[of _ ?dir] exI[of _ n]) simp
      qed
    qed
    from Cons.IH[OF 3(5) len this] show ?thesis .
  qed
qed simp

lemma local_search_found:
  assumes "local_search a fs q ar al = Inr cs" and "ff_resolve fs (path_of (fa_root a)) = Inr base"
  shows "length cs \<le> SEARCH_CAP \<and> (\<forall>c\<in>set cs. found_in fs (path_of (fa_root a)) base (py_lower (str_or q []))
     (py_lower (str_or ar [])) (py_lower (str_or al [])) c)"
  using assms local_artist_loop_sound[where acc = "[]"]
  by (fastforce simp: local_search_def Let_def split: if_splits option.splits)

lemma local_album_candidate_SomeD:
  assumes "local_album_candidate fs base q al dir name = Inr (Some c)"
  shows "ca_source_id c = relative_str (child dir name) base \<and> ca_download_url c = ''local:'' @ ca_source_id c \<and>
     ca_source_type c = ''local'' \<and> is_relative_to (child dir name) base \<and> ff_is_dir fs (child dir name) \<and>
     \<not> ff_is_symlink fs (child dir name) \<and> ca_artist c = path_name dir \<and> ca_album c = name \<and>
     (al = [] \<or> py_in al (py_lower name)) \<and> (q = [] \<or> py_in q (py_lower (path_name dir @ '' '' @ name)))"
  using assms by (auto simp: local_album_candidate_def Let_def split: if_splits option.splits)

text \<open>A root without symbolic links: it resolves to itself, and so does every directory that is reached from it
  through real directories with proper names.\<close>

definition plain_root :: "folder_fs \<Rightarrow> pypath \<Rightarrow> bool" where
  "plain_root fs base \<longleftrightarrow> ff_resolve fs base = Inr base \<and> wf_path base \<and>
     (\<forall>x y. ff_is_dir fs (child base x) \<longrightarrow> ff_is_dir fs (child (child base x) y) \<longrightarrow>
        \<not> ff_is_symlink fs (child base x) \<longrightarrow> \<not> ff_is_symlink fs (child (child base x) y) \<longrightarrow>
        ff_resolve fs (child (child base x) y) = Inr (child (child base x) y) \<and> wf_path (child (child base x) y))"

text \<open>The search reports at most a hundred albums, each matching the query, and every reported id is accepted,
  unchanged, by the validation that a grab of the candidate goes through.\<close>

theorem local_search_sound:
  assumes "local_search a fs q ar al = Inr cs" and "plain_root fs (path_of (fa_root a))"
  shows "length cs \<le> 100 \<and> (\<forall>c\<in>set cs.
     local_normalize_candidate_id a fs (ca_source_id c) = Inr (ca_source_id c) \<and>
     candidate_guid c = ca_download_url c \<and>
     py_in (py_lower (str_or ar [])) (py_lower (ca_artist c)) \<and> py_in (py_lower (str_or al [])) (py_lower (ca_album c)) \<and>
     py_in (py_lower (str_or q [])) (py_lower (ca_artist c @ '' '' @ ca_album c)))"
proof -
  let ?base = "path_of (fa_root a)"
  from assms(2) have root: "ff_resolve fs ?base = Inr ?base" by (simp add: plain_root_def)
  have empty: "py_in [] w" for w :: string by (cases w) auto
  from local_search_found[OF assms(1) root] have len: "length cs \<le> 100"
    and found: "\<forall>c\<in>set cs. found_in fs ?base ?base (py_lower (str_or q [])) (py_lower (str_or ar [])) (py_lower (str_or al [])) c"
    by (simp_all add: SEARCH_CAP_def)
  have "local_normalize_candidate_id a fs (ca_source_id c) = Inr (ca_source_id c) \<and>
     candidate_guid c = ca_download_url c \<and>
     py_in (py_lower (str_or ar [])) (py_lower (ca_artist c)) \<and> py_in (py_lower (str_or al [])) (py_lower (ca_album c)) \<and>
     py_in (py_lower (str_or q [])) (py_lower (ca_artist c @ '' '' @ ca_album c))" if "c \<in> set cs" for c
  proof -
    from found that obtain dir name where dir: "dir = child ?base (path_name dir)" "\<not> ff_is_symlink fs dir" "ff_is_dir fs dir"
        "py_lower (str_or ar []) = [] \<or> py_in (py_lower (str_or ar [])) (py_lower (path_name dir))"
      and cand: "local_album_candidate fs ?base (py_lower (str_or q [])) (py_lower (str_or al [])) dir name = Inr (Some c)"
      unfolding found_in_def by blast
    note c = local_album_candidate_SomeD[OF cand]
    let ?src = "child dir name"
    from assms(2) dir c have res: "ff_resolve fs ?src = Inr ?src" and wf: "wf_path ?src"
      unfolding plain_root_def by metis+
    obtain x where x: "dir = child ?base x" using dir(1) by blast
    have nosym: "\<forall>k>length (snd ?base). \<not> ff_is_symlink fs (fst ?src, take k (snd ?src))"
    proof (intro allI impI)
      fix k assume "length (snd ?base) < k"
      then consider "k = Suc (length (snd ?base))" | "length (snd ?src) \<le> k" unfolding x child_def by fastforce
      then show "\<not> ff_is_symlink fs (fst ?src, take k (snd ?src))"
      proof cases
        case 1
        then have "(fst ?src, take k (snd ?src)) = dir" by (simp add: x child_def)
        with dir(2) show ?thesis by simp
      next
        case 2
        with c show ?thesis by simp
      qed
    qed
    from local_normalize_of_dir[OF root _ wf res _ nosym] c
    have "local_normalize_candidate_id a fs (ca_source_id c) = Inr (ca_source_id c)" by simp
    with c dir(4) show ?thesis by (auto simp: candidate_guid_def empty)
  qed
  with len show ?thesis by blast
qed

lemma demo_search: "local_search DEMO_ADAPTER DEMO_PLAIN_FS (Some ''b'') None None =
    Inr [\<lparr>ca_source_type = ''local'', ca_source_id = ''A/B'', ca_title = ''A - B (FLAC) [Local]'', ca_artist = ''A'',
          ca_album = ''B'', ca_year = None, ca_quality_tag = ''FLAC'', ca_size_bytes = 7, ca_download_url = ''local:A/B'',
          ca_priority = 30\<rparr>]"
  by code_simp

theorem local_search_sound_witness:
  "local_normalize_candidate_id DEMO_ADAPTER DEMO_PLAIN_FS ''A/B'' = Inr ''A/B'' \<and> py_in ''b'' ''a b''"
proof -
  have base: "path_of (fa_root DEMO_ADAPTER) = (''/'', [''in''])" by code_simp
  have "plain_root DEMO_PLAIN_FS (path_of (fa_root DEMO_ADAPTER))"
    by (auto simp: base plain_root_def DEMO_PLAIN_FS_def DEMO_FS_def child_def wf_path_def)
  from local_search_sound[OF demo_search this]
  have "local_normalize_candidate_id DEMO_ADAPTER DEMO_PLAIN_FS ''A/B'' = Inr ''A/B''" by simp
  moreover have "py_in ''b'' ''a b''" by code_simp
  ultimately show ?thesis ..
qed

text \<open>When the configured root is a symbolic link (or is otherwise not the path it resolves to, nor below it), the
  search never reports an album: \<open>relative_to\<close> raises on the first match. Ids below such a root are
  accepted all the same, as the example of the witness shows.\<close>

theorem local_search_symlinked_root:
  assumes "ff_resolve fs (path_of (fa_root a)) = Inr base"
    and "\<forall>x y. \<not> is_relative_to (child (child (path_of (fa_root a)) x) y) base"
    and "local_search a fs q ar al = Inr cs"
  shows "cs = []"
proof (rule ccontr)
  assume "cs \<noteq> []"
  then obtain c where "c \<in> set cs" by (cases cs) auto
  with local_search_found[OF assms(3,1)] obtain dir name where "dir = child (path_of (fa_root a)) (path_name dir)"
    and "local_album_candidate fs base (py_lower (str_or q [])) (py_lower (str_or al [])) dir name = Inr (Some c)"
    unfolding found_in_def by blast
  with local_album_candidate_SomeD assms(2) show False by metis
qed

definition DEMO_LINK_ADAPTER :: folder_adapter where
  "DEMO_LINK_ADAPTER = DEMO_ADAPTER\<lparr>fa_root := ''/ln''\<rparr>"

theorem local_search_symlinked_root_witness:
  "local_search DEMO_LINK_ADAPTER DEMO_LINK_FS (Some ''z'') None None = Inr [] \<and>
   local_search DEMO_LINK_ADAPTER DEMO_LINK_FS (Some ''b'') None None = Inl Value_Failure \<and>
   local_normalize_candidate_id DEMO_LINK_ADAPTER DEMO_LINK_FS ''A/B'' = Inr ''A/B''"
proof -
  have base: "path_of (fa_root DEMO_LINK_ADAPTER) = (''/'', [''ln''])" by code_simp
  have 1: "ff_resolve DEMO_LINK_FS (path_of (fa_root DEMO_LINK_ADAPTER)) = Inr (''/'', [''in''])" by code_simp
  have 2: "\<forall>x y. \<not> is_relative_to (child (child (path_of (fa_root DEMO_LINK_ADAPTER)) x) y) (''/'', [''in''])"
    by (simp add: base child_def is_relative_to_def)
  have "local_search DEMO_LINK_ADAPTER DEMO_LINK_FS (Some ''b'') None None = Inl Value_Failure" by code_simp
  moreover have "local_normalize_candidate_id DEMO_LINK_ADAPTER DEMO_LINK_FS ''A/B'' = Inr ''A/B''" by code_simp
  moreover obtain cs where cs: "local_search DEMO_LINK_ADAPTER DEMO_LINK_FS (Some ''z'') None None = Inr cs"
  proof -
    have "local_search DEMO_LINK_ADAPTER DEMO_LINK_FS (Some ''z'') None None \<noteq> Inl e" for e
      by (cases e) code_simp+
    then show ?thesis using that by (cases "local_search DEMO_LINK_ADAPTER DEMO_LINK_FS (Some ''z'') None None") auto
  qed
  ultimately show ?thesis using local_search_symlinked_root[OF 1 2 cs] by simp
qed

end
