(* ===== verification/Soulseek.thy ===== *)
theory Soulseek
  imports Source_Folders Release_Family
begin

text \<open>
  The Soulseek adapter on top of slskd (\<open>app/adapters/soulseek.py\<close>): turning search responses into
  candidates with a stored download request each, reading the request back when the candidate is
  grabbed, and waiting for the files of the download to appear below the download root.

  Responses of slskd are JSON values, of which \<open>str()\<close> is taken on strings and integers only. The
  digest of a request, the HTTP client and the clock are parameters; errors are those of \<open>Source_Folders\<close>,
  with \<open>Value_Failure\<close> for every exception that is no \<open>RuntimeError\<close>. The candidate cache on disk is the
  state.
\<close>

section \<open>Settings\<close>

record slskd_adapter = folder_adapter +
  sk_search_enabled :: bool
  sk_api_url :: string
  sk_api_key :: string
  sk_search_timeout :: int
  sk_response_limit :: int
  sk_file_limit :: int
  sk_min_tracks :: int
  sk_download_timeout :: int
  sk_poll_seconds :: rat

definition soulseek_adapter_of :: "(string \<Rightarrow> string option) \<Rightarrow> slskd_adapter" where
  "soulseek_adapter_of env =
     \<lparr>fa_name = ''soulseek'', fa_display_name = ''Soulseek'', fa_root = str_or (env ''SOULSEEK_DOWNLOAD_ROOT'') [],
      fa_enabled = folder_env_bool (env ''SOULSEEK_ENABLED''),
      fa_max_files = folder_env_int (env ''SOULSEEK_MAX_FILES'') 300,
      fa_max_bytes = folder_env_int (env ''SOULSEEK_MAX_BYTES'') 0,
      fa_settle = of_int (folder_env_int (env ''SOULSEEK_SETTLE_SECONDS'') 10),
      sk_search_enabled = folder_env_bool (env ''SOULSEEK_SEARCH_ENABLED''),
      sk_api_url = rstrip_char (CHR ''/'') (str_or (env ''SLSKD_API_URL'') []),
      sk_api_key = str_or (env ''SLSKD_API_KEY'') [],
      sk_search_timeout = max 5 (folder_env_int (env ''SOULSEEK_SEARCH_TIMEOUT'') 8),
      sk_response_limit = max 1 (folder_env_int (env ''SOULSEEK_SEARCH_RESPONSE_LIMIT'') 5),
      sk_file_limit = max 1 (folder_env_int (env ''SOULSEEK_SEARCH_FILE_LIMIT'') 500),
      sk_min_tracks = max 1 (folder_env_int (env ''SOULSEEK_MIN_TRACKS'') 2),
      sk_download_timeout = max 30 (folder_env_int (env ''SOULSEEK_DOWNLOAD_TIMEOUT'') 3600),
      sk_poll_seconds = max (1 / 10) (of_int (folder_env_int (env ''SOULSEEK_POLL_SECONDS'') 5))\<rparr>"

definition slskd_is_configured :: "slskd_adapter \<Rightarrow> bool" where
  "slskd_is_configured a \<longleftrightarrow> sk_api_url a \<noteq> [] \<and> sk_api_key a \<noteq> []"

definition soulseek_search_text :: "string option \<Rightarrow> string \<Rightarrow> string \<Rightarrow> string \<Rightarrow> string" where
  "soulseek_search_text suffix_env query artist album =
     (let joined = py_join '' '' (filter (\<lambda>p. p \<noteq> []) [py_strip artist, py_strip album]);
          text = (if joined = [] then py_strip query else joined);
          suf = py_strip (case suffix_env of None \<Rightarrow> [] | Some s \<Rightarrow> s) in
      if suf \<noteq> [] \<and> \<not> py_in (py_lower suf) (py_lower text) then text @ '' '' @ suf else text)"

section \<open>Requests and the candidate cache\<close>

record slskd_file =
  sd_filename :: string
  sd_size :: int

record slskd_request =
  sr_username :: string
  sr_files :: "slskd_file list"
  sr_title :: string
  sr_search_text :: string

definition to_slashes :: "string \<Rightarrow> string" where
  "to_slashes s = map (\<lambda>c. if c = CHR 0x5C then CHR ''/'' else c) s"

definition str_blank :: "json \<Rightarrow> string" where
  "str_blank v = py_str (py_or v (JStr []))"

text \<open>\<open>int(v or 0)\<close>.\<close>

definition int_of :: "json \<Rightarrow> int option" where
  "int_of v =
     (if \<not> truthy v then Some 0
      else case v of JBool b \<Rightarrow> Some 1 | JInt n \<Rightarrow> Some n | JFloat r \<Rightarrow> Some (py_trunc r) | JStr s \<Rightarrow> py_int s | _ \<Rightarrow> None)"

definition slskd_request_payload :: "slskd_request \<Rightarrow> dict" where
  "slskd_request_payload r =
     [(''v'', JInt 1), (''u'', JStr (sr_username r)), (''t'', JStr (sr_title r)), (''q'', JStr (sr_search_text r)),
      (''f'', JList (map (\<lambda>f. JObj [(''filename'', JStr (sd_filename f)), (''size'', JInt (sd_size f))]) (sr_files r)))]"

datatype cache_file = No_File | Unreadable | Holds json

text \<open>\<open>writable\<close> tells whether the directory and the file can be written.\<close>

definition store_slskd_request :: "bool \<Rightarrow> string \<Rightarrow> dict \<Rightarrow> cache_file \<Rightarrow> cache_file" where
  "store_slskd_request writable token payload cache =
     (if \<not> writable then cache
      else case cache of
        Unreadable \<Rightarrow> Unreadable
      | No_File \<Rightarrow> Holds (JObj [(token, JObj payload)])
      | Holds v \<Rightarrow> Holds (JObj (dset token (JObj payload) (as_dict v))))"

definition load_slskd_request_payload :: "string \<Rightarrow> cache_file \<Rightarrow> dict option" where
  "load_slskd_request_payload token cache =
     (case cache of
        Holds (JObj payloads) \<Rightarrow> (case dget token payloads of JObj p \<Rightarrow> Some p | _ \<Rightarrow> None)
      | _ \<Rightarrow> None)"

definition SLSKD_PREFIX :: string where
  "SLSKD_PREFIX = ''slskd:''"

text \<open>\<open>digest\<close> gives the first 24 hexadecimal digits of the SHA-256 of the dumped payload.\<close>

definition encode_slskd_source_id :: "(dict \<Rightarrow> string) \<Rightarrow> bool \<Rightarrow> slskd_request \<Rightarrow> cache_file \<Rightarrow> string \<times> cache_file" where
  "encode_slskd_source_id digest writable r cache =
     (let payload = slskd_request_payload r; token = digest payload in
      (SLSKD_PREFIX @ token, store_slskd_request writable token payload cache))"

fun payload_files :: "json list \<Rightarrow> folder_error + slskd_file list" where
  "payload_files [] = Inr []"
| "payload_files (item # items) =
     (case item of
        JObj d \<Rightarrow>
          (let filename = py_strip (str_blank (dget ''filename'' d)) in
           case int_of (dget ''size'' d) of
             None \<Rightarrow> Inl Value_Failure
           | Some sz \<Rightarrow>
               if filename = [] \<or> \<not> is_audio_name (path_name (path_of filename))
               then Inl (Runtime_Failure ''soulseek slskd source_id has invalid file'')
               else
                 (case payload_files items of
                    Inl e \<Rightarrow> Inl e
                  | Inr fs \<Rightarrow> Inr (\<lparr>sd_filename = filename, sd_size = sz\<rparr> # fs)))
      | _ \<Rightarrow> Inl Value_Failure)"

definition is_version_one :: "json \<Rightarrow> bool" where
  "is_version_one v = (case v of JInt n \<Rightarrow> n = 1 | JBool b \<Rightarrow> b | JFloat r \<Rightarrow> r = 1 | _ \<Rightarrow> False)"

definition payload_to_slskd_request :: "slskd_adapter \<Rightarrow> dict \<Rightarrow> folder_error + slskd_request" where
  "payload_to_slskd_request a payload =
     (if \<not> is_version_one (dget ''v'' payload)
      then Inl (Runtime_Failure ''unsupported soulseek slskd source_id version'')
      else
        let username = py_strip (str_blank (dget ''u'' payload)) in
        if username = [] then Inl (Runtime_Failure ''soulseek slskd source_id missing username'')
        else
          (case (case py_or (dget ''f'' payload) (JList []) of JList xs \<Rightarrow> payload_files xs | _ \<Rightarrow> Inl Value_Failure) of
             Inl e \<Rightarrow> Inl e
           | Inr files \<Rightarrow>
               let bytes = sum_list (map sd_size files) in
               if files = [] then Inl (Runtime_Failure ''soulseek slskd source_id has no files'')
               else if int (length files) > fa_max_files a
               then Inl (Runtime_Failure (''soulseek slskd source_id has too many files: '' @ py_str_nat (length files) @
                      '' > '' @ py_str_int (fa_max_files a)))
               else if fa_max_bytes a \<noteq> 0 \<and> bytes > fa_max_bytes a
               then Inl (Runtime_Failure (''soulseek slskd source_id exceeds max bytes: '' @ py_str_int bytes @
                      '' > '' @ py_str_int (fa_max_bytes a)))
               else
                 Inr \<lparr>sr_username = username, sr_files = files,
                      sr_title = py_str (py_or (dget ''t'' payload) (JStr ''[Soulseek] slskd download'')),
                      sr_search_text = str_blank (dget ''q'' payload)\<rparr>))"

text \<open>\<open>legacy\<close> reads a token of the old form, base64 of the dumped payload; \<open>None\<close> when that raises.\<close>

definition decode_slskd_source_id :: "slskd_adapter \<Rightarrow> (string \<Rightarrow> json option) \<Rightarrow> cache_file \<Rightarrow> string \<Rightarrow>
    folder_error + slskd_request" where
  "decode_slskd_source_id a legacy cache source_id =
     (if \<not> prefix SLSKD_PREFIX source_id then Inl (Runtime_Failure ''soulseek slskd source_id must start with slskd:'')
      else
        let token = drop (length SLSKD_PREFIX) source_id in
        case load_slskd_request_payload token cache of
          Some payload \<Rightarrow> payload_to_slskd_request a payload
        | None \<Rightarrow>
            (case legacy token of
               None \<Rightarrow> Inl (Runtime_Failure ''bad soulseek slskd source_id'')
             | Some (JObj payload) \<Rightarrow> payload_to_slskd_request a payload
             | Some _ \<Rightarrow> Inl Value_Failure))"

definition soulseek_normalize_candidate_id :: "slskd_adapter \<Rightarrow> (string \<Rightarrow> json option) \<Rightarrow> cache_file \<Rightarrow> folder_fs \<Rightarrow>
    folder_fs \<Rightarrow> string \<Rightarrow> folder_error + string" where
  "soulseek_normalize_candidate_id a legacy cache now later rel =
     (if prefix SLSKD_PREFIX rel
      then (case decode_slskd_source_id a legacy cache rel of Inl e \<Rightarrow> Inl e | Inr _ \<Rightarrow> Inr rel)
      else
        case soulseek_resolve_source_dir (folder_adapter.truncate a) now later rel True of
          Inl e \<Rightarrow> Inl e
        | Inr src \<Rightarrow>
            (case ff_resolve later (path_of (fa_root a)) of
               Inl e \<Rightarrow> Inl e
             | Inr base \<Rightarrow> if is_relative_to src base then Inr (relative_str src base) else Inl Value_Failure))"

definition soulseek_title_for_candidate_id :: "slskd_adapter \<Rightarrow> (string \<Rightarrow> json option) \<Rightarrow> cache_file \<Rightarrow> string \<Rightarrow>
    folder_error + string" where
  "soulseek_title_for_candidate_id a legacy cache source_id =
     (if prefix SLSKD_PREFIX source_id
      then (case decode_slskd_source_id a legacy cache source_id of Inl e \<Rightarrow> Inl e | Inr r \<Rightarrow> Inr (sr_title r))
      else Inr (''[Soulseek] '' @ source_id))"

section \<open>Search responses\<close>

definition strip_slashes :: "string \<Rightarrow> string" where
  "strip_slashes s = rstrip_char (CHR ''/'') (lstrip_char (CHR ''/'') s)"

definition display_album :: "string \<Rightarrow> string" where
  "display_album parent =
     (let clean = strip_slashes (to_slashes parent) in
      if clean = [] then ''Download'' else last (split_char (CHR ''/'') clean))"

definition candidate_title :: "string \<Rightarrow> string \<Rightarrow> string \<Rightarrow> string" where
  "candidate_title parent artist album =
     (if artist \<noteq> [] \<and> album \<noteq> [] then artist @ '' - '' @ album
      else if artist \<noteq> [] then artist @ '' - '' @ display_album parent
      else display_album parent)"

text \<open>\<open>s.rsplit("/", 1)[0]\<close>, or the empty string when there is no slash.\<close>

definition remote_parent :: "string \<Rightarrow> string" where
  "remote_parent filename =
     (let s = to_slashes filename in
      if CHR ''/'' \<notin> set s then [] else rev (drop 1 (dropWhile (\<lambda>c. c \<noteq> CHR ''/'') (rev s))))"

definition first_digits :: "string \<Rightarrow> string" where
  "first_digits name = takeWhile py_isdigit (dropWhile (\<lambda>c. \<not> py_isdigit c) name)"

definition remote_filename_sort_key :: "string \<Rightarrow> (int \<times> string) option" where
  "remote_filename_sort_key filename =
     (let name = path_name (path_of (to_slashes filename)); digits = first_digits name in
      if digits = [] then Some (9999, py_lower name)
      else map_option (\<lambda>n. (n, py_lower name)) (py_int digits))"

text \<open>\<open>grouped.setdefault(parent, []).append(info)\<close>.\<close>

fun group_add :: "string \<Rightarrow> 'a \<Rightarrow> (string \<times> 'a list) list \<Rightarrow> (string \<times> 'a list) list" where
  "group_add k v [] = [(k, [v])]"
| "group_add k v ((k', vs) # rest) = (if k = k' then (k', vs @ [v]) # rest else (k', vs) # group_add k v rest)"

fun group_files :: "json list \<Rightarrow> (string \<times> dict list) list \<Rightarrow> folder_error + (string \<times> dict list) list" where
  "group_files [] grouped = Inr grouped"
| "group_files (info # rest) grouped =
     (case info of
        JObj d \<Rightarrow>
          (let filename = py_strip (str_blank (dget ''filename'' d)) in
           if filename = [] \<or> \<not> is_audio_name (path_name (path_of filename)) then group_files rest grouped
           else group_files rest (group_add (remote_parent filename) d grouped))
      | _ \<Rightarrow> Inl Value_Failure)"

definition sorted_files :: "dict list \<Rightarrow> dict list option" where
  "sorted_files files =
     (case those (map (\<lambda>d. remote_filename_sort_key (str_blank (dget ''filename'' d))) files) of
        None \<Rightarrow> None
      | Some keys \<Rightarrow> Some (map snd (sort_key fst (zip keys files))))"

definition raw_file :: "dict \<Rightarrow> slskd_file option" where
  "raw_file d = map_option (\<lambda>n. \<lparr>sd_filename = str_blank (dget ''filename'' d), sd_size = n\<rparr>) (int_of (dget ''size'' d))"

text \<open>One folder of one user: \<open>Inr None\<close> when it is passed over.\<close>

definition folder_request :: "slskd_adapter \<Rightarrow> string \<Rightarrow> string \<Rightarrow> string \<Rightarrow> string \<Rightarrow> string \<Rightarrow> dict list \<Rightarrow>
    folder_error + slskd_request option" where
  "folder_request a search_text artist album username parent files =
     (if int (length files) < sk_min_tracks a then Inr None
      else
        case sorted_files files of
          None \<Rightarrow> Inl Value_Failure
        | Some ordered \<Rightarrow>
            (case those (map raw_file (take (nat (fa_max_files a)) ordered)) of
               None \<Rightarrow> Inl Value_Failure
             | Some items \<Rightarrow>
                 if fa_max_bytes a \<noteq> 0 \<and> sum_list (map sd_size items) > fa_max_bytes a then Inr None
                 else Inr (Some \<lparr>sr_username = username, sr_files = items, sr_title = candidate_title parent artist album,
                                 sr_search_text = search_text\<rparr>)))"

definition slskd_quality :: "slskd_request \<Rightarrow> string" where
  "slskd_quality r =
     (if list_all (\<lambda>f. py_lower (py_suffix (path_name (path_of (sd_filename f)))) = ''.flac'') (sr_files r)
      then ''FLAC'' else ''FLAC/M4A'')"

definition slskd_candidate :: "string \<Rightarrow> string \<Rightarrow> string \<Rightarrow> int option \<Rightarrow> string \<Rightarrow> slskd_request \<Rightarrow> release_candidate" where
  "slskd_candidate source_id artist album year parent r =
     \<lparr>ca_source_type = ''soulseek'', ca_source_id = source_id,
      ca_title = sr_title r @ '' ('' @ slskd_quality r @ '') [Soulseek]'',
      ca_artist = (if artist = [] then ''Soulseek'' else artist),
      ca_album = (if album = [] then display_album parent else album), ca_year = year, ca_quality_tag = slskd_quality r,
      ca_size_bytes = sum_list (map sd_size (sr_files r)), ca_download_url = ''soulseek:'' @ source_id, ca_priority = 10\<rparr>"

text \<open>The loops over the folders of a response and over the responses, which return as soon as the limit is
  reached. The state of the loops is the candidates so far, whose ids are those already seen, and the cache.\<close>

record slskd_query =
  sq_search_text :: string
  sq_artist :: string
  sq_album :: string
  sq_year :: "int option"

fun folder_loop :: "slskd_adapter \<Rightarrow> (dict \<Rightarrow> string) \<Rightarrow> bool \<Rightarrow> slskd_query \<Rightarrow> string \<Rightarrow> (string \<times> dict list) list \<Rightarrow>
    release_candidate list \<Rightarrow> cache_file \<Rightarrow> (folder_error + release_candidate list) \<times> cache_file" where
  "folder_loop a digest writable q username [] acc cache = (Inr acc, cache)"
| "folder_loop a digest writable q username ((parent, files) # rest) acc cache =
     (if int (length acc) \<ge> sk_response_limit a then (Inr acc, cache)
      else
        case folder_request a (sq_search_text q) (sq_artist q) (sq_album q) username parent files of
          Inl e \<Rightarrow> (Inl e, cache)
        | Inr None \<Rightarrow> folder_loop a digest writable q username rest acc cache
        | Inr (Some r) \<Rightarrow>
            (let (source_id, cache') = encode_slskd_source_id digest writable r cache in
             if source_id \<in> set (map ca_source_id acc) then folder_loop a digest writable q username rest acc cache'
             else folder_loop a digest writable q username rest
                    (acc @ [slskd_candidate source_id (sq_artist q) (sq_album q) (sq_year q) parent r]) cache'))"

definition response_username :: "dict \<Rightarrow> string" where
  "response_username resp = py_strip (py_str (py_or (dget ''username'' resp) (py_or (dget ''user'' resp) (JStr []))))"

definition response_groups :: "dict \<Rightarrow> folder_error + (string \<times> dict list) list" where
  "response_groups resp =
     (case py_or (dget ''files'' resp) (JList []) of JList infos \<Rightarrow> group_files infos [] | _ \<Rightarrow> Inl Value_Failure)"

fun response_loop :: "slskd_adapter \<Rightarrow> (dict \<Rightarrow> string) \<Rightarrow> bool \<Rightarrow> slskd_query \<Rightarrow> json list \<Rightarrow>
    release_candidate list \<Rightarrow> cache_file \<Rightarrow> (folder_error + release_candidate list) \<times> cache_file" where
  "response_loop a digest writable q [] acc cache = (Inr acc, cache)"
| "response_loop a digest writable q (response # rest) acc cache =
     (if int (length acc) \<ge> sk_response_limit a then (Inr acc, cache)
      else
        case response of
          JObj resp \<Rightarrow>
            (let username = response_username resp in
             if username = [] then response_loop a digest writable q rest acc cache
             else
               case response_groups resp of
                 Inl e \<Rightarrow> (Inl e, cache)
               | Inr grouped \<Rightarrow>
                   (case folder_loop a digest writable q username grouped acc cache of
                      (Inl e, cache') \<Rightarrow> (Inl e, cache')
                    | (Inr acc', cache') \<Rightarrow> response_loop a digest writable q rest acc' cache'))
        | _ \<Rightarrow> (Inl Value_Failure, cache))"

text \<open>\<open>_wait_for_search_responses\<close>: \<open>polls\<close> are the answers of the search as long as its deadline has not
  passed (\<open>None\<close> for a request that raises), and \<open>final\<close> is the answer of the responses request.\<close>

fun poll_search :: "dict option \<Rightarrow> dict option list \<Rightarrow> folder_error + dict option" where
  "poll_search last_poll [] = Inr last_poll"
| "poll_search last_poll (None # polls) = Inl Value_Failure"
| "poll_search last_poll (Some p # polls) =
     (if truthy (dget ''isComplete'' p) \<or> truthy (dget ''responses'' p) then Inr (Some p) else poll_search (Some p) polls)"

definition wait_for_search_responses :: "dict option list \<Rightarrow> json option \<Rightarrow> folder_error + json list" where
  "wait_for_search_responses polls final =
     (case poll_search None polls of
        Inl e \<Rightarrow> Inl e
      | Inr last_poll \<Rightarrow>
          (case last_poll of
             Some p \<Rightarrow>
               if truthy (dget ''responses'' p) then Inr (as_list (dget ''responses'' p))
               else Inr (case final of None \<Rightarrow> [] | Some v \<Rightarrow> as_list v)
           | None \<Rightarrow> Inr (case final of None \<Rightarrow> [] | Some v \<Rightarrow> as_list v)))"

definition search_request :: "slskd_adapter \<Rightarrow> string \<Rightarrow> dict" where
  "search_request a search_text =
     [(''searchText'', JStr search_text), (''responseLimit'', JInt (sk_response_limit a)), (''fileLimit'', JInt (sk_file_limit a)),
      (''searchTimeout'', JInt (sk_search_timeout a * 1000)), (''minimumResponseFileCount'', JInt (sk_min_tracks a)),
      (''filterResponses'', JBool True)]"

text \<open>\<open>post\<close> answers the search request; \<open>enabled\<close> is the result of \<open>is_enabled\<close>.\<close>

definition soulseek_search :: "slskd_adapter \<Rightarrow> bool \<Rightarrow> string option \<Rightarrow> (dict \<Rightarrow> dict option) \<Rightarrow> dict option list \<Rightarrow> json option \<Rightarrow>
    (dict \<Rightarrow> string) \<Rightarrow> bool \<Rightarrow> string \<Rightarrow> string \<Rightarrow> string \<Rightarrow> int option \<Rightarrow> cache_file \<Rightarrow>
    (folder_error + release_candidate list) \<times> cache_file" where
  "soulseek_search a enabled suffix_env post polls final digest writable query artist album year cache =
     (if \<not> sk_search_enabled a \<or> \<not> enabled \<or> \<not> slskd_is_configured a then (Inr [], cache)
      else
        let text = soulseek_search_text suffix_env query artist album in
        if text = [] then (Inr [], cache)
        else
          case post (search_request a text) of
            None \<Rightarrow> (Inr [], cache)
          | Some payload \<Rightarrow>
              if \<not> truthy (dget ''id'' payload) then (Inr [], cache)
              else
                (case wait_for_search_responses polls final of
                   Inl e \<Rightarrow> (Inl e, cache)
                 | Inr responses \<Rightarrow>
                     response_loop a digest writable
                       \<lparr>sq_search_text = text, sq_artist = artist, sq_album = album, sq_year = year\<rparr> responses [] cache))"

section \<open>Waiting for the files\<close>

text \<open>\<open>fnmatch\<close> on one path component: \<open>*\<close>, \<open>?\<close>, character classes in brackets, and literal characters.
  A bracket without its closing bracket is literal.\<close>

datatype glob_item = Any_Run | Any_One | One_Of "char \<Rightarrow> bool" | Literal char

fun class_member :: "string \<Rightarrow> char \<Rightarrow> bool" where
  "class_member [] c = False"
| "class_member [x] c = (c = x)"
| "class_member [x, y] c = (c = x \<or> c = y)"
| "class_member (x # y # z # rest) c =
     (if y = CHR ''-''
      then ((of_char x :: nat) \<le> of_char c \<and> (of_char c :: nat) \<le> of_char z) \<or> class_member rest c
      else c = x \<or> class_member (y # z # rest) c)"

definition glob_class :: "string \<Rightarrow> char \<Rightarrow> bool" where
  "glob_class stuff c = (if prefix ''!'' stuff then \<not> class_member (tl stuff) c else class_member stuff c)"

text \<open>The text up to the closing bracket of a class, which is not looked for at its first position (nor right
  after an exclamation mark), and the rest.\<close>

definition class_close :: "string \<Rightarrow> (string \<times> string) option" where
  "class_close s =
     (let n = (if prefix ''!]'' s then 2 else if prefix '']'' s \<or> prefix ''!'' s then 1 else 0);
          body = takeWhile (\<lambda>c. c \<noteq> CHR '']'') (drop n s); rest = dropWhile (\<lambda>c. c \<noteq> CHR '']'') (drop n s) in
      if rest = [] then None else Some (take n s @ body, tl rest))"

lemma class_close_shorter: "class_close s = Some (u, v) \<Longrightarrow> length u + length v < length s"
proof -
  assume a: "class_close s = Some (u, v)"
  define n :: nat where "n = (if prefix ''!]'' s then 2 else if prefix '']'' s \<or> prefix ''!'' s then 1 else 0)"
  have n: "n \<le> length s" by (auto simp: n_def prefix_def)
  from a have uv: "u = take n s @ takeWhile (\<lambda>c. c \<noteq> CHR '']'') (drop n s)"
    "v = tl (dropWhile (\<lambda>c. c \<noteq> CHR '']'') (drop n s))" "dropWhile (\<lambda>c. c \<noteq> CHR '']'') (drop n s) \<noteq> []"
    by (auto simp: class_close_def Let_def n_def split: if_splits)
  have "length (takeWhile (\<lambda>c. c \<noteq> CHR '']'') (drop n s)) + length (dropWhile (\<lambda>c. c \<noteq> CHR '']'') (drop n s)) = length s - n"
    by (metis length_append length_drop takeWhile_dropWhile_id)
  with uv n show ?thesis by (cases "dropWhile (\<lambda>c. c \<noteq> CHR '']'') (drop n s)") auto
qed

function glob_items :: "string \<Rightarrow> glob_item list" where
  "glob_items [] = []"
| "glob_items (c # cs) =
     (if c = CHR ''*'' then Any_Run # glob_items cs
      else if c = CHR ''?'' then Any_One # glob_items cs
      else if c = CHR ''['' then
        (case class_close cs of
           None \<Rightarrow> Literal c # glob_items cs
         | Some (stuff, rest) \<Rightarrow> One_Of (glob_class stuff) # glob_items rest)
      else Literal c # glob_items cs)"
  by pat_completeness auto
termination
  by (relation "measure length") (auto dest: class_close_shorter)

fun glob_match :: "glob_item list \<Rightarrow> string \<Rightarrow> bool" where
  "glob_match [] s = (s = [])"
| "glob_match (Any_Run # is) [] = glob_match is []"
| "glob_match (Any_Run # is) (c # s) = (glob_match is (c # s) \<or> glob_match (Any_Run # is) s)"
| "glob_match (_ # is) [] = False"
| "glob_match (Any_One # is) (c # s) = glob_match is s"
| "glob_match (One_Of p # is) (c # s) = (p c \<and> glob_match is s)"
| "glob_match (Literal x # is) (c # s) = (x = c \<and> glob_match is s)"

definition fnmatch :: "string \<Rightarrow> string \<Rightarrow> bool" where
  "fnmatch pattern name = glob_match (glob_items pattern) name"

definition remote_basename :: "slskd_file \<Rightarrow> string" where
  "remote_basename item = path_name (path_of (to_slashes (sd_filename item)))"

text \<open>Whether a path found for an item may be taken.\<close>

definition takes_path :: "folder_fs \<Rightarrow> pypath \<Rightarrow> pypath list \<Rightarrow> pypath list \<Rightarrow> slskd_file \<Rightarrow> pypath \<Rightarrow> folder_error + bool" where
  "takes_path fs base exclude used item p =
     (if p \<in> set used then Inr False
      else
        case ff_resolve fs p of
          Inl e \<Rightarrow> Inl e
        | Inr resolved \<Rightarrow>
            if resolved \<in> set exclude then Inr False
            else if ff_is_symlink fs p \<or> \<not> ff_is_file fs p then Inr False
            else if has_suffix SOULSEEK_PARTIAL_SUFFIXES (py_lower (path_name p)) then Inr False
            else if \<not> is_relative_to resolved base then Inr False
            else if sd_size item = 0 then Inr True
            else (case ff_stat fs p of None \<Rightarrow> Inl Os_Failure | Some (sz, mtime) \<Rightarrow> Inr (sz = sd_size item)))"

fun filter_paths :: "(pypath \<Rightarrow> folder_error + bool) \<Rightarrow> pypath list \<Rightarrow> folder_error + pypath list" where
  "filter_paths f [] = Inr []"
| "filter_paths f (p # ps) =
     (case f p of
        Inl e \<Rightarrow> Inl e
      | Inr b \<Rightarrow> (case filter_paths f ps of Inl e \<Rightarrow> Inl e | Inr qs \<Rightarrow> Inr (if b then p # qs else qs)))"

definition mtime_of :: "folder_fs \<Rightarrow> pypath \<Rightarrow> int" where
  "mtime_of fs p = (case ff_stat fs p of None \<Rightarrow> 0 | Some (sz, mtime) \<Rightarrow> mtime)"

fun match_files :: "folder_fs \<Rightarrow> pypath \<Rightarrow> pypath list \<Rightarrow> slskd_file list \<Rightarrow> pypath list \<Rightarrow> folder_error + pypath list" where
  "match_files fs base exclude [] matches = Inr matches"
| "match_files fs base exclude (item # items) matches =
     (let pattern = remote_basename item in
      if py_in ''**'' pattern then Inl Value_Failure
      else
        case filter_paths (takes_path fs base exclude matches item)
               (filter (\<lambda>p. fnmatch pattern (path_name p)) (ff_rglob fs base)) of
          Inl e \<Rightarrow> Inl e
        | Inr candidates \<Rightarrow>
            if \<exists>p\<in>set candidates. ff_stat fs p = None then Inl Os_Failure
            else
              (case first_min (\<lambda>p. - mtime_of fs p) candidates of
                 None \<Rightarrow> match_files fs base exclude items matches
               | Some chosen \<Rightarrow> match_files fs base exclude items (matches @ [chosen])))"

definition matching_paths :: "slskd_adapter \<Rightarrow> folder_fs \<Rightarrow> slskd_file list \<Rightarrow> pypath list \<Rightarrow> folder_error + pypath list" where
  "matching_paths a fs files exclude =
     (case ff_resolve fs (path_of (fa_root a)) of Inl e \<Rightarrow> Inl e | Inr base \<Rightarrow> match_files fs base exclude files [])"

fun flatten_transfers :: "json \<Rightarrow> dict list" and flatten_values :: "(string \<times> json) list \<Rightarrow> dict list" and
    flatten_list :: "json list \<Rightarrow> dict list" where
  "flatten_transfers (JObj d) =
     (if ''filename'' \<in> fst ` set d \<and> ''state'' \<in> fst ` set d then [d] else flatten_values d)"
| "flatten_transfers (JList xs) = flatten_list xs"
| "flatten_transfers _ = []"
| "flatten_values [] = []"
| "flatten_values ((k, v) # d) = flatten_transfers v @ flatten_values d"
| "flatten_list [] = []"
| "flatten_list (x # xs) = flatten_transfers x @ flatten_list xs"

definition SLSKD_FAILURE_STATES :: "string list" where
  "SLSKD_FAILURE_STATES = [''Errored'', ''Rejected'', ''Cancelled'', ''TimedOut'', ''Aborted'']"

definition transfer_failure :: "slskd_request \<Rightarrow> dict \<Rightarrow> string option" where
  "transfer_failure r t =
     (let filename = str_blank (dget ''filename'' t); state = str_blank (dget ''state'' t) in
      if filename \<notin> set (map sd_filename (sr_files r)) then None
      else if \<exists>m\<in>set SLSKD_FAILURE_STATES. py_in m state then Some (path_name (path_of filename) @ '': '' @ state)
      else None)"

text \<open>\<open>downloads\<close> is the answer of slskd, \<open>None\<close> when the request raises.\<close>

definition slskd_failure_reason :: "slskd_request \<Rightarrow> json option \<Rightarrow> string" where
  "slskd_failure_reason r downloads =
     (case downloads of
        None \<Rightarrow> []
      | Some v \<Rightarrow> py_join ''; '' (List.map_filter (transfer_failure r) (flatten_transfers v)))"

text \<open>What one turn of the waiting loop observes: the clock at the loop test, the cancellation check, the file
  system, the file system after the settling time, and the transfers that slskd reports.\<close>

record slskd_poll =
  po_time :: rat
  po_cancelled :: bool
  po_fs :: folder_fs
  po_later :: folder_fs
  po_downloads :: "json option"

definition validate_paths_settled :: "slskd_adapter \<Rightarrow> folder_fs \<Rightarrow> folder_fs \<Rightarrow> pypath list \<Rightarrow> folder_error option" where
  "validate_paths_settled a now later paths =
     (if paths = [] then Some (Runtime_Failure ''no soulseek files found'')
      else if \<exists>p\<in>set paths. ff_stat now p = None then Some Os_Failure
      else if fa_settle a = 0 then None
      else if \<exists>p\<in>set paths. ff_stat later p = None then Some Os_Failure
      else if \<exists>p\<in>set paths. ff_stat later p \<noteq> ff_stat now p then Some (Runtime_Failure ''soulseek files not settled'')
      else None)"

text \<open>\<open>None\<close> when the observations run out before the loop ends; the progress reports are the events.\<close>

fun wait_for_slskd_files :: "slskd_adapter \<Rightarrow> slskd_request \<Rightarrow> pypath list \<Rightarrow> rat \<Rightarrow> string \<Rightarrow> slskd_poll list \<Rightarrow>
    ((folder_error + pypath list) \<times> copy_event list) option" where
  "wait_for_slskd_files a r baseline deadline last_failure [] = None"
| "wait_for_slskd_files a r baseline deadline last_failure (ob # obs) =
     (if po_time ob \<ge> deadline
      then Some (Inl (Runtime_Failure (''soulseek slskd download timed out'' @
                    (if last_failure = [] then [] else '': '' @ last_failure))), [])
      else if po_cancelled ob then Some (Inl Job_Cancelled, [])
      else
        case matching_paths a (po_fs ob) (sr_files r) baseline of
          Inl e \<Rightarrow> Some (Inl e, [])
        | Inr paths \<Rightarrow>
            if length paths \<ge> length (sr_files r)
            then Some (case validate_paths_settled a (po_fs ob) (po_later ob) paths of None \<Rightarrow> Inr paths | Some e \<Rightarrow> Inl e, [])
            else
              (let failure = slskd_failure_reason r (po_downloads ob);
                   report = Progress ''slskd_wait'' 20 ''Waiting for Soulseek download''
                     [(''found_files'', int (length paths)), (''expected_files'', int (length (sr_files r)))] in
               case wait_for_slskd_files a r baseline deadline (if failure = [] then last_failure else failure) obs of
                 None \<Rightarrow> None
               | Some (res, evs) \<Rightarrow> Some (res, report # evs)))"

text \<open>\<open>_copy_paths\<close>: the files are renamed to their position and their name.\<close>

fun copy_paths :: "folder_fs \<Rightarrow> (nat \<Rightarrow> bool) \<Rightarrow> pypath \<Rightarrow> nat \<Rightarrow> int \<Rightarrow> pypath list \<Rightarrow> (folder_error + int) \<times> copy_event list" where
  "copy_paths fs cancelled raw idx bytes [] = (Inr bytes, [])"
| "copy_paths fs cancelled raw idx bytes (p # ps) =
     (if cancelled idx then (Inl Job_Cancelled, [])
      else if \<not> is_audio_name (path_name p) then copy_paths fs cancelled raw (Suc idx) bytes ps
      else if \<not> ff_readable fs p then (Inl Os_Failure, [])
      else
        let ev = Copied p (child raw (zfill 2 (py_str_nat idx) @ '' '' @ path_name p)) in
        case ff_stat fs p of
          None \<Rightarrow> (Inl Os_Failure, [ev])
        | Some (sz, mtime) \<Rightarrow>
            (let (res, evs) = copy_paths fs cancelled raw (Suc idx) (bytes + sz) ps in (res, ev # evs)))"

definition slskd_copy :: "folder_fs \<Rightarrow> (nat \<Rightarrow> bool) \<Rightarrow> pypath \<Rightarrow> pypath list \<Rightarrow> (folder_error + (nat \<times> int)) \<times> copy_event list" where
  "slskd_copy fs cancelled raw paths =
     (let (res, evs) = copy_paths fs cancelled raw 1 0 paths in
      (case res of
         Inl e \<Rightarrow> Inl e
       | Inr bytes \<Rightarrow>
           if bytes = 0 then Inl (Runtime_Failure ''no supported audio files copied from slskd download'')
           else Inr (length paths, bytes), evs))"

text \<open>\<open>started\<close> is the clock when the waiting starts, \<open>queue\<close> sends the download request (user, files) and tells
  whether it was accepted.\<close>

definition download_raw_from_slskd :: "slskd_adapter \<Rightarrow> (string \<Rightarrow> json option) \<Rightarrow> cache_file \<Rightarrow> folder_fs \<Rightarrow>
    (string \<Rightarrow> slskd_file list \<Rightarrow> bool) \<Rightarrow> rat \<Rightarrow> slskd_poll list \<Rightarrow> folder_fs \<Rightarrow> (nat \<Rightarrow> bool) \<Rightarrow> string \<Rightarrow> pypath \<Rightarrow>
    ((folder_error + raw_download) \<times> copy_event list) option" where
  "download_raw_from_slskd a legacy cache now queue started polls copy_fs cancelled candidate_id raw =
     (if \<not> slskd_is_configured a then Some (Inl (Runtime_Failure ''slskd API not configured''), [])
      else
        case decode_slskd_source_id a legacy cache candidate_id of
          Inl e \<Rightarrow> Some (Inl e, [])
        | Inr r \<Rightarrow>
            (let queued = Progress ''slskd_queue'' 8 ''Queueing Soulseek download'' [(''file_count'', int (length (sr_files r)))] in
             case matching_paths a now (sr_files r) [] of
               Inl e \<Rightarrow> Some (Inl e, [queued])
             | Inr baseline \<Rightarrow>
                 if \<not> queue (sr_username r) (sr_files r) then Some (Inl Os_Failure, [queued])
                 else
                   (case wait_for_slskd_files a r baseline (started + of_int (sk_download_timeout a)) [] polls of
                      None \<Rightarrow> None
                    | Some (Inl e, evs) \<Rightarrow> Some (Inl e, queued # evs)
                    | Some (Inr paths, evs) \<Rightarrow>
                        (let copying = Progress ''copying'' 35 ''Copying Soulseek files'' [] in
                         case slskd_copy copy_fs cancelled raw paths of
                           (Inl e, cevs) \<Rightarrow> Some (Inl e, queued # evs @ copying # cevs)
                         | (Inr (copied, bytes), cevs) \<Rightarrow>
                             Some (Inr \<lparr>rd_files_dir = raw, rd_file_count = copied, rd_total_bytes = bytes\<rparr>,
                               queued # evs @ copying # cevs @
                                 [Progress ''copied'' 45 ''Soulseek copy complete''
                                    [(''file_count'', int copied), (''audio_files'', int copied), (''size_bytes'', bytes)]])))))"

section \<open>A reported candidate can be read back\<close>

lemma py_strip_trimmed:
  assumes "s = [] \<or> \<not> py_isspace_char (hd s) \<and> \<not> py_isspace_char (last s)"
  shows "py_strip s = s"
  using strip_core[of s "[]" "[]"] assms by auto

lemma py_strip_ends: "py_strip s = [] \<or> \<not> py_isspace_char (hd (py_strip s)) \<and> \<not> py_isspace_char (last (py_strip s))"
proof -
  let ?l = "dropWhile py_isspace_char s"
  let ?r = "dropWhile py_isspace_char (rev ?l)"
  have strip: "py_strip s = rev ?r" by (simp add: py_strip_def py_lstrip_def py_rstrip_def)
  show ?thesis
  proof (cases "?r = []")
    case False
    then have "\<not> py_isspace_char (hd ?r)" by (rule hd_dropWhile)
    moreover have "\<not> py_isspace_char (last ?r)"
    proof -
      from False have "?l \<noteq> []" by (metis dropWhile.simps(1) rev.simps(1))
      then have "\<not> py_isspace_char (hd ?l)" by (rule hd_dropWhile)
      moreover have "last ?r = last (rev ?l)"
        using False by (metis last_appendR takeWhile_dropWhile_id)
      ultimately show ?thesis using \<open>?l \<noteq> []\<close> by (simp add: last_rev)
    qed
    ultimately show ?thesis using False by (simp add: strip hd_rev last_rev)
  qed (simp add: strip)
qed

lemma py_strip_idem [simp]: "py_strip (py_strip s) = py_strip s"
  by (rule py_strip_trimmed) (rule py_strip_ends)

lemma last_split_char: "s \<noteq> [] \<Longrightarrow> last s \<noteq> c \<Longrightarrow> last (split_char c s) \<noteq> []"
proof (induction s)
  case (Cons x xs)
  show ?case
  proof (cases "xs = []")
    case False
    with Cons have "last (split_char c xs) \<noteq> []" by simp
    then show ?thesis by (cases "split_char c xs") auto
  qed (use Cons.prems in auto)
qed simp

lemma display_album_nonempty [simp]: "display_album parent \<noteq> []"
proof -
  let ?l = "lstrip_char (CHR ''/'') (to_slashes parent)"
  let ?r = "dropWhile (\<lambda>x. x = CHR ''/'') (rev ?l)"
  have "?r \<noteq> [] \<Longrightarrow> hd ?r \<noteq> CHR ''/''" using hd_dropWhile[of "\<lambda>x. x = CHR ''/''" "rev ?l"] by simp
  then have "last (strip_slashes (to_slashes parent)) \<noteq> CHR ''/''" if "strip_slashes (to_slashes parent) \<noteq> []"
    using that by (simp add: strip_slashes_def rstrip_char_def last_rev)
  then show ?thesis by (simp add: display_album_def Let_def last_split_char)
qed

lemma candidate_title_nonempty [simp]: "candidate_title parent artist album \<noteq> []"
  by (simp add: candidate_title_def)

lemma str_blank_JStr [simp]: "str_blank (JStr s) = s"
  by (simp add: str_blank_def py_or_def py_str_def)

lemma int_of_JInt [simp]: "int_of (JInt n) = Some n"
  by (simp add: int_of_def)

text \<open>A file name that the search accepts.\<close>

definition good_name :: "string \<Rightarrow> bool" where
  "good_name filename \<longleftrightarrow> py_strip filename \<noteq> [] \<and> is_audio_name (path_name (path_of (py_strip filename)))"

definition strip_file :: "slskd_file \<Rightarrow> slskd_file" where
  "strip_file f = f\<lparr>sd_filename := py_strip (sd_filename f)\<rparr>"

definition good_request :: "slskd_adapter \<Rightarrow> slskd_request \<Rightarrow> bool" where
  "good_request a r \<longleftrightarrow> py_strip (sr_username r) = sr_username r \<and> sr_username r \<noteq> [] \<and> sr_title r \<noteq> [] \<and>
     (\<forall>f\<in>set (sr_files r). good_name (sd_filename f)) \<and> (sr_files r = [] \<longleftrightarrow> fa_max_files a = 0) \<and>
     int (length (sr_files r)) \<le> fa_max_files a \<and>
     (fa_max_bytes a = 0 \<or> sum_list (map sd_size (sr_files r)) \<le> fa_max_bytes a)"

lemma payload_files_of:
  assumes "\<forall>f\<in>set files. good_name (sd_filename f)"
  shows "payload_files (map (\<lambda>f. JObj [(''filename'', JStr (sd_filename f)), (''size'', JInt (sd_size f))]) files) =
    Inr (map strip_file files)"
  using assms by (induction files) (auto simp: good_name_def strip_file_def Let_def)

lemma sum_sizes_strip [simp]: "sum_list (map (sd_size \<circ> strip_file) files) = sum_list (map sd_size files)"
  by (rule arg_cong[where f = sum_list]) (simp add: strip_file_def)

text \<open>What reading a stored request of a search gives: the request with stripped names, or, when the configured number
  of files is zero, the error of an empty list.\<close>

definition read_back :: "slskd_adapter \<Rightarrow> slskd_request \<Rightarrow> folder_error + slskd_request" where
  "read_back a r = (if fa_max_files a = 0 then Inl (Runtime_Failure ''soulseek slskd source_id has no files'')
     else Inr (r\<lparr>sr_files := map strip_file (sr_files r)\<rparr>))"

lemma request_roundtrip:
  assumes "good_request a r"
  shows "payload_to_slskd_request a (slskd_request_payload r) = read_back a r"
  using assms payload_files_of[of "sr_files r"]
  by (cases r) (auto simp: read_back_def good_request_def payload_to_slskd_request_def slskd_request_payload_def is_version_one_def
      py_or_def py_str_def str_blank_def Let_def)

text \<open>Reading the store back.\<close>

definition cached :: "cache_file \<Rightarrow> (dict \<Rightarrow> string) \<Rightarrow> slskd_request \<Rightarrow> bool" where
  "cached cache digest r \<longleftrightarrow> load_slskd_request_payload (digest (slskd_request_payload r)) cache = Some (slskd_request_payload r)"

lemma cached_decode:
  assumes "cached cache digest r" and "good_request a r"
  shows "decode_slskd_source_id a legacy cache (SLSKD_PREFIX @ digest (slskd_request_payload r)) =
    read_back a r"
  using assms request_roundtrip[OF assms(2)] by (simp add: cached_def decode_slskd_source_id_def)

lemma store_cached:
  assumes "cache \<noteq> Unreadable"
  shows "cached (store_slskd_request True (digest (slskd_request_payload r)) (slskd_request_payload r) cache) digest r"
    and "store_slskd_request True (digest (slskd_request_payload r)) (slskd_request_payload r) cache \<noteq> Unreadable"
  using assms by (cases cache; simp add: cached_def store_slskd_request_def load_slskd_request_payload_def)+

lemma store_keeps_cached:
  assumes "cached cache digest r" and "inj_on digest ps" and "p \<in> ps" and "slskd_request_payload r \<in> ps"
  shows "cached (store_slskd_request True (digest p) p cache) digest r"
proof (cases "digest p = digest (slskd_request_payload r)")
  case True
  with assms(2-4) have "p = slskd_request_payload r" by (auto dest: inj_onD)
  moreover have "cache \<noteq> Unreadable" using assms(1) by (auto simp: cached_def load_slskd_request_payload_def)
  ultimately show ?thesis using store_cached(1) by simp
next
  case False
  with assms(1) show ?thesis
    by (auto simp: cached_def store_slskd_request_def load_slskd_request_payload_def split: cache_file.splits json.splits)
qed

definition good_groups :: "(string \<times> dict list) list \<Rightarrow> bool" where
  "good_groups g \<longleftrightarrow> (\<forall>(parent, files)\<in>set g. \<forall>d\<in>set files. good_name (str_blank (dget ''filename'' d)))"

lemma good_groups_add:
  assumes "good_groups g" and "good_name (str_blank (dget ''filename'' d))"
  shows "good_groups (group_add k d g)"
  using assms
proof (induction g)
  case (Cons kv g)
  obtain k' vs where kv: "kv = (k', vs)" by (cases kv)
  from Cons.prems have "good_groups g" "\<forall>d\<in>set vs. good_name (str_blank (dget ''filename'' d))"
    by (auto simp: good_groups_def kv)
  with Cons.IH Cons.prems(2) show ?case by (auto simp: good_groups_def kv)
qed (simp add: good_groups_def)

lemma group_files_good:
  assumes "group_files infos g = Inr g'" and "good_groups g"
  shows "good_groups g'"
  using assms
proof (induction infos arbitrary: g)
  case (Cons info infos)
  then show ?case
    by (cases info)
      (auto simp: Let_def good_name_def intro!: Cons.IH good_groups_add split: if_splits)
qed simp

lemma sorted_files_set:
  assumes "sorted_files files = Some ordered"
  shows "set ordered = set files" "length ordered = length files"
proof -
  from assms obtain keys where
    those: "those (map (\<lambda>d. remote_filename_sort_key (str_blank (dget ''filename'' d))) files) = Some keys"
    and ord: "ordered = map snd (sort_key fst (zip keys files))"
    by (auto simp: sorted_files_def split: option.splits)
  from those have keys: "length keys = length files" unfolding those_Some by (metis length_map)
  with ord show "set ordered = set files" by (metis list.set_map map_snd_zip set_sort)
  show "length ordered = length files" using keys by (simp add: ord)
qed

text \<open>Limits that the settings guarantee. The number of files of a candidate may be configured to be zero.\<close>

definition wf_adapter :: "slskd_adapter \<Rightarrow> bool" where
  "wf_adapter a \<longleftrightarrow> 1 \<le> sk_min_tracks a \<and> 1 \<le> sk_response_limit a \<and> 0 \<le> fa_max_files a"

lemma folder_env_int_nonneg: "0 \<le> d \<Longrightarrow> 0 \<le> folder_env_int raw d"
  by (auto simp: folder_env_int_def split: option.split)

lemma soulseek_adapter_wf: "wf_adapter (soulseek_adapter_of env)"
  by (simp add: wf_adapter_def soulseek_adapter_of_def folder_env_int_nonneg)

lemma folder_request_good:
  assumes req: "folder_request a text artist album username parent files = Inr (Some r)"
    and files: "\<forall>d\<in>set files. good_name (str_blank (dget ''filename'' d))"
    and user: "py_strip username = username" "username \<noteq> []" and wf: "wf_adapter a"
  shows "good_request a r \<and> sr_username r = username"
proof -
  from req obtain ordered items where
    ord: "sorted_files files = Some ordered" and items: "those (map raw_file (take (nat (fa_max_files a)) ordered)) = Some items"
    and len: "sk_min_tracks a \<le> int (length files)" and sum: "fa_max_bytes a = 0 \<or> sum_list (map sd_size items) \<le> fa_max_bytes a"
    and r: "r = \<lparr>sr_username = username, sr_files = items, sr_title = candidate_title parent artist album, sr_search_text = text\<rparr>"
    by (auto simp: folder_request_def not_less split: if_splits option.splits)
  note so = sorted_files_set[OF ord]
  from items have ms: "map raw_file (take (nat (fa_max_files a)) ordered) = map Some items" by (simp add: those_Some)
  have "good_name (sd_filename f)" if "f \<in> set items" for f
  proof -
    from that have "Some f \<in> raw_file ` set (take (nat (fa_max_files a)) ordered)"
      using arg_cong[OF ms, of set] by auto
    then obtain d where "d \<in> set ordered" "raw_file d = Some f" by (auto dest: in_set_takeD)
    with so files show ?thesis by (auto simp: raw_file_def)
  qed
  moreover have "length items = min (length files) (nat (fa_max_files a))"
    using arg_cong[OF ms, of length] so by simp
  ultimately show ?thesis using user sum len wf by (auto simp: good_request_def r wf_adapter_def)
qed

text \<open>The requests that the folders of the responses ask for.\<close>

definition group_requests :: "slskd_adapter \<Rightarrow> slskd_query \<Rightarrow> string \<Rightarrow> (string \<times> dict list) list \<Rightarrow> slskd_request list" where
  "group_requests a q username groups =
     List.map_filter (\<lambda>(parent, files).
       case folder_request a (sq_search_text q) (sq_artist q) (sq_album q) username parent files of
         Inl e \<Rightarrow> None | Inr r \<Rightarrow> r) groups"

definition search_requests :: "slskd_adapter \<Rightarrow> slskd_query \<Rightarrow> json list \<Rightarrow> slskd_request list" where
  "search_requests a q responses =
     concat (map (\<lambda>response. case response of
         JObj resp \<Rightarrow> (case response_groups resp of Inl e \<Rightarrow> [] | Inr g \<Rightarrow> group_requests a q (response_username resp) g)
       | _ \<Rightarrow> []) responses)"

lemma group_requests_Cons: "set (group_requests a q username (g # groups)) =
    (case folder_request a (sq_search_text q) (sq_artist q) (sq_album q) username (fst g) (snd g) of
       Inr (Some r) \<Rightarrow> {r} | _ \<Rightarrow> {}) \<union> set (group_requests a q username groups)"
  by (cases g) (auto simp: group_requests_def List.map_filter_def split: sum.split option.split)

lemma search_requests_Cons: "set (search_requests a q (response # responses)) =
    (case response of
         JObj resp \<Rightarrow> (case response_groups resp of Inl e \<Rightarrow> {} | Inr g \<Rightarrow> set (group_requests a q (response_username resp) g))
       | _ \<Rightarrow> {}) \<union> set (search_requests a q responses)"
  by (auto simp: search_requests_def split: json.split sum.split)

text \<open>What the candidate list promises: each id leads to a stored request that agrees with the candidate.\<close>

definition backs :: "slskd_adapter \<Rightarrow> dict set \<Rightarrow> (dict \<Rightarrow> string) \<Rightarrow> cache_file \<Rightarrow> release_candidate \<Rightarrow> bool" where
  "backs a ps digest cache c \<longleftrightarrow> (\<exists>r. slskd_request_payload r \<in> ps \<and> good_request a r \<and> cached cache digest r \<and>
     ca_source_id c = SLSKD_PREFIX @ digest (slskd_request_payload r) \<and>
     ca_size_bytes c = sum_list (map sd_size (sr_files r)) \<and> ca_source_type c = ''soulseek'' \<and>
     ca_quality_tag c = slskd_quality r \<and> ca_title c = sr_title r @ '' ('' @ slskd_quality r @ '') [Soulseek]'')"

definition search_state :: "slskd_adapter \<Rightarrow> dict set \<Rightarrow> (dict \<Rightarrow> string) \<Rightarrow> release_candidate list \<Rightarrow> cache_file \<Rightarrow> bool" where
  "search_state a ps digest cs cache \<longleftrightarrow> cache \<noteq> Unreadable \<and> (\<forall>c\<in>set cs. backs a ps digest cache c) \<and>
     distinct (map ca_source_id cs) \<and> int (length cs) \<le> sk_response_limit a"

lemma encode_step:
  assumes st: "search_state a ps digest acc cache" and inj: "inj_on digest ps" "slskd_request_payload r \<in> ps" and good: "good_request a r"
    and enc: "encode_slskd_source_id digest True r cache = (source_id, cache')"
  shows "search_state a ps digest acc cache'"
    and "int (length acc) < sk_response_limit a \<Longrightarrow> source_id \<notin> set (map ca_source_id acc) \<Longrightarrow>
      search_state a ps digest (acc @ [slskd_candidate source_id artist album year parent r]) cache'"
proof -
  from enc have cache': "cache' = store_slskd_request True (digest (slskd_request_payload r)) (slskd_request_payload r) cache"
    and sid: "source_id = SLSKD_PREFIX @ digest (slskd_request_payload r)"
    by (auto simp: encode_slskd_source_id_def Let_def)
  from st have ne: "cache \<noteq> Unreadable" by (simp add: search_state_def)
  have keep: "backs a ps digest cache' c" if "backs a ps digest cache c" for c
    using that store_keeps_cached[OF _ inj] unfolding backs_def cache' by blast
  with st store_cached(2)[OF ne] show 1: "search_state a ps digest acc cache'" by (auto simp: search_state_def cache')
  assume "int (length acc) < sk_response_limit a" "source_id \<notin> set (map ca_source_id acc)"
  moreover have "backs a ps digest cache' (slskd_candidate source_id artist album year parent r)"
    unfolding backs_def using good inj(2) store_cached(1)[OF ne] by (intro exI[of _ r]) (simp add: slskd_candidate_def sid cache')
  ultimately show "search_state a ps digest (acc @ [slskd_candidate source_id artist album year parent r]) cache'"
    using 1 by (auto simp: search_state_def slskd_candidate_def)
qed

lemma folder_loop_state:
  assumes "folder_loop a digest True q username groups acc cache = (Inr cs, cache')"
    and "search_state a ps digest acc cache" and "inj_on digest ps" and "good_groups groups"
    and "py_strip username = username" "username \<noteq> []" "wf_adapter a"
    and "slskd_request_payload ` set (group_requests a q username groups) \<subseteq> ps"
  shows "search_state a ps digest cs cache'"
  using assms(1,2,4,8)
proof (induction groups arbitrary: acc cache)
  case (Cons g groups)
  obtain parent files where g: "g = (parent, files)" by (cases g)
  from Cons.prems(3) have rest: "good_groups groups" and files: "\<forall>d\<in>set files. good_name (str_blank (dget ''filename'' d))"
    by (auto simp: good_groups_def g)
  from Cons.prems(4) have sub: "slskd_request_payload ` set (group_requests a q username groups) \<subseteq> ps"
    unfolding group_requests_Cons by (simp add: image_Un)
  show ?case
  proof (cases "int (length acc) \<ge> sk_response_limit a")
    case True
    with Cons.prems show ?thesis by (simp add: g)
  next
    case False
    note step = Cons.prems(1)[unfolded g folder_loop.simps if_not_P[OF False]]
    show ?thesis
    proof (cases "folder_request a (sq_search_text q) (sq_artist q) (sq_album q) username parent files")
      case (Inl e)
      with step show ?thesis by simp
    next
      case (Inr o')
      show ?thesis
      proof (cases o')
        case None
        with step Inr Cons.IH[OF _ Cons.prems(2) rest sub] show ?thesis by simp
      next
        case (Some r)
        with Inr folder_request_good[OF _ files assms(5-7)] have good: "good_request a r" by blast
        from Inr Some Cons.prems(4) have inps: "slskd_request_payload r \<in> ps"
          by (simp add: group_requests_Cons g)
        obtain sid cache1 where enc: "encode_slskd_source_id digest True r cache = (sid, cache1)" by fastforce
        note E = encode_step[OF Cons.prems(2) assms(3) inps good enc]
        show ?thesis
        proof (cases "sid \<in> set (map ca_source_id acc)")
          case True
          with step Inr Some enc Cons.IH[OF _ E(1) rest sub] show ?thesis by simp
        next
          case nin: False
          from False have "int (length acc) < sk_response_limit a" by simp
          from step Inr Some enc nin Cons.IH[OF _ E(2)[OF this nin] rest sub] show ?thesis by simp
        qed
      qed
    qed
  qed
qed simp

lemma response_loop_state:
  assumes "response_loop a digest True q responses acc cache = (Inr cs, cache')"
    and "search_state a ps digest acc cache" and "inj_on digest ps" and "wf_adapter a"
    and "slskd_request_payload ` set (search_requests a q responses) \<subseteq> ps"
  shows "search_state a ps digest cs cache'"
  using assms(1,2,5)
proof (induction responses arbitrary: acc cache)
  case (Cons response responses)
  from Cons.prems(3) have sub: "slskd_request_payload ` set (search_requests a q responses) \<subseteq> ps"
    unfolding search_requests_Cons by (simp add: image_Un)
  show ?case
  proof (cases "int (length acc) \<ge> sk_response_limit a")
    case True
    with Cons.prems show ?thesis by simp
  next
    case False
    note step = Cons.prems(1)[unfolded response_loop.simps if_not_P[OF False]]
    then obtain resp where resp: "response = JObj resp" by (cases response) auto
    show ?thesis
    proof (cases "response_username resp = []")
      case True
      with step resp Cons.IH[OF _ Cons.prems(2) sub] show ?thesis by simp
    next
      case user: False
      from step resp user obtain g where g: "response_groups resp = Inr g"
        by (cases "response_groups resp") (auto simp: Let_def)
      with step resp user obtain acc' cache1 where
        fl: "folder_loop a digest True q (response_username resp) g acc cache = (Inr acc', cache1)"
        and rl: "response_loop a digest True q responses acc' cache1 = (Inr cs, cache')"
        by (auto simp: Let_def split: prod.splits sum.splits)
      from g have "good_groups g"
        by (auto simp: response_groups_def good_groups_def[of "[]"] intro: group_files_good split: json.splits)
      moreover have "py_strip (response_username resp) = response_username resp" by (simp add: response_username_def)
      moreover from Cons.prems(3) resp g
      have "slskd_request_payload ` set (group_requests a q (response_username resp) g) \<subseteq> ps"
        by (simp add: search_requests_Cons image_Un)
      ultimately have "search_state a ps digest acc' cache1"
        using folder_loop_state[OF fl Cons.prems(2) assms(3)] user assms(4) by blast
      from Cons.IH[OF rl this sub] show ?thesis .
    qed
  qed
qed simp

text \<open>(C20) Every candidate that a search reports can be grabbed: its id reads back as a request with at least one file,
  with the title and the size of the candidate and within the limits. That holds for every setting but one:
  \<open>SOULSEEK_MAX_FILES=0\<close> is accepted, then the search still reports candidates, with no files, and every one of them
  is refused when it is grabbed. For every setting, the ids are distinct and there are no more than the configured
  number. (The digests of the requests are taken to be distinct, and the cache to be writable.)\<close>

theorem slskd_candidates_backed:
  assumes "response_loop a digest True q responses [] cache = (Inr cs, cache')"
    and "cache \<noteq> Unreadable" and "a = soulseek_adapter_of env"
    and "inj_on digest (slskd_request_payload ` set (search_requests a q responses))"
  shows "int (length cs) \<le> sk_response_limit a \<and> distinct (map ca_source_id cs) \<and>
     (if fa_max_files a = 0
      then \<forall>c\<in>set cs. ca_size_bytes c = 0 \<and>
         decode_slskd_source_id a legacy cache' (ca_source_id c) = Inl (Runtime_Failure ''soulseek slskd source_id has no files'')
      else \<forall>c\<in>set cs. \<exists>r. decode_slskd_source_id a legacy cache' (ca_source_id c) = Inr r \<and>
        ca_title c = sr_title r @ '' ('' @ ca_quality_tag c @ '') [Soulseek]'' \<and>
        ca_size_bytes c = sum_list (map sd_size (sr_files r)) \<and>
        0 < length (sr_files r) \<and> int (length (sr_files r)) \<le> fa_max_files a \<and>
        (fa_max_bytes a = 0 \<or> ca_size_bytes c \<le> fa_max_bytes a))"
proof -
  let ?ps = "slskd_request_payload ` set (search_requests a q responses)"
  have wf: "wf_adapter a" using assms(3) soulseek_adapter_wf by simp
  have "search_state a ?ps digest [] cache" using assms(2) wf by (simp add: search_state_def wf_adapter_def)
  from response_loop_state[OF assms(1) this assms(4) wf] have st: "search_state a ?ps digest cs cache'" by simp
  have "\<exists>r. good_request a r \<and> decode_slskd_source_id a legacy cache' (ca_source_id c) = read_back a r \<and>
      ca_size_bytes c = sum_list (map sd_size (sr_files r)) \<and>
      ca_title c = sr_title r @ '' ('' @ ca_quality_tag c @ '') [Soulseek]''" if "c \<in> set cs" for c
  proof -
    from st that obtain r where r: "good_request a r" "cached cache' digest r"
      "ca_source_id c = SLSKD_PREFIX @ digest (slskd_request_payload r)"
      "ca_size_bytes c = sum_list (map sd_size (sr_files r))" "ca_quality_tag c = slskd_quality r"
      "ca_title c = sr_title r @ '' ('' @ slskd_quality r @ '') [Soulseek]''"
      unfolding search_state_def backs_def by blast
    with cached_decode[OF r(2,1)] show ?thesis by auto
  qed
  then show ?thesis using st by (fastforce simp: search_state_def good_request_def read_back_def)
qed

definition DEMO_SLSKD :: slskd_adapter where
  "DEMO_SLSKD = (soulseek_adapter_of (\<lambda>x. if x = ''SOULSEEK_MIN_TRACKS'' then Some ''1'' else if x = ''SOULSEEK_DOWNLOAD_ROOT'' then Some ''/in''
     else if x = ''SLSKD_API_URL'' then Some ''http://slskd/'' else if x = ''SLSKD_API_KEY'' then Some ''k'' else None))"

definition DEMO_RESPONSE :: "string \<Rightarrow> json" where
  "DEMO_RESPONSE filename =
     JObj [(''username'', JStr ''u''), (''files'', JList [JObj [(''filename'', JStr filename), (''size'', JInt 7)]])]"

definition DEMO_QUERY :: slskd_query where
  "DEMO_QUERY = \<lparr>sq_search_text = ''x'', sq_artist = [], sq_album = [], sq_year = None\<rparr>"

lemma demo_responses: "response_loop DEMO_SLSKD (\<lambda>p. ''0'') True DEMO_QUERY [DEMO_RESPONSE ''B/1.flac''] [] No_File =
   (Inr [\<lparr>ca_source_type = ''soulseek'', ca_source_id = ''slskd:0'', ca_title = ''B (FLAC) [Soulseek]'', ca_artist = ''Soulseek'',
          ca_album = ''B'', ca_year = None, ca_quality_tag = ''FLAC'', ca_size_bytes = 7, ca_download_url = ''soulseek:slskd:0'',
          ca_priority = 10\<rparr>],
    Holds (JObj [(''0'', JObj [(''v'', JInt 1), (''u'', JStr ''u''), (''t'', JStr ''B''), (''q'', JStr ''x''),
      (''f'', JList [JObj [(''filename'', JStr ''B/1.flac''), (''size'', JInt 7)]])])]))"
  by code_simp

text \<open>The same search with \<open>SOULSEEK_MAX_FILES=0\<close>.\<close>

definition DEMO_NO_FILES :: slskd_adapter where
  "DEMO_NO_FILES = (soulseek_adapter_of (\<lambda>x. if x = ''SOULSEEK_MIN_TRACKS'' then Some ''1'' else if x = ''SOULSEEK_MAX_FILES'' then Some ''0''
     else if x = ''SOULSEEK_DOWNLOAD_ROOT'' then Some ''/in'' else None))"

lemma demo_no_files: "response_loop DEMO_NO_FILES (\<lambda>p. ''0'') True DEMO_QUERY [DEMO_RESPONSE ''B/1.flac''] [] No_File =
   (Inr [\<lparr>ca_source_type = ''soulseek'', ca_source_id = ''slskd:0'', ca_title = ''B (FLAC) [Soulseek]'', ca_artist = ''Soulseek'',
          ca_album = ''B'', ca_year = None, ca_quality_tag = ''FLAC'', ca_size_bytes = 0, ca_download_url = ''soulseek:slskd:0'',
          ca_priority = 10\<rparr>],
    Holds (JObj [(''0'', JObj [(''v'', JInt 1), (''u'', JStr ''u''), (''t'', JStr ''B''), (''q'', JStr ''x''), (''f'', JList [])])]))"
  by code_simp

lemma demo_requests_inj:
  "inj_on (\<lambda>p. ''0'') (slskd_request_payload ` set (search_requests DEMO_SLSKD DEMO_QUERY [DEMO_RESPONSE ''B/1.flac'']))"
  "inj_on (\<lambda>p. ''0'') (slskd_request_payload ` set (search_requests DEMO_NO_FILES DEMO_QUERY [DEMO_RESPONSE ''B/1.flac'']))"
proof -
  have "length (search_requests DEMO_SLSKD DEMO_QUERY [DEMO_RESPONSE ''B/1.flac'']) = 1"
    "length (search_requests DEMO_NO_FILES DEMO_QUERY [DEMO_RESPONSE ''B/1.flac'']) = 1" by code_simp+
  then show "inj_on (\<lambda>p. ''0'') (slskd_request_payload ` set (search_requests DEMO_SLSKD DEMO_QUERY [DEMO_RESPONSE ''B/1.flac'']))"
    "inj_on (\<lambda>p. ''0'') (slskd_request_payload ` set (search_requests DEMO_NO_FILES DEMO_QUERY [DEMO_RESPONSE ''B/1.flac'']))"
    by (auto simp: length_Suc_conv)
qed

theorem slskd_candidates_backed_witness:
  "(\<exists>r. decode_slskd_source_id DEMO_SLSKD (\<lambda>t. None)
       (Holds (JObj [(''0'', JObj [(''v'', JInt 1), (''u'', JStr ''u''), (''t'', JStr ''B''), (''q'', JStr ''x''),
         (''f'', JList [JObj [(''filename'', JStr ''B/1.flac''), (''size'', JInt 7)]])])])) ''slskd:0'' = Inr r \<and>
     sum_list (map sd_size (sr_files r)) = 7 \<and> 0 < length (sr_files r)) \<and>
   decode_slskd_source_id DEMO_NO_FILES (\<lambda>t. None)
     (Holds (JObj [(''0'', JObj [(''v'', JInt 1), (''u'', JStr ''u''), (''t'', JStr ''B''), (''q'', JStr ''x''), (''f'', JList [])])]))
     ''slskd:0'' = Inl (Runtime_Failure ''soulseek slskd source_id has no files'')"
proof -
  have m: "fa_max_files DEMO_SLSKD = 300" "fa_max_files DEMO_NO_FILES = 0" by code_simp+
  from slskd_candidates_backed[OF demo_responses _ DEMO_SLSKD_def demo_requests_inj(1), of "\<lambda>t. None"] m(1) have
    "\<exists>r. decode_slskd_source_id DEMO_SLSKD (\<lambda>t. None)
       (Holds (JObj [(''0'', JObj [(''v'', JInt 1), (''u'', JStr ''u''), (''t'', JStr ''B''), (''q'', JStr ''x''),
         (''f'', JList [JObj [(''filename'', JStr ''B/1.flac''), (''size'', JInt 7)]])])])) ''slskd:0'' = Inr r \<and>
     sum_list (map sd_size (sr_files r)) = 7 \<and> 0 < length (sr_files r)"
    by fastforce
  moreover from slskd_candidates_backed[OF demo_no_files _ DEMO_NO_FILES_def demo_requests_inj(2), of "\<lambda>t. None"] m(2)
  have "decode_slskd_source_id DEMO_NO_FILES (\<lambda>t. None)
     (Holds (JObj [(''0'', JObj [(''v'', JInt 1), (''u'', JStr ''u''), (''t'', JStr ''B''), (''q'', JStr ''x''), (''f'', JList [])])]))
     ''slskd:0'' = Inl (Runtime_Failure ''soulseek slskd source_id has no files'')"
    by simp
  ultimately show ?thesis by blast
qed

text \<open>A file name whose first run of digits contains a superscript ends the whole search with a \<open>ValueError\<close>,
  whatever else the response and the responses after it hold: \<open>str.isdigit\<close> accepts the superscript, \<open>int\<close> does
  not.\<close>

theorem superscript_aborts_search:
  assumes "int (length acc) < sk_response_limit a" and "response_username resp \<noteq> []"
    and "response_groups resp = Inr ((parent, files) # groups)" and "sk_min_tracks a \<le> int (length files)"
    and "d \<in> set files"
    and "c \<in> set (first_digits (path_name (path_of (to_slashes (str_blank (dget ''filename'' d))))))" and "\<not> is_digit c"
  shows "response_loop a digest writable q (JObj resp # responses) acc cache = (Inl Value_Failure, cache)"
proof -
  let ?n = "first_digits (path_name (path_of (to_slashes (str_blank (dget ''filename'' d)))))"
  have cls: "\<forall>x\<in>set ?n. py_isdigit x" by (auto simp: first_digits_def dest: set_takeWhileD)
  have special: "\<not> py_isspace_char x \<and> x \<noteq> CHR ''_''  \<and> x \<noteq> CHR ''-'' \<and> x \<noteq> CHR ''+''" if "py_isdigit x" for x
    using that by (auto simp: py_isdigit_def py_isspace_char_def is_digit_def Let_def)
  from assms(6) have ne: "?n \<noteq> []" by auto
  with cls special have strip: "py_strip ?n = ?n" by (intro py_strip_trimmed) (meson hd_in_set last_in_set)
  have all: "digits_ok s \<Longrightarrow> CHR ''_'' \<notin> set s \<Longrightarrow> \<forall>x\<in>set s. is_digit x" for s
    by (induction s rule: digits_ok.induct) (auto split: if_splits)
  from cls special have "CHR ''_'' \<notin> set ?n" by blast
  with all[of ?n] assms(6,7) have "\<not> digits_ok ?n" by blast
  moreover have "hd ?n \<noteq> CHR ''-''" "hd ?n \<noteq> CHR ''+''" using cls special ne by (meson hd_in_set)+
  ultimately have "py_int ?n = None" using strip ne by (cases ?n) (auto simp: py_int_def py_int_digits_def)
  with ne have key: "remote_filename_sort_key (str_blank (dget ''filename'' d)) = None"
    by (simp add: remote_filename_sort_key_def Let_def)
  have "sorted_files files = None"
  proof (cases "those (map (\<lambda>d. remote_filename_sort_key (str_blank (dget ''filename'' d))) files)")
    case (Some keys)
    then have "None \<notin> set (map (\<lambda>d. remote_filename_sort_key (str_blank (dget ''filename'' d))) files)"
      unfolding those_Some by auto
    with key assms(5) show ?thesis by force
  qed (simp add: sorted_files_def)
  with assms(4) have "folder_request a t ar al u parent files = Inl Value_Failure" for t ar al u
    by (simp add: folder_request_def)
  with assms(1-3) show ?thesis by (simp add: Let_def)
qed

definition DEMO_SQUARED :: string where
  "DEMO_SQUARED = ''M'' @ [CHR 0xB2] @ ''.flac''"

lemma demo_squared:
  "response_username (as_dict (DEMO_RESPONSE DEMO_SQUARED)) \<noteq> []"
  "response_groups (as_dict (DEMO_RESPONSE DEMO_SQUARED)) =
     Inr [([], [[(''filename'', JStr DEMO_SQUARED), (''size'', JInt 7)]])]"
  "CHR 0xB2 \<in> set (first_digits (path_name (path_of (to_slashes (str_blank (dget ''filename''
     [(''filename'', JStr DEMO_SQUARED), (''size'', JInt 7)]))))))"
  "int (length ([] :: release_candidate list)) < sk_response_limit DEMO_SLSKD"
  "sk_min_tracks DEMO_SLSKD \<le> int (length [[(''filename'', JStr DEMO_SQUARED), (''size'', JInt 7)]])"
  by code_simp+

theorem superscript_aborts_search_witness:
  "response_loop DEMO_SLSKD (\<lambda>p. ''0'') True DEMO_QUERY [DEMO_RESPONSE DEMO_SQUARED, DEMO_RESPONSE ''B/1.flac''] [] No_File =
     (Inl Value_Failure, No_File)"
proof -
  have resp: "DEMO_RESPONSE DEMO_SQUARED = JObj (as_dict (DEMO_RESPONSE DEMO_SQUARED))" by (simp add: DEMO_RESPONSE_def)
  show ?thesis
    by (subst resp) (rule superscript_aborts_search[OF demo_squared(4,1,2,5) _ demo_squared(3)]; simp add: is_digit_def)
qed

section \<open>Brackets in file names\<close>

fun is_class :: "glob_item \<Rightarrow> bool" where
  "is_class (One_Of p) = True"
| "is_class _ = False"

lemma glob_match_length: "Any_Run \<notin> set gs \<Longrightarrow> glob_match gs s \<Longrightarrow> length s = length gs"
  by (induction gs s rule: glob_match.induct) auto

lemma set_tl_dropWhile: "set (tl (dropWhile p xs)) \<subseteq> set xs"
proof
  fix x assume "x \<in> set (tl (dropWhile p xs))"
  then have "x \<in> set (dropWhile p xs)" by (cases "dropWhile p xs") auto
  then show "x \<in> set xs" by (rule set_dropWhileD)
qed

lemma class_close_set: "class_close s = Some (u, v) \<Longrightarrow> set v \<subseteq> set s"
  unfolding class_close_def Let_def
  by (auto split: if_splits dest!: subsetD[OF set_tl_dropWhile] in_set_dropD)

lemma glob_items_Cons:
  "\<exists>g rest. glob_items (c # cs) = g # glob_items rest \<and> length rest \<le> length cs \<and> set rest \<subseteq> set cs \<and>
     (is_class g \<longrightarrow> length rest < length cs) \<and> (g = Any_Run \<longrightarrow> c = CHR ''*'')"
proof (cases "c = CHR ''['' \<and> class_close cs \<noteq> None")
  case True
  then obtain u v where uv: "class_close cs = Some (u, v)" by auto
  with True have "glob_items (c # cs) = One_Of (glob_class u) # glob_items v" by simp
  then show ?thesis using class_close_shorter[OF uv] class_close_set[OF uv]
    by (intro exI[of _ "One_Of (glob_class u)"] exI[of _ v]) auto
next
  case False
  then have "\<exists>g. glob_items (c # cs) = g # glob_items cs \<and> \<not> is_class g \<and> (g = Any_Run \<longrightarrow> c = CHR ''*'')"
    by (cases "c = CHR ''['' "; cases "class_close cs") auto
  then show ?thesis by (metis order_refl)
qed

lemma glob_items_length: "length (glob_items s) + of_bool (\<exists>g\<in>set (glob_items s). is_class g) \<le> length s"
proof (induction s rule: length_induct)
  case (1 s)
  show ?case
  proof (cases s)
    case (Cons c cs)
    obtain g rest where g: "glob_items (c # cs) = g # glob_items rest" "length rest \<le> length cs"
      "is_class g \<Longrightarrow> length rest < length cs" using glob_items_Cons by blast
    from 1 Cons g(2) have "length (glob_items rest) + of_bool (\<exists>g\<in>set (glob_items rest). is_class g) \<le> length rest" by simp
    with g show ?thesis unfolding Cons by (cases "is_class g"; cases "\<exists>g\<in>set (glob_items rest). is_class g") auto
  qed simp
qed

lemma glob_items_no_run: "CHR ''*'' \<notin> set s \<Longrightarrow> Any_Run \<notin> set (glob_items s)"
proof (induction s rule: length_induct)
  case (1 s)
  show ?case
  proof (cases s)
    case (Cons c cs)
    obtain g rest where g: "glob_items (c # cs) = g # glob_items rest" "length rest \<le> length cs" "set rest \<subseteq> set cs"
      "g = Any_Run \<Longrightarrow> c = CHR ''*''" using glob_items_Cons by blast
    have "length rest < length s" "CHR ''*'' \<notin> set rest" using Cons g(2,3) 1(2) by auto
    with 1(1) have "Any_Run \<notin> set (glob_items rest)" by blast
    with g 1(2) show ?thesis by (auto simp: Cons)
  qed simp
qed

lemma bracket_not_self:
  assumes "CHR ''*'' \<notin> set s" and "\<exists>g\<in>set (glob_items s). is_class g"
  shows "\<not> fnmatch s s"
  using glob_match_length[OF glob_items_no_run[OF assms(1)], of s] glob_items_length[of s] assms(2)
  by (auto simp: fnmatch_def)

lemma filter_paths_sub: "filter_paths f ps = Inr qs \<Longrightarrow> set qs \<subseteq> set ps"
  by (induction ps arbitrary: qs) (fastforce split: sum.splits if_splits)+

lemma match_files_length:
  assumes "match_files fs base exclude items ms = Inr r"
  shows "length r \<le> length ms + length items"
    and "item \<in> set items \<Longrightarrow> \<forall>p\<in>set (ff_rglob fs base). \<not> fnmatch (remote_basename item) (path_name p) \<Longrightarrow>
      length r < length ms + length items"
proof -
  let ?none = "\<lambda>item. \<forall>p\<in>set (ff_rglob fs base). \<not> fnmatch (remote_basename item) (path_name p)"
  have "length r \<le> length ms + length items \<and> (item \<in> set items \<and> ?none item \<longrightarrow> length r < length ms + length items)"
    using assms
  proof (induction items arbitrary: ms)
    case (Cons it items)
    let ?fs = "filter (\<lambda>p. fnmatch (remote_basename it) (path_name p)) (ff_rglob fs base)"
    from Cons.prems obtain cands where c: "filter_paths (takes_path fs base exclude ms it) ?fs = Inr cands"
      by (auto simp: Let_def split: if_splits sum.splits)
    show ?case
    proof (cases "first_min (\<lambda>p. - mtime_of fs p) cands")
      case None
      with Cons.prems c have "match_files fs base exclude items ms = Inr r" by (auto simp: Let_def split: if_splits)
      from Cons.IH[OF this] show ?thesis by auto
    next
      case (Some ch)
      then have "cands \<noteq> []" by auto
      with filter_paths_sub[OF c] have some: "\<not> ?none it" by (auto simp: neq_Nil_conv)
      from Some Cons.prems c have "match_files fs base exclude items (ms @ [ch]) = Inr r" by (auto simp: Let_def split: if_splits)
      from Cons.IH[OF this] some show ?thesis by auto
    qed
  qed simp
  then show "length r \<le> length ms + length items"
    and "item \<in> set items \<Longrightarrow> ?none item \<Longrightarrow> length r < length ms + length items" by auto
qed

text \<open>A download of a file whose name has a bracketed part never succeeds: the name is used as a glob pattern,
  and does not match itself. Here nothing else in the download root matches the pattern either; however
  long the file lies there complete, the loop ends with an error.\<close>

theorem bracketed_name_never_found:
  assumes "item \<in> set (sr_files r)" and "CHR ''*'' \<notin> set (remote_basename item)"
    and "\<exists>g\<in>set (glob_items (remote_basename item)). is_class g"
    and "\<forall>ob\<in>set polls. \<forall>base. \<forall>p\<in>set (ff_rglob (po_fs ob) base).
      fnmatch (remote_basename item) (path_name p) \<longrightarrow> path_name p = remote_basename item"
    and "wait_for_slskd_files a r baseline deadline failure polls = Some (res, evs)"
  shows "\<exists>e. res = Inl e"
  using assms(4,5)
proof (induction polls arbitrary: failure evs)
  case (Cons ob polls)
  show ?case
  proof (cases "po_time ob \<ge> deadline \<or> po_cancelled ob")
    case True
    with Cons.prems show ?thesis by (auto split: if_splits)
  next
    case False
    show ?thesis
    proof (cases "matching_paths a (po_fs ob) (sr_files r) baseline")
      case (Inl e)
      from Cons.prems(2) have "res = Inl e" unfolding wait_for_slskd_files.simps Inl using False by simp
      then show ?thesis ..
    next
      case (Inr paths)
      then obtain base where m: "match_files (po_fs ob) base baseline (sr_files r) [] = Inr paths"
        by (auto simp: matching_paths_def split: sum.splits)
      from Cons.prems(1) bracket_not_self[OF assms(2,3)]
      have "\<forall>p\<in>set (ff_rglob (po_fs ob) base). \<not> fnmatch (remote_basename item) (path_name p)" by fastforce
      from match_files_length(2)[OF m assms(1) this] have "\<not> length (sr_files r) \<le> length paths" by simp
      with False Inr Cons.prems Cons.IH show ?thesis
        by (auto simp: Let_def split: option.splits prod.splits)
    qed
  qed
qed simp

definition DEMO_BRACKET :: slskd_request where
  "DEMO_BRACKET = \<lparr>sr_username = ''u'', sr_files = [\<lparr>sd_filename = ''B/1 [X].flac'', sd_size = 7\<rparr>], sr_title = ''B'', sr_search_text = ''x''\<rparr>"

definition DEMO_POLL :: "rat \<Rightarrow> slskd_poll" where
  "DEMO_POLL t = \<lparr>po_time = t, po_cancelled = False,
     po_fs = DEMO_FS\<lparr>ff_is_file := (\<lambda>p. True), ff_rglob := (\<lambda>p. [(''/'', [''in'', ''B'', ''1 [X].flac''])])\<rparr>,
     po_later = DEMO_FS, po_downloads = None\<rparr>"

lemma demo_bracket_wait: "wait_for_slskd_files DEMO_SLSKD DEMO_BRACKET [] 3600 [] [DEMO_POLL 0, DEMO_POLL 3600] =
    Some (Inl (Runtime_Failure ''soulseek slskd download timed out''),
      [Progress ''slskd_wait'' 20 ''Waiting for Soulseek download'' [(''found_files'', 0), (''expected_files'', 1)]])"
  by code_simp

theorem bracketed_name_never_found_witness:
  "\<exists>e. map_option fst (wait_for_slskd_files DEMO_SLSKD DEMO_BRACKET [] 3600 [] [DEMO_POLL 0, DEMO_POLL 3600]) = Some (Inl e)"
proof -
  have item: "\<lparr>sd_filename = ''B/1 [X].flac'', sd_size = 7\<rparr> \<in> set (sr_files DEMO_BRACKET)" by (simp add: DEMO_BRACKET_def)
  have nm: "remote_basename \<lparr>sd_filename = ''B/1 [X].flac'', sd_size = 7\<rparr> = ''1 [X].flac''" by code_simp
  have 1: "CHR ''*'' \<notin> set (remote_basename \<lparr>sd_filename = ''B/1 [X].flac'', sd_size = 7\<rparr>)" by (simp add: nm)
  have 2: "\<exists>g\<in>set (glob_items (remote_basename \<lparr>sd_filename = ''B/1 [X].flac'', sd_size = 7\<rparr>)). is_class g"
    by (simp add: nm class_close_def)
  have 3: "\<forall>ob\<in>set [DEMO_POLL 0, DEMO_POLL 3600]. \<forall>base. \<forall>p\<in>set (ff_rglob (po_fs ob) base).
      fnmatch (remote_basename \<lparr>sd_filename = ''B/1 [X].flac'', sd_size = 7\<rparr>) (path_name p) \<longrightarrow>
      path_name p = remote_basename \<lparr>sd_filename = ''B/1 [X].flac'', sd_size = 7\<rparr>"
    by (simp add: nm DEMO_POLL_def path_name_def)
  from bracketed_name_never_found[OF item 1 2 3 demo_bracket_wait] show ?thesis
    by (simp only: demo_bracket_wait option.map fst_conv option.inject)
qed

section \<open>The waiting loop ends\<close>

lemma slskd_wait_some:
  assumes "polls \<noteq> []" and "po_time (last polls) \<ge> deadline"
  shows "wait_for_slskd_files a r baseline deadline failure polls \<noteq> None"
  using assms
proof (induction polls arbitrary: failure)
  case (Cons ob polls)
  show ?case
  proof (cases "polls = []")
    case False
    with Cons have "wait_for_slskd_files a r baseline deadline f polls \<noteq> None" for f by simp
    define f where "f = (if slskd_failure_reason r (po_downloads ob) = [] then failure else slskd_failure_reason r (po_downloads ob))"
    from \<open>\<And>f. wait_for_slskd_files a r baseline deadline f polls \<noteq> None\<close>
    obtain res evs where "wait_for_slskd_files a r baseline deadline f polls = Some (res, evs)" by fastforce
    then show ?thesis
      unfolding wait_for_slskd_files.simps Let_def f_def[symmetric]
      by (cases "matching_paths a (po_fs ob) (sr_files r) baseline") simp_all
  qed (use Cons.prems in auto)
qed simp

text \<open>(C31) The waiting loop ends: every turn sleeps for the polling interval, so that with the settings of the
  environment it has returned after at most \<open>timeout / interval + 1\<close> turns, whatever it observes. The default
  settings allow 721 turns.\<close>

theorem slskd_wait_terminates:
  assumes "a = soulseek_adapter_of env"
    and "\<forall>k<length polls. started + of_nat k * sk_poll_seconds a \<le> po_time (polls ! k)"
    and "of_int (sk_download_timeout a) / sk_poll_seconds a \<le> of_nat (length polls - 1)" and "polls \<noteq> []"
  shows "wait_for_slskd_files a r baseline (started + of_int (sk_download_timeout a)) [] polls \<noteq> None"
proof (rule slskd_wait_some[OF assms(4)])
  have pos: "0 < sk_poll_seconds a" by (simp add: assms(1) soulseek_adapter_of_def)
  have "of_int (sk_download_timeout a) \<le> of_nat (length polls - 1) * sk_poll_seconds a"
    using assms(3) pos by (simp add: divide_le_eq)
  moreover have "started + of_nat (length polls - 1) * sk_poll_seconds a \<le> po_time (last polls)"
    using assms(2,4) by (simp add: last_conv_nth)
  ultimately show "started + of_int (sk_download_timeout a) \<le> po_time (last polls)" by linarith
qed

theorem slskd_wait_terminates_witness:
  "wait_for_slskd_files (soulseek_adapter_of (\<lambda>x. None)) DEMO_BRACKET [] (0 + 3600) []
     (map (\<lambda>k. DEMO_POLL (5 * of_nat k)) [0..<721]) \<noteq> None"
proof -
  have set: "sk_poll_seconds (soulseek_adapter_of (\<lambda>x. None)) = 5" "sk_download_timeout (soulseek_adapter_of (\<lambda>x. None)) = 3600"
    by (simp_all add: soulseek_adapter_of_def folder_env_int_def)
  show ?thesis
    using slskd_wait_terminates[OF refl, of "map (\<lambda>k. DEMO_POLL (5 * of_nat k)) [0..<721]" 0 "\<lambda>x. None" DEMO_BRACKET "[]"]
    by (simp add: set DEMO_POLL_def)
qed

end
