(* ===== verification/Grab_Tokens.thy ===== *)
theory Grab_Tokens
  imports Py_Regex
begin

text \<open>
  The tokens by which a search result comes back as a grab (\<open>app/server.py\<close>): the base64url id in the
  download link, the NZB pointer that is served for it, and the parser that recognises a source in an
  uploaded NZB or in the name of the request.

  Identifiers in links are Unicode texts, here lists of code points; bytes are numbers below 256. The
  texts of NZB files are strings as elsewhere. \<open>ref\<close> is the table of character references of
  \<open>html.unescape\<close>, from the text after the ampersand to its replacement.
\<close>

section \<open>UTF-8\<close>

type_synonym utext = "nat list"

definition scalar :: "nat \<Rightarrow> bool" where
  "scalar n \<longleftrightarrow> n < 0x110000 \<and> \<not> (0xD800 \<le> n \<and> n \<le> 0xDFFF)"

definition utf8_char :: "nat \<Rightarrow> nat list" where
  "utf8_char n =
     (if n < 0x80 then [n]
      else if n < 0x800 then [0xC0 + n div 64, 0x80 + n mod 64]
      else if n < 0x10000 then [0xE0 + n div 4096, 0x80 + n div 64 mod 64, 0x80 + n mod 64]
      else [0xF0 + n div 262144, 0x80 + n div 4096 mod 64, 0x80 + n div 64 mod 64, 0x80 + n mod 64])"

text \<open>\<open>s.encode("utf-8")\<close>: \<open>None\<close> is \<open>UnicodeEncodeError\<close>.\<close>

definition utf8_encode :: "utext \<Rightarrow> nat list option" where
  "utf8_encode s = (if list_all scalar s then Some (concat (map utf8_char s)) else None)"

definition continuation :: "nat \<Rightarrow> bool" where
  "continuation b \<longleftrightarrow> 0x80 \<le> b \<and> b \<le> 0xBF"

text \<open>One code point off a byte string, in the strict reading: no overlong forms, no surrogates, nothing beyond
  \<open>U+10FFFF\<close>.\<close>

fun utf8_next :: "nat list \<Rightarrow> (nat \<times> nat list) option" where
  "utf8_next [] = None"
| "utf8_next (b # bs) =
     (if b < 0x80 then Some (b, bs)
      else if b < 0xC2 then None
      else if b < 0xE0 then
        (case bs of
           c1 # r \<Rightarrow> if continuation c1 then Some ((b - 0xC0) * 64 + (c1 - 0x80), r) else None
         | _ \<Rightarrow> None)
      else if b < 0xF0 then
        (case bs of
           c1 # c2 # r \<Rightarrow>
             if continuation c1 \<and> continuation c2 \<and> (b = 0xE0 \<longrightarrow> 0xA0 \<le> c1) \<and> (b = 0xED \<longrightarrow> c1 < 0xA0)
             then Some ((b - 0xE0) * 4096 + (c1 - 0x80) * 64 + (c2 - 0x80), r) else None
         | _ \<Rightarrow> None)
      else if b < 0xF5 then
        (case bs of
           c1 # c2 # c3 # r \<Rightarrow>
             if continuation c1 \<and> continuation c2 \<and> continuation c3 \<and> (b = 0xF0 \<longrightarrow> 0x90 \<le> c1) \<and> (b = 0xF4 \<longrightarrow> c1 < 0x90)
             then Some ((b - 0xF0) * 262144 + (c1 - 0x80) * 4096 + (c2 - 0x80) * 64 + (c3 - 0x80), r) else None
         | _ \<Rightarrow> None)
      else None)"

lemma utf8_next_shorter: "utf8_next bs = Some (n, r) \<Longrightarrow> length r < length bs"
  by (cases bs) (auto split: if_splits list.splits)

function utf8_decode :: "nat list \<Rightarrow> utext option" where
  "utf8_decode bs =
     (if bs = [] then Some []
      else case utf8_next bs of None \<Rightarrow> None | Some (n, r) \<Rightarrow> map_option ((#) n) (utf8_decode r))"
  by pat_completeness auto
termination
  by (relation "measure length") (auto dest: utf8_next_shorter)

declare utf8_decode.simps [simp del]

section \<open>Base64url\<close>

definition b64_char :: "nat \<Rightarrow> char" where
  "b64_char n = char_of (if n < 26 then 65 + n else if n < 52 then 71 + n else if n < 62 then n - 4 else if n = 62 then 45 else 95)"

definition b64_val :: "char \<Rightarrow> nat option" where
  "b64_val c =
     (let n = (of_char c :: nat) in
      if 65 \<le> n \<and> n \<le> 90 then Some (n - 65)
      else if 97 \<le> n \<and> n \<le> 122 then Some (n - 71)
      else if 48 \<le> n \<and> n \<le> 57 then Some (n + 4)
      else if n = 45 then Some 62 else if n = 95 then Some 63 else None)"

fun b64_sextets :: "nat list \<Rightarrow> nat list" where
  "b64_sextets [] = []"
| "b64_sextets [a] = [a div 4, a mod 4 * 16]"
| "b64_sextets [a, b] = [a div 4, a mod 4 * 16 + b div 16, b mod 16 * 4]"
| "b64_sextets (a # b # c # r) =
     [a div 4, a mod 4 * 16 + b div 16, b mod 16 * 4 + c div 64, c mod 64] @ b64_sextets r"

text \<open>The bits that do not fill a byte are dropped; a single character left over is an error.\<close>

fun b64_bytes :: "nat list \<Rightarrow> nat list option" where
  "b64_bytes [] = Some []"
| "b64_bytes [w] = None"
| "b64_bytes [w, x] = Some [w * 4 + x div 16]"
| "b64_bytes [w, x, y] = Some [w * 4 + x div 16, x mod 16 * 16 + y div 4]"
| "b64_bytes (w # x # y # z # r) =
     map_option (\<lambda>bs. [w * 4 + x div 16, x mod 16 * 16 + y div 4, y mod 4 * 64 + z] @ bs) (b64_bytes r)"

definition b64url_encode :: "utext \<Rightarrow> string option" where
  "b64url_encode s = map_option (\<lambda>bs. map b64_char (b64_sextets bs)) (utf8_encode s)"

text \<open>\<open>None\<close> is \<open>ValueError\<close>.\<close>

definition b64url_decode :: "string \<Rightarrow> utext option" where
  "b64url_decode s =
     (if s = [] then None
      else
        case those (map b64_val s) of
          None \<Rightarrow> None
        | Some sextets \<Rightarrow> (case b64_bytes sextets of None \<Rightarrow> None | Some bs \<Rightarrow> utf8_decode bs))"

section \<open>The NZB pointer\<close>

text \<open>\<open>xml.sax.saxutils.escape\<close>.\<close>

definition xml_escape :: "string \<Rightarrow> string" where
  "xml_escape s = concat (map (\<lambda>c. if c = CHR ''&'' then ''&amp;'' else if c = CHR ''>'' then ''&gt;''
     else if c = CHR ''<'' then ''&lt;'' else [c]) s)"

text \<open>The character reference after an ampersand and the rest: a number, a hexadecimal number, or up to 32
  characters other than white space, \<open><\<close>, \<open>&\<close>, \<open>#\<close> and \<open>;\<close>, each with an optional semicolon.\<close>

definition is_hex :: "char \<Rightarrow> bool" where
  "is_hex c = (let n = (of_char c :: nat) in 48 \<le> n \<and> n \<le> 57 \<or> 65 \<le> n \<and> n \<le> 70 \<or> 97 \<le> n \<and> n \<le> 102)"

definition with_semicolon :: "string \<Rightarrow> string \<Rightarrow> string \<times> string" where
  "with_semicolon u s = (case s of [] \<Rightarrow> (u, s) | c # cs \<Rightarrow> if c = CHR '';'' then (u @ [c], cs) else (u, s))"

definition ref_char :: "char \<Rightarrow> bool" where
  "ref_char c \<longleftrightarrow> (of_char c :: nat) \<notin> {9, 10, 12, 32} \<and> c \<notin> set ''<&#;''"

definition char_reference :: "string \<Rightarrow> (string \<times> string) option" where
  "char_reference s =
     (case s of
        [] \<Rightarrow> None
      | c # cs \<Rightarrow>
          if c = CHR ''#'' then
            (if takeWhile is_digit cs \<noteq> [] then Some (with_semicolon (c # takeWhile is_digit cs) (dropWhile is_digit cs))
             else case cs of
               [] \<Rightarrow> None
             | x # xs \<Rightarrow>
                 if (x = CHR ''x'' \<or> x = CHR ''X'') \<and> takeWhile is_hex xs \<noteq> []
                 then Some (with_semicolon (c # x # takeWhile is_hex xs) (dropWhile is_hex xs)) else None)
          else
            let u = take 32 (takeWhile ref_char s) in
            if u = [] then None else Some (with_semicolon u (drop (length u) s)))"

lemma with_semicolon_length: "with_semicolon u s = (a, b) \<Longrightarrow> length b \<le> length s"
  by (auto simp: with_semicolon_def split: list.splits if_splits)

lemma char_reference_length: "char_reference s = Some (u, r) \<Longrightarrow> length r \<le> length s"
proof -
  have drop: "length (dropWhile p xs) \<le> length xs" for p and xs :: string by (rule length_dropWhile_le)
  assume "char_reference s = Some (u, r)"
  then obtain a b where "with_semicolon a b = (u, r)" "length b \<le> length s"
    using drop by (auto simp: char_reference_def Let_def split: list.splits if_splits) (metis drop le_SucI)+
  with with_semicolon_length show ?thesis by fastforce
qed

function html_unescape :: "(string \<Rightarrow> string) \<Rightarrow> string \<Rightarrow> string" where
  "html_unescape ref [] = []"
| "html_unescape ref (c # cs) =
     (if c = CHR ''&'' then
        (case char_reference cs of
           None \<Rightarrow> c # html_unescape ref cs
         | Some (u, r) \<Rightarrow> ref u @ html_unescape ref r)
      else c # html_unescape ref cs)"
  by pat_completeness auto
termination
  by (relation "measure (length \<circ> snd)") (auto dest: char_reference_length)

definition NL :: string where
  "NL = [CHR 0x0A]"

text \<open>\<open>now\<close> is \<open>int(time.time())\<close>.\<close>

definition nzb_pointer :: "int \<Rightarrow> string \<Rightarrow> string \<Rightarrow> string" where
  \<open>nzb_pointer now source source_id =
     (let safe_source = xml_escape source; safe_id = xml_escape source_id; safe_name = xml_escape (source @ '':'' @ source_id) in
      ''<?xml version="1.0" encoding="UTF-8"?>'' @ NL @
      ''<nzb xmlns="http://www.newzbin.com/DTD/2003/nzb">'' @ NL @
      ''  <head>'' @ NL @
      ''    <meta type="name">'' @ safe_name @ ''</meta>'' @ NL @
      ''    <meta type="tidalhires_source">'' @ safe_source @ ''</meta>'' @ NL @
      ''    <meta type="tidalhires_source_id">'' @ safe_id @ ''</meta>'' @ NL @
      ''  </head>'' @ NL @
      ''  <file poster="tidalhires@local" date="'' @ py_str_int now @ ''" subject="'' @ safe_name @ '' yEnc (1/1)">'' @ NL @
      ''    <groups><group>tidalhires.fake</group></groups>'' @ NL @
      ''    <segments><segment bytes="1" number="1">tidalhires-'' @ safe_source @ ''@local</segment></segments>'' @ NL @
      ''  </file>'' @ NL @
      ''</nzb>'')\<close>

section \<open>Round trip of the ids\<close>

lemma utf8_next_char:
  assumes "scalar n"
  shows "utf8_next (utf8_char n @ r) = Some (n, r)"
proof -
  consider "n < 0x80" | "0x80 \<le> n" "n < 0x800" | "0x800 \<le> n" "n < 0x10000" | "0x10000 \<le> n" "n < 0x110000"
    using assms by (force simp: scalar_def)
  then show ?thesis
  proof cases
    case 1
    then show ?thesis by (simp add: utf8_char_def)
  next
    case 2
    then have "2 \<le> n div 64" "n div 64 < 32" by auto
    with 2 show ?thesis by (simp add: utf8_char_def continuation_def)
  next
    case 3
    define a x where "a = n div 64" and "x = n mod 64"
    define q y where "q = a div 64" and "y = a mod 64"
    have eq: "n = 64 * a + x" "a = 64 * q + y" and lt: "x < 64" "y < 64" and q: "n div 4096 = q"
      by (simp_all add: a_def x_def q_def y_def div_mult2_eq[of n 64 64, simplified])
    from 3 eq lt have "q < 16" "q = 0 \<longrightarrow> 32 \<le> y" by linarith+
    moreover from assms eq lt have "q = 13 \<longrightarrow> y < 32" unfolding scalar_def by linarith
    ultimately have "utf8_next ([0xE0 + q, 0x80 + y, 0x80 + x] @ r) = Some (q * 4096 + y * 64 + x, r)"
      using lt by (simp add: continuation_def)
    moreover have "utf8_char n = [0xE0 + q, 0x80 + y, 0x80 + x]"
      using 3 by (simp add: utf8_char_def q a_def[symmetric] x_def[symmetric] y_def[symmetric])
    moreover have "q * 4096 + y * 64 + x = n" using eq by linarith
    ultimately show ?thesis by simp
  next
    case 4
    define a x where "a = n div 64" and "x = n mod 64"
    define q y where "q = a div 64" and "y = a mod 64"
    define p z where "p = q div 64" and "z = q mod 64"
    have eq: "n = 64 * a + x" "a = 64 * q + y" "q = 64 * p + z" and lt: "x < 64" "y < 64" "z < 64"
      and q: "n div 4096 = q" "n div 262144 = p"
      by (simp_all add: a_def x_def q_def y_def p_def z_def div_mult2_eq[of n 64 64, simplified] div_mult2_eq[of n 4096 64, simplified])
    from 4 eq lt have "p < 5" "p = 0 \<longrightarrow> 16 \<le> z" "p = 4 \<longrightarrow> z < 16" by linarith+
    then have "utf8_next ([0xF0 + p, 0x80 + z, 0x80 + y, 0x80 + x] @ r) = Some (p * 262144 + z * 4096 + y * 64 + x, r)"
      using lt by (simp add: continuation_def)
    moreover have "utf8_char n = [0xF0 + p, 0x80 + z, 0x80 + y, 0x80 + x]"
      using 4 by (simp add: utf8_char_def q a_def[symmetric] x_def[symmetric] y_def[symmetric] z_def[symmetric])
    moreover have "p * 262144 + z * 4096 + y * 64 + x = n" using eq by linarith
    ultimately show ?thesis by simp
  qed
qed

lemma utf8_char_bytes: "scalar n \<Longrightarrow> utf8_char n \<noteq> [] \<and> (\<forall>b\<in>set (utf8_char n). b < 256)"
proof -
  assume "scalar n"
  then have "n < 0x110000" by (simp add: scalar_def)
  then have "n div 64 mod 64 < 64" "n mod 64 < 64" "n div 4096 mod 64 < 64" "n div 262144 < 5"
    "n < 0x800 \<longrightarrow> n div 64 < 32" "n < 0x10000 \<longrightarrow> n div 4096 < 16" by auto
  then show ?thesis by (auto simp: utf8_char_def)
qed

lemma utf8_roundtrip:
  assumes "utf8_encode s = Some bs"
  shows "utf8_decode bs = Some s \<and> (\<forall>b\<in>set bs. b < 256) \<and> (bs = [] \<longleftrightarrow> s = [])"
proof -
  from assms have sc: "list_all scalar s" and bs: "bs = concat (map utf8_char s)" by (auto simp: utf8_encode_def split: if_splits)
  from sc have "utf8_decode (concat (map utf8_char s)) = Some s"
  proof (induction s)
    case (Cons n s)
    then have "utf8_next (utf8_char n @ concat (map utf8_char s)) = Some (n, concat (map utf8_char s))"
      by (intro utf8_next_char) simp
    with Cons utf8_char_bytes[of n] show ?case by (subst utf8_decode.simps) simp
  qed (simp add: utf8_decode.simps)
  with sc utf8_char_bytes show ?thesis unfolding bs by (cases s) (auto simp: list_all_iff)
qed

lemma b64_val_char: "n < 64 \<Longrightarrow> b64_val (b64_char n) = Some n"
  by (auto simp: b64_val_def b64_char_def Let_def)

lemma b64_sextets_bound: "\<forall>b\<in>set bs. b < 256 \<Longrightarrow> \<forall>n\<in>set (b64_sextets bs). n < 64"
  by (induction bs rule: b64_sextets.induct) auto

lemma b64_bytes_sextets: "\<forall>b\<in>set bs. b < 256 \<Longrightarrow> b64_bytes (b64_sextets bs) = Some bs"
  by (induction bs rule: b64_sextets.induct) auto

lemma those_b64: "\<forall>n\<in>set ns. n < 64 \<Longrightarrow> those (map b64_val (map b64_char ns)) = Some ns"
  by (induction ns) (simp_all add: b64_val_char)

lemma token_roundtrip:
  "(b64url_encode s = None \<longleftrightarrow> \<not> list_all scalar s) \<and>
   Option.bind (b64url_encode s) b64url_decode = (if list_all scalar s \<and> s \<noteq> [] then Some s else None)"
proof (cases "utf8_encode s")
  case None
  then show ?thesis by (auto simp: b64url_encode_def utf8_encode_def split: if_splits)
next
  case (Some bs)
  then have sc: "list_all scalar s" by (auto simp: utf8_encode_def split: if_splits)
  note rt = utf8_roundtrip[OF Some]
  have those: "those (map b64_val (map b64_char (b64_sextets bs))) = Some (b64_sextets bs)"
    using b64_sextets_bound rt by (intro those_b64) blast
  have ne: "map b64_char (b64_sextets bs) = [] \<longleftrightarrow> s = []" using rt by (cases bs rule: b64_sextets.cases) auto
  from rt have bytes: "b64_bytes (b64_sextets bs) = Some bs" and dec: "utf8_decode bs = Some s" by (auto intro: b64_bytes_sextets)
  have "b64url_decode (map b64_char (b64_sextets bs)) = (if s = [] then None else Some s)"
    unfolding b64url_decode_def those ne by (simp add: bytes dec)
  with Some sc show ?thesis by (simp add: b64url_encode_def)
qed

text \<open>Decoding the token of a download link gives back the id it was made from, for every Unicode text other
  than the empty one, whose token is rejected. Only a text with a surrogate has no token.\<close>

theorem b64url_roundtrip:
  "(b64url_encode s = None \<longleftrightarrow> \<not> list_all scalar s) \<and>
   Option.bind (b64url_encode s) b64url_decode = (if list_all scalar s \<and> s \<noteq> [] then Some s else None)"
  by (rule token_roundtrip)

section \<open>Recognising a source\<close>

text \<open>The element \<open><meta type="K">V</meta>\<close> at the start of a text, with \<open>K\<close>, \<open>V\<close> and the rest. The pattern
  leaves the matcher no choice: each of its repetitions ends at the first character outside its class.\<close>

definition after_prefix :: "string \<Rightarrow> string \<Rightarrow> string option" where
  "after_prefix p s = (if prefix p s then Some (drop (length p) s) else None)"

definition meta_at :: "string \<Rightarrow> (string \<times> string \<times> string) option" where
  \<open>meta_at s =
     (case after_prefix ''<meta'' s of
        None \<Rightarrow> None
      | Some s1 \<Rightarrow>
          if takeWhile py_isspace_char s1 = [] then None
          else
            (case after_prefix ''type="'' (dropWhile py_isspace_char s1) of
               None \<Rightarrow> None
             | Some s2 \<Rightarrow>
                 let key = takeWhile (\<lambda>c. c \<noteq> CHR 0x22) s2 in
                 if key = [] then None
                 else
                   (case after_prefix ''">'' (drop (length key) s2) of
                      None \<Rightarrow> None
                    | Some s3 \<Rightarrow>
                        let v = takeWhile (\<lambda>c. c \<noteq> CHR ''<'') s3 in
                        (case after_prefix ''</meta>'' (drop (length v) s3) of
                           None \<Rightarrow> None
                         | Some s4 \<Rightarrow> Some (key, v, s4)))))\<close>

lemma after_prefix_length: "after_prefix p s = Some r \<Longrightarrow> length r = length s - length p \<and> length p \<le> length s"
  by (auto simp: after_prefix_def prefix_def split: if_splits)

lemma meta_at_length:
  assumes "meta_at s = Some (k, v, r)"
  shows "length r < length s"
proof -
  from assms obtain s1 s2 s3 where s: "after_prefix ''<meta'' s = Some s1"
    and s2: "after_prefix (''type='' @ [CHR 0x22]) (dropWhile py_isspace_char s1) = Some s2"
    and s3: "after_prefix [CHR 0x22, CHR ''>''] (drop (length k) s2) = Some s3"
    and r: "after_prefix ''</meta>'' (drop (length v) s3) = Some r"
    by (auto simp: meta_at_def Let_def split: option.splits if_splits)
  have "length s1 < length s" using after_prefix_length[OF s] by (simp; linarith)
  moreover have "length (dropWhile py_isspace_char s1) \<le> length s1" by (rule length_dropWhile_le)
  moreover have "length s2 \<le> length (dropWhile py_isspace_char s1)" "length s3 \<le> length s2" "length r \<le> length s3"
    using after_prefix_length[OF s2] after_prefix_length[OF s3] after_prefix_length[OF r] by simp_all
  ultimately show ?thesis by linarith
qed

function meta_pairs :: "string \<Rightarrow> (string \<times> string) list" where
  "meta_pairs [] = []"
| "meta_pairs (c # cs) =
     (case meta_at (c # cs) of
        None \<Rightarrow> meta_pairs cs
      | Some (k, v, r) \<Rightarrow> (k, v) # meta_pairs r)"
  by pat_completeness auto
termination
  by (relation "measure length") (auto dest: meta_at_length)

text \<open>A dictionary as its pairs in order; the last pair of a key counts.\<close>

definition parse_nzb_meta :: "(string \<Rightarrow> string) \<Rightarrow> string \<Rightarrow> (string \<times> string) list" where
  "parse_nzb_meta ref content = map (\<lambda>(k, v). (k, html_unescape ref v)) (meta_pairs content)"

definition meta_get :: "string \<Rightarrow> (string \<times> string) list \<Rightarrow> string option" where
  "meta_get k d = map_of (rev d) k"

text \<open>\<open>tidal:?[\s_-]?(\d{6,12})\<close>: the longest run of digits first.\<close>

fun exactly :: "nat \<Rightarrow> re \<Rightarrow> re" where
  "exactly 0 r = Eps"
| "exactly (Suc n) r = Cat r (exactly n r)"

definition between_times :: "nat \<Rightarrow> nat \<Rightarrow> re \<Rightarrow> re" where
  "between_times m n r = foldr (\<lambda>k t. Alt (exactly k r) t) (rev [Suc m..<Suc n]) (exactly m r)"

definition TIDAL_RE :: re where
  "TIDAL_RE = cats (map Ch ''tidal'' @ [Opt (Ch CHR '':''), Opt (Cls (\<lambda>c. py_isspace_char c \<or> c = CHR ''_'' \<or> c = CHR ''-'')),
     Grp 1 (between_times 6 12 Digit)])"

definition tidal_id_in :: "string \<Rightarrow> string option" where
  "tidal_id_in s = map_option (grp 1) (re_search TIDAL_RE s)"

definition SOURCE_NAME_CHAR :: "char \<Rightarrow> bool" where
  "SOURCE_NAME_CHAR c = (let n = (of_char c :: nat) in 97 \<le> n \<and> n \<le> 122 \<or> 48 \<le> n \<and> n \<le> 57 \<or> n = 95)"

text \<open>\<open>re.match("^[a-z0-9_]+$", s)\<close>: the final anchor also holds before a trailing newline.\<close>

definition validate_source_name :: "string option \<Rightarrow> string option" where
  "validate_source_name source =
     (case source of
        None \<Rightarrow> None
      | Some s \<Rightarrow>
          let w = takeWhile SOURCE_NAME_CHAR s in
          if s \<noteq> [] \<and> w \<noteq> [] \<and> (drop (length w) s = [] \<or> drop (length w) s = NL) then Some s else None)"

fun source_by_prefix :: "string list \<Rightarrow> string \<Rightarrow> (string \<times> string) option" where
  "source_by_prefix [] name = None"
| "source_by_prefix (a # as) name =
     (case after_prefix (a @ '':'') name of Some raw \<Rightarrow> Some (a, raw) | None \<Rightarrow> source_by_prefix as name)"

text \<open>\<open>None\<close> is a file that cannot be read.\<close>

fun source_in_files :: "(string \<Rightarrow> string) \<Rightarrow> string option list \<Rightarrow> (string \<times> string) option" where
  "source_in_files ref [] = None"
| "source_in_files ref (None # fs) = source_in_files ref fs"
| "source_in_files ref (Some content # fs) =
     (let meta = parse_nzb_meta ref content in
      if truthy_str (meta_get ''tidalhires_source'' meta) \<and> truthy_str (meta_get ''tidalhires_source_id'' meta)
      then Some (the (meta_get ''tidalhires_source'' meta), the (meta_get ''tidalhires_source_id'' meta))
      else
        case tidal_id_in content of
          Some n \<Rightarrow> Some (''tidal'', n)
        | None \<Rightarrow> source_in_files ref fs)"

definition parse_source_name :: "(string \<Rightarrow> string) \<Rightarrow> string list \<Rightarrow> string \<Rightarrow> string option list \<Rightarrow> (string \<times> string) option" where
  "parse_source_name ref adapters name files =
     (case source_by_prefix adapters name of
        Some r \<Rightarrow> Some r
      | None \<Rightarrow>
          (case source_in_files ref files of
             Some r \<Rightarrow> Some r
           | None \<Rightarrow> (case tidal_id_in name of Some n \<Rightarrow> Some (''tidal'', n) | None \<Rightarrow> None)))"

section \<open>Round trip of the pointer\<close>

text \<open>What is used of the table of character references.\<close>

definition basic_refs :: "(string \<Rightarrow> string) \<Rightarrow> bool" where
  "basic_refs ref \<longleftrightarrow> ref ''amp;'' = ''&'' \<and> ref ''lt;'' = ''<'' \<and> ref ''gt;'' = ''>''"

lemma char_reference_named:
  "char_reference (''amp;'' @ r) = Some (''amp;'', r)" "char_reference (''lt;'' @ r) = Some (''lt;'', r)"
  "char_reference (''gt;'' @ r) = Some (''gt;'', r)"
  by (simp_all add: char_reference_def ref_char_def with_semicolon_def)

lemma unescape_escape: "basic_refs ref \<Longrightarrow> html_unescape ref (xml_escape s) = s"
proof (induction s)
  case (Cons c s)
  then show ?case using char_reference_named[of "xml_escape s"] by (auto simp: xml_escape_def basic_refs_def)
qed (simp add: xml_escape_def)

lemma xml_escape_no_angle: "CHR ''<'' \<notin> set (xml_escape s)"
  by (auto simp: xml_escape_def)

lemma xml_escape_empty: "xml_escape s = [] \<longleftrightarrow> s = []"
  by (cases s) (auto simp: xml_escape_def)

text \<open>A text in which no tag starts with \<open><m\<close>, whatever follows it.\<close>

fun skips :: "string \<Rightarrow> bool" where
  "skips [] = True"
| "skips [c] = (c \<noteq> CHR ''<'')"
| "skips (c # d # s) = ((c \<noteq> CHR ''<'' \<or> d \<noteq> CHR ''m'') \<and> skips (d # s))"

lemma meta_at_None: "\<not> prefix ''<m'' s \<Longrightarrow> meta_at s = None"
  by (cases s; cases "tl s") (auto simp: meta_at_def after_prefix_def)

lemma meta_pairs_skips: "skips u \<Longrightarrow> meta_pairs (u @ r) = meta_pairs r"
proof (induction u rule: skips.induct)
  case (2 c)
  then show ?case by (simp add: meta_at_None)
next
  case (3 c d s)
  then have "meta_at (c # d # s @ r) = None" by (intro meta_at_None) auto
  with 3 show ?case by simp
qed simp

lemma skips_no_angle: "CHR ''<'' \<notin> set u \<Longrightarrow> skips u"
  by (induction u rule: skips.induct) auto

lemma meta_pairs_escaped: "meta_pairs (xml_escape s @ r) = meta_pairs r"
  by (intro meta_pairs_skips skips_no_angle xml_escape_no_angle)

lemma meta_atI:
  assumes "after_prefix ''<meta'' s = Some s1" "takeWhile py_isspace_char s1 \<noteq> []"
    "after_prefix (''type='' @ [CHR 0x22]) (dropWhile py_isspace_char s1) = Some s2"
    "takeWhile (\<lambda>c. c \<noteq> CHR 0x22) s2 = key" "key \<noteq> []" "after_prefix [CHR 0x22, CHR ''>''] (drop (length key) s2) = Some s3"
    "takeWhile (\<lambda>c. c \<noteq> CHR ''<'') s3 = v" "after_prefix ''</meta>'' (drop (length v) s3) = Some r"
  shows "meta_at s = Some (key, v, r)"
  using assms by (simp add: meta_at_def Let_def)

lemma meta_pairs_element:
  assumes key: "key \<noteq> []" "CHR 0x22 \<notin> set key" and v: "CHR ''<'' \<notin> set v"
  shows "meta_pairs (''<meta type='' @ [CHR 0x22] @ key @ [CHR 0x22, CHR ''>''] @ v @ ''</meta>'' @ r) = (key, v) # meta_pairs r"
proof -
  let ?s3 = "v @ ''</meta>'' @ r"
  let ?s2 = "key @ [CHR 0x22, CHR ''>''] @ ?s3"
  let ?s = "''<meta type='' @ [CHR 0x22] @ ?s2"
  have k: "takeWhile (\<lambda>c. c \<noteq> CHR 0x22) ?s2 = key"
    using key(2) by (subst takeWhile_append2) auto
  have k': "drop (length key) ?s2 = [CHR 0x22, CHR ''>''] @ ?s3" by simp
  have p1: "after_prefix ''<meta'' ?s = Some ('' type='' @ [CHR 0x22] @ ?s2)" by (simp add: after_prefix_def)
  have sp: "takeWhile py_isspace_char ('' type='' @ [CHR 0x22] @ ?s2) = '' ''"
    "dropWhile py_isspace_char ('' type='' @ [CHR 0x22] @ ?s2) = ''type='' @ [CHR 0x22] @ ?s2"
    by (simp_all add: py_isspace_char_def)
  have p2: "after_prefix (''type='' @ [CHR 0x22]) (''type='' @ [CHR 0x22] @ ?s2) = Some ?s2" by (simp add: after_prefix_def)
  have p3: "after_prefix [CHR 0x22, CHR ''>''] ([CHR 0x22, CHR ''>''] @ ?s3) = Some ?s3" by (simp add: after_prefix_def)
  have p4: "drop (length v) ?s3 = ''</meta>'' @ r" "after_prefix ''</meta>'' (''</meta>'' @ r) = Some r"
    by (simp_all add: after_prefix_def)
  have w: "takeWhile (\<lambda>c. c \<noteq> CHR ''<'') ?s3 = v" using v by (subst takeWhile_append2) auto
  have "meta_at ?s = Some (key, v, r)"
    by (rule meta_atI[OF p1 _ _ k key(1) _ w]) (simp_all only: sp p2 k' p3 p4, simp)
  then show ?thesis by simp
qed

definition POINTER_HEAD :: string where
  \<open>POINTER_HEAD = ''<?xml version="1.0" encoding="UTF-8"?>'' @ NL @ ''<nzb xmlns="http://www.newzbin.com/DTD/2003/nzb">'' @ NL @
     ''  <head>'' @ NL @ ''    ''\<close>

definition POINTER_TAIL :: "int \<Rightarrow> string \<Rightarrow> string \<Rightarrow> string list" where
  \<open>POINTER_TAIL now safe_name safe_source =
     [NL @ ''  </head>'' @ NL @ ''  <file poster="tidalhires@local" date="'', py_str_int now, ''" subject="'', safe_name,
      '' yEnc (1/1)">'' @ NL @ ''    <groups><group>tidalhires.fake</group></groups>'' @ NL @
      ''    <segments><segment bytes="1" number="1">tidalhires-'', safe_source,
      ''@local</segment></segments>'' @ NL @ ''  </file>'' @ NL @ ''</nzb>'']\<close>

abbreviation meta_element :: "string \<Rightarrow> string \<Rightarrow> string \<Rightarrow> string" where
  "meta_element key v r \<equiv> ''<meta type='' @ [CHR 0x22] @ key @ [CHR 0x22, CHR ''>''] @ v @ ''</meta>'' @ r"

lemma pointer_split:
  "nzb_pointer now source source_id =
     POINTER_HEAD @ meta_element ''name'' (xml_escape (source @ '':'' @ source_id))
       ((NL @ ''    '') @ meta_element ''tidalhires_source'' (xml_escape source)
       ((NL @ ''    '') @ meta_element ''tidalhires_source_id'' (xml_escape source_id)
       (concat (POINTER_TAIL now (xml_escape (source @ '':'' @ source_id)) (xml_escape source)))))"
  by (simp add: nzb_pointer_def POINTER_HEAD_def POINTER_TAIL_def NL_def Let_def)

lemma py_str_int_no_angle: "CHR ''<'' \<notin> set (py_str_int n)"
proof
  assume "CHR ''<'' \<in> set (py_str_int n)"
  then obtain m where "CHR ''<'' \<in> set (py_str_nat m)" by (auto simp: py_str_int_def split: if_splits)
  from py_str_nat_digits[OF this] obtain d where "d < 10" "CHR ''<'' = digit_char d" by blast
  then have "(of_char CHR ''<'' :: nat) = 48 + d" by (simp add: digit_char_def)
  with \<open>d < 10\<close> show False by simp
qed

lemma meta_pairs_concat: "\<forall>u\<in>set us. skips u \<Longrightarrow> meta_pairs (concat us) = []"
  by (induction us) (simp_all add: meta_pairs_skips)

lemma meta_pairs_tail:
  assumes "CHR ''<'' \<notin> set a" "CHR ''<'' \<notin> set b"
  shows "meta_pairs (concat (POINTER_TAIL now a b)) = []"
  using assms by (intro meta_pairs_concat) (simp add: POINTER_TAIL_def NL_def skips_no_angle py_str_int_no_angle)

lemma pointer_meta_pairs:
  "meta_pairs (nzb_pointer now source source_id) =
     [(''name'', xml_escape (source @ '':'' @ source_id)), (''tidalhires_source'', xml_escape source),
      (''tidalhires_source_id'', xml_escape source_id)]"
proof -
  have skip: "skips POINTER_HEAD" "skips (NL @ ''    '')" by (simp_all add: POINTER_HEAD_def NL_def)
  note el = meta_pairs_element[OF _ _ xml_escape_no_angle]
  have 1: "meta_pairs (meta_element ''name'' (xml_escape x) r) = (''name'', xml_escape x) # meta_pairs r" for x r
    by (rule el) simp_all
  have 2: "meta_pairs (meta_element ''tidalhires_source'' (xml_escape x) r) = (''tidalhires_source'', xml_escape x) # meta_pairs r" for x r
    by (rule el) simp_all
  have 3: "meta_pairs (meta_element ''tidalhires_source_id'' (xml_escape x) r) = (''tidalhires_source_id'', xml_escape x) # meta_pairs r" for x r
    by (rule el) simp_all
  show ?thesis
    unfolding pointer_split meta_pairs_skips[OF skip(1)] 1 meta_pairs_skips[OF skip(2)] 2 3
      meta_pairs_tail[OF xml_escape_no_angle xml_escape_no_angle] ..
qed

lemma pointer_parsed:
  assumes "basic_refs ref" and "source \<noteq> []" and "source_id \<noteq> []"
    and "source_by_prefix adapters name = None"
  shows "parse_source_name ref adapters name (Some (nzb_pointer now source source_id) # files) = Some (source, source_id)"
  using assms
  by (simp add: parse_source_name_def parse_nzb_meta_def pointer_meta_pairs meta_get_def unescape_escape Let_def truthy_str_def)

text \<open>The NZB that is served for a candidate is recognised as that candidate when it is uploaded, whatever its
  id is: the characters that XML reserves survive, and nothing in the id is taken for markup. The name of
  the upload must not itself start with the prefix of an adapter, and the files before it must say nothing.\<close>

theorem pointer_recognised:
  assumes "basic_refs ref" and "source \<noteq> []" and "source_id \<noteq> []"
    and "source_by_prefix adapters name = None"
  shows "parse_source_name ref adapters name (Some (nzb_pointer now source source_id) # files) = Some (source, source_id)"
  by (rule pointer_parsed) (fact assms)+

definition DEMO_REFS :: "string \<Rightarrow> string" where
  "DEMO_REFS u = (if u = ''amp;'' then ''&'' else if u = ''lt;'' then ''<'' else if u = ''gt;'' then ''>'' else ''&'' @ u)"

theorem pointer_recognised_witness:
  "parse_source_name DEMO_REFS [''tidal'', ''local''] ''A.nzb'' [Some (nzb_pointer 7 ''local'' ''A & <B>'')] = Some (''local'', ''A & <B>'')"
  by (rule pointer_recognised) (simp_all add: basic_refs_def DEMO_REFS_def after_prefix_def)

end
