(* ===== verification/Grab_Api.thy ===== *)
theory Grab_Api
  imports Grab_Tokens Soulseek Backend_Clients
begin

text \<open>
  The grab endpoints of \<open>app/server.py\<close>: serving the NZB of a candidate, accepting a grab from Lidarr (as a
  source grab or on the backend lane), the ingest endpoints for completed folders, and the queue and
  history that Lidarr polls.

  The state is the \<open>lane\<close> of \<open>Backend_Lane\<close>; a request handler is one step of it. Worker threads may
  change the job queue while a handler runs: \<open>mid1\<close> stands for what they do between the deduplication check and
  the insertion, \<open>mid2\<close> for what they do before the row is read back. Adapters are records of the operations
  the handlers call on them; \<open>digest\<close> is the truncated SHA-256 of \<open>hash_rel\<close>.
\<close>

section \<open>Adapters and canonical ids\<close>

record source_adapter =
  ga_name :: string
  ga_enabled :: bool
  ga_import_mode :: bool
  ga_normalize :: "(string \<Rightarrow> folder_error + string) option"
  ga_title :: "string \<Rightarrow> folder_error + string"

datatype source_ref = Album_Id int | Folder_Id string

fun source_ref_str :: "source_ref \<Rightarrow> string" where
  "source_ref_str (Album_Id n) = py_str_int n"
| "source_ref_str (Folder_Id s) = s"

fun source_ref_json :: "source_ref \<Rightarrow> json" where
  "source_ref_json (Album_Id n) = JInt n"
| "source_ref_json (Folder_Id s) = JStr s"

definition get_adapter :: "source_adapter list \<Rightarrow> string \<Rightarrow> source_adapter option" where
  "get_adapter as name = find (\<lambda>a. ga_name a = name) as"

text \<open>\<open>repr\<close> of a string, as error messages quote it.\<close>

definition hex_digit :: "nat \<Rightarrow> char" where
  "hex_digit n = (if n < 10 then char_of (48 + n) else char_of (87 + n))"

definition repr_char :: "char \<Rightarrow> char \<Rightarrow> string" where
  "repr_char q c =
     (let n = of_char c :: nat in
      if c = q \<or> n = 0x5C then [CHR 0x5C, c]
      else if n = 9 then [CHR 0x5C, CHR ''t''] else if n = 10 then [CHR 0x5C, CHR ''n''] else if n = 13 then [CHR 0x5C, CHR ''r'']
      else if n < 0x20 \<or> 0x7F \<le> n \<and> n \<le> 0xA0 \<or> n = 0xAD then [CHR 0x5C, CHR ''x'', hex_digit (n div 16), hex_digit (n mod 16)]
      else [c])"

definition py_repr :: "string \<Rightarrow> string" where
  "py_repr s =
     (let q = (if CHR 0x27 \<in> set s \<and> CHR 0x22 \<notin> set s then CHR 0x22 else CHR 0x27) in
      [q] @ concat (map (repr_char q) s) @ [q])"

text \<open>\<open>lookup n\<close> is the title and the size that the album lookup of TIDAL gives, \<open>None\<close> when it raises. A missing
  \<open>ga_normalize\<close> is an adapter without that method.\<close>

definition addurl_canonicalize :: "(string \<Rightarrow> string) \<Rightarrow> (int \<Rightarrow> (string \<times> int) option) \<Rightarrow> source_adapter \<Rightarrow> string \<Rightarrow>
    folder_error + (source_ref \<times> string \<times> string \<times> int)" where
  "addurl_canonicalize digest lookup a raw_id =
     (if ga_name a = ''tidal'' then
        (case py_int raw_id of
           None \<Rightarrow> Inl (Runtime_Failure (''tidal raw_id must be int: '' @ py_repr raw_id))
         | Some n \<Rightarrow>
             let (title, sz) = (case lookup n of Some r \<Rightarrow> r | None \<Rightarrow> (''TIDAL album '' @ py_str_int n, 0)) in
             Inr (Album_Id n, ''tidal:'' @ py_str_int n, title, sz))
      else
        case ga_normalize a of
          None \<Rightarrow> Inr (Folder_Id raw_id, ga_name a @ '':'' @ raw_id, ''['' @ py_upper (ga_name a) @ ''] '' @ raw_id, 0)
        | Some nrm \<Rightarrow>
            (case nrm raw_id of
               Inl e \<Rightarrow> Inl e
             | Inr rel \<Rightarrow>
                 if ga_name a = ''local'' then Inr (Folder_Id rel, ''local:'' @ digest rel, ''[Local] '' @ rel, 0)
                 else if ga_name a = ''soulseek'' then
                   (case ga_title a rel of
                      Inl e \<Rightarrow> Inl e
                    | Inr title \<Rightarrow> Inr (Folder_Id rel, ''soulseek:'' @ digest rel, title, 0))
                 else Inr (Folder_Id rel, ga_name a @ '':'' @ digest rel, ''['' @ py_upper (ga_name a) @ ''] '' @ rel, 0)))"

definition canonicalize_source_id :: "source_adapter \<Rightarrow> string \<Rightarrow> folder_error + string" where
  "canonicalize_source_id a source_id =
     (if ga_name a \<in> {''local'', ''soulseek'', ''sab_usenet'', ''qbittorrent_torrent''}
      then (case ga_normalize a of None \<Rightarrow> Inl Value_Failure | Some nrm \<Rightarrow> nrm source_id)
      else if ga_name a = ''tidal''
      then (case py_int source_id of None \<Rightarrow> Inl Value_Failure | Some n \<Rightarrow> Inr (py_str_int n))
      else Inr source_id)"

section \<open>Serving the NZB\<close>

datatype answer =
    Nzo_Ids "string list" "int option"
  | Refused nat string
  | Nzb_File string string
  | Plain_Ok

definition emit_nzb_response :: "(string \<Rightarrow> string) \<Rightarrow> int \<Rightarrow> string \<Rightarrow> string \<Rightarrow> answer" where
  "emit_nzb_response digest now source source_id =
     Nzb_File (''tidalhires-'' @ source @ ''-'' @ digest source_id @ ''.nzb'') (nzb_pointer now source source_id)"

text \<open>The decoded id as a string of this model; code points beyond 255 are outside of it.\<close>

definition narrow :: "utext \<Rightarrow> string option" where
  "narrow u = (if list_all (\<lambda>n. n < 256) u then Some (map char_of u) else None)"

definition widen :: "string \<Rightarrow> utext" where
  "widen s = map of_char s"

definition download_nzb :: "(string \<Rightarrow> string) \<Rightarrow> source_adapter list \<Rightarrow> int \<Rightarrow> string \<Rightarrow> string \<Rightarrow> answer option" where
  "download_nzb digest adapters now source encoded =
     (case validate_source_name (Some source) of
        None \<Rightarrow> Some (Refused 400 ''invalid source name'')
      | Some _ \<Rightarrow>
          (case b64url_decode encoded of
             None \<Rightarrow> Some (Refused 400 ''bad encoded source_id'')
           | Some u \<Rightarrow>
               (case narrow u of
                  None \<Rightarrow> None
                | Some source_id \<Rightarrow>
                    (case get_adapter adapters source of
                       None \<Rightarrow> Some (Refused 404 ''unknown source'')
                     | Some a \<Rightarrow>
                         if \<not> ga_enabled a then Some (Refused 503 ''source disabled'')
                         else if \<not> ga_import_mode a then Some (Refused 503 ''source not in import mode'')
                         else
                           (case canonicalize_source_id a source_id of
                              Inl Os_Failure \<Rightarrow> None
                            | Inl Job_Cancelled \<Rightarrow> None
                            | Inl _ \<Rightarrow> Some (Refused 400 ''invalid source_id'')
                            | Inr sid \<Rightarrow> Some (emit_nzb_response digest now source sid))))))"

text \<open>The callback URL of a candidate, with the two parts that \<open>quote_plus\<close> escapes given by a parameter; \<open>None\<close> is
  \<open>UnicodeEncodeError\<close>.\<close>

definition addurl_callback_url :: "(string \<Rightarrow> string) \<Rightarrow> string \<Rightarrow> string \<Rightarrow> release_candidate \<Rightarrow> string option" where
  "addurl_callback_url quote_plus api_key base_url c =
     map_option (\<lambda>token. base_url @ ''/download/'' @ quote_plus (ca_source_type c) @ ''/'' @ token @ ''.nzb?apikey='' @ quote_plus api_key)
       (b64url_encode (widen (ca_source_id c)))"

section \<open>A grab of a source\<close>

definition drop_proj :: "string \<Rightarrow> lane \<Rightarrow> lane" where
  "drop_proj jid lan = lan\<lparr>ln_proj := AList.delete jid (ln_proj lan)\<rparr>"

definition queued_projection :: "rat \<Rightarrow> string \<Rightarrow> string \<Rightarrow> string \<Rightarrow> int \<Rightarrow> string \<Rightarrow> string \<Rightarrow> dict" where
  "queued_projection now jid category title sz source source_id =
     [(''id'', JStr jid), (''category'', JStr category), (''status'', JStr ''queued''), (''title'', JStr title), (''size'', JInt sz),
      (''percent'', JInt 0), (''source_type'', JStr source), (''source_id'', JStr source_id), (''created_at'', JFloat now)]"

record grab =
  gr_jid :: string
  gr_key :: string
  gr_source :: string
  gr_source_id :: string
  gr_payload :: dict
  gr_projection :: dict

text \<open>From the deduplication check to the answer: an active job with the key is returned; otherwise the projection
  is published before the row is inserted, and withdrawn when the insertion failed or the row turned out to be
  another job's. The \<open>direct\<close> flag is the fallback of a TIDAL grab without a queue, which starts a thread.\<close>

definition submit_grab :: "rat \<Rightarrow> (jobs_db \<Rightarrow> jobs_db) \<Rightarrow> (jobs_db \<Rightarrow> jobs_db) \<Rightarrow> bool \<Rightarrow> grab \<Rightarrow> lane \<Rightarrow> answer \<times> lane" where
  "submit_grab now mid1 mid2 direct g lan =
     (case Option.bind (find_active_job_by_dedupe (gr_key g) (ln_jobs lan)) (\<lambda>j. if job_jid j = [] then None else Some j) of
        Some j \<Rightarrow> (Nzo_Ids [job_jid j] (Some (job_id j)), lan)
      | None \<Rightarrow>
          let lan1 = set_proj (gr_jid g) (gr_projection g) lan;
              (enq, db) = enqueue_job now (gr_jid g) (gr_source g @ ''_grab'') (gr_payload g) (Some (gr_key g))
                            (Some (gr_source g)) (Some (gr_source_id g)) 5 3 (mid1 (ln_jobs lan1));
              db' = mid2 db; lan2 = lan1\<lparr>ln_jobs := db'\<rparr> in
          (case enq of
             None \<Rightarrow>
               if direct then (Nzo_Ids [gr_jid g] None, lan2)
               else (Refused 503 ''queue unavailable'', drop_proj (gr_jid g) lan2)
           | Some i \<Rightarrow>
               (case get_job i db' of
                  Some q \<Rightarrow>
                    if job_jid q \<noteq> [] \<and> job_jid q \<noteq> gr_jid g
                    then (Nzo_Ids [job_jid q] (Some (job_id q)), drop_proj (gr_jid g) lan2)
                    else (Nzo_Ids [gr_jid g] (Some i), lan2)
                | None \<Rightarrow> (Nzo_Ids [gr_jid g] (Some i), lan2))))"

record sab_request =
  rq_name :: "string option"
  rq_nzbname :: "string option"
  rq_cat :: "string option"
  rq_value :: "string option"
  rq_nzo_id :: "string option"
  rq_files :: "string option list"

definition addurl_name :: "sab_request \<Rightarrow> string" where
  "addurl_name rq = str_or (rq_name rq) (str_or (rq_nzbname rq) [])"

definition request_category :: "sab_request \<Rightarrow> string" where
  "request_category rq = (case rq_cat rq of None \<Rightarrow> ''music'' | Some c \<Rightarrow> c)"

text \<open>The source half of \<open>mode=addurl\<close>; an exception that is no \<open>RuntimeError\<close> leaves the handler (\<open>None\<close>).\<close>

definition addurl_source :: "(string \<Rightarrow> string) \<Rightarrow> (string \<Rightarrow> string) \<Rightarrow> (int \<Rightarrow> (string \<times> int) option) \<Rightarrow> source_adapter list \<Rightarrow>
    rat \<Rightarrow> string \<Rightarrow> (jobs_db \<Rightarrow> jobs_db) \<Rightarrow> (jobs_db \<Rightarrow> jobs_db) \<Rightarrow> sab_request \<Rightarrow> lane \<Rightarrow> (answer \<times> lane) option" where
  "addurl_source ref digest lookup adapters now jid mid1 mid2 rq lan =
     (case parse_source_name ref (map ga_name adapters) (addurl_name rq) (rq_files rq) of
        None \<Rightarrow> Some (Refused 400 ''no recognized source prefix'', lan)
      | Some (source, raw_id) \<Rightarrow>
          (case get_adapter adapters source of
             None \<Rightarrow> Some (Refused 400 (''unknown source: '' @ source), lan)
           | Some a \<Rightarrow>
               if \<not> ga_enabled a then Some (Refused 503 (''source not enabled: '' @ source), lan)
               else if \<not> ga_import_mode a then Some (Refused 503 (''source not in import mode: '' @ source), lan)
               else
                 (case addurl_canonicalize digest lookup a raw_id of
                    Inl (Runtime_Failure message) \<Rightarrow> Some (Refused 400 message, lan)
                  | Inl _ \<Rightarrow> None
                  | Inr (sid, key, title, sz) \<Rightarrow>
                      let cat = request_category rq;
                          proj = queued_projection now jid cat title sz source (source_ref_str sid) @
                            (if source = ''tidal'' then [(''album_id'', source_ref_json sid)] else []) in
                      Some (submit_grab now mid1 mid2 (source = ''tidal'')
                        \<lparr>gr_jid = jid, gr_key = key, gr_source = source, gr_source_id = source_ref_str sid,
                         gr_payload = [(''source_id'', source_ref_json sid), (''title'', JStr title), (''category'', JStr cat)],
                         gr_projection = proj\<rparr> lan))))"

section \<open>The ingest endpoints\<close>

definition folder_grab :: "(string \<Rightarrow> string) \<Rightarrow> rat \<Rightarrow> string \<Rightarrow> string \<Rightarrow> string \<Rightarrow> string \<Rightarrow> grab" where
  "folder_grab digest now jid source label rel =
     (let title = ''['' @ label @ ''] '' @ rel in
      \<lparr>gr_jid = jid, gr_key = source @ '':'' @ digest rel, gr_source = source, gr_source_id = rel,
       gr_payload = [(''source_id'', JStr rel), (''title'', JStr title)],
       gr_projection = queued_projection now jid ''music'' title 0 source rel\<rparr>)"

text \<open>The three handlers differ in the status of a rejected path. \<open>body\<close> is the decoded JSON body.\<close>

definition ingest_path :: "dict \<Rightarrow> answer + string" where
  "ingest_path body =
     (case dget ''path'' body of
        JStr raw \<Rightarrow> if py_strip raw = [] then Inl (Refused 400 ''path required'') else Inr (py_strip raw)
      | _ \<Rightarrow> Inl (Refused 400 ''path must be a string''))"

definition folder_ingest :: "(string \<Rightarrow> nat) \<Rightarrow> (string \<Rightarrow> string) \<Rightarrow> source_adapter list \<Rightarrow> string \<Rightarrow> string \<Rightarrow> rat \<Rightarrow> string \<Rightarrow>
    (jobs_db \<Rightarrow> jobs_db) \<Rightarrow> (jobs_db \<Rightarrow> jobs_db) \<Rightarrow> dict \<Rightarrow> lane \<Rightarrow> (answer \<times> lane) option" where
  "folder_ingest status digest adapters source label now jid mid1 mid2 body lan =
     (case ingest_path body of
        Inl r \<Rightarrow> Some (r, lan)
      | Inr path \<Rightarrow>
          (case get_adapter adapters source of
             None \<Rightarrow> Some (Refused 503 (source @ '' adapter not enabled''), lan)
           | Some a \<Rightarrow>
               if \<not> ga_enabled a then Some (Refused 503 (source @ '' adapter not enabled''), lan)
               else if \<not> ga_import_mode a then Some (Refused 503 (source @ '' adapter not in import mode''), lan)
               else
                 (case ga_normalize a of
                    None \<Rightarrow> Some (Refused 503 (source @ '' adapter unsupported''), lan)
                  | Some nrm \<Rightarrow>
                      (case nrm path of
                         Inl (Runtime_Failure message) \<Rightarrow> Some (Refused (status message) message, lan)
                       | Inl _ \<Rightarrow> None
                       | Inr rel \<Rightarrow> Some (submit_grab now mid1 mid2 False (folder_grab digest now jid source label rel) lan)))))"

definition local_ingest :: "(string \<Rightarrow> string) \<Rightarrow> source_adapter list \<Rightarrow> rat \<Rightarrow> string \<Rightarrow> (jobs_db \<Rightarrow> jobs_db) \<Rightarrow>
    (jobs_db \<Rightarrow> jobs_db) \<Rightarrow> dict \<Rightarrow> lane \<Rightarrow> (answer \<times> lane) option" where
  "local_ingest digest adapters = folder_ingest (\<lambda>message. 400) digest adapters ''local'' ''Local''"

definition soulseek_ingest :: "(string \<Rightarrow> string) \<Rightarrow> source_adapter list \<Rightarrow> rat \<Rightarrow> string \<Rightarrow> (jobs_db \<Rightarrow> jobs_db) \<Rightarrow>
    (jobs_db \<Rightarrow> jobs_db) \<Rightarrow> dict \<Rightarrow> lane \<Rightarrow> (answer \<times> lane) option" where
  "soulseek_ingest digest adapters =
     folder_ingest (\<lambda>message. if py_in ''not settled'' message \<or> py_in ''partial download markers'' message then 409 else 400)
       digest adapters ''soulseek'' ''Soulseek''"

definition completed_folder_ingest :: "(string \<Rightarrow> string) \<Rightarrow> source_adapter list \<Rightarrow> string \<Rightarrow> string \<Rightarrow> rat \<Rightarrow> string \<Rightarrow>
    (jobs_db \<Rightarrow> jobs_db) \<Rightarrow> (jobs_db \<Rightarrow> jobs_db) \<Rightarrow> dict \<Rightarrow> lane \<Rightarrow> (answer \<times> lane) option" where
  "completed_folder_ingest digest adapters source label =
     folder_ingest (\<lambda>message. if py_in ''not settled'' message \<or> py_in ''partial'' (py_lower message) then 409 else 400)
       digest adapters source label"

definition WEBHOOK_SOURCE_LABELS :: "(string \<times> string) list" where
  "WEBHOOK_SOURCE_LABELS =
     [(''sab_usenet'', ''SAB''), (''qbittorrent_torrent'', ''qBittorrent''), (''soulseek'', ''Soulseek''), (''local'', ''LocalFolder'')]"

text \<open>\<open>adapter_of\<close> gives the adapter name of a connector id.\<close>

definition webhook_ingest :: "(string \<Rightarrow> string option) \<Rightarrow> (string \<Rightarrow> string) \<Rightarrow> source_adapter list \<Rightarrow> rat \<Rightarrow> string \<Rightarrow>
    (jobs_db \<Rightarrow> jobs_db) \<Rightarrow> (jobs_db \<Rightarrow> jobs_db) \<Rightarrow> dict \<Rightarrow> lane \<Rightarrow> (answer \<times> lane) option" where
  "webhook_ingest adapter_of digest adapters now jid mid1 mid2 body lan =
     (case dget ''source'' body of
        JStr raw \<Rightarrow>
          if py_strip raw = [] then Some (Refused 400 ''source required'', lan)
          else
            let name = str_or (adapter_of (py_strip raw)) (py_strip raw);
                label = (case map_of WEBHOOK_SOURCE_LABELS name of None \<Rightarrow> name | Some l \<Rightarrow> l) in
            completed_folder_ingest digest adapters name label now jid mid1 mid2 body lan
      | _ \<Rightarrow> Some (Refused 400 ''source required'', lan))"

section \<open>The backend lane\<close>

definition env_flag :: "string option \<Rightarrow> bool" where
  "env_flag v = (case v of None \<Rightarrow> False | Some s \<Rightarrow> py_lower s \<in> {''1'', ''true'', ''yes'', ''on''})"

definition backend_lane_for_category :: "environ \<Rightarrow> string \<Rightarrow> sab_client option" where
  "backend_lane_for_category env cat =
     (let c = sab_client_of \<lparr>sa_url = None, sa_api_key = None, sa_category = None, sa_download_root = None, sa_path_map = None,
                sa_timeout = None\<rparr> env in
      if \<not> env_flag (env ''MINTARR_SAB_BACKEND_ENABLED'') then None
      else if \<not> sab_is_enabled c then None
      else if cat = [] \<or> cat \<noteq> sc_category c then None
      else Some c)"

definition sab_category_names :: "environ \<Rightarrow> string list" where
  "sab_category_names env =
     (let cats = [''*'', ''music''] in
      if env_flag (env ''MINTARR_SAB_BACKEND_ENABLED'') then
        (let backend = py_strip (case env ''MINTARR_SAB_BACKEND_CATEGORY'' of None \<Rightarrow> [] | Some s \<Rightarrow> s) in
         if backend \<noteq> [] \<and> backend \<notin> set cats then cats @ [backend] else cats)
      else cats)"

text \<open>An uploaded file: its name and its bytes.\<close>

definition backend_submit :: "sab_client \<Rightarrow> http \<Rightarrow> string \<Rightarrow> string option \<Rightarrow> (string option \<times> string) option \<Rightarrow> bool \<Rightarrow> http_log \<Rightarrow>
    (answer + submitted_job) \<times> http_log" where
  "backend_submit c http name nzbname upload addfile hist =
     (case upload of
        None \<Rightarrow>
          if addfile then (Inl (Refused 400 ''backend addfile requires a file''), hist)
          else if name = [] then (Inl (Refused 400 ''backend addurl requires a URL''), hist)
          else
            (case sab_submit c http name hist of
               (Inl e, hist') \<Rightarrow> (Inl (Refused 502 ''backend submit failed''), hist')
             | (Inr job, hist') \<Rightarrow> (Inr job, hist'))
      | Some (filename, bytes) \<Rightarrow>
          if bytes = [] then (Inl (Refused 400 ''backend addfile requires a file''), hist)
          else
            (case sab_submit_file c http (py_path_name (str_or nzbname (str_or filename ''release.nzb''))) bytes hist of
               (Inl e, hist') \<Rightarrow> (Inl (Refused 502 ''backend submit failed''), hist')
             | (Inr job, hist') \<Rightarrow> (Inr job, hist')))"

definition backend_title :: "string option \<Rightarrow> (string option \<times> string) option \<Rightarrow> submitted_job \<Rightarrow> string" where
  "backend_title nzbname upload job =
     (let t1 = py_strip (str_or nzbname []);
          t2 = (if t1 = [] then (case upload of None \<Rightarrow> [] | Some (filename, _) \<Rightarrow> py_path_name (str_or filename [])) else t1) in
      if t2 = [] then ''backend release '' @ sj_backend_job_id job else t2)"

definition SAB_SOURCE_TYPE :: string where
  "SAB_SOURCE_TYPE = ''sab_usenet_backend''"

definition downloading_projection :: "rat \<Rightarrow> string \<Rightarrow> string \<Rightarrow> string \<Rightarrow> submitted_job \<Rightarrow> dict" where
  "downloading_projection now jid cat title job =
     [(''id'', JStr jid), (''category'', JStr cat), (''status'', JStr ''downloading''), (''title'', JStr title), (''size'', JInt 0),
      (''percent'', JInt 0), (''source_type'', JStr SAB_SOURCE_TYPE), (''source_id'', JStr (sj_backend_job_id job)),
      (''created_at'', JFloat now)]"

definition addurl_backend_lane :: "sab_client \<Rightarrow> http \<Rightarrow> rat \<Rightarrow> string \<Rightarrow> string \<Rightarrow> string \<Rightarrow> string option \<Rightarrow>
    (string option \<times> string) option \<Rightarrow> bool \<Rightarrow> lane \<times> http_log \<Rightarrow> answer \<times> lane \<times> http_log" where
  "addurl_backend_lane c http now jid name cat nzbname upload addfile st =
     (case st of (lan, hist) \<Rightarrow>
        (case backend_submit c http name nzbname upload addfile hist of
           (Inl r, hist1) \<Rightarrow> (r, lan, hist1)
         | (Inr job, hist1) \<Rightarrow>
             let title = backend_title nzbname upload job;
                 (stored, db) = create_backend_job now jid SAB_SOURCE_TYPE (sc_category c) (Some (sj_backend_job_id job)) ''downloading''
                                  None (Some title) [] (ln_backend lan) in
             (case stored of
                None \<Rightarrow>
                  (Refused 502 ''backend job persistence failed'', lan\<lparr>ln_backend := db\<rparr>,
                   snd (sab_cancel c http (sj_backend_job_id job) False hist1))
              | Some _ \<Rightarrow>
                  (Nzo_Ids [jid] None,
                   set_proj jid (downloading_projection now jid cat title job) (lan\<lparr>ln_backend := db\<rparr>), hist1))))"

section \<open>What Lidarr polls\<close>

text \<open>\<open>int(job.get(key) or 0)\<close> for the fields that the handlers write; and \<open>f"{x:.2f}"\<close>.\<close>

definition field_int :: "string \<Rightarrow> dict \<Rightarrow> int" where
  "field_int k d = (case int_of (dget k d) of None \<Rightarrow> 0 | Some n \<Rightarrow> n)"

definition two_places :: "rat \<Rightarrow> string" where
  "two_places x =
     (let n = (let f = \<lfloor>x * 100\<rfloor>; r = x * 100 - of_int f in
               if r < 1 / 2 then f else if r > 1 / 2 then f + 1 else if even f then f else f + 1);
          a = nat \<bar>n\<bar> in
      (if n < 0 then ''-'' else []) @ py_str_nat (a div 100) @ ''.'' @ zfill 2 (py_str_nat (a mod 100)))"

record queue_slot =
  qs_nzo_id :: string
  qs_filename :: json
  qs_cat :: json
  qs_size :: int
  qs_sizeleft :: int
  qs_mb :: string
  qs_mbleft :: string
  qs_percentage :: int
  qs_status :: string
  qs_timeleft :: string

definition sab_queue_slot :: "string \<Rightarrow> dict \<Rightarrow> queue_slot" where
  "sab_queue_slot jid job =
     (let bytes = field_int ''size'' job;
          percent = max 0 (min 100 (field_int ''percent'' job));
          left = (if bytes = 0 then 0 else max 0 (bytes - py_trunc (fl (of_int (bytes * percent) / 100))));
          held = (truthy (dget ''lidarr_hold'' job) \<or> dget ''status'' job = JStr ''review_required'');
          (status, timeleft, percent', left') =
            (if held then (''Paused'', ''0:00:00'', 100, 0)
             else if dget ''status'' job = JStr ''downloading''
             then (''Downloading'', if left \<noteq> 0 then ''0:00:30'' else ''0:00:00'', percent, left)
             else if dget ''status'' job = JStr ''processing'' then (''Verifying'', ''0:00:00'', 100, 0)
             else (''Queued'', ''0:00:00'', percent, left)) in
      \<lparr>qs_nzo_id = jid, qs_filename = dget_default ''title'' (JStr ''?'') job, qs_cat = dget_default ''category'' (JStr ''music'') job,
       qs_size = bytes, qs_sizeleft = left', qs_mb = two_places (fl (of_int bytes / 1048576)),
       qs_mbleft = two_places (fl (of_int left' / 1048576)), qs_percentage = percent', qs_status = status,
       qs_timeleft = timeleft\<rparr>)"

definition backend_review_queue_slot :: "backend_job \<Rightarrow> queue_slot" where
  "backend_review_queue_slot row =
     sab_queue_slot (bj_jid row)
       [(''id'', JStr (bj_jid row)), (''category'', JStr (bj_category row)), (''status'', JStr ''review_required''),
        (''lidarr_hold'', JBool True), (''title'', JStr (str_or (bj_release_title row) (bj_jid row))), (''size'', JInt 0),
        (''percent'', JInt 100)]"

text \<open>The slots of \<open>mode=queue\<close>: the visible projections, then the durable review rows without one.\<close>

definition queue_slots :: "lane \<Rightarrow> queue_slot list" where
  "queue_slots lan =
     (let shown = filter (\<lambda>(jid, j). visible_in_sab_queue jid j lan) (ln_proj lan);
          rows = filter (\<lambda>r. bj_jid r \<noteq> [] \<and> bj_jid r \<notin> fst ` set shown \<and> bj_state r = ''review'' \<and>
                             backend_review_row_visible r lan)
                   (list_active_backend_jobs (ln_backend lan)) in
      map (\<lambda>(jid, j). sab_queue_slot jid j) shown @ map backend_review_queue_slot rows)"

record history_slot =
  hs_nzo_id :: string
  hs_name :: json
  hs_category :: json
  hs_status :: string
  hs_storage :: json
  hs_completed :: json
  hs_bytes :: json
  hs_fail_message :: json

definition history_slots :: "lane \<Rightarrow> history_slot list" where
  "history_slots lan =
     List.map_filter (\<lambda>(jid, j).
       if truthy (dget ''hidden_from_lidarr'' j) then None
       else if dget ''status'' j \<in> {JStr ''completed'', JStr ''failed''} then
         Some \<lparr>hs_nzo_id = jid, hs_name = dget_default ''title'' (JStr ''?'') j,
               hs_category = dget_default ''category'' (JStr ''music'') j,
               hs_status = (if dget ''status'' j = JStr ''completed'' then ''Completed'' else ''Failed''),
               hs_storage = dget_default ''output_dir'' (JStr []) j, hs_completed = dget_default ''completed_at'' (JInt 0) j,
               hs_bytes = dget_default ''size'' (JInt 0) j,
               hs_fail_message = (if dget ''status'' j = JStr ''failed'' then dget_default ''error'' (JStr []) j else JStr [])\<rparr>
       else None) (ln_proj lan)"

text \<open>The delete requests: \<open>name=delete\<close> in any mode, and the bare \<open>mode=delete\<close>.\<close>

definition is_delete :: "sab_request \<Rightarrow> bool" where
  "is_delete rq \<longleftrightarrow> py_lower (str_or (rq_name rq) []) = ''delete''"

definition delete_target :: "string \<Rightarrow> sab_request \<Rightarrow> string option" where
  "delete_target mode rq =
     (let v = str_or (rq_value rq) (str_or (rq_nzo_id rq) []) in
      if is_delete rq then Some v
      else if mode = ''delete'' then Some (str_or (Some v) (str_or (rq_name rq) []))
      else None)"

definition sab_delete_request :: "lane_env \<Rightarrow> rat \<Rightarrow> string \<Rightarrow> sab_request \<Rightarrow> lane \<Rightarrow> lane option" where
  "sab_delete_request env now mode rq lan =
     map_option (\<lambda>v. cancel_and_hide_job env now v lan) (delete_target mode rq)"

section \<open>One job per release\<close>

text \<open>What worker threads do to the queue: they keep its invariant for the keys of a kind \<open>K\<close>, let its rows evolve, and never insert a row for
  the job id of this handler.\<close>

definition others :: "(string \<Rightarrow> bool) \<Rightarrow> string \<Rightarrow> (jobs_db \<Rightarrow> jobs_db) \<Rightarrow> bool" where
  "others K jid f \<longleftrightarrow> (\<forall>db. keys_inv K db \<longrightarrow> keys_inv K (f db) \<and> db_evolves db (f db) \<and> jobs_ready (f db) = jobs_ready db \<and>
     (jid \<notin> job_jid ` set (jobs_rows db) \<longrightarrow> jid \<notin> job_jid ` set (jobs_rows (f db))))"

lemma proj_of_set [simp]: "proj_of k (set_proj jid d lan) = (if k = jid then Some d else proj_of k lan)"
  by (simp add: proj_of_def set_proj_def update_conv')

lemma proj_of_drop [simp]: "proj_of k (drop_proj jid lan) = (if k = jid then None else proj_of k lan)"
  by (simp add: proj_of_def drop_proj_def delete_conv')

lemma proj_of_jobs [simp]: "proj_of k (lan\<lparr>ln_jobs := db\<rparr>) = proj_of k lan"
  by (simp add: proj_of_def)

lemma ln_jobs_proj [simp]: "ln_jobs (set_proj jid d lan) = ln_jobs lan" "ln_jobs (drop_proj jid lan) = ln_jobs lan"
  by (simp_all add: set_proj_def drop_proj_def)

definition grab_outcome :: "grab \<Rightarrow> answer \<Rightarrow> lane \<Rightarrow> bool" where
  "grab_outcome g ans lan' \<longleftrightarrow>
     (\<exists>i j. ans = Nzo_Ids [gr_jid g] (Some i) \<and> get_job i (ln_jobs lan') = Some j \<and> job_jid j = gr_jid g \<and>
        job_dedupe_key j = Some (gr_key g) \<and> job_payload j = gr_payload g \<and> proj_of (gr_jid g) lan' = Some (gr_projection g)) \<or>
     (\<exists>i j. ans = Nzo_Ids [job_jid j] (Some i) \<and> get_job i (ln_jobs lan') = Some j \<and> job_jid j \<noteq> gr_jid g \<and>
        job_dedupe_key j = Some (gr_key g) \<and> proj_of (gr_jid g) lan' = None)"

text \<open>A grab ends in exactly one job for its key: either a new job under the id that Lidarr is told, with its
  projection published, or the job that already has the key, whose id Lidarr is told, and no projection is left
  behind. This holds whatever worker threads do to the queue between the check, the insertion and the
  reading back, and leaves the projections of other jobs alone.\<close>

lemma submit_grab_outcome:
  assumes sub: "submit_grab now mid1 mid2 direct g lan = (ans, lan')"
    and inv: "keys_inv K (ln_jobs lan)" and ready: "jobs_ready (ln_jobs lan)"
    and mid: "others K (gr_jid g) mid1" "others K (gr_jid g) mid2"
    and fresh: "gr_jid g \<notin> job_jid ` set (jobs_rows (ln_jobs lan))" "gr_jid g \<noteq> []" "gr_key g \<noteq> []"
    and proj: "proj_of (gr_jid g) lan = None"
    and named: "\<forall>j\<in>set (jobs_rows (mid1 (ln_jobs lan))). job_jid j \<noteq> []"
  shows "grab_outcome g ans lan' \<and> (\<forall>k. k \<noteq> gr_jid g \<longrightarrow> proj_of k lan' = proj_of k lan) \<and>
     keys_inv K (ln_jobs lan') \<and> db_evolves (ln_jobs lan) (ln_jobs lan')"
proof (cases "Option.bind (find_active_job_by_dedupe (gr_key g) (ln_jobs lan)) (\<lambda>j. if job_jid j = [] then None else Some j)")
  case (Some j)
  then have hit: "active_by_dedupe (gr_key g) (jobs_rows (ln_jobs lan)) = Some j"
    using ready fresh by (auto simp: find_active_job_by_dedupe_def split: bind_splits if_splits)
  from Some sub have res: "ans = Nzo_Ids [job_jid j] (Some (job_id j))" "lan' = lan" by (auto simp: submit_grab_def)
  from active_by_dedupe_SomeD[OF hit] fresh(1) inv ready
  have "get_job (job_id j) (ln_jobs lan) = Some j" "job_jid j \<in> job_jid ` set (jobs_rows (ln_jobs lan))" "job_dedupe_key j = Some (gr_key g)"
    by (auto simp: get_job_def tfind_distinct_iff jobs_inv_distinct)
  with fresh(1) have "get_job (job_id j) (ln_jobs lan) = Some j" "job_jid j \<noteq> gr_jid g" "job_dedupe_key j = Some (gr_key g)" by metis+
  with res inv proj show ?thesis unfolding grab_outcome_def by (auto simp: db_evolves_refl)
next
  case None
  let ?db1 = "mid1 (ln_jobs lan)"
  let ?row = "\<lambda>i. new_job i now (gr_jid g) (gr_source g @ ''_grab'') (gr_payload g) (Some (gr_key g)) (Some (gr_source g)) (Some (gr_source_id g)) 5 3"
  from mid(1) inv ready fresh(1) have db1: "keys_inv K ?db1" "db_evolves (ln_jobs lan) ?db1" "jobs_ready ?db1"
    "gr_jid g \<notin> job_jid ` set (jobs_rows ?db1)" by (auto simp: others_def)
  obtain enq db where enq: "enqueue_job now (gr_jid g) (gr_source g @ ''_grab'') (gr_payload g) (Some (gr_key g))
      (Some (gr_source g)) (Some (gr_source_id g)) 5 3 ?db1 = (enq, db)" by fastforce
  have dbinv: "keys_inv K db" "db_evolves ?db1 db"
    using enqueue_job_inv[OF db1(1) _ enq] enqueue_job_evolves[OF enq] by simp_all
  from enq show ?thesis
  proof (cases rule: enqueue_job_cases)
    case refused
    with db1(3) fresh(2) show ?thesis by simp
  next
    case (existing key j)
    then have key: "key = gr_key g" by simp
    from active_by_dedupe_SomeD[OF existing(3)] key db1 named inv
    have j0: "j \<in> set (jobs_rows ?db1)" "job_dedupe_key j = Some (gr_key g)" "job_jid j \<noteq> []" by auto
    with db1(4) have j: "j \<in> set (jobs_rows ?db1)" "job_dedupe_key j = Some (gr_key g)" "job_jid j \<noteq> gr_jid g" "job_jid j \<noteq> []"
      by (metis imageI)+
    from dbinv mid(2) have db2: "keys_inv K (mid2 db)" "db_evolves db (mid2 db)" "jobs_ready (mid2 db) = jobs_ready db" by (auto simp: others_def)
    from j(1) existing(5) db1(1) have "tfind job_id (job_id j) (jobs_rows db) = Some j"
      by (simp add: tfind_distinct_iff jobs_inv_distinct)
    with db2(2) obtain j' where j': "tfind job_id (job_id j) (jobs_rows (mid2 db)) = Some j'" "row_evolves j j'"
      by (auto simp: db_evolves_def)
    with existing(5) db1(3) db2(3) have get: "get_job (job_id j) (mid2 db) = Some j'" by (simp add: get_job_def)
    from j'(2) j have jj: "job_jid j' = job_jid j" "job_dedupe_key j' = Some (gr_key g)" "job_id j' = job_id j" by (auto simp: row_evolves_def)
    have res: "ans = Nzo_Ids [job_jid j'] (Some (job_id j))"
      "lan' = drop_proj (gr_jid g) (set_proj (gr_jid g) (gr_projection g) lan\<lparr>ln_jobs := mid2 db\<rparr>)"
      using sub None enq existing(4) get jj j by (auto simp: submit_grab_def Let_def)
    from db1(2) dbinv(2) db2(2) have "db_evolves (ln_jobs lan) (mid2 db)" by (meson db_evolves_trans)
    moreover have "grab_outcome g ans lan'"
      unfolding grab_outcome_def using res get jj j by (intro disjI2 exI[of _ "job_id j"] exI[of _ j']) simp
    ultimately show ?thesis using res db2(1) by simp
  next
    case fresh': fresh
    let ?i = "jobs_next_id ?db1"
    from dbinv mid(2) have db2: "keys_inv K (mid2 db)" "db_evolves db (mid2 db)" "jobs_ready (mid2 db) = jobs_ready db" by (auto simp: others_def)
    have "?row ?i \<in> set (jobs_rows db)" by (simp add: fresh'(3))
    with dbinv(1) have "tfind job_id ?i (jobs_rows db) = Some (?row ?i)"
      by (simp add: tfind_distinct_iff jobs_inv_distinct)
    with db2(2) obtain j' where j': "tfind job_id ?i (jobs_rows (mid2 db)) = Some j'" "row_evolves (?row ?i) j'"
      by (auto simp: db_evolves_def)
    with fresh'(3) db1(3) db2(3) have get: "get_job ?i (mid2 db) = Some j'" by (simp add: get_job_def)
    from j'(2) have jj: "job_jid j' = gr_jid g" "job_dedupe_key j' = Some (gr_key g)" "job_payload j' = gr_payload g"
      by (simp_all add: row_evolves_def new_job_def)
    have res: "ans = Nzo_Ids [gr_jid g] (Some ?i)" "lan' = set_proj (gr_jid g) (gr_projection g) lan\<lparr>ln_jobs := mid2 db\<rparr>"
      using sub None enq fresh'(1) get jj by (auto simp: submit_grab_def Let_def)
    from db1(2) dbinv(2) db2(2) have "db_evolves (ln_jobs lan) (mid2 db)" by (meson db_evolves_trans)
    moreover have "grab_outcome g ans lan'"
      unfolding grab_outcome_def using res get jj by (intro disjI1 exI[of _ ?i] exI[of _ j']) simp
    ultimately show ?thesis using res db2(1) by simp
  qed
qed

text \<open>(C15) A grab of a source ends in exactly one job for its release. Either Lidarr is told the id of a new job that
  has the grab's key and payload and whose projection is published; or it is told the id of the job that already has
  the key, and nothing is left of the new id. This holds whatever the worker threads do to the queue between
  the check, the insertion and the reading back, and no other job's projection is touched. (The queue is taken to have
  one active job per key for the keys of any kind \<open>K\<close>, and keeps it; the queue of the program has it for all keys but
  that of the library scan.)\<close>

theorem grab_single_job:
  assumes "submit_grab now mid1 mid2 direct g lan = (ans, lan')"
    and "keys_inv K (ln_jobs lan)" and "jobs_ready (ln_jobs lan)"
    and "others K (gr_jid g) mid1" and "others K (gr_jid g) mid2"
    and "gr_jid g \<notin> job_jid ` set (jobs_rows (ln_jobs lan))" and "gr_jid g \<noteq> []" and "gr_key g \<noteq> []"
    and "proj_of (gr_jid g) lan = None"
    and "\<forall>j\<in>set (jobs_rows (mid1 (ln_jobs lan))). job_jid j \<noteq> []"
  shows "grab_outcome g ans lan' \<and> (\<forall>k. k \<noteq> gr_jid g \<longrightarrow> proj_of k lan' = proj_of k lan) \<and>
     keys_inv K (ln_jobs lan') \<and> db_evolves (ln_jobs lan) (ln_jobs lan')"
  by (rule submit_grab_outcome) (fact assms)+

text \<open>Another handler that inserts a job for the same release in between.\<close>

definition demo_rival :: "jobs_db \<Rightarrow> jobs_db" where
  "demo_rival db = snd (enqueue_job 1 ''rival'' ''local_grab'' [] (Some ''local:d'') None None 5 3 db)"

lemma others_enqueue: "jid \<noteq> jid' \<Longrightarrow> 1 \<le> max_a \<Longrightarrow> others K jid (\<lambda>db. snd (enqueue_job now jid' ty payload dk src sid prio max_a db))"
  unfolding others_def
proof (intro allI impI)
  fix db assume d: "jid \<noteq> jid'" "1 \<le> max_a" and inv: "keys_inv K db"
  obtain r db' where e: "enqueue_job now jid' ty payload dk src sid prio max_a db = (r, db')" by fastforce
  from enqueue_job_inv[OF inv d(2) e] enqueue_job_evolves[OF e] have k: "keys_inv K db'" "db_evolves db db'" by simp_all
  from e have "jobs_ready db' = jobs_ready db \<and> (jid \<notin> job_jid ` set (jobs_rows db) \<longrightarrow> jid \<notin> job_jid ` set (jobs_rows db'))"
    by (cases rule: enqueue_job_cases) (use d in \<open>auto simp: new_job_def\<close>)
  with k show "keys_inv K (snd (enqueue_job now jid' ty payload dk src sid prio max_a db)) \<and>
      db_evolves db (snd (enqueue_job now jid' ty payload dk src sid prio max_a db)) \<and>
      jobs_ready (snd (enqueue_job now jid' ty payload dk src sid prio max_a db)) = jobs_ready db \<and>
      (jid \<notin> job_jid ` set (jobs_rows db) \<longrightarrow>
       jid \<notin> job_jid ` set (jobs_rows (snd (enqueue_job now jid' ty payload dk src sid prio max_a db))))"
    by (simp add: e)
qed

lemma others_id: "others K jid (\<lambda>db. db)"
  by (simp add: others_def db_evolves_refl)

definition demo_grab :: grab where
  "demo_grab = folder_grab (\<lambda>s. ''d'') 5 ''j2'' ''local'' ''Local'' ''A/B''"

theorem grab_single_job_witness:
  "fst (submit_grab 5 demo_rival (\<lambda>db. db) False demo_grab demo_lane) = Nzo_Ids [''rival''] (Some 1) \<and>
   proj_of ''j2'' (snd (submit_grab 5 demo_rival (\<lambda>db. db) False demo_grab demo_lane)) = None"
proof -
  let ?r = "submit_grab 5 demo_rival (\<lambda>db. db) False demo_grab demo_lane"
  have rows: "jobs_rows (ln_jobs demo_lane) = []" "jobs_ready (ln_jobs demo_lane)"
    by (simp_all add: demo_lane_def empty_jobs_db_def)
  have g: "gr_jid demo_grab = ''j2''" "gr_key demo_grab = ''local:d''" by (simp_all add: demo_grab_def folder_grab_def Let_def)
  have "map job_jid (jobs_rows (demo_rival (ln_jobs demo_lane))) = [''rival'']" by code_simp
  then have named: "\<forall>j\<in>set (jobs_rows (demo_rival (ln_jobs demo_lane))). job_jid j \<noteq> []" by auto
  have other: "others (\<lambda>_. True) ''j2'' demo_rival" unfolding demo_rival_def by (rule others_enqueue) simp_all
  have "grab_outcome demo_grab (fst ?r) (snd ?r)"
    using grab_single_job[where K = "\<lambda>_. True", of 5 demo_rival "\<lambda>db. db" False demo_grab demo_lane "fst ?r" "snd ?r"] other named
    by (simp add: g rows others_id demo_lane_facts) (simp add: demo_lane_def proj_of_def)
  moreover have "fst ?r = Nzo_Ids [''rival''] (Some 1)" by code_simp
  ultimately show ?thesis by (auto simp: grab_outcome_def g)
qed

section \<open>From the search result to the grab\<close>

lemma get_adapter_name: "get_adapter as source = Some a \<Longrightarrow> ga_name a = source"
  by (auto simp: get_adapter_def find_Some_iff)

lemma narrow_widen [simp]: "narrow (widen s) = Some s"
proof -
  have "list_all (\<lambda>n. n < 256) (widen s)"
    by (simp add: widen_def list_all_iff)
  then show ?thesis by (simp add: narrow_def) (simp add: widen_def o_def)
qed

lemma scalar_widen: "list_all scalar (widen s)"
proof -
  have "scalar n" if "n < 256" for n using that by (auto simp: scalar_def)
  then have "scalar (of_char c)" for c by (simp add: nat_of_char_less_256)
  then show ?thesis by (auto simp: widen_def list_all_iff)
qed

lemma folder_canonical:
  assumes "ga_name a \<in> {''local'', ''sab_usenet'', ''qbittorrent_torrent''}" and "ga_normalize a = Some nrm"
  shows "canonicalize_source_id a raw = nrm raw"
    "nrm raw = Inr rel \<Longrightarrow> \<exists>title. addurl_canonicalize digest lookup a raw = Inr (Folder_Id rel, ga_name a @ '':'' @ digest rel, title, 0)"
  using assms by (auto simp: canonicalize_source_id_def addurl_canonicalize_def)

lemma valid_folder_names: "source \<in> {''local'', ''sab_usenet'', ''qbittorrent_torrent''} \<Longrightarrow> validate_source_name (Some source) = Some source"
  by (auto simp: validate_source_name_def SOURCE_NAME_CHAR_def Let_def)

text \<open>(C21) What the search reports for a folder can be grabbed: the link of the candidate serves an NZB, and uploading
  that NZB submits a grab of the same folder under the key of its canonical id. The adapter must take the id it gives
  as it is.\<close>

theorem grab_round_trip:
  assumes "get_adapter adapters source = Some a" and "ga_enabled a" and "ga_import_mode a"
    and "source \<in> {''local'', ''sab_usenet'', ''qbittorrent_torrent''}"
    and "ga_normalize a = Some nrm" and "nrm raw = Inr rel" and "nrm rel = Inr rel" and "raw \<noteq> []" and "rel \<noteq> []"
    and "basic_refs ref" and "source_by_prefix (map ga_name adapters) (addurl_name rq) = None"
  shows "\<exists>token nzb fname title proj. b64url_encode (widen raw) = Some token \<and>
    download_nzb digest adapters now source token = Some (Nzb_File fname nzb) \<and>
    addurl_source ref digest lookup adapters now' jid mid1 mid2 (rq\<lparr>rq_files := Some nzb # fs\<rparr>) lan =
      Some (submit_grab now' mid1 mid2 False
        \<lparr>gr_jid = jid, gr_key = source @ '':'' @ digest rel, gr_source = source, gr_source_id = rel,
         gr_payload = [(''source_id'', JStr rel), (''title'', JStr title), (''category'', JStr (request_category rq))],
         gr_projection = proj\<rparr> lan)"
proof -
  have name: "ga_name a = source" using assms(1) by (rule get_adapter_name)
  have "widen raw \<noteq> []" using assms(8) by (simp add: widen_def)
  with token_roundtrip[of "widen raw"] scalar_widen[of raw] obtain token where
    tok: "b64url_encode (widen raw) = Some token" "b64url_decode token = Some (widen raw)"
    by (auto split: bind_splits)
  note can = folder_canonical[OF _ assms(5), unfolded name, OF assms(4)]
  have dl: "download_nzb digest adapters now source token = Some (emit_nzb_response digest now source rel)"
    using assms(1-3,6) valid_folder_names[OF assms(4)] tok(2) can(1) by (simp add: download_nzb_def)
  from can(2)[OF assms(7)] obtain title where
    c: "addurl_canonicalize digest lookup a rel = Inr (Folder_Id rel, source @ '':'' @ digest rel, title, 0)" by blast
  have "source \<noteq> []" "source \<noteq> ''tidal''" using assms(4) by auto
  moreover have n: "addurl_name (rq\<lparr>rq_files := x\<rparr>) = addurl_name rq" "request_category (rq\<lparr>rq_files := x\<rparr>) = request_category rq" for x
    by (simp_all add: addurl_name_def request_category_def)
  ultimately have "addurl_source ref digest lookup adapters now' jid mid1 mid2 (rq\<lparr>rq_files := Some (nzb_pointer now source rel) # fs\<rparr>) lan =
      Some (submit_grab now' mid1 mid2 False
        \<lparr>gr_jid = jid, gr_key = source @ '':'' @ digest rel, gr_source = source, gr_source_id = rel,
         gr_payload = [(''source_id'', JStr rel), (''title'', JStr title), (''category'', JStr (request_category rq))],
         gr_projection = queued_projection now' jid (request_category rq) title 0 source rel\<rparr> lan)"
    using assms(1-3) c pointer_parsed[OF assms(10) \<open>source \<noteq> []\<close> assms(9) assms(11)]
    by (simp add: addurl_source_def Let_def)
  with tok(1) dl show ?thesis unfolding emit_nzb_response_def by blast
qed

definition demo_local_source :: source_adapter where
  "demo_local_source = \<lparr>ga_name = ''local'', ga_enabled = True, ga_import_mode = True,
     ga_normalize = Some (local_normalize_candidate_id DEMO_ADAPTER DEMO_PLAIN_FS), ga_title = Inr\<rparr>"

lemma demo_normalize_again: "local_normalize_candidate_id DEMO_ADAPTER DEMO_PLAIN_FS ''A/B'' = Inr ''A/B''"
  by code_simp

definition demo_upload :: sab_request where
  "demo_upload = \<lparr>rq_name = Some ''A.nzb'', rq_nzbname = None, rq_cat = Some ''music'', rq_value = None, rq_nzo_id = None, rq_files = []\<rparr>"

theorem grab_round_trip_witness:
  "\<exists>token nzb fname. b64url_encode (widen ''./A//B/'') = Some token \<and>
     download_nzb id [demo_local_source] 7 ''local'' token = Some (Nzb_File fname nzb)"
proof -
  have a: "get_adapter [demo_local_source] ''local'' = Some demo_local_source" by (simp add: get_adapter_def demo_local_source_def)
  have n: "ga_normalize demo_local_source = Some (local_normalize_candidate_id DEMO_ADAPTER DEMO_PLAIN_FS)"
    and f: "ga_enabled demo_local_source" "ga_import_mode demo_local_source" by (simp_all add: demo_local_source_def)
  have "basic_refs DEMO_REFS" by (simp add: basic_refs_def DEMO_REFS_def)
  moreover have "source_by_prefix (map ga_name [demo_local_source]) (addurl_name demo_upload) = None"
    by (simp add: demo_local_source_def demo_upload_def addurl_name_def str_or_def after_prefix_def)
  ultimately show ?thesis
    using grab_round_trip[OF a f _ n demo_normalize demo_normalize_again, where ref = DEMO_REFS and rq = demo_upload and digest = id and now = 7]
    by simp blast
qed

section \<open>The backend lane is all or nothing\<close>

lemma backend_submit_log:
  assumes "backend_submit c http name nzbname upload addfile hist = (Inl r, hist')"
  shows "\<exists>code message. r = Refused code message"
  using assms by (auto simp: backend_submit_def split: option.splits if_splits prod.splits sum.splits)

text \<open>(C37) A request on the backend lane either leaves a downloading row, a projection and the answer that names them, or it
  leaves the projections as they were and an error. When SABnzbd had accepted the job but its row could not be
  stored, the job is withdrawn again without deleting data.\<close>

theorem backend_lane_all_or_nothing:
  assumes "addurl_backend_lane c http now jid name cat nzbname upload addfile (lan, hist) = (ans, lan', hist')"
    and "tfind bj_jid jid (bdb_rows (ln_backend lan)) = None" and "py_strip jid = jid"
  shows "(\<exists>row d. ans = Nzo_Ids [jid] None \<and> get_backend_job jid (ln_backend lan') = Some row \<and> bj_state row = ''downloading'' \<and>
            bj_category row = py_strip (sc_category c) \<and> proj_of jid lan' = Some d \<and>
            dget ''source_id'' d = joptstr (bj_backend_job_id row) \<and> (\<forall>k. k \<noteq> jid \<longrightarrow> proj_of k lan' = proj_of k lan)) \<or>
         (\<exists>code message. ans = Refused code message \<and> lan' = lan \<and>
            (\<forall>job h. backend_submit c http name nzbname upload addfile hist = (Inr job, h) \<longrightarrow>
               hist' = snd (sab_cancel c http (sj_backend_job_id job) False h)))"
proof (cases "backend_submit c http name nzbname upload addfile hist")
  case (Pair res h)
  show ?thesis
  proof (cases res)
    case (Inl r)
    with backend_submit_log Pair obtain code message where "r = Refused code message" by blast
    with assms(1) Pair Inl show ?thesis by (auto simp: addurl_backend_lane_def)
  next
    case (Inr job)
    obtain stored db where st: "create_backend_job now jid SAB_SOURCE_TYPE (sc_category c) (Some (sj_backend_job_id job)) ''downloading''
        None (Some (backend_title nzbname upload job)) [] (ln_backend lan) = (stored, db)" by fastforce
    show ?thesis
    proof (cases stored)
      case None
      with st have "db = ln_backend lan"
        by (auto simp: create_backend_job_def Let_def backend_table.find_upsert split: if_splits option.splits)
      with assms(1) Pair Inr st None show ?thesis by (auto simp: addurl_backend_lane_def Let_def)
    next
      case (Some row)
      with st assms(2,3) have row: "get_backend_job jid db = Some row" "bj_state row = ''downloading''"
          "bj_category row = py_strip (sc_category c)" "bj_backend_job_id row = Some (sj_backend_job_id job)"
        by (auto simp: create_backend_job_def get_backend_job_def Let_def backend_table.find_upsert split: if_splits option.splits)
      from assms(1) Pair Inr st Some have "ans = Nzo_Ids [jid] None"
        "lan' = set_proj jid (downloading_projection now jid cat (backend_title nzbname upload job) job) (lan\<lparr>ln_backend := db\<rparr>)"
        by (auto simp: addurl_backend_lane_def Let_def)
      with row show ?thesis
        by (intro disjI1 exI[of _ row] exI[of _ "downloading_projection now jid cat (backend_title nzbname upload job) job"])
          (simp add: downloading_projection_def dget_def joptstr_def set_proj_def proj_of_def update_conv')
    qed
  qed
qed

definition demo_accepting_server :: http where
  "demo_accepting_server hist =
     Some \<lparr>hr_ok = True, hr_json = Some (JObj [(''nzo_ids'', JList [JStr ''n7''])]), hr_text = [], hr_set_cookie = None\<rparr>"

theorem backend_lane_all_or_nothing_witness:
  "\<exists>row. get_backend_job ''j7'' (ln_backend (fst (snd (addurl_backend_lane demo_sab demo_accepting_server 5 ''j7'' ''http://x''
     ''mm'' None None False (demo_lane, []))))) = Some row \<and> bj_state row = ''downloading''"
proof -
  obtain ans lan' hist' where e: "addurl_backend_lane demo_sab demo_accepting_server 5 ''j7'' ''http://x'' ''mm'' None None False
      (demo_lane, []) = (ans, lan', hist')" by (cases "addurl_backend_lane demo_sab demo_accepting_server 5 ''j7'' ''http://x''
      ''mm'' None None False (demo_lane, [])")
  have "fst (addurl_backend_lane demo_sab demo_accepting_server 5 ''j7'' ''http://x'' ''mm'' None None False (demo_lane, [])) = Nzo_Ids [''j7''] None"
    by code_simp
  with e have "ans = Nzo_Ids [''j7''] None" by simp
  moreover have "tfind bj_jid ''j7'' (bdb_rows (ln_backend demo_lane)) = None" "py_strip ''j7'' = ''j7''" by code_simp+
  ultimately show ?thesis using backend_lane_all_or_nothing[OF e] e by auto
qed

section \<open>The queue\<close>

lemma fl_nonneg: "0 \<le> x \<Longrightarrow> 0 \<le> fl x"
proof -
  assume "0 \<le> x"
  moreover from fl_error[of x] this have "\<bar>fl x - x\<bar> \<le> x / 2 ^ 53" by (simp only: abs_of_nonneg)
  then have "x - fl x \<le> x / 2 ^ 53" by (simp only: abs_le_iff) linarith
  moreover have "x / 2 ^ 53 \<le> x" using \<open>0 \<le> x\<close> by (simp add: field_simps)
  ultimately show ?thesis by simp
qed

lemma slot_left_bound: "0 \<le> b \<Longrightarrow> 0 \<le> p \<Longrightarrow> max 0 (b - py_trunc (fl (of_int (b * p) / 100))) \<le> b"
proof -
  assume "0 \<le> b" "0 \<le> p"
  then have "(0 :: rat) \<le> of_int (b * p) / 100" by simp
  from fl_nonneg[OF this] have "0 \<le> py_trunc (fl (of_int (b * p) / 100))" by (simp add: py_trunc_def)
  with \<open>0 \<le> b\<close> show ?thesis by simp
qed

definition slot_ok :: "queue_slot \<Rightarrow> bool" where
  "slot_ok s \<longleftrightarrow> 0 \<le> qs_percentage s \<and> qs_percentage s \<le> 100 \<and> 0 \<le> qs_sizeleft s \<and> (0 \<le> qs_size s \<longrightarrow> qs_sizeleft s \<le> qs_size s) \<and>
     (qs_status s \<in> {''Paused'', ''Verifying''} \<longrightarrow> qs_percentage s = 100 \<and> qs_sizeleft s = 0)"

lemma sab_queue_slot_ok: "slot_ok (sab_queue_slot jid job)"
  using slot_left_bound[of "field_int ''size'' job" "max 0 (min 100 (field_int ''percent'' job))"]
  by (auto simp: slot_ok_def sab_queue_slot_def Let_def)

lemma sab_queue_slot_id [simp]: "qs_nzo_id (sab_queue_slot jid job) = jid"
  by (auto simp: sab_queue_slot_def Let_def)

text \<open>Who is shown, in the words of the protocol. A job in progress: its projection is queued, downloading, being
  processed or held, was not hidden, and its durable row, if it has one, is not finished. An open review: the durable
  row waits for a decision, and no record says that an operator or the pipeline closed it.\<close>

definition live_projection :: "lane \<Rightarrow> string \<Rightarrow> dict \<Rightarrow> bool" where
  "live_projection lan jid d \<longleftrightarrow> proj_of jid lan = Some d \<and> \<not> truthy (dget ''hidden_from_lidarr'' d) \<and>
     (\<forall>row. get_backend_job jid (ln_backend lan) = Some row \<longrightarrow> bj_state row \<notin> {''imported'', ''failed'', ''cancelled''}) \<and>
     (dget ''status'' d \<in> {JStr ''queued'', JStr ''downloading'', JStr ''processing''} \<or> truthy (dget ''lidarr_hold'' d))"

definition open_review :: "lane \<Rightarrow> string \<Rightarrow> bool" where
  "open_review lan jid \<longleftrightarrow> (\<exists>row. get_backend_job jid (ln_backend lan) = Some row \<and> bj_state row = ''review'') \<and>
     (\<forall>rec. get_record jid (ln_records lan) = Some rec \<longrightarrow>
        rc_derived_status rec \<notin> {JStr ''blocked'', JStr ''discarded'', JStr ''expired'', JStr ''failed'', JStr ''imported'',
          JStr ''policy_violation'', JStr ''promoted''})"

definition active_rows :: "lane \<Rightarrow> backend_job list" where
  "active_rows lan = filter (\<lambda>r. bj_state r \<notin> {''imported'', ''failed'', ''cancelled''}) (bdb_rows (ln_backend lan))"

text \<open>What Lidarr reads in the slot of a live projection, and in the slot of a review that has none.\<close>

definition live_slot :: "dict \<Rightarrow> queue_slot \<Rightarrow> bool" where
  "live_slot d s \<longleftrightarrow>
     qs_status s = (if truthy (dget ''lidarr_hold'' d) then ''Paused''
                    else if dget ''status'' d = JStr ''downloading'' then ''Downloading''
                    else if dget ''status'' d = JStr ''processing'' then ''Verifying'' else ''Queued'') \<and>
     qs_filename s = dget_default ''title'' (JStr ''?'') d \<and> qs_cat s = dget_default ''category'' (JStr ''music'') d \<and>
     qs_size s = field_int ''size'' d \<and>
     qs_percentage s = (if truthy (dget ''lidarr_hold'' d) \<or> dget ''status'' d = JStr ''processing'' then 100
                        else max 0 (min 100 (field_int ''percent'' d)))"

definition review_slot :: "lane \<Rightarrow> queue_slot \<Rightarrow> bool" where
  "review_slot lan s \<longleftrightarrow> qs_status s = ''Paused'' \<and> qs_percentage s = 100 \<and> qs_size s = 0 \<and> qs_sizeleft s = 0 \<and>
     (\<exists>row. get_backend_job (qs_nzo_id s) (ln_backend lan) = Some row \<and> qs_cat s = JStr (bj_category row) \<and>
        qs_filename s = JStr (case bj_release_title row of Some (c # cs) \<Rightarrow> c # cs | _ \<Rightarrow> bj_jid row))"

lemma live_projection_iff: "live_projection lan jid d \<longleftrightarrow> proj_of jid lan = Some d \<and> visible_in_sab_queue jid d lan"
  by (auto simp: live_projection_def visible_in_sab_queue_def BACKEND_JOB_TERMINAL_STATES_def split: option.splits)

lemma live_slot_ok: "live_projection lan jid d \<Longrightarrow> live_slot d (sab_queue_slot jid d)"
  by (auto simp: live_projection_def live_slot_def sab_queue_slot_def Let_def)

lemma review_queue_slot [simp]: "qs_nzo_id (backend_review_queue_slot row) = bj_jid row"
  by (simp add: backend_review_queue_slot_def)

lemma review_slot_ok:
  assumes "get_backend_job (bj_jid row) (ln_backend lan) = Some row"
  shows "review_slot lan (backend_review_queue_slot row)"
  using assms
  by (auto simp: review_slot_def backend_review_queue_slot_def sab_queue_slot_def Let_def dget_def dget_default_def
      field_int_def str_or_def split: option.split list.split)

lemma active_states:
  "s \<in> set BACKEND_JOB_STATES \<Longrightarrow> s \<in> set BACKEND_JOB_ACTIVE_STATES \<longleftrightarrow> s \<notin> {''imported'', ''failed'', ''cancelled''}"
  by (simp add: BACKEND_JOB_ACTIVE_STATES_def BACKEND_JOB_TERMINAL_STATES_def)

lemma active_rows_listed:
  assumes "backend_inv (ln_backend lan)" "bdb_ready (ln_backend lan)" "length (active_rows lan) \<le> 10000"
  shows "set (list_active_backend_jobs (ln_backend lan)) = set (active_rows lan)"
proof -
  let ?f = "\<lambda>r. bj_state r \<in> set BACKEND_JOB_ACTIVE_STATES"
  have f: "filter ?f (bdb_rows (ln_backend lan)) = active_rows lan"
    unfolding active_rows_def using assms(1) active_states by (intro filter_cong) (auto simp: backend_inv_def)
  with assms(2,3) show ?thesis
    by (simp add: list_active_backend_jobs_def list_backend_jobs_def sql_limit_def Let_def)
qed

text \<open>The rows behind the review slots: read back by their id, and not closed.\<close>

lemma listed_review:
  assumes inv: "backend_inv (ln_backend lan)" and row: "row \<in> set (list_active_backend_jobs (ln_backend lan))"
  shows "get_backend_job (bj_jid row) (ln_backend lan) = Some row"
    and "bj_state row = ''review'' \<Longrightarrow> backend_review_row_visible row lan \<longleftrightarrow> open_review lan (bj_jid row)"
proof -
  from row have "bdb_ready (ln_backend lan)"
    by (auto simp: list_active_backend_jobs_def list_backend_jobs_def sql_limit_def split: if_splits)
  with list_active_rows(1)[OF inv] row inv show g: "get_backend_job (bj_jid row) (ln_backend lan) = Some row"
    by (auto simp: get_backend_job_def backend_inv_def intro: tfind_distinct)
  assume "bj_state row = ''review''"
  with g show "backend_review_row_visible row lan \<longleftrightarrow> open_review lan (bj_jid row)"
    by (auto simp: open_review_def backend_review_row_visible_def review_closed_statuses_def split: option.splits)
qed

lemma open_review_listed:
  assumes inv: "backend_inv (ln_backend lan)" and few: "length (active_rows lan) \<le> 10000" and rev: "open_review lan jid"
  shows "\<exists>row\<in>set (list_active_backend_jobs (ln_backend lan)). bj_jid row = jid \<and> jid \<noteq> [] \<and> bj_state row = ''review'' \<and>
    backend_review_row_visible row lan"
proof -
  from rev obtain row where g: "get_backend_job jid (ln_backend lan) = Some row" and st: "bj_state row = ''review''"
    by (auto simp: open_review_def)
  from g have ready: "bdb_ready (ln_backend lan)" and "row \<in> set (bdb_rows (ln_backend lan))" and j: "bj_jid row = jid"
    by (auto simp: get_backend_job_def dest: tfind_SomeD split: if_splits)
  with inv st have "jid \<noteq> []" "row \<in> set (active_rows lan)" by (auto simp: backend_inv_def active_rows_def)
  with active_rows_listed[OF inv ready few] have l: "row \<in> set (list_active_backend_jobs (ln_backend lan))" by simp
  with listed_review(2)[OF inv l st] rev st j \<open>jid \<noteq> []\<close> show ?thesis by auto
qed

text \<open>The two parts of the answer.\<close>

lemma queue_slots_split:
  obtains shown rows where
    "queue_slots lan = map (\<lambda>(jid, j). sab_queue_slot jid j) shown @ map backend_review_queue_slot rows"
    "shown = filter (\<lambda>(jid, j). visible_in_sab_queue jid j lan) (ln_proj lan)"
    "rows = filter (\<lambda>r. bj_jid r \<noteq> [] \<and> bj_jid r \<notin> fst ` set shown \<and> bj_state r = ''review'' \<and> backend_review_row_visible r lan)
       (list_active_backend_jobs (ln_backend lan))"
  by (simp add: queue_slots_def Let_def)

lemma shown_live:
  assumes "distinct (map fst (ln_proj lan))"
  shows "(jid, d) \<in> set (filter (\<lambda>(jid, j). visible_in_sab_queue jid j lan) (ln_proj lan)) \<longleftrightarrow> live_projection lan jid d"
  using assms by (auto simp: live_projection_iff proj_of_def)

lemma disjoint_filtered: "S \<inter> f ` set (filter (\<lambda>r. P r \<and> f r \<notin> S \<and> Q r) xs) = {}"
  by auto

text \<open>(C38) What Lidarr polls. Every job in progress has one slot, which says what it does: paused while it is held,
  otherwise downloading, verifying or queued as its projection says. A review that waits for a decision is there too,
  paused and complete, under its own title, also when the process has no projection of it (unless more than 10000
  backend jobs are active, the limit of the list). Nothing else is shown, no id twice, and the figures of a slot stay
  within their bounds: a paused or verifying job has nothing left to download.\<close>

theorem queue_slots_spec:
  assumes "distinct (map fst (ln_proj lan))" and "backend_inv (ln_backend lan)"
  defines "shows_id \<equiv> \<lambda>jid. jid \<in> qs_nzo_id ` set (queue_slots lan)"
  shows "distinct (map qs_nzo_id (queue_slots lan)) \<and> list_all slot_ok (queue_slots lan) \<and>
    (\<forall>jid d. live_projection lan jid d \<longrightarrow> shows_id jid) \<and>
    (\<forall>jid. open_review lan jid \<and> length (active_rows lan) \<le> 10000 \<longrightarrow> shows_id jid) \<and>
    (\<forall>s\<in>set (queue_slots lan).
       (\<exists>d. live_projection lan (qs_nzo_id s) d \<and> live_slot d s) \<or>
       ((\<nexists>d. live_projection lan (qs_nzo_id s) d) \<and> open_review lan (qs_nzo_id s) \<and> review_slot lan s))"
proof -
  obtain shown rows where
    q: "queue_slots lan = map (\<lambda>(jid, j). sab_queue_slot jid j) shown @ map backend_review_queue_slot rows"
    and shown: "shown = filter (\<lambda>(jid, j). visible_in_sab_queue jid j lan) (ln_proj lan)"
    and rows: "rows = filter (\<lambda>r. bj_jid r \<noteq> [] \<and> bj_jid r \<notin> fst ` set shown \<and> bj_state r = ''review'' \<and>
       backend_review_row_visible r lan) (list_active_backend_jobs (ln_backend lan))"
    by (rule queue_slots_split)
  note live = shown_live[OF assms(1), folded shown]
  have ids: "map qs_nzo_id (queue_slots lan) = map fst shown @ map bj_jid rows"
    by (simp add: q case_prod_unfold)
  have ids_set: "shows_id jid \<longleftrightarrow> jid \<in> fst ` set shown \<or> jid \<in> bj_jid ` set rows" for jid
    using arg_cong[OF ids, of set] by (simp add: shows_id_def)
  have "distinct (map fst shown)" unfolding shown using assms(1) by (rule distinct_map_filter)
  moreover have "distinct (map bj_jid rows)" unfolding rows by (intro distinct_map_filter list_active_rows(2)[OF assms(2)])
  moreover have "fst ` set shown \<inter> bj_jid ` set rows = {}" unfolding rows by (rule disjoint_filtered)
  ultimately have d: "distinct (map qs_nzo_id (queue_slots lan))" unfolding ids distinct_append set_map by blast
  have "list_all slot_ok (queue_slots lan)"
    by (auto simp: q list_all_iff sab_queue_slot_ok backend_review_queue_slot_def)
  moreover have "shows_id jid" if "live_projection lan jid d" for jid d
    using that live by (force simp: ids_set)
  moreover have "shows_id jid" if "open_review lan jid" "length (active_rows lan) \<le> 10000" for jid
    using open_review_listed[OF assms(2) that(2,1)] by (force simp: ids_set rows)
  moreover have "(\<exists>d. live_projection lan (qs_nzo_id s) d \<and> live_slot d s) \<or>
      ((\<nexists>d. live_projection lan (qs_nzo_id s) d) \<and> open_review lan (qs_nzo_id s) \<and> review_slot lan s)"
    if "s \<in> set (queue_slots lan)" for s
    using that unfolding q set_append Un_iff
  proof
    assume "s \<in> set (map (\<lambda>(jid, j). sab_queue_slot jid j) shown)"
    then obtain jid j where s: "(jid, j) \<in> set shown" "s = sab_queue_slot jid j" by auto
    then show ?thesis using live live_slot_ok by auto
  next
    assume "s \<in> set (map backend_review_queue_slot rows)"
    then obtain row where row: "row \<in> set rows" and s: "s = backend_review_queue_slot row" by auto
    from row have "bj_jid row \<notin> fst ` set shown" by (simp add: rows)
    then have "\<nexists>d. live_projection lan (bj_jid row) d" using live by force
    with row s listed_review[OF assms(2), of row] review_slot_ok show ?thesis by (auto simp: rows)
  qed
  ultimately show ?thesis using d by blast
qed

text \<open>A queue with a held projection and a durable review that the process has forgotten.\<close>

definition demo_held_lane :: lane where
  "demo_held_lane =
     set_proj ''j9'' (queued_projection 5 ''j9'' ''music'' ''A'' 0 ''local'' ''A/B'' @ [(''lidarr_hold'', JBool True)])
       (demo_lane\<lparr>ln_backend := \<lparr>bdb_ready = True, bdb_rows = [demo_backend_row\<lparr>bj_state := ''review''\<rparr>]\<rparr>\<rparr>)"

lemma demo_held_lane_facts:
  "distinct (map fst (ln_proj demo_held_lane))" "backend_inv (ln_backend demo_held_lane)" "open_review demo_held_lane ''j1''"
  "length (active_rows demo_held_lane) = 1" "\<not> live_projection demo_held_lane ''j1'' d"
  "live_projection demo_held_lane ''j9'' d \<longleftrightarrow> proj_of ''j9'' demo_held_lane = Some d"
  "proj_of ''j9'' demo_held_lane = Some d \<Longrightarrow> truthy (dget ''lidarr_hold'' d)" "\<exists>d. proj_of ''j9'' demo_held_lane = Some d"
  by (auto simp: demo_held_lane_def set_proj_def demo_lane_def demo_backend_row_def backend_inv_def BACKEND_JOB_STATES_def
      open_review_def get_backend_job_def tfind_Cons get_record_def empty_records_db_def active_rows_def live_projection_def
      proj_of_def queued_projection_def dget_def split: if_splits)

theorem queue_slots_spec_witness:
  "\<exists>held waiting. held \<in> set (queue_slots demo_held_lane) \<and> qs_nzo_id held = ''j9'' \<and> qs_status held = ''Paused'' \<and>
     waiting \<in> set (queue_slots demo_held_lane) \<and> qs_nzo_id waiting = ''j1'' \<and> review_slot demo_held_lane waiting"
proof -
  let ?slots = "queue_slots demo_held_lane"
  note spec = queue_slots_spec[OF demo_held_lane_facts(1,2)]
  have every: "(\<exists>d. live_projection demo_held_lane (qs_nzo_id s) d \<and> live_slot d s) \<or>
       ((\<nexists>d. live_projection demo_held_lane (qs_nzo_id s) d) \<and> open_review demo_held_lane (qs_nzo_id s) \<and> review_slot demo_held_lane s)"
    if "s \<in> set ?slots" for s using spec that by simp
  from demo_held_lane_facts(6,8) obtain d where d: "live_projection demo_held_lane ''j9'' d" by blast
  with spec have "''j9'' \<in> qs_nzo_id ` set ?slots" by blast
  then obtain held where h: "held \<in> set ?slots" "qs_nzo_id held = ''j9''" by auto
  with every[of held] d obtain d' where d': "live_projection demo_held_lane ''j9'' d'" "live_slot d' held" by auto
  then have "truthy (dget ''lidarr_hold'' d')" using demo_held_lane_facts(6,7) by blast
  with d'(2) have "qs_status held = ''Paused''" by (simp add: live_slot_def)
  moreover from demo_held_lane_facts(4) have "length (active_rows demo_held_lane) \<le> 10000" by simp
  with spec demo_held_lane_facts(3) have "''j1'' \<in> qs_nzo_id ` set ?slots" by blast
  then obtain w where w: "w \<in> set ?slots" "qs_nzo_id w = ''j1''" by auto
  moreover from this every[of w] demo_held_lane_facts(5) have "review_slot demo_held_lane w" by auto
  ultimately show ?thesis using h by blast
qed

end
