(* ===== verification/Import_Settlement.thy ===== *)
theory Import_Settlement
  imports Backend_Clients
begin

text \<open>
  Settling a verified download with Lidarr (\<open>app/server.py\<close>): the ManualImport command and the evidence that it
  happened, the rescue copy into the library, and the cleanup of the queue.

  Lidarr, the file system and the other threads are a \<open>world\<close>: functions of the \<open>event\<close>s so far, the latest first, so
  that a reply may depend on everything that was sent or copied before it. A reply of \<open>None\<close> is a request that
  raised, a body of \<open>None\<close> a body that is no JSON. A result \<open>Inl\<close> is an exception. The decision log, log lines and
  sleeping are left out.
\<close>

section \<open>The world\<close>

datatype lidarr_request =
    Get_History int
  | Post_Failed string
  | Get_Trackfiles string
  | Get_Candidates string
  | Post_Import "dict list"
  | Get_Command string
  | Get_Commands
  | Get_Queue
  | Delete_Queue string
  | Get_Album string
  | Get_Artist string
  | Post_Refresh json

datatype event =
    Sent lidarr_request
  | Removed_Tree string
  | Made_Dir string
  | Copied string string

record lidarr_reply =
  re_status :: nat
  re_body :: "json option"

record world =
  wd_env :: lane_env
  wd_key :: string
  wd_complete_root :: string
  wd_discarded :: string
  wd_expired :: string
  wd_rescue_enabled :: bool
  wd_lidarr :: "event list \<Rightarrow> lidarr_reply option"
  wd_others :: "event list \<Rightarrow> jobs_db \<Rightarrow> jobs_db"
  wd_exists :: "event list \<Rightarrow> string \<Rightarrow> bool"
  wd_audio :: "event list \<Rightarrow> string \<Rightarrow> int"
  wd_resolve :: "event list \<Rightarrow> string \<Rightarrow> pypath"
  wd_mkdir_ok :: "event list \<Rightarrow> bool"
  wd_copy_ok :: "event list \<Rightarrow> bool"
  wd_elapsed :: "event list \<Rightarrow> rat"

text \<open>The state of a handler: the tables, files and projections, the events so far, and what the tables, files and
  projections were before each change, the latest first. \<open>on_lane\<close> is the only operation that changes them, so that the
  last field is the list of the states in which the process may have died.\<close>

record desk =
  dk_lane :: lane
  dk_log :: "event list"
  dk_past :: "lane list"

datatype import_exn = Cancelled | Lidarr_Error | Bad_Record | Runtime_Error_Of string

definition on_lane :: "(lane \<Rightarrow> lane) \<Rightarrow> desk \<Rightarrow> desk" where
  "on_lane f d = d\<lparr>dk_lane := f (dk_lane d), dk_past := dk_lane d # dk_past d\<rparr>"

definition note_event :: "event \<Rightarrow> desk \<Rightarrow> desk" where
  "note_event e d = d\<lparr>dk_log := e # dk_log d\<rparr>"

definition ask :: "world \<Rightarrow> lidarr_request \<Rightarrow> desk \<Rightarrow> lidarr_reply option \<times> desk" where
  "ask w r d = (wd_lidarr w (Sent r # dk_log d), note_event (Sent r) d)"

text \<open>\<open>v.get(k)\<close>, \<open>v[k]\<close>, iteration and \<open>len\<close> of a decoded value; \<open>None\<close> is the exception.\<close>

definition json_get :: "string \<Rightarrow> json \<Rightarrow> json option" where
  "json_get k v = (case v of JObj d \<Rightarrow> Some (dget k d) | _ \<Rightarrow> None)"

definition json_at :: "string \<Rightarrow> json \<Rightarrow> json option" where
  "json_at k v = (case v of JObj d \<Rightarrow> map_of d k | _ \<Rightarrow> None)"

fun json_iter :: "json \<Rightarrow> json list option" where
  "json_iter (JList xs) = Some xs"
| "json_iter (JStr s) = Some (map (\<lambda>c. JStr [c]) s)"
| "json_iter (JObj d) = Some (map (\<lambda>(k, _). JStr k) d)"
| "json_iter _ = None"

definition json_len :: "json \<Rightarrow> int option" where
  "json_len v = map_option (\<lambda>xs. int (length xs)) (json_iter v)"

definition body_of :: "lidarr_reply option \<Rightarrow> json option" where
  "body_of r = Option.bind r re_body"

section \<open>Progress, cancellation, timings\<close>

definition record_job_timing :: "string \<Rightarrow> string \<Rightarrow> rat \<Rightarrow> lane \<Rightarrow> lane" where
  "record_job_timing jid stage seconds lan =
     (if seconds < 0 then lan
      else
        let p = proj_default jid lan; t = as_dict (dget ''timings'' p) in
        set_proj jid (dset ''timings'' (JObj (dset stage (JFloat seconds) t)) p) lan)"

definition set_worker_progress :: "rat \<Rightarrow> int option \<Rightarrow> string \<Rightarrow> string \<Rightarrow> int \<Rightarrow> string \<Rightarrow> dict \<Rightarrow> lane \<Rightarrow> lane" where
  "set_worker_progress now wid jid stage percent message extra lan =
     (let pct = max 0 (min 100 percent);
          progress = dupdate extra [(''stage'', JStr stage), (''percent'', JInt pct), (''message'', JStr message)];
          lan1 = (case wid of None \<Rightarrow> lan | Some i \<Rightarrow> lan\<lparr>ln_jobs := update_job_progress now i progress (ln_jobs lan)\<rparr>);
          p = dset ''stage'' (JStr stage) (dset ''percent'' (JInt pct) (proj_default jid lan1)) in
      set_proj jid (if message = [] then p else dset ''warning'' (JStr message) p) lan1)"

definition mark_download_cancelled :: "rat \<Rightarrow> string \<Rightarrow> lane \<Rightarrow> lane" where
  "mark_download_cancelled now jid lan =
     set_proj jid (dupdate
       [(''status'', JStr ''failed''), (''error'', JStr ''cancelled by user''), (''completed_at'', JFloat now),
        (''percent'', JInt 100), (''hidden_from_lidarr'', JBool True)] (proj_default jid lan)) lan"

text \<open>\<open>_raise_if_job_cancelled\<close> without a directory to clean up. The other threads act on the queue before it is read.\<close>

definition raise_if_job_cancelled :: "world \<Rightarrow> rat \<Rightarrow> int option \<Rightarrow> string \<Rightarrow> desk \<Rightarrow> import_exn option \<times> desk" where
  "raise_if_job_cancelled w now wid jid d =
     (case wid of
        None \<Rightarrow> (None, d)
      | Some i \<Rightarrow>
          let d1 = on_lane (\<lambda>lan. lan\<lparr>ln_jobs := wd_others w (dk_log d) (ln_jobs lan)\<rparr>) d in
          if is_job_cancel_requested i (ln_jobs (dk_lane d1))
          then (Some Cancelled, on_lane (mark_download_cancelled now jid) d1)
          else (None, d1))"

definition unless_cancelled :: "import_exn option \<times> desk \<Rightarrow> (desk \<Rightarrow> (import_exn + 'a) \<times> desk) \<Rightarrow> (import_exn + 'a) \<times> desk" where
  "unless_cancelled r k = (case r of (Some e, d) \<Rightarrow> (Inl e, d) | (None, d) \<Rightarrow> k d)"

section \<open>Evidence of an import\<close>

text \<open>The first matching history record; the outer \<open>None\<close> is an exception.\<close>

fun grabbed_record :: "string \<Rightarrow> json list \<Rightarrow> json option option" where
  "grabbed_record jid [] = Some None"
| "grabbed_record jid (r # rs) =
     (case r of
        JObj h \<Rightarrow>
          if dget ''downloadId'' h = JStr jid \<and> dget ''eventType'' h = JStr ''grabbed'' then Some (Some r)
          else grabbed_record jid rs
      | _ \<Rightarrow> None)"

definition records_of :: "lidarr_reply option \<Rightarrow> json list option" where
  "records_of r =
     (case body_of r of
        Some (JObj h) \<Rightarrow> json_iter (dget_default ''records'' (JList []) h)
      | _ \<Rightarrow> None)"

definition blocklist_grab :: "world \<Rightarrow> string \<Rightarrow> desk \<Rightarrow> bool \<times> desk" where
  "blocklist_grab w jid d =
     (case ask w (Get_History 50) d of
        (r, d1) \<Rightarrow>
          (case Option.bind (records_of r) (grabbed_record jid) of
             Some (Some rec) \<Rightarrow>
               (case json_at ''id'' rec of
                  None \<Rightarrow> (False, d1)
                | Some i \<Rightarrow>
                    (case ask w (Post_Failed (py_str i)) d1 of
                       (None, d2) \<Rightarrow> (False, d2)
                     | (Some resp, d2) \<Rightarrow> (re_status resp \<in> {200, 201, 202}, d2)))
           | _ \<Rightarrow> (False, d1)))"

definition imported_event :: "string \<Rightarrow> json \<Rightarrow> bool" where
  "imported_event jid r \<longleftrightarrow>
     json_get ''downloadId'' r = Some (JStr jid) \<and> json_get ''eventType'' r = Some (JStr ''trackFileImported'')"

definition is_obj :: "json \<Rightarrow> bool" where
  "is_obj v = (case v of JObj d \<Rightarrow> True | _ \<Rightarrow> False)"

definition imported_count_of :: "string \<Rightarrow> lidarr_reply option \<Rightarrow> int" where
  "imported_count_of jid r =
     (case records_of r of
        None \<Rightarrow> 0
      | Some recs \<Rightarrow> if list_all is_obj recs then int (length (filter (imported_event jid) recs)) else 0)"

definition count_lidarr_imported_history :: "world \<Rightarrow> string \<Rightarrow> desk \<Rightarrow> int \<times> desk" where
  "count_lidarr_imported_history w jid d =
     (case ask w (Get_History 100) d of (r, d1) \<Rightarrow> (imported_count_of jid r, d1))"

definition trackfile_count :: "lidarr_reply option \<Rightarrow> int option" where
  "trackfile_count r = Option.bind (body_of r) json_len"

fun count_trackfiles :: "world \<Rightarrow> json list \<Rightarrow> int \<Rightarrow> desk \<Rightarrow> int \<times> desk" where
  "count_trackfiles w [] n d = (n, d)"
| "count_trackfiles w (aid # ids) n d =
     (case ask w (Get_Trackfiles (py_str aid)) d of
        (r, d1) \<Rightarrow> count_trackfiles w ids (n + (case trackfile_count r of None \<Rightarrow> 0 | Some k \<Rightarrow> k)) d1)"

text \<open>\<open>set(album_ids or [])\<close> in some order.\<close>

definition count_lidarr_trackfiles :: "world \<Rightarrow> json list \<Rightarrow> desk \<Rightarrow> int \<times> desk" where
  "count_lidarr_trackfiles w ids d = count_trackfiles w (remdups ids) 0 d"

definition lidarr_path_to_output_path :: "world \<Rightarrow> string \<Rightarrow> string" where
  "lidarr_path_to_output_path w p =
     (let pre = wd_complete_root w @ ''/''; rest = drop (length pre) p in
      path_str (path_of (if \<not> prefix pre p then p else if prefix ''/'' rest then rest
                         else env_output_base (wd_env w) @ ''/'' @ rest)))"

definition count_missing_manualimport_sources :: "world \<Rightarrow> dict list \<Rightarrow> desk \<Rightarrow> int" where
  "count_missing_manualimport_sources w files d =
     int (length (filter (\<lambda>f. \<not> wd_exists w (dk_log d)
       (lidarr_path_to_output_path w (py_str (py_or (dget ''path'' f) (JStr []))))) files))"

text \<open>How many files each album has gained since \<open>pre\<close>.\<close>

fun count_gained :: "world \<Rightarrow> (json \<times> int) list \<Rightarrow> int \<Rightarrow> desk \<Rightarrow> int \<times> desk" where
  "count_gained w [] n d = (n, d)"
| "count_gained w ((aid, before) # pre) n d =
     (case ask w (Get_Trackfiles (py_str aid)) d of
        (r, d1) \<Rightarrow> count_gained w pre (n + (case trackfile_count r of None \<Rightarrow> 0 | Some k \<Rightarrow> max 0 (k - before))) d1)"

definition count_manualimport_progress :: "world \<Rightarrow> string \<Rightarrow> dict list \<Rightarrow> (json \<times> int) list \<Rightarrow> int \<Rightarrow> desk \<Rightarrow> int \<times> desk" where
  "count_manualimport_progress w jid files pre required d =
     (let (n1, d1) = count_gained w pre 0 d;
          (n2, d2) = (if n1 < required
                      then (case count_lidarr_imported_history w jid d1 of (h, d2) \<Rightarrow> (max n1 h, d2)) else (n1, d1)) in
      if n2 < required then
        (case count_lidarr_trackfiles w (map fst pre) d2 of
           (c, d3) \<Rightarrow>
             if required \<le> c \<and> required \<le> count_missing_manualimport_sources w files d3 then (c, d3) else (n2, d3))
      else (n2, d2))"

fun poll_manualimport :: "world \<Rightarrow> string \<Rightarrow> dict list \<Rightarrow> (json \<times> int) list \<Rightarrow> int \<Rightarrow> nat \<Rightarrow> int \<Rightarrow> desk \<Rightarrow> int \<times> desk" where
  "poll_manualimport w jid files pre required 0 seen d = (seen, d)"
| "poll_manualimport w jid files pre required (Suc n) seen d =
     (case count_manualimport_progress w jid files pre required d of
        (c, d1) \<Rightarrow> if required \<le> c then (c, d1) else poll_manualimport w jid files pre required n c d1)"

definition IMPORT_TIMEOUT_SEC :: int where "IMPORT_TIMEOUT_SEC = 90"
definition IMPORT_INTERVAL_SEC :: int where "IMPORT_INTERVAL_SEC = 2"

definition required_files :: "dict list \<Rightarrow> int" where
  "required_files files = max 1 (int (length files))"

definition wait_for_manualimport_progress :: "world \<Rightarrow> string \<Rightarrow> dict list \<Rightarrow> (json \<times> int) list \<Rightarrow> desk \<Rightarrow> (int \<times> int) \<times> desk" where
  "wait_for_manualimport_progress w jid files pre d =
     (let required = required_files files; attempts = max 1 (IMPORT_TIMEOUT_SEC div IMPORT_INTERVAL_SEC + 1) in
      case poll_manualimport w jid files pre required (nat attempts) 0 d of (n, d1) \<Rightarrow> ((n, required), d1))"

section \<open>The state of a command\<close>

definition COMMAND_OPEN :: "json set" where
  "COMMAND_OPEN = {JStr ''queued'', JStr ''started''}"

fun poll_command :: "world \<Rightarrow> string \<Rightarrow> nat \<Rightarrow> desk \<Rightarrow> bool \<times> desk" where
  "poll_command w cid 0 d = (True, d)"
| "poll_command w cid (Suc n) d =
     (case ask w (Get_Command cid) d of
        (None, d1) \<Rightarrow> (True, d1)
      | (Some r, d1) \<Rightarrow>
          if re_status r = 404 then (False, d1)
          else
            (case re_body r of
               None \<Rightarrow> (True, d1)
             | Some (JObj b) \<Rightarrow> if dget ''status'' b \<in> COMMAND_OPEN then poll_command w cid n d1 else (False, d1)
             | Some _ \<Rightarrow> (False, d1)))"

definition lidarr_command_still_pending :: "world \<Rightarrow> lidarr_reply \<Rightarrow> desk \<Rightarrow> (import_exn + bool) \<times> desk" where
  "lidarr_command_still_pending w cmd d =
     (case re_body cmd of
        None \<Rightarrow> (Inr False, d)
      | Some body \<Rightarrow>
          (case (if truthy body then body else JObj []) of
             JObj b \<Rightarrow>
               if dget ''status'' b \<notin> COMMAND_OPEN then (Inr False, d)
               else if \<not> truthy (dget ''id'' b) then (Inr True, d)
               else (case poll_command w (py_str (dget ''id'' b)) 6 d of (p, d1) \<Rightarrow> (Inr p, d1))
           | _ \<Rightarrow> (Inl Lidarr_Error, d)))"

text \<open>The ManualImport commands for a job that Lidarr has not finished; when the queue cannot be read there is one. \<open>None\<close>
  is an exception on a malformed command.\<close>

definition import_item_of :: "string \<Rightarrow> json \<Rightarrow> bool option" where
  "import_item_of jid item =
     (case item of
        JObj f \<Rightarrow> Some (dget ''downloadId'' f = JStr jid \<or>
          py_in (''/'' @ jid @ ''/'') (py_str (py_or (dget ''path'' f) (JStr []))))
      | _ \<Rightarrow> None)"

fun any_import_item :: "string \<Rightarrow> json list \<Rightarrow> bool option" where
  "any_import_item jid [] = Some False"
| "any_import_item jid (x # xs) =
     (case import_item_of jid x of None \<Rightarrow> None | Some True \<Rightarrow> Some True | Some False \<Rightarrow> any_import_item jid xs)"

fun pending_import_in :: "string \<Rightarrow> json list \<Rightarrow> bool option" where
  "pending_import_in jid [] = Some False"
| "pending_import_in jid (c # cs) =
     (case c of
        JObj cmd \<Rightarrow>
          if dget ''name'' cmd \<noteq> JStr ''ManualImport'' \<or> dget ''status'' cmd \<notin> COMMAND_OPEN then pending_import_in jid cs
          else
            (case Option.bind (json_get ''files'' (py_or (dget ''body'' cmd) (JObj []))) (\<lambda>fs. json_iter (py_or fs (JList []))) of
               None \<Rightarrow> None
             | Some items \<Rightarrow>
                 (case any_import_item jid items of
                    None \<Rightarrow> None | Some True \<Rightarrow> Some True | Some False \<Rightarrow> pending_import_in jid cs))
      | _ \<Rightarrow> None)"

definition lidarr_has_pending_import_for_jid :: "world \<Rightarrow> string \<Rightarrow> desk \<Rightarrow> bool option \<times> desk" where
  "lidarr_has_pending_import_for_jid w jid d =
     (case ask w Get_Commands d of
        (r, d1) \<Rightarrow>
          (case body_of r of
             None \<Rightarrow> (Some True, d1)
           | Some cmds \<Rightarrow> (Option.bind (json_iter (py_or cmds (JList []))) (pending_import_in jid), d1)))"

section \<open>Cleaning up Lidarr's queue\<close>

text \<open>\<open>None\<close> when a request raised; then the job is not hidden.\<close>

fun delete_queue_rows :: "world \<Rightarrow> string \<Rightarrow> json list \<Rightarrow> desk \<Rightarrow> unit option \<times> desk" where
  "delete_queue_rows w jid [] d = (Some (), d)"
| "delete_queue_rows w jid (r # rs) d =
     (case r of
        JObj q \<Rightarrow>
          if dget ''downloadId'' q \<noteq> JStr jid then delete_queue_rows w jid rs d
          else
            (case ask w (Delete_Queue (py_str (dget ''id'' q))) d of
               (None, d1) \<Rightarrow> (None, d1)
             | (Some _, d1) \<Rightarrow> delete_queue_rows w jid rs d1)
      | _ \<Rightarrow> (None, d))"

definition cleanup_lidarr_queue :: "world \<Rightarrow> string \<Rightarrow> desk \<Rightarrow> desk" where
  "cleanup_lidarr_queue w jid d =
     (let d3 = (case ask w Get_Queue d of
                  (r, d1) \<Rightarrow>
                    (case records_of r of
                       None \<Rightarrow> d1
                     | Some rows \<Rightarrow>
                         (case delete_queue_rows w jid rows d1 of
                            (None, d2) \<Rightarrow> d2
                          | (Some _, d2) \<Rightarrow> on_lane (hide_from_lidarr jid) d2))) in
      on_lane (record_job_timing jid ''queue_cleanup_sec'' (wd_elapsed w (dk_log d3))) d3)"

section \<open>The files of a ManualImport\<close>

text \<open>One candidate: the outer \<open>None\<close> is an exception, the inner one a candidate that is skipped.\<close>

definition candidate_release :: "dict \<Rightarrow> json \<Rightarrow> json option" where
  "candidate_release item album =
     (if truthy (dget ''albumReleaseId'' item) then Some (dget ''albumReleaseId'' item)
      else
        case Option.bind (json_get ''currentRelease'' album) (\<lambda>cr. json_get ''id'' (py_or cr (JObj []))) of
          None \<Rightarrow> None
        | Some cur \<Rightarrow>
            if truthy cur then Some cur
            else
              (case json_get ''releases'' album of
                 None \<Rightarrow> None
               | Some rels \<Rightarrow>
                   (case py_or rels (JList [JObj []]) of
                      JList (x # _) \<Rightarrow> json_get ''id'' x
                    | _ \<Rightarrow> None)))"

definition manual_import_file :: "string \<Rightarrow> bool \<Rightarrow> json \<Rightarrow> dict option option" where
  "manual_import_file jid allow_family v =
     (case v of
        JObj item \<Rightarrow>
          if truthy (dget ''rejections'' item) \<and> \<not> (allow_family \<and> is_release_family_rejection item) then Some None
          else if \<not> truthy (dget ''artist'' item) \<or> \<not> truthy (dget ''album'' item) then Some None
          else if \<not> truthy (dget ''tracks'' item) then Some None
          else
            (case candidate_release item (dget ''album'' item) of
               None \<Rightarrow> None
             | Some rel \<Rightarrow>
                 if \<not> truthy rel then Some None
                 else
                   (case (map_of item ''path'', json_at ''id'' (dget ''artist'' item), json_at ''id'' (dget ''album'' item),
                          Option.bind (json_iter (dget ''tracks'' item)) (\<lambda>ts. those (map (json_at ''id'') ts)),
                          map_of item ''quality'') of
                      (Some path, Some artist_id, Some album_id, Some track_ids, Some quality) \<Rightarrow>
                        Some (Some
                          [(''path'', path), (''artistId'', artist_id), (''albumId'', album_id), (''albumReleaseId'', rel),
                           (''trackIds'', JList track_ids), (''quality'', quality),
                           (''releaseGroup'', py_or (dget ''releaseGroup'' item) (JStr [])), (''downloadId'', JStr jid),
                           (''additionalFile'', JBool False), (''replaceExistingFiles'', JBool True),
                           (''disableReleaseSwitching'', JBool False)])
                    | _ \<Rightarrow> None))
      | _ \<Rightarrow> None)"

definition manual_import_files_from_items :: "string \<Rightarrow> bool \<Rightarrow> json \<Rightarrow> dict list option" where
  "manual_import_files_from_items jid allow_family items =
     (case json_iter items of
        None \<Rightarrow> None
      | Some vs \<Rightarrow> map_option (List.map_filter id) (those (map (manual_import_file jid allow_family) vs)))"

section \<open>The rescue copy\<close>

definition sanitize_path_segment :: "string \<Rightarrow> string" where
  "sanitize_path_segment s =
     (if s = [] then ''Unknown''
      else
        let t = filter (\<lambda>c. c \<noteq> CHR 0x00) (map (\<lambda>c. if c = CHR ''/'' \<or> c = CHR 0x5C then CHR ''_'' else c) s);
            u = dropWhile (\<lambda>c. c = CHR ''.'') (py_strip t) in
        if u \<in> {[], ''..'', ''.''} then ''Unknown'' else u)"

definition segment_of :: "json \<Rightarrow> string option" where
  "segment_of v = (if \<not> truthy v then Some ''Unknown'' else case v of JStr s \<Rightarrow> Some (sanitize_path_segment s) | _ \<Rightarrow> None)"

definition album_year_of :: "json \<Rightarrow> string option" where
  "album_year_of v =
     (case py_or v (JStr []) of
        JStr s \<Rightarrow>
          let y = (if take 4 s = [] then ''0000'' else take 4 s) in
          Some (if list_all py_isdigit y then y else ''0000'')
      | _ \<Rightarrow> None)"

definition LIBRARY_ROOT :: string where "LIBRARY_ROOT = ''/music/Album''"

definition rescue_target :: "world \<Rightarrow> json \<Rightarrow> json \<Rightarrow> desk \<Rightarrow> (pypath \<times> pypath) option" where
  "rescue_target w album artist d =
     (case (Option.bind (json_get ''artistName'' artist) segment_of, Option.bind (json_get ''title'' album) segment_of,
            Option.bind (json_get ''releaseDate'' album) album_year_of) of
        (Some artist_name, Some title, Some year) \<Rightarrow>
          let base = wd_resolve w (dk_log d) LIBRARY_ROOT in
          Some (base, wd_resolve w (dk_log d)
                        (path_str (fst base, snd base @ [artist_name, title @ '' ('' @ year @ '')''])))
      | _ \<Rightarrow> None)"

fun rescue_copy :: "world \<Rightarrow> pypath \<Rightarrow> dict list \<Rightarrow> int \<Rightarrow> desk \<Rightarrow> int \<times> desk" where
  "rescue_copy w folder [] moved d = (moved, d)"
| "rescue_copy w folder (f # fs) moved d =
     (let src = lidarr_path_to_output_path w (py_str (dget ''path'' f)) in
      if \<not> wd_exists w (dk_log d) src then rescue_copy w folder fs moved d
      else
        let d1 = note_event (Copied src (path_str folder @ ''/'' @ py_path_name src)) d in
        rescue_copy w folder fs (if wd_copy_ok w (dk_log d1) then moved + 1 else moved) d1)"

text \<open>\<open>requests.get(...).json()\<close>.\<close>

definition fetch :: "world \<Rightarrow> lidarr_request \<Rightarrow> desk \<Rightarrow> (json \<Rightarrow> desk \<Rightarrow> (import_exn + 'a) \<times> desk) \<Rightarrow> (import_exn + 'a) \<times> desk" where
  "fetch w r d k =
     (case ask w r d of (reply, d1) \<Rightarrow> (case body_of reply of None \<Rightarrow> (Inl Lidarr_Error, d1) | Some v \<Rightarrow> k v d1))"

definition rescue_rescan :: "world \<Rightarrow> string \<Rightarrow> json \<Rightarrow> json \<Rightarrow> int \<Rightarrow> desk \<Rightarrow> (import_exn + bool) \<times> desk" where
  "rescue_rescan w jid aid artist_id moved d =
     (case ask w (Post_Refresh artist_id) d of
        (None, d1) \<Rightarrow> (Inl Lidarr_Error, d1)
      | (Some _, d1) \<Rightarrow>
          fetch w (Get_Trackfiles (py_str aid)) d1 (\<lambda>tfs d2.
            case json_len tfs of
              None \<Rightarrow> (Inl Lidarr_Error, d2)
            | Some n \<Rightarrow>
                if max 1 ((moved + 1) div 2) \<le> n then (Inr True, on_lane (hide_from_lidarr jid) d2) else (Inr False, d2)))"

definition rescue_place :: "world \<Rightarrow> string \<Rightarrow> dict list \<Rightarrow> desk \<Rightarrow> (import_exn + bool) \<times> desk" where
  "rescue_place w jid files d =
     (let aid = dget ''albumId'' (hd files); artist_id = dget ''artistId'' (hd files) in
      fetch w (Get_Album (py_str aid)) d (\<lambda>album d1.
        fetch w (Get_Artist (py_str artist_id)) d1 (\<lambda>artist d2.
          case rescue_target w album artist d2 of
            None \<Rightarrow> (Inl Bad_Record, d2)
          | Some (base, folder) \<Rightarrow>
              if \<not> is_relative_to folder base then (Inr False, d2)
              else
                let d3 = note_event (Made_Dir (path_str folder)) d2 in
                if \<not> wd_mkdir_ok w (dk_log d3) then (Inl (Runtime_Error_Of ''mkdir''), d3)
                else
                  (case rescue_copy w folder files 0 d3 of
                     (moved, d4) \<Rightarrow>
                       if moved = 0 then (Inr False, d4) else rescue_rescan w jid aid artist_id moved d4))))"

definition rescue_place_and_rescan :: "world \<Rightarrow> rat \<Rightarrow> string \<Rightarrow> dict list \<Rightarrow> int option \<Rightarrow> desk \<Rightarrow> (import_exn + bool) \<times> desk" where
  "rescue_place_and_rescan w now jid files wid d =
     unless_cancelled (raise_if_job_cancelled w now wid jid d) (\<lambda>d1.
       if \<not> wd_rescue_enabled w then (Inr False, d1)
       else if files = [] then (Inr False, d1)
       else rescue_place w jid files d1)"

section \<open>Importing without verifying again\<close>

definition complete_lidarr_import_without_queue_delete :: "rat \<Rightarrow> string \<Rightarrow> string \<Rightarrow> lane \<Rightarrow> lane" where
  "complete_lidarr_import_without_queue_delete now jid output_dir = mark_import_completed now jid (Some output_dir)"

text \<open>The number of track files of each album before the command; 0 when it cannot be read.\<close>

fun pre_counts :: "world \<Rightarrow> json list \<Rightarrow> desk \<Rightarrow> (json \<times> int) list \<times> desk" where
  "pre_counts w [] d = ([], d)"
| "pre_counts w (aid # ids) d =
     (case ask w (Get_Trackfiles (py_str aid)) d of
        (r, d1) \<Rightarrow>
          (case pre_counts w ids d1 of
             (pre, d2) \<Rightarrow> ((aid, case trackfile_count r of None \<Rightarrow> 0 | Some k \<Rightarrow> k) # pre, d2)))"

definition album_ids_of :: "dict list \<Rightarrow> json list" where
  "album_ids_of files = remdups (map (dget ''albumId'') files)"

definition finish_import :: "world \<Rightarrow> rat \<Rightarrow> string \<Rightarrow> string \<Rightarrow> int option \<Rightarrow> dict list \<Rightarrow> (json \<times> int) list \<Rightarrow> lidarr_reply \<Rightarrow> desk \<Rightarrow>
    (import_exn + import_outcome) \<times> desk" where
  "finish_import w now jid output_dir wid files pre cmd d =
     (let progress = (\<lambda>stage pct message extra. on_lane (set_worker_progress now wid jid stage pct message extra)) in
      case wait_for_manualimport_progress w jid files pre d of
        ((n, required), d1) \<Rightarrow>
          if required \<le> n then
            (Inr MANUAL_IMPORTED,
             progress ''done'' 100 ''ManualImport complete'' []
               (on_lane (complete_lidarr_import_without_queue_delete now jid output_dir)
                 (progress ''cleanup'' 90 ''Finalizing Lidarr import'' [] d1)))
          else
            (case lidarr_command_still_pending w cmd d1 of
               (Inl e, d2) \<Rightarrow> (Inl e, d2)
             | (Inr True, d2) \<Rightarrow>
                 (Inr PENDING, on_lane (\<lambda>lan. set_proj jid (dupdate
                    [(''warning'', JStr ''Lidarr ManualImport pending''), (''percent'', JInt 100)] (proj_default jid lan)) lan) d2)
             | (Inr False, d2) \<Rightarrow>
                 unless_cancelled (raise_if_job_cancelled w now wid jid d2) (\<lambda>d3.
                   case rescue_place_and_rescan w now jid files wid (progress ''rescue'' 80 ''Trying rescue import'' [] d3) of
                     (Inl e, d4) \<Rightarrow> (Inl e, d4)
                   | (Inr True, d4) \<Rightarrow>
                       (Inr RESCUED,
                        progress ''done'' 100 ''Rescue import complete'' []
                          (on_lane (complete_lidarr_import_without_queue_delete now jid output_dir) d4))
                   | (Inr False, d4) \<Rightarrow>
                       (Inr FAILED,
                        cleanup_lidarr_queue w jid (progress ''failed'' 100 ''ManualImport failed'' []
                          (on_lane (mark_import_failed now jid ''manual promote import failed'') d4))))))"

definition send_import :: "world \<Rightarrow> rat \<Rightarrow> string \<Rightarrow> string \<Rightarrow> int option \<Rightarrow> dict list \<Rightarrow> desk \<Rightarrow> (import_exn + import_outcome) \<times> desk" where
  "send_import w now jid output_dir wid files d =
     (let progress = (\<lambda>stage pct message. on_lane (set_worker_progress now wid jid stage pct message
            [(''file_count'', JInt (int (length files)))])) in
      case pre_counts w (album_ids_of files) (progress ''manualimport'' 45 ''Triggering Lidarr ManualImport'' d) of
        (pre, d1) \<Rightarrow>
          (case ask w (Post_Import files) d1 of
             (None, d2) \<Rightarrow> (Inl Lidarr_Error, d2)
           | (Some cmd, d2) \<Rightarrow>
               unless_cancelled (raise_if_job_cancelled w now wid jid d2) (\<lambda>d3.
                 finish_import w now jid output_dir wid files pre cmd
                   (progress ''manualimport_wait'' 65 ''Waiting for Lidarr import'' d3))))"

definition import_candidates :: "world \<Rightarrow> rat \<Rightarrow> string \<Rightarrow> string \<Rightarrow> int option \<Rightarrow> lidarr_reply \<Rightarrow> desk \<Rightarrow> (import_exn + import_outcome) \<times> desk" where
  "import_candidates w now jid output_dir wid r d =
     (case Option.bind (re_body r) (manual_import_files_from_items jid True) of
        None \<Rightarrow> (Inl Lidarr_Error, d)
      | Some files \<Rightarrow>
          if files = [] then (Inr FAILED, d)
          else unless_cancelled (raise_if_job_cancelled w now wid jid d) (send_import w now jid output_dir wid files))"

definition lookup_candidates :: "world \<Rightarrow> rat \<Rightarrow> string \<Rightarrow> string \<Rightarrow> int option \<Rightarrow> desk \<Rightarrow> (import_exn + import_outcome) \<times> desk" where
  "lookup_candidates w now jid output_dir wid d =
     (if wd_key w = [] then (Inr FAILED, d)
      else
        case ask w (Get_Candidates (wd_complete_root w @ ''/'' @ jid)) d of
          (None, d1) \<Rightarrow> (Inl Lidarr_Error, d1)
        | (Some r, d1) \<Rightarrow>
            if re_status r \<noteq> 200 then (Inr FAILED, d1)
            else unless_cancelled (raise_if_job_cancelled w now wid jid d1) (import_candidates w now jid output_dir wid r))"

definition run_manual_import_only :: "world \<Rightarrow> rat \<Rightarrow> string \<Rightarrow> string \<Rightarrow> int option \<Rightarrow> desk \<Rightarrow> (import_exn + import_outcome) \<times> desk" where
  "run_manual_import_only w now jid output_dir wid d =
     unless_cancelled
       (raise_if_job_cancelled w now wid jid (on_lane (set_worker_progress now wid jid ''manualimport_lookup'' 20
          ''Looking up Lidarr ManualImport candidates'' []) d))
       (lookup_candidates w now jid output_dir wid)"

section \<open>What an import leaves alone\<close>

text \<open>The sidecars on disk and the tables other than the queue, as one value.\<close>

definition kept_lane :: "lane \<Rightarrow> (string \<times> dict option) list \<times> backend_db \<times> holds_db \<times> records_db" where
  "kept_lane lan = (ln_sidecars lan, ln_backend lan, ln_holds lan, ln_records lan)"

definition kept_state :: "desk \<Rightarrow> (string \<times> dict option) list \<times> backend_db \<times> holds_db \<times> records_db" where
  "kept_state d = kept_lane (dk_lane d)"

text \<open>The queue changes in two ways: the other threads act on it, or the progress of the own job is stored.\<close>

definition own_progress :: "int option \<Rightarrow> jobs_db \<Rightarrow> jobs_db \<Rightarrow> bool" where
  "own_progress wid db db' \<longleftrightarrow> jobs_ready db' = jobs_ready db \<and> jobs_next_id db' = jobs_next_id db \<and>
     list_all2 (\<lambda>r r'. r' = r \<or> (wid = Some (job_id r) \<and> (\<exists>p. r' = r\<lparr>job_progress := p\<rparr>))) (jobs_rows db) (jobs_rows db')"

definition queue_step :: "world \<Rightarrow> int option \<Rightarrow> jobs_db \<Rightarrow> jobs_db \<Rightarrow> bool" where
  "queue_step w wid db db' \<longleftrightarrow> (\<exists>L. db' = wd_others w L db) \<or> own_progress wid db db'"

lemma own_progress_update: "own_progress (Some i) db (update_job_progress now i progress db)"
  by (auto simp: own_progress_def update_job_progress_def update_jobs_def tupdate_def list_all2_map2 intro!: list_all2_refl)

text \<open>A path that the rescue may write to: a file directly in a folder that lies in the library and was made of an artist
  and an album name without separators or references.\<close>

definition plain_segment :: "string \<Rightarrow> bool" where
  "plain_segment s \<longleftrightarrow> s \<notin> {[], ''.'', ''..''} \<and> set s \<inter> {CHR ''/'', CHR 0x5C, CHR 0x00} = {}"

definition album_folder :: "world \<Rightarrow> pypath \<Rightarrow> bool" where
  "album_folder w folder \<longleftrightarrow>
     (\<exists>L artist title year. let base = wd_resolve w L LIBRARY_ROOT in
        folder = wd_resolve w L (path_str (fst base, snd base @ [artist, title @ '' ('' @ year @ '')''])) \<and>
        is_relative_to folder base \<and> plain_segment artist \<and> plain_segment title \<and> length year \<le> 4 \<and> (\<forall>c\<in>set year. py_isdigit c))"

definition in_album_folder :: "world \<Rightarrow> string \<Rightarrow> bool" where
  "in_album_folder w dst \<longleftrightarrow>
     (\<exists>folder name. album_folder w folder \<and> dst = path_str folder @ ''/'' @ name \<and> CHR ''/'' \<notin> set name)"

text \<open>What the handler does outside the database: requests to Lidarr, album folders and copies into them, nothing else.\<close>

definition confined :: "world \<Rightarrow> event \<Rightarrow> bool" where
  "confined w e \<longleftrightarrow>
     (case e of
        Sent r \<Rightarrow> True
      | Made_Dir dir \<Rightarrow> \<exists>folder. album_folder w folder \<and> dir = path_str folder
      | Copied src dst \<Rightarrow> in_album_folder w dst
      | Removed_Tree dir \<Rightarrow> False)"

lemma confinedI [simp, intro]:
  "confined w (Sent r)" "album_folder w folder \<Longrightarrow> confined w (Made_Dir (path_str folder))"
  "album_folder w folder \<Longrightarrow> CHR ''/'' \<notin> set name \<Longrightarrow> confined w (Copied src (path_str folder @ ''/'' @ name))"
  unfolding confined_def in_album_folder_def event.case by (rule TrueI, blast, blast)

text \<open>An operation keeps that state at all times, moves the queue by those steps only, and only adds confined events.\<close>

definition settles_from :: "world \<Rightarrow> int option \<Rightarrow> desk \<Rightarrow> desk \<Rightarrow> bool" where
  "settles_from w wid d d' \<longleftrightarrow> kept_state d' = kept_state d \<and>
     (queue_step w wid)\<^sup>*\<^sup>* (ln_jobs (dk_lane d)) (ln_jobs (dk_lane d')) \<and>
     (\<exists>es. dk_log d' = es @ dk_log d \<and> (\<forall>e\<in>set es. confined w e)) \<and>
     (\<exists>past. dk_past d' = past @ dk_past d \<and> (\<forall>lan\<in>set past. kept_lane lan = kept_state d))"

lemma settles_refl [simp, intro]: "settles_from w wid d d"
  by (simp add: settles_from_def)

lemma settles_trans:
  assumes "settles_from w wid d d1" and "settles_from w wid d1 d2"
  shows "settles_from w wid d d2"
proof -
  from assms obtain es1 es2 p1 p2 where
    "dk_log d1 = es1 @ dk_log d" "dk_log d2 = es2 @ dk_log d1" "\<forall>e\<in>set es1 \<union> set es2. confined w e"
    "dk_past d1 = p1 @ dk_past d" "dk_past d2 = p2 @ dk_past d1" "\<forall>lan\<in>set p1 \<union> set p2. kept_lane lan = kept_state d"
    unfolding settles_from_def by (metis UnE)
  then have "\<exists>es. dk_log d2 = es @ dk_log d \<and> (\<forall>e\<in>set es. confined w e)"
    "\<exists>past. dk_past d2 = past @ dk_past d \<and> (\<forall>lan\<in>set past. kept_lane lan = kept_state d)"
    by (intro exI[of _ "es2 @ es1"] exI[of _ "p2 @ p1"]; auto)+
  with assms show ?thesis unfolding settles_from_def by (auto intro: rtranclp_trans)
qed

lemma settles_ask: "ask w r d = (x, d1) \<Longrightarrow> settles_from w wid d d1"
  by (auto simp: ask_def settles_from_def kept_state_def note_event_def)

lemma settles_note: "confined w e \<Longrightarrow> settles_from w wid d (note_event e d)"
  by (auto simp: settles_from_def kept_state_def note_event_def)

definition lane_kept :: "world \<Rightarrow> int option \<Rightarrow> (lane \<Rightarrow> lane) \<Rightarrow> bool" where
  "lane_kept w wid f \<longleftrightarrow> (\<forall>lan. kept_lane (f lan) = kept_lane lan \<and> (queue_step w wid)\<^sup>*\<^sup>* (ln_jobs lan) (ln_jobs (f lan)))"

lemma settles_on_lane [intro!]:
  assumes "settles_from w wid d d1" and "lane_kept w wid f"
  shows "settles_from w wid d (on_lane f d1)"
proof (rule settles_trans[OF assms(1)])
  show "settles_from w wid d1 (on_lane f d1)"
    using assms(2) by (simp add: lane_kept_def settles_from_def kept_state_def on_lane_def)
qed

lemma progress_kept [simp]: "lane_kept w wid (set_worker_progress now wid jid stage pct message extra)"
proof (cases wid)
  case (Some i)
  have "queue_step w (Some i) db (update_job_progress now i progress db)" for progress db
    by (simp add: queue_step_def own_progress_update)
  with Some show ?thesis
    by (simp add: lane_kept_def kept_lane_def set_worker_progress_def set_proj_def Let_def r_into_rtranclp)
qed (simp add: lane_kept_def kept_lane_def set_worker_progress_def set_proj_def Let_def)

lemma others_kept [simp]: "lane_kept w wid (\<lambda>lan. lan\<lparr>ln_jobs := wd_others w L (ln_jobs lan)\<rparr>)"
proof -
  have "queue_step w wid db (wd_others w L db)" for db by (auto simp: queue_step_def)
  then show ?thesis by (simp add: lane_kept_def kept_lane_def r_into_rtranclp)
qed

lemma lane_kept_ops [simp]:
  "lane_kept w wid (mark_download_cancelled now jid)" "lane_kept w wid (mark_import_failed now jid reason)"
  "lane_kept w wid (complete_lidarr_import_without_queue_delete now jid dir)" "lane_kept w wid (hide_from_lidarr jid)"
  "lane_kept w wid (record_job_timing jid stage seconds)" "lane_kept w wid (\<lambda>lan. set_proj jid (h lan) lan)"
  by (auto simp: lane_kept_def kept_lane_def mark_download_cancelled_def mark_import_failed_def
      complete_lidarr_import_without_queue_delete_def mark_import_completed_def hide_from_lidarr_def record_job_timing_def
      set_proj_def Let_def split: option.splits)

lemma settles_check: "raise_if_job_cancelled w now wid jid d = (x, d1) \<Longrightarrow> settles_from w wid d d1"
  by (auto simp: raise_if_job_cancelled_def Let_def split: option.splits if_splits )

lemma unless_cancelled_cases:
  assumes "unless_cancelled (raise_if_job_cancelled w now wid jid d) k = (r, d')"
  obtains (cancelled) e where "r = Inl e" "settles_from w wid d d'"
  | (goes_on) d1 where "settles_from w wid d d1" "raise_if_job_cancelled w now wid jid d = (None, d1)" "k d1 = (r, d')"
proof (cases "raise_if_job_cancelled w now wid jid d")
  case (Pair x d1)
  from settles_check[OF this] Pair assms that show thesis
    by (cases x) (auto simp: unless_cancelled_def)
qed

lemma settles_trackfiles: "count_trackfiles w ids n d = (m, d') \<Longrightarrow> settles_from w wid d d'"
  by (induction w ids n d arbitrary: m d' rule: count_trackfiles.induct)
    (auto split: prod.splits intro: settles_trans settles_ask)

lemma settles_gained: "count_gained w pre n d = (m, d') \<Longrightarrow> settles_from w wid d d'"
  by (induction w pre n d arbitrary: m d' rule: count_gained.induct)
    (auto split: prod.splits intro: settles_trans settles_ask)

lemma settles_history: "count_lidarr_imported_history w jid d = (h, d') \<Longrightarrow> settles_from w wid d d'"
  by (auto simp: count_lidarr_imported_history_def split: prod.splits intro: settles_ask)

lemma settles_progress:
  assumes "count_manualimport_progress w jid files pre required d = (c, d')"
  shows "settles_from w wid d d'"
proof -
  obtain n1 d1 where g: "count_gained w pre 0 d = (n1, d1)" by fastforce
  obtain h d2 where hi: "count_lidarr_imported_history w jid d1 = (h, d2)" by fastforce
  obtain n2 d2' where s2: "(if n1 < required then (max n1 h, d2) else (n1, d1)) = (n2, d2')" by fastforce
  obtain t d3 where tf: "count_lidarr_trackfiles w (map fst pre) d2' = (t, d3)" by fastforce
  have "settles_from w wid d d2'"
    using settles_gained[OF g] settles_history[OF hi] s2 by (auto split: if_splits intro: settles_trans)
  moreover from settles_trackfiles[OF tf[unfolded count_lidarr_trackfiles_def]] have "settles_from w wid d2' d3" .
  moreover have "d' = d3 \<or> d' = d2'"
    using assms g hi s2 tf by (auto simp: count_manualimport_progress_def Let_def split: if_splits)
  ultimately show ?thesis by (auto intro: settles_trans)
qed

lemma settles_poll: "poll_manualimport w jid files pre required n seen d = (c, d') \<Longrightarrow> settles_from w wid d d'"
  by (induction n arbitrary: seen d) (auto split: prod.splits if_splits intro: settles_trans settles_progress)

lemma settles_wait: "wait_for_manualimport_progress w jid files pre d = (c, d') \<Longrightarrow> settles_from w wid d d'"
  by (auto simp: wait_for_manualimport_progress_def Let_def split: prod.splits intro: settles_poll)

lemma settles_command: "poll_command w cid n d = (p, d') \<Longrightarrow> settles_from w wid d d'"
  by (induction n arbitrary: d)
    (auto split: prod.splits option.splits if_splits json.splits intro: settles_trans settles_ask)

lemma settles_pending: "lidarr_command_still_pending w cmd d = (r, d') \<Longrightarrow> settles_from w wid d d'"
  by (auto simp: lidarr_command_still_pending_def split: option.splits json.splits if_splits prod.splits intro: settles_command)

lemma settles_delete: "delete_queue_rows w jid rows d = (u, d') \<Longrightarrow> settles_from w wid d d'"
  by (induction w jid rows d arbitrary: u d' rule: delete_queue_rows.induct)
    (auto split: json.splits prod.splits option.splits if_splits intro: settles_trans settles_ask)

lemma settles_cleanup: "settles_from w wid d (cleanup_lidarr_queue w jid d)"
proof -
  obtain r d1 where a: "ask w Get_Queue d = (r, d1)" by fastforce
  note s1 = settles_ask[OF a]
  show ?thesis
  proof (cases "records_of r")
    case None
    with a show ?thesis by (auto simp: cleanup_lidarr_queue_def Let_def intro: s1)
  next
    case (Some rows)
    obtain u d2 where del: "delete_queue_rows w jid rows d1 = (u, d2)" by fastforce
    note s2 = settles_trans[OF s1 settles_delete[OF del]]
    with a Some del show ?thesis
      by (cases u) (auto simp: cleanup_lidarr_queue_def Let_def intro: s2)
  qed
qed

lemma path_name_no_slash: "CHR ''/'' \<notin> set (py_path_name s)"
proof (cases "path_parts s = []")
  case False
  then have "last (path_parts s) \<in> set (split_char (CHR ''/'') s)"
    using last_in_set[OF False] by (auto simp: path_parts_def)
  with split_char_parts False show ?thesis by (fastforce simp: py_path_name_def)
qed (simp add: py_path_name_def)

lemma settles_copy: "rescue_copy w folder files moved d = (n, d') \<Longrightarrow> album_folder w folder \<Longrightarrow> settles_from w wid d d'"
proof (induction w folder files moved d arbitrary: n d' rule: rescue_copy.induct)
  case (2 w folder f fs moved d)
  show ?case
  proof (cases "wd_exists w (dk_log d) (lidarr_path_to_output_path w (py_str (dget ''path'' f)))")
    case True
    let ?src = "lidarr_path_to_output_path w (py_str (dget ''path'' f))"
    let ?e = "Copied ?src (path_str folder @ ''/'' @ py_path_name ?src)"
    have "settles_from w wid d (note_event ?e d)"
      using 2(4) path_name_no_slash by (intro settles_note confinedI) blast+
    moreover from 2(2)[OF refl _ refl] True 2(3,4) have "settles_from w wid (note_event ?e d) d'" by (simp add: Let_def)
    ultimately show ?thesis by (rule settles_trans)
  next
    case False
    from 2(1)[OF refl] False 2(3,4) show ?thesis by (simp add: Let_def)
  qed
qed simp

lemma fetch_cases:
  assumes "fetch w r d k = (res, d')"
  obtains (failed) "res = Inl Lidarr_Error" "settles_from w wid d d'"
  | (got) v d1 where "settles_from w wid d d1" "k v d1 = (res, d')"
proof (cases "ask w r d")
  case (Pair reply d1)
  from settles_ask[OF this] Pair assms that show thesis
    by (cases "body_of reply") (auto simp: fetch_def)
qed

lemma settles_rescan: "rescue_rescan w jid aid artist_id moved d = (r, d') \<Longrightarrow> settles_from w wid d d'"
proof -
  assume r: "rescue_rescan w jid aid artist_id moved d = (r, d')"
  obtain reply d1 where a: "ask w (Post_Refresh artist_id) d = (reply, d1)" by fastforce
  note s1 = settles_ask[OF a]
  show ?thesis
  proof (cases reply)
    case None
    with r a s1 show ?thesis by (auto simp: rescue_rescan_def)
  next
    case (Some x)
    with r a have "fetch w (Get_Trackfiles (py_str aid)) d1 (\<lambda>tfs d2.
            case json_len tfs of
              None \<Rightarrow> (Inl Lidarr_Error, d2)
            | Some n \<Rightarrow>
                if max 1 ((moved + 1) div 2) \<le> n then (Inr True, on_lane (hide_from_lidarr jid) d2) else (Inr False, d2)) = (r, d')"
      by (simp add: rescue_rescan_def)
    then show ?thesis
    proof (cases rule: fetch_cases[where wid = wid])
      case failed
      with s1 show ?thesis by (auto intro: settles_trans)
    next
      case (got v d2)
      note s2 = settles_trans[OF s1 got(1)]
      from got(2) s2 show ?thesis by (cases "json_len v") (auto split: if_splits)
    qed
  qed
qed


lemma sanitize_plain: "plain_segment (sanitize_path_segment s)"
proof -
  have "c \<in> set (py_strip t) \<Longrightarrow> c \<in> set t" for c t
    by (auto simp: py_strip_def py_lstrip_def py_rstrip_def dest!: set_dropWhileD)
  then have strip: "set (py_strip t) \<subseteq> set t" for t by blast
  define t where "t = filter (\<lambda>c. c \<noteq> CHR 0x00) (map (\<lambda>c. if c = CHR ''/'' \<or> c = CHR 0x5C then CHR ''_'' else c) s)"
  have "set t \<inter> {CHR ''/'', CHR 0x5C, CHR 0x00} = {}" by (auto simp: t_def)
  then have "set (dropWhile (\<lambda>c. c = CHR ''.'') (py_strip t)) \<inter> {CHR ''/'', CHR 0x5C, CHR 0x00} = {}"
    using strip[of t] set_dropWhileD by fast
  then show ?thesis by (simp add: sanitize_path_segment_def t_def[symmetric] Let_def plain_segment_def)
qed

lemma segment_plain: "segment_of v = Some s \<Longrightarrow> plain_segment s"
proof -
  have "plain_segment ''Unknown''" by (simp add: plain_segment_def)
  then show "segment_of v = Some s \<Longrightarrow> plain_segment s"
    using sanitize_plain by (auto simp: segment_of_def split: if_splits json.splits)
qed

lemma year_digits: "album_year_of v = Some y \<Longrightarrow> length y \<le> 4 \<and> (\<forall>c\<in>set y. py_isdigit c)"
  by (auto simp: album_year_of_def Let_def list_all_iff py_isdigit_def is_digit_def split: json.splits if_splits)

lemma rescue_target_folder:
  assumes "rescue_target w album artist d = Some (base, folder)" and "is_relative_to folder base"
  shows "album_folder w folder"
proof -
  from assms(1) obtain a t y where parts: "plain_segment a" "plain_segment t" "length y \<le> 4" "\<forall>c\<in>set y. py_isdigit c"
    and base: "base = wd_resolve w (dk_log d) LIBRARY_ROOT"
    and folder: "folder = wd_resolve w (dk_log d) (path_str (fst base, snd base @ [a, t @ '' ('' @ y @ '')'']))"
    by (auto simp: rescue_target_def Let_def split: option.splits bind_splits dest!: segment_plain year_digits)
  with assms(2) show ?thesis
    unfolding album_folder_def Let_def by (intro exI[of _ "dk_log d"] exI[of _ a] exI[of _ t] exI[of _ y]) simp
qed

lemma settles_place: "rescue_place w jid files d = (r, d') \<Longrightarrow> settles_from w wid d d'"
  unfolding rescue_place_def Let_def
proof (elim fetch_cases)
  fix album d1 artist d2
  assume s1: "settles_from w wid d d1" and s2: "settles_from w wid d1 d2"
    and k: "(case rescue_target w album artist d2 of
          None \<Rightarrow> (Inl Bad_Record, d2)
        | Some (base, folder) \<Rightarrow>
            if \<not> is_relative_to folder base then (Inr False, d2)
            else if \<not> wd_mkdir_ok w (dk_log (note_event (Made_Dir (path_str folder)) d2))
                 then (Inl (Runtime_Error_Of ''mkdir''), note_event (Made_Dir (path_str folder)) d2)
                 else case rescue_copy w folder files 0 (note_event (Made_Dir (path_str folder)) d2) of
                        (moved, d4) \<Rightarrow>
                          if moved = 0 then (Inr False, d4)
                          else rescue_rescan w jid (dget ''albumId'' (hd files)) (dget ''artistId'' (hd files)) moved d4) = (r, d')"
  note s12 = settles_trans[OF s1 s2]
  show "settles_from w wid d d'"
  proof (cases "rescue_target w album artist d2")
    case None
    with k s12 show ?thesis by simp
  next
    case (Some bf)
    obtain base folder where bf: "bf = (base, folder)" by (cases bf)
    let ?d3 = "note_event (Made_Dir (path_str folder)) d2"
    obtain moved d4 where c: "rescue_copy w folder files 0 ?d3 = (moved, d4)" by fastforce
    have inside: "album_folder w folder" if "is_relative_to folder base"
      using that Some bf by (auto intro: rescue_target_folder)
    then have s3: "settles_from w wid d ?d3" if "is_relative_to folder base"
      using that by (intro settles_trans[OF s12] settles_note confinedI) blast
    show ?thesis
    proof (cases "is_relative_to folder base \<and> wd_mkdir_ok w (dk_log ?d3)")
      case False
      with k Some bf s12 s3 show ?thesis by (auto split: if_splits)
    next
      case True
      with inside have "album_folder w folder" by simp
      then have s4: "settles_from w wid d d4" using True by (intro settles_trans[OF s3 settles_copy[OF c]]) simp_all
      show ?thesis
      proof (cases "moved = 0")
        case True
        with k Some bf \<open>is_relative_to folder base \<and> _\<close> c s4 show ?thesis by simp
      next
        case False
        with k Some bf True c have "rescue_rescan w jid (dget ''albumId'' (hd files)) (dget ''artistId'' (hd files)) moved d4 = (r, d')"
          by simp
        from settles_trans[OF s4 settles_rescan[OF this]] show ?thesis .
      qed
    qed
  qed
qed (auto intro: settles_trans)

lemma settles_rescue: "rescue_place_and_rescan w now jid files wid d = (r, d') \<Longrightarrow> settles_from w wid d d'"
  unfolding rescue_place_and_rescan_def
  by (erule unless_cancelled_cases) (auto split: if_splits intro: settles_trans settles_place)

lemma finish_import_spec:
  assumes "finish_import w now jid dir wid files pre cmd d = (r, d')"
  shows "settles_from w wid d d' \<and> r \<noteq> Inr SKIPPED"
proof -
  obtain n required d1 where wt: "wait_for_manualimport_progress w jid files pre d = ((n, required), d1)"
    by (metis surj_pair)
  note s1 = settles_wait[OF wt]
  show ?thesis
  proof (cases "required \<le> n")
    case True
    with assms wt s1 show ?thesis by (auto simp: finish_import_def Let_def)
  next
    case False
    obtain p d2 where pe: "lidarr_command_still_pending w cmd d1 = (p, d2)" by fastforce
    note s2 = settles_trans[OF s1 settles_pending[OF pe]]
    show ?thesis
    proof (cases p)
      case (Inl e)
      with assms wt False pe s2 show ?thesis by (auto simp: finish_import_def Let_def)
    next
      case (Inr b)
      show ?thesis
      proof (cases b)
        case True
        with assms wt False pe s2 Inr show ?thesis by (auto simp: finish_import_def Let_def)
      next
        case nb: False
        let ?progress = "\<lambda>stage pct message extra. on_lane (set_worker_progress now wid jid stage pct message extra)"
        from assms wt False pe Inr nb
        have "unless_cancelled (raise_if_job_cancelled w now wid jid d2) (\<lambda>d3.
                   case rescue_place_and_rescan w now jid files wid (?progress ''rescue'' 80 ''Trying rescue import'' [] d3) of
                     (Inl e, d4) \<Rightarrow> (Inl e, d4)
                   | (Inr True, d4) \<Rightarrow>
                       (Inr RESCUED,
                        ?progress ''done'' 100 ''Rescue import complete'' []
                          (on_lane (complete_lidarr_import_without_queue_delete now jid dir) d4))
                   | (Inr False, d4) \<Rightarrow>
                       (Inr FAILED,
                        cleanup_lidarr_queue w jid (?progress ''failed'' 100 ''ManualImport failed'' []
                          (on_lane (mark_import_failed now jid ''manual promote import failed'') d4)))) = (r, d')"
          by (simp add: finish_import_def Let_def)
        then show ?thesis
        proof (cases rule: unless_cancelled_cases)
          case (cancelled e)
          with s2 show ?thesis by (auto intro: settles_trans)
        next
          case (goes_on d3)
          obtain q d4 where re: "rescue_place_and_rescan w now jid files wid (?progress ''rescue'' 80 ''Trying rescue import'' [] d3) = (q, d4)"
            by fastforce
          have "settles_from w wid d (?progress ''rescue'' 80 ''Trying rescue import'' [] d3)"
            using settles_trans[OF s2 goes_on(1)] by auto
          from settles_trans[OF this settles_rescue[OF re]] have s4: "settles_from w wid d d4" .
          show ?thesis
          proof (cases q)
            case (Inl e)
            with goes_on(3) re s4 show ?thesis by auto
          next
            case (Inr b)
            with goes_on(3) re s4 show ?thesis
              by (cases b) (auto intro: settles_trans[OF _ settles_cleanup])
          qed
        qed
      qed
    qed
  qed
qed

lemma settles_pre_counts: "pre_counts w ids d = (pre, d') \<Longrightarrow> settles_from w wid d d'"
  by (induction w ids d arbitrary: pre d' rule: pre_counts.induct)
    (auto split: prod.splits intro: settles_trans settles_ask)

lemma send_import_spec:
  assumes "send_import w now jid dir wid files d = (r, d')"
  shows "settles_from w wid d d' \<and> r \<noteq> Inr SKIPPED"
proof -
  let ?progress = "\<lambda>stage pct message. on_lane (set_worker_progress now wid jid stage pct message
      [(''file_count'', JInt (int (length files)))])"
  obtain pre d1 where pc: "pre_counts w (album_ids_of files) (?progress ''manualimport'' 45 ''Triggering Lidarr ManualImport'' d) = (pre, d1)"
    by fastforce
  obtain cmd d2 where pi: "ask w (Post_Import files) d1 = (cmd, d2)" by fastforce
  have "settles_from w wid d (?progress ''manualimport'' 45 ''Triggering Lidarr ManualImport'' d)" by auto
  from settles_trans[OF settles_trans[OF this settles_pre_counts[OF pc]] settles_ask[OF pi]]
  have s2: "settles_from w wid d d2" .
  show ?thesis
  proof (cases cmd)
    case None
    with assms pc pi s2 show ?thesis by (auto simp: send_import_def Let_def)
  next
    case (Some c)
    with assms pc pi have "unless_cancelled (raise_if_job_cancelled w now wid jid d2) (\<lambda>d3.
        finish_import w now jid dir wid files pre c (?progress ''manualimport_wait'' 65 ''Waiting for Lidarr import'' d3)) = (r, d')"
      by (simp add: send_import_def Let_def)
    then show ?thesis
    proof (cases rule: unless_cancelled_cases)
      case (cancelled e)
      with s2 show ?thesis by (auto intro: settles_trans)
    next
      case (goes_on d3)
      have "settles_from w wid d (?progress ''manualimport_wait'' 65 ''Waiting for Lidarr import'' d3)"
        using settles_trans[OF s2 goes_on(1)] by auto
      from settles_trans[OF this] finish_import_spec[OF goes_on(3)] show ?thesis by blast
    qed
  qed
qed

lemma import_candidates_spec:
  assumes "import_candidates w now jid dir wid rp d = (r, d')"
  shows "settles_from w wid d d' \<and> r \<noteq> Inr SKIPPED"
proof (cases "Option.bind (re_body rp) (manual_import_files_from_items jid True)")
  case None
  with assms show ?thesis by (auto simp: import_candidates_def)
next
  case (Some files)
  show ?thesis
  proof (cases "files = []")
    case True
    with assms Some show ?thesis by (auto simp: import_candidates_def)
  next
    case False
    with assms Some have "unless_cancelled (raise_if_job_cancelled w now wid jid d) (send_import w now jid dir wid files) = (r, d')"
      by (simp add: import_candidates_def)
    then show ?thesis
      by (cases rule: unless_cancelled_cases) (auto dest: send_import_spec intro: settles_trans)
  qed
qed

lemma lookup_candidates_spec:
  assumes "lookup_candidates w now jid dir wid d = (r, d')"
  shows "settles_from w wid d d' \<and> r \<noteq> Inr SKIPPED"
proof -
  obtain rep d1 where a: "ask w (Get_Candidates (wd_complete_root w @ ''/'' @ jid)) d = (rep, d1)" by fastforce
  note s1 = settles_ask[OF a]
  consider "wd_key w = []" | "wd_key w \<noteq> []" "rep = None" | rp where "wd_key w \<noteq> []" "rep = Some rp" by (cases rep) auto
  then show ?thesis
  proof cases
    case (3 rp)
    show ?thesis
    proof (cases "re_status rp = 200")
      case True
      with assms a 3 have "unless_cancelled (raise_if_job_cancelled w now wid jid d1) (import_candidates w now jid dir wid rp) = (r, d')"
        by (simp add: lookup_candidates_def)
      then show ?thesis
        by (cases rule: unless_cancelled_cases) (auto dest: import_candidates_spec intro: settles_trans s1)
    qed (use assms a 3 s1 in \<open>auto simp: lookup_candidates_def\<close>)
  qed (use assms a s1 in \<open>auto simp: lookup_candidates_def\<close>)
qed

lemma run_manual_import_only_spec:
  assumes "run_manual_import_only w now jid dir wid d = (r, d')"
  shows "settles_from w wid d d' \<and> r \<noteq> Inr SKIPPED"
proof -
  have s0: "settles_from w wid d (on_lane (set_worker_progress now wid jid ''manualimport_lookup'' 20
      ''Looking up Lidarr ManualImport candidates'' []) d)" by auto
  from assms show ?thesis unfolding run_manual_import_only_def
    by (cases rule: unless_cancelled_cases) (auto dest: lookup_candidates_spec intro: settles_trans[OF s0] settles_trans)
qed

section \<open>Properties\<close>


lemma no_worker_not_cancelled [simp]: "unless_cancelled (raise_if_job_cancelled w now None jid d) k = k d"
  by (simp add: unless_cancelled_def raise_if_job_cancelled_def)

lemma history_count:
  assumes "\<And>L. required \<le> imported_count_of jid (wd_lidarr w (Sent (Get_History 100) # L))"
    and "count_manualimport_progress w jid files pre required d = (c, d')"
  shows "required \<le> c"
proof -
  obtain n1 d1 where g: "count_gained w pre 0 d = (n1, d1)" by fastforce
  have h: "count_lidarr_imported_history w jid d1 =
      (imported_count_of jid (wd_lidarr w (Sent (Get_History 100) # dk_log d1)), note_event (Sent (Get_History 100)) d1)"
    by (simp add: count_lidarr_imported_history_def ask_def)
  show ?thesis
  proof (cases "n1 < required")
    case True
    with assms(1)[of "dk_log d1"] have "\<not> max n1 (imported_count_of jid (wd_lidarr w (Sent (Get_History 100) # dk_log d1))) < required"
      by simp
    with assms(2) g h True show ?thesis by (auto simp: count_manualimport_progress_def Let_def)
  next
    case False
    with assms(2) g show ?thesis by (auto simp: count_manualimport_progress_def Let_def)
  qed
qed

lemma poll_first:
  "count_manualimport_progress w jid files pre required d = (c, d') \<Longrightarrow> required \<le> c \<Longrightarrow>
   poll_manualimport w jid files pre required (Suc n) seen d = (c, d')"
  by simp

text \<open>(C33) The evidence of an import counts every import event that Lidarr's history has for the download, those of
  earlier attempts as well. When an earlier attempt imported at least as many files as the retry submits, the
  retry reports success at once, whatever Lidarr answers to the command, a refusal included.\<close>

theorem stale_history_is_success:
  assumes "wd_key w \<noteq> []"
    and "\<forall>L. \<exists>rp. wd_lidarr w (Sent (Get_Candidates (wd_complete_root w @ ''/'' @ jid)) # L) = Some rp \<and> re_status rp = 200 \<and>
        Option.bind (re_body rp) (manual_import_files_from_items jid True) = Some files"
    and "files \<noteq> []"
    and "\<forall>L. required_files files \<le> imported_count_of jid (wd_lidarr w (Sent (Get_History 100) # L))"
    and "\<forall>L. wd_lidarr w (Sent (Post_Import files) # L) = Some cmd"
  shows "\<exists>d'. run_manual_import_only w now jid dir None d = (Inr MANUAL_IMPORTED, d') \<and>
    (\<exists>p. proj_of jid (dk_lane d') = Some p \<and> dget ''status'' p = JStr ''completed'' \<and> dget ''hidden_from_lidarr'' p = JBool True)"
proof -
  let ?d1 = "on_lane (set_worker_progress now None jid ''manualimport_lookup'' 20 ''Looking up Lidarr ManualImport candidates'' []) d"
  obtain rp where rp: "ask w (Get_Candidates (wd_complete_root w @ ''/'' @ jid)) ?d1 =
      (Some rp, note_event (Sent (Get_Candidates (wd_complete_root w @ ''/'' @ jid))) ?d1)" "re_status rp = 200"
    "Option.bind (re_body rp) (manual_import_files_from_items jid True) = Some files"
    using assms(2) unfolding ask_def by (metis)
  define d2 where "d2 = note_event (Sent (Get_Candidates (wd_complete_root w @ ''/'' @ jid))) ?d1"
  have "run_manual_import_only w now jid dir None d = send_import w now jid dir None files d2"
    using assms(1,3) rp by (simp add: run_manual_import_only_def lookup_candidates_def import_candidates_def d2_def)
  moreover obtain pre d3 where "pre_counts w (album_ids_of files) (on_lane (set_worker_progress now None jid ''manualimport'' 45
      ''Triggering Lidarr ManualImport'' [(''file_count'', JInt (int (length files)))]) d2) = (pre, d3)" by fastforce
  moreover define d4 where "d4 = on_lane (set_worker_progress now None jid ''manualimport_wait'' 65 ''Waiting for Lidarr import''
      [(''file_count'', JInt (int (length files)))]) (note_event (Sent (Post_Import files)) d3)"
  ultimately have run: "run_manual_import_only w now jid dir None d = finish_import w now jid dir None files pre cmd d4"
    using assms(5) by (simp add: send_import_def Let_def ask_def)
  obtain c d5 where c: "count_manualimport_progress w jid files pre (required_files files) d4 = (c, d5)" by fastforce
  from history_count[OF _ c] assms(4) have enough: "required_files files \<le> c" by blast
  have attempts: "nat (max 1 (IMPORT_TIMEOUT_SEC div IMPORT_INTERVAL_SEC + 1)) = Suc 45"
    by (simp add: IMPORT_TIMEOUT_SEC_def IMPORT_INTERVAL_SEC_def)
  have "wait_for_manualimport_progress w jid files pre d4 = ((c, required_files files), d5)"
    unfolding wait_for_manualimport_progress_def Let_def attempts poll_first[OF c enough] by simp
  with enough have "finish_import w now jid dir None files pre cmd d4 =
      (Inr MANUAL_IMPORTED, on_lane (set_worker_progress now None jid ''done'' 100 ''ManualImport complete'' [])
        (on_lane (complete_lidarr_import_without_queue_delete now jid dir)
          (on_lane (set_worker_progress now None jid ''cleanup'' 90 ''Finalizing Lidarr import'' []) d5)))"
    by (simp add: finish_import_def)
  with run show ?thesis
    by (simp add: on_lane_def set_worker_progress_def complete_lidarr_import_without_queue_delete_def mark_import_completed_def
        proj_default_def set_proj_def proj_of_def update_conv' Let_def)
qed

text \<open>A Lidarr that refuses the command; \<open>recs\<close> is its history.\<close>

definition demo_item :: json where
  "demo_item = JObj [(''path'', JStr ''/c/j1/1.flac''), (''artist'', JObj [(''id'', JInt 3)]),
     (''album'', JObj [(''id'', JInt 7), (''currentRelease'', JObj [(''id'', JInt 9)])]), (''tracks'', JList [JObj [(''id'', JInt 1)]]),
     (''quality'', JObj [])]"

definition demo_file :: dict where
  "demo_file = [(''path'', JStr ''/c/j1/1.flac''), (''artistId'', JInt 3), (''albumId'', JInt 7), (''albumReleaseId'', JInt 9),
     (''trackIds'', JList [JInt 1]), (''quality'', JObj []), (''releaseGroup'', JStr []), (''downloadId'', JStr ''j1''),
     (''additionalFile'', JBool False), (''replaceExistingFiles'', JBool True), (''disableReleaseSwitching'', JBool False)]"

definition has_copied :: "event list \<Rightarrow> bool" where
  "has_copied L = list_ex (\<lambda>e. case e of Copied s d \<Rightarrow> True | _ \<Rightarrow> False) L"

definition demo_lidarr :: "json list \<Rightarrow> event list \<Rightarrow> lidarr_reply option" where
  "demo_lidarr recs L =
     (case L of
        Sent (Get_Candidates p) # _ \<Rightarrow> Some \<lparr>re_status = 200, re_body = Some (JList [demo_item])\<rparr>
      | Sent (Get_History n) # _ \<Rightarrow> Some \<lparr>re_status = 200, re_body = Some (JObj [(''records'', JList recs)])\<rparr>
      | Sent (Post_Import files) # _ \<Rightarrow> Some \<lparr>re_status = 500, re_body = None\<rparr>
      | Sent (Get_Trackfiles a) # L' \<Rightarrow> Some \<lparr>re_status = 200, re_body = Some (JList (if has_copied L' then [JObj []] else []))\<rparr>
      | Sent (Get_Album a) # _ \<Rightarrow>
          Some \<lparr>re_status = 200, re_body = Some (JObj [(''title'', JStr ''A/B''), (''releaseDate'', JStr ''1997-05-21'')])\<rparr>
      | Sent (Get_Artist a) # _ \<Rightarrow> Some \<lparr>re_status = 200, re_body = Some (JObj [(''artistName'', JStr ''../../etc'')])\<rparr>
      | Sent (Post_Refresh a) # _ \<Rightarrow> Some \<lparr>re_status = 201, re_body = None\<rparr>
      | _ \<Rightarrow> None)"

definition demo_world :: "json list \<Rightarrow> world" where
  "demo_world recs = \<lparr>wd_env = demo_env\<lparr>env_archive_dirs := [''/b'', ''/d'', ''/e'']\<rparr>, wd_key = ''k'', wd_complete_root = ''/c'',
     wd_discarded = ''/d'', wd_expired = ''/e'', wd_rescue_enabled = True, wd_lidarr = demo_lidarr recs, wd_others = (\<lambda>_ db. db),
     wd_exists = (\<lambda>_ _. True), wd_audio = (\<lambda>_ _. 1), wd_resolve = (\<lambda>_. path_of), wd_mkdir_ok = (\<lambda>_. True),
     wd_copy_ok = (\<lambda>_. True), wd_elapsed = (\<lambda>_. 1)\<rparr>"

definition demo_desk :: desk where
  "demo_desk = \<lparr>dk_lane = demo_lane, dk_log = [], dk_past = []\<rparr>"

definition imported_record :: json where
  "imported_record = JObj [(''downloadId'', JStr ''j1''), (''eventType'', JStr ''trackFileImported'')]"

theorem stale_history_is_success_witness:
  "fst (run_manual_import_only (demo_world [imported_record]) 5 ''j1'' ''/out/j1'' None demo_desk) = Inr MANUAL_IMPORTED"
proof -
  let ?w = "demo_world [imported_record]"
  have files: "manual_import_files_from_items ''j1'' True (JList [demo_item]) = Some [demo_file]" by code_simp
  have n: "required_files [demo_file] = 1" by (simp add: required_files_def)
  show ?thesis
    using stale_history_is_success[where w = ?w and jid = "''j1''" and files = "[demo_file]" and
        cmd = "\<lparr>re_status = 500, re_body = None\<rparr>" and dir = "''/out/j1''" and d = demo_desk and now = 5] files
    by (auto simp: demo_world_def demo_lidarr_def n imported_count_of_def records_of_def body_of_def imported_record_def is_obj_def
        imported_event_def json_get_def dget_default_def)
qed

definition rescued_path :: string where
  "rescued_path = ''/music/Album/_.._etc/A_B (1997)/1.flac''"

lemma demo_rescued:
  "rescue_place_and_rescan (demo_world []) 5 ''j1'' [demo_file] None demo_desk =
     (Inr True, snd (rescue_place_and_rescan (demo_world []) 5 ''j1'' [demo_file] None demo_desk))"
  "list_ex (\<lambda>e. e = Copied ''/out/j1/1.flac'' rescued_path)
     (dk_log (snd (rescue_place_and_rescan (demo_world []) 5 ''j1'' [demo_file] None demo_desk)))"
proof -
  have "fst (rescue_place_and_rescan (demo_world []) 5 ''j1'' [demo_file] None demo_desk) = Inr True" by code_simp
  then show "rescue_place_and_rescan (demo_world []) 5 ''j1'' [demo_file] None demo_desk =
     (Inr True, snd (rescue_place_and_rescan (demo_world []) 5 ''j1'' [demo_file] None demo_desk))"
    by (metis prod.collapse)
qed code_simp


end
