(* ===== verification/Verification_Actions.thy ===== *)
theory Verification_Actions
  imports Import_Settlement
begin

text \<open>
  What an operator or the clock does with a verified release (\<open>app/server.py\<close>): promoting, retrying, discarding and
  expiring it, the worker jobs behind the first two, and the reconciliation of imports that Lidarr left
  pending.

  The state is the \<open>desk\<close> of \<open>Import_Settlement\<close>; the sidecars of the releases are the files of its lane, found through
  the candidates of \<open>_find_verification_sidecar\<close>. A handler answers with a JSON object and a status. \<open>busy\<close> says
  that a worker holds the promote lock of the release.
\<close>

type_synonym json_answer = "dict \<times> nat"

section \<open>Directories and sidecars\<close>

text \<open>The three archives are searched in this order: blocked, discarded, expired.\<close>

definition wf_world :: "world \<Rightarrow> bool" where
  "wf_world w \<longleftrightarrow> (\<exists>blocked. env_archive_dirs (wd_env w) = [blocked, wd_discarded w, wd_expired w])"

definition sidecar_in :: "world \<Rightarrow> string \<Rightarrow> desk \<Rightarrow> (string \<times> dict) option" where
  "sidecar_in w jid d = read_verification_sidecar (wd_env w) jid (dk_lane d)"

definition job_output_dir :: "world \<Rightarrow> string \<Rightarrow> desk \<Rightarrow> string" where
  "job_output_dir w jid d =
     (case Option.bind (proj_of jid (dk_lane d)) (\<lambda>p. str_of (dget ''output_dir'' p)) of
        Some s \<Rightarrow> s
      | None \<Rightarrow> env_output_base (wd_env w) @ ''/'' @ jid)"

definition archive_sidecar_path :: "string \<Rightarrow> string \<Rightarrow> string" where
  "archive_sidecar_path jid directory = directory @ ''/'' @ jid @ ''.json''"

definition atomic_write_json :: "string \<Rightarrow> dict \<Rightarrow> desk \<Rightarrow> desk" where
  "atomic_write_json p record = on_lane (write_sidecar p record)"

definition unlink_sidecar :: "string \<Rightarrow> lane \<Rightarrow> lane" where
  "unlink_sidecar p lan = lan\<lparr>ln_sidecars := AList.delete p (ln_sidecars lan)\<rparr>"

text \<open>\<open>shutil.rmtree\<close> below \<open>base\<close>, with the sidecars it removes; \<open>False\<close> when the target is not strictly below.\<close>

definition safe_rmtree_under :: "world \<Rightarrow> string \<Rightarrow> string \<Rightarrow> desk \<Rightarrow> bool \<times> desk" where
  "safe_rmtree_under w base target d =
     (let res = wd_resolve w (dk_log d); t = res target in
      if t = res base \<or> \<not> is_relative_to t (res base) then (False, d)
      else
        (True, note_event (Removed_Tree (path_str t))
           (on_lane (\<lambda>lan. lan\<lparr>ln_sidecars := filter (\<lambda>(p, _). \<not> is_relative_to (res p) t) (ln_sidecars lan)\<rparr>) d)))"

section \<open>Promoting\<close>

definition IMPORTED_OUTCOMES :: "json set" where
  "IMPORTED_OUTCOMES = {JStr ''MANUAL_IMPORTED'', JStr ''RESCUED''}"

definition action_answer :: "string \<Rightarrow> json \<Rightarrow> string \<Rightarrow> dict" where
  "action_answer jid outcome message = [(''jid'', JStr jid), (''import_outcome'', outcome), (''message'', JStr message)]"

definition action_error :: "string \<Rightarrow> string \<Rightarrow> dict" where
  "action_error jid message = [(''error'', JStr message), (''jid'', JStr jid)]"

definition promoted_record :: "rat \<Rightarrow> dict \<Rightarrow> json list \<Rightarrow> dict \<Rightarrow> dict" where
  "promoted_record now lifecycle overrides record =
     (let lc = dset ''actor'' (JStr ''user_promote'') (dset ''state'' (JStr ''promoted'') lifecycle);
          ov = (if JStr ''manual_promote'' \<in> set overrides then overrides else overrides @ [JStr ''manual_promote'']) in
      dset ''lifecycle'' (JObj (dset ''promoted_at'' (py_or (dget ''promoted_at'' lc) (JFloat now)) lc))
        (dset ''v2_overrides'' (JList ov) (dset ''v2_verification_decision'' (JStr ''ACCEPT_PROVISIONAL'') record)))"

definition promote_verified_import :: "world \<Rightarrow> rat \<Rightarrow> string \<Rightarrow> dict \<Rightarrow> string \<Rightarrow> int option \<Rightarrow> desk \<Rightarrow> (import_exn + json_answer) \<times> desk" where
  "promote_verified_import w now jid record path wid d =
     (let outcome = dget ''v2_import_outcome'' record in
      if outcome \<in> IMPORTED_OUTCOMES then (Inr (action_answer jid outcome ''already imported'', 200), d)
      else
        let record1 = dsetdefault ''v2_overrides'' (JList []) (dsetdefault ''lifecycle'' (JObj []) record) in
        if \<not> is_promotable record1 then (Inr (action_error jid ''verification is not promotable'', 409), d)
        else
          unless_cancelled (raise_if_job_cancelled w now wid jid d) (\<lambda>d1.
            case (dget ''lifecycle'' record1, dget ''v2_overrides'' record1) of
              (JObj lc, JList ov) \<Rightarrow>
                let record2 = promoted_record now lc ov record1; d2 = atomic_write_json path record2 d1 in
                (case run_manual_import_only w now jid (job_output_dir w jid d2) wid d2 of
                   (Inl e, d3) \<Rightarrow> (Inl e, d3)
                 | (Inr res, d3) \<Rightarrow>
                     let oc = JStr (outcome_str res) in
                     (Inr (action_answer jid oc ''promote complete'', 200),
                      atomic_write_json path (dset ''v2_import_outcome'' oc record2) d3))
            | _ \<Rightarrow> (Inl Bad_Record, d1)))"

section \<open>Retrying\<close>

definition retry_verified_import :: "world \<Rightarrow> rat \<Rightarrow> string \<Rightarrow> dict \<Rightarrow> string \<Rightarrow> int option \<Rightarrow> desk \<Rightarrow> (import_exn + json_answer) \<times> desk" where
  "retry_verified_import w now jid record path wid d =
     (let outcome = dget ''v2_import_outcome'' record; dir = job_output_dir w jid d in
      if outcome \<in> IMPORTED_OUTCOMES then (Inr (action_answer jid outcome ''already imported'', 200), d)
      else if \<not> is_retryable_verified_import record then (Inr (action_error jid ''verification is not retryable'', 409), d)
      else if \<not> wd_exists w (dk_log d) dir then (Inr (action_error jid ''output directory missing'', 409), d)
      else
        unless_cancelled (raise_if_job_cancelled w now wid jid d) (\<lambda>d1.
          let d2 = on_lane (\<lambda>lan. set_proj jid (dset ''output_dir'' (JStr dir) (dupdate
                     [(''status'', JStr ''processing''), (''warning'', JStr ''ManualImport retry''),
                      (''hidden_from_lidarr'', JBool False), (''percent'', JInt 100)] (proj_default jid lan))) lan) d1 in
          (case run_manual_import_only w now jid dir wid d2 of
             (Inl e, d3) \<Rightarrow> (Inl e, d3)
           | (Inr res, d3) \<Rightarrow>
               let oc = JStr (outcome_str res) in
               (Inr (action_answer jid oc ''retry complete'', 200),
                atomic_write_json path (dsetdefault ''lifecycle'' (py_or (dget ''lifecycle'' record) (JObj []))
                  (dset ''v2_import_outcome'' oc record)) d3))))"

section \<open>The worker jobs\<close>

definition verification_action_result_state :: "world \<Rightarrow> string \<Rightarrow> desk \<Rightarrow> string" where
  "verification_action_result_state w jid d =
     (case sidecar_in w jid d of
        Some (_, record) \<Rightarrow>
          if record = [] then ''completed''
          else if dget ''v2_import_outcome'' record = JStr ''FAILED'' then ''failed''
          else if dget ''v2_import_outcome'' record = JStr ''PENDING'' then ''pending''
          else derive_status record
      | None \<Rightarrow> ''completed'')"

definition execute_action_job :: "(world \<Rightarrow> rat \<Rightarrow> string \<Rightarrow> dict \<Rightarrow> string \<Rightarrow> int option \<Rightarrow> desk \<Rightarrow> (import_exn + json_answer) \<times> desk) \<Rightarrow>
    string \<Rightarrow> world \<Rightarrow> rat \<Rightarrow> job \<Rightarrow> desk \<Rightarrow> (import_exn + (string \<times> dict)) \<times> desk" where
  "execute_action_job act verb w now j d =
     (let jid = job_jid j; wid = Some (job_id j);
          progress = (\<lambda>stage pct message. on_lane (set_worker_progress now wid jid stage pct message [])) in
      if jid = [] then (Inl (Runtime_Error_Of (verb @ ''_import job missing jid'')), d)
      else
        let d1 = progress ''starting'' 5 (''Starting '' @ verb @ '' import'') d in
        case sidecar_in w jid d1 of
          None \<Rightarrow> (Inl (Runtime_Error_Of (''verification not found for jid='' @ jid)), d1)
        | Some (path, record) \<Rightarrow>
            (case act w now jid record path wid (progress ''validating'' 10 (''Validating '' @ verb @ '' state'') d1) of
               (Inl e, d2) \<Rightarrow> (Inl e, d2)
             | (Inr (payload, status), d2) \<Rightarrow>
                 if status \<ge> 400 then (Inl (Runtime_Error_Of (py_str (dget ''error'' payload))), d2)
                 else (Inr (verification_action_result_state w jid d2, payload), d2)))"

definition execute_promote_import_job :: "world \<Rightarrow> rat \<Rightarrow> job \<Rightarrow> desk \<Rightarrow> (import_exn + (string \<times> dict)) \<times> desk" where
  "execute_promote_import_job = execute_action_job promote_verified_import ''promote''"

definition execute_retry_import_job :: "world \<Rightarrow> rat \<Rightarrow> job \<Rightarrow> desk \<Rightarrow> (import_exn + (string \<times> dict)) \<times> desk" where
  "execute_retry_import_job = execute_action_job retry_verified_import ''retry''"

definition action_job_type :: "string \<Rightarrow> string option" where
  "action_job_type action = map_of [(''promote'', ''promote_import''), (''retry_import'', ''retry_import'')] action"

text \<open>\<open>None\<close> when the queue is unavailable.\<close>

definition enqueue_verification_action :: "rat \<Rightarrow> string \<Rightarrow> string \<Rightarrow> jobs_db \<Rightarrow> json_answer option \<times> jobs_db" where
  "enqueue_verification_action now jid action db =
     (case action_job_type action of
        None \<Rightarrow> (Some (action_error jid (''unknown action: '' @ action), 400), db)
      | Some ty \<Rightarrow>
          let key = ''verification:'' @ action @ '':'' @ jid in
          (case find_active_job_by_dedupe key db of
             Some j \<Rightarrow>
               (Some ([(''jid'', JStr jid), (''job_id'', JInt (job_id j)), (''job_state'', JStr (job_state_str (job_st j))),
                       (''message'', JStr (action @ '' already queued''))], 202), db)
           | None \<Rightarrow>
               (case enqueue_job now jid ty [(''action'', JStr action), (''jid'', JStr jid)] (Some key) (Some ''verification'') (Some jid) 2 3 db of
                  (None, db') \<Rightarrow> (None, db')
                | (Some i, db') \<Rightarrow>
                    (Some ([(''jid'', JStr jid), (''job_id'', JInt i), (''job_type'', JStr ty), (''message'', JStr (action @ '' queued''))], 202),
                     db'))))"

section \<open>The requests of the operator\<close>

text \<open>Queue the action; without a queue run it in the handler, under the lock.\<close>

definition queue_or_run :: "rat \<Rightarrow> string \<Rightarrow> string \<Rightarrow> bool \<Rightarrow> string \<Rightarrow> (desk \<Rightarrow> (import_exn + json_answer) \<times> desk) \<Rightarrow> desk \<Rightarrow>
    (import_exn + json_answer) \<times> desk" where
  "queue_or_run now jid action busy busy_message run_now d =
     (case enqueue_verification_action now jid action (ln_jobs (dk_lane d)) of
        (queued, db) \<Rightarrow>
          let d1 = on_lane (\<lambda>lan. lan\<lparr>ln_jobs := db\<rparr>) d in
          (case queued of
             Some answer \<Rightarrow> (Inr answer, d1)
           | None \<Rightarrow> if busy then (Inr (action_error jid busy_message, 409), d1) else run_now d1))"

definition verification_promote :: "world \<Rightarrow> rat \<Rightarrow> bool \<Rightarrow> string \<Rightarrow> desk \<Rightarrow> (import_exn + json_answer) \<times> desk" where
  "verification_promote w now busy jid d =
     (case sidecar_in w jid d of
        None \<Rightarrow> (Inr (action_error jid ''verification not found'', 404), d)
      | Some (path, record) \<Rightarrow>
          if dget ''v2_import_outcome'' record \<in> IMPORTED_OUTCOMES
          then (Inr (action_answer jid (dget ''v2_import_outcome'' record) ''already imported'', 200), d)
          else if \<not> is_promotable record then (Inr (action_error jid ''verification is not promotable'', 409), d)
          else queue_or_run now jid ''promote'' busy ''promote already running''
                 (promote_verified_import w now jid record path None) d)"

definition verification_retry_import :: "world \<Rightarrow> rat \<Rightarrow> bool \<Rightarrow> string \<Rightarrow> desk \<Rightarrow> (import_exn + json_answer) \<times> desk" where
  "verification_retry_import w now busy jid d =
     (case sidecar_in w jid d of
        None \<Rightarrow> (Inr (action_error jid ''verification not found'', 404), d)
      | Some (path, record) \<Rightarrow>
          if dget ''v2_import_outcome'' record \<in> IMPORTED_OUTCOMES
          then (Inr (action_answer jid (dget ''v2_import_outcome'' record) ''already imported'', 200), d)
          else if \<not> is_retryable_verified_import record then (Inr (action_error jid ''verification is not retryable'', 409), d)
          else if \<not> wd_exists w (dk_log d) (job_output_dir w jid d)
          then (Inr (action_error jid ''output directory missing'', 409), d)
          else queue_or_run now jid ''retry_import'' busy ''retry already running''
                 (retry_verified_import w now jid record path None) d)"

section \<open>Discarding\<close>

definition is_discardable :: "dict \<Rightarrow> bool" where
  "is_discardable record =
     (dget ''v2_verification_decision'' record = JStr ''REVIEW_REQUIRED'' \<or>
      dget ''v2_verification_decision'' record = JStr ''ACCEPT_PROVISIONAL'' \<and>
        dget ''v2_import_outcome'' record \<in> {JStr ''FAILED'', JStr ''PENDING''} \<and>
        JStr ''manual_promote'' \<in> set (as_list (dget ''v2_overrides'' record)))"

text \<open>The stages of the handler, in its order: the files go first, then Lidarr is told, then the sidecar is archived, then
  the record index, the backend row and the queue follow.\<close>

definition discard_files :: "world \<Rightarrow> string \<Rightarrow> desk \<Rightarrow> bool \<times> desk" where
  "discard_files w jid d =
     (let dir = job_output_dir w jid d in
      if \<not> wd_exists w (dk_log d) dir then (True, d)
      else safe_rmtree_under w (env_output_base (wd_env w)) dir d)"

definition blocklist_unless_done :: "world \<Rightarrow> string \<Rightarrow> dict \<Rightarrow> desk \<Rightarrow> bool \<times> desk" where
  "blocklist_unless_done w jid lifecycle d =
     (if dget ''blocklist_status'' lifecycle = JStr ''done'' then (True, d)
      else if wd_key w = [] then (False, d)
      else blocklist_grab w jid d)"

definition cleanup_with_key :: "world \<Rightarrow> string \<Rightarrow> desk \<Rightarrow> desk" where
  "cleanup_with_key w jid d = (if wd_key w = [] then d else cleanup_lidarr_queue w jid d)"

definition closed_lifecycle :: "rat \<Rightarrow> string \<Rightarrow> string \<Rightarrow> string \<Rightarrow> bool \<Rightarrow> dict \<Rightarrow> dict" where
  "closed_lifecycle now state stamp actor blocklisted lifecycle =
     dset ''blocklist_status'' (JStr (if blocklisted then ''done'' else ''failed''))
       (dset ''actor'' (JStr actor) (dset stamp (JFloat now) (dset ''state'' (JStr state) lifecycle)))"

definition discard_archive :: "world \<Rightarrow> rat \<Rightarrow> string \<Rightarrow> string \<Rightarrow> dict \<Rightarrow> dict \<Rightarrow> bool \<Rightarrow> desk \<Rightarrow> dict \<times> desk" where
  "discard_archive w now jid path record lifecycle blocklisted d =
     (let record' = dset ''lifecycle'' (JObj (closed_lifecycle now ''discarded'' ''discarded_at'' ''user_discard'' blocklisted lifecycle)) record;
          target = archive_sidecar_path jid (wd_discarded w);
          d1 = atomic_write_json target record' d in
      (record', if path = target then d1 else on_lane (unlink_sidecar path) d1))"

definition discard_index :: "rat \<Rightarrow> string \<Rightarrow> dict \<Rightarrow> desk \<Rightarrow> desk" where
  "discard_index now jid record =
     on_lane (\<lambda>lan. mark_import_failed now jid ''discarded by user''
       (mark_backend_job_discarded now jid
         (lan\<lparr>ln_records := upsert_from_sidecar now record (JStr (derive_status record)) (ln_records lan)\<rparr>)))"

definition verification_discard :: "world \<Rightarrow> rat \<Rightarrow> string \<Rightarrow> desk \<Rightarrow> (import_exn + json_answer) \<times> desk" where
  "verification_discard w now jid d =
     (case sidecar_in w jid d of
        None \<Rightarrow> (Inr (action_error jid ''verification not found'', 404), d)
      | Some (path, record) \<Rightarrow>
          if \<not> is_discardable record then (Inr (action_error jid ''verification is not discardable'', 409), d)
          else
            (case discard_files w jid d of
               (False, d1) \<Rightarrow> (Inr (action_error jid ''unsafe output path'', 500), d1)
             | (True, d1) \<Rightarrow>
                 (case dget_default ''lifecycle'' (JObj []) record of
                    JObj lc \<Rightarrow>
                      (case blocklist_unless_done w jid lc d1 of
                         (blocklisted, d2) \<Rightarrow>
                           (case discard_archive w now jid path record lc blocklisted (cleanup_with_key w jid d2) of
                              (record', d3) \<Rightarrow>
                                (Inr ([(''jid'', JStr jid), (''message'', JStr ''discarded'')], 200), discard_index now jid record' d3)))
                  | _ \<Rightarrow> (Inl Bad_Record, d1))))"

section \<open>Expiring reviews\<close>

text \<open>The sidecars that the globs find: one per directory of the output base, and the files of the archives.\<close>

definition in_dir :: "string \<Rightarrow> string \<Rightarrow> string option" where
  "in_dir dir p = (if prefix (dir @ ''/'') p then Some (drop (length dir + 1) p) else None)"

definition is_output_sidecar :: "string \<Rightarrow> string \<Rightarrow> bool" where
  "is_output_sidecar base p =
     (case in_dir base p of
        None \<Rightarrow> False
      | Some rest \<Rightarrow> (case split_char (CHR ''/'') rest of [x, f] \<Rightarrow> f = ''verification.json'' | _ \<Rightarrow> False))"

definition is_archived_sidecar :: "string \<Rightarrow> string \<Rightarrow> bool" where
  "is_archived_sidecar dir p =
     (case in_dir dir p of None \<Rightarrow> False | Some f \<Rightarrow> CHR ''/'' \<notin> set f \<and> suffix ''.json'' f)"

fun first_per_jid :: "json list \<Rightarrow> dict list \<Rightarrow> dict list" where
  "first_per_jid seen [] = []"
| "first_per_jid seen (r # rs) =
     (if dget ''jid'' r \<in> set seen then first_per_jid seen rs
      else r # first_per_jid (dget ''jid'' r # seen) rs)"

definition verification_records :: "world \<Rightarrow> desk \<Rightarrow> dict list" where
  "verification_records w d =
     (let files = ln_sidecars (dk_lane d);
          below = (\<lambda>P. List.map_filter (\<lambda>(p, r). if P p then r else None) files) in
      first_per_jid []
        (below (is_output_sidecar (env_output_base (wd_env w))) @
         concat (map (\<lambda>dir. below (is_archived_sidecar dir)) (env_archive_dirs (wd_env w)))))"

text \<open>Whether a record is due; \<open>None\<close> when its time is no number, which raises.\<close>

definition review_due :: "rat \<Rightarrow> rat \<Rightarrow> dict \<Rightarrow> bool option" where
  "review_due now max_age rec =
     (let lc = as_dict (dget ''lifecycle'' rec) in
      if dget ''v2_verification_decision'' rec \<noteq> JStr ''REVIEW_REQUIRED'' \<or> dget ''state'' lc \<noteq> JStr ''pending_review'' then Some False
      else map_option (\<lambda>t. now - t > max_age) (py_float (py_or (dget ''created_at'' lc) (py_or (dget ''ts'' rec) (JFloat now)))))"

definition expire_archive :: "world \<Rightarrow> string \<Rightarrow> string \<Rightarrow> dict \<Rightarrow> desk \<Rightarrow> desk" where
  "expire_archive w jid path record d =
     (let target = archive_sidecar_path jid (wd_expired w); d1 = atomic_write_json target record d in
      if path = target then d1 else on_lane (unlink_sidecar path) d1)"

definition expire_files :: "world \<Rightarrow> string \<Rightarrow> desk \<Rightarrow> desk" where
  "expire_files w jid d =
     (let dir = job_output_dir w jid d in
      if wd_exists w (dk_log d) dir then snd (safe_rmtree_under w (env_output_base (wd_env w)) dir d) else d)"

definition expire_projection :: "rat \<Rightarrow> string \<Rightarrow> lane \<Rightarrow> lane" where
  "expire_projection now jid lan =
     (case proj_of jid lan of
        None \<Rightarrow> lan
      | Some p \<Rightarrow>
          set_proj jid (dpop ''lidarr_hold'' (dupdate
            [(''status'', JStr ''failed''), (''error'', JStr ''review_required expired''), (''completed_at'', JFloat now)] p)) lan)"

definition expire_one :: "world \<Rightarrow> rat \<Rightarrow> string \<Rightarrow> desk \<Rightarrow> (import_exn + unit) \<times> desk" where
  "expire_one w now jid d =
     (case sidecar_in w jid d of
        None \<Rightarrow> (Inr (), d)
      | Some (path, current) \<Rightarrow>
          (case dget_default ''lifecycle'' (JObj []) current of
             JObj lc \<Rightarrow>
               (case blocklist_unless_done w jid lc d of
                  (blocklisted, d1) \<Rightarrow>
                    let record = dset ''lifecycle'' (JObj (closed_lifecycle now ''expired'' ''expired_at'' ''auto_expire'' blocklisted lc)) current in
                    (Inr (), on_lane (expire_projection now jid)
                       (expire_files w jid (cleanup_with_key w jid (expire_archive w jid path record d1)))))
           | _ \<Rightarrow> (Inl Bad_Record, d)))"

fun expire_all :: "world \<Rightarrow> rat \<Rightarrow> rat \<Rightarrow> dict list \<Rightarrow> desk \<Rightarrow> (import_exn + unit) \<times> desk" where
  "expire_all w now max_age [] d = (Inr (), d)"
| "expire_all w now max_age (rec # recs) d =
     (case review_due now max_age rec of
        None \<Rightarrow> (Inl Bad_Record, d)
      | Some due \<Rightarrow>
          (case dget ''jid'' rec of
             JStr jid \<Rightarrow>
               if due \<and> jid \<noteq> [] then
                 (case expire_one w now jid d of (Inl e, d1) \<Rightarrow> (Inl e, d1) | (Inr _, d1) \<Rightarrow> expire_all w now max_age recs d1)
               else expire_all w now max_age recs d
           | _ \<Rightarrow> expire_all w now max_age recs d))"

definition expire_review_required_jobs :: "world \<Rightarrow> rat \<Rightarrow> rat \<Rightarrow> desk \<Rightarrow> (import_exn + unit) \<times> desk" where
  "expire_review_required_jobs w now retention_days d =
     expire_all w now (retention_days * 24 * 60 * 60) (verification_records w d) d"

section \<open>Imports that Lidarr left pending\<close>

definition settle_pending :: "world \<Rightarrow> rat \<Rightarrow> string \<Rightarrow> string \<Rightarrow> dict \<Rightarrow> string \<Rightarrow> desk \<Rightarrow> dict \<times> desk" where
  "settle_pending w now jid path record dir d =
     (let record' = dset ''v2_import_outcome'' (JStr ''MANUAL_IMPORTED'') record in
      (record', on_lane (complete_lidarr_import_without_queue_delete now jid dir) (atomic_write_json path record' d)))"

definition accepted_record :: "dict \<Rightarrow> bool" where
  "accepted_record record \<longleftrightarrow> dget ''v2_verification_decision'' record \<in> {JStr ''ACCEPT'', JStr ''ACCEPT_PROVISIONAL''}"

definition reconcile_pending_import :: "world \<Rightarrow> rat \<Rightarrow> string \<Rightarrow> dict \<Rightarrow> string \<Rightarrow> desk \<Rightarrow> (import_exn + dict) \<times> desk" where
  "reconcile_pending_import w now jid record path d =
     (if dget ''v2_import_outcome'' record \<noteq> JStr ''PENDING'' \<or> wd_key w = [] then (Inr record, d)
      else
        let dir = job_output_dir w jid d in
        case count_lidarr_imported_history w jid d of
          (h, d1) \<Rightarrow>
            if h > 0 \<and> wd_audio w (dk_log d1) dir = 0 then apfst Inr (settle_pending w now jid path record dir d1)
            else
              let (n, d2) = (if accepted_record record
                             then count_lidarr_trackfiles w (as_list (dget ''album_ids'' record)) d1 else (0, d1)) in
              if accepted_record record \<and> n > 0 \<and> wd_audio w (dk_log d2) dir = 0
              then apfst Inr (settle_pending w now jid path record dir d2)
              else
                (case lidarr_has_pending_import_for_jid w jid d2 of
                   (None, d3) \<Rightarrow> (Inl Lidarr_Error, d3)
                 | (Some True, d3) \<Rightarrow> (Inr record, d3)
                 | (Some False, d3) \<Rightarrow>
                     if accepted_record record then
                       let record' = dset ''v2_import_outcome'' (JStr ''FAILED'') record in
                       (Inr record',
                        cleanup_lidarr_queue w jid
                          (on_lane (mark_import_failed now jid ''lidarr manualimport ended without importing files'')
                            (atomic_write_json path record' d3)))
                     else (Inr record, d3)))"

definition needs_pending_import_reconcile :: "dict \<Rightarrow> bool" where
  "needs_pending_import_reconcile p =
     (dget ''status'' p = JStr ''processing'' \<and>
      (dget ''stage'' p = JStr ''pending'' \<or>
       (let warning = py_lower (py_str (py_or (dget ''warning'' p) (JStr []))) in
        py_in ''manualimport'' warning \<and> py_in ''pending'' warning)))"

fun reconcile_pending_jids :: "world \<Rightarrow> rat \<Rightarrow> string list \<Rightarrow> desk \<Rightarrow> (import_exn + unit) \<times> desk" where
  "reconcile_pending_jids w now [] d = (Inr (), d)"
| "reconcile_pending_jids w now (jid # jids) d =
     (case sidecar_in w jid d of
        None \<Rightarrow> reconcile_pending_jids w now jids d
      | Some (path, record) \<Rightarrow>
          if dget ''v2_import_outcome'' record \<noteq> JStr ''PENDING'' then reconcile_pending_jids w now jids d
          else
            (case reconcile_pending_import w now jid record path d of
               (Inl e, d1) \<Rightarrow> (Inl e, d1)
             | (Inr _, d1) \<Rightarrow> reconcile_pending_jids w now jids d1))"

definition reconcile_pending_import_jobs :: "world \<Rightarrow> rat \<Rightarrow> desk \<Rightarrow> (import_exn + unit) \<times> desk" where
  "reconcile_pending_import_jobs w now d =
     reconcile_pending_jids w now (map fst (filter (\<lambda>(_, p). needs_pending_import_reconcile p) (ln_proj (dk_lane d)))) d"

section \<open>Properties of promoting\<close>

definition sidecar_of :: "string \<Rightarrow> desk \<Rightarrow> dict option option" where
  "sidecar_of p d = map_of (ln_sidecars (dk_lane d)) p"

lemma sidecar_of_write [simp]: "sidecar_of p (atomic_write_json q r d) = (if p = q then Some (Some r) else sidecar_of p d)"
  by (simp add: sidecar_of_def atomic_write_json_def on_lane_def write_sidecar_def update_conv')

lemma sidecar_of_kept: "kept_state d' = kept_state d \<Longrightarrow> sidecar_of p d' = sidecar_of p d"
  by (simp add: kept_state_def kept_lane_def sidecar_of_def)

lemma sidecar_of_settles: "settles_from w wid d d' \<Longrightarrow> sidecar_of p d' = sidecar_of p d"
  by (rule sidecar_of_kept) (simp add: settles_from_def)

lemma find_member: "List.find P xs = Some x \<Longrightarrow> P x \<and> x \<in> set xs"
  by (induction xs) (auto split: if_splits)

lemma sidecar_inD:
  assumes "sidecar_in w jid d = Some (p, r)"
  shows "sidecar_of p d = Some (Some r) \<and> p \<in> set (sidecar_candidates (wd_env w) jid (dk_lane d))"
proof -
  from assms obtain q where q: "find_verification_sidecar (wd_env w) jid (dk_lane d) = Some q"
    and v: "(case map_of (ln_sidecars (dk_lane d)) q of Some (Some x) \<Rightarrow> Some (q, x) | _ \<Rightarrow> None) = Some (p, r)"
    by (cases "find_verification_sidecar (wd_env w) jid (dk_lane d)") (simp_all add: sidecar_in_def read_verification_sidecar_def)
  from v have "q = p \<and> map_of (ln_sidecars (dk_lane d)) p = Some (Some r)" by (simp split: option.splits)
  with find_member[OF q[unfolded find_verification_sidecar_def]] show ?thesis by (simp add: sidecar_of_def)
qed

lemma setdefault_present: "dget k record \<noteq> JNull \<Longrightarrow> dsetdefault k v record = record"
  by (auto simp: dsetdefault_def dget_def)

text \<open>What a promotion stores.\<close>

lemma promoted_record_sel:
  "dget ''v2_verification_decision'' (promoted_record now lc ov record) = JStr ''ACCEPT_PROVISIONAL''"
  "dget ''v2_import_outcome'' (promoted_record now lc ov record) = dget ''v2_import_outcome'' record"
  "dget ''verification_state'' (promoted_record now lc ov record) = dget ''verification_state'' record"
  "\<exists>lc'. dget ''lifecycle'' (promoted_record now lc ov record) = JObj lc' \<and> dget ''state'' lc' = JStr ''promoted''"
  "\<exists>ov'. dget ''v2_overrides'' (promoted_record now lc ov record) = JList ov' \<and> JStr ''manual_promote'' \<in> set ov'"
  by (simp_all add: promoted_record_def Let_def)

definition promoted_with :: "json \<Rightarrow> dict \<Rightarrow> bool" where
  "promoted_with outcome record \<longleftrightarrow>
     dget ''v2_import_outcome'' record = outcome \<and>
     derive_status record = (if outcome = JStr ''FAILED'' then ''failed'' else ''promoted'') \<and>
     (is_promotable record \<longleftrightarrow> outcome \<in> {JStr ''FAILED'', JStr ''PENDING''})"

lemma dget_default_object: "dget k d = JObj x \<Longrightarrow> dget_default k v d = JObj x"
  by (auto simp: dget_def dget_default_def split: option.splits)

lemma dget_default_str: "dget k d = JStr x \<Longrightarrow> dget_default k v d = JStr x"
  by (auto simp: dget_def dget_default_def split: option.splits)

lemma promoted_withI:
  assumes "dget ''v2_verification_decision'' r = JStr ''ACCEPT_PROVISIONAL''" "\<not> truthy (dget ''verification_state'' r)"
    "dget ''lifecycle'' r = JObj lc" "dget ''state'' lc = JStr ''promoted''"
    "dget ''v2_overrides'' r = JList ov" "JStr ''manual_promote'' \<in> set ov" "dget ''v2_import_outcome'' r = outcome"
  shows "promoted_with outcome r"
proof -
  have o: "dget_default ''v2_import_outcome'' (JStr []) r = JStr ''FAILED'' \<longleftrightarrow> outcome = JStr ''FAILED''"
    using assms(7) by (auto simp: dget_def dget_default_def split: option.splits)
  show ?thesis
    using assms o unfolding promoted_with_def derive_status_def is_promotable_def Let_def
    by (simp add: dget_default_str[OF assms(1)] dget_default_str[OF assms(4)] py_or_def)
qed

lemma promote_outcome:
  assumes run: "promote_verified_import w now jid record path wid d = (r, d')"
    and new: "dget ''v2_import_outcome'' record \<notin> IMPORTED_OUTCOMES" and ok: "is_promotable record"
    and parts: "dget ''lifecycle'' record = JObj lc" "dget ''v2_overrides'' record = JList ov" "\<not> truthy (dget ''verification_state'' record)"
  shows "(\<forall>p. p \<noteq> path \<longrightarrow> sidecar_of p d' = sidecar_of p d) \<and>
    (case r of
       Inl e \<Rightarrow> sidecar_of path d' = sidecar_of path d \<or>
         (\<exists>rec. sidecar_of path d' = Some (Some rec) \<and> promoted_with (dget ''v2_import_outcome'' record) rec)
     | Inr (ans, status) \<Rightarrow> status = 200 \<and>
         (\<exists>oc rec. ans = action_answer jid (JStr (outcome_str oc)) ''promote complete'' \<and> oc \<noteq> SKIPPED \<and>
            sidecar_of path d' = Some (Some rec) \<and> promoted_with (JStr (outcome_str oc)) rec))"
proof -
  have def: "dsetdefault ''v2_overrides'' (JList []) (dsetdefault ''lifecycle'' (JObj []) record) = record"
    using parts by (simp add: setdefault_present)
  let ?rec = "promoted_record now lc ov record"
  from run new ok parts have "unless_cancelled (raise_if_job_cancelled w now wid jid d) (\<lambda>d1.
      let d2 = atomic_write_json path ?rec d1 in
      (case run_manual_import_only w now jid (job_output_dir w jid d2) wid d2 of
         (Inl e, d3) \<Rightarrow> (Inl e, d3)
       | (Inr res, d3) \<Rightarrow>
           let oc = JStr (outcome_str res) in
           (Inr (action_answer jid oc ''promote complete'', 200),
            atomic_write_json path (dset ''v2_import_outcome'' oc ?rec) d3))) = (r, d')"
    by (simp add: promote_verified_import_def def Let_def)
  then show ?thesis
  proof (cases rule: unless_cancelled_cases)
    case (cancelled e)
    then show ?thesis using sidecar_of_settles[of w wid d d'] by simp
  next
    case (goes_on d1)
    let ?d2 = "atomic_write_json path ?rec d1"
    obtain q d3 where m: "run_manual_import_only w now jid (job_output_dir w jid ?d2) wid ?d2 = (q, d3)" by fastforce
    from run_manual_import_only_spec[OF m] have s: "settles_from w wid ?d2 d3" and q: "q \<noteq> Inr SKIPPED" by simp_all
    have other: "\<forall>p. p \<noteq> path \<longrightarrow> sidecar_of p d3 = sidecar_of p d" and own: "sidecar_of path d3 = Some (Some ?rec)"
      using sidecar_of_settles[OF s] sidecar_of_settles[OF goes_on(1)] by simp_all
    obtain lc' ov' where sel: "dget ''lifecycle'' ?rec = JObj lc'" "dget ''state'' lc' = JStr ''promoted''"
      "dget ''v2_overrides'' ?rec = JList ov'" "JStr ''manual_promote'' \<in> set ov'"
      using promoted_record_sel by meson
    have p: "promoted_with outcome rec" if "rec = ?rec \<and> outcome = dget ''v2_import_outcome'' record \<or>
        rec = dset ''v2_import_outcome'' outcome ?rec" for outcome rec
      using that parts(3) sel by (auto intro!: promoted_withI[where lc = lc' and ov = ov'] simp: promoted_record_sel)
    show ?thesis
    proof (cases q)
      case (Inl e)
      with goes_on(3) m other own p show ?thesis by auto
    next
      case (Inr res)
      with goes_on(3) m have r: "r = Inr (action_answer jid (JStr (outcome_str res)) ''promote complete'', 200)"
        and d': "d' = atomic_write_json path (dset ''v2_import_outcome'' (JStr (outcome_str res)) ?rec) d3"
        by (auto simp: Let_def)
      from Inr q have "res \<noteq> SKIPPED" by simp
      with r d' other p show ?thesis by auto
    qed
  qed
qed

text \<open>(C16) Promoting a review settles it or leaves it to be promoted again. When it answers, the sidecar has the answered
  outcome, reads as promoted (as failed when the import failed) and can be promoted again exactly when the import
  failed or is pending. When it raises, the sidecar is untouched, or it is promoted with the outcome it had. No other sidecar
  changes.\<close>

theorem promote_settles:
  assumes "promote_verified_import w now jid record path wid d = (r, d')"
    and "dget ''v2_import_outcome'' record \<notin> IMPORTED_OUTCOMES" and "is_promotable record"
    and "dget ''lifecycle'' record = JObj lc" and "dget ''v2_overrides'' record = JList ov"
    and "\<not> truthy (dget ''verification_state'' record)"
  shows "(\<forall>p. p \<noteq> path \<longrightarrow> sidecar_of p d' = sidecar_of p d) \<and>
    (case r of
       Inl e \<Rightarrow> sidecar_of path d' = sidecar_of path d \<or>
         (\<exists>rec. sidecar_of path d' = Some (Some rec) \<and> promoted_with (dget ''v2_import_outcome'' record) rec)
     | Inr (ans, status) \<Rightarrow> status = 200 \<and>
         (\<exists>oc rec. ans = action_answer jid (JStr (outcome_str oc)) ''promote complete'' \<and> oc \<noteq> SKIPPED \<and>
            sidecar_of path d' = Some (Some rec) \<and> promoted_with (JStr (outcome_str oc)) rec))"
  by (rule promote_outcome) (fact assms)+

definition demo_review :: dict where
  "demo_review = [(''jid'', JStr ''j1''), (''v2_verification_decision'', JStr ''REVIEW_REQUIRED''), (''v2_import_outcome'', JStr ''PENDING''),
     (''v2_overrides'', JList []), (''lifecycle'', JObj [(''state'', JStr ''pending_review''), (''created_at'', JFloat 1)])]"

definition keyless_world :: world where
  "keyless_world = (demo_world [])\<lparr>wd_key := []\<rparr>"

definition desk_with :: "string \<Rightarrow> dict \<Rightarrow> desk" where
  "desk_with p r = demo_desk\<lparr>dk_lane := demo_lane\<lparr>ln_sidecars := [(p, Some r)]\<rparr>\<rparr>"

theorem promote_settles_witness:
  "\<exists>rec. sidecar_of ''/out/j1/verification.json'' (snd (promote_verified_import keyless_world 5 ''j1'' demo_review
       ''/out/j1/verification.json'' None (desk_with ''/out/j1/verification.json'' demo_review))) = Some (Some rec) \<and>
     promoted_with (JStr ''FAILED'') rec"
proof -
  let ?r = "promote_verified_import keyless_world 5 ''j1'' demo_review ''/out/j1/verification.json'' None
      (desk_with ''/out/j1/verification.json'' demo_review)"
  have f: "fst ?r = Inr (action_answer ''j1'' (JStr ''FAILED'') ''promote complete'', 200)" by code_simp
  have "is_promotable demo_review" by (simp add: is_promotable_def demo_review_def)
  moreover have "dget ''v2_import_outcome'' demo_review \<notin> IMPORTED_OUTCOMES"
    and "dget ''lifecycle'' demo_review = JObj [(''state'', JStr ''pending_review''), (''created_at'', JFloat 1)]"
    and "dget ''v2_overrides'' demo_review = JList []" and "\<not> truthy (dget ''verification_state'' demo_review)"
    by (simp_all add: demo_review_def IMPORTED_OUTCOMES_def)
  ultimately have "\<exists>oc rec. action_answer ''j1'' (JStr ''FAILED'') ''promote complete'' =
        action_answer ''j1'' (JStr (outcome_str oc)) ''promote complete'' \<and>
      sidecar_of ''/out/j1/verification.json'' (snd ?r) = Some (Some rec) \<and> promoted_with (JStr (outcome_str oc)) rec"
    using promote_settles[OF surjective_pairing[of ?r]] f by (simp del: outcome_str.simps) blast
  then show ?thesis by (auto simp: action_answer_def)
qed

section \<open>Properties of discarding\<close>

lemma blocklist_settles: "blocklist_unless_done w jid lc d = (b, d') \<Longrightarrow> settles_from w wid d d'"
proof -
  assume b: "blocklist_unless_done w jid lc d = (b, d')"
  obtain r d1 where a: "ask w (Get_History 50) d = (r, d1)" by fastforce
  note s1 = settles_ask[OF a]
  have "blocklist_grab w jid d = (b', d2) \<Longrightarrow> settles_from w wid d d2" for b' d2
    using a s1 by (auto simp: blocklist_grab_def split: prod.splits option.splits intro: settles_trans[OF s1 settles_ask])
  with b show ?thesis by (auto simp: blocklist_unless_done_def split: if_splits)
qed

lemma cleanup_with_key_settles: "settles_from w wid d (cleanup_with_key w jid d)"
  by (simp add: cleanup_with_key_def settles_cleanup)

lemma index_keeps_sidecars [simp]: "sidecar_of p (discard_index now jid r d) = sidecar_of p d"
  by (simp add: sidecar_of_def discard_index_def on_lane_def mark_import_failed_def mark_backend_job_discarded_def set_proj_def
      split: option.splits)

lemma unlink_sidecar_of: "sidecar_of p (on_lane (unlink_sidecar q) d) = (if p = q then None else sidecar_of p d)"
  by (simp add: sidecar_of_def on_lane_def unlink_sidecar_def delete_conv')

text \<open>The discarded sidecar.\<close>

definition discarded_record :: "rat \<Rightarrow> bool \<Rightarrow> dict \<Rightarrow> dict \<Rightarrow> dict" where
  "discarded_record now b lc record =
     dset ''lifecycle'' (JObj (closed_lifecycle now ''discarded'' ''discarded_at'' ''user_discard'' b lc)) record"

lemma discard_stores:
  assumes "verification_discard w now jid d = (Inr (ans, 200), d')"
    and "sidecar_in w jid d = Some (path, record)" and "dget ''lifecycle'' record = JObj lc"
  shows "\<exists>b. sidecar_of (archive_sidecar_path jid (wd_discarded w)) d' = Some (Some (discarded_record now b lc record))"
proof -
  have dis: "is_discardable record" using assms(1,2) by (auto simp: verification_discard_def split: if_splits)
  obtain ok d1 where df: "discard_files w jid d = (ok, d1)" by fastforce
  obtain b d2 where bl: "blocklist_unless_done w jid lc d1 = (b, d2)" by fastforce
  obtain rec d3 where ar: "discard_archive w now jid path record lc b (cleanup_with_key w jid d2) = (rec, d3)" by fastforce
  have ok: "ok" using assms(1,2) dis df by (cases ok) (auto simp: verification_discard_def)
  have "d' = discard_index now jid rec d3"
    using assms dis df ok bl ar by (simp add: verification_discard_def dget_default_object[OF assms(3)])
  moreover have "sidecar_of (archive_sidecar_path jid (wd_discarded w)) d3 = Some (Some (discarded_record now b lc record))"
    using ar by (auto simp: discard_archive_def Let_def discarded_record_def unlink_sidecar_of split: if_splits)
  ultimately show ?thesis by auto
qed

text \<open>(C32) A promoted review whose import failed may be discarded, but it does not stay so. The archived record reads as
  discarded and cannot be retried, yet it can still be promoted, and a promotion that answers takes it back to promoted
  or failed.\<close>

theorem discard_not_final:
  assumes "verification_discard w now jid d = (Inr (ans, 200), d')"
    and "sidecar_in w jid d = Some (path, record)"
    and "promoted_with (JStr ''FAILED'') record"
    and "dget ''v2_verification_decision'' record = JStr ''ACCEPT_PROVISIONAL''"
    and "dget ''lifecycle'' record = JObj lc" and "dget ''v2_overrides'' record = JList ov"
    and "\<not> truthy (dget ''verification_state'' record)"
    and "target = archive_sidecar_path jid (wd_discarded w)"
  shows "\<exists>rec. sidecar_of target d' = Some (Some rec) \<and> derive_status rec = ''discarded'' \<and> \<not> is_retryable_verified_import rec \<and>
    is_promotable rec \<and>
    (\<forall>w2 now2 wid a d2. promote_verified_import w2 now2 jid rec target wid d' = (Inr a, d2) \<longrightarrow>
       (\<exists>rec2. sidecar_of target d2 = Some (Some rec2) \<and> derive_status rec2 \<in> {''failed'', ''promoted''}))"
proof -
  from discard_stores[OF assms(1,2,5)] assms(8) obtain b where
    st: "sidecar_of target d' = Some (Some (discarded_record now b lc record))" by blast
  let ?rec = "discarded_record now b lc record"
  let ?lc = "closed_lifecycle now ''discarded'' ''discarded_at'' ''user_discard'' b lc"
  have lc: "dget ''lifecycle'' ?rec = JObj ?lc" "dget ''state'' ?lc = JStr ''discarded''"
    by (simp_all add: discarded_record_def closed_lifecycle_def)
  have same: "dget k ?rec = dget k record" if "k \<noteq> ''lifecycle''" for k using that by (simp add: discarded_record_def)
  have out: "dget ''v2_import_outcome'' record = JStr ''FAILED''" and "is_promotable record"
    using assms(3) by (simp_all add: promoted_with_def)
  then have mp: "JStr ''manual_promote'' \<in> set ov" using assms(4,6) by (simp add: is_promotable_def Let_def)
  have p: "is_promotable ?rec" using assms(4,6) out mp by (simp add: is_promotable_def Let_def same)
  have dis: "derive_status ?rec = ''discarded''"
    using assms(7) lc by (simp add: derive_status_def Let_def same py_or_def dget_default_str[OF lc(2)])
  have nr: "\<not> is_retryable_verified_import ?rec" using lc by (simp add: is_retryable_verified_import_def Let_def)
  have again: "\<exists>rec2. sidecar_of target d2 = Some (Some rec2) \<and> derive_status rec2 \<in> {''failed'', ''promoted''}"
    if "promote_verified_import w2 now2 jid ?rec target wid d' = (Inr a, d2)" for w2 now2 wid a d2
  proof -
    have "dget ''v2_import_outcome'' ?rec \<notin> IMPORTED_OUTCOMES" "dget ''v2_overrides'' ?rec = JList ov"
      "\<not> truthy (dget ''verification_state'' ?rec)"
      using out assms(6,7) by (simp_all add: same IMPORTED_OUTCOMES_def)
    from promote_outcome[OF that this(1) p lc(1) this(2,3)] show ?thesis
      by (cases a) (auto simp: promoted_with_def)
  qed
  show ?thesis using st p dis nr again by blast
qed

definition demo_failed_promotion :: dict where
  "demo_failed_promotion =
     [(''jid'', JStr ''j1''), (''v2_verification_decision'', JStr ''ACCEPT_PROVISIONAL''), (''v2_import_outcome'', JStr ''FAILED''),
      (''v2_overrides'', JList [JStr ''manual_promote'']), (''lifecycle'', JObj [(''state'', JStr ''promoted'')])]"

theorem discard_not_final_witness:
  "\<exists>rec. sidecar_of ''/d/j1.json'' (snd (verification_discard keyless_world 5 ''j1''
       (desk_with ''/out/j1/verification.json'' demo_failed_promotion))) = Some (Some rec) \<and>
     derive_status rec = ''discarded'' \<and> is_promotable rec"
proof -
  let ?d = "desk_with ''/out/j1/verification.json'' demo_failed_promotion"
  let ?r = "verification_discard keyless_world 5 ''j1'' ?d"
  have i: "sidecar_in keyless_world ''j1'' ?d = Some (''/out/j1/verification.json'', demo_failed_promotion)" by code_simp
  have f: "is_discardable demo_failed_promotion" "fst (discard_files keyless_world ''j1'' ?d)" by code_simp+
  have l: "dget_default ''lifecycle'' (JObj []) demo_failed_promotion = JObj [(''state'', JStr ''promoted'')]"
    by (simp add: demo_failed_promotion_def dget_default_def)
  obtain d1 where "discard_files keyless_world ''j1'' ?d = (True, d1)" using f(2) by (cases "discard_files keyless_world ''j1'' ?d") simp
  then have "fst ?r = Inr ([(''jid'', JStr ''j1''), (''message'', JStr ''discarded'')], 200)"
    using i f(1) l by (simp add: verification_discard_def split: prod.split)
  then have r: "?r = (Inr ([(''jid'', JStr ''j1''), (''message'', JStr ''discarded'')], 200), snd ?r)" by (metis prod.collapse)
  have p: "promoted_with (JStr ''FAILED'') demo_failed_promotion"
    by (rule promoted_withI[where lc = "[(''state'', JStr ''promoted'')]" and ov = "[JStr ''manual_promote'']"])
      (simp_all add: demo_failed_promotion_def)
  have t: "''/d/j1.json'' = archive_sidecar_path ''j1'' (wd_discarded keyless_world)" by code_simp
  have f: "dget ''v2_verification_decision'' demo_failed_promotion = JStr ''ACCEPT_PROVISIONAL''"
    "dget ''lifecycle'' demo_failed_promotion = JObj [(''state'', JStr ''promoted'')]"
    "dget ''v2_overrides'' demo_failed_promotion = JList [JStr ''manual_promote'']"
    "\<not> truthy (dget ''verification_state'' demo_failed_promotion)" by (simp_all add: demo_failed_promotion_def)
  show ?thesis using discard_not_final[OF r i p f t] by blast
qed

text \<open>A sidecar that can be read and that \<open>ok\<close> accepts, at any of the places where the program looks.\<close>

definition recoverable :: "world \<Rightarrow> string \<Rightarrow> (dict \<Rightarrow> bool) \<Rightarrow> lane \<Rightarrow> bool" where
  "recoverable w jid ok lan \<longleftrightarrow>
     (\<exists>p\<in>set (sidecar_candidates (wd_env w) jid lan). \<exists>r. map_of (ln_sidecars lan) p = Some (Some r) \<and> ok r)"

text \<open>The record of a review, expired: nothing else of it has changed.\<close>

definition expired_version :: "dict \<Rightarrow> dict \<Rightarrow> bool" where
  "expired_version current r \<longleftrightarrow> dget ''state'' (as_dict (dget ''lifecycle'' r)) = JStr ''expired'' \<and>
     (\<forall>k. k \<noteq> ''lifecycle'' \<longrightarrow> dget k r = dget k current)"

lemma archive_candidate:
  "wf_world w \<Longrightarrow> archive_sidecar_path jid (wd_expired w) \<in> set (sidecar_candidates (wd_env w) jid lan)"
  by (auto simp: wf_world_def sidecar_candidates_def archive_sidecar_path_def)

text \<open>\<open>P\<close> holds in the present state, and in all that the operation from \<open>d\<close> to \<open>d'\<close> went through.\<close>

definition always :: "(lane \<Rightarrow> bool) \<Rightarrow> desk \<Rightarrow> desk \<Rightarrow> bool" where
  "always P d d' \<longleftrightarrow> P (dk_lane d') \<and> (\<exists>past. dk_past d' = past @ dk_past d \<and> (\<forall>lan\<in>set past. P lan))"

lemma always_refl: "P (dk_lane d) \<Longrightarrow> always P d d"
  by (simp add: always_def)

lemma always_trans: "always P d d1 \<Longrightarrow> always P d1 d2 \<Longrightarrow> always P d d2"
  unfolding always_def by (metis UnE append.assoc set_append)

lemma always_mono: "always P d d' \<Longrightarrow> (\<And>lan. P lan \<Longrightarrow> Q lan) \<Longrightarrow> always Q d d'"
  by (auto simp: always_def)

lemma always_on_lane: "P (dk_lane d) \<Longrightarrow> P (f (dk_lane d)) \<Longrightarrow> always P d (on_lane f d)"
  by (simp add: always_def on_lane_def)

text \<open>The archived copy survives everything that follows it.\<close>

definition holds_copy :: "string \<Rightarrow> dict \<Rightarrow> lane \<Rightarrow> bool" where
  "holds_copy p r lan \<longleftrightarrow> map_of (ln_sidecars lan) p = Some (Some r)"

lemma copy_settles:
  assumes "settles_from w wid d d'" and "holds_copy p r (dk_lane d)"
  shows "always (holds_copy p r) d d'"
proof -
  have "holds_copy p r lan" if "kept_lane lan = kept_state d" for lan
    using that assms(2) by (simp add: kept_state_def kept_lane_def holds_copy_def)
  with assms(1) show ?thesis unfolding settles_from_def always_def by (metis kept_state_def)
qed

lemma copy_tree:
  assumes "holds_copy p r (dk_lane d)"
    and "\<not> is_relative_to (wd_resolve w (dk_log d) p) (wd_resolve w (dk_log d) dir) \<or>
         \<not> is_relative_to (wd_resolve w (dk_log d) dir) (wd_resolve w (dk_log d) base)"
  shows "always (holds_copy p r) d (snd (safe_rmtree_under w base dir d))"
proof -
  have m: "map_of (filter (\<lambda>(q, _). Q q) xs) p = map_of xs p" if "Q p" for Q and xs :: "(string \<times> dict option) list"
    using that by (induction xs) auto
  from assms show ?thesis
    by (auto simp: safe_rmtree_under_def Let_def always_def holds_copy_def on_lane_def note_event_def m)
qed

lemma tree_keeps_absent: "sidecar_of p d = None \<Longrightarrow> sidecar_of p (snd (safe_rmtree_under w base dir d)) = None"
proof -
  have m: "map_of xs p = None \<Longrightarrow> map_of (filter (\<lambda>(q, _). Q q) xs) p = None" for Q and xs :: "(string \<times> dict option) list"
    by (induction xs) (auto split: if_splits)
  show "sidecar_of p d = None \<Longrightarrow> sidecar_of p (snd (safe_rmtree_under w base dir d)) = None"
    by (auto simp: safe_rmtree_under_def Let_def sidecar_of_def on_lane_def note_event_def m)
qed

lemma expire_projection_sidecars [simp]: "ln_sidecars (expire_projection now jid lan) = ln_sidecars lan"
  by (simp add: expire_projection_def set_proj_def split: option.splits)

lemma ask_only_logs: "ask w r d = (x, d1) \<Longrightarrow> dk_lane d1 = dk_lane d \<and> dk_past d1 = dk_past d"
  by (auto simp: ask_def note_event_def)

lemma blocklist_only_logs: "blocklist_unless_done w jid lc d = (b, d1) \<Longrightarrow> dk_lane d1 = dk_lane d \<and> dk_past d1 = dk_past d"
  by (auto simp: blocklist_unless_done_def blocklist_grab_def dest!: ask_only_logs split: if_splits option.splits prod.splits)

lemma candidates_projection:
  "ln_proj lan' = ln_proj lan \<Longrightarrow> sidecar_candidates env jid lan' = sidecar_candidates env jid lan"
  by (simp add: sidecar_candidates_def proj_of_def)

lemma expired_record: "expired_version current
    (dset ''lifecycle'' (JObj (closed_lifecycle now ''expired'' ''expired_at'' ''auto_expire'' b lc)) current)"
  by (simp add: expired_version_def closed_lifecycle_def)

text \<open>What follows the asking: every state has the archived copy from its writing on, and the old file goes.\<close>

lemma archive_then_clean:
  assumes out: "\<forall>L dir. \<not> is_relative_to (wd_resolve w L a) (wd_resolve w L dir) \<or>
           \<not> is_relative_to (wd_resolve w L dir) (wd_resolve w L (env_output_base (wd_env w)))"
    and a: "a = archive_sidecar_path jid (wd_expired w)"
    and d2: "d2 = expire_files w jid (cleanup_with_key w jid (expire_archive w jid path r d1))"
  shows "always (holds_copy a r) (atomic_write_json a r d1) (on_lane (expire_projection now jid) d2)"
    and "path \<noteq> a \<Longrightarrow> sidecar_of path d2 = None"
proof -
  let ?w = "atomic_write_json a r d1" and ?e = "expire_archive w jid path r d1"
  let ?c = "cleanup_with_key w jid ?e"
  have e: "?e = (if path = a then ?w else on_lane (unlink_sidecar path) ?w)" by (simp add: expire_archive_def Let_def a)
  have w: "holds_copy a r (dk_lane ?w)" by (simp add: holds_copy_def atomic_write_json_def on_lane_def write_sidecar_def update_conv')
  then have u: "holds_copy a r (unlink_sidecar path (dk_lane ?w))" if "path \<noteq> a"
    using that by (simp add: holds_copy_def unlink_sidecar_def delete_conv')
  have 1: "always (holds_copy a r) ?w ?e"
    unfolding e using w u by (auto intro: always_refl always_on_lane)
  have 2: "always (holds_copy a r) ?e ?c"
    using 1 by (intro copy_settles[OF cleanup_with_key_settles]) (simp add: always_def)
  from 2 have c: "holds_copy a r (dk_lane ?c)" by (simp add: always_def)
  have 3: "always (holds_copy a r) ?c d2"
    unfolding d2 expire_files_def Let_def using c out by (auto intro: always_refl copy_tree)
  have 4: "always (holds_copy a r) d2 (on_lane (expire_projection now jid) d2)"
    using 3 by (intro always_on_lane) (simp_all add: always_def holds_copy_def)
  show "always (holds_copy a r) ?w (on_lane (expire_projection now jid) d2)"
    using 1 2 3 4 by (meson always_trans)
  assume p: "path \<noteq> a"
  then have "sidecar_of path ?e = None" by (simp add: e unlink_sidecar_of)
  then have "sidecar_of path ?c = None" using sidecar_of_settles[OF cleanup_with_key_settles] by simp
  then show "sidecar_of path d2 = None" by (simp add: d2 expire_files_def Let_def tree_keeps_absent)
qed

text \<open>(C18) Expiring a review never loses it. In every state that the tables and files go through, each of which is where the
  process may die, one of the places that a restart searches holds the review as it was or its expired version. At the
  end the archive holds the expired version, with everything but the lifecycle unchanged, and the file it was read from
  is gone. (The archive does not lie in a directory below the output base.)\<close>

theorem expiry_recoverable:
  assumes "wf_world w" and "sidecar_in w jid d = Some (path, current)" and "dget ''lifecycle'' current = JObj lc"
    and "\<forall>L dir. \<not> is_relative_to (wd_resolve w L (archive_sidecar_path jid (wd_expired w))) (wd_resolve w L dir) \<or>
           \<not> is_relative_to (wd_resolve w L dir) (wd_resolve w L (env_output_base (wd_env w)))"
    and "expire_one w now jid d = (res, d')"
  shows "res = Inr () \<and>
    (\<exists>past. dk_past d' = past @ dk_past d \<and>
       (\<forall>lan\<in>set (dk_lane d' # past). recoverable w jid (\<lambda>r. r = current \<or> expired_version current r) lan)) \<and>
    (\<exists>r. sidecar_of (archive_sidecar_path jid (wd_expired w)) d' = Some (Some r) \<and> expired_version current r) \<and>
    (path \<noteq> archive_sidecar_path jid (wd_expired w) \<longrightarrow> sidecar_of path d' = None)"
proof -
  let ?a = "archive_sidecar_path jid (wd_expired w)" and ?ok = "\<lambda>r. r = current \<or> expired_version current r"
  obtain b d1 where bl: "blocklist_unless_done w jid lc d = (b, d1)" by fastforce
  define r where "r = dset ''lifecycle'' (JObj (closed_lifecycle now ''expired'' ''expired_at'' ''auto_expire'' b lc)) current"
  define d2 where "d2 = expire_files w jid (cleanup_with_key w jid (expire_archive w jid path r d1))"
  from assms(2,3,5) bl have d': "d' = on_lane (expire_projection now jid) d2" and res: "res = Inr ()"
    by (simp_all add: expire_one_def r_def d2_def dget_default_object[OF assms(3)])
  have exp: "expired_version current r" unfolding r_def by (rule expired_record)
  note after = archive_then_clean[OF assms(4) refl d2_def]
  note same = blocklist_only_logs[OF bl]
  have first: "recoverable w jid ?ok (dk_lane d)"
    using sidecar_inD[OF assms(2)] unfolding recoverable_def sidecar_of_def by blast
  have copy: "recoverable w jid ?ok lan" if "holds_copy ?a r lan" for lan
    using that exp archive_candidate[OF assms(1), of jid lan] unfolding recoverable_def holds_copy_def by blast
  from after(1)[of now, folded d'] obtain past where
    past: "dk_past d' = past @ dk_past (atomic_write_json ?a r d1)" "\<forall>lan\<in>set past. holds_copy ?a r lan"
    and last: "holds_copy ?a r (dk_lane d')" by (auto simp: always_def)
  have "dk_past d' = (past @ [dk_lane d]) @ dk_past d"
    using past(1) same by (simp add: atomic_write_json_def on_lane_def)
  moreover have "\<forall>lan\<in>set (dk_lane d' # past @ [dk_lane d]). recoverable w jid ?ok lan" using past(2) last first copy by auto
  moreover have "sidecar_of ?a d' = Some (Some r)" using last by (simp add: holds_copy_def sidecar_of_def)
  moreover have "path \<noteq> ?a \<Longrightarrow> sidecar_of path d' = None"
    using after(2) by (simp add: d' sidecar_of_def on_lane_def)
  ultimately show ?thesis using res exp by blast
qed

text \<open>The expiry of a review that lies in its output directory.\<close>

theorem expiry_recoverable_witness:
  "list_all (recoverable keyless_world ''j1'' (\<lambda>r. r = demo_review \<or> expired_version demo_review r))
     (dk_past (snd (expire_one keyless_world 5 ''j1'' (desk_with ''/out/j1/verification.json'' demo_review)))) \<and>
   sidecar_of ''/out/j1/verification.json''
     (snd (expire_one keyless_world 5 ''j1'' (desk_with ''/out/j1/verification.json'' demo_review))) = None"
proof -
  let ?d = "desk_with ''/out/j1/verification.json'' demo_review"
  have wf: "wf_world keyless_world" by (simp add: keyless_world_def demo_world_def wf_world_def)
  have i: "sidecar_in keyless_world ''j1'' ?d = Some (''/out/j1/verification.json'', demo_review)" by code_simp
  have l: "dget ''lifecycle'' demo_review = JObj [(''state'', JStr ''pending_review''), (''created_at'', JFloat 1)]"
    by (simp add: demo_review_def)
  let ?a = "archive_sidecar_path ''j1'' (wd_expired keyless_world)" and ?o = "env_output_base (wd_env keyless_world)"
  have r: "wd_resolve keyless_world L = path_of" for L by (simp add: keyless_world_def demo_world_def)
  have "\<not> is_relative_to (path_of ?a) (path_of ?o)" and a: "''/out/j1/verification.json'' \<noteq> ?a" by code_simp+
  then have "\<forall>L dir. \<not> is_relative_to (wd_resolve keyless_world L ?a) (wd_resolve keyless_world L dir) \<or>
      \<not> is_relative_to (wd_resolve keyless_world L dir) (wd_resolve keyless_world L ?o)"
    unfolding r is_relative_to_def using prefix_order.trans by metis
  from expiry_recoverable[OF wf i l this surjective_pairing] a show ?thesis
    by (auto simp: list_all_iff desk_with_def demo_desk_def)
qed

section \<open>Properties of the reconciliation and of discarding\<close>

lemma ask_lane: "ask w r d = (x, d1) \<Longrightarrow> dk_lane d1 = dk_lane d"
  by (auto simp: ask_def note_event_def)

lemma delete_rows_lane: "dk_lane (snd (delete_queue_rows w jid rows d)) = dk_lane d"
proof (induction rows arbitrary: d)
  case (Cons r rs)
  have "dk_lane (snd (ask w q d)) = dk_lane d" for q by (simp add: ask_def note_event_def)
  with Cons show ?case by (cases r) (simp_all split: prod.split option.split, metis snd_conv)
qed simp

definition job_status :: "string \<Rightarrow> desk \<Rightarrow> json" where
  "job_status jid d = dget ''status'' (proj_default jid (dk_lane d))"

lemma job_status_timing [simp]: "job_status jid (on_lane (record_job_timing jid stage s) d) = job_status jid d"
  by (auto simp: job_status_def on_lane_def record_job_timing_def proj_default_def set_proj_def proj_of_def Let_def update_conv')

lemma job_status_hide [simp]: "job_status jid (on_lane (hide_from_lidarr jid) d) = job_status jid d"
  by (auto simp: job_status_def on_lane_def hide_from_lidarr_def proj_default_def set_proj_def proj_of_def update_conv'
      split: option.splits)

lemma job_status_cleanup: "job_status jid (cleanup_lidarr_queue w jid d) = job_status jid d"
proof -
  obtain r d1 where a: "ask w Get_Queue d = (r, d1)" by fastforce
  have same: "dk_lane d2 = dk_lane d \<Longrightarrow> job_status jid d2 = job_status jid d" for d2 by (simp add: job_status_def)
  show ?thesis
  proof (cases "records_of r")
    case None
    with a show ?thesis by (simp add: cleanup_lidarr_queue_def Let_def same[OF ask_lane[OF a]])
  next
    case (Some rows)
    obtain u d2 where del: "delete_queue_rows w jid rows d1 = (u, d2)" by fastforce
    have "dk_lane d2 = dk_lane d" using ask_lane[OF a] delete_rows_lane[of w jid rows d1] del by simp
    with a Some del show ?thesis by (cases u) (simp_all add: cleanup_lidarr_queue_def Let_def same[OF \<open>dk_lane d2 = dk_lane d\<close>])
  qed
qed

lemma job_status_failed [simp]: "job_status jid (on_lane (mark_import_failed now jid reason) d) = JStr ''failed''"
  by (simp add: job_status_def on_lane_def mark_import_failed_def proj_default_def set_proj_def proj_of_def update_conv')

text \<open>(C34) A promotion writes its decision before it looks up candidates and posts the ManualImport. Meanwhile the outcome still
  reads as pending. A page view in that interval reconciles the record, finds no command of the release, and marks both
  the record and the job as failed, although the files wait in the output directory and the promotion is running.\<close>

theorem viewing_fails_promotion:
  assumes "dget ''v2_import_outcome'' review = JStr ''PENDING''" and "wd_key w \<noteq> []"
    and "\<forall>L dir. 0 < wd_audio w L dir"
    and "\<forall>x. fst (lidarr_has_pending_import_for_jid w jid x) = Some False"
    and "rcd = promoted_record now lc ov review"
  shows "\<exists>d'. reconcile_pending_import w now2 jid rcd path (atomic_write_json path rcd d) =
      (Inr (dset ''v2_import_outcome'' (JStr ''FAILED'') rcd), d') \<and>
    sidecar_of path d' = Some (Some (dset ''v2_import_outcome'' (JStr ''FAILED'') rcd)) \<and> job_status jid d' = JStr ''failed''"
proof -
  let ?d = "atomic_write_json path rcd d" and ?dir = "job_output_dir w jid (atomic_write_json path rcd d)"
  have acc: "accepted_record rcd" and pend: "dget ''v2_import_outcome'' rcd = JStr ''PENDING''"
    using assms(1) by (simp_all add: assms(5) promoted_record_sel accepted_record_def)
  obtain h d1 where h: "count_lidarr_imported_history w jid ?d = (h, d1)" by fastforce
  obtain n d2 where n: "count_lidarr_trackfiles w (as_list (dget ''album_ids'' rcd)) d1 = (n, d2)" by fastforce
  obtain d3 where p: "lidarr_has_pending_import_for_jid w jid d2 = (Some False, d3)"
    using assms(4) by (metis prod.collapse)
  have audio: "wd_audio w L dir \<noteq> 0" for L dir using assms(3)[rule_format, of L dir] by simp
  let ?f = "dset ''v2_import_outcome'' (JStr ''FAILED'') rcd"
  let ?m = "on_lane (mark_import_failed now2 jid ''lidarr manualimport ended without importing files'') (atomic_write_json path ?f d3)"
  have "reconcile_pending_import w now2 jid rcd path ?d = (Inr ?f, cleanup_lidarr_queue w jid ?m)"
    using assms(2) by (simp add: reconcile_pending_import_def pend acc h n p audio Let_def)
  moreover have "sidecar_of path ?m = Some (Some ?f)"
    by (simp add: sidecar_of_def on_lane_def mark_import_failed_def set_proj_def atomic_write_json_def write_sidecar_def update_conv')
  then have "sidecar_of path (cleanup_lidarr_queue w jid ?m) = Some (Some ?f)"
    using sidecar_of_settles[OF settles_cleanup] by simp
  moreover have "job_status jid (cleanup_lidarr_queue w jid ?m) = JStr ''failed''" by (simp add: job_status_cleanup)
  ultimately show ?thesis by blast
qed

definition idle_world :: world where
  "idle_world = (demo_world [])\<lparr>wd_lidarr := (\<lambda>_. Some \<lparr>re_status = 200, re_body = Some (JList [])\<rparr>)\<rparr>"

theorem viewing_fails_promotion_witness:
  "\<exists>d'. reconcile_pending_import idle_world 6 ''j1'' (promoted_record 5 [] [] demo_review) ''/out/j1/verification.json''
      (atomic_write_json ''/out/j1/verification.json'' (promoted_record 5 [] [] demo_review) demo_desk) =
      (Inr (dset ''v2_import_outcome'' (JStr ''FAILED'') (promoted_record 5 [] [] demo_review)), d') \<and>
    job_status ''j1'' d' = JStr ''failed''"
proof -
  have "dget ''v2_import_outcome'' demo_review = JStr ''PENDING''" by (simp add: demo_review_def)
  moreover have "wd_key idle_world \<noteq> []" "\<forall>L dir. 0 < wd_audio idle_world L dir"
    by (simp_all add: idle_world_def demo_world_def)
  moreover have "\<forall>x. fst (lidarr_has_pending_import_for_jid idle_world ''j1'' x) = Some False"
    by (simp add: lidarr_has_pending_import_for_jid_def ask_def idle_world_def demo_world_def body_of_def py_or_def)
  ultimately show ?thesis using viewing_fails_promotion by blast
qed

text \<open>Discarding deletes the output directory, and the sidecar in it, before the archived copy is written. A crash in between
  leaves no sidecar anywhere.\<close>

lemma discard_files_lose:
  assumes "discard_files w jid d = (True, d1)" and "wd_exists w (dk_log d) (job_output_dir w jid d)"
    and "\<forall>p\<in>set (sidecar_candidates (wd_env w) jid (dk_lane d)).
           sidecar_of p d = None \<or> is_relative_to (wd_resolve w (dk_log d) p) (wd_resolve w (dk_log d) (job_output_dir w jid d))"
  shows "\<not> recoverable w jid (\<lambda>r. True) (dk_lane d1)"
proof -
  have m: "map_of (filter (\<lambda>(q, _). P q) xs) p = (if P p then map_of xs p else None)" for P p and xs :: "(string \<times> dict option) list"
    by (induction xs) auto
  let ?res = "wd_resolve w (dk_log d)" and ?dir = "job_output_dir w jid d"
  from assms(1,2) have s: "sidecar_of p d1 = (if is_relative_to (?res p) (?res ?dir) then None else sidecar_of p d)" for p
    by (auto simp: discard_files_def safe_rmtree_under_def Let_def sidecar_of_def on_lane_def note_event_def m split: if_splits)
  have "ln_proj (dk_lane d1) = ln_proj (dk_lane d)"
    using assms(1,2) by (auto simp: discard_files_def safe_rmtree_under_def Let_def on_lane_def note_event_def split: if_splits)
  then have "sidecar_candidates (wd_env w) jid (dk_lane d1) = sidecar_candidates (wd_env w) jid (dk_lane d)"
    by (rule candidates_projection)
  with assms(3) s show ?thesis by (auto simp: recoverable_def sidecar_of_def[symmetric] split: if_splits)
qed

end
