(* ===== verification/Restore_Zip.thy ===== *)
theory Restore_Zip
  imports Library_Evidence Release_Family Cd_Toc
begin

text \<open>
  The state backup and the contract of a restore zip (\<open>app/backup.py\<close>, \<open>app/restore.py\<close>): which files a
  backup holds and under which names, and which zips a restore accepts.

  A file has a content: a JSON document that the program wrote, a zip, or other bytes. The members of a zip are the
  entries of its directory with what reading them gives. What the standard library makes of foreign bytes (as
  a zip, a JSON text, UTF-8 or a SQLite image) is an argument, and so is the snapshot that SQLite's online backup takes
  of a database: a database is one file here, which stands for the file together with its write-ahead log.
\<close>

section \<open>Files\<close>

datatype content = Doc json | Raw string | Zip_File "zip_member list"
  and zip_member = Zip_Member (zm_name: string) (zm_size: int) (zm_attr: "32 word") (zm_read: zip_read)
  and zip_read = Got content | Bad_Crc | Not_Readable

type_synonym files = "(pypath \<times> content) list"

datatype text_read = Parsed json | Bad_Json | Bad_Unicode | Json_Fails

datatype check_result = Check_Ok | Check_Bad | Not_A_Database | Check_Fails

record codec =
  cd_zip :: "string \<Rightarrow> zip_member list option"
  cd_json :: "string \<Rightarrow> text_read"
  cd_text :: "string \<Rightarrow> string option"
  cd_integrity :: "content \<Rightarrow> check_result"
  cd_snapshot :: "content \<Rightarrow> content option"

definition child_of :: "pypath \<Rightarrow> string \<Rightarrow> pypath" where
  "child_of p n = (fst p, snd p @ [n])"

definition parent_of :: "pypath \<Rightarrow> pypath" where
  "parent_of p = (fst p, butlast (snd p))"

definition name_of :: "pypath \<Rightarrow> string" where
  "name_of p = (if snd p = [] then [] else last (snd p))"

definition in_directory :: "pypath \<Rightarrow> pypath \<Rightarrow> bool" where
  "in_directory d p \<longleftrightarrow> snd p \<noteq> [] \<and> parent_of p = d"

section \<open>Entries of a restore zip\<close>

datatype restore_kind = State_Db | Sidecar | Archive | Log

record restore_entry =
  re_name :: string
  re_kind :: restore_kind
  re_size :: int
  re_target_key :: string
  re_jid :: "string option"

record restore_plan =
  rp_entries :: "restore_entry list"
  rp_total :: int
  rp_has_state_db :: bool

record restore_limits =
  rl_max_entries :: int
  rl_max_total :: int
  rl_max_entry :: int

definition DEFAULT_LIMITS :: restore_limits where
  "DEFAULT_LIMITS = \<lparr>rl_max_entries = 250000, rl_max_total = 25 * 1024 * 1024 * 1024, rl_max_entry = 2 * 1024 * 1024 * 1024\<rparr>"

text \<open>\<open>Other_Exn\<close> stands for the exceptions that are no \<open>RestoreValidationError\<close>.\<close>

datatype restore_exn = Validation string | State_Conflict string | Not_Found string | Io_Exn | Other_Exn

definition is_lower_hex :: "char \<Rightarrow> bool" where
  "is_lower_hex c \<longleftrightarrow> is_digit c \<or> (let n = (of_char c :: nat) in 97 \<le> n \<and> n \<le> 102)"

text \<open>\<open>re.match("^[a-f0-9]{12}$", s)\<close>; the dollar also matches before a final line feed.\<close>

definition is_jid :: "string \<Rightarrow> bool" where
  "is_jid s \<longleftrightarrow> 12 \<le> length s \<and> list_all is_lower_hex (take 12 s) \<and> drop 12 s \<in> {[], [CHR 0x0A]}"

definition ARCHIVE_LABELS :: "string list" where
  "ARCHIVE_LABELS = [''blocked'', ''discarded'', ''expired'']"

definition LOG_NAMES :: "string list" where
  "LOG_NAMES = [''decisions.jsonl'', ''release_switch_audit.jsonl'']"

definition is_symlink_or_special :: "32 word \<Rightarrow> bool" where
  "is_symlink_or_special attr =
     (let mode = and (drop_bit 16 attr) 0x3FFFF; file_type = and mode 0xF000 in
      file_type \<noteq> 0 \<and> and mode 0xF000 \<noteq> 0x8000)"

definition safe_parts :: "string \<Rightarrow> restore_exn + string list" where
  "safe_parts name =
     (let parts = path_parts name in
      if prefix ''/'' name \<or> (\<exists>p\<in>set parts. p \<in> {[], ''.'', ''..''})
      then Inl (Validation (''unsafe restore zip path: '' @ name)) else Inr parts)"

definition entry_of :: "zip_member \<Rightarrow> restore_kind \<Rightarrow> string \<Rightarrow> string option \<Rightarrow> restore_entry" where
  "entry_of m k key jid = \<lparr>re_name = zm_name m, re_kind = k, re_size = zm_size m, re_target_key = key, re_jid = jid\<rparr>"

definition unknown_entry :: "zip_member \<Rightarrow> restore_exn + restore_entry" where
  "unknown_entry m = Inl (Validation (''unknown restore zip entry: '' @ zm_name m))"

definition classify_parts :: "zip_member \<Rightarrow> string list \<Rightarrow> restore_exn + restore_entry" where
  "classify_parts m parts =
     (case parts of
        [a] \<Rightarrow> if a = ''state_db.sqlite'' then Inr (entry_of m State_Db ''state_db'' None) else unknown_entry m
      | [a, b] \<Rightarrow>
          if a = ''logs'' \<and> b \<in> set LOG_NAMES then Inr (entry_of m Log (''logs/'' @ b) None) else unknown_entry m
      | [a, b, c] \<Rightarrow>
          if a = ''sidecars'' \<and> c = ''verification.json'' then
            if is_jid b then Inr (entry_of m Sidecar (''sidecars/'' @ b @ ''/verification.json'') (Some b))
            else Inl (Validation (''unsafe restore jid segment: '' @ b))
          else if a = ''archive'' \<and> b \<in> set ARCHIVE_LABELS then
            if CHR ''/'' \<in> set c \<or> \<not> suffix ''.json'' c \<or> c = ''.json''
            then Inl (Validation (''invalid archive sidecar name: '' @ zm_name m))
            else Inr (entry_of m Archive (''archive/'' @ b @ ''/'' @ c) None)
          else unknown_entry m
      | _ \<Rightarrow> unknown_entry m)"

definition validate_info :: "zip_member \<Rightarrow> restore_exn + restore_entry" where
  "validate_info m =
     (let name = zm_name m in
      if name = [] \<or> suffix ''/'' name then Inl (Validation (''restore zip contains directory entry: '' @ name))
      else if zm_size m < 0 then Inl (Validation (''restore zip entry has invalid size: '' @ name))
      else if is_symlink_or_special (zm_attr m) then Inl (Validation (''restore zip entry is not a regular file: '' @ name))
      else case safe_parts name of Inl e \<Rightarrow> Inl e | Inr parts \<Rightarrow> classify_parts m parts)"

section \<open>Contents of the members\<close>

text \<open>\<open>json.loads\<close> on the bytes of a content.\<close>

definition content_json :: "codec \<Rightarrow> content \<Rightarrow> text_read" where
  "content_json cd c = (case c of Doc j \<Rightarrow> Parsed j | Raw b \<Rightarrow> cd_json cd b | Zip_File _ \<Rightarrow> Bad_Unicode)"

definition read_member :: "zip_member \<Rightarrow> restore_exn + content" where
  "read_member m =
     (case zm_read m of
        Got c \<Rightarrow> Inr c
      | Bad_Crc \<Rightarrow> Inl (Validation ''restore input is not a valid zip'')
      | Not_Readable \<Rightarrow> Inl Other_Exn)"

definition json_error :: "string \<Rightarrow> text_read \<Rightarrow> restore_exn option" where
  "json_error msg r = (case r of Parsed _ \<Rightarrow> None | Json_Fails \<Rightarrow> Some Other_Exn | _ \<Rightarrow> Some (Validation msg))"

definition validate_sqlite_member :: "codec \<Rightarrow> zip_member \<Rightarrow> restore_exn option" where
  "validate_sqlite_member cd m =
     (case read_member m of
        Inl e \<Rightarrow> Some e
      | Inr c \<Rightarrow>
          (case cd_integrity cd c of
             Check_Ok \<Rightarrow> None
           | Check_Bad \<Rightarrow> Some (Validation ''restore state_db failed integrity_check'')
           | Not_A_Database \<Rightarrow> Some (Validation ''restore state_db is not valid SQLite'')
           | Check_Fails \<Rightarrow> Some Other_Exn))"

definition validate_json_member :: "codec \<Rightarrow> zip_member \<Rightarrow> restore_exn option" where
  "validate_json_member cd m =
     (case read_member m of
        Inl e \<Rightarrow> Some e
      | Inr c \<Rightarrow> json_error (''restore JSON entry is invalid: '' @ zm_name m) (content_json cd c))"

fun jsonl_lines :: "codec \<Rightarrow> string \<Rightarrow> string list \<Rightarrow> restore_exn option" where
  "jsonl_lines cd msg [] = None"
| "jsonl_lines cd msg (l # ls) =
     (if py_strip l = [] then jsonl_lines cd msg ls
      else case json_error msg (cd_json cd l) of Some e \<Rightarrow> Some e | None \<Rightarrow> jsonl_lines cd msg ls)"

definition validate_jsonl_member :: "codec \<Rightarrow> zip_member \<Rightarrow> restore_exn option" where
  "validate_jsonl_member cd m =
     (let msg = ''restore JSONL entry is invalid: '' @ zm_name m in
      case read_member m of
        Inl e \<Rightarrow> Some e
      | Inr c \<Rightarrow>
          (case c of
             Doc _ \<Rightarrow> None
           | Raw b \<Rightarrow> (case cd_text cd b of None \<Rightarrow> Some (Validation msg) | Some t \<Rightarrow> jsonl_lines cd msg (splitlines t))
           | Zip_File _ \<Rightarrow> Some (Validation msg)))"

text \<open>\<open>zf.read(name)\<close> reads the last member of that name. The names of a zip that passes are distinct, and there it is the
  member itself; a zip with a repeated name is refused either way, though perhaps with the other message.\<close>

definition validate_content :: "codec \<Rightarrow> zip_member \<Rightarrow> restore_kind \<Rightarrow> restore_exn option" where
  "validate_content cd m k =
     (case k of
        State_Db \<Rightarrow> validate_sqlite_member cd m
      | Log \<Rightarrow> validate_jsonl_member cd m
      | _ \<Rightarrow> validate_json_member cd m)"

section \<open>Validation of a zip\<close>

fun validate_members :: "codec \<Rightarrow> restore_limits \<Rightarrow> string list \<Rightarrow> int \<Rightarrow> zip_member list \<Rightarrow> restore_exn + restore_entry list" where
  "validate_members cd lims seen total_bytes [] = Inr []"
| "validate_members cd lims seen total_bytes (m # ms) =
     (case validate_info m of
        Inl e \<Rightarrow> Inl e
      | Inr en \<Rightarrow>
          if re_name en \<in> set seen then Inl (Validation (''duplicate restore zip entry: '' @ re_name en))
          else if re_size en > rl_max_entry lims then Inl (Validation (''restore zip entry too large: '' @ re_name en))
          else if total_bytes + re_size en > rl_max_total lims
          then Inl (Validation ''restore zip total uncompressed size too large'')
          else
            (case validate_content cd m (re_kind en) of
               Some e \<Rightarrow> Inl e
             | None \<Rightarrow>
                 (case validate_members cd lims (re_name en # seen) (total_bytes + re_size en) ms of
                    Inl e \<Rightarrow> Inl e
                  | Inr ens \<Rightarrow> Inr (en # ens))))"

definition members_of :: "codec \<Rightarrow> content \<Rightarrow> zip_member list option" where
  "members_of cd c = (case c of Zip_File ms \<Rightarrow> Some ms | Raw b \<Rightarrow> cd_zip cd b | Doc _ \<Rightarrow> None)"

definition validate_restore_zip :: "codec \<Rightarrow> restore_limits \<Rightarrow> content \<Rightarrow> restore_exn + restore_plan" where
  "validate_restore_zip cd lims c =
     (case members_of cd c of
        None \<Rightarrow> Inl (Validation ''restore input is not a valid zip'')
      | Some ms \<Rightarrow>
          if int (length ms) > rl_max_entries lims then Inl (Validation ''restore zip has too many entries'')
          else
            (case validate_members cd lims [] 0 ms of
               Inl e \<Rightarrow> Inl e
             | Inr ens \<Rightarrow>
                 Inr \<lparr>rp_entries = ens, rp_total = sum_list (map re_size ens),
                   rp_has_state_db = (\<exists>en\<in>set ens. re_kind en = State_Db)\<rparr>))"

section \<open>Targets\<close>

record restore_targets =
  rt_state_db :: pypath
  rt_output :: pypath
  rt_archives :: "(string \<times> pypath) list"
  rt_logs :: "(string \<times> pypath) list"

text \<open>\<open>None\<close> when the kind or a key is unknown, which raises.\<close>

definition entry_target :: "restore_targets \<Rightarrow> restore_entry \<Rightarrow> pypath option" where
  "entry_target t en =
     (let parts = split_char (CHR ''/'') (re_target_key en) in
      case re_kind en of
        Sidecar \<Rightarrow> if 1 < length parts then Some (child_of (child_of (rt_output t) (parts ! 1)) ''verification.json'') else None
      | Archive \<Rightarrow>
          if 2 < length parts then map_option (\<lambda>d. child_of d (parts ! 2)) (map_of (rt_archives t) (parts ! 1)) else None
      | Log \<Rightarrow> if 1 < length parts then map_of (rt_logs t) (parts ! 1) else None
      | State_Db \<Rightarrow> None)"

section \<open>Backups\<close>

definition sorted_files :: "(pypath \<Rightarrow> bool) \<Rightarrow> files \<Rightarrow> files" where
  "sorted_files P fs = sort_key (\<lambda>(p, _). snd p) (filter (\<lambda>(p, _). P p) fs)"

definition is_file_mode :: "32 word" where
  "is_file_mode = push_bit 16 0x81A4"

text \<open>The member that \<open>zf.write\<close> makes of a file; \<open>size_of\<close> is the length of its bytes.\<close>

definition member_of_file :: "(content \<Rightarrow> int) \<Rightarrow> string \<Rightarrow> content \<Rightarrow> zip_member" where
  "member_of_file size_of name c = Zip_Member name (size_of c) is_file_mode (Got c)"

definition backup_sidecars :: "(content \<Rightarrow> int) \<Rightarrow> restore_targets \<Rightarrow> files \<Rightarrow> zip_member list" where
  "backup_sidecars size_of t fs =
     map (\<lambda>(p, c). member_of_file size_of (''sidecars/'' @ name_of (parent_of p) @ ''/verification.json'') c)
       (sorted_files (\<lambda>p. in_directory (parent_of p) p \<and> in_directory (rt_output t) (parent_of p) \<and> name_of p = ''verification.json'') fs)"

definition backup_archive :: "(content \<Rightarrow> int) \<Rightarrow> files \<Rightarrow> string \<times> pypath \<Rightarrow> zip_member list" where
  "backup_archive size_of fs ld =
     map (\<lambda>(p, c). member_of_file size_of (''archive/'' @ fst ld @ ''/'' @ name_of p) c)
       (sorted_files (\<lambda>p. in_directory (snd ld) p \<and> suffix ''.json'' (name_of p)) fs)"

definition backup_log :: "(content \<Rightarrow> int) \<Rightarrow> files \<Rightarrow> string \<times> pypath \<Rightarrow> zip_member list" where
  "backup_log size_of fs nl =
     (case map_of fs (snd nl) of None \<Rightarrow> [] | Some c \<Rightarrow> [member_of_file size_of (''logs/'' @ fst nl) c])"

text \<open>\<open>None\<close> when the database cannot be copied, which raises.\<close>

definition build_backup_zip :: "codec \<Rightarrow> (content \<Rightarrow> int) \<Rightarrow> restore_targets \<Rightarrow> files \<Rightarrow> content option" where
  "build_backup_zip cd size_of t fs =
     (case (case map_of fs (rt_state_db t) of
              None \<Rightarrow> Some []
            | Some c \<Rightarrow> map_option (\<lambda>s. [Zip_Member ''state_db.sqlite'' (size_of s) is_file_mode (Got s)]) (cd_snapshot cd c)) of
        None \<Rightarrow> None
      | Some db \<Rightarrow>
          Some (Zip_File (db @ backup_sidecars size_of t fs @ concat (map (backup_archive size_of fs) (rt_archives t)) @
            concat (map (backup_log size_of fs) (rt_logs t)))))"

end
