(* ===== verification/Restore_Apply.thy ===== *)
theory Restore_Apply
  imports Restore_Zip
begin

text \<open>
  Staging, cancelling and applying a restore (\<open>app/restore.py\<close> and the handlers of \<open>app/server.py\<close>).

  A disk has the files and the earlier states of the files, newest first, so that a crash at any moment is one
  of these states. Every file operation may fail: \<open>rw_io\<close> says how the operation with a given number goes, and a
  write may leave a torn file behind. A replacement of one file by another is atomic. Directories are not
  modelled beyond the failure of their creation.
\<close>

section \<open>Disks\<close>

datatype io_outcome = Works | Refused | Torn

record rworld =
  rw_codec :: codec
  rw_size :: "content \<Rightarrow> int"
  rw_io :: "nat \<Rightarrow> io_outcome"
  rw_resolve :: "pypath \<Rightarrow> pypath"
  rw_now :: rat
  rw_id :: string
  rw_exn_text :: "restore_exn \<Rightarrow> string"

record disk =
  rs_files :: files
  rs_past :: "files list"
  rs_io :: nat

definition change_files :: "(files \<Rightarrow> files) \<Rightarrow> disk \<Rightarrow> disk" where
  "change_files f d = d\<lparr>rs_files := f (rs_files d), rs_past := rs_files d # rs_past d\<rparr>"

definition attempt :: "rworld \<Rightarrow> disk \<Rightarrow> io_outcome \<times> disk" where
  "attempt w d = (rw_io w (rs_io d), d\<lparr>rs_io := Suc (rs_io d)\<rparr>)"

definition is_file :: "pypath \<Rightarrow> disk \<Rightarrow> bool" where
  "is_file p d \<longleftrightarrow> map_of (rs_files d) p \<noteq> None"

type_synonym io_result = "restore_exn option \<times> disk"

definition then_do :: "io_result \<Rightarrow> (disk \<Rightarrow> io_result) \<Rightarrow> io_result" where
  "then_do r f = (case r of (Some e, d) \<Rightarrow> (Some e, d) | (None, d) \<Rightarrow> f d)"

definition make_dir :: "rworld \<Rightarrow> disk \<Rightarrow> io_result" where
  "make_dir w d = (case attempt w d of (r, d1) \<Rightarrow> (if r = Works then None else Some Io_Exn, d1))"

definition write_file :: "rworld \<Rightarrow> pypath \<Rightarrow> content \<Rightarrow> disk \<Rightarrow> io_result" where
  "write_file w p c d =
     (case attempt w d of
        (Works, d1) \<Rightarrow> (None, change_files (AList.update p c) d1)
      | (Refused, d1) \<Rightarrow> (Some Io_Exn, d1)
      | (Torn, d1) \<Rightarrow> (Some Io_Exn, change_files (AList.update p (Raw [])) d1))"

definition replace_file :: "rworld \<Rightarrow> pypath \<Rightarrow> pypath \<Rightarrow> disk \<Rightarrow> io_result" where
  "replace_file w a b d =
     (case attempt w d of (r, d1) \<Rightarrow>
        (case map_of (rs_files d1) a of
           Some c \<Rightarrow>
             if r = Works then (None, change_files (\<lambda>fs. AList.update b c (AList.delete a fs)) d1) else (Some Io_Exn, d1)
         | None \<Rightarrow> (Some Io_Exn, d1)))"

definition unlink_file :: "rworld \<Rightarrow> pypath \<Rightarrow> disk \<Rightarrow> io_result" where
  "unlink_file w p d =
     (case attempt w d of (r, d1) \<Rightarrow>
        if r = Works \<and> is_file p d1 then (None, change_files (AList.delete p) d1) else (Some Io_Exn, d1))"

definition unlink_if_exists :: "rworld \<Rightarrow> pypath \<Rightarrow> disk \<Rightarrow> disk" where
  "unlink_if_exists w p d = (if is_file p d then snd (unlink_file w p d) else d)"

text \<open>Writing a temporary file beside \<open>dest\<close>, moving it there, and removing it in any case.\<close>

definition write_and_replace :: "rworld \<Rightarrow> pypath \<Rightarrow> pypath \<Rightarrow> content \<Rightarrow> disk \<Rightarrow> io_result" where
  "write_and_replace w tmp dest c d =
     (case then_do (write_file w tmp c d) (replace_file w tmp dest) of
        (r, d1) \<Rightarrow> (r, unlink_if_exists w tmp d1))"

definition beside :: "pypath \<Rightarrow> string \<Rightarrow> pypath" where
  "beside p n = child_of (parent_of p) n"

definition atomic_write :: "rworld \<Rightarrow> pypath \<Rightarrow> content \<Rightarrow> disk \<Rightarrow> io_result" where
  "atomic_write w dest c d =
     then_do (make_dir w d) (write_and_replace w (beside dest (''.'' @ name_of dest @ ''.restore.tmp'')) dest c)"

section \<open>Markers and status\<close>

definition REQUEST_FILE :: string where "REQUEST_FILE = ''restore_request.json''"
definition STATUS_FILE :: string where "STATUS_FILE = ''restore_status.json''"

definition marker_path :: "pypath \<Rightarrow> pypath" where
  "marker_path root_dir = child_of root_dir REQUEST_FILE"

definition status_path :: "pypath \<Rightarrow> pypath" where
  "status_path root_dir = child_of root_dir STATUS_FILE"

definition tmp_of :: "pypath \<Rightarrow> string \<Rightarrow> pypath" where
  "tmp_of root_dir n = child_of root_dir (''.'' @ n @ ''.tmp'')"

definition read_json_file :: "rworld \<Rightarrow> pypath \<Rightarrow> disk \<Rightarrow> (restore_exn + dict) \<times> disk" where
  "read_json_file w p d =
     (let unreadable = [(''state'', JStr ''unreadable''), (''path'', JStr (path_str p))] in
      case attempt w d of (r, d1) \<Rightarrow>
        ((case (r, map_of (rs_files d1) p) of
            (Works, Some c) \<Rightarrow>
              (case content_json (rw_codec w) c of
                 Parsed (JObj o') \<Rightarrow> Inr o'
               | Parsed _ \<Rightarrow> Inr unreadable
               | Bad_Json \<Rightarrow> Inr unreadable
               | _ \<Rightarrow> Inl Other_Exn)
          | _ \<Rightarrow> Inr unreadable), d1))"

definition write_status_file :: "rworld \<Rightarrow> pypath \<Rightarrow> json \<Rightarrow> string \<Rightarrow> string \<Rightarrow> pypath option \<Rightarrow> disk \<Rightarrow> io_result" where
  "write_status_file w root_dir rid state detail backup d =
     (let payload = [(''restore_id'', rid), (''state'', JStr state), (''detail'', JStr detail), (''applied_at'', JFloat (rw_now w))] @
        (case backup of None \<Rightarrow> [] | Some p \<Rightarrow> [(''safety_backup'', JStr (path_str p))]) in
      write_and_replace w (tmp_of root_dir STATUS_FILE) (status_path root_dir) (Doc (JObj payload)) d)"

definition safe_write_status :: "rworld \<Rightarrow> pypath \<Rightarrow> json \<Rightarrow> string \<Rightarrow> string \<Rightarrow> pypath option \<Rightarrow> disk \<Rightarrow> disk" where
  "safe_write_status w root_dir rid state detail backup d = snd (write_status_file w root_dir rid state detail backup d)"

definition set_marker_state :: "rworld \<Rightarrow> pypath \<Rightarrow> dict \<Rightarrow> string \<Rightarrow> disk \<Rightarrow> io_result" where
  "set_marker_state w root_dir request state d =
     write_and_replace w (tmp_of root_dir REQUEST_FILE) (marker_path root_dir)
       (Doc (JObj (dset ''state_changed_at'' (JFloat (rw_now w)) (dset ''state'' (JStr state) request)))) d"

definition state_text :: "dict \<Rightarrow> string" where
  "state_text request = py_str (py_or (dget ''state'' request) (JStr []))"

definition staged_zip_of :: "dict \<Rightarrow> pypath" where
  "staged_zip_of request = path_of (py_str (py_or (dget ''staged_zip'' request) (JStr [])))"

text \<open>\<open>validate_restore_zip\<close> on a path; opening it may fail.\<close>

definition validate_at :: "rworld \<Rightarrow> restore_limits \<Rightarrow> pypath \<Rightarrow> disk \<Rightarrow> (restore_exn + restore_plan) \<times> disk" where
  "validate_at w lims p d =
     (case attempt w d of (r, d1) \<Rightarrow>
        ((case (r, map_of (rs_files d1) p) of
            (Works, Some c) \<Rightarrow> validate_restore_zip (rw_codec w) lims c
          | _ \<Rightarrow> Inl Io_Exn), d1))"

section \<open>Staging\<close>

definition ensure_no_pending :: "pypath \<Rightarrow> disk \<Rightarrow> restore_exn option" where
  "ensure_no_pending root_dir d =
     (if is_file (marker_path root_dir) d then Some (State_Conflict ''restore already staged'') else None)"

definition marker_payload :: "rworld \<Rightarrow> restore_limits \<Rightarrow> string \<Rightarrow> string \<Rightarrow> pypath \<Rightarrow> restore_plan \<Rightarrow> dict" where
  "marker_payload w lims actor source_name staged plan =
     [(''restore_id'', JStr (rw_id w)), (''state'', JStr ''staged''), (''created_at'', JFloat (rw_now w)), (''actor'', JStr actor),
      (''source_name'', JStr (name_of (path_of source_name))), (''staged_zip'', JStr (path_str staged)),
      (''limits'', JObj [(''max_entries'', JInt (rl_max_entries lims)),
         (''max_total_uncompressed_bytes'', JInt (rl_max_total lims)), (''max_entry_uncompressed_bytes'', JInt (rl_max_entry lims))]),
      (''plan'', JObj [(''entry_count'', JInt (int (length (rp_entries plan)))),
         (''total_uncompressed_bytes'', JInt (rp_total plan)), (''has_state_db'', JBool (rp_has_state_db plan))])]"

definition write_restore_marker :: "rworld \<Rightarrow> pypath \<Rightarrow> restore_limits \<Rightarrow> string \<Rightarrow> string \<Rightarrow> pypath \<Rightarrow> disk \<Rightarrow> (restore_exn + dict) \<times> disk" where
  "write_restore_marker w root_dir lims actor source_name staged d =
     (case validate_at w lims staged d of
        (Inl e, d1) \<Rightarrow> (Inl e, d1)
      | (Inr plan, d1) \<Rightarrow>
          let payload = marker_payload w lims actor source_name staged plan in
          (case write_and_replace w (tmp_of root_dir REQUEST_FILE) (marker_path root_dir) (Doc (JObj payload)) d1 of
             (Some e, d2) \<Rightarrow> (Inl e, d2)
           | (None, d2) \<Rightarrow> (Inr payload, d2)))"

text \<open>What the three ways of staging share: the content reaches the staging directory through a temporary file.\<close>

definition stage_content :: "rworld \<Rightarrow> pypath \<Rightarrow> restore_limits \<Rightarrow> string \<Rightarrow> string \<Rightarrow> string \<Rightarrow> content \<Rightarrow> disk \<Rightarrow> (restore_exn + dict) \<times> disk" where
  "stage_content w root_dir lims actor source_name ext c d =
     (case make_dir w d of
        (Some e, d1) \<Rightarrow> (Inl e, d1)
      | (None, d1) \<Rightarrow>
          (case ensure_no_pending root_dir d1 of
             Some e \<Rightarrow> (Inl e, d1)
           | None \<Rightarrow>
               let staged = child_of root_dir (rw_id w @ ''.zip''); tmp = child_of root_dir (''.'' @ rw_id w @ ext) in
               (case (case then_do (write_file w tmp c d1) (replace_file w tmp staged) of
                        (Some e, d2) \<Rightarrow> (Inl e, d2)
                      | (None, d2) \<Rightarrow> write_restore_marker w root_dir lims actor source_name staged d2) of
                  (Inr payload, d3) \<Rightarrow> (Inr payload, d3)
                | (Inl e, d3) \<Rightarrow> (Inl e, unlink_if_exists w staged (unlink_if_exists w tmp d3)))))"

definition stage_restore_upload :: "rworld \<Rightarrow> pypath \<Rightarrow> restore_limits \<Rightarrow> string \<Rightarrow> string \<Rightarrow> content \<Rightarrow> disk \<Rightarrow> (restore_exn + dict) \<times> disk" where
  "stage_restore_upload w root_dir lims actor filename c d =
     stage_content w root_dir lims actor (name_of (path_of (if filename = [] then ''upload.zip'' else filename))) ''.upload.tmp'' c d"

text \<open>A path exists when it is a file or has a file below it.\<close>

definition resolve_allowed_backup_path :: "rworld \<Rightarrow> pypath list \<Rightarrow> pypath \<Rightarrow> disk \<Rightarrow> restore_exn + pypath" where
  "resolve_allowed_backup_path w allowed p d =
     (let candidate = rw_resolve w p in
      if \<not> (\<exists>(q, _)\<in>set (rs_files d). is_relative_to q candidate) then Inl (Validation ''backup_path does not exist'')
      else if \<not> is_file candidate d then Inl (Validation ''backup_path is not a file'')
      else if \<not> (\<exists>r\<in>set allowed. is_relative_to candidate (rw_resolve w r))
      then Inl (Validation ''backup_path is outside allowed backup directories'')
      else Inr candidate)"

definition stage_restore_from_path :: "rworld \<Rightarrow> pypath \<Rightarrow> restore_limits \<Rightarrow> string \<Rightarrow> pypath list \<Rightarrow> pypath \<Rightarrow> disk \<Rightarrow> (restore_exn + dict) \<times> disk" where
  "stage_restore_from_path w root_dir lims actor allowed p d =
     (case resolve_allowed_backup_path w allowed p d of
        Inl e \<Rightarrow> (Inl e, d)
      | Inr source \<Rightarrow>
          (case map_of (rs_files d) source of
             None \<Rightarrow> (Inl Io_Exn, d)
           | Some c \<Rightarrow> stage_content w root_dir lims actor (name_of source) ''.copy.tmp'' c d))"

definition restore_status :: "rworld \<Rightarrow> pypath \<Rightarrow> disk \<Rightarrow> (restore_exn + dict) \<times> disk" where
  "restore_status w root_dir d =
     (let status = (if is_file (status_path root_dir) d then apfst (map_sum id Some) (read_json_file w (status_path root_dir) d) else (Inr None, d)) in
      case status of
        (Inl e, d1) \<Rightarrow> (Inl e, d1)
      | (Inr st, d1) \<Rightarrow>
          (case (if is_file (marker_path root_dir) d1 then apfst (map_sum id Some) (read_json_file w (marker_path root_dir) d1) else (Inr None, d1)) of
             (Inl e, d2) \<Rightarrow> (Inl e, d2)
           | (Inr rq, d2) \<Rightarrow>
               let shown = (case rq of Some (kv # q) \<Rightarrow> kv # q | _ \<Rightarrow> (case st of Some s \<Rightarrow> s | None \<Rightarrow> [])) in
               (Inr [(''pending'', JBool (rq \<noteq> None)), (''restore_id'', dget ''restore_id'' shown), (''state'', dget ''state'' shown),
                  (''created_at'', dget ''created_at'' shown), (''last_apply'', (case st of None \<Rightarrow> JNull | Some s \<Rightarrow> JObj s))], d2)))"

definition cancel_staged_restore :: "rworld \<Rightarrow> pypath \<Rightarrow> disk \<Rightarrow> (restore_exn + dict) \<times> disk" where
  "cancel_staged_restore w root_dir d =
     (if \<not> is_file (marker_path root_dir) d then (Inl (Not_Found ''no staged restore''), d)
      else
        (case read_json_file w (marker_path root_dir) d of
           (Inl e, d1) \<Rightarrow> (Inl e, d1)
         | (Inr request, d1) \<Rightarrow>
             if state_text request \<noteq> ''staged''
             then (Inl (State_Conflict ''restore cannot be cancelled after apply starts''), d1)
             else
               (case unlink_file w (marker_path root_dir) d1 of
                  (Some e, d2) \<Rightarrow> (Inl e, d2)
                | (None, d2) \<Rightarrow>
                    let staged = staged_zip_of request;
                        answer = [(''restore_id'', dget ''restore_id'' request), (''state'', JStr ''cancelled'')] in
                    if is_file staged d2 \<and> is_relative_to (rw_resolve w staged) (rw_resolve w root_dir) then
                      (case unlink_file w staged d2 of (Some e, d3) \<Rightarrow> (Inl e, d3) | (None, d3) \<Rightarrow> (Inr answer, d3))
                    else (Inr answer, d2))))"

section \<open>Applying a restore at boot\<close>

record apply_result =
  ar_outcome :: string
  ar_workers :: bool
  ar_id :: json

definition outcome_of :: "string \<Rightarrow> bool \<Rightarrow> json \<Rightarrow> (restore_exn + apply_result)" where
  "outcome_of s b rid = Inr \<lparr>ar_outcome = s, ar_workers = b, ar_id = rid\<rparr>"

definition remove_wal_shm :: "rworld \<Rightarrow> pypath \<Rightarrow> disk \<Rightarrow> disk" where
  "remove_wal_shm w db d =
     unlink_if_exists w (beside db (name_of db @ ''-shm'')) (unlink_if_exists w (beside db (name_of db @ ''-wal'')) d)"

text \<open>\<open>zf.read(name)\<close>: of several members with one name the last is read.\<close>

definition read_named :: "zip_member list \<Rightarrow> string \<Rightarrow> restore_exn + content" where
  "read_named ms name =
     (case List.find (\<lambda>m. zm_name m = name) (rev ms) of None \<Rightarrow> Inl Other_Exn | Some m \<Rightarrow> read_member m)"

fun apply_databases :: "rworld \<Rightarrow> restore_targets \<Rightarrow> zip_member list \<Rightarrow> restore_entry list \<Rightarrow> disk \<Rightarrow> io_result" where
  "apply_databases w t ms [] d = (None, d)"
| "apply_databases w t ms (en # ens) d =
     (if re_kind en \<noteq> State_Db then apply_databases w t ms ens d
      else
        case read_named ms (re_name en) of
          Inl e \<Rightarrow> (Some e, d)
        | Inr c \<Rightarrow>
            then_do (atomic_write w (rt_state_db t) c d) (\<lambda>d1. apply_databases w t ms ens (remove_wal_shm w (rt_state_db t) d1)))"

fun apply_evidence :: "rworld \<Rightarrow> restore_targets \<Rightarrow> zip_member list \<Rightarrow> restore_entry list \<Rightarrow> disk \<Rightarrow> io_result" where
  "apply_evidence w t ms [] d = (None, d)"
| "apply_evidence w t ms (en # ens) d =
     (if re_kind en = State_Db then apply_evidence w t ms ens d
      else
        case (entry_target t en, read_named ms (re_name en)) of
          (Some dest, Inr c) \<Rightarrow> then_do (atomic_write w dest c d) (apply_evidence w t ms ens)
        | (Some _, Inl e) \<Rightarrow> (Some e, d)
        | (None, _) \<Rightarrow> (Some Other_Exn, d))"

definition apply_entries :: "rworld \<Rightarrow> restore_targets \<Rightarrow> pypath \<Rightarrow> restore_plan \<Rightarrow> disk \<Rightarrow> io_result" where
  "apply_entries w t staged plan d =
     (case attempt w d of (r, d1) \<Rightarrow>
        (case (r, Option.bind (map_of (rs_files d1) staged) (members_of (rw_codec w))) of
           (Works, Some ms) \<Rightarrow>
             then_do (apply_databases w t ms (rp_entries plan) d1) (apply_evidence w t ms (rp_entries plan))
         | _ \<Rightarrow> (Some Io_Exn, d1)))"

text \<open>\<open>None\<close> when the id is no text; the operand of \<open>/\<close> then raises.\<close>

definition safety_dir :: "pypath \<Rightarrow> json \<Rightarrow> pypath option" where
  "safety_dir dir rid =
     (case py_or rid (JStr ''unknown'') of
        JStr s \<Rightarrow> Some (if prefix ''/'' s then path_of s else path_join dir s)
      | _ \<Rightarrow> None)"

definition SAFETY_NAME :: string where "SAFETY_NAME = ''pre-restore-state.zip''"

definition write_safety_backup :: "rworld \<Rightarrow> restore_targets \<Rightarrow> pypath \<Rightarrow> json \<Rightarrow> disk \<Rightarrow> (restore_exn + pypath) \<times> disk" where
  "write_safety_backup w t safety rid d =
     (case safety_dir safety rid of
        None \<Rightarrow> (Inl Other_Exn, d)
      | Some dir \<Rightarrow>
          let dest = child_of dir SAFETY_NAME; tmp = child_of dir (''.'' @ SAFETY_NAME @ ''.tmp'') in
          (case make_dir w d of
             (Some e, d1) \<Rightarrow> (Inl e, d1)
           | (None, d1) \<Rightarrow>
               (case build_backup_zip (rw_codec w) (rw_size w) t (rs_files d1) of
                  None \<Rightarrow> (Inl Other_Exn, unlink_if_exists w tmp d1)
                | Some z \<Rightarrow>
                    (case write_and_replace w tmp dest z d1 of
                       (Some e, d2) \<Rightarrow> (Inl e, d2)
                     | (None, d2) \<Rightarrow> (Inr dest, d2)))))"

definition abort_preflight :: "rworld \<Rightarrow> pypath \<Rightarrow> pypath \<Rightarrow> json \<Rightarrow> string \<Rightarrow> disk \<Rightarrow> (restore_exn + apply_result) \<times> disk" where
  "abort_preflight w root_dir staged rid detail d =
     (outcome_of ''failed_preflight'' True rid,
      safe_write_status w root_dir rid ''failed_preflight'' detail None
        (unlink_if_exists w staged (unlink_if_exists w (marker_path root_dir) d)))"

definition revalidate :: "rworld \<Rightarrow> restore_limits \<Rightarrow> pypath \<Rightarrow> pypath \<Rightarrow> disk \<Rightarrow> (restore_exn + restore_plan) \<times> disk" where
  "revalidate w lims root_dir staged d =
     (if \<not> is_file staged d \<or> \<not> is_relative_to (rw_resolve w staged) (rw_resolve w root_dir)
      then (Inl (Validation ''staged restore zip missing or out of staging''), d)
      else validate_at w lims staged d)"

text \<open>From the marker in state \<open>applying\<close> to the end.\<close>

definition replace_state :: "rworld \<Rightarrow> restore_targets \<Rightarrow> pypath \<Rightarrow> pypath \<Rightarrow> restore_plan \<Rightarrow> json \<Rightarrow> pypath \<Rightarrow> disk \<Rightarrow> (restore_exn + apply_result) \<times> disk" where
  "replace_state w t root_dir staged plan rid backup d =
     (case apply_entries w t staged plan d of
        (Some e, d1) \<Rightarrow>
          (outcome_of ''failed_partial'' False rid,
           safe_write_status w root_dir rid ''failed_partial''
             (''apply failed mid-replacement: '' @ rw_exn_text w e @ ''; recover from '' @ name_of backup) (Some backup) d1)
      | (None, d1) \<Rightarrow>
          (outcome_of ''applied'' True rid,
           safe_write_status w root_dir rid ''applied'' ''restore applied'' (Some backup)
             (unlink_if_exists w staged (unlink_if_exists w (marker_path root_dir) d1))))"

definition apply_staged :: "rworld \<Rightarrow> restore_targets \<Rightarrow> pypath \<Rightarrow> pypath \<Rightarrow> restore_limits \<Rightarrow> dict \<Rightarrow> disk \<Rightarrow> (restore_exn + apply_result) \<times> disk" where
  "apply_staged w t root_dir safety lims request d =
     (let rid = dget ''restore_id'' request; staged = staged_zip_of request in
      case revalidate w lims root_dir staged d of
        (Inl (Validation msg), d1) \<Rightarrow> abort_preflight w root_dir staged rid (''revalidation failed: '' @ msg) d1
      | (Inl e, d1) \<Rightarrow> (Inl e, d1)
      | (Inr plan, d1) \<Rightarrow>
          (case write_safety_backup w t safety rid d1 of
             (Inl e, d2) \<Rightarrow> abort_preflight w root_dir staged rid (''safety backup failed: '' @ rw_exn_text w e) d2
           | (Inr backup, d2) \<Rightarrow>
               (case set_marker_state w root_dir request ''applying'' d2 of
                  (Some e, d3) \<Rightarrow> abort_preflight w root_dir staged rid (''could not start apply: '' @ rw_exn_text w e) d3
                | (None, d3) \<Rightarrow> replace_state w t root_dir staged plan rid backup d3)))"

definition apply_pending_restore :: "rworld \<Rightarrow> restore_targets \<Rightarrow> pypath \<Rightarrow> pypath \<Rightarrow> bool \<Rightarrow> restore_limits \<Rightarrow> disk \<Rightarrow> (restore_exn + apply_result) \<times> disk" where
  "apply_pending_restore w t root_dir safety enabled lims d =
     (if \<not> is_file (marker_path root_dir) d then (outcome_of ''no_pending'' True JNull, d)
      else
        (case read_json_file w (marker_path root_dir) d of
           (Inl e, d1) \<Rightarrow> (Inl e, d1)
         | (Inr request, d1) \<Rightarrow>
             let rid = dget ''restore_id'' request; state = state_text request in
             if state = ''applying'' then
               (outcome_of ''failed_partial'' False rid,
                safe_write_status w root_dir rid ''failed_partial''
                  ''interrupted apply detected; recover from safety backup and clear marker'' None d1)
             else if \<not> enabled then (outcome_of ''disabled_skip'' True rid, d1)
             else if state \<noteq> ''staged'' then
               (outcome_of ''failed_preflight'' True rid,
                safe_write_status w root_dir rid ''failed_preflight'' (''unexpected marker state: '' @ state) None
                  (unlink_if_exists w (marker_path root_dir) d1))
             else apply_staged w t root_dir safety lims request d1))"

text \<open>\<open>_apply_pending_restore_at_boot\<close>: whether the workers start. An exception starts them.\<close>

definition apply_at_boot :: "rworld \<Rightarrow> restore_targets \<Rightarrow> pypath \<Rightarrow> pypath \<Rightarrow> bool \<Rightarrow> restore_limits \<Rightarrow> disk \<Rightarrow> bool \<times> disk" where
  "apply_at_boot w t root_dir safety enabled lims d =
     (case apply_pending_restore w t root_dir safety enabled lims d of
        (Inl e, d1) \<Rightarrow> (True, d1)
      | (Inr r, d1) \<Rightarrow> (ar_workers r, d1))"

section \<open>Requests\<close>

type_synonym restore_answer = "dict \<times> nat"

definition refused_answer :: "string \<Rightarrow> nat \<Rightarrow> restore_answer" where
  "refused_answer msg code = ([(''status'', JBool False), (''error'', JStr msg)], code)"

definition restore_public_payload :: "dict \<Rightarrow> dict" where
  "restore_public_payload payload =
     [(''status'', JBool True), (''restore_id'', dget ''restore_id'' payload), (''state'', dget ''state'' payload),
      (''created_at'', dget ''created_at'' payload), (''restart_required'', JBool (dget ''state'' payload = JStr ''staged'')),
      (''source_name'', dget ''source_name'' payload), (''plan'', dget ''plan'' payload),
      (''message'', JStr ''restore staged; restart Mintarr to apply'')]"

text \<open>The answer to the two expected exceptions; the others become a server error.\<close>

definition answer_of :: "(restore_exn + dict) \<times> disk \<Rightarrow> (restore_exn + restore_answer) \<times> disk" where
  "answer_of r =
     (case r of
        (Inr payload, d) \<Rightarrow> (Inr (restore_public_payload payload, 202), d)
      | (Inl (Validation msg), d) \<Rightarrow> (Inr (refused_answer msg 400), d)
      | (Inl (State_Conflict msg), d) \<Rightarrow> (Inr (refused_answer msg 409), d)
      | (Inl (Not_Found msg), d) \<Rightarrow> (Inr (refused_answer msg 409), d)
      | (Inl e, d) \<Rightarrow> (Inl e, d))"

definition restore_post :: "rworld \<Rightarrow> pypath \<Rightarrow> restore_limits \<Rightarrow> pypath list \<Rightarrow> bool \<Rightarrow> (string \<times> content) option \<Rightarrow> json \<Rightarrow> disk \<Rightarrow>
    (restore_exn + restore_answer) \<times> disk" where
  "restore_post w root_dir lims allowed enabled upload body d =
     (if \<not> enabled then (Inr (refused_answer ''restore disabled'' 403), d)
      else
        let path = dget ''backup_path'' (as_dict body);
            has_file = (case upload of Some (n, _) \<Rightarrow> n \<noteq> [] | None \<Rightarrow> False);
            has_path = (case path of JStr s \<Rightarrow> py_strip s \<noteq> [] | _ \<Rightarrow> False) in
        if has_file = has_path
        then (Inr (refused_answer ''provide exactly one of multipart file or backup_path'' 400), d)
        else
          (case (upload, path) of
             (Some (n, c), _) \<Rightarrow>
               if has_file then answer_of (stage_restore_upload w root_dir lims ''api-key'' n c d)
               else answer_of (stage_restore_from_path w root_dir lims ''api-key'' allowed (path_of (py_strip (py_str path))) d)
           | (None, _) \<Rightarrow> answer_of (stage_restore_from_path w root_dir lims ''api-key'' allowed (path_of (py_strip (py_str path))) d)))"

definition restore_status_get :: "rworld \<Rightarrow> pypath \<Rightarrow> bool \<Rightarrow> disk \<Rightarrow> (restore_exn + restore_answer) \<times> disk" where
  "restore_status_get w root_dir enabled d =
     (case restore_status w root_dir d of
        (Inl e, d1) \<Rightarrow> (Inl e, d1)
      | (Inr payload, d1) \<Rightarrow> (Inr (dset ''enabled'' (JBool enabled) payload, 200), d1))"

definition restore_delete :: "rworld \<Rightarrow> pypath \<Rightarrow> bool \<Rightarrow> disk \<Rightarrow> (restore_exn + restore_answer) \<times> disk" where
  "restore_delete w root_dir enabled d =
     (if \<not> enabled then (Inr (refused_answer ''restore disabled'' 403), d)
      else
        (case cancel_staged_restore w root_dir d of
           (Inr payload, d1) \<Rightarrow> (Inr (dupdate payload [(''status'', JBool True)], 200), d1)
         | (Inl (Not_Found msg), d1) \<Rightarrow> (Inr (refused_answer msg 404), d1)
         | (Inl (State_Conflict msg), d1) \<Rightarrow> (Inr (refused_answer msg 409), d1)
         | (Inl e, d1) \<Rightarrow> (Inl e, d1)))"

section \<open>What an operation may touch\<close>

text \<open>The states after \<open>d\<close>, newest first, are \<open>ms\<close>, and all of them agree with \<open>d\<close> outside \<open>A\<close>.\<close>

definition disk_states :: "disk \<Rightarrow> files list" where
  "disk_states d = rs_files d # rs_past d"

definition same_outside :: "pypath set \<Rightarrow> files \<Rightarrow> files \<Rightarrow> bool" where
  "same_outside A fs gs \<longleftrightarrow> (\<forall>p. p \<notin> A \<longrightarrow> map_of fs p = map_of gs p)"

definition touches :: "pypath set \<Rightarrow> disk \<Rightarrow> disk \<Rightarrow> bool" where
  "touches A d d' \<longleftrightarrow>
     (\<exists>ms. disk_states d' = ms @ disk_states d \<and> (\<forall>F\<in>set ms. same_outside A F (rs_files d)))"

lemma same_outside_refl [simp]: "same_outside A F F"
  by (simp add: same_outside_def)

lemma same_outside_trans: "same_outside A F G \<Longrightarrow> same_outside A G H \<Longrightarrow> same_outside A F H"
  by (simp add: same_outside_def)

lemma same_outside_sym: "same_outside A F G \<Longrightarrow> same_outside A G F"
  by (simp add: same_outside_def)

lemma same_outside_mono: "same_outside A F G \<Longrightarrow> A \<subseteq> B \<Longrightarrow> same_outside B F G"
  by (auto simp: same_outside_def)

lemma touches_refl [simp, intro]: "touches A d d"
  unfolding touches_def by (rule exI[of _ "[]"]) simp

lemma touches_files: "touches A d d' \<Longrightarrow> same_outside A (rs_files d') (rs_files d)"
  by (auto simp: touches_def disk_states_def Cons_eq_append_conv)

lemma touches_state: "touches A d d' \<Longrightarrow> F \<in> set (disk_states d') \<Longrightarrow> F \<in> set (disk_states d) \<or> same_outside A F (rs_files d)"
  by (auto simp: touches_def)

lemma touches_trans:
  assumes "touches A d d1" and "touches A d1 d2"
  shows "touches A d d2"
proof -
  from assms obtain ms ns where m: "disk_states d1 = ms @ disk_states d" "\<forall>F\<in>set ms. same_outside A F (rs_files d)"
    and n: "disk_states d2 = ns @ disk_states d1" "\<forall>F\<in>set ns. same_outside A F (rs_files d1)"
    by (auto simp: touches_def)
  have "\<forall>F\<in>set (ns @ ms). same_outside A F (rs_files d)"
    using m(2) n(2) touches_files[OF assms(1)] by (auto intro: same_outside_trans)
  with m(1) n(1) show ?thesis unfolding touches_def by (intro exI[of _ "ns @ ms"]) simp
qed

lemma touches_mono: "touches A d d' \<Longrightarrow> A \<subseteq> B \<Longrightarrow> touches B d d'"
  by (force simp: touches_def intro: same_outside_mono)

lemma touches_io [simp]: "touches A d (d'\<lparr>rs_io := n\<rparr>) = touches A d d'"
  by (simp add: touches_def disk_states_def)

lemma touches_io_left [simp]: "touches A (d\<lparr>rs_io := n\<rparr>) d' = touches A d d'"
  by (simp add: touches_def disk_states_def)

lemma touches_change:
  assumes "\<And>fs. same_outside A (f fs) fs"
  shows "touches A d (change_files f (d\<lparr>rs_io := n\<rparr>))"
  unfolding touches_def by (rule exI[of _ "[f (rs_files d)]"]) (simp add: change_files_def disk_states_def assms)

lemma touches_make_dir: "make_dir w d = (r, d') \<Longrightarrow> touches A d d'"
  by (auto simp: make_dir_def attempt_def)

lemma touches_write: "write_file w p c d = (r, d') \<Longrightarrow> p \<in> A \<Longrightarrow> touches A d d'"
  by (auto simp: write_file_def attempt_def same_outside_def update_conv' split: io_outcome.splits intro!: touches_change)

lemma touches_replace: "replace_file w a b d = (r, d') \<Longrightarrow> a \<in> A \<Longrightarrow> b \<in> A \<Longrightarrow> touches A d d'"
  by (auto simp: replace_file_def attempt_def same_outside_def update_conv' delete_conv' split: option.splits if_splits
      intro!: touches_change)

lemma touches_unlink_file: "unlink_file w p d = (r, d') \<Longrightarrow> p \<in> A \<Longrightarrow> touches A d d'"
  by (auto simp: unlink_file_def attempt_def same_outside_def delete_conv' split: if_splits intro!: touches_change)

lemma touches_unlink: "p \<in> A \<Longrightarrow> touches A d (unlink_if_exists w p d)"
  by (auto simp: unlink_if_exists_def intro: touches_unlink_file[OF surjective_pairing])

lemma then_do_cases:
  assumes "then_do r f = (x, d')"
    and "\<And>e d. r = (Some e, d) \<Longrightarrow> x = Some e \<Longrightarrow> d' = d \<Longrightarrow> thesis" and "\<And>d. r = (None, d) \<Longrightarrow> f d = (x, d') \<Longrightarrow> thesis"
  shows thesis
  using assms by (auto simp: then_do_def split: prod.splits option.splits)

lemma touches_write_and_replace:
  assumes "write_and_replace w tmp dest c d = (r, d')" and "tmp \<in> A" "dest \<in> A"
  shows "touches A d d'"
proof -
  obtain x d1 where t: "then_do (write_file w tmp c d) (replace_file w tmp dest) = (x, d1)" by fastforce
  with assms have "touches A d d1"
    by (elim then_do_cases) (auto intro: touches_trans touches_write touches_replace)
  then show ?thesis using assms t by (auto simp: write_and_replace_def intro: touches_trans touches_unlink)
qed

lemma same_outsideD: "same_outside A F G \<Longrightarrow> p \<notin> A \<Longrightarrow> map_of F p = map_of G p"
  unfolding same_outside_def by blast

text \<open>A replacement that succeeds leaves the content at its destination.\<close>

lemma write_and_replace_done:
  assumes "write_and_replace w tmp dest c d = (None, d')" and "tmp \<noteq> dest"
  shows "map_of (rs_files d') dest = Some c"
proof -
  from assms(1) obtain d1 where t: "then_do (write_file w tmp c d) (replace_file w tmp dest) = (None, d1)"
    and d': "d' = unlink_if_exists w tmp d1"
    by (auto simp: write_and_replace_def split: prod.splits)
  from t assms(2) have "map_of (rs_files d1) dest = Some c"
    by (elim then_do_cases)
      (auto simp: write_file_def replace_file_def attempt_def change_files_def update_conv' split: io_outcome.splits option.splits if_splits)
  moreover have "same_outside {tmp} (rs_files d') (rs_files d1)"
    unfolding d' by (rule touches_files[OF touches_unlink]) simp
  ultimately show ?thesis using assms(2) by (simp add: same_outsideD)
qed

section \<open>Crash safety\<close>

text \<open>The files that a restore may replace, the files of the restore itself, and the safety backup.\<close>

definition dest_paths :: "restore_targets \<Rightarrow> pypath set" where
  "dest_paths t = {rt_state_db t} \<union> {child_of (child_of (rt_output t) j) ''verification.json'' | j. True} \<union>
     {child_of d n | d n. d \<in> snd ` set (rt_archives t)} \<union> snd ` set (rt_logs t)"

definition state_paths :: "restore_targets \<Rightarrow> pypath set" where
  "state_paths t = dest_paths t \<union> (\<lambda>p. beside p (''.'' @ name_of p @ ''.restore.tmp'')) ` dest_paths t \<union>
     {beside (rt_state_db t) (name_of (rt_state_db t) @ s) | s. s \<in> {''-wal'', ''-shm''}}"

definition own_paths :: "pypath \<Rightarrow> pypath \<Rightarrow> pypath set" where
  "own_paths root_dir staged = {marker_path root_dir, status_path root_dir, tmp_of root_dir REQUEST_FILE, tmp_of root_dir STATUS_FILE, staged}"

definition safety_paths :: "pypath \<Rightarrow> pypath set" where
  "safety_paths sdir = {child_of sdir SAFETY_NAME, child_of sdir (''.'' @ SAFETY_NAME @ ''.tmp'')}"

definition separate_layout :: "restore_targets \<Rightarrow> pypath \<Rightarrow> pypath \<Rightarrow> pypath \<Rightarrow> bool" where
  "separate_layout t root_dir staged sdir \<longleftrightarrow>
     state_paths t \<inter> own_paths root_dir staged = {} \<and> state_paths t \<inter> safety_paths sdir = {} \<and>
     safety_paths sdir \<inter> own_paths root_dir staged = {}"

lemma entry_target_dest: "entry_target t en = Some p \<Longrightarrow> p \<in> dest_paths t"
  by (cases "re_kind en") (force simp: entry_target_def dest_paths_def Let_def split: if_splits dest: map_of_SomeD)+

lemma touches_atomic_write:
  assumes "atomic_write w p c d = (r, d')" and "p \<in> dest_paths t"
  shows "touches (state_paths t) d d'"
  using assms(1) unfolding atomic_write_def
proof (rule then_do_cases)
  fix d1 assume m: "make_dir w d = (None, d1)"
    and x: "write_and_replace w (beside p (''.'' @ name_of p @ ''.restore.tmp'')) p c d1 = (r, d')"
  have "touches (state_paths t) d1 d'"
    using assms(2) by (intro touches_write_and_replace[OF x]) (auto simp: state_paths_def)
  with touches_make_dir[OF m] show ?thesis by (rule touches_trans)
qed (auto intro: touches_make_dir)

lemma touches_wal_shm: "touches (state_paths t) d (remove_wal_shm w (rt_state_db t) d)"
  unfolding remove_wal_shm_def by (rule touches_trans[OF touches_unlink touches_unlink]) (auto simp: state_paths_def)

lemma db_dest: "rt_state_db t \<in> dest_paths t"
  by (simp add: dest_paths_def)

lemma touches_databases: "apply_databases w t ms ens d = (r, d') \<Longrightarrow> touches (state_paths t) d d'"
proof (induction ens arbitrary: d)
  case (Cons en ens)
  show ?case
  proof (cases "re_kind en = State_Db")
    case True
    then show ?thesis
    proof (cases "read_named ms (re_name en)")
      case (Inr c)
      from Cons.prems True Inr have "then_do (atomic_write w (rt_state_db t) c d)
          (\<lambda>d1. apply_databases w t ms ens (remove_wal_shm w (rt_state_db t) d1)) = (r, d')" by simp
      then show ?thesis
        by (rule then_do_cases)
          (auto dest!: touches_atomic_write[OF _ db_dest] Cons.IH intro: touches_trans[OF _ touches_trans[OF touches_wal_shm]])
    qed (use Cons.prems in auto)
  qed (use Cons in auto)
qed simp

lemma touches_evidence: "apply_evidence w t ms ens d = (r, d') \<Longrightarrow> touches (state_paths t) d d'"
proof (induction ens arbitrary: d)
  case (Cons en ens)
  show ?case
  proof (cases "re_kind en = State_Db")
    case False
    with Cons.prems consider (goes) dest c where "entry_target t en = Some dest"
        "then_do (atomic_write w dest c d) (apply_evidence w t ms ens) = (r, d')" | (same) "d' = d"
      by (auto split: option.splits sum.splits)
    then show ?thesis
    proof cases
      case goes
      from goes(2) show ?thesis
        by (rule then_do_cases)
          (auto dest!: touches_atomic_write[OF _ entry_target_dest[OF goes(1)]] Cons.IH intro: touches_trans)
    qed simp
  qed (use Cons in auto)
qed simp

lemma touches_entries: "apply_entries w t staged plan d = (r, d') \<Longrightarrow> touches (state_paths t) d d'"
proof -
  assume e: "apply_entries w t staged plan d = (r, d')"
  let ?d1 = "d\<lparr>rs_io := Suc (rs_io d)\<rparr>"
  from e consider (go) ms where "then_do (apply_databases w t ms (rp_entries plan) ?d1)
      (apply_evidence w t ms (rp_entries plan)) = (r, d')" | (same) "d' = ?d1"
    by (auto simp: apply_entries_def attempt_def split: option.splits io_outcome.splits)
  then show ?thesis
  proof cases
    case go
    then have "touches (state_paths t) ?d1 d'"
      by (rule then_do_cases) (auto dest!: touches_databases touches_evidence intro: touches_trans simp del: touches_io_left)
    then show ?thesis by simp
  qed simp
qed

lemma touches_status: "touches (own_paths root_dir staged) d (safe_write_status w root_dir rid st detail b d)"
  unfolding safe_write_status_def write_status_file_def Let_def
  by (rule touches_write_and_replace[OF surjective_pairing]) (simp_all add: own_paths_def)

lemma touches_marker: "set_marker_state w root_dir request st d = (r, d') \<Longrightarrow> touches (own_paths root_dir staged) d d'"
  unfolding set_marker_state_def by (erule touches_write_and_replace) (simp_all add: own_paths_def)

lemma touches_cleared:
  "touches (own_paths root_dir staged) d
     (safe_write_status w root_dir rid st detail b (unlink_if_exists w staged (unlink_if_exists w (marker_path root_dir) d)))"
proof -
  have m: "marker_path root_dir \<in> own_paths root_dir staged" "staged \<in> own_paths root_dir staged" by (simp_all add: own_paths_def)
  show ?thesis
    by (rule touches_trans[OF touches_trans[OF touches_unlink[OF m(1)] touches_unlink[OF m(2)]] touches_status])
qed

lemma touches_abort:
  "abort_preflight w root_dir staged rid detail d = (r, d') \<Longrightarrow> touches (own_paths root_dir staged) d d'"
  by (auto simp: abort_preflight_def intro: touches_cleared)

definition same_state :: "restore_targets \<Rightarrow> files \<Rightarrow> files \<Rightarrow> bool" where
  "same_state t = same_outside (- state_paths t)"

text \<open>A state of the files from which the next boot keeps the workers off, whatever its configuration: the marker says
  that an apply was interrupted.\<close>

definition marked_applying :: "pypath \<Rightarrow> files \<Rightarrow> bool" where
  "marked_applying root_dir F \<longleftrightarrow> (\<exists>rq. map_of F (marker_path root_dir) = Some (Doc (JObj rq)) \<and> dget ''state'' rq = JStr ''applying'')"

definition recovery_point :: "rworld \<Rightarrow> restore_targets \<Rightarrow> pypath \<Rightarrow> files \<Rightarrow> files \<Rightarrow> bool" where
  "recovery_point w t sdir fs F \<longleftrightarrow>
     (\<exists>z. build_backup_zip (rw_codec w) (rw_size w) t fs = Some z \<and> map_of F (child_of sdir SAFETY_NAME) = Some z)"

lemma boot_fails_closed:
  assumes "marked_applying root_dir (rs_files d)" and "rw_io w (rs_io d) = Works"
  shows "fst (apply_at_boot w t root_dir safety en lims d) = False"
proof -
  from assms(1) obtain rq where m: "map_of (rs_files d) (marker_path root_dir) = Some (Doc (JObj rq))"
    and st: "dget ''state'' rq = JStr ''applying''" by (auto simp: marked_applying_def)
  have "state_text rq = ''applying''" by (simp add: state_text_def st py_or_def py_str_def)
  moreover have "is_file (marker_path root_dir) d" by (simp add: is_file_def m)
  ultimately show ?thesis
    using assms(2) m by (simp add: apply_at_boot_def apply_pending_restore_def read_json_file_def attempt_def content_json_def
        outcome_of_def Let_def)
qed

lemma touches_keeps:
  assumes "touches A d d'" and "F \<in> set (disk_states d')" and "p \<notin> A"
  shows "F \<in> set (disk_states d) \<or> map_of F p = map_of (rs_files d) p"
  using touches_state[OF assms(1,2)] same_outsideD[OF _ assms(3)] by blast

text \<open>The states of the second phase: the marker and the safety backup stand, until the apply is complete.\<close>

lemma replace_state_crash:
  assumes "replace_state w t root_dir staged plan rid backup d = (r, d')" and "separate_layout t root_dir staged sdir"
    and "marked_applying root_dir (rs_files d)" and "recovery_point w t sdir fs (rs_files d)" and "F \<in> set (disk_states d')"
  shows "F \<in> set (disk_states d) \<or> (marked_applying root_dir F \<and> recovery_point w t sdir fs F) \<or>
    ((\<exists>a. r = Inr a \<and> ar_outcome a = ''applied'') \<and> same_state t F (rs_files d'))"
proof -
  let ?own = "own_paths root_dir staged"
  have sep: "marker_path root_dir \<notin> state_paths t" "child_of sdir SAFETY_NAME \<notin> state_paths t"
    "child_of sdir SAFETY_NAME \<notin> ?own" "?own \<subseteq> - state_paths t"
    using assms(2) by (auto simp: separate_layout_def own_paths_def[THEN eqset_imp_iff] safety_paths_def)
  obtain x d1 where ae: "apply_entries w t staged plan d = (x, d1)" by fastforce
  have step1: "F \<in> set (disk_states d1) \<Longrightarrow> F \<in> set (disk_states d) \<or> (marked_applying root_dir F \<and> recovery_point w t sdir fs F)"
    using touches_keeps[OF touches_entries[OF ae] _ sep(1)] touches_keeps[OF touches_entries[OF ae] _ sep(2)] assms(3,4)
    unfolding marked_applying_def recovery_point_def by metis
  have kept: "map_of (rs_files d1) (marker_path root_dir) = map_of (rs_files d) (marker_path root_dir)"
    "map_of (rs_files d1) (child_of sdir SAFETY_NAME) = map_of (rs_files d) (child_of sdir SAFETY_NAME)"
    using same_outsideD[OF touches_files[OF touches_entries[OF ae]]] sep by blast+
  show ?thesis
  proof (cases x)
    case (Some e)
    let ?A = "{status_path root_dir, tmp_of root_dir STATUS_FILE}"
    have "touches ?A d1 d'"
      using assms(1) ae Some unfolding replace_state_def safe_write_status_def write_status_file_def Let_def
      by (auto intro!: touches_write_and_replace[OF surjective_pairing])
    moreover have "marker_path root_dir \<notin> ?A" "child_of sdir SAFETY_NAME \<notin> ?A"
      using sep(3) by (auto simp: own_paths_def marker_path_def status_path_def tmp_of_def child_of_def REQUEST_FILE_def STATUS_FILE_def)
    ultimately have "F \<in> set (disk_states d1) \<or> (marked_applying root_dir F \<and> recovery_point w t sdir fs F)"
      using touches_keeps[OF _ assms(5)] kept assms(3,4) unfolding marked_applying_def recovery_point_def by metis
    with step1 show ?thesis by blast
  next
    case None
    with assms(1) ae have r: "r = outcome_of ''applied'' True rid"
      and d': "d' = safe_write_status w root_dir rid ''applied'' ''restore applied'' (Some backup)
         (unlink_if_exists w staged (unlink_if_exists w (marker_path root_dir) d1))"
      by (simp_all add: replace_state_def)
    have t: "touches ?own d1 d'"
      unfolding d' by (rule touches_cleared)
    have "F \<in> set (disk_states d1) \<or> same_state t F (rs_files d')"
      using touches_state[OF t assms(5)] touches_files[OF t] unfolding same_state_def
      by (meson same_outside_mono[OF _ sep(4)] same_outside_sym same_outside_trans)
    with step1 r show ?thesis by (auto simp: outcome_of_def)
  qed
qed

lemma separate_own: "separate_layout t root_dir staged sdir \<Longrightarrow> own_paths root_dir staged \<subseteq> - state_paths t"
  by (auto simp: separate_layout_def)

lemma separate_safety: "separate_layout t root_dir staged sdir \<Longrightarrow> safety_paths sdir \<subseteq> - state_paths t"
  by (auto simp: separate_layout_def)

lemma marker_set:
  assumes "set_marker_state w root_dir request st d = (None, d')"
  shows "\<exists>rq. map_of (rs_files d') (marker_path root_dir) = Some (Doc (JObj rq)) \<and> dget ''state'' rq = JStr st"
proof -
  have ne: "tmp_of root_dir REQUEST_FILE \<noteq> marker_path root_dir"
    by (simp add: tmp_of_def marker_path_def child_of_def REQUEST_FILE_def)
  show ?thesis using write_and_replace_done[OF assms[unfolded set_marker_state_def] ne] by (simp del: dupdate_simps)
qed

lemma safety_written:
  assumes "write_safety_backup w t safety rid d = (r, d')" and "safety_dir safety rid = Some sdir"
  shows "touches (safety_paths sdir) d d' \<and>
    (\<forall>b. r = Inr b \<longrightarrow> b = child_of sdir SAFETY_NAME \<and>
       (\<exists>z. build_backup_zip (rw_codec w) (rw_size w) t (rs_files d) = Some z \<and> map_of (rs_files d') b = Some z))"
proof -
  let ?dest = "child_of sdir SAFETY_NAME" and ?tmp = "child_of sdir (''.'' @ SAFETY_NAME @ ''.tmp'')"
  have ne: "?tmp \<noteq> ?dest" by (simp add: child_of_def SAFETY_NAME_def)
  have inA: "?tmp \<in> safety_paths sdir" "?dest \<in> safety_paths sdir" by (simp_all add: safety_paths_def)
  obtain x d1 where m: "make_dir w d = (x, d1)" by fastforce
  have same: "rs_files d1 = rs_files d" using m by (auto simp: make_dir_def attempt_def)
  note t1 = touches_make_dir[OF m, of "safety_paths sdir"]
  show ?thesis
  proof (cases "x = None \<and> build_backup_zip (rw_codec w) (rw_size w) t (rs_files d1) \<noteq> None")
    case True
    then obtain z where z: "x = None" "build_backup_zip (rw_codec w) (rw_size w) t (rs_files d1) = Some z" by blast
    obtain y d2 where wr: "write_and_replace w ?tmp ?dest z d1 = (y, d2)" by fastforce
    have "touches (safety_paths sdir) d d2"
      by (rule touches_trans[OF t1 touches_write_and_replace[OF wr inA]])
    with assms m z wr write_and_replace_done[OF _ ne] show ?thesis
      by (cases y) (auto simp: write_safety_backup_def Let_def same)
  next
    case False
    with assms m have "d' = d1 \<or> d' = unlink_if_exists w ?tmp d1" and "\<exists>e. r = Inl e"
      by (auto simp: write_safety_backup_def Let_def split: option.splits)
    then show ?thesis using t1 touches_trans[OF t1 touches_unlink[OF inA(1)]] by auto
  qed
qed

lemma apply_staged_crash:
  assumes ap: "apply_staged w t root_dir safety lims request d = (r, d')" and past: "disk_states d = [rs_files d]"
    and sd: "safety_dir safety (dget ''restore_id'' request) = Some sdir"
    and lay: "separate_layout t root_dir (staged_zip_of request) sdir" and F: "F \<in> set (disk_states d')"
  shows "same_state t F (rs_files d) \<or> (marked_applying root_dir F \<and> recovery_point w t sdir (rs_files d) F) \<or>
    ((\<exists>a. r = Inr a \<and> ar_outcome a = ''applied'') \<and> same_state t F (rs_files d'))"
proof -
  let ?staged = "staged_zip_of request" and ?rid = "dget ''restore_id'' request"
  let ?A = "- state_paths t"
  note own = touches_mono[OF _ separate_own[OF lay]] and saf = touches_mono[OF _ separate_safety[OF lay]]
  have quiet: ?thesis if "touches ?A d d'"
    using touches_state[OF that F] past by (auto simp: same_state_def)
  obtain x d1 where rv: "revalidate w lims root_dir ?staged d = (x, d1)" by fastforce
  then have d1: "rs_files d1 = rs_files d" "rs_past d1 = rs_past d"
    by (auto simp: revalidate_def validate_at_def attempt_def split: if_splits)
  then have t1: "touches B d d1" for B unfolding touches_def by (intro exI[of _ "[]"]) (simp add: disk_states_def)
  show ?thesis
  proof (cases x)
    case (Inl e)
    with ap rv have "d' = d1 \<or> (\<exists>msg. abort_preflight w root_dir ?staged ?rid msg d1 = (r, d'))"
      by (cases e) (auto simp: apply_staged_def Let_def)
    then show ?thesis using t1 touches_trans[OF t1 own[OF touches_abort]] quiet by blast
  next
    case (Inr plan)
    obtain y d2 where sb: "write_safety_backup w t safety ?rid d1 = (y, d2)" by fastforce
    note s = safety_written[OF sb sd]
    have t2: "touches ?A d d2" by (rule touches_trans[OF t1 saf]) (use s in blast)
    show ?thesis
    proof (cases y)
      case (Inl e)
      with ap rv Inr sb have "abort_preflight w root_dir ?staged ?rid (''safety backup failed: '' @ rw_exn_text w e) d2 = (r, d')"
        by (simp add: apply_staged_def Let_def)
      then show ?thesis using touches_trans[OF t2 own[OF touches_abort]] quiet by blast
    next
      case safe: (Inr backup)
      obtain z d3 where mk: "set_marker_state w root_dir request ''applying'' d2 = (z, d3)" by fastforce
      have t3: "touches ?A d d3" by (rule touches_trans[OF t2 own[OF touches_marker[OF mk]]])
      show ?thesis
      proof (cases z)
        case (Some e)
        with ap rv Inr sb safe mk
        have "abort_preflight w root_dir ?staged ?rid (''could not start apply: '' @ rw_exn_text w e) d3 = (r, d')"
          by (simp add: apply_staged_def Let_def)
        then show ?thesis using touches_trans[OF t3 own[OF touches_abort]] quiet by blast
      next
        case None
        with ap rv Inr sb safe mk have rs: "replace_state w t root_dir ?staged plan ?rid backup d3 = (r, d')"
          by (simp add: apply_staged_def Let_def)
        have "child_of sdir SAFETY_NAME \<notin> own_paths root_dir ?staged"
          using lay by (auto simp: separate_layout_def safety_paths_def)
        then have "map_of (rs_files d3) (child_of sdir SAFETY_NAME) = map_of (rs_files d2) (child_of sdir SAFETY_NAME)"
          using same_outsideD[OF touches_files[OF touches_marker[OF mk]]] by blast
        then have "recovery_point w t sdir (rs_files d) (rs_files d3)"
          using s safe d1(1) by (auto simp: recovery_point_def)
        moreover have "marked_applying root_dir (rs_files d3)"
          using marker_set[OF mk[unfolded None]] by (simp add: marked_applying_def)
        moreover have "same_state t F (rs_files d)" if "F \<in> set (disk_states d3)"
          using touches_state[OF t3 that] past by (auto simp: same_state_def)
        ultimately show ?thesis using replace_state_crash[OF rs lay _ _ F, of "rs_files d"] by blast
      qed
    qed
  qed
qed

end
