(* ===== verification/Restore_Effects.thy ===== *)
theory Restore_Effects
  imports Restore_Apply
begin

text \<open>
  What restores do (\<open>app/restore.py\<close>, \<open>app/backup.py\<close>): the plan of an accepted zip, what staging leaves behind, that a
  complete restore of a backup brings back every file of it, and the places where the contract has gaps.
\<close>

lemma child_simps [simp]: "parent_of (child_of p n) = p" "name_of (child_of p n) = n" "in_directory q (child_of p n) \<longleftrightarrow> p = q"
  by (auto simp: parent_of_def child_of_def name_of_def in_directory_def)

lemma child_of_inject [simp]: "child_of p m = child_of p n \<longleftrightarrow> m = n"
  by (simp add: child_of_def)

section \<open>Accepted zips\<close>

definition key_of_parts :: "restore_kind \<Rightarrow> string list \<Rightarrow> bool" where
  "key_of_parts k parts \<longleftrightarrow>
     (case k of
        State_Db \<Rightarrow> parts = [''state_db.sqlite'']
      | Sidecar \<Rightarrow> (\<exists>j. parts = [''sidecars'', j, ''verification.json''] \<and> is_jid j)
      | Archive \<Rightarrow> (\<exists>l n. parts = [''archive'', l, n] \<and> l \<in> set ARCHIVE_LABELS \<and> suffix ''.json'' n \<and> n \<noteq> ''.json'')
      | Log \<Rightarrow> (\<exists>n. parts = [''logs'', n] \<and> n \<in> set LOG_NAMES))"

lemma classify_partsD:
  assumes "classify_parts m parts = Inr en"
  shows "key_of_parts (re_kind en) parts \<and> re_name en = zm_name m \<and> re_size en = zm_size m \<and>
    (re_kind en \<noteq> State_Db \<longrightarrow> re_target_key en = py_join ''/'' parts)"
  using assms by (auto simp: classify_parts_def key_of_parts_def entry_of_def unknown_entry_def split: list.splits if_splits)

lemma validate_infoD:
  assumes "validate_info m = Inr en"
  shows "key_of_parts (re_kind en) (path_parts (zm_name m)) \<and> re_name en = zm_name m \<and> re_size en = zm_size m \<and> 0 \<le> zm_size m \<and>
    ''..'' \<notin> set (path_parts (zm_name m)) \<and> (re_kind en \<noteq> State_Db \<longrightarrow> re_target_key en = py_join ''/'' (path_parts (zm_name m)))"
  using assms by (auto simp: validate_info_def safe_parts_def Let_def dest: classify_partsD split: if_splits sum.splits)

lemma path_parts_plain: "w \<in> set (path_parts s) \<Longrightarrow> CHR ''/'' \<notin> set w \<and> w \<noteq> [] \<and> w \<noteq> ''.''"
  by (auto simp: path_parts_def dest: split_char_parts)

lemma target_key_parts:
  assumes "validate_info m = Inr en" and "re_kind en \<noteq> State_Db"
  shows "split_char (CHR ''/'') (re_target_key en) = path_parts (zm_name m)"
proof -
  have "path_parts (zm_name m) \<noteq> []"
    using validate_infoD[OF assms(1)] assms(2) by (cases "re_kind en") (auto simp: key_of_parts_def)
  then have "split_char (CHR ''/'') (py_join ''/'' (path_parts (zm_name m))) = path_parts (zm_name m)"
    by (rule split_join) (simp add: path_parts_plain)
  with validate_infoD[OF assms(1)] assms(2) show ?thesis by simp
qed

text \<open>A zip that was accepted: its entries are the members one by one.\<close>

lemma validate_membersD:
  assumes "validate_members cd lims seen n ms = Inr ens"
  shows "list_all2 (\<lambda>m en. validate_info m = Inr en \<and> validate_content cd m (re_kind en) = None \<and> re_size en \<le> rl_max_entry lims) ms ens \<and>
    distinct (map re_name ens) \<and> set (map re_name ens) \<inter> set seen = {} \<and>
    (n \<le> rl_max_total lims \<longrightarrow> n + sum_list (map re_size ens) \<le> rl_max_total lims)"
  using assms
proof (induction ms arbitrary: seen n ens)
  case (Cons m ms)
  from Cons.prems obtain en rest where e: "validate_info m = Inr en" "re_name en \<notin> set seen" "re_size en \<le> rl_max_entry lims"
      "n + re_size en \<le> rl_max_total lims" "validate_content cd m (re_kind en) = None"
    and r: "validate_members cd lims (re_name en # seen) (n + re_size en) ms = Inr rest" and ens: "ens = en # rest"
    by (auto split: sum.splits if_splits option.splits)
  from Cons.IH[OF r] e show ?case by (auto simp: ens)
qed simp

text \<open>Where the entries of an accepted zip go.\<close>

definition complete_targets :: "restore_targets \<Rightarrow> bool" where
  "complete_targets t \<longleftrightarrow> set ARCHIVE_LABELS \<subseteq> fst ` set (rt_archives t) \<and> set LOG_NAMES \<subseteq> fst ` set (rt_logs t)"

lemma lookup_member: "k \<in> fst ` set xs \<Longrightarrow> \<exists>v. map_of xs k = Some v"
  by (metis map_of_eq_None_iff not_None_eq)

lemma entry_target_exists:
  assumes "validate_info m = Inr en" and "re_kind en \<noteq> State_Db" and "complete_targets t"
  shows "\<exists>p. entry_target t en = Some p"
proof -
  note k = validate_infoD[OF assms(1), THEN conjunct1] and parts = target_key_parts[OF assms(1,2)]
  show ?thesis
  proof (cases "re_kind en")
    case Archive
    from k have "\<exists>l n. path_parts (zm_name m) = [''archive'', l, n] \<and> l \<in> set ARCHIVE_LABELS \<and> suffix ''.json'' n \<and> n \<noteq> ''.json''"
      by (simp only: key_of_parts_def Archive restore_kind.case)
    then obtain l n where pp: "path_parts (zm_name m) = [''archive'', l, n]" and l: "l \<in> set ARCHIVE_LABELS" by blast
    from l assms(3) have "l \<in> fst ` set (rt_archives t)" unfolding complete_targets_def by blast
    then obtain dir where "map_of (rt_archives t) l = Some dir" by (elim lookup_member[elim_format] exE)
    then show ?thesis by (simp add: entry_target_def parts Archive pp)
  next
    case Log
    from k have "\<exists>n. path_parts (zm_name m) = [''logs'', n] \<and> n \<in> set LOG_NAMES"
      by (simp only: key_of_parts_def Log restore_kind.case)
    then obtain n where pp: "path_parts (zm_name m) = [''logs'', n]" and n: "n \<in> set LOG_NAMES" by blast
    from n assms(3) have "n \<in> fst ` set (rt_logs t)" unfolding complete_targets_def by blast
    then obtain q where "map_of (rt_logs t) n = Some q" by (elim lookup_member[elim_format] exE)
    then show ?thesis by (simp add: entry_target_def parts Log pp)
  qed (use k assms(2) in \<open>auto simp: entry_target_def key_of_parts_def parts\<close>)
qed

lemma validate_zipD:
  assumes "validate_restore_zip cd lims c = Inr plan"
  shows "\<exists>ms. members_of cd c = Some ms \<and> int (length ms) \<le> rl_max_entries lims \<and>
    validate_members cd lims [] 0 ms = Inr (rp_entries plan) \<and> rp_total plan = sum_list (map re_size (rp_entries plan))"
  using assms by (auto simp: validate_restore_zip_def split: option.splits if_splits sum.splits)

text \<open>An accepted zip is within the limits, names no file twice, and every entry has a place that belongs to the program
  state; a sidecar goes to the directory of a job id.\<close>

theorem validated_plan_sound:
  assumes "validate_restore_zip cd lims c = Inr plan" and "0 \<le> rl_max_total lims" and "complete_targets t"
  shows "int (length (rp_entries plan)) \<le> rl_max_entries lims \<and> rp_total plan \<le> rl_max_total lims \<and>
    distinct (map re_name (rp_entries plan)) \<and>
    (\<forall>en\<in>set (rp_entries plan). 0 \<le> re_size en \<and> re_size en \<le> rl_max_entry lims \<and>
       (re_kind en \<noteq> State_Db \<longrightarrow> (\<exists>p. entry_target t en = Some p \<and> p \<in> dest_paths t)) \<and>
       (re_kind en = Sidecar \<longrightarrow> (\<exists>j. is_jid j \<and>
          entry_target t en = Some (child_of (child_of (rt_output t) j) ''verification.json''))))"
proof -
  from assms(1) obtain ms where ms: "int (length ms) \<le> rl_max_entries lims" "validate_members cd lims [] 0 ms = Inr (rp_entries plan)"
    and tot: "rp_total plan = sum_list (map re_size (rp_entries plan))"
    using validate_zipD by blast
  note v = validate_membersD[OF ms(2)]
  have len: "length (rp_entries plan) = length ms" using list_all2_lengthD[OF conjunct1[OF v]] by simp
  have each: "0 \<le> re_size en \<and> re_size en \<le> rl_max_entry lims \<and>
      (re_kind en \<noteq> State_Db \<longrightarrow> (\<exists>p. entry_target t en = Some p \<and> p \<in> dest_paths t)) \<and>
      (re_kind en = Sidecar \<longrightarrow> (\<exists>j. is_jid j \<and> entry_target t en = Some (child_of (child_of (rt_output t) j) ''verification.json'')))"
    if "en \<in> set (rp_entries plan)" for en
  proof -
    from that v obtain m where m: "validate_info m = Inr en" "re_size en \<le> rl_max_entry lims"
      by (auto simp: list_all2_conv_all_nth in_set_conv_nth)
    note d = validate_infoD[OF m(1)]
    have "\<exists>j. is_jid j \<and> entry_target t en = Some (child_of (child_of (rt_output t) j) ''verification.json'')"
      if "re_kind en = Sidecar"
      using d that target_key_parts[OF m(1)] by (auto simp: entry_target_def key_of_parts_def)
    with d m entry_target_exists[OF m(1) _ assms(3)] entry_target_dest show ?thesis by metis
  qed
  with v ms(1) assms(2) len show ?thesis by (simp add: tot)
qed

definition demo_codec :: codec where
  "demo_codec = \<lparr>cd_zip = (\<lambda>_. None), cd_json = (\<lambda>_. Bad_Json), cd_text = Some, cd_integrity = (\<lambda>_. Check_Ok), cd_snapshot = Some\<rparr>"

definition demo_targets :: restore_targets where
  "demo_targets = \<lparr>rt_state_db = path_of ''/config/state.db'', rt_output = path_of ''/out'',
     rt_archives = [(''blocked'', path_of ''/b''), (''discarded'', path_of ''/d''), (''expired'', path_of ''/e'')],
     rt_logs = [(''decisions.jsonl'', path_of ''/log/decisions.jsonl''), (''release_switch_audit.jsonl'', path_of ''/log/audit.jsonl'')]\<rparr>"

definition demo_files :: files where
  "demo_files = [(path_of ''/config/state.db'', Raw ''db''), (path_of ''/out/0123456789ab/01.flac'', Raw ''audio''),
     (path_of ''/d/0123456789cd.json'', Doc (JObj []))]"

definition demo_backup :: content where
  "demo_backup = the (build_backup_zip demo_codec (\<lambda>_. 1) demo_targets demo_files)"

theorem validated_plan_sound_witness:
  "rp_total (the (case validate_restore_zip demo_codec DEFAULT_LIMITS demo_backup of Inr p \<Rightarrow> Some p | _ \<Rightarrow> None)) \<le> 26843545600"
proof -
  have "case validate_restore_zip demo_codec DEFAULT_LIMITS demo_backup of Inr p \<Rightarrow> True | _ \<Rightarrow> False" by code_simp
  then obtain plan where p: "validate_restore_zip demo_codec DEFAULT_LIMITS demo_backup = Inr plan" by (auto split: sum.splits)
  have "complete_targets demo_targets" by (simp add: complete_targets_def demo_targets_def ARCHIVE_LABELS_def LOG_NAMES_def)
  from conjunct1[OF conjunct2[OF validated_plan_sound[OF p _ this]]] show ?thesis unfolding p by (simp add: DEFAULT_LIMITS_def)
qed

section \<open>Staging\<close>

lemma replace_keeps:
  assumes "write_and_replace w tmp dest c d = (Some e, d')" and "tmp \<noteq> dest"
  shows "map_of (rs_files d') dest = map_of (rs_files d) dest"
proof -
  obtain r d1 where t: "then_do (write_file w tmp c d) (replace_file w tmp dest) = (r, d1)" by fastforce
  with assms have r: "r = Some e" and d': "d' = unlink_if_exists w tmp d1" by (simp_all add: write_and_replace_def)
  have "map_of (rs_files d1) dest = map_of (rs_files d) dest"
    using t assms(2) unfolding r
    by (elim then_do_cases)
      (auto simp: write_file_def replace_file_def attempt_def change_files_def update_conv' split: io_outcome.splits option.splits if_splits)
  moreover have "same_outside {tmp} (rs_files d') (rs_files d1)"
    unfolding d' by (rule touches_files[OF touches_unlink]) simp
  ultimately show ?thesis using same_outsideD assms(2) by fastforce
qed

lemma move_done:
  assumes "then_do (write_file w tmp c d) (replace_file w tmp dest) = (None, d')"
  shows "map_of (rs_files d') dest = Some c"
  using assms by (elim then_do_cases)
    (auto simp: write_file_def replace_file_def attempt_def change_files_def update_conv' split: io_outcome.splits option.splits if_splits)

text \<open>Staging puts the zip in place and then the marker, or leaves no marker: a pending restore always has a zip that was
  accepted.\<close>

theorem staging_all_or_nothing:
  assumes "stage_content w root_dir lims actor source_name ext c d = (r, d')"
    and "staged = child_of root_dir (rw_id w @ ''.zip'')" and "tmp = child_of root_dir (''.'' @ rw_id w @ ext)"
    and "marker_path root_dir \<notin> {staged, tmp}" and "staged \<notin> {tmp, tmp_of root_dir REQUEST_FILE}"
  shows "(\<forall>payload. r = Inr payload \<longrightarrow> map_of (rs_files d') (marker_path root_dir) = Some (Doc (JObj payload)) \<and>
      dget ''state'' payload = JStr ''staged'' \<and> map_of (rs_files d') staged = Some c \<and>
      \<not> is_file (marker_path root_dir) d \<and> (\<exists>plan. validate_restore_zip (rw_codec w) lims c = Inr plan)) \<and>
    (\<forall>e. r = Inl e \<longrightarrow> map_of (rs_files d') (marker_path root_dir) = map_of (rs_files d) (marker_path root_dir))"
proof -
  let ?marker = "marker_path root_dir" and ?mtmp = "tmp_of root_dir REQUEST_FILE"
  have ne: "?mtmp \<noteq> ?marker" by (simp add: tmp_of_def marker_path_def child_of_def REQUEST_FILE_def)
  note at = assms(2,3)[symmetric, simplified]
  obtain x d1 where m: "make_dir w d = (x, d1)" by fastforce
  have same: "rs_files d1 = rs_files d" using m by (auto simp: make_dir_def attempt_def)
  have cleared: "same_outside {staged, tmp} (rs_files (unlink_if_exists w staged (unlink_if_exists w tmp y))) (rs_files y)" for y
    by (rule touches_files[OF touches_trans[OF touches_unlink touches_unlink]]) simp_all
  have keep: "map_of (rs_files (unlink_if_exists w staged (unlink_if_exists w tmp y))) ?marker = map_of (rs_files y) ?marker" for y
    using same_outsideD[OF cleared] assms(4) by blast
  show ?thesis
  proof (cases "x = None \<and> ensure_no_pending root_dir d1 = None")
    case False
    with assms(1) m have "d' = d1 \<and> (\<exists>e. r = Inl e)"
      by (cases x) (auto simp: stage_content_def split: option.splits)
    then show ?thesis by (auto simp: same)
  next
    case True
    then have fresh: "\<not> is_file ?marker d" using same by (simp add: ensure_no_pending_def is_file_def split: if_splits)
    obtain y d2 where mv: "then_do (write_file w tmp c d1) (replace_file w tmp staged) = (y, d2)" by fastforce
    have "touches {tmp, staged} d1 d2"
      using mv by (elim then_do_cases) (auto intro: touches_trans touches_write touches_replace)
    then have m2: "map_of (rs_files d2) ?marker = map_of (rs_files d) ?marker"
      using same_outsideD[OF touches_files, of "{tmp, staged}" d1 d2 ?marker] assms(4) same by auto
    show ?thesis
    proof (cases y)
      case (Some e)
      with assms(1) m True mv show ?thesis by (auto simp: stage_content_def Let_def at keep m2)
    next
      case None
      note zip = move_done[OF mv[unfolded None]]
      obtain v d3 where va: "validate_at w lims staged d2 = (v, d3)" by fastforce
      have same3: "rs_files d3 = rs_files d2" using va by (auto simp: validate_at_def attempt_def)
      show ?thesis
      proof (cases v)
        case (Inl e)
        with assms(1) m True mv None va show ?thesis
          by (auto simp: stage_content_def write_restore_marker_def Let_def at keep m2 same3)
      next
        case (Inr plan)
        let ?p = "marker_payload w lims actor source_name staged plan"
        have ok: "validate_restore_zip (rw_codec w) lims c = Inr plan"
          using va Inr zip by (auto simp: validate_at_def attempt_def split: io_outcome.splits)
        obtain z d4 where wr: "write_and_replace w ?mtmp ?marker (Doc (JObj ?p)) d3 = (z, d4)" by fastforce
        show ?thesis
        proof (cases z)
          case (Some e)
          with replace_keeps[OF wr[unfolded Some] ne] assms(1) m True mv None va Inr wr show ?thesis
            by (auto simp: stage_content_def write_restore_marker_def Let_def at keep m2 same3)
        next
          case placed: None
          have "touches {?mtmp, ?marker} d3 d4" by (rule touches_write_and_replace[OF wr]) simp_all
          then have "map_of (rs_files d4) staged = Some c"
            using same_outsideD[OF touches_files, of "{?mtmp, ?marker}" d3 d4 staged] assms(4,5) zip same3 by auto
          moreover have "r = Inr ?p" "d' = d4"
            using assms(1) m True mv None va Inr wr placed by (simp_all add: stage_content_def write_restore_marker_def Let_def at)
          ultimately show ?thesis using write_and_replace_done[OF wr[unfolded placed] ne] ok fresh by (simp add: marker_payload_def)
        qed
      qed
    qed
  qed
qed

section \<open>Gaps of the contract\<close>

lemma backup_members:
  assumes "build_backup_zip cd size_of t fs = Some z"
  shows "\<exists>db. z = Zip_File (db @ backup_sidecars size_of t fs @ concat (map (backup_archive size_of fs) (rt_archives t)) @
      concat (map (backup_log size_of fs) (rt_logs t))) \<and>
    (case map_of fs (rt_state_db t) of None \<Rightarrow> db = []
     | Some c \<Rightarrow> \<exists>sn. cd_snapshot cd c = Some sn \<and> db = [Zip_Member ''state_db.sqlite'' (size_of sn) is_file_mode (Got sn)])"
  using assms by (auto simp: build_backup_zip_def split: option.splits)

text \<open>(C35) A backup takes the sidecar of every directory below the output directory, a restore accepts only job ids: one
  directory with another name makes every backup unrestorable.\<close>

theorem odd_directory_breaks_backup:
  assumes "build_backup_zip cd size_of t fs = Some z"
    and "(child_of (child_of (rt_output t) n) ''verification.json'', c) \<in> set fs"
    and "\<not> is_jid n" and "CHR ''/'' \<notin> set n" and "n \<notin> {[], ''.'', ''..''}"
  shows "\<exists>e. validate_restore_zip cd lims z = Inl e"
proof -
  let ?m = "member_of_file size_of (''sidecars/'' @ n @ ''/verification.json'') c"
  have "?m \<in> set (backup_sidecars size_of t fs)"
    unfolding backup_sidecars_def set_map
    by (rule image_eqI[where x = "(child_of (child_of (rt_output t) n) ''verification.json'', c)"])
      (use assms(2) in \<open>simp_all add: sorted_files_def\<close>)
  moreover obtain db where zdb: "z = Zip_File (db @ backup_sidecars size_of t fs @ concat (map (backup_archive size_of fs) (rt_archives t)) @
      concat (map (backup_log size_of fs) (rt_logs t)))" using backup_members[OF assms(1)] by blast
  ultimately obtain ms where z: "z = Zip_File ms" and mem: "?m \<in> set ms" by auto
  have sp: "split_char (CHR ''/'') (''sidecars/'' @ n @ ''/verification.json'') = [''sidecars'', n, ''verification.json'']"
    using split_join[of "[''sidecars'', n, ''verification.json'']" "CHR ''/''"] assms(4) by simp
  then have pp: "path_parts (''sidecars/'' @ n @ ''/verification.json'') = [''sidecars'', n, ''verification.json'']"
    using assms(5) by (simp add: path_parts_def)
  have "validate_info ?m \<noteq> Inr en" for en
  proof
    assume "validate_info ?m = Inr en"
    from conjunct1[OF validate_infoD[OF this]] have "key_of_parts (re_kind en) [''sidecars'', n, ''verification.json'']"
      by (simp only: member_of_file_def zip_member.sel pp)
    with assms(3) show False by (cases "re_kind en") (simp_all add: key_of_parts_def)
  qed
  then have "\<exists>e. validate_members cd lims seen tot ms = Inl e" for seen tot
    using validate_membersD mem by (cases "validate_members cd lims seen tot ms") (fastforce simp: list_all2_conv_all_nth in_set_conv_nth)+
  then obtain e where "validate_members cd lims [] 0 ms = Inl e" by blast
  then show ?thesis by (simp add: validate_restore_zip_def z members_of_def)
qed

definition odd_files :: files where
  "odd_files = (path_of ''/out/my album/verification.json'', Doc (JObj [])) # demo_files"

theorem odd_directory_breaks_backup_witness:
  "\<exists>e. validate_restore_zip demo_codec DEFAULT_LIMITS (the (build_backup_zip demo_codec (\<lambda>_. 1) demo_targets odd_files)) = Inl e"
proof -
  have "\<exists>z. build_backup_zip demo_codec (\<lambda>_. 1) demo_targets odd_files = Some z"
    by (auto simp: build_backup_zip_def demo_codec_def split: option.splits)
  then obtain z where z: "build_backup_zip demo_codec (\<lambda>_. 1) demo_targets odd_files = Some z" ..
  have m: "(child_of (child_of (rt_output demo_targets) ''my album'') ''verification.json'', Doc (JObj [])) \<in> set odd_files" by code_simp
  have "\<not> is_jid ''my album''" by code_simp
  from odd_directory_breaks_backup[OF z m this] show ?thesis by (simp add: z)
qed

text \<open>Two members may name one file: the duplicate test compares the names as written, so \<open>./state_db.sqlite\<close> is accepted
  beside \<open>state_db.sqlite\<close>, and the database is replaced twice.\<close>

theorem same_target_twice:
  assumes "cd_integrity cd c1 = Check_Ok" and "cd_integrity cd c2 = Check_Ok" and "0 \<le> n" "n \<le> rl_max_entry lims"
    and "2 \<le> rl_max_entries lims" "2 * n \<le> rl_max_total lims"
  shows "\<exists>plan. validate_restore_zip cd lims (Zip_File [Zip_Member ''state_db.sqlite'' n is_file_mode (Got c1),
      Zip_Member ''./state_db.sqlite'' n is_file_mode (Got c2)]) = Inr plan \<and>
    map re_kind (rp_entries plan) = [State_Db, State_Db]"
proof -
  have mode: "\<not> is_symlink_or_special is_file_mode" by code_simp
  have parts: "safe_parts ''state_db.sqlite'' = Inr [''state_db.sqlite'']" "safe_parts ''./state_db.sqlite'' = Inr [''state_db.sqlite'']"
    by code_simp+
  have ends: "\<not> suffix ''/'' ''state_db.sqlite''" "\<not> suffix ''/'' ''./state_db.sqlite''" by code_simp+
  have v: "validate_info (Zip_Member x n is_file_mode (Got c)) = Inr (entry_of (Zip_Member x n is_file_mode (Got c)) State_Db ''state_db'' None)"
    if "x = ''state_db.sqlite'' \<or> x = ''./state_db.sqlite''" for x c
    using that assms(3) by (auto simp: validate_info_def Let_def mode parts ends classify_parts_def)
  show ?thesis
    using assms by (simp add: validate_restore_zip_def members_of_def v entry_of_def validate_content_def validate_sqlite_member_def read_member_def)
qed

theorem same_target_twice_witness:
  "\<exists>plan. validate_restore_zip demo_codec DEFAULT_LIMITS (Zip_File [Zip_Member ''state_db.sqlite'' 1 is_file_mode (Got (Raw ''x'')),
      Zip_Member ''./state_db.sqlite'' 1 is_file_mode (Got (Raw ''y''))]) = Inr plan \<and>
    map re_kind (rp_entries plan) = [State_Db, State_Db]"
  by (rule same_target_twice) (simp_all add: demo_codec_def DEFAULT_LIMITS_def)

text \<open>(C36) A marker that cannot be read at boot is taken for a rejected one: the workers start and the marker goes, also when the
  files are those of an apply that was interrupted.\<close>

theorem unreadable_marker_starts_workers:
  assumes "marked_applying root_dir (rs_files d)" and "rw_io w (rs_io d) \<noteq> Works" and "en"
    and "rw_io w (Suc (rs_io d)) = Works"
  shows "fst (apply_at_boot w t root_dir safety en lims d) \<and>
    \<not> is_file (marker_path root_dir) (snd (apply_at_boot w t root_dir safety en lims d))"
proof -
  let ?m = "marker_path root_dir"
  define rq where "rq = [(''state'', JStr ''unreadable''), (''path'', JStr (path_str ?m))]"
  let ?d1 = "d\<lparr>rs_io := Suc (rs_io d)\<rparr>"
  have f: "is_file ?m d" using assms(1) by (auto simp: marked_applying_def is_file_def)
  have rd: "read_json_file w ?m d = (Inr rq, ?d1)"
    using assms(2) by (cases "rw_io w (rs_io d)") (simp_all add: read_json_file_def attempt_def rq_def)
  have st: "state_text rq = ''unreadable''" by (simp add: rq_def state_text_def py_or_def py_str_def)
  let ?d2 = "unlink_if_exists w ?m ?d1"
  have gone: "\<not> is_file ?m ?d2"
    using assms(4) f by (simp add: unlink_if_exists_def unlink_file_def attempt_def is_file_def change_files_def delete_conv')
  have run: "apply_pending_restore w t root_dir safety en lims d =
      (outcome_of ''failed_preflight'' True (dget ''restore_id'' rq),
       safe_write_status w root_dir (dget ''restore_id'' rq) ''failed_preflight'' (''unexpected marker state: '' @ ''unreadable'') None ?d2)"
    using assms(3) f by (simp add: apply_pending_restore_def rd st Let_def)
  have "touches {status_path root_dir, tmp_of root_dir STATUS_FILE} ?d2 (safe_write_status w root_dir rid a b c ?d2)" for rid a b c
    unfolding safe_write_status_def write_status_file_def Let_def by (rule touches_write_and_replace[OF surjective_pairing]) simp_all
  moreover have "?m \<notin> {status_path root_dir, tmp_of root_dir STATUS_FILE}"
    by (simp add: marker_path_def status_path_def tmp_of_def REQUEST_FILE_def STATUS_FILE_def)
  ultimately have "map_of (rs_files (safe_write_status w root_dir rid a b c ?d2)) ?m = map_of (rs_files ?d2) ?m" for rid a b c
    using same_outsideD[OF touches_files] by blast
  with gone show ?thesis by (simp add: apply_at_boot_def run outcome_of_def is_file_def)
qed

definition demo_root :: pypath where
  "demo_root = path_of ''/config/restore_staging''"

definition demo_rworld :: "(nat \<Rightarrow> io_outcome) \<Rightarrow> rworld" where
  "demo_rworld io = \<lparr>rw_codec = demo_codec, rw_size = (\<lambda>_. 1), rw_io = io, rw_resolve = (\<lambda>p. p), rw_now = 5, rw_id = ''r1'',
     rw_exn_text = (\<lambda>_. [])\<rparr>"

definition demo_request :: "string \<Rightarrow> string \<Rightarrow> dict" where
  "demo_request state staged = [(''restore_id'', JStr ''r1''), (''state'', JStr state), (''staged_zip'', JStr staged)]"

definition demo_disk :: "string \<Rightarrow> string \<Rightarrow> files \<Rightarrow> disk" where
  "demo_disk state staged fs =
     \<lparr>rs_files = (marker_path demo_root, Doc (JObj (demo_request state staged))) # (path_of staged, demo_backup) # fs, rs_past = [], rs_io = 0\<rparr>"

abbreviation demo_staged :: string where
  "demo_staged \<equiv> ''/config/restore_staging/r1.zip''"

theorem unreadable_marker_starts_workers_witness:
  "fst (apply_at_boot (demo_rworld (\<lambda>n. if n = 0 then Refused else Works)) demo_targets demo_root (path_of ''/safe'') True DEFAULT_LIMITS
     (demo_disk ''applying'' demo_staged []))"
proof -
  have "marked_applying demo_root (rs_files (demo_disk ''applying'' demo_staged []))"
    by (simp add: marked_applying_def demo_disk_def demo_request_def)
  from conjunct1[OF unreadable_marker_starts_workers[OF this]] show ?thesis by (simp add: demo_rworld_def demo_disk_def)
qed

theorem staging_all_or_nothing_witness:
  "map_of (rs_files (snd (stage_content (demo_rworld (\<lambda>_. Works)) demo_root DEFAULT_LIMITS ''api-key'' ''b.zip'' ''.upload.tmp'' demo_backup
     \<lparr>rs_files = [], rs_past = [], rs_io = 0\<rparr>))) (path_of demo_staged) = Some demo_backup"
proof -
  let ?r = "stage_content (demo_rworld (\<lambda>_. Works)) demo_root DEFAULT_LIMITS ''api-key'' ''b.zip'' ''.upload.tmp'' demo_backup
     \<lparr>rs_files = [], rs_past = [], rs_io = 0\<rparr>"
  have "case fst ?r of Inr _ \<Rightarrow> True | Inl _ \<Rightarrow> False" by code_simp
  then obtain payload where p: "?r = (Inr payload, snd ?r)" by (cases ?r) (auto split: sum.splits)
  have st: "path_of demo_staged = child_of demo_root (rw_id (demo_rworld (\<lambda>_. Works)) @ ''.zip'')" by code_simp
  have ne: "marker_path demo_root \<notin> {path_of demo_staged, child_of demo_root (''.'' @ rw_id (demo_rworld (\<lambda>_. Works)) @ ''.upload.tmp'')}"
    "path_of demo_staged \<notin> {child_of demo_root (''.'' @ rw_id (demo_rworld (\<lambda>_. Works)) @ ''.upload.tmp''), tmp_of demo_root REQUEST_FILE}"
    by code_simp+
  from staging_all_or_nothing[OF p st refl ne] show ?thesis by blast
qed

text \<open>A marker whose zip lies outside the staging directory is rejected, but the rejected zip is deleted: cancelling checks
  where the file lies before it deletes it, applying does not.\<close>

theorem outside_zip_deleted:
  assumes "map_of (rs_files d) (marker_path root_dir) = Some (Doc (JObj request))" and "dget ''state'' request = JStr ''staged''"
    and "en" and "\<forall>n. rw_io w n = Works" and "is_file (staged_zip_of request) d"
    and "\<not> is_relative_to (rw_resolve w (staged_zip_of request)) (rw_resolve w root_dir)"
    and "staged_zip_of request \<notin> {marker_path root_dir, status_path root_dir, tmp_of root_dir STATUS_FILE}"
  shows "\<not> is_file (staged_zip_of request) (snd (apply_at_boot w t root_dir safety en lims d))"
proof -
  let ?m = "marker_path root_dir" and ?s = "staged_zip_of request" and ?d1 = "d\<lparr>rs_io := Suc (rs_io d)\<rparr>"
  have f: "is_file ?m d" using assms(1) by (simp add: is_file_def)
  have rd: "read_json_file w ?m d = (Inr request, ?d1)"
    using assms(1,4) by (simp add: read_json_file_def attempt_def content_json_def)
  have st: "state_text request = ''staged''" by (simp add: state_text_def assms(2) py_or_def py_str_def)
  let ?d2 = "unlink_if_exists w ?s (unlink_if_exists w ?m ?d1)"
  have run: "apply_pending_restore w t root_dir safety en lims d =
      abort_preflight w root_dir ?s (dget ''restore_id'' request)
        (''revalidation failed: '' @ ''staged restore zip missing or out of staging'') ?d1"
    using assms(3,6) f by (simp add: apply_pending_restore_def rd st Let_def apply_staged_def revalidate_def)
  have gone: "map_of (rs_files ?d2) ?s = None"
    using assms(4) f by (simp add: unlink_if_exists_def unlink_file_def attempt_def is_file_def change_files_def delete_conv')
  have "touches {status_path root_dir, tmp_of root_dir STATUS_FILE} ?d2 (safe_write_status w root_dir rid a b c ?d2)" for rid a b c
    unfolding safe_write_status_def write_status_file_def Let_def by (rule touches_write_and_replace[OF surjective_pairing]) simp_all
  then have "map_of (rs_files (safe_write_status w root_dir rid a b c ?d2)) ?s = map_of (rs_files ?d2) ?s" for rid a b c
    using same_outsideD[OF touches_files] assms(7) by blast
  with gone show ?thesis by (simp add: apply_at_boot_def run abort_preflight_def outcome_of_def is_file_def)
qed

theorem outside_zip_deleted_witness:
  "\<not> is_file (path_of ''/config/backups/b.zip'') (snd (apply_at_boot (demo_rworld (\<lambda>_. Works)) demo_targets demo_root (path_of ''/safe'')
     True DEFAULT_LIMITS (demo_disk ''staged'' ''/config/backups/b.zip'' [])))"
proof -
  let ?d = "demo_disk ''staged'' ''/config/backups/b.zip'' []" and ?rq = "demo_request ''staged'' ''/config/backups/b.zip''"
  have m: "map_of (rs_files ?d) (marker_path demo_root) = Some (Doc (JObj ?rq))" by (simp add: demo_disk_def)
  have z: "staged_zip_of ?rq = path_of ''/config/backups/b.zip''" by code_simp
  have "is_file (staged_zip_of ?rq) ?d" by code_simp
  moreover have "\<not> is_relative_to (rw_resolve (demo_rworld (\<lambda>_. Works)) (staged_zip_of ?rq)) (rw_resolve (demo_rworld (\<lambda>_. Works)) demo_root)"
    by code_simp
  moreover have "staged_zip_of ?rq \<notin> {marker_path demo_root, status_path demo_root, tmp_of demo_root STATUS_FILE}" by code_simp
  ultimately show ?thesis
    using outside_zip_deleted[OF m, of True "demo_rworld (\<lambda>_. Works)"] unfolding z
    by (simp add: demo_request_def demo_rworld_def)
qed

section \<open>Crash safety of a restore\<close>

text \<open>(C10) Applying a restore is crash safe. Whenever the process dies, during any write, the files are in one of three
  states: the program state is as before; or the marker says that an apply was interrupted, the safety backup holds the
  program state from before, and the next boot keeps its workers off; or the apply was complete.\<close>

theorem restore_crash_safe:
  assumes "apply_pending_restore w t root_dir safety en lims d = (r, d')" and "rs_past d = []"
    and "map_of (rs_files d) (marker_path root_dir) = Some (Doc (JObj request))"
    and "safety_dir safety (dget ''restore_id'' request) = Some sdir"
    and "separate_layout t root_dir (staged_zip_of request) sdir"
    and "F \<in> set (disk_states d')"
  shows "same_state t F (rs_files d) \<or>
    (recovery_point w t sdir (rs_files d) F \<and>
     (\<forall>w2 safety2 en2 lims2 d2. rs_files d2 = F \<and> rw_io w2 (rs_io d2) = Works \<longrightarrow>
        \<not> fst (apply_at_boot w2 t root_dir safety2 en2 lims2 d2))) \<or>
    ((\<exists>a. r = Inr a \<and> ar_outcome a = ''applied'') \<and> same_state t F (rs_files d'))"
proof -
  let ?own = "own_paths root_dir (staged_zip_of request)"
  obtain x d1 where rd: "read_json_file w (marker_path root_dir) d = (x, d1)" by fastforce
  then have d1: "rs_files d1 = rs_files d" "rs_past d1 = rs_past d" by (auto simp: read_json_file_def attempt_def Let_def)
  have files: "is_file (marker_path root_dir) d" using assms(3) by (simp add: is_file_def)
  have x: "x = Inr request \<or> (\<exists>p. x = Inr [(''state'', JStr ''unreadable''), (''path'', p)])"
    using rd assms(3) by (auto simp: read_json_file_def attempt_def content_json_def Let_def split: io_outcome.splits)
  have quiet: "same_state t F (rs_files d)" if "touches ?own d1 d'"
    using touches_state[OF touches_mono[OF that separate_own[OF assms(5)]] assms(6)] d1 assms(2)
    by (auto simp: same_state_def disk_states_def)
  have status: "touches ?own d1 (safe_write_status w root_dir rid st detail b (unlink_if_exists w (marker_path root_dir) d1))"
    for rid st detail b
    by (rule touches_trans[OF touches_unlink touches_status]) (simp add: own_paths_def)
  have "state_text [(''state'', JStr ''unreadable''), (''path'', p)] = ''unreadable''" for p
    by (simp add: state_text_def py_or_def py_str_def)
  with assms(1) rd x files consider (staged) "apply_staged w t root_dir safety lims request d1 = (r, d')"
    | (other) "touches ?own d1 d'"
    by (auto simp: apply_pending_restore_def Let_def status touches_status split: if_splits)
  then show ?thesis
  proof cases
    case staged
    have "disk_states d1 = [rs_files d1]" by (simp add: disk_states_def d1 assms(2))
    from apply_staged_crash[OF staged this assms(4,5,6)] show ?thesis
      using boot_fails_closed unfolding d1 by blast
  qed (use quiet in blast)
qed

lemma demo_paths:
  "path_of ''/config/state.db'' = (''/'', [''config'', ''state.db''])" "path_of ''/out'' = (''/'', [''out''])"
  "path_of ''/b'' = (''/'', [''b''])" "path_of ''/d'' = (''/'', [''d''])" "path_of ''/e'' = (''/'', [''e''])"
  "path_of ''/log/decisions.jsonl'' = (''/'', [''log'', ''decisions.jsonl''])" "path_of ''/log/audit.jsonl'' = (''/'', [''log'', ''audit.jsonl''])"
  "demo_root = (''/'', [''config'', ''restore_staging''])" "path_of demo_staged = (''/'', [''config'', ''restore_staging'', ''r1.zip''])"
  by code_simp+

lemma demo_separate: "separate_layout demo_targets demo_root (path_of demo_staged) (''/'', [''safe'', ''r1''])"
  by (auto simp: separate_layout_def state_paths_def dest_paths_def own_paths_def safety_paths_def demo_targets_def demo_paths
      marker_path_def status_path_def tmp_of_def child_of_def beside_def parent_of_def name_of_def)

theorem restore_crash_safe_witness:
  "recovery_point (demo_rworld (\<lambda>n. if n = 12 then Refused else Works)) demo_targets (''/'', [''safe'', ''r1''])
     (rs_files (demo_disk ''staged'' demo_staged [(path_of ''/config/state.db'', Raw ''new'')]))
     (rs_files (snd (apply_pending_restore (demo_rworld (\<lambda>n. if n = 12 then Refused else Works)) demo_targets demo_root
        (path_of ''/safe'') True DEFAULT_LIMITS (demo_disk ''staged'' demo_staged [(path_of ''/config/state.db'', Raw ''new'')]))))"
proof -
  let ?w = "demo_rworld (\<lambda>n. if n = 12 then Refused else Works)" and ?d = "demo_disk ''staged'' demo_staged [(path_of ''/config/state.db'', Raw ''new'')]"
  let ?r = "apply_pending_restore ?w demo_targets demo_root (path_of ''/safe'') True DEFAULT_LIMITS ?d"
  have out: "case fst ?r of Inr a \<Rightarrow> ar_outcome a = ''failed_partial'' | _ \<Rightarrow> False" by code_simp
  have db: "map_of (rs_files (snd ?r)) (path_of ''/config/state.db'') = Some (Raw ''db'')" by code_simp
  have old: "map_of (rs_files ?d) (path_of ''/config/state.db'') = Some (Raw ''new'')" by code_simp
  have m: "map_of (rs_files ?d) (marker_path demo_root) = Some (Doc (JObj (demo_request ''staged'' demo_staged)))" by code_simp
  have sd: "safety_dir (path_of ''/safe'') (dget ''restore_id'' (demo_request ''staged'' demo_staged)) = Some (''/'', [''safe'', ''r1''])" by code_simp
  have z: "staged_zip_of (demo_request ''staged'' demo_staged) = path_of demo_staged" by code_simp
  have past: "rs_past ?d = []" by (simp add: demo_disk_def)
  have "path_of ''/config/state.db'' \<in> state_paths demo_targets" by (simp add: state_paths_def dest_paths_def demo_targets_def)
  then have "\<not> same_state demo_targets (rs_files (snd ?r)) (rs_files ?d)"
    using same_outsideD[of "- state_paths demo_targets" "rs_files (snd ?r)" "rs_files ?d" "path_of ''/config/state.db''"] db old
    by (auto simp: same_state_def)
  moreover have "\<nexists>a. fst ?r = Inr a \<and> ar_outcome a = ''applied''" using out by (auto split: sum.splits)
  moreover have "rs_files (snd ?r) \<in> set (disk_states (snd ?r))" by (simp add: disk_states_def)
  ultimately show ?thesis
    using restore_crash_safe[OF surjective_pairing[of ?r] past m sd demo_separate[folded z]] by blast
qed

section \<open>Restoring a backup\<close>

text \<open>The places of the evidence, and the layout the server configures.\<close>

definition evidence_paths :: "restore_targets \<Rightarrow> pypath set" where
  "evidence_paths t = {child_of (child_of (rt_output t) j) ''verification.json'' | j. True} \<union>
     {child_of dir n | dir n. dir \<in> snd ` set (rt_archives t)} \<union> snd ` set (rt_logs t)"

definition clean_name :: "string \<Rightarrow> bool" where
  "clean_name n \<longleftrightarrow> CHR ''/'' \<notin> set n \<and> n \<noteq> [] \<and> n \<noteq> ''.''"

definition server_layout :: "restore_targets \<Rightarrow> files \<Rightarrow> bool" where
  "server_layout t fs \<longleftrightarrow> map fst (rt_archives t) = ARCHIVE_LABELS \<and> map fst (rt_logs t) = LOG_NAMES \<and>
     distinct (map fst fs) \<and> (\<forall>(p, _)\<in>set fs. list_all clean_name (snd p)) \<and>
     rt_state_db t \<notin> evidence_paths t \<and> snd (rt_state_db t) \<noteq> [] \<and>
     (\<forall>p\<in>insert (rt_state_db t) (snd ` set (rt_logs t)). \<not> suffix ''.restore.tmp'' (name_of p))"

text \<open>The evidence in a backup: sidecars, archived sidecars and logs.\<close>

definition backed_up :: "restore_targets \<Rightarrow> pypath \<Rightarrow> bool" where
  "backed_up t p \<longleftrightarrow> p = rt_state_db t \<or> p \<in> snd ` set (rt_logs t) \<or>
     (in_directory (parent_of p) p \<and> in_directory (rt_output t) (parent_of p) \<and> name_of p = ''verification.json'') \<or>
     (\<exists>dir\<in>snd ` set (rt_archives t). in_directory dir p \<and> suffix ''.json'' (name_of p))"

definition restore_tmp :: "pypath \<Rightarrow> pypath" where
  "restore_tmp p = beside p (''.'' @ name_of p @ ''.restore.tmp'')"

lemma restore_tmp_name: "suffix ''.restore.tmp'' (name_of (restore_tmp p))"
  by (simp add: restore_tmp_def beside_def suffix_def)

lemma restore_tmp_other: "\<not> suffix ''.restore.tmp'' (name_of p) \<Longrightarrow> p \<noteq> restore_tmp q"
  using restore_tmp_name by metis

lemma atomic_write_done:
  assumes "atomic_write w p c d = (None, d')" and "\<not> suffix ''.restore.tmp'' (name_of p)"
  shows "map_of (rs_files d') p = Some c \<and> same_outside {p, restore_tmp p} (rs_files d') (rs_files d)"
  using assms(1) unfolding atomic_write_def
proof (rule then_do_cases)
  fix d1 assume m: "make_dir w d = (None, d1)"
    and x: "write_and_replace w (beside p (''.'' @ name_of p @ ''.restore.tmp'')) p c d1 = (None, d')"
  have same: "rs_files d1 = rs_files d" using m by (auto simp: make_dir_def attempt_def)
  have "beside p (''.'' @ name_of p @ ''.restore.tmp'') \<noteq> p"
    using restore_tmp_other[OF assms(2), of p] by (simp add: restore_tmp_def)
  note done1 = write_and_replace_done[OF x this]
  have "touches {p, restore_tmp p} d1 d'" by (rule touches_write_and_replace[OF x]) (simp_all add: restore_tmp_def)
  with done1 touches_files same show ?thesis by metis
qed simp

text \<open>Writing the evidence: a place that every entry fills with the same content, and at least one entry or the disk before
  has it, ends with this content.\<close>

lemma evidence_written:
  assumes "apply_evidence w t ms ens d = (None, d')" and "\<not> suffix ''.restore.tmp'' (name_of p)"
    and "\<forall>en\<in>set ens. re_kind en \<noteq> State_Db \<and> entry_target t en = Some p \<longrightarrow> read_named ms (re_name en) = Inr c"
    and "\<forall>en\<in>set ens. re_kind en \<noteq> State_Db \<longrightarrow> (\<exists>q. entry_target t en = Some q \<and> \<not> suffix ''.restore.tmp'' (name_of q))"
    and "map_of (rs_files d) p = Some c \<or> (\<exists>en\<in>set ens. re_kind en \<noteq> State_Db \<and> entry_target t en = Some p)"
  shows "map_of (rs_files d') p = Some c"
  using assms
proof (induction ens arbitrary: d)
  case (Cons en ens)
  show ?case
  proof (cases "re_kind en = State_Db")
    case True
    with Cons show ?thesis by simp
  next
    case False
    with Cons.prems(4) obtain q where q: "entry_target t en = Some q" "\<not> suffix ''.restore.tmp'' (name_of q)" by auto
    with Cons.prems(1) False obtain c' d1 where rd: "read_named ms (re_name en) = Inr c'"
      and aw: "atomic_write w q c' d = (None, d1)" and rest: "apply_evidence w t ms ens d1 = (None, d')"
      by (auto split: sum.splits elim!: then_do_cases)
    note wr = atomic_write_done[OF aw q(2)]
    have "map_of (rs_files d1) p = Some c \<or> (\<exists>en\<in>set ens. re_kind en \<noteq> State_Db \<and> entry_target t en = Some p)"
    proof (cases "q = p")
      case True
      with Cons.prems(3) False q rd wr show ?thesis by simp
    next
      case other: False
      then have "map_of (rs_files d1) p = map_of (rs_files d) p"
        using same_outsideD[of "{q, restore_tmp q}" "rs_files d1" "rs_files d" p] wr restore_tmp_other[OF Cons.prems(2)] by simp
      with Cons.prems(5) other q show ?thesis by auto
    qed
    with Cons.IH[OF rest Cons.prems(2)] Cons.prems(3,4) show ?thesis by simp
  qed
qed simp

text \<open>The same for a place that no entry fills.\<close>

lemma evidence_other:
  assumes "apply_evidence w t ms ens d = (None, d')" and "\<not> suffix ''.restore.tmp'' (name_of p)"
    and "\<forall>en\<in>set ens. re_kind en \<noteq> State_Db \<longrightarrow> (\<exists>q. entry_target t en = Some q \<and> q \<noteq> p \<and> \<not> suffix ''.restore.tmp'' (name_of q))"
  shows "map_of (rs_files d') p = map_of (rs_files d) p"
proof (cases "map_of (rs_files d) p")
  case (Some c)
  then show ?thesis using evidence_written[OF assms(1,2), of c] assms(3) by fastforce
next
  case None
  from assms(1,3) None have "map_of (rs_files d') p = None"
  proof (induction ens arbitrary: d)
    case (Cons en ens)
    show ?case
    proof (cases "re_kind en = State_Db")
      case False
      with Cons.prems(2) obtain q where q: "entry_target t en = Some q" "q \<noteq> p" "\<not> suffix ''.restore.tmp'' (name_of q)" by auto
      with Cons.prems(1) False obtain c' d1 where aw: "atomic_write w q c' d = (None, d1)"
        and rest: "apply_evidence w t ms ens d1 = (None, d')" by (auto split: sum.splits elim!: then_do_cases)
      have "map_of (rs_files d1) p = None"
        using same_outsideD[OF conjunct2[OF atomic_write_done[OF aw q(3)]], of p] q(2) restore_tmp_other[OF assms(2)] Cons.prems(3)
        by simp
      with Cons.IH[OF rest] Cons.prems(2) show ?thesis by simp
    qed (use Cons in simp)
  qed simp
  with None show ?thesis by simp
qed

lemma databases_written:
  assumes "apply_databases w t ms ens d = (None, d')" and "\<not> suffix ''.restore.tmp'' (name_of (rt_state_db t))"
    and "\<forall>en\<in>set ens. re_kind en = State_Db \<longrightarrow> read_named ms (re_name en) = Inr c" and "snd (rt_state_db t) \<noteq> []"
    and "map_of (rs_files d) (rt_state_db t) = Some c \<or> (\<exists>en\<in>set ens. re_kind en = State_Db)"
  shows "map_of (rs_files d') (rt_state_db t) = Some c"
  using assms
proof (induction ens arbitrary: d)
  case (Cons en ens)
  let ?db = "rt_state_db t"
  show ?case
  proof (cases "re_kind en = State_Db")
    case True
    with Cons.prems(1,3) obtain d1 where aw: "atomic_write w ?db c d = (None, d1)"
      and rest: "apply_databases w t ms ens (remove_wal_shm w ?db d1) = (None, d')" by (auto elim!: then_do_cases)
    have "?db \<noteq> beside ?db (name_of ?db @ s)" if "s \<noteq> []" for s
    proof
      assume "?db = beside ?db (name_of ?db @ s)"
      then have "name_of ?db = name_of ?db @ s" by (metis beside_def child_simps(2))
      with that show False by simp
    qed
    then have "same_outside {beside ?db (name_of ?db @ ''-wal''), beside ?db (name_of ?db @ ''-shm'')}
        (rs_files (remove_wal_shm w ?db d1)) (rs_files d1) \<and> ?db \<notin> {beside ?db (name_of ?db @ ''-wal''), beside ?db (name_of ?db @ ''-shm'')}"
      unfolding remove_wal_shm_def by (auto intro!: touches_files touches_trans[OF touches_unlink touches_unlink])
    then have "map_of (rs_files (remove_wal_shm w ?db d1)) ?db = Some c"
      using same_outsideD atomic_write_done[OF aw Cons.prems(2)] by metis
    with Cons.IH[OF rest Cons.prems(2)] Cons.prems(3,4) show ?thesis by simp
  next
    case False
    with Cons show ?thesis by simp
  qed
qed simp

lemma in_directoryD: "in_directory q p \<Longrightarrow> p = child_of q (name_of p)"
  by (auto simp: in_directory_def parent_of_def child_of_def name_of_def prod_eq_iff) (metis append_butlast_last_id)

lemma sidecar_memberD:
  assumes "m \<in> set (backup_sidecars size_of t fs)"
  shows "\<exists>p c. (p, c) \<in> set fs \<and> in_directory (parent_of p) p \<and> in_directory (rt_output t) (parent_of p) \<and>
    name_of p = ''verification.json'' \<and> m = member_of_file size_of (''sidecars/'' @ name_of (parent_of p) @ ''/verification.json'') c"
proof -
  from assms obtain x where x: "x \<in> set fs" "case x of (p, c) \<Rightarrow> in_directory (parent_of p) p \<and> in_directory (rt_output t) (parent_of p) \<and>
      name_of p = ''verification.json''" "m = (case x of (p, c) \<Rightarrow> member_of_file size_of (''sidecars/'' @ name_of (parent_of p) @ ''/verification.json'') c)"
    unfolding backup_sidecars_def sorted_files_def by auto
  show ?thesis by (rule exI[of _ "fst x"], rule exI[of _ "snd x"]) (use x in \<open>simp add: case_prod_beta\<close>)
qed

lemma archive_memberD:
  assumes "m \<in> set (backup_archive size_of fs (l, dir))"
  shows "\<exists>p c. (p, c) \<in> set fs \<and> in_directory dir p \<and> suffix ''.json'' (name_of p) \<and>
    m = member_of_file size_of (''archive/'' @ l @ ''/'' @ name_of p) c"
proof -
  from assms obtain x where x: "x \<in> set fs" "case x of (p, c) \<Rightarrow> in_directory dir p \<and> suffix ''.json'' (name_of p)"
      "m = (case x of (p, c) \<Rightarrow> member_of_file size_of (''archive/'' @ l @ ''/'' @ name_of p) c)"
    unfolding backup_archive_def sorted_files_def by auto
  show ?thesis by (rule exI[of _ "fst x"], rule exI[of _ "snd x"]) (use x in \<open>simp add: case_prod_beta\<close>)
qed

lemma log_memberD:
  "m \<in> set (backup_log size_of fs (n, p)) \<Longrightarrow> \<exists>c. map_of fs p = Some c \<and> m = member_of_file size_of (''logs/'' @ n) c"
  by (cases "map_of fs p") (simp_all add: backup_log_def)

lemma name_of_clean: "list_all clean_name (snd p) \<Longrightarrow> snd p \<noteq> [] \<Longrightarrow> clean_name (name_of p)"
  by (auto simp: name_of_def list_all_iff)

lemma clean_parts: "ps \<noteq> [] \<Longrightarrow> list_all clean_name ps \<Longrightarrow> path_parts (py_join ''/'' ps) = ps"
  by (rule path_parts_join) (auto simp: clean_name_def list_all_iff)

text \<open>What the members of evidence become: entries for the places the files were in.\<close>

lemma sidecar_target:
  assumes "list_all clean_name (snd p)" and "in_directory (parent_of p) p" and "in_directory (rt_output t) (parent_of p)"
    and "name_of p = ''verification.json''"
    and "validate_info (member_of_file size_of (''sidecars/'' @ name_of (parent_of p) @ ''/verification.json'') c) = Inr en"
  shows "re_kind en = Sidecar \<and> entry_target t en = Some p \<and> p \<in> evidence_paths t"
proof -
  let ?n = "name_of (parent_of p)"
  have p: "p = child_of (child_of (rt_output t) ?n) ''verification.json''"
    using in_directoryD[OF assms(2)] in_directoryD[OF assms(3)] assms(4) by simp
  have "list_all clean_name (snd (child_of (child_of (rt_output t) ?n) ''verification.json''))" using assms(1) p by metis
  then have "clean_name ?n" by (simp add: child_of_def)
  then have pp: "path_parts (zm_name (member_of_file size_of (''sidecars/'' @ ?n @ ''/verification.json'') c)) = [''sidecars'', ?n, ''verification.json'']"
    using clean_parts[of "[''sidecars'', ?n, ''verification.json'']"] by (simp add: member_of_file_def clean_name_def)
  from validate_infoD[OF assms(5), THEN conjunct1] have kind: "re_kind en = Sidecar"
    unfolding pp by (cases "re_kind en") (simp_all add: key_of_parts_def)
  have "entry_target t en = Some p" using target_key_parts[OF assms(5), unfolded pp] kind p by (simp add: entry_target_def)
  moreover have "p \<in> evidence_paths t" unfolding evidence_paths_def using p by blast
  ultimately show ?thesis using kind by simp
qed

lemma archive_target:
  assumes "list_all clean_name (snd p)" and "in_directory dir p" and "map_of (rt_archives t) l = Some dir" and "l \<in> set ARCHIVE_LABELS"
    and "validate_info (member_of_file size_of (''archive/'' @ l @ ''/'' @ name_of p) c) = Inr en"
  shows "re_kind en = Archive \<and> entry_target t en = Some p \<and> p \<in> evidence_paths t"
proof -
  let ?n = "name_of p"
  have p: "p = child_of dir ?n" by (rule in_directoryD[OF assms(2)])
  have "clean_name ?n" using assms(1,2) by (simp add: name_of_clean in_directory_def)
  moreover have "clean_name l" using assms(4) by (auto simp: ARCHIVE_LABELS_def clean_name_def)
  ultimately have pp: "path_parts (zm_name (member_of_file size_of (''archive/'' @ l @ ''/'' @ ?n) c)) = [''archive'', l, ?n]"
    using clean_parts[of "[''archive'', l, ?n]"] by (simp add: member_of_file_def clean_name_def)
  from validate_infoD[OF assms(5), THEN conjunct1] have kind: "re_kind en = Archive"
    unfolding pp by (cases "re_kind en") (simp_all add: key_of_parts_def)
  have "entry_target t en = Some p" using target_key_parts[OF assms(5), unfolded pp] kind p assms(3) by (simp add: entry_target_def)
  moreover have "dir \<in> snd ` set (rt_archives t)" using map_of_SomeD[OF assms(3)] by (metis image_eqI snd_conv)
  with p have "p \<in> evidence_paths t" unfolding evidence_paths_def by blast
  ultimately show ?thesis using kind by simp
qed

lemma log_target:
  assumes "map_of (rt_logs t) n = Some p" and "n \<in> set LOG_NAMES" and "validate_info (member_of_file size_of (''logs/'' @ n) c) = Inr en"
  shows "re_kind en = Log \<and> entry_target t en = Some p \<and> p \<in> evidence_paths t"
proof -
  have "clean_name n" using assms(2) by (auto simp: LOG_NAMES_def clean_name_def)
  then have pp: "path_parts (zm_name (member_of_file size_of (''logs/'' @ n) c)) = [''logs'', n]"
    using clean_parts[of "[''logs'', n]"] by (simp add: member_of_file_def clean_name_def)
  from validate_infoD[OF assms(3), THEN conjunct1] have kind: "re_kind en = Log"
    unfolding pp by (cases "re_kind en") (simp_all add: key_of_parts_def)
  have "entry_target t en = Some p" using target_key_parts[OF assms(3), unfolded pp] kind assms(1) by (simp add: entry_target_def)
  moreover have "p \<in> snd ` set (rt_logs t)" using map_of_SomeD[OF assms(1)] by (metis image_eqI snd_conv)
  ultimately show ?thesis using kind by (simp add: evidence_paths_def)
qed

lemma layout_facts:
  assumes "server_layout t fs"
  shows "(p, c) \<in> set fs \<Longrightarrow> list_all clean_name (snd p) \<and> map_of fs p = Some c"
    and "(l, dir) \<in> set (rt_archives t) \<Longrightarrow> map_of (rt_archives t) l = Some dir \<and> l \<in> set ARCHIVE_LABELS"
    and "(n, q) \<in> set (rt_logs t) \<Longrightarrow> map_of (rt_logs t) n = Some q \<and> n \<in> set LOG_NAMES"
proof -
  note lay = assms[unfolded server_layout_def]
  show "(p, c) \<in> set fs \<Longrightarrow> list_all clean_name (snd p) \<and> map_of fs p = Some c"
    using lay by (auto simp: map_of_is_SomeI)
  have d: "distinct (map fst (rt_archives t))" "distinct (map fst (rt_logs t))"
    using lay by (simp_all add: ARCHIVE_LABELS_def LOG_NAMES_def)
  show "(l, dir) \<in> set (rt_archives t) \<Longrightarrow> map_of (rt_archives t) l = Some dir \<and> l \<in> set ARCHIVE_LABELS"
    using map_of_is_SomeI[OF d(1)] lay by (metis fst_conv image_eqI set_map)
  show "(n, q) \<in> set (rt_logs t) \<Longrightarrow> map_of (rt_logs t) n = Some q \<and> n \<in> set LOG_NAMES"
    using map_of_is_SomeI[OF d(2)] lay by (metis fst_conv image_eqI set_map)
qed

definition backup_evidence :: "(content \<Rightarrow> int) \<Rightarrow> restore_targets \<Rightarrow> files \<Rightarrow> zip_member list" where
  "backup_evidence size_of t fs = backup_sidecars size_of t fs @ concat (map (backup_archive size_of fs) (rt_archives t)) @
     concat (map (backup_log size_of fs) (rt_logs t))"

lemma member_target:
  assumes "m \<in> set (backup_evidence size_of t fs)" and "server_layout t fs" and "validate_info m = Inr en"
  shows "\<exists>p c. re_kind en \<noteq> State_Db \<and> entry_target t en = Some p \<and> zm_read m = Got c \<and> map_of fs p = Some c \<and>
    p \<in> evidence_paths t \<and> backed_up t p"
proof (cases "m \<in> set (backup_sidecars size_of t fs)")
  case True
  from sidecar_memberD[OF this] obtain p c where s: "(p, c) \<in> set fs" "in_directory (parent_of p) p" "in_directory (rt_output t) (parent_of p)"
    "name_of p = ''verification.json''" and m: "m = member_of_file size_of (''sidecars/'' @ name_of (parent_of p) @ ''/verification.json'') c"
    by blast
  note f = layout_facts(1)[OF assms(2) s(1)]
  from sidecar_target[OF conjunct1[OF f] s(2-4) assms(3)[unfolded m]] f s show ?thesis
    by (auto simp: m member_of_file_def backed_up_def)
next
  case other: False
  show ?thesis
  proof (cases "\<exists>ld\<in>set (rt_archives t). m \<in> set (backup_archive size_of fs ld)")
    case True
    then obtain l dir where ld: "(l, dir) \<in> set (rt_archives t)" "m \<in> set (backup_archive size_of fs (l, dir))" by (metis surj_pair)
    from archive_memberD[OF ld(2)] obtain p c where s: "(p, c) \<in> set fs" "in_directory dir p" "suffix ''.json'' (name_of p)"
      and m: "m = member_of_file size_of (''archive/'' @ l @ ''/'' @ name_of p) c" by blast
    note f = layout_facts(1)[OF assms(2) s(1)] and g = layout_facts(2)[OF assms(2) ld(1)]
    have "backed_up t p" unfolding backed_up_def using s ld(1) by (metis image_eqI snd_conv)
    with archive_target[OF conjunct1[OF f] s(2) conjunct1[OF g] conjunct2[OF g] assms(3)[unfolded m]] f show ?thesis
      by (auto simp: m member_of_file_def)
  next
    case False
    with other assms(1) obtain n p where np: "(n, p) \<in> set (rt_logs t)" "m \<in> set (backup_log size_of fs (n, p))"
      unfolding backup_evidence_def by auto
    from log_memberD[OF np(2)] obtain c where c: "map_of fs p = Some c" and m: "m = member_of_file size_of (''logs/'' @ n) c" by blast
    note g = layout_facts(3)[OF assms(2) np(1)]
    have "backed_up t p" unfolding backed_up_def using np(1) by (metis image_eqI snd_conv)
    with log_target[OF conjunct1[OF g] conjunct2[OF g] assms(3)[unfolded m]] c show ?thesis by (auto simp: m member_of_file_def)
  qed
qed

lemma backed_up_member:
  assumes "backed_up t p" and "p \<noteq> rt_state_db t" and "map_of fs p = Some c" and "server_layout t fs"
  shows "\<exists>m\<in>set (backup_evidence size_of t fs). \<forall>en. validate_info m = Inr en \<longrightarrow> entry_target t en = Some p"
proof -
  have mem: "(p, c) \<in> set fs" by (rule map_of_SomeD[OF assms(3)])
  note clean = conjunct1[OF layout_facts(1)[OF assms(4) mem]]
  from assms(1,2) consider (log) n where "(n, p) \<in> set (rt_logs t)"
    | (side) "in_directory (parent_of p) p" "in_directory (rt_output t) (parent_of p)" "name_of p = ''verification.json''"
    | (arch) l dir where "(l, dir) \<in> set (rt_archives t)" "in_directory dir p" "suffix ''.json'' (name_of p)"
    unfolding backed_up_def by force
  then show ?thesis
  proof cases
    case log
    note g = layout_facts(3)[OF assms(4) log]
    have "member_of_file size_of (''logs/'' @ n) c \<in> set (backup_log size_of fs (n, p))" by (simp add: backup_log_def assms(3))
    with log have "member_of_file size_of (''logs/'' @ n) c \<in> set (backup_evidence size_of t fs)" by (auto simp: backup_evidence_def)
    with log_target[OF conjunct1[OF g] conjunct2[OF g]] show ?thesis by blast
  next
    case side
    let ?m = "member_of_file size_of (''sidecars/'' @ name_of (parent_of p) @ ''/verification.json'') c"
    have "?m \<in> set (backup_sidecars size_of t fs)" unfolding backup_sidecars_def set_map
      by (rule image_eqI[where x = "(p, c)"]) (use mem side in \<open>simp_all add: sorted_files_def\<close>)
    then have "?m \<in> set (backup_evidence size_of t fs)" by (simp add: backup_evidence_def)
    with sidecar_target[OF clean side] show ?thesis by blast
  next
    case arch
    note g = layout_facts(2)[OF assms(4) arch(1)]
    let ?m = "member_of_file size_of (''archive/'' @ l @ ''/'' @ name_of p) c"
    have "?m \<in> set (backup_archive size_of fs (l, dir))" unfolding backup_archive_def set_map
      by (rule image_eqI[where x = "(p, c)"]) (use mem arch in \<open>simp_all add: sorted_files_def\<close>)
    with arch(1) have "?m \<in> set (backup_evidence size_of t fs)" by (auto simp: backup_evidence_def)
    with archive_target[OF clean arch(2) conjunct1[OF g] conjunct2[OF g]] show ?thesis by blast
  qed
qed

lemma list_all2_partner:
  assumes "list_all2 P xs ys"
  shows "y \<in> set ys \<Longrightarrow> \<exists>x\<in>set xs. P x y" and "x \<in> set xs \<Longrightarrow> \<exists>y\<in>set ys. P x y"
  using assms by (induction rule: list_all2_induct) auto

lemma list_all2_names: "list_all2 P xs ys \<Longrightarrow> (\<And>x y. P x y \<Longrightarrow> f x = g y) \<Longrightarrow> map f xs = map g ys"
  by (induction rule: list_all2_induct) auto

lemma find_unique: "distinct (map f xs) \<Longrightarrow> x \<in> set xs \<Longrightarrow> List.find (\<lambda>y. f y = f x) xs = Some x"
  by (induction xs) force+

lemma read_named_member:
  assumes "distinct (map zm_name ms)" and "m \<in> set ms"
  shows "read_named ms (zm_name m) = read_member m"
  using find_unique[of zm_name "rev ms" m] assms by (simp add: read_named_def rev_map[symmetric])

lemma backed_up_not_tmp:
  assumes "backed_up t p" and "server_layout t fs"
  shows "\<not> suffix ''.restore.tmp'' (name_of p)"
proof -
  have "\<not> suffix ''.restore.tmp'' n" if "suffix ''.json'' n" for n
  proof
    assume "suffix ''.restore.tmp'' n"
    with that have "suffix ''.json'' ''.restore.tmp''" by (auto dest: suffix_same_cases simp: suffix_def)
    moreover have "\<not> suffix ''.json'' ''.restore.tmp''" by code_simp
    ultimately show False by simp
  qed
  moreover have "suffix ''.json'' ''verification.json''" by code_simp
  ultimately show ?thesis using assms unfolding backed_up_def server_layout_def by auto
qed

lemma entries_restore:
  assumes "apply_entries w t staged plan d = (None, d')" and "map_of (rs_files d) staged = Some z"
    and "validate_restore_zip (rw_codec w) lims z = Inr plan" and "build_backup_zip (rw_codec w) size_of t fs = Some z"
    and "server_layout t fs" and "backed_up t p" and "map_of fs p = Some c"
  shows "map_of (rs_files d') p = (if p = rt_state_db t then cd_snapshot (rw_codec w) c else Some c)"
proof -
  let ?ens = "rp_entries plan" and ?db = "rt_state_db t"
  note lay = assms(5)[unfolded server_layout_def]
  obtain db where z: "z = Zip_File (db @ backup_evidence size_of t fs)"
    and db: "case map_of fs ?db of None \<Rightarrow> db = []
      | Some c \<Rightarrow> \<exists>sn. cd_snapshot (rw_codec w) c = Some sn \<and> db = [Zip_Member ''state_db.sqlite'' (size_of sn) is_file_mode (Got sn)]"
    using backup_members[OF assms(4)] unfolding backup_evidence_def by auto
  let ?ms = "db @ backup_evidence size_of t fs"
  have ms: "members_of (rw_codec w) z = Some ?ms" by (simp add: z members_of_def)
  from validate_zipD[OF assms(3)] ms have "validate_members (rw_codec w) lims [] 0 ?ms = Inr ?ens" by auto
  note v = validate_membersD[OF this]
  have pair: "\<exists>m\<in>set ?ms. validate_info m = Inr en" if "en \<in> set ?ens" for en
    using list_all2_partner(1)[OF conjunct1[OF v] that] by blast
  have cover: "\<exists>en\<in>set ?ens. validate_info m = Inr en" if "m \<in> set ?ms" for m
    using list_all2_partner(2)[OF conjunct1[OF v] that] by blast
  have names: "map zm_name ?ms = map re_name ?ens"
    by (rule list_all2_names[OF conjunct1[OF v]]) (auto dest: validate_infoD)
  then have dist: "distinct (map zm_name ?ms)" using v by metis
  have dbm: "\<exists>sn c. map_of fs ?db = Some c \<and> cd_snapshot (rw_codec w) c = Some sn \<and>
      m = Zip_Member ''state_db.sqlite'' (size_of sn) is_file_mode (Got sn)" if "m \<in> set db" for m
    using db that by (auto split: option.splits)
  have read: "read_named ?ms (re_name en) = read_member m" if "m \<in> set ?ms" "validate_info m = Inr en" for m en
    using read_named_member[OF dist that(1)] validate_infoD[OF that(2)] by simp
  have dbkind: "re_kind en = State_Db" if "m \<in> set db" "validate_info m = Inr en" for m en
  proof -
    have "path_parts ''state_db.sqlite'' = [''state_db.sqlite'']" by code_simp
    with dbm[OF that(1)] validate_infoD[OF that(2), THEN conjunct1] show ?thesis
      by (cases "re_kind en") (auto simp: key_of_parts_def)
  qed
  have ev: "\<exists>q c'. entry_target t en = Some q \<and> read_named ?ms (re_name en) = Inr c' \<and> map_of fs q = Some c' \<and> q \<in> evidence_paths t \<and> backed_up t q"
    if "en \<in> set ?ens" "re_kind en \<noteq> State_Db" for en
  proof -
    from pair[OF that(1)] obtain m where m: "m \<in> set ?ms" "validate_info m = Inr en" by blast
    with that(2) dbkind have "m \<in> set (backup_evidence size_of t fs)" by auto
    from member_target[OF this assms(5) m(2)] read[OF m] show ?thesis by (auto simp: read_member_def)
  qed
  have "then_do (apply_databases w t ?ms ?ens (d\<lparr>rs_io := Suc (rs_io d)\<rparr>)) (apply_evidence w t ?ms ?ens) = (None, d')"
    using assms(1,2) ms by (auto simp: apply_entries_def attempt_def split: io_outcome.splits)
  then obtain d2 where dbs: "apply_databases w t ?ms ?ens (d\<lparr>rs_io := Suc (rs_io d)\<rparr>) = (None, d2)"
    and evs: "apply_evidence w t ?ms ?ens d2 = (None, d')" by (rule then_do_cases) auto
  have nt: "\<not> suffix ''.restore.tmp'' (name_of q)" if "backed_up t q" for q by (rule backed_up_not_tmp[OF that assms(5)])
  show ?thesis
  proof (cases "p = ?db")
    case False
    from backed_up_member[OF assms(6) False assms(7,5)] obtain m where m: "m \<in> set (backup_evidence size_of t fs)"
      "\<forall>en. validate_info m = Inr en \<longrightarrow> entry_target t en = Some p" by blast
    from m(1) cover obtain en where en: "en \<in> set ?ens" "validate_info m = Inr en" by auto
    have "re_kind en \<noteq> State_Db" using member_target[OF m(1) assms(5) en(2)] by blast
    with en m(2) have some: "\<exists>en\<in>set ?ens. re_kind en \<noteq> State_Db \<and> entry_target t en = Some p" by blast
    have "map_of (rs_files d') p = Some c"
    proof (rule evidence_written[OF evs nt[OF assms(6)]])
      show "\<forall>en\<in>set ?ens. re_kind en \<noteq> State_Db \<and> entry_target t en = Some p \<longrightarrow> read_named ?ms (re_name en) = Inr c"
        using ev assms(7) by fastforce
      show "\<forall>en\<in>set ?ens. re_kind en \<noteq> State_Db \<longrightarrow> (\<exists>q. entry_target t en = Some q \<and> \<not> suffix ''.restore.tmp'' (name_of q))"
        using ev nt by blast
    qed (use some in blast)
    with False show ?thesis by simp
  next
    case True
    from db assms(7) True obtain sn where sn: "cd_snapshot (rw_codec w) c = Some sn"
      "db = [Zip_Member ''state_db.sqlite'' (size_of sn) is_file_mode (Got sn)]" by auto
    have dbread: "read_named ?ms (re_name en) = Inr sn" if "en \<in> set ?ens" "re_kind en = State_Db" for en
    proof -
      from pair[OF that(1)] obtain m where m: "m \<in> set ?ms" "validate_info m = Inr en" by blast
      with that(2) member_target[OF _ assms(5)] have "m \<in> set db" by fastforce
      with sn(2) read[OF m] show ?thesis by (simp add: read_member_def)
    qed
    have "\<exists>en\<in>set ?ens. re_kind en = State_Db"
      using cover[of "hd db"] dbkind[of "hd db"] sn(2) by auto
    then have "map_of (rs_files d2) ?db = Some sn"
      using databases_written[OF dbs, of sn] lay dbread by auto
    moreover have "map_of (rs_files d') ?db = map_of (rs_files d2) ?db"
    proof (rule evidence_other[OF evs])
      show "\<not> suffix ''.restore.tmp'' (name_of ?db)" using lay by auto
      show "\<forall>en\<in>set ?ens. re_kind en \<noteq> State_Db \<longrightarrow>
          (\<exists>q. entry_target t en = Some q \<and> q \<noteq> ?db \<and> \<not> suffix ''.restore.tmp'' (name_of q))"
        using ev nt lay by metis
    qed
    ultimately show ?thesis using True sn(1) by simp
  qed
qed

text \<open>What an apply that succeeded has gone through.\<close>

lemma applied_steps:
  assumes "apply_pending_restore w t root_dir safety en lims d = (Inr a, d')" and "ar_outcome a = ''applied''"
    and "map_of (rs_files d) (marker_path root_dir) = Some (Doc (JObj request))"
    and "safety_dir safety (dget ''restore_id'' request) = Some sdir"
    and "separate_layout t root_dir (staged_zip_of request) sdir"
    and "map_of (rs_files d) (staged_zip_of request) = Some (Zip_File ms)" and "staged_zip_of request \<noteq> tmp_of root_dir REQUEST_FILE"
  shows "\<exists>plan d3 d4. validate_restore_zip (rw_codec w) lims (Zip_File ms) = Inr plan \<and>
    map_of (rs_files d3) (staged_zip_of request) = Some (Zip_File ms) \<and>
    apply_entries w t (staged_zip_of request) plan d3 = (None, d4) \<and> same_state t (rs_files d') (rs_files d4)"
proof -
  let ?s = "staged_zip_of request" and ?rid = "dget ''restore_id'' request"
  obtain x d1 where rd: "read_json_file w (marker_path root_dir) d = (x, d1)" by fastforce
  then have d1: "rs_files d1 = rs_files d" by (auto simp: read_json_file_def attempt_def Let_def)
  have bad: "state_text [(''state'', JStr ''unreadable''), (''path'', p)] = ''unreadable''" for p
    by (simp add: state_text_def py_or_def py_str_def)
  have "x = Inr request \<or> (\<exists>p. x = Inr [(''state'', JStr ''unreadable''), (''path'', p)])"
    using rd assms(3) by (auto simp: read_json_file_def attempt_def content_json_def Let_def split: io_outcome.splits)
  with assms(1,2) rd bad have st: "apply_staged w t root_dir safety lims request d1 = (Inr a, d')"
    by (auto simp: apply_pending_restore_def outcome_of_def Let_def is_file_def assms(3) split: if_splits)
  have no: "abort_preflight w root_dir ?s ?rid det e \<noteq> (Inr a, d')" for det e
    using assms(2) by (auto simp: abort_preflight_def outcome_of_def)
  obtain v d2 where rv: "revalidate w lims root_dir ?s d1 = (v, d2)" by fastforce
  with st no obtain plan where v: "v = Inr plan" by (cases v) (auto simp: apply_staged_def Let_def split: restore_exn.splits)
  have d2: "rs_files d2 = rs_files d1" using rv by (auto simp: revalidate_def validate_at_def attempt_def split: if_splits)
  have plan: "validate_restore_zip (rw_codec w) lims (Zip_File ms) = Inr plan"
    using rv v assms(6) by (auto simp: revalidate_def validate_at_def attempt_def d1 split: if_splits io_outcome.splits)
  obtain b d3 where sb: "write_safety_backup w t safety ?rid d2 = (b, d3)" by fastforce
  with st no rv v obtain backup where b: "b = Inr backup" by (cases b) (auto simp: apply_staged_def Let_def)
  obtain z d4 where mk: "set_marker_state w root_dir request ''applying'' d3 = (z, d4)" by fastforce
  with st no rv v sb b have z: "z = None" by (cases z) (auto simp: apply_staged_def Let_def)
  with st rv v sb b mk have rs: "replace_state w t root_dir ?s plan ?rid backup d4 = (Inr a, d')"
    by (simp add: apply_staged_def Let_def)
  obtain y d5 where ae: "apply_entries w t ?s plan d4 = (y, d5)" by fastforce
  with rs assms(2) have y: "y = None" by (cases y) (auto simp: replace_state_def outcome_of_def)
  have own: "?s \<in> own_paths root_dir ?s" by (simp add: own_paths_def)
  then have "?s \<notin> safety_paths sdir" using assms(5) by (auto simp: separate_layout_def)
  then have s3: "map_of (rs_files d3) ?s = map_of (rs_files d2) ?s"
    using same_outsideD[OF touches_files[OF conjunct1[OF safety_written[OF sb assms(4)]]]] by blast
  have "?s \<noteq> marker_path root_dir" using assms(3,6) by auto
  moreover have "touches {tmp_of root_dir REQUEST_FILE, marker_path root_dir} d3 d4"
    using mk unfolding set_marker_state_def by (rule touches_write_and_replace) simp_all
  ultimately have "map_of (rs_files d4) ?s = map_of (rs_files d3) ?s"
    using same_outsideD[OF touches_files] assms(7) by blast
  with s3 d1 d2 assms(6) have staged: "map_of (rs_files d4) ?s = Some (Zip_File ms)" by simp
  have "touches (own_paths root_dir ?s) d5 d'"
    using rs ae y by (auto simp: replace_state_def intro: touches_cleared)
  then have "same_state t (rs_files d') (rs_files d5)"
    unfolding same_state_def by (rule same_outside_mono[OF touches_files separate_own[OF assms(5)]])
  with plan staged ae y show ?thesis by blast
qed

lemma backed_up_dest:
  assumes "backed_up t p"
  shows "p \<in> dest_paths t"
proof -
  from assms consider "p = rt_state_db t" | "p \<in> snd ` set (rt_logs t)"
    | (side) "in_directory (parent_of p) p" "in_directory (rt_output t) (parent_of p)" "name_of p = ''verification.json''"
    | (arch) dir where "dir \<in> snd ` set (rt_archives t)" "in_directory dir p"
    unfolding backed_up_def by blast
  then show ?thesis
  proof cases
    case side
    have "p = child_of (child_of (rt_output t) (name_of (parent_of p))) ''verification.json''"
      using in_directoryD[OF side(1)] in_directoryD[OF side(2)] side(3) by simp
    then show ?thesis unfolding dest_paths_def by blast
  next
    case arch
    with in_directoryD[OF arch(2)] show ?thesis unfolding dest_paths_def by blast
  qed (simp_all add: dest_paths_def)
qed

text \<open>(C11) Restoring a backup brings back the state it was taken from: once an apply reports success, every sidecar, archived
  sidecar and log of the backup has its old content and the database is the snapshot of the old one, whatever the disk
  held before. (The database file stands for itself and its write-ahead log, the snapshot for SQLite's online backup.)\<close>

theorem backup_roundtrip:
  assumes "build_backup_zip (rw_codec w) size_of t fs = Some z" and "server_layout t fs"
    and "apply_pending_restore w t root_dir safety en lims d = (Inr a, d')" and "ar_outcome a = ''applied''"
    and "map_of (rs_files d) (marker_path root_dir) = Some (Doc (JObj request))"
    and "safety_dir safety (dget ''restore_id'' request) = Some sdir"
    and "separate_layout t root_dir (staged_zip_of request) sdir"
    and "map_of (rs_files d) (staged_zip_of request) = Some z" and "staged_zip_of request \<noteq> tmp_of root_dir REQUEST_FILE"
    and "backed_up t p" and "map_of fs p = Some c"
  shows "map_of (rs_files d') p = (if p = rt_state_db t then cd_snapshot (rw_codec w) c else Some c)"
proof -
  obtain ms where z: "z = Zip_File ms" using backup_members[OF assms(1)] by blast
  from applied_steps[OF assms(3-7) assms(8)[unfolded z] assms(9)] obtain plan d3 d4
    where s: "validate_restore_zip (rw_codec w) lims z = Inr plan" "map_of (rs_files d3) (staged_zip_of request) = Some z"
      "apply_entries w t (staged_zip_of request) plan d3 = (None, d4)" "same_state t (rs_files d') (rs_files d4)"
    unfolding z by blast
  have "p \<in> dest_paths t" by (rule backed_up_dest[OF assms(10)])
  then have "p \<in> state_paths t" by (simp add: state_paths_def)
  then have "map_of (rs_files d') p = map_of (rs_files d4) p"
    using same_outsideD[OF s(4)[unfolded same_state_def]] by blast
  with entries_restore[OF s(3,2,1) assms(1,2,10,11)] show ?thesis by simp
qed

lemma demo_layout: "server_layout demo_targets demo_files"
proof -
  have "map fst (rt_archives demo_targets) = ARCHIVE_LABELS" "map fst (rt_logs demo_targets) = LOG_NAMES"
    "distinct (map fst demo_files)" "\<forall>x\<in>set demo_files. list_all clean_name (snd (fst x))" "snd (rt_state_db demo_targets) \<noteq> []"
    "\<forall>p\<in>set (rt_state_db demo_targets # map snd (rt_logs demo_targets)). \<not> suffix ''.restore.tmp'' (name_of p)"
    by code_simp+
  moreover have "rt_state_db demo_targets \<notin> evidence_paths demo_targets"
    by (auto simp: evidence_paths_def demo_targets_def demo_paths child_of_def)
  ultimately show ?thesis by (simp add: server_layout_def case_prod_beta)
qed

theorem backup_roundtrip_witness:
  "map_of (rs_files (snd (apply_pending_restore (demo_rworld (\<lambda>_. Works)) demo_targets demo_root (path_of ''/safe'') True DEFAULT_LIMITS
     (demo_disk ''staged'' demo_staged [(path_of ''/config/state.db'', Raw ''new'')])))) (path_of ''/d/0123456789cd.json'') = Some (Doc (JObj []))"
proof -
  let ?w = "demo_rworld (\<lambda>_. Works)" and ?d = "demo_disk ''staged'' demo_staged [(path_of ''/config/state.db'', Raw ''new'')]"
  let ?r = "apply_pending_restore ?w demo_targets demo_root (path_of ''/safe'') True DEFAULT_LIMITS ?d"
  have "case fst ?r of Inr a \<Rightarrow> ar_outcome a = ''applied'' | _ \<Rightarrow> False" by code_simp
  then obtain a where a: "?r = (Inr a, snd ?r)" "ar_outcome a = ''applied''" by (cases ?r) (auto split: sum.splits)
  have "build_backup_zip (rw_codec ?w) (\<lambda>_. 1) demo_targets demo_files \<noteq> None" by code_simp
  then have bk: "build_backup_zip (rw_codec ?w) (\<lambda>_. 1) demo_targets demo_files = Some demo_backup"
    by (auto simp: demo_backup_def demo_rworld_def)
  have m: "map_of (rs_files ?d) (marker_path demo_root) = Some (Doc (JObj (demo_request ''staged'' demo_staged)))" by code_simp
  have sd: "safety_dir (path_of ''/safe'') (dget ''restore_id'' (demo_request ''staged'' demo_staged)) = Some (''/'', [''safe'', ''r1''])" by code_simp
  have z: "staged_zip_of (demo_request ''staged'' demo_staged) = path_of demo_staged" by code_simp
  have "map_of (rs_files ?d) (path_of demo_staged) = Some demo_backup"
    by (simp add: demo_disk_def demo_paths marker_path_def child_of_def REQUEST_FILE_def)
  moreover have "path_of demo_staged \<noteq> tmp_of demo_root REQUEST_FILE" by code_simp
  moreover have "backed_up demo_targets (path_of ''/d/0123456789cd.json'')" by code_simp
  moreover have "map_of demo_files (path_of ''/d/0123456789cd.json'') = Some (Doc (JObj []))" by code_simp
  moreover have "path_of ''/d/0123456789cd.json'' \<noteq> rt_state_db demo_targets" by code_simp
  ultimately show ?thesis
    using backup_roundtrip[OF bk demo_layout a m sd demo_separate[folded z], unfolded z] by simp
qed

end
