(* ===== verification/Spec2Isabelle.thy ===== *)
theory Spec2Isabelle
  imports Verification Worker Album_Holds Backend_Jobs Library_Scan Library_Evidence
    Library_Comparison Decision_Pipeline Records Backend_Lane Scan_Worker Cd_Rip Release_Family
    Backend_Clients Source_Folders Soulseek Grab_Api Verification_Actions Restore_Effects
begin

text \<open>
  Verification of Mintarr, a quality gate between the music manager Lidarr and the sources it downloads
  from. Lidarr searches through a Newznab endpoint and grabs through an endpoint that looks like SABnzbd
  (\<open>app/server.py\<close>). A grab becomes a row of a durable queue (\<open>app/state_db.py\<close>), a worker thread
  (\<open>app/worker.py\<close>) claims it, an adapter (\<open>app/adapters/\<close>) copies or downloads the files, sensors measure
  them, the policy (\<open>app/verification.py\<close>) decides, and the release is imported into Lidarr, held for review or
  blocked. Alternatively a real SABnzbd or qBittorrent downloads for Mintarr (\<open>app/download_backend.py\<close>, the
  backend lane). In the background the existing library is measured (\<open>app/library_scan_worker.py\<close>), so that a
  candidate can be compared with what it would replace.

  \<^bold>\<open>Shared theories.\<close> \<open>Mintarr_Prelude\<close> has the strings and list functions of Python that the code uses,
  \<open>Py_Json\<close> its JSON values and dictionaries, \<open>Py_Float\<close> binary64 arithmetic as rounding of rationals, \<open>Py_Regex\<close> a
  backtracking matcher for the \<open>re\<close> patterns, \<open>Py_Words\<close> the normal form that substitution, collapsing and
  stripping compute, \<open>Sql_Table\<close> tables as lists of rows with the statements of the program, and \<open>State_Machine\<close>
  runs of labelled transition systems with one locale each for invariants, evolution and meters.

  \<^bold>\<open>Policy.\<close> \<open>Verification\<close> is \<open>app/verification.py\<close>: the score, the hard gates and the guards. \<open>Library_Comparison\<close>
  is \<open>app/library_comparison.py\<close>. \<open>Decision_Pipeline\<close> composes them the way \<open>_compute_verification\<close> and its helpers in
  \<open>app/server.py\<close> do. The lemmas say exactly when a candidate is blocked, what an automatic import has
  passed, and that the later adjustments neither add nor lift a block (locale \<open>guarded_adjustment\<close>).
  \<open>Sensor_Registry\<close>, \<open>Cd_Toc\<close>, \<open>Cd_Lookup\<close> and \<open>Cd_Rip\<close> are the sensors for ripped discs
  (\<open>app/sensor_registry.py\<close>, \<open>app/cd_toc.py\<close>, \<open>app/cd_discid.py\<close>, \<open>app/cd_lookup.py\<close>, \<open>app/cd_rip_evidence.py\<close>):
  tables of contents are well formed, cue sheets and binary bodies read back, and what a rip log can rescue.
  \<open>Release_Family\<close> is the release identity (\<open>app/release_family.py\<close>, \<open>app/release_metadata.py\<close>).

  \<^bold>\<open>Durable state.\<close> \<open>Job_Queue\<close>, \<open>Album_Holds\<close>, \<open>Backend_Jobs\<close>, \<open>Library_Scan\<close>, \<open>Evidence_Table\<close> and \<open>Records\<close> are the
  tables of \<open>app/state_db.py\<close> with their operations. Each has an invariant that every operation keeps. All writes of
  the program to the table of jobs are steps of one relation (\<open>table_step\<close>): the operations of the queue, and the
  insertion of library-scan jobs, which checks no dedupe key, so that the uniqueness of active keys is shown for all
  other keys. The holds refine a map from albums to live holds, the records read back as the sidecar that was stored.

  \<^bold>\<open>Background work.\<close> \<open>Worker\<close> is the retry policy and the life of one claimed job, for any executor.
  \<open>Library_Evidence\<close> measures one library file (\<open>app/library_evidence.py\<close>): every figure is that of the one contained
  file. \<open>Scan_Worker\<close> has the scan with its pool as a step relation in which each read of the queue is a step of its own:
  counters add up, a run makes a bounded number of effective steps and is never stuck, and the job of a scan is always
  settled, also when other threads act between its last two writes.

  \<^bold>\<open>Sources and backends.\<close> \<open>Source_Folders\<close> and \<open>Soulseek\<close> are the adapters of \<open>app/adapters/\<close> that read folders and
  talk to slskd (locale \<open>source_dir\<close>: what every adapter promises of the folder it resolves); \<open>Backend_Clients\<close> are the
  clients of \<open>app/download_backend.py\<close>, \<open>Backend_Lane\<close> the reconciliation, cancellation and ingest of their downloads.
  \<open>Grab_Tokens\<close> and \<open>Grab_Api\<close> are the request handlers of \<open>app/server.py\<close> from the search result to the queue row
  and back to the queue that Lidarr polls.

  \<^bold>\<open>Settling.\<close> \<open>Import_Settlement\<close> is the import of a verified release into Lidarr: the candidates, the ManualImport
  command, the evidence that it happened, and the rescue copy into the library. \<open>Verification_Actions\<close> is what an operator or the
  clock does with a release that waits for review: promote, retry, discard, expire, and the reconciliation of imports
  that Lidarr left pending. The state of a handler (\<open>desk\<close>) keeps every state it has been in, as recorded by the one
  operation that changes it, so that a property can speak of a crash between any two steps. An import makes and
  fills album folders of the library only and changes no table but the progress of its own job, an expiry can be
  resumed from every state it goes through, and a promotion ends in a state that reads as promoted or failed.

  \<^bold>\<open>Restore.\<close> \<open>Restore_Zip\<close> is the validation of a restore zip (\<open>app/restore.py\<close>) and the members of a backup
  (\<open>app/backup.py\<close>), \<open>Restore_Apply\<close> staging, cancelling and the apply at boot, with the request handlers. Every file
  operation may fail, and the disk keeps all its past states, so that a property can speak of a crash between any two
  operations. \<open>Restore_Effects\<close> shows that an accepted zip is within its limits, that a crash leaves the old state, a
  guarded one or the new one, and that a restore brings back what a backup saved.

  \<^bold>\<open>Choices.\<close> A string is a list of 8-bit characters, read as the code points below 256. Clock readings are rational
  numbers and arguments, so are fresh ids, file systems, HTTP servers, subprocess outputs and the polls of a loop;
  an HTTP server is a function of the requests sent so far, and the sent requests are part of the state. The
  database is in autocommit mode and every operation of \<open>app/state_db.py\<close> is one step. Code that is not in
  the repository (the truncated SHA-256, URL quoting, the table of named character references, TIDAL, the audio
  tools) is an argument of the definitions that call it.

  \<^bold>\<open>Loops.\<close> Loops over finite data are structural recursions or have a measure. The waiting loop of slskd gets as many
  polls as its deadline allows, which is proved to be enough. The pool of the scan is a step relation with a
  variant: at most six effective steps per trackfile, one for stopping and one per wait that timed out. How long import
  work or a running measurement makes it wait is not bounded, as it is not in the code.

  \<^bold>\<open>Not modelled.\<close> Code that only formats, schedules or transports: the dashboard and its templates apart from the
  library quality it reads, metrics, logging, notifications, the OpenAPI document, the readiness checks and the scripts.
  The TIDAL adapter drives a client that is not in the repository. Of \<open>app/server.py\<close> the remaining handlers only
  parse a request and call the modelled operations.
\<close>

end
